(* ===== verification/Hotki_Prelude.thy ===== *)
theory Hotki_Prelude
  imports Main "HOL-Library.Word" "HOL-Library.AList" "HOL-Library.List_Lexorder"
    "HOL-Library.Char_ord" "HOL-Library.Multiset"
begin

text \<open>
  Shared vocabulary of the development: the string operations of the Rust
  standard library that the crates call (\<open>to_ascii_lowercase\<close>, \<open>trim\<close>, \<open>split\<close>),
  saturating and wrapping counters, and the theorem collections the component
  theories use.  A Rust \<open>String\<close> is the list of its scalar values, restricted to
  the first 256 code points.
\<close>

unbundle bit_operations_syntax

named_theorems inv_intro \<open>facts establishing a component's invariant\<close>
named_theorems op_simps \<open>equations describing a component's operations\<close>

subsection \<open>Results\<close>

text \<open>Rust's \<open>Result<T, E>\<close> is the sum \<open>'e + 'a\<close>, with the error on the left.\<close>

abbreviation Err :: "'e \<Rightarrow> 'e + 'a" where "Err \<equiv> Inl"
abbreviation Ok :: "'a \<Rightarrow> 'e + 'a" where "Ok \<equiv> Inr"

definition is_ok :: "'e + 'a \<Rightarrow> bool" where
  "is_ok r = (case r of Inl _ \<Rightarrow> False | Inr _ \<Rightarrow> True)"

lemma is_ok_simps [simp]: "is_ok (Ok x)" "\<not> is_ok (Err e)"
  by (simp_all add: is_ok_def)

lemma is_ok_iff: "is_ok r \<longleftrightarrow> (\<exists>x. r = Ok x)"
  by (cases r) simp_all

subsection \<open>Strings\<close>

definition ascii_lower_char :: "char \<Rightarrow> char" where
  "ascii_lower_char c =
     (if 65 \<le> (of_char c :: nat) \<and> (of_char c :: nat) \<le> 90
      then char_of ((of_char c :: nat) + 32) else c)"

definition ascii_lower :: "string \<Rightarrow> string" where
  "ascii_lower s = map ascii_lower_char s"

lemma ascii_lower_char_idem [simp]: "ascii_lower_char (ascii_lower_char c) = ascii_lower_char c"
  by (auto simp: ascii_lower_char_def)

lemma ascii_lower_idem [simp]: "ascii_lower (ascii_lower s) = ascii_lower s"
  by (simp add: ascii_lower_def)

lemma ascii_lower_Nil [simp]: "ascii_lower [] = []"
  and ascii_lower_Cons [simp]: "ascii_lower (c # s) = ascii_lower_char c # ascii_lower s"
  and length_ascii_lower [simp]: "length (ascii_lower s) = length s"
  by (simp_all add: ascii_lower_def)

text \<open>The lowering of the letters, digits and punctuation that specs are written with.\<close>

lemma ascii_lower_char_simps [simp]:
  "ascii_lower_char (CHR ''A'') = CHR ''a''" "ascii_lower_char (CHR ''B'') = CHR ''b''"
  "ascii_lower_char (CHR ''C'') = CHR ''c''" "ascii_lower_char (CHR ''D'') = CHR ''d''"
  "ascii_lower_char (CHR ''E'') = CHR ''e''" "ascii_lower_char (CHR ''F'') = CHR ''f''"
  "ascii_lower_char (CHR ''G'') = CHR ''g''" "ascii_lower_char (CHR ''H'') = CHR ''h''"
  "ascii_lower_char (CHR ''I'') = CHR ''i''" "ascii_lower_char (CHR ''J'') = CHR ''j''"
  "ascii_lower_char (CHR ''K'') = CHR ''k''" "ascii_lower_char (CHR ''L'') = CHR ''l''"
  "ascii_lower_char (CHR ''M'') = CHR ''m''" "ascii_lower_char (CHR ''N'') = CHR ''n''"
  "ascii_lower_char (CHR ''O'') = CHR ''o''" "ascii_lower_char (CHR ''P'') = CHR ''p''"
  "ascii_lower_char (CHR ''Q'') = CHR ''q''" "ascii_lower_char (CHR ''R'') = CHR ''r''"
  "ascii_lower_char (CHR ''S'') = CHR ''s''" "ascii_lower_char (CHR ''T'') = CHR ''t''"
  "ascii_lower_char (CHR ''U'') = CHR ''u''" "ascii_lower_char (CHR ''V'') = CHR ''v''"
  "ascii_lower_char (CHR ''W'') = CHR ''w''" "ascii_lower_char (CHR ''X'') = CHR ''x''"
  "ascii_lower_char (CHR ''Y'') = CHR ''y''" "ascii_lower_char (CHR ''Z'') = CHR ''z''"
  "ascii_lower_char (CHR ''a'') = CHR ''a''" "ascii_lower_char (CHR ''b'') = CHR ''b''"
  "ascii_lower_char (CHR ''c'') = CHR ''c''" "ascii_lower_char (CHR ''d'') = CHR ''d''"
  "ascii_lower_char (CHR ''e'') = CHR ''e''" "ascii_lower_char (CHR ''f'') = CHR ''f''"
  "ascii_lower_char (CHR ''g'') = CHR ''g''" "ascii_lower_char (CHR ''h'') = CHR ''h''"
  "ascii_lower_char (CHR ''i'') = CHR ''i''" "ascii_lower_char (CHR ''j'') = CHR ''j''"
  "ascii_lower_char (CHR ''k'') = CHR ''k''" "ascii_lower_char (CHR ''l'') = CHR ''l''"
  "ascii_lower_char (CHR ''m'') = CHR ''m''" "ascii_lower_char (CHR ''n'') = CHR ''n''"
  "ascii_lower_char (CHR ''o'') = CHR ''o''" "ascii_lower_char (CHR ''p'') = CHR ''p''"
  "ascii_lower_char (CHR ''q'') = CHR ''q''" "ascii_lower_char (CHR ''r'') = CHR ''r''"
  "ascii_lower_char (CHR ''s'') = CHR ''s''" "ascii_lower_char (CHR ''t'') = CHR ''t''"
  "ascii_lower_char (CHR ''u'') = CHR ''u''" "ascii_lower_char (CHR ''v'') = CHR ''v''"
  "ascii_lower_char (CHR ''w'') = CHR ''w''" "ascii_lower_char (CHR ''x'') = CHR ''x''"
  "ascii_lower_char (CHR ''y'') = CHR ''y''" "ascii_lower_char (CHR ''z'') = CHR ''z''"
  "ascii_lower_char (CHR ''0'') = CHR ''0''" "ascii_lower_char (CHR ''1'') = CHR ''1''"
  "ascii_lower_char (CHR ''2'') = CHR ''2''" "ascii_lower_char (CHR ''3'') = CHR ''3''"
  "ascii_lower_char (CHR ''4'') = CHR ''4''" "ascii_lower_char (CHR ''5'') = CHR ''5''"
  "ascii_lower_char (CHR ''6'') = CHR ''6''" "ascii_lower_char (CHR ''7'') = CHR ''7''"
  "ascii_lower_char (CHR ''8'') = CHR ''8''" "ascii_lower_char (CHR ''9'') = CHR ''9''"
  "ascii_lower_char (CHR '' '') = CHR '' ''" "ascii_lower_char (CHR ''-'') = CHR ''-''"
  "ascii_lower_char (CHR ''='') = CHR ''=''" "ascii_lower_char (CHR ''['') = CHR ''[''"
  "ascii_lower_char (CHR '']'') = CHR '']''" "ascii_lower_char (CHR '';'') = CHR '';''"
  "ascii_lower_char (CHR '','') = CHR '',''" "ascii_lower_char (CHR ''.'') = CHR ''.''"
  "ascii_lower_char (CHR ''/'') = CHR ''/''" "ascii_lower_char (CHR ''+'') = CHR ''+''"
  "ascii_lower_char (CHR ''_'') = CHR ''_''"
  "ascii_lower_char (CHR 0x5C) = CHR 0x5C" "ascii_lower_char (CHR 0x27) = CHR 0x27"
  "ascii_lower_char (CHR 0x60) = CHR 0x60"
  by (simp_all add: ascii_lower_char_def char_of_def bit_Suc_0_iff)

definition is_whitespace :: "char \<Rightarrow> bool" where
  "is_whitespace c =
     (let n = (of_char c :: nat) in 9 \<le> n \<and> n \<le> 13 \<or> n = 32 \<or> n = 133 \<or> n = 160)"

definition trim_start :: "string \<Rightarrow> string" where
  "trim_start s = dropWhile is_whitespace s"

definition trim_end :: "string \<Rightarrow> string" where
  "trim_end s = rev (dropWhile is_whitespace (rev s))"

definition trim :: "string \<Rightarrow> string" where
  "trim s = trim_end (trim_start s)"

lemma trim_id:
  assumes "s \<noteq> []" "\<not> is_whitespace (hd s)" "\<not> is_whitespace (last s)"
  shows "trim s = s"
proof -
  have "dropWhile is_whitespace s = s"
    using assms by (cases s) simp_all
  moreover have "dropWhile is_whitespace (rev s) = rev s"
    using assms by (cases "rev s") (auto simp: last_rev hd_rev)
  ultimately show ?thesis
    by (simp add: trim_def trim_start_def trim_end_def)
qed

text \<open>\<open>str::split(sep)\<close>: the empty string is one empty piece.\<close>

fun split_on :: "'a \<Rightarrow> 'a list \<Rightarrow> 'a list list" where
  "split_on sep [] = [[]]"
| "split_on sep (x # xs) =
     (if x = sep then [] # split_on sep xs
      else (case split_on sep xs of
              [] \<Rightarrow> [[x]]
            | p # ps \<Rightarrow> (x # p) # ps))"

lemma split_on_not_Nil [simp]: "split_on sep xs \<noteq> []"
  by (cases xs) (auto split: list.splits)

lemma split_on_no_sep: "sep \<notin> set p \<Longrightarrow> split_on sep p = [p]"
  by (induction p) auto

lemma split_on_append_sep:
  "sep \<notin> set p \<Longrightarrow> split_on sep (p @ sep # rest) = p # split_on sep rest"
  by (induction p) auto

lemma split_on_pieces:
  assumes "\<And>p. p \<in> set ps \<Longrightarrow> sep \<notin> set p" and "sep \<notin> set q"
  shows "split_on sep (concat (map (\<lambda>p. p @ [sep]) ps) @ q) = ps @ [q]"
  using assms by (induction ps) (auto simp: split_on_append_sep split_on_no_sep)

subsection \<open>Saturating arithmetic on machine integers\<close>

definition sat_add :: "'a::len word \<Rightarrow> 'a word \<Rightarrow> 'a word" where
  "sat_add a b = (if unat a + unat b < 2 ^ LENGTH('a) then a + b else - 1)"

definition sat_sub :: "'a::len word \<Rightarrow> 'a word \<Rightarrow> 'a word" where
  "sat_sub a b = (if b \<le> a then a - b else 0)"

lemma unat_sat_add:
  "unat (sat_add a b) = min (unat a + unat b) (2 ^ LENGTH('a) - 1)" for a b :: "'a::len word"
  by (auto simp: sat_add_def unat_plus_if' unsigned_minus_1_eq_mask mask_eq_exp_minus_1 min_def)

lemma unat_sat_sub: "unat (sat_sub a b) = unat a - unat b" for a b :: "'a::len word"
  by (auto simp: sat_sub_def unat_sub word_le_nat_alt)

lemma unat_plus_one:
  fixes t :: "'a::len word"
  assumes "t < - 1"
  shows "unat (t + 1) = Suc (unat t)"
proof -
  have "1 + t \<noteq> 0" using assms by (auto simp only: add_eq_0_iff)
  then show ?thesis using unatSuc[of t] by (simp add: add.commute)
qed

subsection \<open>Sorting and removing adjacent duplicates\<close>

lemma sorted_remdups_adj_distinct: "sorted xs \<Longrightarrow> distinct (remdups_adj xs)"
proof (induction xs rule: remdups_adj.induct)
  case (3 x y xs)
  have "x \<notin> set (y # xs)" if "x \<noteq> y"
    using that "3.prems" by (meson order.antisym set_ConsD sorted_simps(2) list.set_intros(1))
  then show ?case using 3 by (auto simp del: remdups_adj.simps simp add: remdups_adj.simps(3))
qed auto

lemma distinct_remdups_adj_sort_key:
  assumes "inj f"
  shows "distinct (remdups_adj (sort_key f xs))"
proof -
  have "map f (remdups_adj (sort_key f xs)) = remdups_adj (map f (sort_key f xs))"
    by (simp add: remdups_adj_map_injective assms)
  moreover have "distinct (remdups_adj (map f (sort_key f xs)))"
    by (intro sorted_remdups_adj_distinct sorted_sort_key)
  ultimately show ?thesis by (metis distinct_map)
qed

end
