(* ===== verification/Key_Enum.thy ===== *)
theory Key_Enum
  imports Hotki_Prelude
begin

text \<open>
  The enum of macOS virtual keycodes (\<open>mac-keycode/src/key.rs\<close>).  Variants carry
  the prefix \<open>Key_\<close>.  The \<open>match\<close> expressions over string or integer literals are
  lookup tables in the order of the arms; \<open>match\<close> expressions over the enum are
  \<open>primrec\<close>.
\<close>

subsection \<open>Keys\<close>

datatype (plugins only: size) key =
    Key_A | Key_S | Key_D | Key_F | Key_H | Key_G | Key_Z | Key_X | Key_C | Key_V |
    Key_ISOSection | Key_B | Key_Q | Key_W | Key_E | Key_R | Key_Y | Key_T | Key_Digit1 |
    Key_Digit2 | Key_Digit3 | Key_Digit4 | Key_Digit6 | Key_Digit5 | Key_Equal | Key_Digit9 |
    Key_Digit7 | Key_Minus | Key_Digit8 | Key_Digit0 | Key_RightBracket | Key_O | Key_U |
    Key_LeftBracket | Key_I | Key_P | Key_Return | Key_L | Key_J | Key_Quote | Key_K |
    Key_Semicolon | Key_Backslash | Key_Comma | Key_Slash | Key_N | Key_M | Key_Period |
    Key_Tab | Key_Space | Key_Grave | Key_Delete | Key_Escape | Key_RightCommand |
    Key_Command | Key_Shift | Key_CapsLock | Key_Option | Key_Control | Key_RightShift |
    Key_RightOption | Key_RightControl | Key_Function | Key_F17 | Key_KeypadDecimal |
    Key_KeypadMultiply | Key_KeypadPlus | Key_KeypadClear | Key_VolumeUp | Key_VolumeDown |
    Key_Mute | Key_KeypadDivide | Key_KeypadEnter | Key_KeypadMinus | Key_F18 | Key_F19 |
    Key_KeypadEquals | Key_Keypad0 | Key_Keypad1 | Key_Keypad2 | Key_Keypad3 | Key_Keypad4 |
    Key_Keypad5 | Key_Keypad6 | Key_Keypad7 | Key_F20 | Key_Keypad8 | Key_Keypad9 |
    Key_JISYen | Key_JISUnderscore | Key_JISKeypadComma | Key_F5 | Key_F6 | Key_F7 | Key_F3 |
    Key_F8 | Key_F9 | Key_JISEisu | Key_F11 | Key_JISKana | Key_F13 | Key_F16 | Key_F14 |
    Key_F10 | Key_ContextualMenu | Key_F12 | Key_F15 | Key_Help | Key_Home | Key_PageUp |
    Key_ForwardDelete | Key_F4 | Key_End | Key_F2 | Key_PageDown | Key_F1 | Key_LeftArrow |
    Key_RightArrow | Key_DownArrow | Key_UpArrow

text \<open>The discriminant \<open>key as u16\<close>.\<close>

primrec key_code :: "key \<Rightarrow> 16 word" where
  "key_code Key_A = 0"
| "key_code Key_S = 1"
| "key_code Key_D = 0x2"
| "key_code Key_F = 0x3"
| "key_code Key_H = 0x4"
| "key_code Key_G = 0x5"
| "key_code Key_Z = 0x6"
| "key_code Key_X = 0x7"
| "key_code Key_C = 0x8"
| "key_code Key_V = 0x9"
| "key_code Key_ISOSection = 0xA"
| "key_code Key_B = 0xB"
| "key_code Key_Q = 0xC"
| "key_code Key_W = 0xD"
| "key_code Key_E = 0xE"
| "key_code Key_R = 0xF"
| "key_code Key_Y = 0x10"
| "key_code Key_T = 0x11"
| "key_code Key_Digit1 = 0x12"
| "key_code Key_Digit2 = 0x13"
| "key_code Key_Digit3 = 0x14"
| "key_code Key_Digit4 = 0x15"
| "key_code Key_Digit6 = 0x16"
| "key_code Key_Digit5 = 0x17"
| "key_code Key_Equal = 0x18"
| "key_code Key_Digit9 = 0x19"
| "key_code Key_Digit7 = 0x1A"
| "key_code Key_Minus = 0x1B"
| "key_code Key_Digit8 = 0x1C"
| "key_code Key_Digit0 = 0x1D"
| "key_code Key_RightBracket = 0x1E"
| "key_code Key_O = 0x1F"
| "key_code Key_U = 0x20"
| "key_code Key_LeftBracket = 0x21"
| "key_code Key_I = 0x22"
| "key_code Key_P = 0x23"
| "key_code Key_Return = 0x24"
| "key_code Key_L = 0x25"
| "key_code Key_J = 0x26"
| "key_code Key_Quote = 0x27"
| "key_code Key_K = 0x28"
| "key_code Key_Semicolon = 0x29"
| "key_code Key_Backslash = 0x2A"
| "key_code Key_Comma = 0x2B"
| "key_code Key_Slash = 0x2C"
| "key_code Key_N = 0x2D"
| "key_code Key_M = 0x2E"
| "key_code Key_Period = 0x2F"
| "key_code Key_Tab = 0x30"
| "key_code Key_Space = 0x31"
| "key_code Key_Grave = 0x32"
| "key_code Key_Delete = 0x33"
| "key_code Key_Escape = 0x35"
| "key_code Key_RightCommand = 0x36"
| "key_code Key_Command = 0x37"
| "key_code Key_Shift = 0x38"
| "key_code Key_CapsLock = 0x39"
| "key_code Key_Option = 0x3A"
| "key_code Key_Control = 0x3B"
| "key_code Key_RightShift = 0x3C"
| "key_code Key_RightOption = 0x3D"
| "key_code Key_RightControl = 0x3E"
| "key_code Key_Function = 0x3F"
| "key_code Key_F17 = 0x40"
| "key_code Key_KeypadDecimal = 0x41"
| "key_code Key_KeypadMultiply = 0x43"
| "key_code Key_KeypadPlus = 0x45"
| "key_code Key_KeypadClear = 0x47"
| "key_code Key_VolumeUp = 0x48"
| "key_code Key_VolumeDown = 0x49"
| "key_code Key_Mute = 0x4A"
| "key_code Key_KeypadDivide = 0x4B"
| "key_code Key_KeypadEnter = 0x4C"
| "key_code Key_KeypadMinus = 0x4E"
| "key_code Key_F18 = 0x4F"
| "key_code Key_F19 = 0x50"
| "key_code Key_KeypadEquals = 0x51"
| "key_code Key_Keypad0 = 0x52"
| "key_code Key_Keypad1 = 0x53"
| "key_code Key_Keypad2 = 0x54"
| "key_code Key_Keypad3 = 0x55"
| "key_code Key_Keypad4 = 0x56"
| "key_code Key_Keypad5 = 0x57"
| "key_code Key_Keypad6 = 0x58"
| "key_code Key_Keypad7 = 0x59"
| "key_code Key_F20 = 0x5A"
| "key_code Key_Keypad8 = 0x5B"
| "key_code Key_Keypad9 = 0x5C"
| "key_code Key_JISYen = 0x5D"
| "key_code Key_JISUnderscore = 0x5E"
| "key_code Key_JISKeypadComma = 0x5F"
| "key_code Key_F5 = 0x60"
| "key_code Key_F6 = 0x61"
| "key_code Key_F7 = 0x62"
| "key_code Key_F3 = 0x63"
| "key_code Key_F8 = 0x64"
| "key_code Key_F9 = 0x65"
| "key_code Key_JISEisu = 0x66"
| "key_code Key_F11 = 0x67"
| "key_code Key_JISKana = 0x68"
| "key_code Key_F13 = 0x69"
| "key_code Key_F16 = 0x6A"
| "key_code Key_F14 = 0x6B"
| "key_code Key_F10 = 0x6D"
| "key_code Key_ContextualMenu = 0x6E"
| "key_code Key_F12 = 0x6F"
| "key_code Key_F15 = 0x71"
| "key_code Key_Help = 0x72"
| "key_code Key_Home = 0x73"
| "key_code Key_PageUp = 0x74"
| "key_code Key_ForwardDelete = 0x75"
| "key_code Key_F4 = 0x76"
| "key_code Key_End = 0x77"
| "key_code Key_F2 = 0x78"
| "key_code Key_PageDown = 0x79"
| "key_code Key_F1 = 0x7A"
| "key_code Key_LeftArrow = 0x7B"
| "key_code Key_RightArrow = 0x7C"
| "key_code Key_DownArrow = 0x7D"
| "key_code Key_UpArrow = 0x7E"

primrec key_name :: "key \<Rightarrow> string" where
  "key_name Key_A = ''A''"
| "key_name Key_S = ''S''"
| "key_name Key_D = ''D''"
| "key_name Key_F = ''F''"
| "key_name Key_H = ''H''"
| "key_name Key_G = ''G''"
| "key_name Key_Z = ''Z''"
| "key_name Key_X = ''X''"
| "key_name Key_C = ''C''"
| "key_name Key_V = ''V''"
| "key_name Key_ISOSection = ''ISOSection''"
| "key_name Key_B = ''B''"
| "key_name Key_Q = ''Q''"
| "key_name Key_W = ''W''"
| "key_name Key_E = ''E''"
| "key_name Key_R = ''R''"
| "key_name Key_Y = ''Y''"
| "key_name Key_T = ''T''"
| "key_name Key_Digit1 = ''Digit1''"
| "key_name Key_Digit2 = ''Digit2''"
| "key_name Key_Digit3 = ''Digit3''"
| "key_name Key_Digit4 = ''Digit4''"
| "key_name Key_Digit6 = ''Digit6''"
| "key_name Key_Digit5 = ''Digit5''"
| "key_name Key_Equal = ''Equal''"
| "key_name Key_Digit9 = ''Digit9''"
| "key_name Key_Digit7 = ''Digit7''"
| "key_name Key_Minus = ''Minus''"
| "key_name Key_Digit8 = ''Digit8''"
| "key_name Key_Digit0 = ''Digit0''"
| "key_name Key_RightBracket = ''RightBracket''"
| "key_name Key_O = ''O''"
| "key_name Key_U = ''U''"
| "key_name Key_LeftBracket = ''LeftBracket''"
| "key_name Key_I = ''I''"
| "key_name Key_P = ''P''"
| "key_name Key_Return = ''Return''"
| "key_name Key_L = ''L''"
| "key_name Key_J = ''J''"
| "key_name Key_Quote = ''Quote''"
| "key_name Key_K = ''K''"
| "key_name Key_Semicolon = ''Semicolon''"
| "key_name Key_Backslash = ''Backslash''"
| "key_name Key_Comma = ''Comma''"
| "key_name Key_Slash = ''Slash''"
| "key_name Key_N = ''N''"
| "key_name Key_M = ''M''"
| "key_name Key_Period = ''Period''"
| "key_name Key_Tab = ''Tab''"
| "key_name Key_Space = ''Space''"
| "key_name Key_Grave = ''Grave''"
| "key_name Key_Delete = ''Delete''"
| "key_name Key_Escape = ''Escape''"
| "key_name Key_RightCommand = ''RightCommand''"
| "key_name Key_Command = ''Command''"
| "key_name Key_Shift = ''Shift''"
| "key_name Key_CapsLock = ''CapsLock''"
| "key_name Key_Option = ''Option''"
| "key_name Key_Control = ''Control''"
| "key_name Key_RightShift = ''RightShift''"
| "key_name Key_RightOption = ''RightOption''"
| "key_name Key_RightControl = ''RightControl''"
| "key_name Key_Function = ''Function''"
| "key_name Key_F17 = ''F17''"
| "key_name Key_KeypadDecimal = ''KeypadDecimal''"
| "key_name Key_KeypadMultiply = ''KeypadMultiply''"
| "key_name Key_KeypadPlus = ''KeypadPlus''"
| "key_name Key_KeypadClear = ''KeypadClear''"
| "key_name Key_VolumeUp = ''VolumeUp''"
| "key_name Key_VolumeDown = ''VolumeDown''"
| "key_name Key_Mute = ''Mute''"
| "key_name Key_KeypadDivide = ''KeypadDivide''"
| "key_name Key_KeypadEnter = ''KeypadEnter''"
| "key_name Key_KeypadMinus = ''KeypadMinus''"
| "key_name Key_F18 = ''F18''"
| "key_name Key_F19 = ''F19''"
| "key_name Key_KeypadEquals = ''KeypadEquals''"
| "key_name Key_Keypad0 = ''Keypad0''"
| "key_name Key_Keypad1 = ''Keypad1''"
| "key_name Key_Keypad2 = ''Keypad2''"
| "key_name Key_Keypad3 = ''Keypad3''"
| "key_name Key_Keypad4 = ''Keypad4''"
| "key_name Key_Keypad5 = ''Keypad5''"
| "key_name Key_Keypad6 = ''Keypad6''"
| "key_name Key_Keypad7 = ''Keypad7''"
| "key_name Key_F20 = ''F20''"
| "key_name Key_Keypad8 = ''Keypad8''"
| "key_name Key_Keypad9 = ''Keypad9''"
| "key_name Key_JISYen = ''JISYen''"
| "key_name Key_JISUnderscore = ''JISUnderscore''"
| "key_name Key_JISKeypadComma = ''JISKeypadComma''"
| "key_name Key_F5 = ''F5''"
| "key_name Key_F6 = ''F6''"
| "key_name Key_F7 = ''F7''"
| "key_name Key_F3 = ''F3''"
| "key_name Key_F8 = ''F8''"
| "key_name Key_F9 = ''F9''"
| "key_name Key_JISEisu = ''JISEisu''"
| "key_name Key_F11 = ''F11''"
| "key_name Key_JISKana = ''JISKana''"
| "key_name Key_F13 = ''F13''"
| "key_name Key_F16 = ''F16''"
| "key_name Key_F14 = ''F14''"
| "key_name Key_F10 = ''F10''"
| "key_name Key_ContextualMenu = ''ContextualMenu''"
| "key_name Key_F12 = ''F12''"
| "key_name Key_F15 = ''F15''"
| "key_name Key_Help = ''Help''"
| "key_name Key_Home = ''Home''"
| "key_name Key_PageUp = ''PageUp''"
| "key_name Key_ForwardDelete = ''ForwardDelete''"
| "key_name Key_F4 = ''F4''"
| "key_name Key_End = ''End''"
| "key_name Key_F2 = ''F2''"
| "key_name Key_PageDown = ''PageDown''"
| "key_name Key_F1 = ''F1''"
| "key_name Key_LeftArrow = ''LeftArrow''"
| "key_name Key_RightArrow = ''RightArrow''"
| "key_name Key_DownArrow = ''DownArrow''"
| "key_name Key_UpArrow = ''UpArrow''"

definition keycode_table :: "(16 word \<times> key) list" where
  "keycode_table = [
     (0, Key_A), (1, Key_S), (0x2, Key_D), (0x3, Key_F), (0x4, Key_H), (0x5, Key_G),
     (0x6, Key_Z), (0x7, Key_X), (0x8, Key_C), (0x9, Key_V), (0xA, Key_ISOSection),
     (0xB, Key_B), (0xC, Key_Q), (0xD, Key_W), (0xE, Key_E), (0xF, Key_R), (0x10, Key_Y),
     (0x11, Key_T), (0x12, Key_Digit1), (0x13, Key_Digit2), (0x14, Key_Digit3),
     (0x15, Key_Digit4), (0x16, Key_Digit6), (0x17, Key_Digit5), (0x18, Key_Equal),
     (0x19, Key_Digit9), (0x1A, Key_Digit7), (0x1B, Key_Minus), (0x1C, Key_Digit8),
     (0x1D, Key_Digit0), (0x1E, Key_RightBracket), (0x1F, Key_O), (0x20, Key_U),
     (0x21, Key_LeftBracket), (0x22, Key_I), (0x23, Key_P), (0x24, Key_Return), (0x25, Key_L),
     (0x26, Key_J), (0x27, Key_Quote), (0x28, Key_K), (0x29, Key_Semicolon),
     (0x2A, Key_Backslash), (0x2B, Key_Comma), (0x2C, Key_Slash), (0x2D, Key_N), (0x2E, Key_M),
     (0x2F, Key_Period), (0x30, Key_Tab), (0x31, Key_Space), (0x32, Key_Grave),
     (0x33, Key_Delete), (0x35, Key_Escape), (0x36, Key_RightCommand), (0x37, Key_Command),
     (0x38, Key_Shift), (0x39, Key_CapsLock), (0x3A, Key_Option), (0x3B, Key_Control),
     (0x3C, Key_RightShift), (0x3D, Key_RightOption), (0x3E, Key_RightControl),
     (0x3F, Key_Function), (0x40, Key_F17), (0x41, Key_KeypadDecimal),
     (0x43, Key_KeypadMultiply), (0x45, Key_KeypadPlus), (0x47, Key_KeypadClear),
     (0x48, Key_VolumeUp), (0x49, Key_VolumeDown), (0x4A, Key_Mute), (0x4B, Key_KeypadDivide),
     (0x4C, Key_KeypadEnter), (0x4E, Key_KeypadMinus), (0x4F, Key_F18), (0x50, Key_F19),
     (0x51, Key_KeypadEquals), (0x52, Key_Keypad0), (0x53, Key_Keypad1), (0x54, Key_Keypad2),
     (0x55, Key_Keypad3), (0x56, Key_Keypad4), (0x57, Key_Keypad5), (0x58, Key_Keypad6),
     (0x59, Key_Keypad7), (0x5A, Key_F20), (0x5B, Key_Keypad8), (0x5C, Key_Keypad9),
     (0x5D, Key_JISYen), (0x5E, Key_JISUnderscore), (0x5F, Key_JISKeypadComma), (0x60, Key_F5),
     (0x61, Key_F6), (0x62, Key_F7), (0x63, Key_F3), (0x64, Key_F8), (0x65, Key_F9),
     (0x66, Key_JISEisu), (0x67, Key_F11), (0x68, Key_JISKana), (0x69, Key_F13),
     (0x6A, Key_F16), (0x6B, Key_F14), (0x6D, Key_F10), (0x6E, Key_ContextualMenu),
     (0x6F, Key_F12), (0x71, Key_F15), (0x72, Key_Help), (0x73, Key_Home), (0x74, Key_PageUp),
     (0x75, Key_ForwardDelete), (0x76, Key_F4), (0x77, Key_End), (0x78, Key_F2),
     (0x79, Key_PageDown), (0x7A, Key_F1), (0x7B, Key_LeftArrow), (0x7C, Key_RightArrow),
     (0x7D, Key_DownArrow), (0x7E, Key_UpArrow)]"

definition key_from_keycode :: "16 word \<Rightarrow> key option" where
  "key_from_keycode code = map_of keycode_table code"

definition key_name_table :: "(string \<times> key) list" where
  "key_name_table = [
     (''a'', Key_A), (''s'', Key_S), (''d'', Key_D), (''f'', Key_F), (''h'', Key_H),
     (''g'', Key_G), (''z'', Key_Z), (''x'', Key_X), (''c'', Key_C), (''v'', Key_V),
     (''isosection'', Key_ISOSection), (''b'', Key_B), (''q'', Key_Q), (''w'', Key_W),
     (''e'', Key_E), (''r'', Key_R), (''y'', Key_Y), (''t'', Key_T), (''digit1'', Key_Digit1),
     (''digit2'', Key_Digit2), (''digit3'', Key_Digit3), (''digit4'', Key_Digit4),
     (''digit6'', Key_Digit6), (''digit5'', Key_Digit5), (''equal'', Key_Equal),
     (''digit9'', Key_Digit9), (''digit7'', Key_Digit7), (''minus'', Key_Minus),
     (''digit8'', Key_Digit8), (''digit0'', Key_Digit0), (''rightbracket'', Key_RightBracket),
     (''o'', Key_O), (''u'', Key_U), (''leftbracket'', Key_LeftBracket), (''i'', Key_I),
     (''p'', Key_P), (''return'', Key_Return), (''l'', Key_L), (''j'', Key_J),
     (''quote'', Key_Quote), (''k'', Key_K), (''semicolon'', Key_Semicolon),
     (''backslash'', Key_Backslash), (''comma'', Key_Comma), (''slash'', Key_Slash),
     (''n'', Key_N), (''m'', Key_M), (''period'', Key_Period), (''tab'', Key_Tab),
     (''space'', Key_Space), (''grave'', Key_Grave), (''delete'', Key_Delete),
     (''escape'', Key_Escape), (''rightcommand'', Key_RightCommand),
     (''command'', Key_Command), (''shift'', Key_Shift), (''capslock'', Key_CapsLock),
     (''option'', Key_Option), (''control'', Key_Control), (''rightshift'', Key_RightShift),
     (''rightoption'', Key_RightOption), (''rightcontrol'', Key_RightControl),
     (''function'', Key_Function), (''f17'', Key_F17), (''keypaddecimal'', Key_KeypadDecimal),
     (''keypadmultiply'', Key_KeypadMultiply), (''keypadplus'', Key_KeypadPlus),
     (''keypadclear'', Key_KeypadClear), (''volumeup'', Key_VolumeUp),
     (''volumedown'', Key_VolumeDown), (''mute'', Key_Mute),
     (''keypaddivide'', Key_KeypadDivide), (''keypadenter'', Key_KeypadEnter),
     (''keypadminus'', Key_KeypadMinus), (''f18'', Key_F18), (''f19'', Key_F19),
     (''keypadequals'', Key_KeypadEquals), (''keypad0'', Key_Keypad0),
     (''keypad1'', Key_Keypad1), (''keypad2'', Key_Keypad2), (''keypad3'', Key_Keypad3),
     (''keypad4'', Key_Keypad4), (''keypad5'', Key_Keypad5), (''keypad6'', Key_Keypad6),
     (''keypad7'', Key_Keypad7), (''f20'', Key_F20), (''keypad8'', Key_Keypad8),
     (''keypad9'', Key_Keypad9), (''jisyen'', Key_JISYen),
     (''jisunderscore'', Key_JISUnderscore), (''jiskeypadcomma'', Key_JISKeypadComma),
     (''f5'', Key_F5), (''f6'', Key_F6), (''f7'', Key_F7), (''f3'', Key_F3), (''f8'', Key_F8),
     (''f9'', Key_F9), (''jiseisu'', Key_JISEisu), (''f11'', Key_F11),
     (''jiskana'', Key_JISKana), (''f13'', Key_F13), (''f16'', Key_F16), (''f14'', Key_F14),
     (''f10'', Key_F10), (''contextualmenu'', Key_ContextualMenu), (''f12'', Key_F12),
     (''f15'', Key_F15), (''help'', Key_Help), (''home'', Key_Home), (''pageup'', Key_PageUp),
     (''forwarddelete'', Key_ForwardDelete), (''f4'', Key_F4), (''end'', Key_End),
     (''f2'', Key_F2), (''pagedown'', Key_PageDown), (''f1'', Key_F1),
     (''leftarrow'', Key_LeftArrow), (''rightarrow'', Key_RightArrow),
     (''downarrow'', Key_DownArrow), (''uparrow'', Key_UpArrow)]"

definition key_from_name :: "string \<Rightarrow> key option" where
  "key_from_name name = map_of key_name_table (ascii_lower name)"

lemma key_name_table_eq:
  "key_name_table = map (\<lambda>k. (ascii_lower (key_name k), k)) (map snd key_name_table)"
  by (simp add: key_name_table_def)

lemma distinct_key_name_table: "distinct (map fst key_name_table)"
  by (simp add: key_name_table_def)

lemma key_in_name_table: "k \<in> set (map snd key_name_table)"
  by (cases k) (simp_all add: key_name_table_def)

text \<open>The codes of the table ascend, and its entries are those of the names.\<close>

lemma keycode_table_eq: "keycode_table = map (\<lambda>k. (key_code k, k)) (map snd key_name_table)"
  by (simp add: keycode_table_def key_name_table_def)

lemma keycode_table_ascends: "successively (<) (map (\<lambda>e. unat (fst e)) keycode_table)"
  by (simp add: keycode_table_def)

lemma distinct_keycode_table: "distinct (map fst keycode_table)"
proof -
  have "sorted_wrt (<) (map (\<lambda>e. unat (fst e)) keycode_table)"
    using keycode_table_ascends by (subst (asm) successively_conv_sorted_wrt) (auto intro: transpI)
  then have "distinct (map unat (map fst keycode_table))"
    by (metis (no_types, lifting) comp_apply list.map_comp map_eq_conv strict_sorted_iff)
  then show ?thesis by (simp only: distinct_map)
qed

lemma key_from_keycode_code [simp]: "key_from_keycode (key_code k) = Some k"
proof -
  have "(key_code k, k) \<in> set keycode_table"
    using key_in_name_table [of k] unfolding keycode_table_eq by force
  then show ?thesis by (simp add: key_from_keycode_def distinct_keycode_table)
qed

lemma key_code_inject [simp]: "key_code j = key_code k \<longleftrightarrow> j = k"
  by (metis key_from_keycode_code option.inject)

lemma key_from_name_lower_name [simp]: "key_from_name (ascii_lower (key_name k)) = Some k"
proof -
  have "(ascii_lower (key_name k), k) \<in> set key_name_table"
    using key_in_name_table [of k] key_name_table_eq by (metis (no_types, lifting) image_eqI list.set_map)
  then show ?thesis
    by (simp add: key_from_name_def distinct_key_name_table)
qed

lemma key_from_name_name [simp]: "key_from_name (key_name k) = Some k"
  using key_from_name_lower_name [of k] by (simp add: key_from_name_def)

end
