(* ===== verification/Keycode.thy ===== *)
theory Keycode
  imports Key_Enum
begin

text \<open>
  The rest of crate \<open>mac-keycode\<close>: spec strings (\<open>spec.rs\<close>), modifiers
  (\<open>modifiers.rs\<close>), chords (\<open>chord.rs\<close>) and scancodes (\<open>scancode.rs\<close>).  A
  \<open>HashSet<Modifier>\<close> is a set; a \<open>Chord\<close> is a record of it and a key.
\<close>

subsection \<open>Key specs\<close>

text \<open>
  The entries of the macros \<open>key_spec_map!\<close> (shorthand symbols) and
  \<open>key_spec_aliases!\<close> (alias words), as pairs of key and spec.
\<close>

definition key_spec_map :: "(key \<times> string) list" where
  "key_spec_map = [
     (Key_Digit0, ''0''), (Key_Digit1, ''1''), (Key_Digit2, ''2''), (Key_Digit3, ''3''),
     (Key_Digit4, ''4''), (Key_Digit5, ''5''), (Key_Digit6, ''6''), (Key_Digit7, ''7''),
     (Key_Digit8, ''8''), (Key_Digit9, ''9''), (Key_Space, '' ''), (Key_Minus, ''-''),
     (Key_Equal, ''=''), (Key_LeftBracket, ''[''), (Key_RightBracket, '']''),
     (Key_Backslash, [CHR 0x5C]), (Key_Semicolon, '';''),
     (Key_Quote, [CHR 0x27]), (Key_Comma, '',''), (Key_Period, ''.''),
     (Key_Slash, ''/''), (Key_Grave, [CHR 0x60])]"

definition key_spec_aliases :: "(key \<times> string) list" where
  "key_spec_aliases = [
     (Key_Command, ''cmd''), (Key_Control, ''ctrl''), (Key_Option, ''opt''),
     (Key_Option, ''alt''), (Key_CapsLock, ''caps''), (Key_Function, ''fn''),
     (Key_Return, ''enter''), (Key_Return, ''ret''), (Key_Backslash, ''backslash''),
     (Key_Comma, ''comma''), (Key_Period, ''period''), (Key_Slash, ''slash''),
     (Key_Minus, ''minus''), (Key_Equal, ''equal''), (Key_Semicolon, ''semicolon''),
     (Key_Quote, ''quote''), (Key_Grave, ''grave''), (Key_LeftBracket, ''leftbracket''),
     (Key_RightBracket, ''rightbracket''), (Key_ForwardDelete, ''del''),
     (Key_Delete, ''backspace''), (Key_Escape, ''esc''), (Key_Space, ''space''),
     (Key_LeftArrow, ''left''), (Key_RightArrow, ''right''), (Key_UpArrow, ''up''),
     (Key_DownArrow, ''down''), (Key_PageUp, ''pgup''), (Key_PageDown, ''pgdn''),
     (Key_ContextualMenu, ''menu''), (Key_KeypadEnter, ''kpenter'')]"

text \<open>\<open>from_spec_match!\<close>: the first arm whose literal equals the string.\<close>

definition from_spec_match :: "string \<Rightarrow> (key \<times> string) list \<Rightarrow> key option" where
  "from_spec_match s arms = map_of (map (\<lambda>(k, v). (v, k)) arms) s"

text \<open>\<open>to_spec_match!\<close>: the first arm for the key, else its name.\<close>

definition to_spec_match :: "key \<Rightarrow> (key \<times> string) list \<Rightarrow> string" where
  "to_spec_match k arms = (case map_of arms k of Some s \<Rightarrow> s | None \<Rightarrow> key_name k)"

definition key_from_spec :: "string \<Rightarrow> key option" where
  "key_from_spec s =
     (case key_from_name s of
        Some k \<Rightarrow> Some k
      | None \<Rightarrow>
          (case from_spec_match s key_spec_map of
             Some k \<Rightarrow> Some k
           | None \<Rightarrow> from_spec_match (ascii_lower s) key_spec_aliases))"

definition key_to_spec :: "key \<Rightarrow> string" where
  "key_to_spec k = ascii_lower (to_spec_match k key_spec_map)"

lemma key_to_spec_no_plus: "CHR ''+'' \<notin> set (key_to_spec k)"
  by (cases k) (simp_all del: map_of.simps add: map_of_Cons_code key_to_spec_def to_spec_match_def key_spec_map_def)


lemma key_spec_map_no_name: "list_all (\<lambda>s. s \<notin> set (map fst key_name_table)) (map snd key_spec_map)"
  unfolding key_spec_map_def key_name_table_def by simp

lemma key_spec_map_lower: "list_all (\<lambda>s. ascii_lower s = s) (map snd key_spec_map)"
  unfolding key_spec_map_def by simp

lemma key_spec_map_distinct: "distinct (map snd key_spec_map)"
  unfolding key_spec_map_def by simp

lemma key_from_spec_shorthand:
  assumes "(k, s) \<in> set key_spec_map"
  shows "key_from_spec s = Some k" and "ascii_lower s = s"
proof -
  have s: "s \<in> set (map snd key_spec_map)"
    using assms by force
  show low: "ascii_lower s = s"
    using s key_spec_map_lower by (simp only: list_all_iff)
  have "map_of key_name_table s = None"
    using s key_spec_map_no_name by (auto simp add: list_all_iff map_of_eq_None_iff)
  moreover have "from_spec_match s key_spec_map = Some k"
    unfolding from_spec_match_def using assms key_spec_map_distinct
    by (intro map_of_is_SomeI) (auto simp: o_def case_prod_unfold image_iff, force)
  ultimately show "key_from_spec s = Some k"
    by (simp add: key_from_spec_def key_from_name_def low)
qed

lemma key_from_to_spec [simp]: "key_from_spec (key_to_spec k) = Some k"
proof (cases "map_of key_spec_map k")
  case None
  then show ?thesis by (simp add: key_from_spec_def key_to_spec_def to_spec_match_def)
next
  case (Some s)
  then have "(k, s) \<in> set key_spec_map" by (rule map_of_SomeD)
  from key_from_spec_shorthand [OF this] show ?thesis
    using Some by (simp add: key_to_spec_def to_spec_match_def)
qed

subsection \<open>Modifiers\<close>

datatype modifier =
    Mod_Command | Mod_Shift | Mod_Option | Mod_Control | Mod_CapsLock
  | Mod_Function | Mod_RightCommand | Mod_RightShift | Mod_RightOption | Mod_RightControl

text \<open>\<open>From<Modifier> for Key\<close> and \<open>TryFrom<Key> for Modifier\<close>.\<close>

primrec modifier_key :: "modifier \<Rightarrow> key" where
  "modifier_key Mod_Command = Key_Command"
| "modifier_key Mod_Shift = Key_Shift"
| "modifier_key Mod_Option = Key_Option"
| "modifier_key Mod_Control = Key_Control"
| "modifier_key Mod_CapsLock = Key_CapsLock"
| "modifier_key Mod_Function = Key_Function"
| "modifier_key Mod_RightCommand = Key_RightCommand"
| "modifier_key Mod_RightShift = Key_RightShift"
| "modifier_key Mod_RightOption = Key_RightOption"
| "modifier_key Mod_RightControl = Key_RightControl"

definition modifier_try_from :: "key \<Rightarrow> modifier option" where
  "modifier_try_from k =
     map_of [
       (Key_Command, Mod_Command),
       (Key_Shift, Mod_Shift),
       (Key_Option, Mod_Option),
       (Key_Control, Mod_Control),
       (Key_CapsLock, Mod_CapsLock),
       (Key_Function, Mod_Function),
       (Key_RightCommand, Mod_RightCommand),
       (Key_RightShift, Mod_RightShift),
       (Key_RightOption, Mod_RightOption),
       (Key_RightControl, Mod_RightControl)] k"

definition modifier_from_spec :: "string \<Rightarrow> modifier option" where
  "modifier_from_spec s = Option.bind (key_from_spec s) modifier_try_from"

definition modifier_to_spec :: "modifier \<Rightarrow> string" where
  "modifier_to_spec m =
     (case m of
        Mod_Command \<Rightarrow> ''cmd''
      | Mod_Control \<Rightarrow> ''ctrl''
      | Mod_Option \<Rightarrow> ''opt''
      | _ \<Rightarrow> ascii_lower (key_name (modifier_key m)))"

definition cg_flag_bits :: "modifier \<Rightarrow> 64 word" where
  "cg_flag_bits m =
     (if m = Mod_Shift \<or> m = Mod_RightShift then push_bit 17 1
      else if m = Mod_Control \<or> m = Mod_RightControl then push_bit 18 1
      else if m = Mod_Option \<or> m = Mod_RightOption then push_bit 19 1
      else if m = Mod_Command \<or> m = Mod_RightCommand then push_bit 20 1
      else 0)"

definition modifier_keycode :: "modifier \<Rightarrow> 16 word" where
  "modifier_keycode m = key_code (modifier_key m)"

definition modifiers_from_cg_flags :: "64 word \<Rightarrow> modifier set" where
  "modifiers_from_cg_flags flags =
     (let s0 = {};
          s1 = (if flags AND push_bit 17 1 \<noteq> 0 then insert Mod_Shift s0 else s0);
          s2 = (if flags AND push_bit 18 1 \<noteq> 0 then insert Mod_Control s1 else s1);
          s3 = (if flags AND push_bit 19 1 \<noteq> 0 then insert Mod_Option s2 else s2)
      in if flags AND push_bit 20 1 \<noteq> 0 then insert Mod_Command s3 else s3)"

lemma modifier_try_from_key [simp]: "modifier_try_from (modifier_key m) = Some m"
  by (cases m) (simp_all add: modifier_try_from_def)

lemma modifier_try_from_SomeD: "modifier_try_from k = Some m \<Longrightarrow> k = modifier_key m"
  by (auto simp: modifier_try_from_def split: if_splits)

lemma modifier_key_inject [simp]: "modifier_key m = modifier_key n \<longleftrightarrow> m = n"
  by (metis modifier_try_from_key option.inject)

lemma modifier_keycode_inject [simp]: "modifier_keycode m = modifier_keycode n \<longleftrightarrow> m = n"
  by (simp add: modifier_keycode_def)

subsection \<open>Canonical order of modifiers\<close>

primrec modifier_order :: "modifier \<Rightarrow> nat" where
  "modifier_order Mod_Command = 0"
| "modifier_order Mod_Option = 1"
| "modifier_order Mod_Control = 2"
| "modifier_order Mod_Shift = 3"
| "modifier_order Mod_Function = 4"
| "modifier_order Mod_CapsLock = 5"
| "modifier_order Mod_RightCommand = 6"
| "modifier_order Mod_RightControl = 7"
| "modifier_order Mod_RightOption = 8"
| "modifier_order Mod_RightShift = 9"

lemma modifier_order_inject [simp]: "modifier_order m = modifier_order n \<longleftrightarrow> m = n"
  by (cases m; cases n) simp_all

instantiation modifier :: linorder
begin

definition less_eq_modifier :: "modifier \<Rightarrow> modifier \<Rightarrow> bool" where
  "less_eq_modifier m n = (modifier_order m \<le> modifier_order n)"

definition less_modifier :: "modifier \<Rightarrow> modifier \<Rightarrow> bool" where
  "less_modifier m n = (modifier_order m < modifier_order n)"

instance
  by standard (auto simp: less_eq_modifier_def less_modifier_def)

end

definition all_modifiers :: "modifier list" where
  "all_modifiers = [Mod_Command, Mod_Option, Mod_Control, Mod_Shift, Mod_Function,
     Mod_CapsLock, Mod_RightCommand, Mod_RightControl, Mod_RightOption, Mod_RightShift]"

lemma all_modifiers: "set all_modifiers = UNIV" "sorted all_modifiers" "distinct all_modifiers"
proof -
  have "m \<in> set all_modifiers" for m
    by (cases m) (simp_all add: all_modifiers_def)
  then show "set all_modifiers = UNIV" by blast
  show "sorted all_modifiers" "distinct all_modifiers"
    by (simp_all add: all_modifiers_def less_eq_modifier_def)
qed

lemma finite_modifier [simp]: "finite (ms :: modifier set)"
proof (rule finite_subset)
  show "ms \<subseteq> set all_modifiers" by (simp add: all_modifiers)
qed simp

text \<open>
  A \<open>HashSet<Modifier>\<close> enumerates its elements in an unspecified order; sorting any
  enumeration by \<open>modifier_order\<close> gives the same list.
\<close>

lemma sort_enumeration:
  "distinct es \<Longrightarrow> set es = ms \<Longrightarrow> sort es = sorted_list_of_set (ms :: modifier set)"
  by (metis distinct_remdups_id sorted_list_of_set_sort_remdups)

lemma sorted_modifiers_filter:
  "sorted_list_of_set ms = filter (\<lambda>m. m \<in> ms) all_modifiers"
proof -
  have "sorted (filter (\<lambda>m. m \<in> ms) all_modifiers)"
    using all_modifiers(2) by (rule sorted_wrt_filter)
  moreover have "set (filter (\<lambda>m. m \<in> ms) all_modifiers) = ms"
    by (simp add: all_modifiers)
  ultimately show ?thesis
    using all_modifiers(3) by (metis distinct_filter finite_modifier sorted_list_of_set.idem_if_sorted_distinct)
qed

subsection \<open>Chords\<close>

record chord =
  modifiers :: "modifier set"
  chord_key :: key

text \<open>The loop of \<open>Chord::parse\<close> over the components before the key.\<close>

fun parse_modifiers :: "string list \<Rightarrow> modifier set \<Rightarrow> modifier set option" where
  "parse_modifiers [] ms = Some ms"
| "parse_modifiers (m # buf) ms =
     (let mt = trim m in
      if mt = [] then None
      else (case modifier_from_spec mt of
              None \<Rightarrow> None
            | Some mm \<Rightarrow> parse_modifiers buf (insert mm ms)))"

definition chord_parse :: "string \<Rightarrow> chord option" where
  "chord_parse s =
     (let buf = split_on (CHR ''+'') s;
          key_raw = last buf;
          k = (if key_raw = '' '' then key_from_spec '' '' else key_from_spec (trim key_raw))
      in case k of
           None \<Rightarrow> None
         | Some k \<Rightarrow>
             (case parse_modifiers (butlast buf) {} of
                None \<Rightarrow> None
              | Some ms \<Rightarrow> Some \<lparr>modifiers = ms, chord_key = k\<rparr>))"

definition chord_to_string :: "chord \<Rightarrow> string" where
  "chord_to_string c =
     concat (map (\<lambda>m. modifier_to_spec m @ ''+'') (sorted_list_of_set (modifiers c)))
     @ key_to_spec (chord_key c)"

subsection \<open>Round trips\<close>

text \<open>
  The command, control and option modifiers are displayed by a short form, which
  is read back through the alias table; the others by their lower-case name.
\<close>

lemma modifier_short_names:
  "list_all (\<lambda>s. s \<notin> set (map fst key_name_table) \<and> s \<notin> set (map snd key_spec_map))
     [''cmd'', ''ctrl'', ''opt'']"
  unfolding key_name_table_def key_spec_map_def by simp

lemma modifier_short_aliases:
  "from_spec_match ''cmd'' key_spec_aliases = Some Key_Command"
  "from_spec_match ''ctrl'' key_spec_aliases = Some Key_Control"
  "from_spec_match ''opt'' key_spec_aliases = Some Key_Option"
  by (simp_all add: from_spec_match_def key_spec_aliases_def)

lemma key_from_spec_alias:
  assumes "ascii_lower s \<notin> set (map fst key_name_table)" and "s \<notin> set (map snd key_spec_map)"
  shows "key_from_spec s = from_spec_match (ascii_lower s) key_spec_aliases"
proof -
  have "key_from_name s = None"
    using assms(1) by (simp add: key_from_name_def map_of_eq_None_iff)
  moreover have "from_spec_match s key_spec_map = None"
    using assms(2) by (auto simp: from_spec_match_def map_of_eq_None_iff image_iff)
  ultimately show ?thesis by (simp add: key_from_spec_def)
qed

lemma key_from_spec_lower_name: "key_from_spec (ascii_lower (key_name k)) = Some k"
  by (simp add: key_from_spec_def)

lemma modifier_from_to_spec [simp]: "modifier_from_spec (modifier_to_spec m) = Some m"
proof -
  have "key_from_spec (modifier_to_spec m) = Some (modifier_key m)"
    using modifier_short_names
    by (cases m) (simp_all add: modifier_to_spec_def key_from_spec_alias modifier_short_aliases
        key_from_spec_lower_name del: key_name.simps)
  then show ?thesis by (simp add: modifier_from_spec_def)
qed

text \<open>Specs hold no separator and survive trimming.\<close>

lemma modifier_to_spec_chars:
  "CHR ''+'' \<notin> set (modifier_to_spec m) \<and> trim (modifier_to_spec m) = modifier_to_spec m
   \<and> modifier_to_spec m \<noteq> []"
  by (cases m; simp add: modifier_to_spec_def) (rule trim_id; simp add: is_whitespace_def)+

lemma key_to_spec_trim: "k \<noteq> Key_Space \<Longrightarrow> trim (key_to_spec k) = key_to_spec k"
  by (rule trim_id; cases k)
    (simp_all add: key_to_spec_def to_spec_match_def key_spec_map_def is_whitespace_def)

lemma key_to_spec_Space: "key_to_spec k = '' '' \<longleftrightarrow> k = Key_Space"
  by (cases k) (simp_all add: key_to_spec_def to_spec_match_def key_spec_map_def)

lemma parse_modifiers_specs:
  "parse_modifiers (map modifier_to_spec ml) ms = Some (ms \<union> set ml)"
  by (induction ml arbitrary: ms) (simp_all add: modifier_to_spec_chars Let_def)

lemma chord_parse_pieces:
  "chord_parse (concat (map (\<lambda>m. modifier_to_spec m @ ''+'') ml) @ key_to_spec k)
   = Some \<lparr>modifiers = set ml, chord_key = k\<rparr>"
proof -
  have split: "split_on (CHR ''+'') (concat (map (\<lambda>m. modifier_to_spec m @ ''+'') ml) @ key_to_spec k)
      = map modifier_to_spec ml @ [key_to_spec k]"
    using split_on_pieces [OF _ key_to_spec_no_plus, of "map modifier_to_spec ml"]
      modifier_to_spec_chars by (fastforce simp: o_def)
  have k: "(if key_to_spec k = '' '' then key_from_spec '' '' else key_from_spec (trim (key_to_spec k)))
      = Some k"
    using key_from_to_spec [of k] by (metis key_to_spec_Space key_to_spec_trim)
  show ?thesis
    by (simp only: chord_parse_def split Let_def last_snoc butlast_snoc k option.case
        parse_modifiers_specs Un_empty_left)
qed

lemma parse_display_chord: "chord_parse (chord_to_string c) = Some c"
  by (simp add: chord_to_string_def chord_parse_pieces)

lemma chord_to_string_inject: "chord_to_string c = chord_to_string d \<longleftrightarrow> c = d"
  by (metis parse_display_chord option.inject)

lemma keycode_table_codes: "list_all (\<lambda>(c, k). key_code k = c) keycode_table"
  by (simp add: keycode_table_def)

lemma key_from_keycode_iff: "key_from_keycode w = Some k \<longleftrightarrow> key_code k = w"
proof
  assume "key_from_keycode w = Some k"
  then have "(w, k) \<in> set keycode_table"
    by (simp add: key_from_keycode_def map_of_SomeD)
  then show "key_code k = w"
    using keycode_table_codes by (auto simp: list_all_iff)
qed (auto simp: key_from_keycode_def [symmetric])

lemma cg_flag_bits_in:
  "m \<in> modifiers_from_cg_flags flags \<longleftrightarrow>
     m \<in> {Mod_Shift, Mod_Control, Mod_Option, Mod_Command} \<and> flags AND cg_flag_bits m \<noteq> 0"
  by (cases m) (simp_all add: modifiers_from_cg_flags_def cg_flag_bits_def Let_def)

subsection \<open>Properties\<close>

text \<open>
  C38: a chord's canonical text parses back to the same chord, and no two chords
  have the same text, so bindings keyed by that text never collide.
\<close>

theorem chord_text_roundtrip:
  "chord_parse (chord_to_string c) = Some c \<and> (chord_to_string c = chord_to_string d \<longleftrightarrow> c = d)"
  using parse_display_chord chord_to_string_inject by blast

text \<open>
  the scancode table, the name table and the spec parser invert the enum's
  discriminant, variant name and canonical spec; no scancode outside the enum is
  accepted.
\<close>

theorem key_tables_inverse:
  "(key_from_keycode w = Some k \<longleftrightarrow> key_code k = w)
   \<and> key_from_name (key_name k) = Some k
   \<and> key_from_spec (key_to_spec k) = Some k
   \<and> modifier_from_spec (modifier_to_spec m) = Some m"
  by (simp only: key_from_keycode_iff key_from_name_name key_from_to_spec modifier_from_to_spec)

end
