(* ===== verification/Protocol_Types.thy ===== *)
theory Protocol_Types
  imports Keycode
begin

text \<open>
  The data of \<open>hotki-protocol\<close> that the engine produces: focus and display
  snapshots (\<open>focus.rs\<close>, \<open>display.rs\<close>), the resolved style with its defaults
  (\<open>style.rs\<close>), HUD and selector snapshots and the messages to the UI (\<open>ui.rs\<close>),
  and input health (\<open>input.rs\<close>).  An \<open>f32\<close> is its IEEE bit pattern; the two glyph
  strings of the style lie outside the first 256 code points and are lists of
  scalar values.
\<close>

type_synonym f32 = "32 word"
type_synonym rgb = "8 word \<times> 8 word \<times> 8 word"
type_synonym glyphs = "32 word list"

subsection \<open>Focus and displays\<close>

record focus_snapshot =
  focus_id :: "32 word"
  focus_app :: string
  focus_title :: string
  focus_pid :: "32 word"
  focus_display_id :: "32 word option"

record display_frame =
  frame_id :: "32 word"
  frame_x :: f32
  frame_y :: f32
  frame_width :: f32
  frame_height :: f32

record displays_snapshot =
  global_top :: f32
  active_display :: "display_frame option"
  all_displays :: "display_frame list"

definition displays_default :: displays_snapshot where
  "displays_default = \<lparr>global_top = 0, active_display = None, all_displays = []\<rparr>"

subsection \<open>Notification kinds and toggles\<close>

datatype toggle = Toggle_On | Toggle_Off | Toggle_Toggle

datatype notify_kind = NK_Info | NK_Warn | NK_Error | NK_Success | NK_Ignore

subsection \<open>Style\<close>

datatype hud_mode = Mode_Hud | Mode_Hide | Mode_Mini

datatype font_weight =
    FW_Thin | FW_ExtraLight | FW_Light | FW_Regular | FW_Medium | FW_SemiBold
  | FW_Bold | FW_ExtraBold | FW_Black

datatype hud_pos = Pos_Center | Pos_N | Pos_NE | Pos_E | Pos_SE | Pos_S | Pos_SW | Pos_W | Pos_NW

record offset =
  offset_x :: f32
  offset_y :: f32

datatype notify_pos = NP_Left | NP_Right

record notify_window_style =
  nws_bg :: rgb
  nws_title_fg :: rgb
  nws_body_fg :: rgb
  nws_title_font_size :: f32
  nws_title_font_weight :: font_weight
  nws_body_font_size :: f32
  nws_body_font_weight :: font_weight
  nws_icon :: "glyphs option"

record notify_theme =
  theme_info :: notify_window_style
  theme_warn :: notify_window_style
  theme_error :: notify_window_style
  theme_success :: notify_window_style

definition style_for :: "notify_theme \<Rightarrow> notify_kind \<Rightarrow> notify_window_style" where
  "style_for t k =
     (case k of
        NK_Info \<Rightarrow> theme_info t
      | NK_Ignore \<Rightarrow> theme_info t
      | NK_Warn \<Rightarrow> theme_warn t
      | NK_Error \<Rightarrow> theme_error t
      | NK_Success \<Rightarrow> theme_success t)"

definition notify_theme_mk :: "rgb \<Rightarrow> rgb \<Rightarrow> rgb \<Rightarrow> glyphs option \<Rightarrow> notify_window_style" where
  "notify_theme_mk bg title_fg body_fg icon =
     \<lparr>nws_bg = bg, nws_title_fg = title_fg, nws_body_fg = body_fg,
      nws_title_font_size = 0x41600000, nws_title_font_weight = FW_Bold,
      nws_body_font_size = 0x41400000, nws_body_font_weight = FW_Regular, nws_icon = icon\<rparr>"

definition notify_theme_default :: notify_theme where
  "notify_theme_default =
     \<lparr>theme_info = notify_theme_mk (34, 34, 34) (255, 255, 255) (255, 255, 255) (Some [0x2139]),
      theme_warn = notify_theme_mk (68, 42, 0) (255, 193, 0) (255, 193, 0) (Some [0x26A0]),
      theme_error = notify_theme_mk (58, 0, 0) (255, 102, 102) (255, 102, 102) (Some [0xEA87]),
      theme_success = notify_theme_mk (12, 45, 12) (139, 255, 139) (139, 255, 139) (Some [0xF05D])\<rparr>"

record notify_config =
  nc_width :: f32
  nc_pos :: notify_pos
  nc_opacity :: f32
  nc_timeout :: f32
  nc_buffer :: "64 word"
  nc_radius :: f32
  nc_theme :: notify_theme

definition notify_config_default :: notify_config where
  "notify_config_default =
     \<lparr>nc_width = 0x43D20000, nc_pos = NP_Right, nc_opacity = 0x3F733333, nc_timeout = 0x40800000,
      nc_buffer = 200, nc_radius = 0x41400000, nc_theme = notify_theme_default\<rparr>"

record hud_pressed_style =
  hp_min_duration_ms :: "64 word"
  hp_bg :: rgb
  hp_title_fg :: rgb
  hp_key_fg :: rgb
  hp_key_bg :: rgb
  hp_mod_fg :: rgb
  hp_mod_bg :: rgb
  hp_tag_fg :: rgb

definition hud_pressed_default :: hud_pressed_style where
  "hud_pressed_default =
     \<lparr>hp_min_duration_ms = 120, hp_bg = (32, 41, 95), hp_title_fg = (255, 255, 255),
      hp_key_fg = (255, 255, 255), hp_key_bg = (70, 83, 164), hp_mod_fg = (255, 255, 255),
      hp_mod_bg = (90, 87, 104), hp_tag_fg = (143, 168, 255)\<rparr>"

record hud_style =
  hs_mode :: hud_mode
  hs_pos :: hud_pos
  hs_offset :: offset
  hs_font_size :: f32
  hs_title_font_weight :: font_weight
  hs_key_font_size :: f32
  hs_key_font_weight :: font_weight
  hs_tag_font_size :: f32
  hs_tag_font_weight :: font_weight
  hs_title_fg :: rgb
  hs_bg :: rgb
  hs_key_fg :: rgb
  hs_key_bg :: rgb
  hs_mod_fg :: rgb
  hs_mod_font_weight :: font_weight
  hs_mod_bg :: rgb
  hs_tag_fg :: rgb
  hs_opacity :: f32
  hs_key_radius :: f32
  hs_key_pad_x :: f32
  hs_key_pad_y :: f32
  hs_radius :: f32
  hs_tag_submenu :: glyphs
  hs_pressed :: hud_pressed_style

definition hud_style_default :: hud_style where
  "hud_style_default =
     \<lparr>hs_mode = Mode_Hud, hs_pos = Pos_Center, hs_offset = \<lparr>offset_x = 0, offset_y = 0\<rparr>,
      hs_font_size = 0x41600000, hs_title_font_weight = FW_Regular,
      hs_key_font_size = 0x41980000, hs_key_font_weight = FW_Bold,
      hs_tag_font_size = 0x41A00000, hs_tag_font_weight = FW_Regular,
      hs_title_fg = (208, 208, 208), hs_bg = (16, 16, 16), hs_key_fg = (208, 208, 208),
      hs_key_bg = (44, 52, 113), hs_mod_fg = (255, 255, 255), hs_mod_font_weight = FW_Regular,
      hs_mod_bg = (67, 65, 77), hs_tag_fg = (55, 79, 138), hs_opacity = 0x3F800000,
      hs_key_radius = 0x40800000, hs_key_pad_x = 0x40C00000, hs_key_pad_y = 0x40000000,
      hs_radius = 0x41000000, hs_tag_submenu = [0xF035F], hs_pressed = hud_pressed_default\<rparr>"

record selector_style =
  ss_bg :: rgb
  ss_input_bg :: rgb
  ss_item_bg :: rgb
  ss_item_selected_bg :: rgb
  ss_match_fg :: rgb
  ss_border :: rgb
  ss_shadow :: rgb

definition selector_style_default :: selector_style where
  "selector_style_default =
     \<lparr>ss_bg = (16, 16, 16), ss_input_bg = (26, 26, 26), ss_item_bg = (16, 16, 16),
      ss_item_selected_bg = (44, 52, 113), ss_match_fg = (160, 196, 255),
      ss_border = (48, 48, 48), ss_shadow = (0, 0, 0)\<rparr>"

record ui_style =
  style_hud :: hud_style
  style_notify :: notify_config
  style_selector :: selector_style

definition ui_style_default :: ui_style where
  "ui_style_default =
     \<lparr>style_hud = hud_style_default, style_notify = notify_config_default,
      style_selector = selector_style_default\<rparr>"

subsection \<open>HUD, selector and messages\<close>

record hud_row =
  row_chord :: chord
  row_desc :: string
  row_is_mode :: bool
  row_stay :: bool

record hud_state =
  hud_state_visible :: bool
  hud_state_rows :: "hud_row list"
  hud_state_depth :: nat
  hud_state_breadcrumbs :: "string list"
  hud_state_style :: ui_style
  hud_state_capture :: bool

record selector_item_snapshot =
  sis_label :: string
  sis_sublabel :: "string option"
  sis_match_indices :: "32 word list"

record selector_snapshot =
  snap_title :: string
  snap_placeholder :: string
  snap_query :: string
  snap_items :: "selector_item_snapshot list"
  snap_selected :: nat
  snap_total_matches :: nat

text \<open>Input health, as published in heartbeats.\<close>

datatype health_tap_mode = HTM_Physical | HTM_InjectionOnly
datatype health_tap_lifecycle = HTL_Starting | HTL_Running | HTL_Stopped
datatype health_secure_input = HSI_Unknown | HSI_Inactive | HSI_Active

record health_owner =
  ho_pid :: "32 word"
  ho_app_name :: string

record input_health =
  ih_tap_mode :: health_tap_mode
  ih_tap_lifecycle :: health_tap_lifecycle
  ih_secure_input :: health_secure_input
  ih_secure_input_owner :: "health_owner option"
  ih_blocked :: bool
  ih_registered_hotkeys :: nat
  ih_physical_event_count :: "64 word"
  ih_physical_event_age_ms :: "64 word option"
  ih_os_disable_count :: "64 word"
  ih_os_reenable_count :: "64 word"
  ih_observed_at_ms :: "64 word option"
  ih_server_pid :: "32 word"

record heartbeat =
  hb_sent_at_ms :: "64 word"
  hb_input :: input_health

datatype world_stream_msg = FocusChangedMsg "focus_snapshot option"

datatype msg_to_ui =
    HudKeyState chord bool
  | HudUpdate hud_state displays_snapshot
  | SelectorUpdate selector_snapshot
  | SelectorHide
  | Notify notify_kind string string
  | ClearNotifications
  | ShowMainWindow toggle
  | Log string string string
  | Heartbeat heartbeat
  | WorldMsg world_stream_msg

end
