(* ===== verification/Hotki_Text.thy ===== *)
theory Hotki_Text
  imports Hotki_Prelude
begin

text \<open>
  Text helpers of the Rust standard library used by several components: decimal
  formatting, \<open>str::lines\<close>, \<open>join\<close>, prefix tests and paths.
\<close>

definition newline :: char where
  "newline = CHR 0x0A"

fun string_of_nat :: "nat \<Rightarrow> string" where
  "string_of_nat n =
     (if n < 10 then [char_of (48 + n)] else string_of_nat (n div 10) @ [char_of (48 + n mod 10)])"

declare string_of_nat.simps [simp del]

definition string_of_int :: "int \<Rightarrow> string" where
  "string_of_int i = (if i < 0 then ''-'' @ string_of_nat (nat (- i)) else string_of_nat (nat i))"

definition pad_left :: "nat \<Rightarrow> string \<Rightarrow> string" where
  "pad_left w s = replicate (w - length s) (CHR '' '') @ s"

definition strip_cr :: "string \<Rightarrow> string" where
  "strip_cr s = (if s \<noteq> [] \<and> last s = CHR 0x0D then butlast s else s)"

text \<open>
  \<open>str::lines\<close>: lines end with a line feed, whose preceding carriage return is
  dropped; a last piece without a line feed is a line when it is not empty.
\<close>

definition str_lines :: "string \<Rightarrow> string list" where
  "str_lines s =
     (let ps = split_on newline s
      in map strip_cr (butlast ps) @ (if last ps = [] then [] else [last ps]))"

fun join_with :: "string \<Rightarrow> string list \<Rightarrow> string" where
  "join_with sep [] = []"
| "join_with sep [x] = x"
| "join_with sep (x # y # xs) = x @ sep @ join_with sep (y # xs)"

definition starts_with :: "'a list \<Rightarrow> 'a list \<Rightarrow> bool" where
  "starts_with p s \<longleftrightarrow> take (length p) s = p"

lemma starts_with_refl [simp]: "starts_with s s"
  by (simp add: starts_with_def)

lemma starts_with_iff: "starts_with p s \<longleftrightarrow> (\<exists>r. s = p @ r)"
  by (metis append_eq_conv_conj append_take_drop_id starts_with_def)

lemma string_of_nat_not_Nil [simp]: "string_of_nat n \<noteq> []"
  by (subst string_of_nat.simps) simp

subsection \<open>Paths\<close>

text \<open>
  A Unix path as its text: \<open>Path::is_absolute\<close>, \<open>Path::join\<close> and \<open>Path::parent\<close>.  The
  parent is read off the reversed text after the root slash, or after a leading
  \<open>.\<close> component: empty and \<open>.\<close> components in between are skipped.
\<close>

definition path_is_absolute :: "string \<Rightarrow> bool" where
  "path_is_absolute p \<longleftrightarrow> p \<noteq> [] \<and> hd p = CHR ''/''"

definition path_join :: "string \<Rightarrow> string \<Rightarrow> string" where
  "path_join base p =
     (if path_is_absolute p then p
      else if base \<noteq> [] \<and> last base \<noteq> CHR ''/'' then base @ ''/'' @ p else base @ p)"

definition component_end :: "string \<Rightarrow> string" where
  "component_end r = takeWhile (\<lambda>c. c \<noteq> CHR ''/'') r"

definition without_component :: "string \<Rightarrow> string" where
  "without_component r = drop 1 (dropWhile (\<lambda>c. c \<noteq> CHR ''/'') r)"

lemma without_component_shorter: "r \<noteq> [] \<Longrightarrow> length (without_component r) < length r"
  by (cases r) (auto simp: without_component_def less_Suc_eq_le length_dropWhile_le le_trans [OF diff_le_self])

function skip_back :: "string \<Rightarrow> string" where
  "skip_back r =
     (if r = [] then [] else if component_end r = [] \<or> component_end r = ''.'' then skip_back (without_component r) else r)"
  by auto
termination by (relation "measure length") (auto simp: without_component_shorter)

declare skip_back.simps [simp del]

definition path_parent :: "string \<Rightarrow> string option" where
  "path_parent p =
     (let cur_dir = (p = ''.'' \<or> starts_with ''./'' p);
          n = (if path_is_absolute p \<or> cur_dir then 1 else 0);
          r = skip_back (rev (drop n p))
      in if r \<noteq> [] then Some (take n p @ rev (skip_back (without_component r)))
         else if cur_dir then Some [] else None)"

text \<open>The parent of a path joined with a plain file name is the path.\<close>

lemma path_parent_join:
  assumes "base \<noteq> []" "path_is_absolute base" "last base \<noteq> CHR ''/''" "component_end (rev base) \<noteq> ''.''"
    and "name \<noteq> []" "CHR ''/'' \<notin> set name" "name \<noteq> ''.''"
  shows "path_parent (path_join base name) = Some base"
proof -
  obtain b where b: "base = CHR ''/'' # b" "b \<noteq> []"
    using assms(1, 2, 3) by (cases base) (auto simp: path_is_absolute_def split: if_splits)
  have rel: "\<not> path_is_absolute name"
    using assms(5, 6) by (metis hd_in_set path_is_absolute_def)
  have join: "path_join base name = base @ ''/'' @ name" using rel assms(1, 3) by (simp add: path_join_def)
  have name: "component_end (rev name @ CHR ''/'' # x) = rev name"
    "without_component (rev name @ CHR ''/'' # x) = x" for x
    using assms(6) by (simp_all add: component_end_def without_component_def takeWhile_append dropWhile_append)
  have b_last: "last b = last base" using b by simp
  have base_end: "component_end (rev b) \<noteq> []" "component_end (rev b) \<noteq> ''.''"
  proof -
    have r: "rev b = last b # rev (butlast b)"
      using b(2) by (metis append_butlast_last_id rev.simps(2) rev_rev_ident rev_swap)
    then show "component_end (rev b) \<noteq> []"
      using assms(3) b_last unfolding component_end_def r by simp
    have "takeWhile (\<lambda>c. c \<noteq> CHR ''/'') (xs @ [CHR ''/'']) = takeWhile (\<lambda>c. c \<noteq> CHR ''/'') xs" for xs
      by (induction xs) simp_all
    then have "component_end (rev base) = component_end (rev b)"
      unfolding b(1) component_end_def rev.simps .
    then show "component_end (rev b) \<noteq> ''.''" using assms(4) by simp
  qed
  have "skip_back (rev name @ CHR ''/'' # rev b) = rev name @ CHR ''/'' # rev b"
    using name assms(5, 7) by (subst skip_back.simps) (auto simp: rev_singleton_conv)
  moreover have "skip_back (rev b) = rev b"
    using base_end b(2) by (subst skip_back.simps) simp
  ultimately show ?thesis
    unfolding join unfolding b(1) using assms(5) b(2) by (simp add: path_parent_def Let_def path_is_absolute_def name starts_with_def)
qed

end
