(* ===== verification/Config_Types.thy ===== *)
theory Config_Types
  imports Protocol_Types Hotki_Text
begin

text \<open>
  Data of crate \<open>config\<close>: actions (\<open>mode.rs\<close>), errors and their rendering
  (\<open>error.rs\<close>), and the values exchanged with configuration scripts
  (\<open>script/types.rs\<close>, \<open>script/selector.rs\<close>).  A retained Luau function is the
  number of its callback slot, a stashed Luau value the number of its slot; a path
  is its display string.
\<close>

subsection \<open>Actions\<close>

datatype relay_target = Focused | ApplicationName string

record relay_spec =
  relay_chord :: string
  relay_target :: relay_target

record exec_spec =
  exec_program :: string
  exec_args :: "string list option"
  exec_cwd :: "string option"
  exec_ok_notify :: notify_kind
  exec_err_notify :: notify_kind

record shell_modifiers =
  sm_ok_notify :: notify_kind
  sm_err_notify :: notify_kind

datatype shell_spec = Cmd string | WithMods string shell_modifiers

datatype action =
    Act_Shell shell_spec
  | Act_Exec exec_spec
  | Act_Relay relay_spec
  | Act_ReloadConfig
  | Act_ClearNotifications
  | Act_ShowMainWindow toggle
  | Act_Open string
  | Act_SetVolume "8 word"
  | Act_ChangeVolume "8 word"
  | Act_Mute toggle

definition default_ok_notify :: notify_kind where
  "default_ok_notify = NK_Ignore"

definition default_err_notify :: notify_kind where
  "default_err_notify = NK_Warn"

primrec shell_command :: "shell_spec \<Rightarrow> string" where
  "shell_command (Cmd c) = c"
| "shell_command (WithMods c m) = c"

primrec shell_ok_notify :: "shell_spec \<Rightarrow> notify_kind" where
  "shell_ok_notify (Cmd c) = default_ok_notify"
| "shell_ok_notify (WithMods c m) = sm_ok_notify m"

primrec shell_err_notify :: "shell_spec \<Rightarrow> notify_kind" where
  "shell_err_notify (Cmd c) = default_err_notify"
| "shell_err_notify (WithMods c m) = sm_err_notify m"

subsection \<open>Errors\<close>

datatype config_error =
    Cfg_Read "string option" string
  | Cfg_Parse "string option" nat nat string string
  | Cfg_Validation "string option" "nat option" "nat option" string "string option"

text \<open>\<open>Error::pretty\<close>, with the arms of its matches in order.\<close>

fun error_pretty :: "config_error \<Rightarrow> string" where
  "error_pretty (Cfg_Read (Some p) message) = ''Read error at '' @ p @ '': '' @ message"
| "error_pretty (Cfg_Read None message) = ''Read error: '' @ message"
| "error_pretty (Cfg_Parse (Some p) line col message excerpt) =
     ''Config parse error at '' @ p @ '':'' @ string_of_nat line @ '':'' @ string_of_nat col
     @ [newline] @ message @ [newline] @ excerpt"
| "error_pretty (Cfg_Parse None line col message excerpt) =
     ''Config parse error at line '' @ string_of_nat line @ '', column '' @ string_of_nat col
     @ [newline] @ message @ [newline] @ excerpt"
| "error_pretty (Cfg_Validation path line col message excerpt) =
     (let loc = (case (line, col) of
            (Some l, Some c) \<Rightarrow> string_of_nat l @ '':'' @ string_of_nat c
          | (Some l, None) \<Rightarrow> string_of_nat l
          | _ \<Rightarrow> [])
      in if path \<noteq> None \<and> excerpt \<noteq> None \<and> loc \<noteq> []
         then ''Config validation error at '' @ the path @ '':'' @ loc
              @ [newline] @ message @ [newline] @ the excerpt
         else if path \<noteq> None \<and> loc \<noteq> []
         then ''Config validation error at '' @ the path @ '':'' @ loc @ [newline] @ message
         else if path \<noteq> None
         then ''Config validation error at '' @ the path @ [newline] @ message
         else if excerpt \<noteq> None \<and> loc \<noteq> []
         then ''Config validation error at '' @ loc @ [newline] @ message @ [newline] @ the excerpt
         else if loc \<noteq> []
         then ''Config validation error at '' @ loc @ [newline] @ message
         else ''Config validation error'' @ [newline] @ message)"

text \<open>
  \<open>excerpt_at\<close>: the source lines \<open>line_no - 2\<close> to \<open>line_no + 1\<close>, with a caret line
  under \<open>line_no\<close>.
\<close>

definition excerpt_line :: "string list \<Rightarrow> nat \<Rightarrow> nat \<Rightarrow> nat \<Rightarrow> string" where
  "excerpt_line lines line_no col_no n =
     (let body = (if n - 1 < length lines then lines ! (n - 1) else []);
          prefix = '' '' @ pad_left 4 (string_of_nat n) @ '' | ''
      in prefix @ body @ [newline]
         @ (if n = line_no
            then replicate (length prefix) (CHR '' '') @ replicate (col_no - 1) (CHR '' '')
                 @ ''^'' @ [newline]
            else []))"

definition excerpt_at :: "string \<Rightarrow> nat \<Rightarrow> nat \<Rightarrow> string" where
  "excerpt_at source line_no col_no =
     (let lines = str_lines source;
          start = max 1 (line_no - 2);
          end' = min (length lines) (line_no + 1)
      in concat (map (excerpt_line lines line_no col_no) [start ..< Suc end']))"

subsection \<open>Script values\<close>

record source_pos =
  pos_path :: "string option"
  pos_line :: "nat option"
  pos_col :: "nat option"

record mode_ref =
  mode_ref_id :: "64 word"
  mode_func :: nat
  mode_default_title :: "string option"

record handler_ref =
  handler_func :: nat

record mode_ctx =
  ctx_window :: "focus_snapshot option"
  ctx_hud :: bool
  ctx_depth :: int

record repeat_spec =
  delay_ms :: "64 word option"
  interval_ms :: "64 word option"

record selector_item =
  item_label :: string
  item_sublabel :: "string option"
  item_data :: "nat option"

datatype selector_items = Static "selector_item list" | Provider nat

record selector_config =
  sel_title :: string
  sel_placeholder :: string
  sel_items :: selector_items
  sel_on_select :: handler_ref
  sel_on_cancel :: "handler_ref option"
  sel_max_visible :: "64 word"

datatype nav_request = Nav_Push mode_ref "string option" | Nav_Pop | Nav_Exit | Nav_ShowRoot | Nav_HideHud

datatype effect =
    Eff_Exec action
  | Eff_Notify notify_kind string string
  | Eff_Nav nav_request
  | Eff_Select selector_config
  | Eff_UntilKeyUp handler_ref "repeat_spec option"

datatype repeat_permission = HeldKey | Keyless | RepeatedAction

record binding_flags =
  flag_hidden :: bool
  flag_global :: bool
  flag_stay :: bool

datatype binding_kind = Bind_Handler handler_ref | Bind_Mode mode_ref

record binding =
  bd_chord :: chord
  bd_desc :: string
  bd_kind :: binding_kind
  bd_mode_id :: "64 word option"
  bd_flags :: binding_flags
  bd_mode_capture :: bool
  bd_pos :: "source_pos option"

definition stays_in_mode :: "binding \<Rightarrow> bool" where
  "stays_in_mode b = flag_stay (bd_flags b)"

record mode_frame =
  frame_title :: string
  frame_closure :: mode_ref
  frame_entered_via :: "(chord \<times> 64 word) option"
  frame_rendered :: "binding list"
  frame_capture :: bool

record rendered_state =
  rs_bindings :: "(chord \<times> binding) list"
  rs_hud_rows :: "hud_row list"
  rs_style :: ui_style
  rs_capture :: bool

record handler_result =
  hr_effects :: "effect list"
  hr_stay :: bool

end
