(* ===== verification/Action_Ctx.thy ===== *)
theory Action_Ctx
  imports Config_Types
begin

text \<open>
  The context object of an action handler: its output state and operations
  (\<open>script/types.rs\<close>, \<open>ActionCtx\<close>) and the methods scripts call on it
  (\<open>script/host_userdata.rs\<close>), after the decoding of their arguments.  A handler is
  the tree of the calls it makes, each continued with the answer it gets.
\<close>

subsection \<open>The output state\<close>

record action_ctx =
  ac_effects :: "effect list"
  ac_stay :: bool
  ac_active :: bool
  ac_until_keyup :: bool
  ac_repeat :: repeat_permission

definition action_ctx_new :: "repeat_permission \<Rightarrow> action_ctx" where
  "action_ctx_new perm =
     \<lparr>ac_effects = [], ac_stay = False, ac_active = True, ac_until_keyup = False, ac_repeat = perm\<rparr>"

definition ensure_active :: "action_ctx \<Rightarrow> string + unit" where
  "ensure_active c = (if ac_active c then Ok () else Err ''ActionContext is no longer valid'')"

definition push_effect :: "effect \<Rightarrow> action_ctx \<Rightarrow> (string + unit) \<times> action_ctx" where
  "push_effect e c =
     (case ensure_active c of
        Inl m \<Rightarrow> (Err m, c)
      | Inr _ \<Rightarrow> (Ok (), c\<lparr>ac_effects := ac_effects c @ [e]\<rparr>))"

definition push_nav :: "nav_request \<Rightarrow> action_ctx \<Rightarrow> (string + unit) \<times> action_ctx" where
  "push_nav nav c = push_effect (Eff_Nav nav) c"

definition push_until_keyup ::
  "handler_ref \<Rightarrow> repeat_spec option \<Rightarrow> action_ctx \<Rightarrow> (string + unit) \<times> action_ctx" where
  "push_until_keyup act rep c =
     (case ensure_active c of
        Inl m \<Rightarrow> (Err m, c)
      | Inr _ \<Rightarrow>
          (case ac_repeat c of
             Keyless \<Rightarrow> (Err ''ctx:until_keyup requires a held triggering key'', c)
           | RepeatedAction \<Rightarrow> (Err ''ctx:until_keyup cannot be nested inside a repeated action'', c)
           | HeldKey \<Rightarrow>
               if ac_until_keyup c
               then (Err ''ctx:until_keyup can only be called once per action'', c)
               else (Ok (), c\<lparr>ac_until_keyup := True,
                              ac_effects := ac_effects c @ [Eff_UntilKeyUp act rep]\<rparr>)))"

definition set_stay :: "action_ctx \<Rightarrow> (string + unit) \<times> action_ctx" where
  "set_stay c =
     (case ensure_active c of
        Inl m \<Rightarrow> (Err m, c)
      | Inr _ \<Rightarrow> (Ok (), c\<lparr>ac_stay := True\<rparr>))"

definition ctx_finish :: "action_ctx \<Rightarrow> (effect list \<times> bool) \<times> action_ctx" where
  "ctx_finish c =
     ((ac_effects c, ac_stay c), c\<lparr>ac_active := False, ac_effects := []\<rparr>)"

definition ctx_invalidate :: "action_ctx \<Rightarrow> action_ctx" where
  "ctx_invalidate c = c\<lparr>ac_active := False, ac_effects := []\<rparr>"

subsection \<open>Methods called by scripts\<close>

record shell_options =
  so_ok_notify :: "notify_kind option"
  so_err_notify :: "notify_kind option"

definition shell_spec_of :: "string \<Rightarrow> shell_options option \<Rightarrow> shell_spec" where
  "shell_spec_of cmd opts =
     (case opts of
        Some opts \<Rightarrow>
          WithMods cmd
            \<lparr>sm_ok_notify = (case so_ok_notify opts of Some k \<Rightarrow> k | None \<Rightarrow> default_ok_notify),
             sm_err_notify = (case so_err_notify opts of Some k \<Rightarrow> k | None \<Rightarrow> default_err_notify)\<rparr>
      | None \<Rightarrow> Cmd cmd)"

datatype ctx_call =
    Call_Notify notify_kind string string
  | Call_Stay
  | Call_Push mode_ref "string option"
  | Call_Pop
  | Call_Exit
  | Call_ShowRoot
  | Call_HideHud
  | Call_ReloadConfig
  | Call_ClearNotifications
  | Call_Shell string "shell_options option"
  | Call_Exec exec_spec
  | Call_Open string
  | Call_Relay string
  | Call_RelayToApp string string
  | Call_ShowMainWindow toggle
  | Call_SetVolume "8 word"
  | Call_ChangeVolume "8 word"
  | Call_Mute toggle
  | Call_UntilKeyup handler_ref "repeat_spec option"
  | Call_Select selector_config

definition push_exec :: "action \<Rightarrow> action_ctx \<Rightarrow> (string + unit) \<times> action_ctx" where
  "push_exec act c = push_effect (Eff_Exec act) c"

fun ctx_step :: "ctx_call \<Rightarrow> action_ctx \<Rightarrow> (string + unit) \<times> action_ctx" where
  "ctx_step (Call_Notify kind title body) c = push_effect (Eff_Notify kind title body) c"
| "ctx_step Call_Stay c = set_stay c"
| "ctx_step (Call_Push mode title) c = push_nav (Nav_Push mode title) c"
| "ctx_step Call_Pop c = push_nav Nav_Pop c"
| "ctx_step Call_Exit c = push_nav Nav_Exit c"
| "ctx_step Call_ShowRoot c = push_nav Nav_ShowRoot c"
| "ctx_step Call_HideHud c = push_nav Nav_HideHud c"
| "ctx_step Call_ReloadConfig c = push_effect (Eff_Exec Act_ReloadConfig) c"
| "ctx_step Call_ClearNotifications c = push_effect (Eff_Exec Act_ClearNotifications) c"
| "ctx_step (Call_Shell cmd opts) c = push_effect (Eff_Exec (Act_Shell (shell_spec_of cmd opts))) c"
| "ctx_step (Call_Exec spec) c = push_exec (Act_Exec spec) c"
| "ctx_step (Call_Open target) c = push_exec (Act_Open target) c"
| "ctx_step (Call_Relay spec) c =
     push_exec (Act_Relay \<lparr>relay_chord = spec, relay_target = Focused\<rparr>) c"
| "ctx_step (Call_RelayToApp app spec) c =
     (if app = [] then (Err ''ctx:relay_to_app app_name must not be empty'', c)
      else push_exec (Act_Relay \<lparr>relay_chord = spec, relay_target = ApplicationName app\<rparr>) c)"
| "ctx_step (Call_ShowMainWindow t) c = push_exec (Act_ShowMainWindow t) c"
| "ctx_step (Call_SetVolume level) c = push_exec (Act_SetVolume level) c"
| "ctx_step (Call_ChangeVolume delta) c = push_exec (Act_ChangeVolume delta) c"
| "ctx_step (Call_Mute t) c = push_exec (Act_Mute t) c"
| "ctx_step (Call_UntilKeyup h rep) c = push_until_keyup h rep c"
| "ctx_step (Call_Select sel) c = push_effect (Eff_Select sel) c"

text \<open>\<open>Script_Return e v\<close>: the handler ends in VM state \<open>v\<close>, with error \<open>e\<close> if it raised.\<close>

datatype ('e, 'v) script =
    Script_Return "'e option" 'v
  | Script_Call ctx_call "(string + unit) \<Rightarrow> ('e, 'v) script"

primrec run_script :: "('e, 'v) script \<Rightarrow> action_ctx \<Rightarrow> 'e option \<times> 'v \<times> action_ctx" where
  "run_script (Script_Return e v) c = (e, v, c)"
| "run_script (Script_Call call k) c = run_script (k (fst (ctx_step call c))) (snd (ctx_step call c))"

subsection \<open>What a handler can queue\<close>

definition is_until_keyup :: "effect \<Rightarrow> bool" where
  "is_until_keyup e = (case e of Eff_UntilKeyUp _ _ \<Rightarrow> True | _ \<Rightarrow> False)"

text \<open>
  At most one held-key loop is queued, only for a top-level activation, and no
  relay names an application with an empty name.
\<close>

definition effect_ok :: "effect \<Rightarrow> bool" where
  "effect_ok e = (case e of
     Eff_Exec (Act_Relay s) \<Rightarrow> relay_target s \<noteq> ApplicationName []
   | _ \<Rightarrow> True)"

definition action_ctx_ok :: "action_ctx \<Rightarrow> bool" where
  "action_ctx_ok c \<longleftrightarrow>
     length (filter is_until_keyup (ac_effects c)) = (if ac_until_keyup c then 1 else 0) \<and>
     (ac_until_keyup c \<longrightarrow> ac_repeat c = HeldKey) \<and> list_all effect_ok (ac_effects c)"

lemmas ctx_op_defs = push_effect_def push_nav_def push_exec_def push_until_keyup_def set_stay_def
  ensure_active_def

lemma action_ctx_new_ok [simp]: "action_ctx_ok (action_ctx_new perm)"
  by (simp add: action_ctx_new_def action_ctx_ok_def)

lemma action_ctx_new_simps [simp]:
  "ac_active (action_ctx_new perm)" "ac_effects (action_ctx_new perm) = []"
  "ac_repeat (action_ctx_new perm) = perm"
  by (simp_all add: action_ctx_new_def)

lemma ctx_step_ok [inv_intro]: "action_ctx_ok c \<Longrightarrow> action_ctx_ok (snd (ctx_step call c))"
  by (cases call) (auto simp: action_ctx_ok_def ctx_op_defs is_until_keyup_def effect_ok_def
      split: repeat_permission.splits)

lemma ctx_step_active [simp]:
  "ac_active (snd (ctx_step call c)) = ac_active c" "ac_repeat (snd (ctx_step call c)) = ac_repeat c"
  by (cases call; simp add: ctx_op_defs split: repeat_permission.splits)+

lemma ctx_step_extends: "\<exists>es. ac_effects (snd (ctx_step call c)) = ac_effects c @ es \<and> length es \<le> 1"
  by (cases call) (auto simp: ctx_op_defs split: repeat_permission.splits)

text \<open>A call on a finished or invalidated context changes nothing and reports an error.\<close>

lemma ctx_step_stale: "\<not> ac_active c \<Longrightarrow> snd (ctx_step call c) = c \<and> \<not> is_ok (fst (ctx_step call c))"
  by (cases call) (auto simp: ctx_op_defs)

lemma run_script_inv:
  assumes "run_script s c = (e, v, c')" and "action_ctx_ok c"
  shows "action_ctx_ok c' \<and> ac_active c' = ac_active c \<and> ac_repeat c' = ac_repeat c"
  using assms
proof (induction s arbitrary: c)
  case (Script_Call call k)
  have run: "run_script (k (fst (ctx_step call c))) (snd (ctx_step call c)) = (e, v, c')"
    using Script_Call.prems by simp
  show ?case using Script_Call.IH[OF rangeI run] Script_Call.prems by (simp add: ctx_step_ok)
qed auto

lemma run_script_stale:
  assumes "run_script s c = (e, v, c')" and "\<not> ac_active c"
  shows "c' = c"
  using assms
proof (induction s arbitrary: c)
  case (Script_Call call k)
  have run: "run_script (k (fst (ctx_step call c))) (snd (ctx_step call c)) = (e, v, c')"
    using Script_Call.prems by simp
  show ?case
    using Script_Call.IH[OF rangeI run] Script_Call.prems ctx_step_stale[of c call] by auto
qed auto

lemma ctx_finish_simps [simp]:
  "fst (ctx_finish c) = (ac_effects c, ac_stay c)" "\<not> ac_active (snd (ctx_finish c))"
  "ac_effects (snd (ctx_finish c)) = []" "\<not> ac_active (ctx_invalidate c)"
  "ac_effects (ctx_invalidate c) = []"
  by (simp_all add: ctx_finish_def ctx_invalidate_def)

end
