(* ===== verification/Menu_Builder.thy ===== *)
theory Menu_Builder
  imports Config_Types Keycode
begin

text \<open>
  The builder object a mode renderer fills (\<open>ModeBuilder\<close> in
  \<open>script/host_userdata.rs\<close>), binding options and their inheritance
  (\<open>script/host_parse.rs\<close>), and mode references (\<open>script/types.rs\<close>).  A renderer is
  the tree of the calls it makes on builder views; a view is its defaults, the
  state is shared by all views.
\<close>

subsection \<open>Binding options\<close>

record binding_options =
  opt_hidden :: "bool option"
  opt_global :: "bool option"
  opt_stay :: "bool option"

definition default_options :: binding_options where
  "default_options = \<lparr>opt_hidden = None, opt_global = None, opt_stay = None\<rparr>"

definition or_else :: "'a option \<Rightarrow> 'a option \<Rightarrow> 'a option" where
  "or_else a b = (case a of None \<Rightarrow> b | Some x \<Rightarrow> Some x)"

definition merged_with :: "binding_options \<Rightarrow> binding_options option \<Rightarrow> binding_options" where
  "merged_with self explicit =
     \<lparr>opt_hidden = or_else (Option.bind explicit opt_hidden) (opt_hidden self),
      opt_global = or_else (Option.bind explicit opt_global) (opt_global self),
      opt_stay = or_else (Option.bind explicit opt_stay) (opt_stay self)\<rparr>"

record submenu_options =
  sub_binding :: binding_options
  sub_capture :: "bool option"

definition unwrap_or :: "'a \<Rightarrow> 'a option \<Rightarrow> 'a" where
  "unwrap_or d x = (case x of None \<Rightarrow> d | Some y \<Rightarrow> y)"

definition apply_binding_options :: "binding \<Rightarrow> binding_options option \<Rightarrow> binding" where
  "apply_binding_options b options =
     (case options of
        None \<Rightarrow> b
      | Some options \<Rightarrow>
          b\<lparr>bd_flags := \<lparr>flag_hidden = unwrap_or False (opt_hidden options),
                        flag_global = unwrap_or False (opt_global options),
                        flag_stay = unwrap_or False (opt_stay options)\<rparr>\<rparr>)"

subsection \<open>Mode references\<close>

text \<open>
  A Luau function: the place it was defined, its identity in the VM, and the callback
  slot that retains it.  The id of a mode hashes the place and the title, and
  the identity only for a function whose place is unknown; \<open>hash\<close> is the
  standard library's hasher.
\<close>

record lua_function =
  fn_chunk_name :: "string option"
  fn_line_defined :: "nat option"
  fn_id :: nat
  fn_slot :: nat

type_synonym mode_hash = "string option \<Rightarrow> nat option \<Rightarrow> string option \<Rightarrow> nat option \<Rightarrow> 64 word"

definition mode_ref_from_function :: "mode_hash \<Rightarrow> lua_function \<Rightarrow> string option \<Rightarrow> mode_ref" where
  "mode_ref_from_function hash func title =
     \<lparr>mode_ref_id =
        hash (fn_chunk_name func) (fn_line_defined func) title
          (if fn_chunk_name func = None \<and> fn_line_defined func = None then Some (fn_id func) else None),
      mode_func = fn_slot func,
      mode_default_title = title\<rparr>"

definition handler_ref_from_function :: "lua_function \<Rightarrow> handler_ref" where
  "handler_ref_from_function func = \<lparr>handler_func = fn_slot func\<rparr>"

subsection \<open>The builder\<close>

record mode_builder =
  mb_bindings :: "binding list"
  mb_capture :: bool

definition builder_new_for_render :: "bool \<Rightarrow> mode_builder" where
  "builder_new_for_render capture = \<lparr>mb_bindings = [], mb_capture = capture\<rparr>"

definition builder_finish :: "mode_builder \<Rightarrow> binding list \<times> bool" where
  "builder_finish b = (mb_bindings b, mb_capture b)"

definition parse_chord :: "string \<Rightarrow> string + chord" where
  "parse_chord spec =
     (case chord_parse spec of
        Some c \<Rightarrow> Ok c
      | None \<Rightarrow> Err (''invalid chord string: '' @ spec))"

definition default_flags :: binding_flags where
  "default_flags = \<lparr>flag_hidden = False, flag_global = False, flag_stay = False\<rparr>"

definition binding_from_handler ::
  "string \<Rightarrow> string \<Rightarrow> lua_function \<Rightarrow> binding_options \<Rightarrow> binding_options option \<Rightarrow> source_pos option
   \<Rightarrow> string + binding" where
  "binding_from_handler chord desc act defaults options pos =
     (case parse_chord chord of
        Inl m \<Rightarrow> Err m
      | Inr c \<Rightarrow>
          Ok (apply_binding_options
                \<lparr>bd_chord = c, bd_desc = desc, bd_kind = Bind_Handler (handler_ref_from_function act),
                 bd_mode_id = None, bd_flags = default_flags, bd_mode_capture = False, bd_pos = pos\<rparr>
                (Some (merged_with defaults options))))"

definition binding_from_mode ::
  "mode_hash \<Rightarrow> string \<Rightarrow> string \<Rightarrow> lua_function \<Rightarrow> binding_options \<Rightarrow> submenu_options option
   \<Rightarrow> source_pos option \<Rightarrow> string + binding" where
  "binding_from_mode hash chord title render defaults options pos =
     (case parse_chord chord of
        Inl m \<Rightarrow> Err m
      | Inr c \<Rightarrow>
          (let mode = mode_ref_from_function hash render (Some title);
               b = apply_binding_options
                     \<lparr>bd_chord = c, bd_desc = title, bd_kind = Bind_Mode mode,
                      bd_mode_id = Some (mode_ref_id mode), bd_flags = default_flags,
                      bd_mode_capture = False, bd_pos = pos\<rparr>
                     (Some (merged_with defaults (map_option sub_binding options)))
           in Ok (b\<lparr>bd_mode_capture := unwrap_or False (Option.bind options sub_capture)\<rparr>)))"

definition push_binding :: "string + binding \<Rightarrow> mode_builder \<Rightarrow> (string + unit) \<times> mode_builder" where
  "push_binding r mb =
     (case r of
        Inl m \<Rightarrow> (Err m, mb)
      | Inr b \<Rightarrow> (Ok (), mb\<lparr>mb_bindings := mb_bindings mb @ [b]\<rparr>))"

definition mode_builder_bind ::
  "string \<Rightarrow> string \<Rightarrow> lua_function \<Rightarrow> binding_options \<Rightarrow> binding_options option \<Rightarrow> source_pos option
   \<Rightarrow> mode_builder \<Rightarrow> (string + unit) \<times> mode_builder" where
  "mode_builder_bind chord desc act defaults options pos mb =
     push_binding (binding_from_handler chord desc act defaults options pos) mb"

definition mode_builder_submenu ::
  "mode_hash \<Rightarrow> string \<Rightarrow> string \<Rightarrow> lua_function \<Rightarrow> binding_options \<Rightarrow> submenu_options option
   \<Rightarrow> source_pos option \<Rightarrow> mode_builder \<Rightarrow> (string + unit) \<times> mode_builder" where
  "mode_builder_submenu hash chord title render defaults options pos mb =
     push_binding (binding_from_mode hash chord title render defaults options pos) mb"

definition mode_builder_with :: "binding_options \<Rightarrow> binding_options \<Rightarrow> binding_options" where
  "mode_builder_with defaults explicit = merged_with defaults (Some explicit)"

definition mode_builder_capture :: "mode_builder \<Rightarrow> (string + unit) \<times> mode_builder" where
  "mode_builder_capture mb = (Ok (), mb\<lparr>mb_capture := True\<rparr>)"

text \<open>
  The calls of a renderer.  Every call names the view it is made on by its
  position: view 0 is the renderer's argument and each \<open>with\<close> adds a view.
\<close>

datatype ('e, 'v) menu_script =
    Menu_Return "'e option" 'v
  | Menu_Bind nat string string lua_function "binding_options option" "source_pos option"
      "(string + unit) \<Rightarrow> ('e, 'v) menu_script"
  | Menu_Submenu nat string string lua_function "submenu_options option" "source_pos option"
      "(string + unit) \<Rightarrow> ('e, 'v) menu_script"
  | Menu_With nat binding_options "('e, 'v) menu_script"
  | Menu_Capture nat "('e, 'v) menu_script"

definition view_defaults :: "binding_options list \<Rightarrow> nat \<Rightarrow> binding_options" where
  "view_defaults views i = (if i < length views then views ! i else default_options)"

primrec run_menu ::
  "('e, 'v) menu_script \<Rightarrow> mode_hash \<Rightarrow> binding_options list \<Rightarrow> mode_builder \<Rightarrow> 'e option \<times> 'v \<times> mode_builder"
where
  "run_menu (Menu_Return e v) hash views mb = (e, v, mb)"
| "run_menu (Menu_Bind view chord desc act options pos k) hash views mb =
     (let r = mode_builder_bind chord desc act (view_defaults views view) options pos mb
      in run_menu (k (fst r)) hash views (snd r))"
| "run_menu (Menu_Submenu view chord title render options pos k) hash views mb =
     (let r = mode_builder_submenu hash chord title render (view_defaults views view) options pos mb
      in run_menu (k (fst r)) hash views (snd r))"
| "run_menu (Menu_With view explicit k) hash views mb =
     run_menu k hash (views @ [mode_builder_with (view_defaults views view) explicit]) mb"
| "run_menu (Menu_Capture view k) hash views mb =
     run_menu k hash views (snd (mode_builder_capture mb))"

subsection \<open>Options and views\<close>

lemma or_else_simps [simp]: "or_else None b = b" "or_else (Some x) b = Some x"
  by (simp_all add: or_else_def)

lemma unwrap_or_simps [simp]: "unwrap_or d None = d" "unwrap_or d (Some x) = x"
  by (simp_all add: unwrap_or_def)

lemma merged_with_None [simp]: "merged_with d None = d"
  by (simp add: merged_with_def)

lemma merged_with_default [simp]: "merged_with default_options (Some e) = e"
  by (cases e) (auto simp: merged_with_def default_options_def or_else_def split: option.splits)

text \<open>Views nest: defaults of derived views compose as if merged in one step.\<close>

lemma merged_with_assoc:
  "merged_with (merged_with d (Some e)) (Some f) = merged_with d (Some (merged_with e (Some f)))"
  by (auto simp: merged_with_def or_else_def split: option.splits)

lemma push_binding_simps:
  "mb_capture (snd (push_binding r mb)) = mb_capture mb"
  "mb_bindings (snd (push_binding r mb)) = mb_bindings mb @ (case r of Inl _ \<Rightarrow> [] | Inr b \<Rightarrow> [b])"
  by (simp_all add: push_binding_def split: sum.splits)

subsection \<open>What a renderer declares\<close>

text \<open>
  The calls a renderer makes, in their order.  A view is the chain of the option records that
  led to it, the nearest first.  A binding or submenu is answered with an error exactly when its
  chord text is not a chord.
\<close>

datatype menu_call =
    Call_Bind "binding_options list" string string lua_function "binding_options option" "source_pos option"
  | Call_Submenu "binding_options list" string string lua_function "submenu_options option" "source_pos option"
  | Call_Capture

definition view_chain :: "binding_options list list \<Rightarrow> nat \<Rightarrow> binding_options list" where
  "view_chain nested i = (if i < length nested then nested ! i else [])"

definition chord_answer :: "string \<Rightarrow> string + unit" where
  "chord_answer spec = (if chord_parse spec = None then Err (''invalid chord string: '' @ spec) else Ok ())"

primrec menu_calls :: "('e, 'v) menu_script \<Rightarrow> binding_options list list \<Rightarrow> menu_call list" where
  "menu_calls (Menu_Return e v) nested = []"
| "menu_calls (Menu_Bind view chord desc act options pos k) nested =
     Call_Bind (view_chain nested view) chord desc act options pos # menu_calls (k (chord_answer chord)) nested"
| "menu_calls (Menu_Submenu view chord title render options pos k) nested =
     Call_Submenu (view_chain nested view) chord title render options pos # menu_calls (k (chord_answer chord)) nested"
| "menu_calls (Menu_With view explicit k) nested = menu_calls k (nested @ [explicit # view_chain nested view])"
| "menu_calls (Menu_Capture view k) nested = Call_Capture # menu_calls k nested"

text \<open>An option of a binding: the nearest record that sets it decides, and no record means false.\<close>

primrec nearest :: "('r \<Rightarrow> 'b option) \<Rightarrow> 'r list \<Rightarrow> 'b option" where
  "nearest f [] = None"
| "nearest f (x # xs) = (case f x of None \<Rightarrow> nearest f xs | Some y \<Rightarrow> Some y)"

definition chosen :: "(binding_options \<Rightarrow> bool option) \<Rightarrow> binding_options option \<Rightarrow> binding_options list \<Rightarrow> bool" where
  "chosen f explicit chain = (nearest f (case explicit of None \<Rightarrow> chain | Some e \<Rightarrow> e # chain) = Some True)"

definition declared_flags :: "binding_options option \<Rightarrow> binding_options list \<Rightarrow> binding_flags" where
  "declared_flags explicit chain =
     \<lparr>flag_hidden = chosen opt_hidden explicit chain, flag_global = chosen opt_global explicit chain,
      flag_stay = chosen opt_stay explicit chain\<rparr>"

text \<open>The binding that a call declares.\<close>

primrec declared :: "mode_hash \<Rightarrow> menu_call \<Rightarrow> binding option" where
  "declared hash (Call_Bind chain chord desc act options pos) =
     map_option (\<lambda>c. \<lparr>bd_chord = c, bd_desc = desc, bd_kind = Bind_Handler \<lparr>handler_func = fn_slot act\<rparr>,
         bd_mode_id = None, bd_flags = declared_flags options chain, bd_mode_capture = False, bd_pos = pos\<rparr>)
       (chord_parse chord)"
| "declared hash (Call_Submenu chain chord title render options pos) =
     map_option (\<lambda>c. \<lparr>bd_chord = c, bd_desc = title,
         bd_kind = Bind_Mode (mode_ref_from_function hash render (Some title)),
         bd_mode_id = Some (mode_ref_id (mode_ref_from_function hash render (Some title))),
         bd_flags = declared_flags (map_option sub_binding options) chain,
         bd_mode_capture = (\<exists>o'. options = Some o' \<and> sub_capture o' = Some True), bd_pos = pos\<rparr>)
       (chord_parse chord)"
| "declared hash Call_Capture = None"

text \<open>The defaults of a view are those of its chain, merged.\<close>

definition merged_chain :: "binding_options list \<Rightarrow> binding_options" where
  "merged_chain chain =
     \<lparr>opt_hidden = nearest opt_hidden chain, opt_global = nearest opt_global chain, opt_stay = nearest opt_stay chain\<rparr>"

lemma merged_chain_Nil: "merged_chain [] = default_options"
  by (simp add: merged_chain_def default_options_def)

lemma merged_chain_Cons [simp]: "merged_with (merged_chain chain) (Some e) = merged_chain (e # chain)"
  by (simp add: merged_chain_def merged_with_def or_else_def split: option.split)

lemma view_defaults_chain [simp]: "view_defaults (map merged_chain nested) i = merged_chain (view_chain nested i)"
  by (simp add: view_defaults_def view_chain_def merged_chain_Nil)

lemma unwrap_or_False: "unwrap_or False x \<longleftrightarrow> x = Some True"
  by (cases x) (auto simp: unwrap_or_def)

lemma merged_flags:
  "apply_binding_options b (Some (merged_with (merged_chain chain) explicit)) = b\<lparr>bd_flags := declared_flags explicit chain\<rparr>"
  by (cases explicit)
    (auto simp: apply_binding_options_def merged_chain_def merged_with_def or_else_def declared_flags_def chosen_def
      unwrap_or_False split: option.splits)

lemma push_binding_answer: "fst (push_binding r mb) = map_sum id (\<lambda>_. ()) r"
  by (cases r) (simp_all add: push_binding_def)

lemma bind_declares:
  assumes r: "r = mode_builder_bind chord desc act (merged_chain chain) options pos mb"
  shows "fst r = chord_answer chord" "mb_capture (snd r) = mb_capture mb"
    "mb_bindings (snd r) = mb_bindings mb @ (case declared hash (Call_Bind chain chord desc act options pos) of None \<Rightarrow> [] | Some b \<Rightarrow> [b])"
  by (simp_all add: r mode_builder_bind_def push_binding_answer push_binding_simps binding_from_handler_def
      parse_chord_def chord_answer_def merged_flags handler_ref_from_function_def split: option.split)

lemma submenu_declares:
  assumes r: "r = mode_builder_submenu hash chord title render (merged_chain chain) options pos mb"
  shows "fst r = chord_answer chord" "mb_capture (snd r) = mb_capture mb"
    "mb_bindings (snd r) = mb_bindings mb
       @ (case declared hash (Call_Submenu chain chord title render options pos) of None \<Rightarrow> [] | Some b \<Rightarrow> [b])"
proof -
  have "unwrap_or False (Option.bind options sub_capture) = (\<exists>o'. options = Some o' \<and> sub_capture o' = Some True)"
    by (cases options) (simp_all add: unwrap_or_False)
  then show "fst r = chord_answer chord" "mb_capture (snd r) = mb_capture mb"
    "mb_bindings (snd r) = mb_bindings mb
       @ (case declared hash (Call_Submenu chain chord title render options pos) of None \<Rightarrow> [] | Some b \<Rightarrow> [b])"
    by (simp_all add: r mode_builder_submenu_def push_binding_answer push_binding_simps binding_from_mode_def
        parse_chord_def chord_answer_def merged_flags Let_def split: option.split)
qed

lemma run_menu_collects:
  "run_menu s hash (map merged_chain nested) mb = (e, v, mb') \<Longrightarrow>
     mb_bindings mb' = mb_bindings mb @ List.map_filter (declared hash) (menu_calls s nested)
   \<and> mb_capture mb' = (mb_capture mb \<or> Call_Capture \<in> set (menu_calls s nested))"
proof (induction s arbitrary: nested mb)
  case (Menu_Bind view c d a os p k)
  note bd = bind_declares [OF refl, of c d a "view_chain nested view" os p mb]
  show ?case
    using Menu_Bind.IH [OF rangeI, of "chord_answer c"] Menu_Bind.prems bd(1,2) bd(3) [of hash]
    by (auto simp: Let_def map_filter_simps simp del: declared.simps split: option.splits)
next
  case (Menu_Submenu view c t r os p k)
  note sd = submenu_declares [OF refl, of hash c t r "view_chain nested view" os p mb]
  show ?case
    using Menu_Submenu.IH [OF rangeI, of "chord_answer c"] Menu_Submenu.prems sd
    by (auto simp: Let_def map_filter_simps simp del: declared.simps split: option.splits)
next
  case (Menu_With view explicit k)
  show ?case
    using Menu_With.IH [of "nested @ [explicit # view_chain nested view]" mb] Menu_With.prems
    by (simp add: mode_builder_with_def)
next
  case (Menu_Capture view k)
  show ?case
    using Menu_Capture.IH [of nested "snd (mode_builder_capture mb)"] Menu_Capture.prems
    by (simp add: mode_builder_capture_def map_filter_simps)
qed (simp add: map_filter_simps)

text \<open>
  C39: whatever a renderer calls on its builder and the views it derives, the builder has exactly
  the bindings that its calls declare, in their order: every call with a valid chord text adds one
  binding with that chord, its text and its function, a submenu with the identity of its own mode
  and its own capture flag; each flag is that of the call's own options, else of the nearest view
  that sets it, else false. A call with an invalid chord is answered with an error and adds
  nothing. The mode captures all keys exactly when the frame did so already or some call asked
  for it.
\<close>

theorem menu_collects_declarations:
  assumes "run_menu s hash [default_options] (builder_new_for_render capture) = (e, v, mb)"
  shows "builder_finish mb
    = (List.map_filter (declared hash) (menu_calls s [[]]), capture \<or> Call_Capture \<in> set (menu_calls s [[]]))"
  using run_menu_collects [of s hash "[[]]" "builder_new_for_render capture"] assms
  by (simp add: merged_chain_Nil builder_finish_def builder_new_for_render_def)

text \<open>
  A view that makes bindings stay, one that turns it off again below it, an invalid chord, and a
  capture that is asked for last.
\<close>

definition sample_function :: lua_function where
  "sample_function = \<lparr>fn_chunk_name = Some ''@config.luau'', fn_line_defined = Some 3, fn_id = 1, fn_slot = 0\<rparr>"

definition sample_chord :: "key \<Rightarrow> string" where
  "sample_chord k = chord_to_string \<lparr>modifiers = {}, chord_key = k\<rparr>"

definition sample_menu :: "(string, unit) menu_script" where
  "sample_menu =
     Menu_With 0 (default_options\<lparr>opt_stay := Some True\<rparr>)
       (Menu_With 1 (default_options\<lparr>opt_stay := Some False, opt_global := Some True\<rparr>)
         (Menu_Bind 1 (sample_chord Key_A) ''run'' sample_function None None
           (\<lambda>_. Menu_Bind 2 ''+a'' ''bad'' sample_function None None
             (\<lambda>_. Menu_Submenu 2 (sample_chord Key_B) ''sub'' sample_function None None
               (\<lambda>_. Menu_Capture 0 (Menu_Return None ()))))))"

theorem menu_collects_declarations_witness:
  "\<exists>e v mb. run_menu sample_menu (\<lambda>_ _ _ _. 7) [default_options] (builder_new_for_render False) = (e, v, mb)
     \<and> map (\<lambda>b. (bd_desc b, flag_stay (bd_flags b), flag_global (bd_flags b))) (fst (builder_finish mb))
         = [(''run'', True, False), (''sub'', False, True)]
     \<and> snd (builder_finish mb)"
proof -
  obtain e v mb where run:
    "run_menu sample_menu (\<lambda>_ _ _ _. 7) [default_options] (builder_new_for_render False) = (e, v, mb)"
    by (metis prod_cases3)
  have c: "chord_parse ''+a'' = None" by (simp add: chord_parse_def trim_def trim_start_def trim_end_def Let_def split: option.split)
  show ?thesis
    using run menu_collects_declarations [OF run] c
    by (auto simp: sample_menu_def sample_chord_def parse_display_chord view_chain_def map_filter_simps declared_flags_def chosen_def default_options_def)
qed

end
