(* ===== verification/Config_Runtime.thy ===== *)
theory Config_Runtime
  imports Action_Ctx Menu_Builder
begin

text \<open>
  Execution of handlers (\<open>script/handler.rs\<close>) and of selector callbacks and item
  providers (\<open>script/selector.rs\<close>).  The Luau VM (crate \<open>ruau\<close>) is the record
  \<open>'v vm_ops\<close> over its state \<open>'v\<close>: running a renderer or a handler gives the tree of
  the calls the script makes on its builder or context.
\<close>

subsection \<open>The VM\<close>

type_synonym 'v handler_script = "(config_error, 'v) script"
type_synonym 'v render_script = "(config_error, 'v) menu_script"

record 'v vm_ops =
  vm_render :: "'v \<Rightarrow> mode_ref \<Rightarrow> mode_ctx \<Rightarrow> 'v render_script"
  vm_mode_hash :: mode_hash
  vm_handler :: "'v \<Rightarrow> handler_ref \<Rightarrow> mode_ctx \<Rightarrow> 'v handler_script"
  vm_selector_handler :: "'v \<Rightarrow> handler_ref \<Rightarrow> mode_ctx \<Rightarrow> selector_item \<Rightarrow> string \<Rightarrow> 'v handler_script"
  vm_provider :: "'v \<Rightarrow> nat \<Rightarrow> mode_ctx \<Rightarrow> (config_error + selector_item list) \<times> 'v"
  vm_synchronize :: "'v \<Rightarrow> (config_error + unit) \<times> 'v"

record 'v config =
  cfg_vm :: 'v
  cfg_root :: mode_ref
  cfg_base_style :: ui_style
  cfg_sources :: "string \<Rightarrow> string option"

definition synchronize_callbacks :: "'v vm_ops \<Rightarrow> 'v config \<Rightarrow> (config_error + unit) \<times> 'v config" where
  "synchronize_callbacks vm cfg =
     (let (r, v) = vm_synchronize vm (cfg_vm cfg) in (r, cfg\<lparr>cfg_vm := v\<rparr>))"

subsection \<open>Handlers\<close>

definition finish_script ::
  "'v vm_ops \<Rightarrow> config_error option \<times> 'v \<times> action_ctx \<Rightarrow> 'v config
   \<Rightarrow> (config_error + handler_result) \<times> 'v config" where
  "finish_script vm outcome cfg =
     (case outcome of (err, v, c) \<Rightarrow>
        let (sync, cfg') = synchronize_callbacks vm (cfg\<lparr>cfg_vm := v\<rparr>) in
        case sync of
          Inl e \<Rightarrow> (Err e, cfg')
        | Inr _ \<Rightarrow>
            (case err of
               Some e \<Rightarrow> (Err e, cfg')
             | None \<Rightarrow>
                 let ((effects, stay), _) = ctx_finish c
                 in (Ok \<lparr>hr_effects = effects, hr_stay = stay\<rparr>, cfg')))"

definition execute_handler_with_permission ::
  "'v vm_ops \<Rightarrow> handler_ref \<Rightarrow> mode_ctx \<Rightarrow> repeat_permission \<Rightarrow> 'v config
   \<Rightarrow> (config_error + handler_result) \<times> 'v config" where
  "execute_handler_with_permission vm handler ctx perm cfg =
     finish_script vm (run_script (vm_handler vm (cfg_vm cfg) handler ctx) (action_ctx_new perm)) cfg"

definition execute_handler ::
  "'v vm_ops \<Rightarrow> handler_ref \<Rightarrow> mode_ctx \<Rightarrow> 'v config \<Rightarrow> (config_error + handler_result) \<times> 'v config" where
  "execute_handler vm handler ctx cfg = execute_handler_with_permission vm handler ctx HeldKey cfg"

definition execute_selector_handler ::
  "'v vm_ops \<Rightarrow> handler_ref \<Rightarrow> mode_ctx \<Rightarrow> selector_item \<Rightarrow> string \<Rightarrow> 'v config
   \<Rightarrow> (config_error + handler_result) \<times> 'v config" where
  "execute_selector_handler vm handler ctx item query cfg =
     finish_script vm
       (run_script (vm_selector_handler vm (cfg_vm cfg) handler ctx item query) (action_ctx_new Keyless)) cfg"

definition execute_selector_selection ::
  "'v vm_ops \<Rightarrow> selector_config \<Rightarrow> mode_ctx \<Rightarrow> selector_item \<Rightarrow> string \<Rightarrow> 'v config
   \<Rightarrow> (config_error + handler_result) \<times> 'v config" where
  "execute_selector_selection vm sel ctx item query cfg =
     execute_selector_handler vm (sel_on_select sel) ctx item query cfg"

definition execute_selector_cancel ::
  "'v vm_ops \<Rightarrow> selector_config \<Rightarrow> mode_ctx \<Rightarrow> 'v config
   \<Rightarrow> (config_error + handler_result option) \<times> 'v config" where
  "execute_selector_cancel vm sel ctx cfg =
     (case sel_on_cancel sel of
        None \<Rightarrow> (Ok None, cfg)
      | Some h \<Rightarrow>
          (case execute_handler vm h ctx cfg of
             (Inl e, cfg') \<Rightarrow> (Err e, cfg')
           | (Inr r, cfg') \<Rightarrow> (Ok (Some r), cfg')))"

definition resolve_selector_items ::
  "'v vm_ops \<Rightarrow> selector_config \<Rightarrow> mode_ctx \<Rightarrow> 'v config
   \<Rightarrow> (config_error + selector_item list) \<times> 'v config" where
  "resolve_selector_items vm sel ctx cfg =
     (case sel_items sel of
        Static items \<Rightarrow> (Ok items, cfg)
      | Provider p \<Rightarrow>
          (let (result, v) = vm_provider vm (cfg_vm cfg) p ctx;
               (sync, cfg') = synchronize_callbacks vm (cfg\<lparr>cfg_vm := v\<rparr>)
           in case sync of Inl e \<Rightarrow> (Err e, cfg') | Inr _ \<Rightarrow> (result, cfg')))"

subsection \<open>Results of handlers\<close>

text \<open>
  What the engine may rely on in a handler's effects: at most one held-key loop, and
  none when the handler was not started by a held key.
\<close>

definition result_ok :: "repeat_permission \<Rightarrow> handler_result \<Rightarrow> bool" where
  "result_ok perm r \<longleftrightarrow>
     length (filter is_until_keyup (hr_effects r)) \<le> 1 \<and>
     (perm \<noteq> HeldKey \<longrightarrow> filter is_until_keyup (hr_effects r) = []) \<and>
     list_all effect_ok (hr_effects r)"

lemma finish_script_cases:
  assumes "finish_script vm (e, v, c) cfg = (r, cfg')"
  shows "cfg' = cfg\<lparr>cfg_vm := snd (vm_synchronize vm v)\<rparr> \<and>
    (case r of Inl x \<Rightarrow> fst (vm_synchronize vm v) = Inl x \<or> e = Some x
     | Inr h \<Rightarrow> e = None \<and> is_ok (fst (vm_synchronize vm v)) \<and> h = \<lparr>hr_effects = ac_effects c, hr_stay = ac_stay c\<rparr>)"
  using assms
  by (cases "vm_synchronize vm v")
     (auto simp: finish_script_def synchronize_callbacks_def Let_def ctx_finish_def split: sum.splits option.splits)

lemma finish_script_result_ok:
  assumes "finish_script vm (run_script s (action_ctx_new perm)) cfg = (Inr r, cfg')"
  shows "result_ok perm r"
proof -
  obtain e v c where run: "run_script s (action_ctx_new perm) = (e, v, c)"
    by (metis prod_cases3)
  have "action_ctx_ok c \<and> ac_repeat c = perm"
    using run_script_inv[OF run] by simp
  moreover have "r = \<lparr>hr_effects = ac_effects c, hr_stay = ac_stay c\<rparr>"
    using finish_script_cases[of vm e v c cfg "Inr r" cfg'] assms run by simp
  ultimately show ?thesis
    by (auto simp: result_ok_def action_ctx_ok_def split: if_splits)
qed

lemma execute_handler_result_ok:
  "execute_handler_with_permission vm h ctx perm cfg = (Inr r, cfg') \<Longrightarrow> result_ok perm r"
  unfolding execute_handler_with_permission_def by (rule finish_script_result_ok)

lemma execute_selector_handler_result_ok:
  "execute_selector_handler vm h ctx item query cfg = (Inr r, cfg') \<Longrightarrow> result_ok Keyless r"
  unfolding execute_selector_handler_def by (rule finish_script_result_ok)

text \<open>Every entry point changes the VM state only.\<close>

lemma synchronize_callbacks_frame:
  "synchronize_callbacks vm cfg = (r, cfg') \<Longrightarrow> cfg' = cfg\<lparr>cfg_vm := cfg_vm cfg'\<rparr>"
  by (auto simp: synchronize_callbacks_def split: prod.splits)

lemma finish_script_frame:
  "finish_script vm outcome cfg = (r, cfg') \<Longrightarrow> cfg' = cfg\<lparr>cfg_vm := cfg_vm cfg'\<rparr>"
  using finish_script_cases by (cases outcome) fastforce

text \<open>
  a handler result never holds more than one held-key loop, holds none unless the
  handler was started by a held key (so never from a selector callback nor inside a
  repeated action), never relays to an application with an empty name, and running the
  handler changes nothing of the configuration but the VM state.
\<close>

theorem handler_effects_bounded:
  assumes "execute_handler_with_permission vm h ctx perm cfg = (Ok r, cfg')"
  shows "length (filter is_until_keyup (hr_effects r)) \<le> 1 \<and>
    (perm \<noteq> HeldKey \<longrightarrow> \<not> list_ex is_until_keyup (hr_effects r)) \<and>
    list_all effect_ok (hr_effects r) \<and> cfg' = cfg\<lparr>cfg_vm := cfg_vm cfg'\<rparr>"
  using execute_handler_result_ok[OF assms]
    finish_script_frame[OF assms[unfolded execute_handler_with_permission_def]]
  unfolding result_ok_def filter_empty_conv list_ex_iff by blast

text \<open>A VM whose handlers ask twice for a loop and notify, and whose menus hold one binding.\<close>

definition sample_handler :: "unit handler_script" where
  "sample_handler =
     Script_Call (Call_UntilKeyup \<lparr>handler_func = 1\<rparr> None)
       (\<lambda>_. Script_Call (Call_UntilKeyup \<lparr>handler_func = 2\<rparr> None)
         (\<lambda>_. Script_Call (Call_Notify NK_Info ''t'' ''b'') (\<lambda>_. Script_Return None ())))"

definition sample_vm :: "unit vm_ops" where
  "sample_vm =
     \<lparr>vm_render = (\<lambda>_ _ _. Menu_Bind 0 ''a'' ''run'' sample_function None None (\<lambda>_. Menu_Return None ())),
      vm_mode_hash = (\<lambda>_ _ _ _. 7),
      vm_handler = (\<lambda>_ _ _. sample_handler),
      vm_selector_handler = (\<lambda>_ _ _ _ _. sample_handler),
      vm_provider = (\<lambda>_ _ _. (Ok [], ())),
      vm_synchronize = (\<lambda>v. (Ok (), v))\<rparr>"

definition sample_config :: "unit config" where
  "sample_config =
     \<lparr>cfg_vm = (), cfg_root = \<lparr>mode_ref_id = 1, mode_func = 0, mode_default_title = None\<rparr>,
      cfg_base_style = ui_style_default, cfg_sources = (\<lambda>_. None)\<rparr>"

definition sample_ctx :: mode_ctx where
  "sample_ctx = \<lparr>ctx_window = None, ctx_hud = False, ctx_depth = 0\<rparr>"

lemma sample_handler_run:
  "run_script sample_handler (action_ctx_new HeldKey) =
     (None, (), \<lparr>ac_effects = [Eff_UntilKeyUp \<lparr>handler_func = 1\<rparr> None, Eff_Notify NK_Info ''t'' ''b''],
                ac_stay = False, ac_active = True, ac_until_keyup = True, ac_repeat = HeldKey\<rparr>)"
  by (simp add: sample_handler_def ctx_op_defs action_ctx_new_def)

theorem handler_effects_bounded_witness:
  "\<exists>r cfg'. execute_handler_with_permission sample_vm \<lparr>handler_func = 0\<rparr> sample_ctx HeldKey sample_config = (Ok r, cfg') \<and>
     length (filter is_until_keyup (hr_effects r)) \<le> 1 \<and> hr_effects r \<noteq> []"
proof -
  have run: "execute_handler_with_permission sample_vm \<lparr>handler_func = 0\<rparr> sample_ctx HeldKey sample_config =
    (Ok \<lparr>hr_effects = [Eff_UntilKeyUp \<lparr>handler_func = 1\<rparr> None, Eff_Notify NK_Info ''t'' ''b''], hr_stay = False\<rparr>,
     sample_config)"
    by (simp add: execute_handler_with_permission_def sample_vm_def sample_handler_run finish_script_def
        synchronize_callbacks_def ctx_finish_def)
  show ?thesis using run handler_effects_bounded[OF run] by fastforce
qed

end
