(* ===== verification/Mode_Stack.thy ===== *)
theory Mode_Stack
  imports Config_Runtime "HOL-Library.Sublist"
begin

text \<open>
  The stack of active modes (\<open>config/src/runtime.rs\<close>) and its rendering
  (\<open>config/src/script/render.rs\<close>): duplicate chords within a mode, truncation at an
  empty or orphaned child, flattening with inherited global bindings and HUD rows.
\<close>

subsection \<open>The mode stack\<close>

type_synonym mode_stack = "mode_frame list"

definition root_frame :: "mode_ref \<Rightarrow> mode_frame" where
  "root_frame closure =
     \<lparr>frame_title = ''root'', frame_closure = closure, frame_entered_via = None,
      frame_rendered = [], frame_capture = False\<rparr>"

definition ensure_stack :: "'v config \<Rightarrow> mode_stack \<Rightarrow> mode_stack" where
  "ensure_stack cfg stack = (if stack = [] then [root_frame (cfg_root cfg)] else stack)"

definition reset_stack :: "'v config \<Rightarrow> mode_stack" where
  "reset_stack cfg = [root_frame (cfg_root cfg)]"

definition stack_depth :: "mode_stack \<Rightarrow> nat" where
  "stack_depth stack = length stack - 1"

definition breadcrumbs :: "mode_stack \<Rightarrow> string list" where
  "breadcrumbs stack = map frame_title (drop 1 stack)"

definition stack_push ::
  "string \<Rightarrow> mode_ref \<Rightarrow> (chord \<times> 64 word) option \<Rightarrow> bool \<Rightarrow> mode_stack \<Rightarrow> mode_stack" where
  "stack_push title closure entered_via capture stack =
     stack @ [\<lparr>frame_title = title, frame_closure = closure, frame_entered_via = entered_via,
               frame_rendered = [], frame_capture = capture\<rparr>]"

definition stack_pop :: "mode_stack \<Rightarrow> bool \<times> mode_stack" where
  "stack_pop stack = (if stack_depth stack = 0 then (False, stack) else (True, butlast stack))"

definition reset_to_root :: "mode_stack \<Rightarrow> bool \<times> mode_stack" where
  "reset_to_root stack = (0 < stack_depth stack, take 1 stack)"

subsection \<open>Duplicate chords\<close>

definition location_string :: "source_pos \<Rightarrow> string" where
  "location_string pos =
     (case (pos_path pos, pos_line pos, pos_col pos) of
        (Some p, Some l, Some c) \<Rightarrow> p @ '':'' @ string_of_nat l @ '':'' @ string_of_nat c
      | (Some p, Some l, None) \<Rightarrow> p @ '':'' @ string_of_nat l
      | (Some p, None, _) \<Rightarrow> p
      | (None, Some l, Some c) \<Rightarrow> ''line '' @ string_of_nat l @ '' col '' @ string_of_nat c
      | (None, Some l, None) \<Rightarrow> ''line '' @ string_of_nat l
      | (None, None, _) \<Rightarrow> ''unknown location'')"

definition excerpt_for :: "'v config \<Rightarrow> source_pos \<Rightarrow> string option" where
  "excerpt_for cfg pos =
     (case pos_path pos of
        None \<Rightarrow> None
      | Some p \<Rightarrow>
          (case pos_line pos of
             None \<Rightarrow> None
           | Some l \<Rightarrow>
               (case cfg_sources cfg p of
                  None \<Rightarrow> None
                | Some source \<Rightarrow>
                    Some (excerpt_at source l (case pos_col pos of Some c \<Rightarrow> c | None \<Rightarrow> 1)))))"

definition duplicate_warning :: "'v config \<Rightarrow> binding \<Rightarrow> effect" where
  "duplicate_warning cfg b =
     (let excerpt = Option.bind (bd_pos b) (excerpt_for cfg);
          loc = (case bd_pos b of Some p \<Rightarrow> location_string p | None \<Rightarrow> ''unknown location'');
          body = ''Duplicate chord '' @ [CHR 0x27] @ chord_to_string (bd_chord b) @ [CHR 0x27]
                 @ '' ignored at '' @ loc @ ''.''
      in Eff_Notify NK_Warn ''Config''
           (case excerpt of None \<Rightarrow> body | Some ex \<Rightarrow> body @ [newline] @ ex))"

fun dedup_loop ::
  "'v config \<Rightarrow> string set \<Rightarrow> binding list \<Rightarrow> binding list \<times> effect list" where
  "dedup_loop cfg seen [] = ([], [])"
| "dedup_loop cfg seen (b # bs) =
     (let ident = chord_to_string (bd_chord b) in
      if ident \<notin> seen
      then (let (out, warnings) = dedup_loop cfg (insert ident seen) bs in (b # out, warnings))
      else (let (out, warnings) = dedup_loop cfg seen bs in (out, duplicate_warning cfg b # warnings)))"

definition dedup_mode_bindings :: "'v config \<Rightarrow> binding list \<Rightarrow> binding list \<times> effect list" where
  "dedup_mode_bindings cfg bs = dedup_loop cfg {} bs"

subsection \<open>Rendering\<close>

record mode_view =
  view_bindings :: "binding list"
  view_capture :: bool

definition render_mode ::
  "'v vm_ops \<Rightarrow> mode_frame \<Rightarrow> mode_ctx \<Rightarrow> 'v config
   \<Rightarrow> (config_error + mode_view \<times> effect list) \<times> 'v config" where
  "render_mode vm frame ctx cfg =
     (case run_menu (vm_render vm (cfg_vm cfg) (frame_closure frame) ctx) (vm_mode_hash vm)
             [default_options] (builder_new_for_render (frame_capture frame)) of
        (Some e, v, builder) \<Rightarrow> (Err e, cfg\<lparr>cfg_vm := v\<rparr>)
      | (None, v, builder) \<Rightarrow>
          (let (bs, capture) = builder_finish builder in
           case synchronize_callbacks vm (cfg\<lparr>cfg_vm := v\<rparr>) of
             (Inl e, cfg') \<Rightarrow> (Err e, cfg')
           | (Inr _, cfg') \<Rightarrow>
               (let (out, warnings) = dedup_mode_bindings cfg' bs
                in (Ok (\<lparr>view_bindings = out, view_capture = capture\<rparr>, warnings), cfg'))))"

definition is_mode_binding :: "binding \<Rightarrow> bool" where
  "is_mode_binding b = (case bd_kind b of Bind_Mode _ \<Rightarrow> True | Bind_Handler _ \<Rightarrow> False)"

definition entry_exists :: "chord \<times> 64 word \<Rightarrow> binding list \<Rightarrow> bool" where
  "entry_exists via bs =
     list_ex (\<lambda>b. bd_chord b = fst via \<and> is_mode_binding b \<and> bd_mode_id b = Some (snd via)) bs"

text \<open>
  The loop of \<open>render_stack_inner\<close> over the frames from \<open>depth\<close> on; \<open>done\<close> are the
  frames already rendered.  It stops with the frames it keeps; on an error the
  frames rendered so far stay updated.
\<close>

fun render_frames ::
  "'v vm_ops \<Rightarrow> mode_ctx \<Rightarrow> mode_frame list \<Rightarrow> mode_frame list \<Rightarrow> effect list \<Rightarrow> 'v config
   \<Rightarrow> (config_error + effect list) \<times> mode_stack \<times> 'v config" where
  "render_frames vm ctx done [] warnings cfg = (Ok warnings, done, cfg)"
| "render_frames vm ctx done (frame # rest) warnings cfg =
     (case render_mode vm frame ctx cfg of
        (Inl e, cfg') \<Rightarrow> (Err e, done @ frame # rest, cfg')
      | (Inr (view, local_warnings), cfg') \<Rightarrow>
          (let warnings' = warnings @ local_warnings;
               frame' = frame\<lparr>frame_rendered := view_bindings view, frame_capture := view_capture view\<rparr>
           in if frame_rendered frame' = [] \<and> done \<noteq> [] then (Ok warnings', done, cfg')
              else (case rest of
                      [] \<Rightarrow> (Ok warnings', done @ [frame'], cfg')
                    | next # _ \<Rightarrow>
                        (case frame_entered_via next of
                           None \<Rightarrow> render_frames vm ctx (done @ [frame']) rest warnings' cfg'
                         | Some via \<Rightarrow>
                             if entry_exists via (frame_rendered frame')
                             then render_frames vm ctx (done @ [frame']) rest warnings' cfg'
                             else (Ok warnings', done @ [frame'], cfg')))))"

fun add_bindings ::
  "string set \<Rightarrow> binding list \<Rightarrow> (chord \<times> binding) list \<times> string set" where
  "add_bindings seen [] = ([], seen)"
| "add_bindings seen (b # bs) =
     (let ident = chord_to_string (bd_chord b) in
      if ident \<notin> seen
      then (let (out, seen') = add_bindings (insert ident seen) bs in ((bd_chord b, b) # out, seen'))
      else add_bindings seen bs)"

fun add_parents :: "string set \<Rightarrow> mode_frame list \<Rightarrow> (chord \<times> binding) list" where
  "add_parents seen [] = []"
| "add_parents seen (frame # frames) =
     (let (out, seen') = add_bindings seen (filter (\<lambda>b. flag_global (bd_flags b)) (frame_rendered frame))
      in out @ add_parents seen' frames)"

definition flatten_bindings :: "mode_stack \<Rightarrow> (chord \<times> binding) list" where
  "flatten_bindings stack =
     (if stack = [] then []
      else (let (out, seen) = add_bindings {} (frame_rendered (last stack))
            in out @ add_parents seen (rev (butlast stack))))"

definition build_hud_rows :: "(chord \<times> binding) list \<Rightarrow> hud_row list" where
  "build_hud_rows bs =
     map (\<lambda>(c, b). \<lparr>row_chord = c, row_desc = bd_desc b, row_is_mode = is_mode_binding b,
                    row_stay = flag_stay (bd_flags b)\<rparr>)
       (filter (\<lambda>(c, b). \<not> flag_hidden (bd_flags b)) bs)"

definition render_stack_inner ::
  "'v vm_ops \<Rightarrow> mode_ctx \<Rightarrow> ui_style \<Rightarrow> mode_stack \<Rightarrow> 'v config
   \<Rightarrow> (config_error + rendered_state \<times> effect list) \<times> mode_stack \<times> 'v config" where
  "render_stack_inner vm ctx base_style stack cfg =
     (case render_frames vm ctx [] stack [] cfg of
        (Inl e, stack', cfg') \<Rightarrow> (Err e, stack', cfg')
      | (Inr warnings, stack', cfg') \<Rightarrow>
          (let bs = flatten_bindings stack'
           in (Ok (\<lparr>rs_bindings = bs, rs_hud_rows = build_hud_rows bs, rs_style = base_style,
                    rs_capture = (stack' \<noteq> [] \<and> frame_capture (last stack'))\<rparr>, warnings),
               stack', cfg')))"

definition render_stack ::
  "'v vm_ops \<Rightarrow> mode_ctx \<Rightarrow> ui_style \<Rightarrow> mode_stack \<Rightarrow> 'v config
   \<Rightarrow> (config_error + rendered_state \<times> effect list) \<times> mode_stack \<times> 'v config" where
  "render_stack vm ctx base_style stack cfg =
     (let (result, stack', cfg1) = render_stack_inner vm ctx base_style stack cfg;
          (sync, cfg2) = synchronize_callbacks vm cfg1
      in ((case result of
             Inl e \<Rightarrow> Err e
           | Inr out \<Rightarrow> (case sync of Inl e \<Rightarrow> Err e | Inr _ \<Rightarrow> Ok out)), stack', cfg2))"

definition config_render ::
  "'v vm_ops \<Rightarrow> mode_ctx \<Rightarrow> mode_stack \<Rightarrow> 'v config
   \<Rightarrow> (config_error + rendered_state \<times> effect list) \<times> mode_stack \<times> 'v config" where
  "config_render vm ctx stack cfg = render_stack vm ctx (cfg_base_style cfg) stack cfg"

definition resolve_binding :: "rendered_state \<Rightarrow> chord \<Rightarrow> binding option" where
  "resolve_binding st c = map_option snd (find (\<lambda>(candidate, b). candidate = c) (rs_bindings st))"

subsection \<open>Duplicates and inheritance\<close>

definition find_chord :: "chord \<Rightarrow> binding list \<Rightarrow> binding option" where
  "find_chord c bs = find (\<lambda>b. bd_chord b = c) bs"

text \<open>The reference lookup: the top frame, then the global bindings of its ancestors, nearest first.\<close>

fun find_global :: "chord \<Rightarrow> mode_frame list \<Rightarrow> binding option" where
  "find_global c [] = None"
| "find_global c (f # fs) =
     (case find (\<lambda>b. bd_chord b = c \<and> flag_global (bd_flags b)) (frame_rendered f) of
        Some b \<Rightarrow> Some b
      | None \<Rightarrow> find_global c fs)"

definition lookup_stack :: "chord \<Rightarrow> mode_stack \<Rightarrow> binding option" where
  "lookup_stack c stack =
     (if stack = [] then None
      else case find_chord c (frame_rendered (last stack)) of
             Some b \<Rightarrow> Some b
           | None \<Rightarrow> find_global c (rev (butlast stack)))"

lemma dedup_loop_spec:
  assumes "dedup_loop cfg seen bs = (out, ws)"
  shows "distinct (map bd_chord out)" and "length out + length ws = length bs"
    and "set out \<subseteq> set bs" and "\<forall>b \<in> set out. chord_to_string (bd_chord b) \<notin> seen"
    and "find_chord c out = (if chord_to_string c \<in> seen then None else find_chord c bs)"
proof -
  have "distinct (map bd_chord out) \<and> length out + length ws = length bs \<and> set out \<subseteq> set bs \<and>
    (\<forall>b \<in> set out. chord_to_string (bd_chord b) \<notin> seen) \<and>
    find_chord c out = (if chord_to_string c \<in> seen then None else find_chord c bs)"
    using assms
  proof (induction bs arbitrary: seen out ws)
    case (Cons b bs)
    then show ?case
      by (cases "chord_to_string (bd_chord b) \<in> seen")
         (fastforce simp: Let_def find_chord_def chord_to_string_inject split: prod.splits)+
  qed (simp add: find_chord_def)
  then show "distinct (map bd_chord out)" "length out + length ws = length bs" "set out \<subseteq> set bs"
    "\<forall>b \<in> set out. chord_to_string (bd_chord b) \<notin> seen"
    "find_chord c out = (if chord_to_string c \<in> seen then None else find_chord c bs)"
    by blast+
qed

lemma distinct_keys_append:
  "distinct (map fst (xs @ ys)) \<longleftrightarrow>
     distinct (map fst xs) \<and> distinct (map fst ys) \<and> (\<forall>k. map_of xs k = None \<or> map_of ys k = None)"
  by (auto simp: map_of_eq_None_iff)

lemma add_bindings_spec:
  assumes "add_bindings seen bs = (out, seen')"
  shows "distinct (map fst out)"
    and "map_of out c = (if chord_to_string c \<in> seen then None else find_chord c bs)"
    and "chord_to_string c \<in> seen' \<longleftrightarrow> chord_to_string c \<in> seen \<or> find_chord c bs \<noteq> None"
proof -
  have "distinct (map fst out) \<and>
    (\<forall>c. map_of out c = (if chord_to_string c \<in> seen then None else find_chord c bs)) \<and>
    (\<forall>c. chord_to_string c \<in> seen' \<longleftrightarrow> chord_to_string c \<in> seen \<or> find_chord c bs \<noteq> None)"
    using assms
  proof (induction bs arbitrary: seen out seen')
    case (Cons b bs)
    let ?i = "chord_to_string (bd_chord b)"
    show ?case
    proof (cases "?i \<in> seen")
      case True
      then show ?thesis
        using Cons by (auto simp: find_chord_def Let_def)
    next
      case False
      obtain out1 where ab: "add_bindings (insert ?i seen) bs = (out1, seen')"
        and out: "out = (bd_chord b, b) # out1"
        using False Cons.prems by (auto simp: Let_def split: prod.splits)
      note IH = Cons.IH[OF ab]
      have "bd_chord b \<notin> fst ` set out1"
        using IH by (metis insertI1 map_of_eq_None_iff)
      then show ?thesis
        using False out IH by (auto simp: find_chord_def chord_to_string_inject)
    qed
  qed (simp add: find_chord_def)
  then show "distinct (map fst out)"
    "map_of out c = (if chord_to_string c \<in> seen then None else find_chord c bs)"
    "chord_to_string c \<in> seen' \<longleftrightarrow> chord_to_string c \<in> seen \<or> find_chord c bs \<noteq> None"
    by blast+
qed

lemma find_filter: "find P (filter Q xs) = find (\<lambda>x. P x \<and> Q x) xs"
  by (induction xs) auto

definition globals_of :: "mode_frame \<Rightarrow> binding list" where
  "globals_of f = filter (\<lambda>b. flag_global (bd_flags b)) (frame_rendered f)"

lemma find_global_Cons:
  "find_global c (f # fs) = (case find_chord c (globals_of f) of Some b \<Rightarrow> Some b | None \<Rightarrow> find_global c fs)"
  by (simp add: find_chord_def globals_of_def find_filter)

lemma add_parents_Cons:
  "add_parents seen (f # fs) = (let (out, seen') = add_bindings seen (globals_of f) in out @ add_parents seen' fs)"
  by (simp add: globals_of_def)

lemma add_parents_spec:
  "distinct (map fst (add_parents seen fs)) \<and>
   (\<forall>c. map_of (add_parents seen fs) c = (if chord_to_string c \<in> seen then None else find_global c fs))"
proof (induction fs arbitrary: seen)
  case (Cons f fs)
  obtain out seen' where ab: "add_bindings seen (globals_of f) = (out, seen')"
    by fastforce
  note spec = add_bindings_spec[OF ab] and IH = Cons.IH[of seen']
  have eq: "add_parents seen (f # fs) = out @ add_parents seen' fs"
    using ab by (simp add: add_parents_Cons del: add_parents.simps)
  have dist: "distinct (map fst (out @ add_parents seen' fs))"
    unfolding distinct_keys_append using IH spec by (metis option.distinct(1))
  have "map_of (out @ add_parents seen' fs) c = (if chord_to_string c \<in> seen then None else find_global c (f # fs))"
    for c
    using IH spec(2)[of c] spec(3)[of c]
    by (auto simp: find_global_Cons map_add_def split: option.splits simp del: find_global.simps)
  then show ?case unfolding eq using dist by blast
qed simp

lemma find_pair_map_of: "map_option snd (find (\<lambda>(k, b). k = c) xs) = map_of xs c"
  by (induction xs) auto

lemma flatten_spec:
  "distinct (map fst (flatten_bindings stack)) \<and> map_of (flatten_bindings stack) c = lookup_stack c stack"
proof (cases "stack = []")
  case False
  obtain out seen where ab: "add_bindings {} (frame_rendered (last stack)) = (out, seen)"
    by fastforce
  note spec = add_bindings_spec[OF ab] and parents = add_parents_spec[of seen "rev (butlast stack)"]
  have eq: "flatten_bindings stack = out @ add_parents seen (rev (butlast stack))"
    using False ab by (simp add: flatten_bindings_def)
  have "distinct (map fst (out @ add_parents seen (rev (butlast stack))))"
    unfolding distinct_keys_append using parents spec by (metis (no_types) empty_iff option.distinct(1))
  moreover have "map_of (out @ add_parents seen (rev (butlast stack))) c = lookup_stack c stack"
    using False parents spec(2)[of c] spec(3)[of c]
    by (auto simp: lookup_stack_def map_add_def split: option.splits)
  ultimately show ?thesis unfolding eq by blast
qed (simp add: flatten_bindings_def lookup_stack_def)

subsection \<open>The rendered stack\<close>

definition frame_key :: "mode_frame \<Rightarrow> string \<times> mode_ref \<times> (chord \<times> 64 word) option" where
  "frame_key f = (frame_title f, frame_closure f, frame_entered_via f)"

definition child_ok :: "mode_frame \<Rightarrow> mode_frame \<Rightarrow> bool" where
  "child_ok f g \<longleftrightarrow>
     (case frame_entered_via g of None \<Rightarrow> True | Some via \<Rightarrow> entry_exists via (frame_rendered f))"

definition rendered_ok :: "mode_stack \<Rightarrow> bool" where
  "rendered_ok st \<longleftrightarrow>
     successively child_ok st \<and> list_all (\<lambda>f. frame_rendered f \<noteq> []) (tl st) \<and>
     list_all (\<lambda>f. distinct (map bd_chord (frame_rendered f))) st"

lemma frame_key_update [simp]:
  "frame_key (f\<lparr>frame_rendered := bs, frame_capture := c\<rparr>) = frame_key f"
  by (simp add: frame_key_def)

lemma successively_snoc:
  "successively P (xs @ [x]) \<longleftrightarrow> successively P xs \<and> (xs \<noteq> [] \<longrightarrow> P (last xs) x)"
  by (auto simp: successively_append_iff)

lemma rendered_ok_snoc:
  "rendered_ok (st @ [f]) \<longleftrightarrow>
     rendered_ok st \<and> (st \<noteq> [] \<longrightarrow> child_ok (last st) f \<and> frame_rendered f \<noteq> []) \<and>
     distinct (map bd_chord (frame_rendered f))"
  unfolding rendered_ok_def successively_snoc by (cases st) auto

lemma render_mode_distinct:
  "render_mode vm f ctx cfg = (Inr (v, ws), cfg') \<Longrightarrow> distinct (map bd_chord (view_bindings v))"
  by (auto simp: render_mode_def Let_def dedup_mode_bindings_def dest: dedup_loop_spec(1)
      split: prod.splits sum.splits option.splits)

definition with_view :: "mode_frame \<Rightarrow> mode_view \<Rightarrow> mode_frame" where
  "with_view f v = f\<lparr>frame_rendered := view_bindings v, frame_capture := view_capture v\<rparr>"

lemma render_frames_Cons_ok:
  assumes "render_mode vm f ctx cfg = (Inr (v, lw), cfg1)"
  shows "render_frames vm ctx dn (f # rest) ws cfg =
    (if view_bindings v = [] \<and> dn \<noteq> [] then (Ok (ws @ lw), dn, cfg1)
     else if rest = [] \<or> \<not> child_ok (with_view f v) (hd rest)
     then (Ok (ws @ lw), dn @ [with_view f v], cfg1)
     else render_frames vm ctx (dn @ [with_view f v]) rest (ws @ lw) cfg1)"
  using assms by (simp add: Let_def with_view_def child_ok_def split: list.split option.split)

lemma render_frames_Cons_err:
  "render_mode vm f ctx cfg = (Inl e, cfg1) \<Longrightarrow>
   render_frames vm ctx dn (f # rest) ws cfg = (Err e, dn @ f # rest, cfg1)"
  by simp

lemma with_view_simps [simp]:
  "frame_key (with_view f v) = frame_key f" "frame_rendered (with_view f v) = view_bindings v"
  "child_ok g (with_view f v) = child_ok g f"
  by (simp_all add: with_view_def frame_key_def child_ok_def)

definition render_outcome ::
  "mode_frame list \<Rightarrow> mode_frame list \<Rightarrow> (config_error + effect list) \<Rightarrow> mode_stack \<Rightarrow> bool" where
  "render_outcome dn rest r st \<longleftrightarrow>
     map frame_key st = take (length st) (map frame_key (dn @ rest)) \<and>
     (is_ok r \<longrightarrow> rendered_ok st \<and> (dn @ rest \<noteq> [] \<longrightarrow> st \<noteq> [])) \<and>
     (\<not> is_ok r \<longrightarrow> length st = length (dn @ rest))"

lemma render_frames_spec:
  assumes "render_frames vm ctx dn rest ws cfg = (r, st, cfg')"
    and "rendered_ok dn" and "dn \<noteq> [] \<longrightarrow> rest \<noteq> [] \<longrightarrow> child_ok (last dn) (hd rest)"
  shows "render_outcome dn rest r st"
  using assms
proof (induction rest arbitrary: dn ws cfg)
  case Nil
  then show ?case by (auto simp: render_outcome_def)
next
  case (Cons f rest)
  obtain res cfg1 where rm: "render_mode vm f ctx cfg = (res, cfg1)" by fastforce
  show ?case
  proof (cases res)
    case (Inl e)
    then show ?thesis
      using Cons.prems rm by (auto simp: render_frames_Cons_err render_outcome_def simp del: render_frames.simps)
  next
    case (Inr vw)
    obtain v lw where vw: "vw = (v, lw)" by fastforce
    note unf = render_frames_Cons_ok[OF rm[unfolded Inr vw], of dn rest ws]
    have ok: "rendered_ok (dn @ [with_view f v])" if "\<not> (view_bindings v = [] \<and> dn \<noteq> [])"
      using that Cons.prems rm Inr vw render_mode_distinct by (auto simp: rendered_ok_snoc)
    consider "view_bindings v = [] \<and> dn \<noteq> []"
      | "\<not> (view_bindings v = [] \<and> dn \<noteq> [])" "rest = [] \<or> \<not> child_ok (with_view f v) (hd rest)"
      | "\<not> (view_bindings v = [] \<and> dn \<noteq> [])" "\<not> (rest = [] \<or> \<not> child_ok (with_view f v) (hd rest))"
      by blast
    then show ?thesis
    proof cases
      case 1
      then show ?thesis using Cons.prems unf by (auto simp: render_outcome_def)
    next
      case 2
      then show ?thesis
        using Cons.prems(1) unf ok by (auto simp: render_outcome_def simp del: render_frames.simps)
    next
      case 3
      have "render_outcome (dn @ [with_view f v]) rest r st"
        using Cons.IH[of "dn @ [with_view f v]" "ws @ lw" cfg1] Cons.prems(1) unf 3 ok by simp
      then show ?thesis by (simp add: render_outcome_def)
    qed
  qed
qed

lemma render_stack_Ok:
  assumes "config_render vm ctx stack cfg = (Ok (st, ws), stack', cfg')"
  obtains ws1 cfg1 where "render_frames vm ctx [] stack [] cfg = (Ok ws1, stack', cfg1)"
    "rs_bindings st = flatten_bindings stack'" "rs_hud_rows st = build_hud_rows (flatten_bindings stack')"
    "rs_capture st = (stack' \<noteq> [] \<and> frame_capture (last stack'))" "ws = ws1"
    "rs_style st = cfg_base_style cfg"
  using assms
  by (auto simp: config_render_def render_stack_def render_stack_inner_def Let_def
      split: prod.splits sum.splits)

lemma render_outcome_final:
  assumes "config_render vm ctx stack cfg = (r, stack', cfg')"
  shows "\<exists>r'. render_outcome [] stack r' stack' \<and> (is_ok r \<longrightarrow> is_ok r')"
proof -
  obtain r1 st1 cfg1 where rf: "render_frames vm ctx [] stack [] cfg = (r1, st1, cfg1)"
    by (metis prod_cases3)
  have "render_outcome [] stack r1 st1"
    using render_frames_spec[OF rf] by (simp add: rendered_ok_def)
  then show ?thesis
    using assms rf
    by (intro exI[of _ r1])
       (auto simp: config_render_def render_stack_def render_stack_inner_def Let_def
        split: prod.splits sum.splits)
qed

subsection \<open>Properties\<close>

text \<open>
  C10: after a successful render a chord resolves to the binding the innermost mode declares
  for it, else to the global binding of its nearest ancestor that declares one: a mode
  shadows its parents and only global bindings are inherited.  Flattened chords are distinct.
\<close>

theorem resolve_binding_nearest:
  assumes "config_render vm ctx stack cfg = (Ok (st, ws), stack', cfg')"
  shows "resolve_binding st c = lookup_stack c stack' \<and> distinct (map fst (rs_bindings st))"
  using assms by (rule render_stack_Ok) (simp add: resolve_binding_def find_pair_map_of flatten_spec)

text \<open>
  rendering keeps a prefix of the mode stack, identities included.  On success
  the root is kept, every kept child is non-empty and still declared by its parent under
  the chord and mode identity it was entered with, and each frame binds a chord once.
\<close>

theorem render_keeps_valid_prefix:
  assumes "config_render vm ctx stack cfg = (r, stack', cfg')" and "stack \<noteq> []"
  shows "map frame_key stack' = take (length stack') (map frame_key stack) \<and>
    (is_ok r \<longrightarrow> stack' \<noteq> [] \<and> successively child_ok stack' \<and>
       list_all (\<lambda>f. frame_rendered f \<noteq> []) (tl stack') \<and>
       list_all (\<lambda>f. distinct (map bd_chord (frame_rendered f))) stack')"
  using render_outcome_final[OF assms(1)] assms(2) by (auto simp: render_outcome_def rendered_ok_def)

text \<open>
  within a mode the first binding of each chord wins; every other one is dropped
  with one warning, and nothing else is dropped or reordered.
\<close>

theorem dedup_first_wins:
  "distinct (map bd_chord (fst (dedup_mode_bindings cfg bs))) \<and>
   subseq (fst (dedup_mode_bindings cfg bs)) bs \<and>
   (\<forall>c. find_chord c (fst (dedup_mode_bindings cfg bs)) = find_chord c bs) \<and>
   length (fst (dedup_mode_bindings cfg bs)) + length (snd (dedup_mode_bindings cfg bs)) = length bs"
proof -
  obtain out ws where d: "dedup_loop cfg {} bs = (out, ws)" by fastforce
  have "subseq (fst (dedup_loop cfg seen bs)) bs" for seen
  proof (induction bs arbitrary: seen)
    case (Cons b bs)
    show ?case
      using Cons.IH[of seen] Cons.IH[of "insert (chord_to_string (bd_chord b)) seen"]
      by (simp add: Let_def case_prod_beta list_emb_Cons)
  qed simp
  from this[of "{}"] have "subseq out bs" by (simp add: d)
  then show ?thesis
    using dedup_loop_spec[OF d] d by (simp add: dedup_mode_bindings_def)
qed

definition sample_stack :: mode_stack where
  "sample_stack = reset_stack sample_config"

lemma sample_render:
  "\<exists>st ws stack' cfg'. config_render sample_vm sample_ctx sample_stack sample_config = (Ok (st, ws), stack', cfg')"
  by (simp add: config_render_def render_stack_def render_stack_inner_def sample_stack_def reset_stack_def
      render_mode_def sample_vm_def Let_def synchronize_callbacks_def split: prod.splits sum.splits)

theorem resolve_binding_nearest_witness:
  "\<exists>st ws stack' cfg'. config_render sample_vm sample_ctx sample_stack sample_config = (Ok (st, ws), stack', cfg') \<and>
     (\<forall>c. resolve_binding st c = lookup_stack c stack')"
proof -
  obtain st ws stack' cfg' where
    r: "config_render sample_vm sample_ctx sample_stack sample_config = (Ok (st, ws), stack', cfg')"
    using sample_render by blast
  show ?thesis using r resolve_binding_nearest[OF r] by blast
qed

theorem render_keeps_valid_prefix_witness:
  "\<exists>r stack' cfg'. config_render sample_vm sample_ctx sample_stack sample_config = (r, stack', cfg') \<and>
     is_ok r \<and> stack' \<noteq> []"
proof -
  obtain st ws stack' cfg' where
    r: "config_render sample_vm sample_ctx sample_stack sample_config = (Ok (st, ws), stack', cfg')"
    using sample_render by blast
  have "sample_stack \<noteq> []" by (simp add: sample_stack_def reset_stack_def)
  then show ?thesis using r render_keeps_valid_prefix[OF r] by auto
qed

end
