(* ===== verification/Selector.thy ===== *)
theory Selector
  imports Config_Types Keycode
begin

text \<open>
  The interactive selector (\<open>hotki-engine/src/selector.rs\<close>): key actions, query
  editing, the visible window of matches and the chords captured while it is open.
  The fuzzy matcher (crate \<open>nucleo\<close>) is the record \<open>'m matcher_ops\<close> over its state.
\<close>

subsection \<open>The matcher\<close>

record selector_candidate =
  cand_id :: "64 word"
  cand_item :: selector_item

text \<open>
  \<open>mo_window m start end\<close> are the matched items from \<open>start\<close> to before \<open>end\<close>, each
  with the highlight indices of its label as the matcher reports them.
\<close>

record 'm matcher_ops =
  mo_new :: "selector_candidate list \<Rightarrow> 'm"
  mo_reparse :: "string \<Rightarrow> bool \<Rightarrow> 'm \<Rightarrow> 'm"
  mo_tick :: "'m \<Rightarrow> bool \<times> 'm"
  mo_matched_count :: "'m \<Rightarrow> 32 word"
  mo_matched_item :: "'m \<Rightarrow> 32 word \<Rightarrow> selector_candidate option"
  mo_window :: "'m \<Rightarrow> 32 word \<Rightarrow> 32 word \<Rightarrow> (selector_item \<times> 32 word list) list"

record 'm selector_matcher =
  nucleo :: 'm
  last_query :: string

definition candidates :: "selector_item list \<Rightarrow> selector_candidate list" where
  "candidates items =
     map (\<lambda>(i, item). \<lparr>cand_id = of_nat i + 1, cand_item = item\<rparr>) (enumerate 0 items)"

definition matcher_new :: "'m matcher_ops \<Rightarrow> selector_item list \<Rightarrow> 'm selector_matcher" where
  "matcher_new mo items = \<lparr>nucleo = mo_new mo (candidates items), last_query = []\<rparr>"

definition update_pattern :: "'m matcher_ops \<Rightarrow> string \<Rightarrow> 'm selector_matcher \<Rightarrow> 'm selector_matcher" where
  "update_pattern mo query m =
     (let append = length (last_query m) \<le> length query \<and> take (length (last_query m)) query = last_query m
      in m\<lparr>nucleo := mo_reparse mo query append (nucleo m), last_query := query\<rparr>)"

definition matched_count :: "'m matcher_ops \<Rightarrow> 'm selector_matcher \<Rightarrow> 32 word" where
  "matched_count mo m = mo_matched_count mo (nucleo m)"

definition matched_window ::
  "'m matcher_ops \<Rightarrow> 'm selector_matcher \<Rightarrow> 32 word \<Rightarrow> 32 word \<Rightarrow> (selector_item \<times> 32 word list) list" where
  "matched_window mo m start end' =
     map (\<lambda>(item, indices). (item, remdups_adj (sort indices))) (mo_window mo (nucleo m) start end')"

subsection \<open>Actions\<close>

datatype selector_action =
    SA_None | SA_Cancel | SA_Select | SA_MoveUp | SA_MoveDown | SA_Backspace | SA_Clear | SA_Append char

datatype selector_action_event = SAE_None | SAE_Update | SAE_Select | SAE_Cancel

record selector_shortcut =
  sc_key :: key
  sc_modifiers :: "modifier list"
  sc_action :: selector_action

definition selector_shortcuts :: "selector_shortcut list" where
  "selector_shortcuts =
     [\<lparr>sc_key = Key_Escape, sc_modifiers = [], sc_action = SA_Cancel\<rparr>,
      \<lparr>sc_key = Key_Return, sc_modifiers = [], sc_action = SA_Select\<rparr>,
      \<lparr>sc_key = Key_KeypadEnter, sc_modifiers = [], sc_action = SA_Select\<rparr>,
      \<lparr>sc_key = Key_UpArrow, sc_modifiers = [], sc_action = SA_MoveUp\<rparr>,
      \<lparr>sc_key = Key_DownArrow, sc_modifiers = [], sc_action = SA_MoveDown\<rparr>,
      \<lparr>sc_key = Key_Delete, sc_modifiers = [], sc_action = SA_Backspace\<rparr>,
      \<lparr>sc_key = Key_ForwardDelete, sc_modifiers = [], sc_action = SA_Backspace\<rparr>,
      \<lparr>sc_key = Key_P, sc_modifiers = [Mod_Control], sc_action = SA_MoveUp\<rparr>,
      \<lparr>sc_key = Key_N, sc_modifiers = [Mod_Control], sc_action = SA_MoveDown\<rparr>,
      \<lparr>sc_key = Key_U, sc_modifiers = [Mod_Control], sc_action = SA_Clear\<rparr>]"

definition shift_table :: "(char \<times> char) list" where
  "shift_table =
     [(CHR ''1'', CHR ''!''), (CHR ''2'', CHR ''@''), (CHR ''3'', CHR ''#''), (CHR ''4'', CHR ''$''),
      (CHR ''5'', CHR ''%''), (CHR ''6'', CHR ''^''), (CHR ''7'', CHR ''&''), (CHR ''8'', CHR ''*''),
      (CHR ''9'', CHR ''(''), (CHR ''0'', CHR '')''), (CHR ''-'', CHR ''_''), (CHR ''='', CHR ''+''),
      (CHR ''['', CHR ''{''), (CHR '']'', CHR ''}''), (CHR 0x5C, CHR ''|''), (CHR '';'', CHR '':''),
      (CHR 0x27, CHR 0x22), (CHR '','', CHR ''<''), (CHR ''.'', CHR ''>''), (CHR ''/'', CHR ''?''),
      (CHR 0x60, CHR ''~'')]"

definition is_ascii_lower_letter :: "char \<Rightarrow> bool" where
  "is_ascii_lower_letter c \<longleftrightarrow> 97 \<le> (of_char c :: nat) \<and> (of_char c :: nat) \<le> 122"

definition is_ascii_alphabetic :: "char \<Rightarrow> bool" where
  "is_ascii_alphabetic c \<longleftrightarrow>
     is_ascii_lower_letter c \<or> 65 \<le> (of_char c :: nat) \<and> (of_char c :: nat) \<le> 90"

definition ascii_upper_char :: "char \<Rightarrow> char" where
  "ascii_upper_char c = (if is_ascii_lower_letter c then char_of ((of_char c :: nat) - 32) else c)"

definition printable_char_for_key :: "key \<Rightarrow> bool \<Rightarrow> char option" where
  "printable_char_for_key k shift =
     (case key_to_spec k of
        [ch] \<Rightarrow>
          if shift
          then if is_ascii_alphabetic ch then Some (ascii_upper_char ch)
               else Some (case map_of shift_table ch of Some s \<Rightarrow> s | None \<Rightarrow> ch)
          else Some ch
      | _ \<Rightarrow> None)"

definition shortcut_matches :: "chord \<Rightarrow> selector_shortcut \<Rightarrow> bool" where
  "shortcut_matches c sc \<longleftrightarrow>
     sc_key sc = chord_key c \<and> length (sc_modifiers sc) = card (modifiers c) \<and>
     list_all (\<lambda>m. m \<in> modifiers c) (sc_modifiers sc)"

definition selector_action_for_chord :: "chord \<Rightarrow> selector_action" where
  "selector_action_for_chord c =
     (case find (shortcut_matches c) selector_shortcuts of
        Some sc \<Rightarrow> sc_action sc
      | None \<Rightarrow>
          if modifiers c = {} \<or> card (modifiers c) = 1 \<and> Mod_Shift \<in> modifiers c
          then (case printable_char_for_key (chord_key c) (Mod_Shift \<in> modifiers c) of
                  Some ch \<Rightarrow> SA_Append ch
                | None \<Rightarrow> SA_None)
          else SA_None)"

text \<open>The action on matcher, query and selection.\<close>

fun dispatch_selector_action ::
  "'m matcher_ops \<Rightarrow> selector_action \<Rightarrow> 'm selector_matcher \<Rightarrow> string \<Rightarrow> 32 word
   \<Rightarrow> selector_action_event \<times> 'm selector_matcher \<times> string \<times> 32 word" where
  "dispatch_selector_action mo SA_None m q sel = (SAE_None, m, q, sel)"
| "dispatch_selector_action mo SA_Cancel m q sel = (SAE_Cancel, m, q, sel)"
| "dispatch_selector_action mo SA_Select m q sel =
     ((if matched_count mo m = 0 then SAE_None else SAE_Select), m, q, sel)"
| "dispatch_selector_action mo SA_MoveUp m q sel =
     (if 0 < sel then (SAE_Update, m, q, sel - 1) else (SAE_None, m, q, sel))"
| "dispatch_selector_action mo SA_MoveDown m q sel =
     (if sel < sat_sub (matched_count mo m) 1 then (SAE_Update, m, q, sel + 1) else (SAE_None, m, q, sel))"
| "dispatch_selector_action mo SA_Backspace m q sel =
     (if q \<noteq> [] then (SAE_Update, update_pattern mo (butlast q) m, butlast q, 0) else (SAE_None, m, q, sel))"
| "dispatch_selector_action mo SA_Clear m q sel =
     (if q \<noteq> [] then (SAE_Update, update_pattern mo [] m, [], 0) else (SAE_None, m, q, sel))"
| "dispatch_selector_action mo (SA_Append ch) m q sel =
     (SAE_Update, update_pattern mo (q @ [ch]) m, q @ [ch], 0)"

subsection \<open>The selector state\<close>

record 'm selector_state =
  sel_config :: selector_config
  sel_matcher :: "'m selector_matcher"
  sel_query :: string
  sel_selected :: "32 word"
  sel_prev_hud_visible :: bool
  sel_window :: "focus_snapshot option"

record selector_selection =
  chosen_item :: selector_item
  chosen_query :: string

datatype selector_event = SE_Update | SE_Select selector_selection | SE_Cancel | SE_None

definition selector_new ::
  "'m matcher_ops \<Rightarrow> selector_config \<Rightarrow> selector_item list \<Rightarrow> bool \<Rightarrow> focus_snapshot option \<Rightarrow> 'm selector_state" where
  "selector_new mo config items prev_hud_visible window =
     \<lparr>sel_config = config, sel_matcher = update_pattern mo [] (matcher_new mo items), sel_query = [],
      sel_selected = 0, sel_prev_hud_visible = prev_hud_visible, sel_window = window\<rparr>"

definition selector_tick :: "'m matcher_ops \<Rightarrow> 'm selector_state \<Rightarrow> bool \<times> 'm selector_state" where
  "selector_tick mo s =
     (let (changed, n) = mo_tick mo (nucleo (sel_matcher s))
      in (changed, s\<lparr>sel_matcher := (sel_matcher s)\<lparr>nucleo := n\<rparr>\<rparr>))"

definition selected_item :: "'m matcher_ops \<Rightarrow> 'm selector_state \<Rightarrow> selector_item option \<times> 'm selector_state" where
  "selected_item mo s =
     (let cnt = matched_count mo (sel_matcher s) in
      if cnt = 0 then (None, s\<lparr>sel_selected := 0\<rparr>)
      else let sel = min (sel_selected s) (sat_sub cnt 1) in
           (map_option cand_item (mo_matched_item mo (nucleo (sel_matcher s)) sel), s\<lparr>sel_selected := sel\<rparr>))"

definition select_current :: "'m matcher_ops \<Rightarrow> 'm selector_state \<Rightarrow> selector_event \<times> 'm selector_state" where
  "select_current mo s =
     (let s1 = snd (selector_tick mo s);
          (item, s2) = selected_item mo s1
      in (case item of
            None \<Rightarrow> SE_None
          | Some item \<Rightarrow> SE_Select \<lparr>chosen_item = item, chosen_query = sel_query s2\<rparr>, s2))"

definition selector_handle_key_down ::
  "'m matcher_ops \<Rightarrow> chord \<Rightarrow> 'm selector_state \<Rightarrow> selector_event \<times> 'm selector_state" where
  "selector_handle_key_down mo c s =
     (let (ev, m, q, sel) = dispatch_selector_action mo (selector_action_for_chord c)
            (sel_matcher s) (sel_query s) (sel_selected s);
          s1 = s\<lparr>sel_matcher := m, sel_query := q, sel_selected := sel\<rparr>
      in case ev of
           SAE_Update \<Rightarrow> (SE_Update, s1)
         | SAE_Select \<Rightarrow> select_current mo s1
         | SAE_Cancel \<Rightarrow> (SE_Cancel, s1)
         | SAE_None \<Rightarrow> (SE_None, s1))"

text \<open>The range of matches shown around the selection.\<close>

definition to_u32 :: "64 word \<Rightarrow> 32 word" where
  "to_u32 x = (if x \<le> 0xFFFFFFFF then ucast x else 0xFFFFFFFF)"

definition visible_range :: "32 word \<Rightarrow> 32 word \<Rightarrow> 64 word \<Rightarrow> 32 word \<times> 32 word" where
  "visible_range cnt selected max_visible =
     (let max_visible_u32 = to_u32 (max max_visible 1) in
      if cnt \<le> max_visible_u32 then (0, cnt)
      else let half = max_visible_u32 div 2;
               start = sat_sub selected half;
               end' = sat_add start max_visible_u32
           in if cnt < end' then (sat_sub cnt max_visible_u32, cnt) else (start, end'))"

definition selector_snapshot_of ::
  "'m matcher_ops \<Rightarrow> 'm selector_state \<Rightarrow> selector_snapshot \<times> 'm selector_state" where
  "selector_snapshot_of mo s =
     (let cnt = matched_count mo (sel_matcher s) in
      if cnt = 0
      then (\<lparr>snap_title = sel_title (sel_config s), snap_placeholder = sel_placeholder (sel_config s),
             snap_query = sel_query s, snap_items = [], snap_selected = 0, snap_total_matches = unat cnt\<rparr>,
            s\<lparr>sel_selected := 0\<rparr>)
      else let sel = min (sel_selected s) (sat_sub cnt 1);
               (start, end') = visible_range cnt sel (sel_max_visible (sel_config s));
               items = map (\<lambda>(item, indices).
                         \<lparr>sis_label = item_label item, sis_sublabel = item_sublabel item,
                          sis_match_indices = indices\<rparr>)
                       (matched_window mo (sel_matcher s) start end')
           in (\<lparr>snap_title = sel_title (sel_config s), snap_placeholder = sel_placeholder (sel_config s),
                snap_query = sel_query s, snap_items = items, snap_selected = unat (sat_sub sel start),
                snap_total_matches = unat cnt\<rparr>,
               s\<lparr>sel_selected := sel\<rparr>))"

subsection \<open>Captured chords\<close>

definition printable_keys :: "key list" where
  "printable_keys =
     [Key_A, Key_B, Key_C, Key_D, Key_E, Key_F, Key_G, Key_H, Key_I, Key_J, Key_K, Key_L, Key_M, Key_N,
      Key_O, Key_P, Key_Q, Key_R, Key_S, Key_T, Key_U, Key_V, Key_W, Key_X, Key_Y, Key_Z, Key_Digit0,
      Key_Digit1, Key_Digit2, Key_Digit3, Key_Digit4, Key_Digit5, Key_Digit6, Key_Digit7, Key_Digit8,
      Key_Digit9, Key_Space, Key_Minus, Key_Equal, Key_LeftBracket, Key_RightBracket, Key_Backslash,
      Key_Semicolon, Key_Quote, Key_Comma, Key_Period, Key_Slash, Key_Grave]"

definition selector_capture_chords :: "chord list" where
  "selector_capture_chords =
     remdups_adj (sort_key chord_to_string
       (map (\<lambda>k. \<lparr>modifiers = {}, chord_key = k\<rparr>) printable_keys
        @ map (\<lambda>k. \<lparr>modifiers = {Mod_Shift}, chord_key = k\<rparr>) printable_keys
        @ map (\<lambda>sc. \<lparr>modifiers = set (sc_modifiers sc), chord_key = sc_key sc\<rparr>) selector_shortcuts))"

subsection \<open>The visible window\<close>

lemma unat_to_u32: "unat (to_u32 x) = min (unat x) (2 ^ 32 - 1)"
proof -
  have "x \<le> 0xFFFFFFFF \<longleftrightarrow> unat x \<le> 2 ^ 32 - 1"
    by (simp add: word_le_nat_alt)
  moreover have "unat (ucast x :: 32 word) = unat x" if "unat x \<le> 2 ^ 32 - 1"
    using that by (simp add: unsigned_ucast_eq take_bit_nat_eq_self_iff)
  ultimately show ?thesis
    by (auto simp: to_u32_def)
qed

lemma unat_div_2: "unat (w div 2) = unat w div 2" for w :: "32 word"
  by (simp add: unat_div)

lemma visible_range_spec:
  assumes "selected < cnt" and "visible_range cnt selected mv = (start, end')"
  shows "unat start \<le> unat selected \<and> unat selected < unat end' \<and> unat end' \<le> unat cnt \<and>
    unat end' - unat start \<le> max 1 (unat mv) \<and>
    (cnt \<noteq> - 1 \<longrightarrow> unat end' - unat start = min (unat cnt) (max 1 (unat mv)))"
proof -
  define w where "w = to_u32 (max mv 1)"
  have sel: "unat selected < unat cnt" using assms(1) by (simp add: word_less_nat_alt)
  have cnt: "unat cnt \<le> 2 ^ 32 - 1" using unsigned_less[where 'a = nat, of cnt] by simp
  have w: "unat w = min (max 1 (unat mv)) (2 ^ 32 - 1)"
    by (simp add: w_def unat_to_u32 max_def word_le_nat_alt)
  have w1: "1 \<le> unat w" using w by simp
  show ?thesis
  proof (cases "cnt \<le> w")
    case True
    then show ?thesis
      using assms(2) sel cnt w w_def by (auto simp: visible_range_def Let_def word_le_nat_alt)
  next
    case False
    define st where "st = sat_sub selected (w div 2)"
    have st: "unat st = unat selected - unat w div 2"
      by (simp add: st_def unat_sat_sub unat_div_2)
    have less: "unat w < unat cnt" using False by (simp add: word_le_nat_alt)
    have en: "unat (sat_add st w) = min (unat st + unat w) (2 ^ 32 - 1)"
      by (simp add: unat_sat_add)
    have small: "unat mv \<le> unat w" "min (unat cnt) (max 1 (unat mv)) = unat w"
      using w less cnt by auto
    have range: "visible_range cnt selected mv =
      (if cnt < sat_add st w then (sat_sub cnt w, cnt) else (st, sat_add st w))"
      using False by (simp add: visible_range_def Let_def w_def st_def)
    show ?thesis
    proof (cases "cnt < sat_add st w")
      case True
      then have "unat cnt < min (unat st + unat w) (2 ^ 32 - 1)"
        using en by (simp add: word_less_nat_alt)
      then show ?thesis
        using True range assms(2) sel less small st w1 unat_sat_sub[of cnt w] by auto
    next
      case False
      then have "unat (sat_add st w) \<le> unat cnt"
        by (simp add: word_less_nat_alt)
      then have "min (unat st + unat w) (2 ^ 32 - 1) \<le> unat cnt"
        unfolding en .
      then have e: "unat (sat_add st w) = unat st + unat w \<or> unat cnt = 2 ^ 32 - 1 \<and> unat (sat_add st w) = 2 ^ 32 - 1"
        using en cnt by linarith
      have m1: "unat (- 1 :: 32 word) = 2 ^ 32 - 1"
        by (simp add: unsigned_minus_1_eq_mask mask_eq_exp_minus_1)
      have max: "unat cnt \<noteq> 2 ^ 32 - 1" if "cnt \<noteq> - 1"
        using that m1 by (metis word_unat_eq_iff)
      have se: "start = st" "end' = sat_add st w"
        using False range assms(2) by auto
      have "unat selected < unat st + unat w" using st w1 by linarith
      then show ?thesis
        using e
      proof (elim disjE conjE)
        assume full: "unat (sat_add st w) = unat st + unat w"
        have "unat st + unat w \<le> unat cnt" using full \<open>unat (sat_add st w) \<le> unat cnt\<close> by linarith
        moreover have "unat w \<le> max 1 (unat mv)" using w by linarith
        ultimately show ?thesis
          unfolding se small(2) using \<open>unat selected < unat st + unat w\<close> st full by auto
      next
        assume cap: "unat cnt = 2 ^ 32 - 1" "unat (sat_add st w) = 2 ^ 32 - 1"
        have "unat (sat_add st w) - unat st \<le> unat w" using en by linarith
        moreover have "unat w \<le> max 1 (unat mv)" using w by linarith
        moreover have "cnt = - 1" using cap(1) max by blast
        ultimately show ?thesis unfolding se small(2) using cap sel st by auto
      qed
    qed
  qed
qed

subsection \<open>Captured chords\<close>

lemma printable_iff: "length (key_to_spec k) = 1 \<longleftrightarrow> k \<in> set printable_keys"
  by (cases k) (simp_all add: key_to_spec_def to_spec_match_def key_spec_map_def printable_keys_def)

lemma printable_char_iff: "printable_char_for_key k shift \<noteq> None \<longleftrightarrow> k \<in> set printable_keys"
  unfolding printable_iff[symmetric] printable_char_for_key_def by (auto split: list.split)

lemma shortcut_modifiers: "sc \<in> set selector_shortcuts \<Longrightarrow> sc_modifiers sc = [] \<or> (\<exists>m. sc_modifiers sc = [m])"
  by (auto simp: selector_shortcuts_def)

lemma shortcut_matches_iff:
  assumes "sc \<in> set selector_shortcuts"
  shows "shortcut_matches c sc \<longleftrightarrow> c = \<lparr>modifiers = set (sc_modifiers sc), chord_key = sc_key sc\<rparr>"
proof -
  have one: "Suc 0 = card ms \<longleftrightarrow> (\<exists>x. ms = {x})" for ms :: "modifier set"
    using card_1_singleton_iff[of ms] by (simp add: eq_commute)
  have "finite (modifiers c)" by simp
  then show ?thesis
    using shortcut_modifiers[OF assms] by (cases c) (auto simp: shortcut_matches_def one)
qed

lemma shortcut_actions: "sc \<in> set selector_shortcuts \<Longrightarrow> sc_action sc \<noteq> SA_None"
  by (auto simp: selector_shortcuts_def)

lemma capture_set:
  "c \<in> set selector_capture_chords \<longleftrightarrow>
     (\<exists>sc \<in> set selector_shortcuts. shortcut_matches c sc) \<or>
     (modifiers c = {} \<or> modifiers c = {Mod_Shift}) \<and> chord_key c \<in> set printable_keys"
  by (cases c) (auto simp: selector_capture_chords_def shortcut_matches_iff)

lemma find_SomeD: "find P xs = Some x \<Longrightarrow> x \<in> set xs \<and> P x"
  by (induction xs) (auto split: if_splits)

lemma capture_distinct: "distinct selector_capture_chords"
  unfolding selector_capture_chords_def
  by (rule distinct_remdups_adj_sort_key) (simp add: inj_def chord_to_string_inject)

subsection \<open>Properties\<close>

text \<open>
  the window shown is within the matches, holds the selected one, and is as
  large as the number of matches and the configured maximum (at least one) allow,
  whatever the 32-bit arithmetic saturates.
\<close>

theorem selector_window_bounds:
  assumes "selected < cnt" and "visible_range cnt selected mv = (start, end')"
  shows "unat start \<le> unat selected \<and> unat selected < unat end' \<and> unat end' \<le> unat cnt \<and>
    unat end' - unat start \<le> max 1 (unat mv) \<and>
    (cnt \<noteq> - 1 \<longrightarrow> unat end' - unat start = min (unat cnt) (max 1 (unat mv)))"
  using assms by (rule visible_range_spec)

theorem selector_window_bounds_witness:
  "visible_range 100 99 10 = (90, 100) \<and> unat (100 :: 32 word) - unat (90 :: 32 word) = 10"
proof -
  have r: "visible_range 100 99 10 = (90, 100)"
    by (simp add: visible_range_def to_u32_def Let_def sat_sub_def sat_add_def)
  show ?thesis using r selector_window_bounds[OF _ r] by simp
qed

text \<open>
  while a selector is open exactly the chords it acts on are captured, each once.
\<close>

theorem selector_captures_its_actions:
  "(c \<in> set selector_capture_chords \<longleftrightarrow> selector_action_for_chord c \<noteq> SA_None) \<and>
   distinct selector_capture_chords"
proof -
  have shift: "card (modifiers c) = 1 \<and> Mod_Shift \<in> modifiers c \<longleftrightarrow> modifiers c = {Mod_Shift}"
    by (auto simp: card_1_singleton_iff)
  note printable = printable_char_iff[of "chord_key c" "Mod_Shift \<in> modifiers c"]
  have "selector_action_for_chord c \<noteq> SA_None" if "find (shortcut_matches c) selector_shortcuts = Some sc" for sc
    using shortcut_actions[of sc] find_SomeD[OF that] that by (simp add: selector_action_for_chord_def)
  moreover have "selector_action_for_chord c \<noteq> SA_None \<longleftrightarrow>
      (modifiers c = {} \<or> modifiers c = {Mod_Shift}) \<and> chord_key c \<in> set printable_keys"
    if "find (shortcut_matches c) selector_shortcuts = None"
    using that printable unfolding selector_action_for_chord_def shift
    by (cases "printable_char_for_key (chord_key c) (Mod_Shift \<in> modifiers c)") simp_all
  moreover have "(\<exists>sc \<in> set selector_shortcuts. shortcut_matches c sc) \<longleftrightarrow>
      find (shortcut_matches c) selector_shortcuts \<noteq> None"
    unfolding find_None_iff by blast
  ultimately show ?thesis
    unfolding capture_set using capture_distinct
    by (cases "find (shortcut_matches c) selector_shortcuts") (simp_all (no_asm_simp))
qed

definition selector_synced :: "'m selector_state \<Rightarrow> bool" where
  "selector_synced s \<longleftrightarrow> last_query (sel_matcher s) = sel_query s"

fun selector_keys :: "'m matcher_ops \<Rightarrow> chord list \<Rightarrow> 'm selector_state \<Rightarrow> 'm selector_state" where
  "selector_keys mo [] s = s"
| "selector_keys mo (c # cs) s =
     selector_keys mo cs (snd (selector_snapshot_of mo (snd (selector_handle_key_down mo c s))))"

lemma update_pattern_query [simp]: "last_query (update_pattern mo q m) = q"
  by (simp add: update_pattern_def)

lemma dispatch_synced:
  "dispatch_selector_action mo a m q sel = (ev, m', q', sel') \<Longrightarrow> last_query m = q \<Longrightarrow> last_query m' = q'"
  by (cases a) (auto split: if_splits)

lemma selected_item_frame:
  "sel_query (snd (selected_item mo s)) = sel_query s" "sel_matcher (snd (selected_item mo s)) = sel_matcher s"
  by (simp_all add: selected_item_def Let_def)

lemma selector_tick_frame:
  "sel_query (snd (selector_tick mo s)) = sel_query s"
  "last_query (sel_matcher (snd (selector_tick mo s))) = last_query (sel_matcher s)"
  by (simp_all add: selector_tick_def split: prod.split)

lemma select_current_synced: "selector_synced s \<Longrightarrow> selector_synced (snd (select_current mo s))"
  by (simp add: selector_synced_def select_current_def case_prod_beta Let_def selected_item_frame selector_tick_frame)

lemma handle_key_down_synced:
  "selector_synced s \<Longrightarrow> selector_synced (snd (selector_handle_key_down mo c s))"
proof -
  assume sync: "selector_synced s"
  obtain ev m q sel where d: "dispatch_selector_action mo (selector_action_for_chord c)
      (sel_matcher s) (sel_query s) (sel_selected s) = (ev, m, q, sel)"
    by (metis prod_cases4)
  have "selector_synced (s\<lparr>sel_matcher := m, sel_query := q, sel_selected := sel\<rparr>)"
    using dispatch_synced[OF d] sync by (simp add: selector_synced_def)
  then show ?thesis
    using d select_current_synced by (cases ev) (simp_all add: selector_handle_key_down_def Let_def)
qed

lemma snapshot_synced: "selector_synced s \<Longrightarrow> selector_synced (snd (selector_snapshot_of mo s))"
  by (simp add: selector_synced_def selector_snapshot_of_def Let_def case_prod_beta)

lemma selector_new_synced: "selector_synced (selector_new mo config items hud w)"
  by (simp add: selector_synced_def selector_new_def)

lemma selector_keys_synced: "selector_synced s \<Longrightarrow> selector_synced (selector_keys mo cs s)"
  by (induction cs arbitrary: s) (simp_all add: snapshot_synced handle_key_down_synced)

lemma snapshot_selected:
  assumes "matched_count mo (sel_matcher s) \<noteq> 0"
  shows "sel_selected (snd (selector_snapshot_of mo s)) < matched_count mo (sel_matcher s)"
proof -
  have "unat (matched_count mo (sel_matcher s)) \<noteq> 0"
    using assms by (simp add: unat_eq_0)
  then have "unat (min (sel_selected s) (sat_sub (matched_count mo (sel_matcher s)) 1)) < unat (matched_count mo (sel_matcher s))"
    by (auto simp: min_def word_le_nat_alt unat_sat_sub)
  then show ?thesis
    using assms by (simp add: selector_snapshot_of_def Let_def case_prod_beta word_less_nat_alt)
qed

text \<open>
  whatever keys are pressed, the pattern the matcher was last given is the query
  shown, and reading the snapshot keeps the selection below the number of matches.
\<close>
theorem selector_query_synced:
  "last_query (sel_matcher (selector_keys mo cs (selector_new mo config items hud w))) =
     sel_query (selector_keys mo cs (selector_new mo config items hud w)) \<and>
   (matched_count mo (sel_matcher s) \<noteq> 0 \<longrightarrow>
     sel_selected (snd (selector_snapshot_of mo s)) < matched_count mo (sel_matcher s) \<and>
     snap_query (fst (selector_snapshot_of mo s)) = sel_query s)"
proof -
  have "selector_synced (selector_keys mo cs (selector_new mo config items hud w))"
    by (intro selector_keys_synced selector_new_synced)
  then show ?thesis
    using snapshot_selected[of mo s]
    by (simp add: selector_synced_def) (simp add: selector_snapshot_of_def Let_def case_prod_beta)
qed

text \<open>A matcher that matches everything.\<close>

definition sample_matcher :: "selector_item list matcher_ops" where
  "sample_matcher =
     \<lparr>mo_new = map cand_item, mo_reparse = (\<lambda>_ _ m. m), mo_tick = (\<lambda>m. (True, m)),
      mo_matched_count = (\<lambda>m. of_nat (length m)),
      mo_matched_item = (\<lambda>m i. if unat i < length m then Some \<lparr>cand_id = ucast i + 1, cand_item = m ! unat i\<rparr> else None),
      mo_window = (\<lambda>m a b. map (\<lambda>x. (x, [])) (take (unat b - unat a) (drop (unat a) m)))\<rparr>"

definition sample_selector_config :: selector_config where
  "sample_selector_config =
     \<lparr>sel_title = ''Select'', sel_placeholder = [], sel_items = Static [], sel_on_select = \<lparr>handler_func = 0\<rparr>,
      sel_on_cancel = None, sel_max_visible = 10\<rparr>"

definition sample_item :: selector_item where
  "sample_item = \<lparr>item_label = ''x'', item_sublabel = None, item_data = None\<rparr>"

theorem selector_query_synced_witness:
  "sel_selected (snd (selector_snapshot_of sample_matcher
     (selector_new sample_matcher sample_selector_config [sample_item] True None))) < 1"
proof -
  let ?s = "selector_new sample_matcher sample_selector_config [sample_item] True None"
  have one: "matched_count sample_matcher (sel_matcher ?s) = 1"
    by (simp add: sample_matcher_def selector_new_def matcher_new_def update_pattern_def matched_count_def
        candidates_def Let_def)
  show ?thesis
    using selector_query_synced[of sample_matcher "[]" sample_selector_config "[]" True None ?s] one by simp
qed

end
