(* ===== verification/Runtime_State.thy ===== *)
theory Runtime_State
  imports Mode_Stack Selector
begin

text \<open>
  The engine's runtime state (\<open>hotki-engine/src/runtime.rs\<close>): HUD visibility, mode
  stack, context focus, the window retained for a mode session, the last rendered
  state and the open selector.
\<close>

record mode_session =
  session_window :: "focus_snapshot option"

record 'm runtime_state =
  rt_hud_visible :: bool
  rt_stack :: mode_stack
  rt_focus :: "focus_snapshot option"
  rt_session :: "mode_session option"
  rt_rendered :: rendered_state
  rt_selector :: "'m selector_state option"

record runtime_checkpoint =
  cp_hud_visible :: bool
  cp_stack :: mode_stack
  cp_focus :: "focus_snapshot option"
  cp_session :: "mode_session option"
  cp_rendered :: rendered_state

definition empty_rendered :: "ui_style \<Rightarrow> rendered_state" where
  "empty_rendered style = \<lparr>rs_bindings = [], rs_hud_rows = [], rs_style = style, rs_capture = False\<rparr>"

definition runtime_empty :: "'m runtime_state" where
  "runtime_empty =
     \<lparr>rt_hud_visible = False, rt_stack = [], rt_focus = None, rt_session = None,
      rt_rendered = empty_rendered ui_style_default, rt_selector = None\<rparr>"

definition checkpoint :: "'m runtime_state \<Rightarrow> runtime_checkpoint" where
  "checkpoint rt =
     \<lparr>cp_hud_visible = rt_hud_visible rt, cp_stack = rt_stack rt, cp_focus = rt_focus rt,
      cp_session = rt_session rt, cp_rendered = rt_rendered rt\<rparr>"

definition restore :: "runtime_checkpoint \<Rightarrow> 'm runtime_state \<Rightarrow> 'm runtime_state" where
  "restore cp rt =
     rt\<lparr>rt_hud_visible := cp_hud_visible cp, rt_stack := cp_stack cp, rt_focus := cp_focus cp,
        rt_session := cp_session cp, rt_rendered := cp_rendered cp\<rparr>"

definition rt_install_config :: "'v config \<Rightarrow> 'm runtime_state \<Rightarrow> 'm runtime_state" where
  "rt_install_config cfg rt =
     rt\<lparr>rt_selector := None, rt_stack := reset_stack cfg, rt_rendered := empty_rendered (cfg_base_style cfg)\<rparr>"

definition clear_config_state :: "ui_style \<Rightarrow> 'm runtime_state \<Rightarrow> 'm runtime_state" where
  "clear_config_state style rt =
     rt\<lparr>rt_hud_visible := False, rt_session := None, rt_selector := None, rt_stack := [],
        rt_rendered := empty_rendered style\<rparr>"

definition rt_depth :: "'m runtime_state \<Rightarrow> nat" where
  "rt_depth rt = stack_depth (rt_stack rt)"

definition start_session :: "focus_snapshot option \<Rightarrow> 'm runtime_state \<Rightarrow> 'm runtime_state" where
  "start_session window rt =
     (case rt_session rt of
        None \<Rightarrow> rt\<lparr>rt_session := Some \<lparr>session_window = window\<rparr>\<rparr>
      | Some _ \<Rightarrow> rt)"

definition end_session :: "'m runtime_state \<Rightarrow> 'm runtime_state" where
  "end_session rt = rt\<lparr>rt_session := None\<rparr>"

definition push_mode ::
  "string \<Rightarrow> mode_ref \<Rightarrow> (chord \<times> 64 word) option \<Rightarrow> bool \<Rightarrow> focus_snapshot option
   \<Rightarrow> 'm runtime_state \<Rightarrow> 'm runtime_state" where
  "push_mode title closure entered_via capture opening_window rt =
     (let rt1 = start_session opening_window rt
      in rt1\<lparr>rt_hud_visible := True, rt_stack := stack_push title closure entered_via capture (rt_stack rt1)\<rparr>)"

definition context_window :: "focus_snapshot option \<Rightarrow> 'm runtime_state \<Rightarrow> focus_snapshot option" where
  "context_window live rt = (case rt_session rt of None \<Rightarrow> live | Some s \<Rightarrow> session_window s)"

definition mode_ctx_of :: "focus_snapshot option \<Rightarrow> bool \<Rightarrow> nat \<Rightarrow> mode_ctx" where
  "mode_ctx_of window hud depth = \<lparr>ctx_window = window, ctx_hud = hud, ctx_depth = int depth\<rparr>"

definition rt_mode_ctx :: "focus_snapshot option \<Rightarrow> 'm runtime_state \<Rightarrow> mode_ctx" where
  "rt_mode_ctx live rt = mode_ctx_of (context_window live rt) (rt_hud_visible rt) (rt_depth rt)"

lemma restore_checkpoint [simp]: "rt_selector rt' = rt_selector rt \<Longrightarrow> restore (checkpoint rt) rt' = rt"
  by (cases rt; cases rt') (simp add: restore_def checkpoint_def)

lemma context_window_session [simp]:
  "rt_session rt = Some s \<Longrightarrow> context_window live rt = session_window s"
  "rt_session rt = None \<Longrightarrow> context_window live rt = live"
  by (simp_all add: context_window_def)

text \<open>A session keeps the window it was opened with, whatever is pushed or focused later.\<close>

lemma start_session_keeps [simp]: "rt_session rt = Some s \<Longrightarrow> start_session w rt = rt"
  by (simp add: start_session_def)

lemma start_session_simps [simp]:
  "rt_stack (start_session w rt) = rt_stack rt" "rt_hud_visible (start_session w rt) = rt_hud_visible rt"
  "rt_rendered (start_session w rt) = rt_rendered rt" "rt_selector (start_session w rt) = rt_selector rt"
  "rt_focus (start_session w rt) = rt_focus rt" "rt_session (start_session w rt) \<noteq> None"
  by (simp_all add: start_session_def split: option.split)

lemma push_mode_simps [simp]:
  "rt_hud_visible (push_mode t c v cap w rt)" "rt_session (push_mode t c v cap w rt) \<noteq> None"
  "rt_stack (push_mode t c v cap w rt) = stack_push t c v cap (rt_stack rt)"
  "rt_selector (push_mode t c v cap w rt) = rt_selector rt"
  by (simp_all add: push_mode_def Let_def)

end
