(* ===== verification/Key_State.thy ===== *)
theory Key_State
  imports Keycode Hotki_Maps
begin

text \<open>
  The engine's key-state tracker (\<open>hotki-engine/src/key_state.rs\<close>): what is
  retained of each held key from its key-down to its key-up.  The map is never
  iterated, so it is a partial function.
\<close>

record key_state =
  ks_chord :: chord
  ks_repeat_allowed :: bool
  ks_press_notified :: bool

record released_key_state =
  released_chord :: chord
  released_press_notified :: bool

type_synonym key_states = "string \<Rightarrow> key_state option"

definition ks_is_down :: "string \<Rightarrow> key_states \<Rightarrow> bool" where
  "ks_is_down ident states \<longleftrightarrow> states ident \<noteq> None"

definition ks_on_key_down :: "string \<Rightarrow> chord \<Rightarrow> key_states \<Rightarrow> bool \<times> key_states" where
  "ks_on_key_down ident c states =
     (case states ident of
        None \<Rightarrow> (True, states(ident \<mapsto>
          \<lparr>ks_chord = c, ks_repeat_allowed = False, ks_press_notified = False\<rparr>))
      | Some _ \<Rightarrow> (False, states))"

definition ks_on_key_up :: "string \<Rightarrow> key_states \<Rightarrow> released_key_state option \<times> key_states" where
  "ks_on_key_up ident states =
     (map_option (\<lambda>st. \<lparr>released_chord = ks_chord st,
                        released_press_notified = ks_press_notified st\<rparr>) (states ident),
      states(ident := None))"

definition ks_held_chord :: "string \<Rightarrow> key_states \<Rightarrow> chord option" where
  "ks_held_chord ident states = map_option ks_chord (states ident)"

definition ks_mark_press_notified :: "string \<Rightarrow> key_states \<Rightarrow> key_states" where
  "ks_mark_press_notified ident states =
     (case states ident of
        None \<Rightarrow> states
      | Some st \<Rightarrow> states(ident \<mapsto> st\<lparr>ks_press_notified := True\<rparr>))"

definition ks_set_repeat_allowed :: "string \<Rightarrow> bool \<Rightarrow> key_states \<Rightarrow> key_states" where
  "ks_set_repeat_allowed ident allowed states =
     (case states ident of
        None \<Rightarrow> states
      | Some st \<Rightarrow> states(ident \<mapsto> st\<lparr>ks_repeat_allowed := allowed\<rparr>))"

definition ks_is_repeat_allowed :: "string \<Rightarrow> key_states \<Rightarrow> bool" where
  "ks_is_repeat_allowed ident states =
     (case states ident of None \<Rightarrow> False | Some st \<Rightarrow> ks_repeat_allowed st)"

subsection \<open>Gestures\<close>

text \<open>The calls the engine makes on the tracker.\<close>

datatype key_op =
    Op_Down string chord
  | Op_Up string
  | Op_Notified string
  | Op_Repeat string bool

fun key_op_ident :: "key_op \<Rightarrow> string" where
  "key_op_ident (Op_Down i c) = i"
| "key_op_ident (Op_Up i) = i"
| "key_op_ident (Op_Notified i) = i"
| "key_op_ident (Op_Repeat i b) = i"

fun key_op_step :: "key_op \<Rightarrow> key_states \<Rightarrow> key_states" where
  "key_op_step (Op_Down i c) st = snd (ks_on_key_down i c st)"
| "key_op_step (Op_Up i) st = snd (ks_on_key_up i st)"
| "key_op_step (Op_Notified i) st = ks_mark_press_notified i st"
| "key_op_step (Op_Repeat i b) st = ks_set_repeat_allowed i b st"

lemma key_op_step_other [op_simps]: "key_op_ident opn \<noteq> i \<Longrightarrow> key_op_step opn st i = st i"
  by (cases opn) (auto simp: ks_on_key_down_def ks_on_key_up_def ks_mark_press_notified_def
      ks_set_repeat_allowed_def split: option.splits)

lemma key_op_step_held:
  assumes "st i = Some ks" and "opn \<noteq> Op_Up i"
  shows "\<exists>ks'. key_op_step opn st i = Some ks' \<and> ks_chord ks' = ks_chord ks
    \<and> (ks_press_notified ks' \<longleftrightarrow> ks_press_notified ks \<or> opn = Op_Notified i)
    \<and> ks_repeat_allowed ks' = (case opn of
         Op_Repeat j b \<Rightarrow> if j = i then b else ks_repeat_allowed ks | _ \<Rightarrow> ks_repeat_allowed ks)"
  using assms by (cases opn) (auto simp: ks_on_key_down_def ks_on_key_up_def ks_mark_press_notified_def
      ks_set_repeat_allowed_def split: option.splits)

lemma key_ops_held:
  assumes "st i = Some ks" and "Op_Up i \<notin> set ops"
  shows "\<exists>ks'. fold key_op_step ops st i = Some ks' \<and> ks_chord ks' = ks_chord ks
    \<and> (ks_press_notified ks' \<longleftrightarrow> ks_press_notified ks \<or> Op_Notified i \<in> set ops)"
  using assms
proof (induction ops arbitrary: st ks)
  case (Cons opn ops)
  obtain ks1 where ks1: "key_op_step opn st i = Some ks1" "ks_chord ks1 = ks_chord ks"
      "ks_press_notified ks1 \<longleftrightarrow> ks_press_notified ks \<or> opn = Op_Notified i"
    using key_op_step_held [where st = st and i = i and opn = opn, OF Cons.prems(1)] Cons.prems(2) by auto
  from Cons.IH [where st = "key_op_step opn st", OF ks1(1)] Cons.prems(2) ks1(2, 3) show ?case by auto
qed simp

subsection \<open>Properties\<close>

text \<open>
  from a fresh key-down on, whatever other calls are made, the key-up returns
  the chord of that first key-down and reports the HUD press exactly when one was
  recorded meanwhile; a duplicate key-down changes nothing.
\<close>

theorem key_gesture_retained:
  assumes "st i = None" and "Op_Up i \<notin> set ops"
  shows "let st' = fold key_op_step ops (snd (ks_on_key_down i c st)) in
      fst (ks_on_key_up i st') = Some \<lparr>released_chord = c,
        released_press_notified = (Op_Notified i \<in> set ops)\<rparr>
      \<and> \<not> ks_is_down i (snd (ks_on_key_up i st'))
      \<and> ks_on_key_down i d st' = (False, st')"
proof -
  have "snd (ks_on_key_down i c st) i =
      Some \<lparr>ks_chord = c, ks_repeat_allowed = False, ks_press_notified = False\<rparr>"
    using assms(1) by (simp add: ks_on_key_down_def)
  from key_ops_held [where st = "snd (ks_on_key_down i c st)" and i = i, OF this assms(2)] show ?thesis
    by (auto simp: Let_def ks_on_key_up_def ks_is_down_def ks_on_key_down_def)
qed

lemma key_gesture_retained_witness:
  "fst (ks_on_key_up ''a'' (ks_mark_press_notified ''a''
      (snd (ks_on_key_down ''a'' \<lparr>modifiers = {}, chord_key = Key_A\<rparr> Map.empty))))
   = Some \<lparr>released_chord = \<lparr>modifiers = {}, chord_key = Key_A\<rparr>, released_press_notified = True\<rparr>"
  using key_gesture_retained [of Map.empty "''a''" "[Op_Notified ''a'']"]
  by (simp add: Let_def)

end
