(* ===== verification/Hotkey_Manager.thy ===== *)
theory Hotkey_Manager
  imports Keycode Hotki_Maps
begin

text \<open>
  Crate \<open>mac-hotkey\<close>: the registration table and its guards (\<open>lib.rs\<close>), the tap
  policy (\<open>policy.rs\<close>), the classification of tap events with the retained press
  records and the tap callback (\<open>sys.rs\<close>), and the input-health store
  (\<open>status.rs\<close>).  \<open>Arc<ArcSwap<Inner>>\<close> under \<open>write_lock\<close> is the value \<open>inner\<close>: each
  operation loads, changes and stores it atomically.  The iteration order of the
  registration map is the parameter \<open>ord\<close>, any function that permutes the
  entries.  \<open>usize\<close> is 64 bits.  CoreGraphics fields are read as 64-bit words.
\<close>

subsection \<open>Registrations\<close>

datatype event_kind = KeyDown | KeyUp

record tap_event =
  event_id :: "32 word"
  event_hotkey :: chord
  event_kind :: event_kind
  event_repeat :: bool

record registration =
  reg_hotkey :: chord
  reg_intercept :: bool
  reg_mods :: "8 word"

record inner =
  next_id :: "32 word"
  regs :: "(32 word \<times> registration) list"
  suspend :: "64 word"
  capture_all :: "64 word"

datatype hotkey_error = OsError string | EventTapStart | PermissionDenied string | InvalidId

definition inner_default :: inner where
  "inner_default = \<lparr>next_id = 0, regs = [], suspend = 0, capture_all = 0\<rparr>"

definition normalize_mods :: "modifier set \<Rightarrow> 8 word" where
  "normalize_mods m =
     (let o0 = 0;
          o1 = (if Mod_Shift \<in> m \<or> Mod_RightShift \<in> m then o0 OR 1 else o0);
          o2 = (if Mod_Control \<in> m \<or> Mod_RightControl \<in> m then o1 OR 2 else o1);
          o3 = (if Mod_Option \<in> m \<or> Mod_RightOption \<in> m then o2 OR 4 else o2)
      in if Mod_Command \<in> m \<or> Mod_RightCommand \<in> m then o3 OR 8 else o3)"

text \<open>
  The id loop of \<open>Inner::register\<close>: the increment wraps, zero and used ids are
  skipped.  \<open>None\<close> is a loop that never ends.
\<close>

partial_function (option) alloc_id :: "(32 word \<Rightarrow> bool) \<Rightarrow> 32 word \<Rightarrow> 32 word option" where
  "alloc_id used n =
     (let n' = n + 1 in
      if n' = 0 then alloc_id used n'
      else if \<not> used n' then Some n'
      else alloc_id used n')"

definition inner_register :: "inner \<Rightarrow> chord \<Rightarrow> bool \<Rightarrow> (32 word \<times> inner) option" where
  "inner_register inn hotkey intercept =
     (case alloc_id (\<lambda>i. i \<in> fst ` set (regs inn)) (next_id inn) of
        None \<Rightarrow> None
      | Some i \<Rightarrow>
          Some (i, inn\<lparr>next_id := i,
             regs := AList.update i
               \<lparr>reg_hotkey = hotkey, reg_intercept = intercept,
                reg_mods = normalize_mods (modifiers hotkey)\<rparr> (regs inn)\<rparr>))"

definition inner_unregister :: "inner \<Rightarrow> 32 word \<Rightarrow> bool \<times> inner" where
  "inner_unregister inn i =
     (map_of (regs inn) i \<noteq> None, inn\<lparr>regs := AList.delete i (regs inn)\<rparr>)"

definition inner_unregister_all :: "inner \<Rightarrow> nat \<times> inner" where
  "inner_unregister_all inn = (length (regs inn), inn\<lparr>regs := []\<rparr>)"

subsection \<open>The manager's operations\<close>

definition manager_watch :: "inner \<Rightarrow> chord \<Rightarrow> (32 word \<times> inner) option" where
  "manager_watch inn hotkey = inner_register inn hotkey False"

definition manager_intercept :: "inner \<Rightarrow> chord \<Rightarrow> (32 word \<times> inner) option" where
  "manager_intercept inn hotkey = inner_register inn hotkey True"

definition manager_unregister :: "inner \<Rightarrow> 32 word \<Rightarrow> (hotkey_error + unit) \<times> inner" where
  "manager_unregister inn i =
     (let (removed, inn') = inner_unregister inn i in
      if removed then (Ok (), inn') else (Err InvalidId, inn))"

definition manager_unregister_all :: "inner \<Rightarrow> nat \<times> inner" where
  "manager_unregister_all inn =
     (let (n, inn') = inner_unregister_all inn in (n, if 0 < n then inn' else inn))"

definition manager_suspend :: "inner \<Rightarrow> inner" where
  "manager_suspend inn = inn\<lparr>suspend := sat_add (suspend inn) 1\<rparr>"

definition suspend_guard_drop :: "inner \<Rightarrow> inner" where
  "suspend_guard_drop inn =
     (if 0 < suspend inn then inn\<lparr>suspend := suspend inn - 1\<rparr> else inn)"

definition manager_capture_all :: "inner \<Rightarrow> inner" where
  "manager_capture_all inn = inn\<lparr>capture_all := sat_add (capture_all inn) 1\<rparr>"

definition capture_guard_drop :: "inner \<Rightarrow> inner" where
  "capture_guard_drop inn =
     (if 0 < capture_all inn then inn\<lparr>capture_all := capture_all inn - 1\<rparr> else inn)"

subsection \<open>Matching\<close>

definition reg_matches :: "key \<Rightarrow> 8 word \<Rightarrow> registration \<Rightarrow> bool" where
  "reg_matches code target reg \<longleftrightarrow> chord_key (reg_hotkey reg) = code \<and> reg_mods reg = target"

definition match_step ::
  "key \<Rightarrow> 8 word \<Rightarrow> 32 word \<times> registration \<Rightarrow> (32 word \<times> registration) option
   \<Rightarrow> (32 word \<times> registration) option" where
  "match_step code target entry best =
     (if reg_matches code target (snd entry)
      then (case best of
              None \<Rightarrow> Some entry
            | Some (_, breg) \<Rightarrow>
                if \<not> reg_intercept breg \<and> reg_intercept (snd entry) then Some entry else best)
      else best)"

definition match_event ::
  "((32 word \<times> registration) list \<Rightarrow> (32 word \<times> registration) list)
   \<Rightarrow> inner \<Rightarrow> key \<Rightarrow> modifier set \<Rightarrow> (32 word \<times> registration) option" where
  "match_event ord inn code mods =
     fold (match_step code (normalize_mods mods)) (ord (regs inn)) None"

subsection \<open>Policy and press records\<close>

record decision =
  emit :: bool
  decide_intercept :: bool

definition classify :: "bool \<Rightarrow> bool option \<Rightarrow> decision" where
  "classify suspended matched_intercept =
     (if suspended then \<lparr>emit = False, decide_intercept = False\<rparr>
      else (case matched_intercept of
              None \<Rightarrow> \<lparr>emit = False, decide_intercept = False\<rparr>
            | Some i \<Rightarrow> \<lparr>emit = True, decide_intercept = i\<rparr>))"

record logical_press =
  press_id :: "32 word"
  press_hotkey :: chord

record press_record =
  logical :: "logical_press option"
  press_intercept :: bool

record tap_action =
  action_event :: "tap_event option"
  action_intercept :: bool

definition press_action :: "press_record \<Rightarrow> event_kind \<Rightarrow> bool \<Rightarrow> bool \<Rightarrow> tap_action" where
  "press_action press kind is_repeat emit_logical =
     \<lparr>action_event =
        (if emit_logical
         then map_option (\<lambda>l. \<lparr>event_id = press_id l, event_hotkey = press_hotkey l,
                               event_kind = kind, event_repeat = is_repeat\<rparr>) (logical press)
         else None),
      action_intercept = press_intercept press\<rparr>"

type_synonym presses = "key \<Rightarrow> press_record option"

text \<open>\<open>classify_tap_event\<close>, on a key-down that is not already held.\<close>

definition new_press ::
  "((32 word \<times> registration) list \<Rightarrow> (32 word \<times> registration) list)
   \<Rightarrow> inner \<Rightarrow> key \<Rightarrow> modifier set \<Rightarrow> press_record" where
  "new_press ord inn code mods =
     (let matched = match_event ord inn code mods;
          matched_intercept = map_option (\<lambda>(_, reg). reg_intercept reg) matched;
          suspended = 0 < suspend inn;
          capture = 0 < capture_all inn;
          d0 = classify suspended matched_intercept;
          d = (if \<not> suspended \<and> capture
               then \<lparr>emit = matched \<noteq> None, decide_intercept = True\<rparr> else d0)
      in \<lparr>logical =
            (if emit d
             then map_option (\<lambda>(i, reg). \<lparr>press_id = i, press_hotkey = reg_hotkey reg\<rparr>) matched
             else None),
          press_intercept = decide_intercept d\<rparr>)"

definition classify_tap_event ::
  "((32 word \<times> registration) list \<Rightarrow> (32 word \<times> registration) list)
   \<Rightarrow> inner \<Rightarrow> key \<Rightarrow> modifier set \<Rightarrow> event_kind \<Rightarrow> bool \<Rightarrow> presses \<Rightarrow> tap_action \<times> presses" where
  "classify_tap_event ord inn code mods kind is_repeat presses =
     (if kind = KeyUp
      then (case presses code of
              None \<Rightarrow> (\<lparr>action_event = None, action_intercept = False\<rparr>, presses)
            | Some press \<Rightarrow> (press_action press KeyUp False True, presses(code := None)))
      else (case presses code of
              Some press \<Rightarrow> (press_action press KeyDown is_repeat (suspend inn = 0), presses)
            | None \<Rightarrow>
                (let press = new_press ord inn code mods
                 in (press_action press KeyDown is_repeat True, presses(code \<mapsto> press)))))"

subsection \<open>Id allocation\<close>

text \<open>
  The loop returns whenever some non-zero id is free: the distance from the next
  candidate to that id decreases with each round of the loop.
\<close>

lemma unat_pred_less: "d \<noteq> 0 \<Longrightarrow> unat (d - 1) < unat d" for d :: "'a::len word"
  by (simp add: unat_minus_one unat_gt_0)

lemma alloc_id_returns:
  assumes "f \<noteq> 0" "\<not> used f"
  shows "\<exists>i. alloc_id used n = Some i"
proof (induction "unat (f - (n + 1))" arbitrary: n rule: less_induct)
  case less
  show ?case
  proof (cases "n + 1 = f")
    case True
    then show ?thesis
      using assms by (subst alloc_id.simps) (simp add: Let_def)
  next
    case False
    then have "f - (n + 1) \<noteq> 0" by auto
    then have "unat (f - (n + 1) - 1) < unat (f - (n + 1))"
      by (rule unat_pred_less)
    also have "f - (n + 1) - 1 = f - (n + 1 + 1)" by simp
    finally have "\<exists>i. alloc_id used (n + 1) = Some i"
      by (rule less)
    then show ?thesis
      by (subst alloc_id.simps) (auto simp: Let_def)
  qed
qed

lemma alloc_id_fresh: "alloc_id used n = Some i \<Longrightarrow> i \<noteq> 0 \<and> \<not> used i"
  by (rule alloc_id.raw_induct [of "\<lambda>used n i. i \<noteq> 0 \<and> \<not> used i"])
    (auto simp: Let_def split: if_splits)

definition regs_wf :: "inner \<Rightarrow> bool" where
  "regs_wf inn \<longleftrightarrow> distinct (map fst (regs inn)) \<and> 0 \<notin> fst ` set (regs inn)
     \<and> (\<forall>(i, reg) \<in> set (regs inn). reg_mods reg = normalize_mods (modifiers (reg_hotkey reg)))"

lemma regs_wf_default [inv_intro]: "regs_wf inner_default"
  by (simp add: regs_wf_def inner_default_def)

lemma regs_wfD:
  "regs_wf inn \<Longrightarrow> distinct (map fst (regs inn))"
  "regs_wf inn \<Longrightarrow> (i, reg) \<in> set (regs inn)
    \<Longrightarrow> reg_mods reg = normalize_mods (modifiers (reg_hotkey reg))"
  by (auto simp: regs_wf_def)

lemma inner_register_free:
  assumes "length (regs inn) < 2 ^ 32 - 1"
  shows "\<exists>i inn'. inner_register inn hk b = Some (i, inn')"
proof -
  let ?used = "insert 0 (fst ` set (regs inn)) :: 32 word set"
  have "card ?used \<le> Suc (card (fst ` set (regs inn)))"
    by (rule card_insert_le_m1) simp_all
  also have "\<dots> \<le> Suc (length (regs inn))"
    by (metis Suc_le_mono card_length length_map list.set_map)
  also have "\<dots> < card (UNIV :: 32 word set)"
    using assms by (simp add: card_word)
  finally have "?used \<noteq> UNIV" by auto
  then obtain f where "f \<noteq> 0" "f \<notin> fst ` set (regs inn)" by blast
  then obtain i where "alloc_id (\<lambda>i. i \<in> fst ` set (regs inn)) (next_id inn) = Some i"
    using alloc_id_returns [of f "\<lambda>i. i \<in> fst ` set (regs inn)"] by blast
  then show ?thesis by (simp add: inner_register_def)
qed

lemma inner_register_SomeD:
  assumes "inner_register inn hk b = Some (i, inn')"
  shows "i \<noteq> 0" "map_of (regs inn) i = None"
    "map_of (regs inn') = (map_of (regs inn))
       (i \<mapsto> \<lparr>reg_hotkey = hk, reg_intercept = b, reg_mods = normalize_mods (modifiers hk)\<rparr>)"
    "suspend inn' = suspend inn" "capture_all inn' = capture_all inn"
    "length (regs inn') = Suc (length (regs inn))"
    "regs_wf inn \<Longrightarrow> regs_wf inn'"
proof -
  let ?r = "\<lparr>reg_hotkey = hk, reg_intercept = b, reg_mods = normalize_mods (modifiers hk)\<rparr>"
  from assms have a: "alloc_id (\<lambda>i. i \<in> fst ` set (regs inn)) (next_id inn) = Some i"
    and inn': "inn' = inn\<lparr>next_id := i, regs := AList.update i ?r (regs inn)\<rparr>"
    by (auto simp: inner_register_def split: option.splits)
  from alloc_id_fresh [OF a] show i: "i \<noteq> 0" and n: "map_of (regs inn) i = None"
    by (auto simp: map_of_eq_None_iff)
  from n have u: "AList.update i ?r (regs inn) = regs inn @ [(i, ?r)]"
    by (rule update_new)
  show "map_of (regs inn') = (map_of (regs inn))(i \<mapsto> ?r)"
    "suspend inn' = suspend inn" "capture_all inn' = capture_all inn"
    by (simp_all add: inn')
  show "length (regs inn') = Suc (length (regs inn))" by (simp add: inn' u)
  show "regs_wf inn'" if "regs_wf inn"
    using that i n by (auto simp: regs_wf_def inn' u map_of_eq_None_iff)
qed

lemma inner_unregister_wf: "regs_wf inn \<Longrightarrow> regs_wf (snd (inner_unregister inn i))"
  by (auto simp: regs_wf_def inner_unregister_def set_delete)

lemma manager_unregister_wf: "regs_wf inn \<Longrightarrow> regs_wf (snd (manager_unregister inn i))"
  using inner_unregister_wf [of inn i] by (auto simp: manager_unregister_def split: prod.splits)

lemma guards_restore [op_simps]:
  "unat (suspend inn) + 1 < 2 ^ 64 \<Longrightarrow> suspend_guard_drop (manager_suspend inn) = inn"
  "unat (capture_all inn) + 1 < 2 ^ 64 \<Longrightarrow> capture_guard_drop (manager_capture_all inn) = inn"
  by (auto simp: suspend_guard_drop_def manager_suspend_def capture_guard_drop_def
      manager_capture_all_def sat_add_def word_gt_0 unat_eq_zero [symmetric] unat_plus_if')

subsection \<open>Matching\<close>

lemma match_fold_None:
  "fold (match_step code t) es b = None \<longleftrightarrow> b = None \<and> (\<forall>e \<in> set es. \<not> reg_matches code t (snd e))"
  by (induction es arbitrary: b) (auto simp: match_step_def split: option.splits)

lemma match_step_cases:
  "match_step code t a b = b \<and> (reg_matches code t (snd a) \<longrightarrow>
      (\<exists>x. b = Some x \<and> (reg_intercept (snd a) \<longrightarrow> reg_intercept (snd x))))
   \<or> match_step code t a b = Some a \<and> reg_matches code t (snd a)
     \<and> (\<forall>x. b = Some x \<longrightarrow> reg_intercept (snd x) \<longrightarrow> reg_intercept (snd a))"
  by (auto simp: match_step_def split: option.splits)

lemma match_fold_Some:
  "fold (match_step code t) es b = Some e \<Longrightarrow> b = Some e \<or> e \<in> set es \<and> reg_matches code t (snd e)"
proof (induction es arbitrary: b)
  case (Cons a es)
  have "match_step code t a b = Some e \<or> e \<in> set es \<and> reg_matches code t (snd e)"
    using Cons.IH [of "match_step code t a b"] Cons.prems by simp
  then show ?case
    using match_step_cases [of code t a b] by (metis list.set_intros option.inject)
qed simp

lemma match_fold_intercept:
  "fold (match_step code t) es b = Some e \<Longrightarrow>
   b = Some e' \<or> e' \<in> set es \<and> reg_matches code t (snd e') \<Longrightarrow>
   reg_intercept (snd e') \<Longrightarrow> reg_intercept (snd e)"
proof (induction es arbitrary: b e')
  case (Cons a es)
  let ?b = "match_step code t a b"
  have fold: "fold (match_step code t) es ?b = Some e" using Cons.prems(1) by simp
  have "\<exists>x. (?b = Some x \<or> x \<in> set es \<and> reg_matches code t (snd x)) \<and> reg_intercept (snd x)"
    using match_step_cases [of code t a b] Cons.prems(2, 3) unfolding set_simps insert_iff
    by (metis option.inject)
  then show ?case using Cons.IH [OF fold] by blast
qed simp

lemma match_event_None:
  assumes "set (ord (regs inn)) = set (regs inn)"
  shows "match_event ord inn code mods = None \<longleftrightarrow>
    (\<forall>(i, reg) \<in> set (regs inn). \<not> reg_matches code (normalize_mods mods) reg)"
  using assms by (auto simp: match_event_def match_fold_None)

lemma match_event_Some:
  assumes "set (ord (regs inn)) = set (regs inn)" and "match_event ord inn code mods = Some (i, reg)"
  shows "(i, reg) \<in> set (regs inn)" "reg_matches code (normalize_mods mods) reg"
    "reg_intercept reg \<longleftrightarrow>
      (\<exists>(i', r) \<in> set (regs inn). reg_matches code (normalize_mods mods) r \<and> reg_intercept r)"
proof -
  note fold = assms(2) [unfolded match_event_def]
  show m: "(i, reg) \<in> set (regs inn)" "reg_matches code (normalize_mods mods) reg"
    using match_fold_Some [OF fold] assms(1) by auto
  show "reg_intercept reg \<longleftrightarrow>
      (\<exists>(i', r) \<in> set (regs inn). reg_matches code (normalize_mods mods) r \<and> reg_intercept r)"
    using m match_fold_intercept [OF fold] assms(1) by fastforce
qed

lemma new_press_key:
  assumes "set (ord (regs inn)) = set (regs inn)" and "logical (new_press ord inn code mods) = Some l"
  shows "chord_key (press_hotkey l) = code"
  using assms(2) match_event_Some(2) [where ord = ord and inn = inn and code = code and mods = mods,
    OF assms(1)]
  by (fastforce simp: new_press_def Let_def reg_matches_def split: if_splits)

subsection \<open>Runs of the tap\<close>

text \<open>
  Each callback loads a snapshot of the registration table, so an arbitrary
  interleaving of table writes and key events is a list of calls, each with the
  table it sees.
\<close>

record tap_call =
  call_inner :: inner
  call_key :: key
  call_mods :: "modifier set"
  call_kind :: event_kind
  call_repeat :: bool

fun tap_run ::
  "((32 word \<times> registration) list \<Rightarrow> (32 word \<times> registration) list)
   \<Rightarrow> tap_call list \<Rightarrow> presses \<Rightarrow> tap_action list \<times> presses" where
  "tap_run ord [] ps = ([], ps)"
| "tap_run ord (c # cs) ps =
     (let (a, ps') = classify_tap_event ord (call_inner c) (call_key c) (call_mods c)
                       (call_kind c) (call_repeat c) ps;
          (as, ps'') = tap_run ord cs ps'
      in (a # as, ps''))"

text \<open>The events sent on the channel.\<close>

definition sent_events :: "tap_action list \<Rightarrow> tap_event list" where
  "sent_events as = List.map_filter action_event as"

lemma sent_events_simps [simp]:
  "sent_events [] = []"
  "sent_events (a # as) = (case action_event a of None \<Rightarrow> sent_events as | Some e \<Rightarrow> e # sent_events as)"
  by (simp_all add: sent_events_def map_filter_simps split: option.split)

text \<open>
  Well-paired event streams: a release is only delivered for a held key, with the
  id and chord of its press, and a press of a held key repeats that press.
\<close>

fun paired :: "tap_event list \<Rightarrow> (key \<Rightarrow> (32 word \<times> chord) option) \<Rightarrow> bool" where
  "paired [] held = True"
| "paired (e # es) held =
     (let k = chord_key (event_hotkey e); who = (event_id e, event_hotkey e) in
      case event_kind e of
        KeyUp \<Rightarrow> held k = Some who \<and> paired es (held(k := None))
      | KeyDown \<Rightarrow> (held k = None \<or> held k = Some who) \<and> paired es (held(k \<mapsto> who)))"

definition held_logical :: "presses \<Rightarrow> key \<Rightarrow> (32 word \<times> chord) option" where
  "held_logical ps k =
     Option.bind (ps k) (\<lambda>p. map_option (\<lambda>l. (press_id l, press_hotkey l)) (logical p))"

definition presses_wf :: "presses \<Rightarrow> bool" where
  "presses_wf ps \<longleftrightarrow>
     (\<forall>k p l. ps k = Some p \<longrightarrow> logical p = Some l \<longrightarrow> chord_key (press_hotkey l) = k)"

lemma classify_tap_event_wf:
  assumes "presses_wf ps" and "\<And>xs. set (ord xs) = set xs"
  shows "presses_wf (snd (classify_tap_event ord inn code mods kind rep ps))"
  using assms new_press_key [of ord inn code mods]
  by (auto simp: presses_wf_def classify_tap_event_def Let_def split: option.splits)

lemma held_logical_upd [simp]:
  "held_logical (ps(k := None)) = (held_logical ps)(k := None)"
  "held_logical (ps(k \<mapsto> p)) = (held_logical ps)
     (k := map_option (\<lambda>l. (press_id l, press_hotkey l)) (logical p))"
  by (auto simp: held_logical_def)

lemma paired_step:
  assumes wf: "presses_wf ps" and ord: "\<And>xs. set (ord xs) = set xs"
    and step: "classify_tap_event ord inn code mods kind rep ps = (a, ps')"
    and rest: "paired es (held_logical ps')"
  shows "paired (case action_event a of None \<Rightarrow> es | Some e \<Rightarrow> e # es) (held_logical ps)"
proof (cases "ps code")
  case None
  then have h: "held_logical ps code = None" by (simp add: held_logical_def)
  have id: "(held_logical ps)(code := None) = held_logical ps" using h by auto
  show ?thesis
    using step rest None h id new_press_key [of ord inn code mods, OF ord]
    by (auto simp: classify_tap_event_def press_action_def Let_def split: if_splits option.splits)
next
  case (Some p)
  have h: "held_logical ps code = map_option (\<lambda>l. (press_id l, press_hotkey l)) (logical p)"
    using Some by (simp add: held_logical_def)
  have k: "chord_key (press_hotkey l) = code" if "logical p = Some l" for l
    using wf Some that by (auto simp: presses_wf_def)
  show ?thesis
  proof (cases "logical p")
    case None
    then have n: "(held_logical ps)(code := None) = held_logical ps" using h by auto
    show ?thesis
      using step rest Some None n
      by (auto simp: classify_tap_event_def press_action_def split: if_splits)
  next
    case (Some l)
    then have n: "(held_logical ps)(code \<mapsto> (press_id l, press_hotkey l)) = held_logical ps"
      using h by auto
    show ?thesis
      using step rest \<open>ps code = Some p\<close> Some n h k [OF Some]
      by (auto simp: classify_tap_event_def press_action_def split: if_splits event_kind.splits)
  qed
qed

lemma tap_run_paired:
  assumes "\<And>xs. set (ord xs) = set xs" and "presses_wf ps"
  shows "paired (sent_events (fst (tap_run ord cs ps))) (held_logical ps)"
  using assms(2)
proof (induction cs arbitrary: ps)
  case (Cons c cs)
  obtain a ps' where step: "classify_tap_event ord (call_inner c) (call_key c) (call_mods c)
      (call_kind c) (call_repeat c) ps = (a, ps')" by fastforce
  have "presses_wf ps'"
    using classify_tap_event_wf [OF Cons.prems assms(1)] step by (metis snd_conv)
  then have rest: "paired (sent_events (fst (tap_run ord cs ps'))) (held_logical ps')"
    by (rule Cons.IH)
  show ?case
    using paired_step [OF Cons.prems assms(1) step rest] step
    by (simp add: split_beta Let_def)
qed simp

text \<open>A held key keeps its press record until its release.\<close>

lemma tap_run_held:
  assumes "ps code = Some p" and "\<And>c. c \<in> set cs \<Longrightarrow> call_key c = code \<Longrightarrow> call_kind c = KeyDown"
    and "tap_run ord cs ps = (as, ps')"
  shows "ps' code = Some p"
    "list_all2 (\<lambda>c a. call_key c = code \<longrightarrow>
       a = press_action p KeyDown (call_repeat c) (suspend (call_inner c) = 0)) cs as"
proof -
  have "ps' code = Some p \<and> list_all2 (\<lambda>c a. call_key c = code \<longrightarrow>
       a = press_action p KeyDown (call_repeat c) (suspend (call_inner c) = 0)) cs as"
    using assms
  proof (induction cs arbitrary: ps as)
    case (Cons c cs)
    obtain a ps1 where step: "classify_tap_event ord (call_inner c) (call_key c) (call_mods c)
        (call_kind c) (call_repeat c) ps = (a, ps1)" by fastforce
    obtain as' where run: "tap_run ord cs ps1 = (as', ps')" "as = a # as'"
      using Cons.prems(3) step by (auto simp: Let_def split: prod.splits)
    have down: "call_key c = code \<Longrightarrow> call_kind c = KeyDown"
      by (rule Cons.prems(2)) simp_all
    have held: "ps1 code = Some p"
      using step Cons.prems(1) down
      by (cases "call_key c = code")
        (auto simp: classify_tap_event_def Let_def split: option.splits if_splits)
    have act: "call_key c = code \<longrightarrow>
        a = press_action p KeyDown (call_repeat c) (suspend (call_inner c) = 0)"
    proof
      assume "call_key c = code"
      then show "a = press_action p KeyDown (call_repeat c) (suspend (call_inner c) = 0)"
        using step Cons.prems(1) down by (simp add: classify_tap_event_def)
    qed
    have "ps' code = Some p \<and> list_all2 (\<lambda>c a. call_key c = code \<longrightarrow>
       a = press_action p KeyDown (call_repeat c) (suspend (call_inner c) = 0)) cs as'"
      by (rule Cons.IH [OF held _ run(1)]) (rule Cons.prems(2), simp_all)
    then show ?case
      using act run(2) by simp
  qed simp
  then show "ps' code = Some p" "list_all2 (\<lambda>c a. call_key c = code \<longrightarrow>
       a = press_action p KeyDown (call_repeat c) (suspend (call_inner c) = 0)) cs as"
    by blast+
qed

subsection \<open>Input-health store\<close>

text \<open>A \<open>Duration\<close> is a number of nanoseconds, a \<open>SystemTime\<close> its offset from the epoch.\<close>

datatype tap_mode = Physical | InjectionOnly
datatype tap_lifecycle = Starting | Running | Stopped
datatype secure_input_state = SecureUnknown | SecureInactive | SecureActive

record secure_input_owner =
  owner_pid :: "32 word"
  owner_app_name :: string

record manager_status =
  tap_mode :: tap_mode
  tap_lifecycle :: tap_lifecycle
  secure_input :: secure_input_state
  secure_input_owner :: "secure_input_owner option"
  registered_hotkeys :: nat
  physical_event_count :: "64 word"
  physical_event_age_ms :: "64 word option"
  os_disable_count :: "64 word"
  os_reenable_count :: "64 word"
  observed_at_ms :: "64 word option"
  server_pid :: "32 word"

record platform_sample =
  sample_secure_input :: secure_input_state
  sample_owner :: "secure_input_owner option"

record status_store =
  st_mode :: tap_mode
  st_lifecycle :: tap_lifecycle
  st_secure_input :: secure_input_state
  st_secure_input_owner :: "secure_input_owner option"
  st_physical_event_count :: "64 word"
  st_last_physical_event :: "nat option"
  st_os_disable_count :: "64 word"
  st_os_reenable_count :: "64 word"
  st_observed_at_ms :: "64 word option"

definition status_new :: "tap_mode \<Rightarrow> status_store" where
  "status_new mode =
     \<lparr>st_mode = mode,
      st_lifecycle = (case mode of Physical \<Rightarrow> Starting | InjectionOnly \<Rightarrow> Stopped),
      st_secure_input = SecureUnknown, st_secure_input_owner = None,
      st_physical_event_count = 0, st_last_physical_event = None,
      st_os_disable_count = 0, st_os_reenable_count = 0, st_observed_at_ms = None\<rparr>"

definition set_lifecycle :: "tap_lifecycle \<Rightarrow> status_store \<Rightarrow> status_store" where
  "set_lifecycle l st = st\<lparr>st_lifecycle := l\<rparr>"

definition record_physical_event_at :: "nat \<Rightarrow> status_store \<Rightarrow> status_store" where
  "record_physical_event_at elapsed st =
     st\<lparr>st_physical_event_count := sat_add (st_physical_event_count st) 1,
        st_last_physical_event := Some elapsed\<rparr>"

definition record_disable :: "status_store \<Rightarrow> status_store" where
  "record_disable st = st\<lparr>st_os_disable_count := sat_add (st_os_disable_count st) 1\<rparr>"

definition record_reenable :: "bool \<Rightarrow> status_store \<Rightarrow> status_store" where
  "record_reenable enabled st =
     (if enabled then st\<lparr>st_os_reenable_count := sat_add (st_os_reenable_count st) 1\<rparr> else st)"

definition status_snapshot :: "32 word \<Rightarrow> nat \<Rightarrow> nat \<Rightarrow> status_store \<Rightarrow> manager_status" where
  "status_snapshot own_pid elapsed registered st =
     \<lparr>tap_mode = st_mode st, tap_lifecycle = st_lifecycle st,
      secure_input = st_secure_input st, secure_input_owner = st_secure_input_owner st,
      registered_hotkeys = registered,
      physical_event_count = st_physical_event_count st,
      physical_event_age_ms =
        map_option (\<lambda>last. let ms = (elapsed - last) div 1000000 in
                    if ms < 2 ^ 64 then of_nat ms else - 1) (st_last_physical_event st),
      os_disable_count = st_os_disable_count st, os_reenable_count = st_os_reenable_count st,
      observed_at_ms = st_observed_at_ms st, server_pid = own_pid\<rparr>"

definition status_sample_at ::
  "32 word \<Rightarrow> nat \<Rightarrow> int \<Rightarrow> nat \<Rightarrow> platform_sample \<Rightarrow> status_store \<Rightarrow> manager_status \<times> status_store" where
  "status_sample_at own_pid elapsed observed_at registered sample st =
     (let st' = st\<lparr>st_secure_input := sample_secure_input sample,
                   st_secure_input_owner := sample_owner sample,
                   st_observed_at_ms :=
                     (if observed_at < 0 then None
                      else let ms = nat observed_at div 1000000 in
                           if ms < 2 ^ 64 then Some (of_nat ms) else None)\<rparr>
      in (status_snapshot own_pid elapsed registered st', st'))"

definition status_sample ::
  "32 word \<Rightarrow> nat \<Rightarrow> int \<Rightarrow> nat \<Rightarrow> platform_sample \<Rightarrow> status_store \<Rightarrow> manager_status \<times> status_store" where
  "status_sample own_pid elapsed observed_at registered sample st =
     (if st_mode st = InjectionOnly then (status_snapshot own_pid elapsed registered st, st)
      else status_sample_at own_pid elapsed observed_at registered sample st)"

definition resolve_secure_input_owner ::
  "(32 word \<Rightarrow> string option) \<Rightarrow> 32 word option \<Rightarrow> secure_input_owner option" where
  "resolve_secure_input_owner resolve_app_name pid =
     (case pid of
        None \<Rightarrow> None
      | Some p \<Rightarrow>
          if 0 < sint p
          then map_option (\<lambda>n. \<lparr>owner_pid = p, owner_app_name = n\<rparr>) (resolve_app_name p)
          else None)"

definition sample_platform ::
  "bool \<Rightarrow> (32 word \<Rightarrow> string option) \<Rightarrow> 32 word option \<Rightarrow> platform_sample" where
  "sample_platform active resolve_app_name session_pid =
     \<lparr>sample_secure_input = (if active then SecureActive else SecureInactive),
      sample_owner = (if active then resolve_secure_input_owner resolve_app_name session_pid else None)\<rparr>"

subsection \<open>The tap callback\<close>

datatype cg_event_type =
  CG_KeyDown | CG_KeyUp | CG_TapDisabledByTimeout | CG_TapDisabledByUserInput | CG_Other

record cg_event =
  cg_type :: cg_event_type
  cg_source_pid :: "64 word"
  cg_user_data :: "64 word"
  cg_keycode :: "64 word"
  cg_flags :: "64 word"
  cg_autorepeat :: "64 word"

definition hotk_tag :: "64 word" where
  "hotk_tag = 1752468299"

datatype callback_result = Keep | Drop

record tap_state =
  tap_presses :: presses
  tap_sent :: "tap_event list"
  tap_status :: status_store

text \<open>
  \<open>reenabled\<close> stands for the tap port: \<open>None\<close> while the pointer is null, else what
  \<open>CGEventTapIsEnabled\<close> answers after \<open>CGEventTapEnable\<close>.
\<close>

definition tap_callback ::
  "((32 word \<times> registration) list \<Rightarrow> (32 word \<times> registration) list)
   \<Rightarrow> 32 word \<Rightarrow> bool option \<Rightarrow> nat \<Rightarrow> inner \<Rightarrow> cg_event \<Rightarrow> tap_state \<Rightarrow> callback_result \<times> tap_state" where
  "tap_callback ord own_pid reenabled elapsed inn ev ts =
     (if cg_user_data ev = hotk_tag \<or> ucast (cg_source_pid ev) = own_pid then (Keep, ts)
      else (case cg_type ev of
        CG_Other \<Rightarrow> (Keep, ts)
      | CG_TapDisabledByTimeout \<Rightarrow>
          (Keep, ts\<lparr>tap_status := (case reenabled of
             None \<Rightarrow> record_disable (tap_status ts)
           | Some b \<Rightarrow> record_reenable b (record_disable (tap_status ts)))\<rparr>)
      | CG_TapDisabledByUserInput \<Rightarrow>
          (Keep, ts\<lparr>tap_status := (case reenabled of
             None \<Rightarrow> record_disable (tap_status ts)
           | Some b \<Rightarrow> record_reenable b (record_disable (tap_status ts)))\<rparr>)
      | _ \<Rightarrow>
          (let ts1 = ts\<lparr>tap_status := record_physical_event_at elapsed (tap_status ts)\<rparr> in
           case key_from_keycode (ucast (cg_keycode ev)) of
             None \<Rightarrow> (Keep, ts1)
           | Some code \<Rightarrow>
               (let kind = (if cg_type ev = CG_KeyDown then KeyDown else KeyUp);
                    is_repeat = (cg_type ev = CG_KeyDown \<and> cg_autorepeat ev \<noteq> 0);
                    (a, ps) = classify_tap_event ord inn code (modifiers_from_cg_flags (cg_flags ev))
                                kind is_repeat (tap_presses ts1);
                    ts2 = ts1\<lparr>tap_presses := ps,
                      tap_sent := (case action_event a of
                         None \<Rightarrow> tap_sent ts1 | Some e \<Rightarrow> tap_sent ts1 @ [e])\<rparr>
                in (if action_intercept a then Drop else Keep, ts2)))))"

subsection \<open>Properties\<close>

text \<open>
  registering returns, with a non-zero id that was not in use, as long as the
  table is not full; it adds exactly the new registration and keeps the others.
\<close>

theorem register_allocates:
  assumes "regs_wf inn" and "length (regs inn) < 2 ^ 32 - 1"
  shows "\<exists>i inn'. manager_intercept inn hk = Some (i, inn') \<and> i \<noteq> 0 \<and> map_of (regs inn) i = None
    \<and> map_of (regs inn') = (map_of (regs inn))(i \<mapsto> \<lparr>reg_hotkey = hk, reg_intercept = True,
        reg_mods = normalize_mods (modifiers hk)\<rparr>)
    \<and> regs_wf inn' \<and> length (regs inn') = Suc (length (regs inn))"
proof -
  obtain i inn' where reg: "inner_register inn hk True = Some (i, inn')"
    using inner_register_free [OF assms(2)] by blast
  show ?thesis
    using reg inner_register_SomeD [OF reg] assms(1) by (auto simp: manager_intercept_def)
qed

lemma register_allocates_witness:
  "\<exists>i inn'. manager_intercept inner_default \<lparr>modifiers = {}, chord_key = Key_A\<rparr> = Some (i, inn')
     \<and> i \<noteq> 0 \<and> regs_wf inn'"
  using register_allocates [OF regs_wf_default, of "\<lparr>modifiers = {}, chord_key = Key_A\<rparr>"]
  by (auto simp: inner_default_def)

definition chord_matches :: "key \<Rightarrow> modifier set \<Rightarrow> registration \<Rightarrow> bool" where
  "chord_matches code mods reg \<longleftrightarrow> chord_key (reg_hotkey reg) = code
     \<and> normalize_mods (modifiers (reg_hotkey reg)) = normalize_mods mods"

text \<open>
  matching finds a registration exactly when one has the key and the same
  primary modifiers, and whatever order the table is iterated in, it returns an
  intercepting one when there is any.
\<close>

theorem match_event_prefers_intercept:
  assumes "\<And>xs. set (ord xs) = set xs" and "regs_wf inn"
  shows "case match_event ord inn code mods of
      None \<Rightarrow> \<forall>i reg. map_of (regs inn) i = Some reg \<longrightarrow> \<not> chord_matches code mods reg
    | Some (i, reg) \<Rightarrow> map_of (regs inn) i = Some reg \<and> chord_matches code mods reg
        \<and> (reg_intercept reg \<longleftrightarrow>
            (\<exists>j r. map_of (regs inn) j = Some r \<and> chord_matches code mods r \<and> reg_intercept r))"
proof -
  note wf = regs_wfD [OF assms(2)]
  have m: "reg_matches code (normalize_mods mods) reg \<longleftrightarrow> chord_matches code mods reg" if "(i, reg) \<in> set (regs inn)" for i reg
    using wf(2) [OF that] by (auto simp: reg_matches_def chord_matches_def)
  have set_iff: "(i, reg) \<in> set (regs inn) \<longleftrightarrow> map_of (regs inn) i = Some reg" for i reg
    using wf(1) by (rule map_of_Some_set)
  have ord: "set (ord (regs inn)) = set (regs inn)" by (rule assms(1))
  show ?thesis
  proof (cases "match_event ord inn code mods")
    case None
    then show ?thesis
      using match_event_None [where ord = ord and inn = inn and code = code and mods = mods, OF ord] m
      by (auto simp: set_iff [symmetric] simp del: map_of_eq_Some_iff)
  next
    case (Some e)
    obtain i reg where e: "e = (i, reg)" by fastforce
    note found = match_event_Some [where ord = ord and inn = inn, OF ord Some [unfolded e]]
    have "reg_intercept reg \<longleftrightarrow>
        (\<exists>j r. map_of (regs inn) j = Some r \<and> chord_matches code mods r \<and> reg_intercept r)"
      using found(3) m by (force simp: set_iff [symmetric])
    then show ?thesis
      using Some e found(1, 2) m [OF found(1)] by (simp add: set_iff [symmetric])
  qed
qed

lemma match_event_prefers_intercept_witness:
  "case match_event rev inner_default Key_A {} of None \<Rightarrow> True | Some (i, reg) \<Rightarrow> False"
  using match_event_prefers_intercept [of rev inner_default Key_A "{}"] regs_wf_default
  by (simp add: inner_default_def split: option.splits)

text \<open>
  C8: for every interleaving of key events with writes of the registration table,
  suspensions and captures, the delivered events are paired: a release comes only
  after the press it ends, with the id and chord of that press, and a held key
  never changes its identity.
\<close>

theorem tap_events_paired:
  assumes "\<And>xs. set (ord xs) = set xs"
  shows "paired (sent_events (fst (tap_run ord cs Map.empty))) Map.empty"
proof -
  have "held_logical Map.empty = Map.empty" by (simp add: held_logical_def fun_eq_iff)
  then show ?thesis
    using tap_run_paired [OF assms, where ps = Map.empty and cs = cs] by (simp add: presses_wf_def)
qed

lemma tap_events_paired_witness:
  "paired (sent_events (fst (tap_run rev
     [\<lparr>call_inner = inner_default, call_key = Key_A, call_mods = {}, call_kind = KeyDown, call_repeat = False\<rparr>]
     Map.empty))) Map.empty"
  by (rule tap_events_paired) simp

text \<open>
  What a press decides: whom it is delivered to, and whether it is kept from the applications.
\<close>

definition press_identity ::
  "((32 word \<times> registration) list \<Rightarrow> (32 word \<times> registration) list) \<Rightarrow> tap_call \<Rightarrow> (32 word \<times> chord) option" where
  "press_identity ord c =
     (if suspend (call_inner c) = 0
      then map_option (\<lambda>(i, reg). (i, reg_hotkey reg)) (match_event ord (call_inner c) (call_key c) (call_mods c))
      else None)"

definition press_intercepted ::
  "((32 word \<times> registration) list \<Rightarrow> (32 word \<times> registration) list) \<Rightarrow> tap_call \<Rightarrow> bool" where
  "press_intercepted ord c \<longleftrightarrow>
     suspend (call_inner c) = 0
     \<and> (capture_all (call_inner c) \<noteq> 0
        \<or> (\<exists>i reg. match_event ord (call_inner c) (call_key c) (call_mods c) = Some (i, reg) \<and> reg_intercept reg))"

definition delivery :: "(32 word \<times> chord) option \<Rightarrow> event_kind \<Rightarrow> bool \<Rightarrow> tap_event option" where
  "delivery who kind is_repeat =
     map_option (\<lambda>(i, hk). \<lparr>event_id = i, event_hotkey = hk, event_kind = kind, event_repeat = is_repeat\<rparr>) who"

lemma press_action_delivery:
  "press_action (new_press ord (call_inner c) (call_key c) (call_mods c)) kind is_repeat e
     = \<lparr>action_event = (if e then delivery (press_identity ord c) kind is_repeat else None),
        action_intercept = press_intercepted ord c\<rparr>"
  by (auto simp: press_action_def new_press_def classify_def delivery_def press_identity_def press_intercepted_def
      Let_def word_gt_0 split: option.splits)

text \<open>
  C27: the press of a key that is not held decides by the table that it sees, unless a suspension
  is active: it is delivered to the registration that matches, and intercepted when that one
  intercepts or everything is captured. The interception holds for every repeat and for the
  release, whatever the table becomes in between; repeats are delivered with the press's identity
  and only while no suspension is active, the release always; afterwards the key is not held.
\<close>

theorem tap_press_retained:
  assumes press: "ps (call_key c0) = None" "call_kind c0 = KeyDown"
    and held: "\<forall>c \<in> set cs. call_key c = call_key c0 \<longrightarrow> call_kind c = KeyDown"
    and release: "call_key c1 = call_key c0" "call_kind c1 = KeyUp"
    and run: "tap_run ord (c0 # cs @ [c1]) ps = (as, ps')"
  shows "\<exists>down mid up. as = down # mid @ [up] \<and> ps' (call_key c0) = None
    \<and> action_intercept down = press_intercepted ord c0
    \<and> action_event down = delivery (press_identity ord c0) KeyDown (call_repeat c0)
    \<and> list_all2 (\<lambda>c a. call_key c = call_key c0 \<longrightarrow>
         action_intercept a = press_intercepted ord c0
       \<and> action_event a = (if suspend (call_inner c) = 0
           then delivery (press_identity ord c0) KeyDown (call_repeat c) else None)) cs mid
    \<and> action_intercept up = press_intercepted ord c0
    \<and> action_event up = delivery (press_identity ord c0) KeyUp False"
proof -
  let ?p = "new_press ord (call_inner c0) (call_key c0) (call_mods c0)"
  have app: "tap_run ord (cs @ ds) qs = (let (a1, q1) = tap_run ord cs qs; (a2, q2) = tap_run ord ds q1
      in (a1 @ a2, q2))" for ds qs
    by (induction cs arbitrary: qs) (auto simp: Let_def split: prod.splits)
  have first: "classify_tap_event ord (call_inner c0) (call_key c0) (call_mods c0) (call_kind c0)
      (call_repeat c0) ps = (press_action ?p KeyDown (call_repeat c0) True, ps(call_key c0 \<mapsto> ?p))"
    using press by (simp add: classify_tap_event_def Let_def)
  obtain mid q where mid: "tap_run ord cs (ps(call_key c0 \<mapsto> ?p)) = (mid, q)" by fastforce
  have q: "q (call_key c0) = Some ?p" and all: "list_all2 (\<lambda>c a. call_key c = call_key c0 \<longrightarrow>
         a = press_action ?p KeyDown (call_repeat c) (suspend (call_inner c) = 0)) cs mid"
    using tap_run_held [OF _ _ mid, of "call_key c0" ?p] held by simp_all
  have last: "classify_tap_event ord (call_inner c1) (call_key c1) (call_mods c1) (call_kind c1)
      (call_repeat c1) q = (press_action ?p KeyUp False True, q(call_key c0 := None))"
    using release q by (simp add: classify_tap_event_def)
  have "as = press_action ?p KeyDown (call_repeat c0) True # mid @ [press_action ?p KeyUp False True]"
    "ps' (call_key c0) = None"
    using run by (auto simp: first app mid last)
  moreover have "list_all2 (\<lambda>c a. call_key c = call_key c0 \<longrightarrow> action_intercept a = press_intercepted ord c0
       \<and> action_event a = (if suspend (call_inner c) = 0
           then delivery (press_identity ord c0) KeyDown (call_repeat c) else None)) cs mid"
    using all by (rule list_all2_mono) (simp add: press_action_delivery)
  ultimately show ?thesis by (simp add: press_action_delivery)
qed

text \<open>
  A hotkey that is unregistered while its key is held: the key is still kept from the
  applications, and the release is delivered.
\<close>

definition sample_tap_call :: "(32 word \<times> registration) list \<Rightarrow> event_kind \<Rightarrow> bool \<Rightarrow> tap_call" where
  "sample_tap_call rs kind is_repeat =
     \<lparr>call_inner = inner_default\<lparr>regs := rs\<rparr>, call_key = Key_A, call_mods = {}, call_kind = kind, call_repeat = is_repeat\<rparr>"

definition sample_regs :: "(32 word \<times> registration) list" where
  "sample_regs = [(1, \<lparr>reg_hotkey = \<lparr>modifiers = {}, chord_key = Key_A\<rparr>, reg_intercept = True, reg_mods = 0\<rparr>)]"

lemma tap_press_retained_witness:
  "\<exists>down mid up ps'. tap_run id [sample_tap_call sample_regs KeyDown False, sample_tap_call [] KeyDown True,
       sample_tap_call [] KeyUp False] Map.empty = ([down, mid, up], ps')
     \<and> action_intercept down \<and> action_intercept mid \<and> action_intercept up \<and> ps' Key_A = None
     \<and> action_event up = Some \<lparr>event_id = 1, event_hotkey = \<lparr>modifiers = {}, chord_key = Key_A\<rparr>,
         event_kind = KeyUp, event_repeat = False\<rparr>"
proof -
  let ?d = "sample_tap_call sample_regs KeyDown False"
  let ?r = "sample_tap_call [] KeyDown True"
  let ?u = "sample_tap_call [] KeyUp False"
  obtain as ps' where run: "tap_run id (?d # [?r] @ [?u]) Map.empty = (as, ps')" by fastforce
  have m: "match_event id (call_inner ?d) Key_A {} = Some (hd sample_regs)"
    by (simp add: match_event_def sample_tap_call_def sample_regs_def match_step_def reg_matches_def normalize_mods_def)
  have k: "call_key ?d = Key_A" "call_key ?r = Key_A" "call_mods ?d = {}" "suspend (call_inner ?d) = 0"
    "call_kind ?r = KeyDown"
    by (simp_all add: sample_tap_call_def inner_default_def)
  have p: "press_intercepted id ?d" "press_identity id ?d = Some (1, \<lparr>modifiers = {}, chord_key = Key_A\<rparr>)"
    using m k by (simp_all add: press_intercepted_def press_identity_def sample_regs_def)
  obtain down mid up where "as = down # mid @ [up]" "ps' Key_A = None" "action_intercept down" "action_intercept up"
    "list_all2 (\<lambda>c a. call_key c = Key_A \<longrightarrow> action_intercept a = True
       \<and> action_event a = (if suspend (call_inner c) = 0
           then delivery (press_identity id ?d) KeyDown (call_repeat c) else None)) [?r] mid"
    "action_event up = delivery (press_identity id ?d) KeyUp False"
    using tap_press_retained [of Map.empty ?d "[?r]" ?u id as ps', OF _ _ _ _ _ run] p(1) k
    by (auto simp: sample_tap_call_def)
  then show ?thesis
    using run p(2) k(2) by (cases mid) (auto simp: delivery_def)
qed

end
