(* ===== verification/Relay.thy ===== *)
theory Relay
  imports Hotkey_Manager
begin

text \<open>
  Crate \<open>relaykey\<close>: gestures pinned to a chord and a destination, and the events
  posted for them (\<open>relaykey/src/lib.rs\<close>).  The system is the list of posted events
  together with an oracle that says which creations of a CoreGraphics event fail;
  failures are logged by the code and otherwise ignored.  The order in which
  \<open>release_all\<close> drains the map is the parameter \<open>ord\<close>.
\<close>

subsection \<open>State and posted events\<close>

datatype relay_destination = Hid | Process "32 word"

datatype relay_error = EventSource | EventCreate | RelayPermissionDenied string

record posted =
  p_keycode :: "16 word"
  p_down :: bool
  p_flags :: "64 word option"
  p_autorepeat :: bool
  p_tagged :: bool
  p_dest :: relay_destination

record relay_system =
  posts :: "posted list"
  built :: nat
  build_error :: "nat \<Rightarrow> relay_error option"

record active_gesture =
  g_chord :: chord
  g_destination :: relay_destination

record relay_state =
  active :: "(string \<times> active_gesture) list"
  poster :: bool
  system :: relay_system

subsection \<open>The CoreGraphics poster\<close>

definition build_keycode_event ::
  "16 word \<Rightarrow> bool \<Rightarrow> relay_system \<Rightarrow> (relay_error + posted) \<times> relay_system" where
  "build_keycode_event keycode down sys =
     (case build_error sys (built sys) of
        Some e \<Rightarrow> (Err e, sys\<lparr>built := Suc (built sys)\<rparr>)
      | None \<Rightarrow>
          (Ok \<lparr>p_keycode = keycode, p_down = down, p_flags = None, p_autorepeat = False,
               p_tagged = False, p_dest = Hid\<rparr>, sys\<lparr>built := Suc (built sys)\<rparr>))"

text \<open>The fold over the modifiers is a disjunction of bits, so its order does not matter.\<close>

definition chord_flags :: "chord \<Rightarrow> 64 word" where
  "chord_flags c = foldl (\<lambda>acc m. acc OR cg_flag_bits m) 0 (sorted_list_of_set (modifiers c))"

definition build_event ::
  "chord \<Rightarrow> bool \<Rightarrow> bool \<Rightarrow> relay_system \<Rightarrow> (relay_error + posted) \<times> relay_system" where
  "build_event c down is_repeat sys =
     (case build_keycode_event (key_code (chord_key c)) down sys of
        (Inl e, sys') \<Rightarrow> (Err e, sys')
      | (Inr ev, sys') \<Rightarrow>
          (let ev1 = ev\<lparr>p_flags := Some (chord_flags c)\<rparr>
           in (Ok (if is_repeat then ev1\<lparr>p_autorepeat := True\<rparr> else ev1), sys')))"

definition needs_hotki_tag :: "relay_destination \<Rightarrow> bool" where
  "needs_hotki_tag d = (case d of Hid \<Rightarrow> True | Process _ \<Rightarrow> False)"

definition post_event :: "posted \<Rightarrow> relay_destination \<Rightarrow> relay_system \<Rightarrow> relay_system" where
  "post_event ev d sys =
     (let ev1 = (if needs_hotki_tag d then ev\<lparr>p_tagged := True\<rparr> else ev)
      in sys\<lparr>posts := posts sys @ [ev1\<lparr>p_dest := d\<rparr>]\<rparr>)"

definition mod_keycodes :: "modifier set \<Rightarrow> 16 word list" where
  "mod_keycodes mods =
     map modifier_keycode (filter (\<lambda>m. m \<in> mods)
       [Mod_Control, Mod_RightControl, Mod_Option, Mod_RightOption,
        Mod_Shift, Mod_RightShift, Mod_Command, Mod_RightCommand])"

definition poster_post_down ::
  "chord \<Rightarrow> bool \<Rightarrow> relay_destination \<Rightarrow> relay_system \<Rightarrow> (relay_error + unit) \<times> relay_system" where
  "poster_post_down c is_repeat d sys =
     (case build_event c True is_repeat sys of
        (Inl e, sys') \<Rightarrow> (Err e, sys')
      | (Inr ev, sys') \<Rightarrow> (Ok (), post_event ev d sys'))"

definition poster_post_up ::
  "chord \<Rightarrow> relay_destination \<Rightarrow> relay_system \<Rightarrow> (relay_error + unit) \<times> relay_system" where
  "poster_post_up c d sys =
     (case build_event c False False sys of
        (Inl e, sys') \<Rightarrow> (Err e, sys')
      | (Inr ev, sys') \<Rightarrow> (Ok (), post_event ev d sys'))"

text \<open>The loop of \<open>post_modifiers\<close>, left at the first failing creation.\<close>

fun post_codes ::
  "16 word list \<Rightarrow> bool \<Rightarrow> relay_destination \<Rightarrow> relay_system \<Rightarrow> (relay_error + unit) \<times> relay_system" where
  "post_codes [] down d sys = (Ok (), sys)"
| "post_codes (code # codes) down d sys =
     (case build_keycode_event code down sys of
        (Inl e, sys') \<Rightarrow> (Err e, sys')
      | (Inr ev, sys') \<Rightarrow> post_codes codes down d (post_event ev d sys'))"

definition poster_post_modifiers ::
  "modifier set \<Rightarrow> bool \<Rightarrow> relay_destination \<Rightarrow> relay_system \<Rightarrow> (relay_error + unit) \<times> relay_system" where
  "poster_post_modifiers mods down d sys =
     post_codes (if down then mod_keycodes mods else rev (mod_keycodes mods)) down d sys"

definition post_down :: "chord \<Rightarrow> bool \<Rightarrow> relay_destination \<Rightarrow> relay_system \<Rightarrow> relay_system" where
  "post_down c is_repeat d sys =
     (let sys1 = (if \<not> is_repeat \<and> d = Hid then snd (poster_post_modifiers (modifiers c) True d sys) else sys)
      in snd (poster_post_down c is_repeat d sys1))"

definition post_up :: "chord \<Rightarrow> relay_destination \<Rightarrow> relay_system \<Rightarrow> relay_system" where
  "post_up c d sys =
     (let sys1 = snd (poster_post_up c d sys)
      in if d = Hid then snd (poster_post_modifiers (modifiers c) False d sys1) else sys1)"

subsection \<open>Gestures\<close>

definition relay_begin :: "string \<Rightarrow> chord \<Rightarrow> relay_destination \<Rightarrow> relay_state \<Rightarrow> relay_state" where
  "relay_begin i c d st =
     (let st1 = (case map_of (active st) i of
            None \<Rightarrow> st
          | Some previous \<Rightarrow>
              (let st0 = st\<lparr>active := AList.delete i (active st)\<rparr>
               in if poster st0
                  then st0\<lparr>system := post_up (g_chord previous) (g_destination previous) (system st0)\<rparr>
                  else st0));
          st2 = (if poster st1 then st1\<lparr>system := post_down c False d (system st1)\<rparr> else st1)
      in st2\<lparr>active := AList.update i \<lparr>g_chord = c, g_destination = d\<rparr> (active st2)\<rparr>)"

definition relay_repeat :: "string \<Rightarrow> relay_state \<Rightarrow> bool \<times> relay_state" where
  "relay_repeat i st =
     (case map_of (active st) i of
        None \<Rightarrow> (False, st)
      | Some g \<Rightarrow>
          (True, if poster st
                 then st\<lparr>system := post_down (g_chord g) True (g_destination g) (system st)\<rparr> else st))"

definition relay_end :: "string \<Rightarrow> relay_state \<Rightarrow> bool \<times> relay_state" where
  "relay_end i st =
     (case map_of (active st) i of
        None \<Rightarrow> (False, st)
      | Some g \<Rightarrow>
          (let st1 = st\<lparr>active := AList.delete i (active st)\<rparr>
           in (True, if poster st1
                     then st1\<lparr>system := post_up (g_chord g) (g_destination g) (system st1)\<rparr> else st1)))"

definition relay_release_all ::
  "((string \<times> active_gesture) list \<Rightarrow> (string \<times> active_gesture) list) \<Rightarrow> relay_state \<Rightarrow> relay_state" where
  "relay_release_all ord st =
     (if poster st
      then st\<lparr>active := [],
              system := fold (\<lambda>(i, g). post_up (g_chord g) (g_destination g)) (ord (active st)) (system st)\<rparr>
      else st\<lparr>active := []\<rparr>)"

definition relay_new :: "bool \<Rightarrow> (nat \<Rightarrow> relay_error option) \<Rightarrow> relay_state" where
  "relay_new enabled oracle =
     \<lparr>active = [], poster = enabled, system = \<lparr>posts = [], built = 0, build_error = oracle\<rparr>\<rparr>"

subsection \<open>Balance\<close>

text \<open>
  What each side of a gesture posts, as a multiset of keycode and destination;
  autorepeats press nothing new.
\<close>

definition pressed :: "posted list \<Rightarrow> (16 word \<times> relay_destination) multiset" where
  "pressed ps = mset (map (\<lambda>p. (p_keycode p, p_dest p)) (filter (\<lambda>p. p_down p \<and> \<not> p_autorepeat p) ps))"

definition released :: "posted list \<Rightarrow> (16 word \<times> relay_destination) multiset" where
  "released ps = mset (map (\<lambda>p. (p_keycode p, p_dest p)) (filter (\<lambda>p. \<not> p_down p) ps))"

lemma pressed_released_append [simp]:
  "pressed (ps @ qs) = pressed ps + pressed qs" "released (ps @ qs) = released ps + released qs"
  "pressed [] = {#}" "released [] = {#}"
  by (simp_all add: pressed_def released_def)

definition gesture_codes :: "active_gesture \<Rightarrow> (16 word \<times> relay_destination) multiset" where
  "gesture_codes g = add_mset (key_code (chord_key (g_chord g)), g_destination g)
     (if g_destination g = Hid
      then image_mset (\<lambda>k. (k, Hid)) (mset (mod_keycodes (modifiers (g_chord g)))) else {#})"

lemma gesture_codes_eta [simp]:
  "gesture_codes \<lparr>g_chord = g_chord g, g_destination = g_destination g\<rparr> = gesture_codes g"
  by (simp add: gesture_codes_def)

definition reliable :: "relay_system \<Rightarrow> bool" where
  "reliable sys \<longleftrightarrow> build_error sys = (\<lambda>_. None)"

lemma post_codes_reliable:
  assumes "reliable sys"
  shows "reliable (snd (post_codes codes down d sys))
    \<and> pressed (posts (snd (post_codes codes down d sys)))
        = pressed (posts sys) + (if down then image_mset (\<lambda>k. (k, d)) (mset codes) else {#})
    \<and> released (posts (snd (post_codes codes down d sys)))
        = released (posts sys) + (if down then {#} else image_mset (\<lambda>k. (k, d)) (mset codes))"
  using assms
proof (induction codes arbitrary: sys)
  case (Cons code codes)
  define sys' where "sys' = snd (post_codes [code] down d sys)"
  have step: "snd (post_codes (code # codes) down d sys) = snd (post_codes codes down d sys')"
    using Cons.prems by (simp add: sys'_def build_keycode_event_def reliable_def)
  have "reliable sys'"
      "pressed (posts sys') = pressed (posts sys) + (if down then {#(code, d)#} else {#})"
      "released (posts sys') = released (posts sys) + (if down then {#} else {#(code, d)#})"
    using Cons.prems
    by (simp_all add: sys'_def build_keycode_event_def reliable_def post_event_def Let_def
        pressed_def released_def)
  then show ?case
    using Cons.IH [of sys'] unfolding step by simp
qed simp

lemma poster_down_reliable:
  assumes "reliable sys"
  shows "reliable (snd (poster_post_down c r d sys))
    \<and> pressed (posts (snd (poster_post_down c r d sys)))
        = pressed (posts sys) + (if r then {#} else {#(key_code (chord_key c), d)#})
    \<and> released (posts (snd (poster_post_down c r d sys))) = released (posts sys)"
  using assms
  by (auto simp: poster_post_down_def build_event_def build_keycode_event_def reliable_def
      post_event_def Let_def pressed_def released_def)

lemma poster_up_reliable:
  assumes "reliable sys"
  shows "reliable (snd (poster_post_up c d sys))
    \<and> pressed (posts (snd (poster_post_up c d sys))) = pressed (posts sys)
    \<and> released (posts (snd (poster_post_up c d sys)))
        = released (posts sys) + {#(key_code (chord_key c), d)#}"
  using assms
  by (auto simp: poster_post_up_def build_event_def build_keycode_event_def reliable_def
      post_event_def Let_def pressed_def released_def)

lemma post_down_reliable:
  assumes "reliable sys"
  shows "reliable (post_down c r d sys)"
    "pressed (posts (post_down c r d sys)) = pressed (posts sys)
       + (if r then {#} else gesture_codes \<lparr>g_chord = c, g_destination = d\<rparr>)"
    "released (posts (post_down c r d sys)) = released (posts sys)"
  using post_codes_reliable [OF assms] poster_down_reliable assms
  by (auto simp: post_down_def poster_post_modifiers_def gesture_codes_def Let_def)

lemma post_up_reliable:
  assumes "reliable sys"
  shows "reliable (post_up c d sys)"
    "pressed (posts (post_up c d sys)) = pressed (posts sys)"
    "released (posts (post_up c d sys)) =
       released (posts sys) + gesture_codes \<lparr>g_chord = c, g_destination = d\<rparr>"
  using poster_up_reliable [OF assms, of c d]
    post_codes_reliable [of "snd (poster_post_up c d sys)" "rev (mod_keycodes (modifiers c))" False d]
  by (auto simp: post_up_def poster_post_modifiers_def gesture_codes_def Let_def)

definition pending :: "(string \<times> active_gesture) list \<Rightarrow> (16 word \<times> relay_destination) multiset" where
  "pending al = sum_list (map (\<lambda>e. gesture_codes (snd e)) al)"

lemma pending_simps [simp]:
  "pending [] = {#}" "pending (e # al) = gesture_codes (snd e) + pending al"
  "pending (al @ bl) = pending al + pending bl"
  by (simp_all add: pending_def)

lemma pending_delete:
  "distinct (map fst al) \<Longrightarrow> map_of al i = Some g \<Longrightarrow>
   pending al = gesture_codes g + pending (AList.delete i al)"
  by (induction al) (auto simp: delete_id split: if_splits)

lemma pending_perm: "mset al = mset bl \<Longrightarrow> pending al = pending bl"
proof -
  have "pending xs = sum_mset (image_mset (\<lambda>e. gesture_codes (snd e)) (mset xs))" for xs
    by (simp add: pending_def flip: sum_mset_sum_list)
  then show "mset al = mset bl \<Longrightarrow> pending al = pending bl" by simp
qed

definition relay_inv :: "relay_state \<Rightarrow> bool" where
  "relay_inv st \<longleftrightarrow> poster st \<and> reliable (system st) \<and> distinct (map fst (active st))
     \<and> pressed (posts (system st)) = released (posts (system st)) + pending (active st)"

lemma relay_begin_inv [inv_intro]: "relay_inv st \<Longrightarrow> relay_inv (relay_begin i c d st)"
proof -
  assume inv: "relay_inv st"
  show ?thesis
  proof (cases "map_of (active st) i")
    case None
    have "i \<notin> fst ` set (active st)" using None by (simp add: map_of_eq_None_iff)
    then show ?thesis
      using inv by (simp add: None relay_inv_def relay_begin_def Let_def post_down_reliable update_new)
  next
    case (Some g)
    define al where "al = AList.delete i (active st)"
    have al: "map_of al i = None" "distinct (map fst al)"
      using inv by (simp_all add: al_def relay_inv_def)
    have "pending (active st) = gesture_codes g + pending al"
      using inv Some pending_delete [of "active st" i g] by (simp add: relay_inv_def al_def)
    then show ?thesis
      using inv al(2) map_of_eq_None_iff [of al i] al(1)
      by (simp add: Some al relay_inv_def relay_begin_def Let_def post_down_reliable post_up_reliable
          update_new flip: al_def)
  qed
qed

lemma relay_repeat_inv [inv_intro]: "relay_inv st \<Longrightarrow> relay_inv (snd (relay_repeat i st))"
  by (auto simp: relay_inv_def relay_repeat_def post_down_reliable split: option.splits)

lemma relay_end_inv [inv_intro]: "relay_inv st \<Longrightarrow> relay_inv (snd (relay_end i st))"
  using pending_delete [of "active st" i]
  by (auto simp: relay_inv_def relay_end_def Let_def post_up_reliable split: option.splits)

lemma fold_post_up_reliable:
  "reliable sys \<Longrightarrow>
   reliable (fold (\<lambda>(i, g). post_up (g_chord g) (g_destination g)) al sys)
   \<and> pressed (posts (fold (\<lambda>(i, g). post_up (g_chord g) (g_destination g)) al sys)) = pressed (posts sys)
   \<and> released (posts (fold (\<lambda>(i, g). post_up (g_chord g) (g_destination g)) al sys))
       = released (posts sys) + pending al"
  by (induction al arbitrary: sys) (auto simp: post_up_reliable)

lemma relay_release_all_inv:
  assumes "relay_inv st" and "\<And>xs. mset (ord xs) = mset xs"
  shows "relay_inv (relay_release_all ord st) \<and> active (relay_release_all ord st) = []"
  using assms(1) fold_post_up_reliable [of "system st" "ord (active st)"] pending_perm [OF assms(2)]
  by (auto simp: relay_inv_def relay_release_all_def)

datatype relay_op = R_Begin string chord relay_destination | R_Repeat string | R_End string | R_ReleaseAll

fun relay_step ::
  "((string \<times> active_gesture) list \<Rightarrow> (string \<times> active_gesture) list)
   \<Rightarrow> relay_op \<Rightarrow> relay_state \<Rightarrow> relay_state" where
  "relay_step ord (R_Begin i c d) st = relay_begin i c d st"
| "relay_step ord (R_Repeat i) st = snd (relay_repeat i st)"
| "relay_step ord (R_End i) st = snd (relay_end i st)"
| "relay_step ord R_ReleaseAll st = relay_release_all ord st"

lemma relay_step_inv:
  "relay_inv st \<Longrightarrow> (\<And>xs. mset (ord xs) = mset xs) \<Longrightarrow> relay_inv (relay_step ord opn st)"
  by (cases opn) (auto intro: relay_begin_inv relay_repeat_inv relay_end_inv
      dest: relay_release_all_inv [of st ord])

lemma relay_steps_inv:
  "relay_inv st \<Longrightarrow> (\<And>xs. mset (ord xs) = mset xs) \<Longrightarrow> relay_inv (fold (relay_step ord) ops st)"
  by (induction ops arbitrary: st) (auto intro: relay_step_inv)

lemma relay_inv_new [inv_intro]: "relay_inv (relay_new True (\<lambda>_. None))"
  by (simp add: relay_inv_def relay_new_def reliable_def)

subsection \<open>Tagging\<close>

text \<open>An event carries the marker exactly when it goes through the HID stream, failures or not.\<close>

definition tagged_wf :: "relay_system \<Rightarrow> bool" where
  "tagged_wf sys \<longleftrightarrow> (\<forall>p \<in> set (posts sys). p_tagged p \<longleftrightarrow> p_dest p = Hid)"

lemma build_posts [simp]:
  "build_keycode_event k down sys = (r, sys') \<Longrightarrow> posts sys' = posts sys
    \<and> (\<forall>ev. r = Inr ev \<longrightarrow> \<not> p_tagged ev)"
  "build_event c down rep sys = (r, sys') \<Longrightarrow> posts sys' = posts sys
    \<and> (\<forall>ev. r = Inr ev \<longrightarrow> \<not> p_tagged ev)"
  by (auto simp: build_keycode_event_def build_event_def Let_def
      split: option.splits sum.splits prod.splits if_splits)

lemma post_event_tagged:
  "tagged_wf sys \<Longrightarrow> \<not> p_tagged ev \<Longrightarrow> tagged_wf (post_event ev d sys)"
  by (auto simp: tagged_wf_def post_event_def needs_hotki_tag_def Let_def split: relay_destination.splits)

lemma tagged_wf_posts: "posts sys' = posts sys \<Longrightarrow> tagged_wf sys' = tagged_wf sys"
  by (simp add: tagged_wf_def)

lemma post_codes_tagged: "tagged_wf sys \<Longrightarrow> tagged_wf (snd (post_codes codes down d sys))"
proof (induction codes arbitrary: sys)
  case (Cons code codes)
  obtain r sys' where b: "build_keycode_event code down sys = (r, sys')" by fastforce
  note build_posts(1) [OF b]
  then show ?case
    using Cons b tagged_wf_posts [of sys' sys] by (cases r) (simp_all add: post_event_tagged)
qed simp

lemma poster_tagged:
  "tagged_wf sys \<Longrightarrow> tagged_wf (snd (poster_post_down c r d sys))"
  "tagged_wf sys \<Longrightarrow> tagged_wf (snd (poster_post_up c d sys))"
proof -
  assume wf: "tagged_wf sys"
  have "tagged_wf (snd (case build_event c down rep sys of
        (Inl e, sys') \<Rightarrow> (Err e :: relay_error + unit, sys')
      | (Inr ev, sys') \<Rightarrow> (Ok (), post_event ev d sys')))" for down rep
  proof -
    obtain r sys' where b: "build_event c down rep sys = (r, sys')" by fastforce
    note build_posts(2) [OF b]
    then show ?thesis
      using wf b tagged_wf_posts [of sys' sys] by (cases r) (auto intro: post_event_tagged)
  qed
  then show "tagged_wf (snd (poster_post_down c r d sys))" "tagged_wf (snd (poster_post_up c d sys))"
    by (simp_all add: poster_post_down_def poster_post_up_def)
qed

lemma post_tagged:
  "tagged_wf sys \<Longrightarrow> tagged_wf (post_down c r d sys)"
  "tagged_wf sys \<Longrightarrow> tagged_wf (post_up c d sys)"
  by (auto simp: post_down_def post_up_def poster_post_modifiers_def Let_def
      intro!: poster_tagged post_codes_tagged)

lemma fold_post_up_tagged:
  "tagged_wf sys \<Longrightarrow> tagged_wf (fold (\<lambda>(i, g). post_up (g_chord g) (g_destination g)) al sys)"
  by (induction al arbitrary: sys) (auto intro: post_tagged)

lemma relay_step_tagged: "tagged_wf (system st) \<Longrightarrow> tagged_wf (system (relay_step ord opn st))"
  by (cases opn) (auto simp: relay_begin_def relay_repeat_def relay_end_def relay_release_all_def Let_def
      intro!: post_tagged fold_post_up_tagged split: option.splits)

lemma relay_steps_tagged: "tagged_wf (system st) \<Longrightarrow> tagged_wf (system (fold (relay_step ord) ops st))"
  by (induction ops arbitrary: st) (auto intro: relay_step_tagged)

subsection \<open>Properties\<close>

text \<open>
  C9: as long as CoreGraphics creates the events, every key and modifier pressed
  by a gesture is released once, at the same destination, or still pending for an
  active gesture; after \<open>release_all\<close> nothing is pending.
\<close>

theorem relay_balanced:
  assumes "\<And>xs. mset (ord xs) = mset xs"
  shows "let st = fold (relay_step ord) ops (relay_new True (\<lambda>_. None));
             st' = relay_release_all ord st
    in pressed (posts (system st)) = released (posts (system st)) + pending (active st)
     \<and> pressed (posts (system st')) = released (posts (system st')) \<and> active st' = []"
proof -
  let ?st = "fold (relay_step ord) ops (relay_new True (\<lambda>_. None))"
  have inv: "relay_inv ?st" by (rule relay_steps_inv [OF relay_inv_new assms])
  from relay_release_all_inv [OF inv, of ord, OF assms] inv show ?thesis
    by (simp add: Let_def relay_inv_def)
qed

lemma relay_balanced_witness:
  "let st = relay_release_all rev (relay_begin ''a'' \<lparr>modifiers = {Mod_Shift}, chord_key = Key_A\<rparr> Hid
              (relay_new True (\<lambda>_. None)))
   in pressed (posts (system st)) = released (posts (system st)) \<and> pressed (posts (system st)) \<noteq> {#}"
proof -
  let ?c = "\<lparr>modifiers = {Mod_Shift}, chord_key = Key_A\<rparr>"
  let ?sys = "post_down ?c False Hid (system (relay_new True (\<lambda>_. None)))"
  have sys: "reliable ?sys" "pressed (posts ?sys) \<noteq> {#}"
    using post_down_reliable [of "system (relay_new True (\<lambda>_. None))" ?c False Hid]
    by (auto simp: relay_new_def reliable_def gesture_codes_def)
  have "system (relay_release_all rev (relay_begin ''a'' ?c Hid (relay_new True (\<lambda>_. None))))
      = post_up ?c Hid ?sys"
    by (simp add: relay_begin_def relay_new_def relay_release_all_def Let_def)
  then have "pressed (posts (system (relay_release_all rev (relay_begin ''a'' ?c Hid
      (relay_new True (\<lambda>_. None)))))) \<noteq> {#}"
    using sys post_up_reliable(2) [OF sys(1)] by simp
  then show ?thesis
    using relay_balanced [of rev "[R_Begin ''a'' ?c Hid]"] by (simp add: Let_def)
qed

text \<open>
  whatever fails, relayed events that travel through the HID stream carry the
  marker and those sent to a process do not, and the tap lets every marked event
  pass without touching its state.
\<close>

theorem relay_events_ignored_by_tap:
  shows "let st = fold (relay_step ord) ops (relay_new enabled oracle) in
      (\<forall>p \<in> set (posts (system st)). p_tagged p \<longleftrightarrow> p_dest p = Hid)
      \<and> tap_callback tap_ord pid reenabled elapsed inn (ev\<lparr>cg_user_data := hotk_tag\<rparr>) ts = (Keep, ts)"
  using relay_steps_tagged [of "relay_new enabled oracle" ord ops]
  by (simp add: Let_def tagged_wf_def relay_new_def tap_callback_def)

lemma relay_events_ignored_by_tap_witness:
  "list_all (\<lambda>p. p_tagged p = (p_dest p = Hid))
     (posts (system (fold (relay_step id) [R_Repeat ''a''] (relay_new True (\<lambda>_. None)))))"
  unfolding list_all_iff
  by (rule relay_events_ignored_by_tap [of id "[R_Repeat ''a'']" True "\<lambda>_. None", unfolded Let_def,
    THEN conjunct1])

end
