(* ===== verification/Engine_Error.thy ===== *)
theory Engine_Error
  imports Hotkey_Manager
begin

text \<open>
  The engine's error type (\<open>hotki-engine/src/error.rs\<close>) and its text, with that of
  \<open>mac_hotkey::Error\<close> (\<open>mac-hotkey/src/error.rs\<close>).
\<close>

datatype engine_error =
    Hotkey_Error hotkey_error
  | ChannelClosed
  | Io_Error string
  | Msg_Error string

text \<open>\<open>From<mac_hotkey::Error>\<close>, as applied by \<open>?\<close>.\<close>

definition from_hotkey :: "hotkey_error + 'a \<Rightarrow> engine_error + 'a" where
  "from_hotkey r = (case r of Inl e \<Rightarrow> Err (Hotkey_Error e) | Inr x \<Rightarrow> Ok x)"

primrec hotkey_error_string :: "hotkey_error \<Rightarrow> string" where
  "hotkey_error_string (OsError m) = ''OS error: '' @ m"
| "hotkey_error_string EventTapStart = ''Event tap failed to start''"
| "hotkey_error_string (PermissionDenied m) = ''Permission denied: '' @ m"
| "hotkey_error_string InvalidId = ''Invalid registration id''"

primrec engine_error_string :: "engine_error \<Rightarrow> string" where
  "engine_error_string (Hotkey_Error e) = ''Hotkey manager error: '' @ hotkey_error_string e"
| "engine_error_string ChannelClosed = ''UI channel closed''"
| "engine_error_string (Io_Error m) = ''I/O error: '' @ m"
| "engine_error_string (Msg_Error m) = ''Engine error: '' @ m"

end
