(* ===== verification/Key_Binding.thy ===== *)
theory Key_Binding
  imports Engine_Error
begin

text \<open>
  The engine's binding manager (\<open>hotki-engine/src/key_binding.rs\<close>) over the
  \<open>HotkeyApi\<close> trait (\<open>deps.rs\<close>).  The trait object is a record of its methods over
  the state of the registrar; the drop of a \<open>CaptureGuard\<close> is a method of its own.
  The order in which the hash sets of identifiers are iterated is the parameter
  \<open>ord\<close>.
\<close>

subsection \<open>State and operations\<close>

record ('s, 'e) hotkey_api =
  api_intercept :: "'s \<Rightarrow> chord \<Rightarrow> 32 word \<times> 's"
  api_unregister :: "'s \<Rightarrow> 32 word \<Rightarrow> ('e + unit) \<times> 's"
  api_capture_all :: "'s \<Rightarrow> 's"
  api_capture_drop :: "'s \<Rightarrow> 's"

record binding_registration =
  b_id :: "32 word"
  b_chord :: chord

record 's binding_manager =
  kb_api :: 's
  bindings :: "(string \<times> binding_registration) list"
  idents_by_id :: "32 word \<Rightarrow> string option"
  capture_guard :: bool
  capture_all_active :: bool

definition binding_manager_new :: "'s \<Rightarrow> 's binding_manager" where
  "binding_manager_new s =
     \<lparr>kb_api = s, bindings = [], idents_by_id = Map.empty, capture_guard = False,
      capture_all_active = False\<rparr>"

definition register_binding ::
  "('s, 'e) hotkey_api \<Rightarrow> string \<Rightarrow> chord \<Rightarrow> 's binding_manager \<Rightarrow> 's binding_manager" where
  "register_binding api ident chord m =
     (let (i, s) = api_intercept api (kb_api m) chord
      in m\<lparr>kb_api := s,
           bindings := AList.update ident \<lparr>b_id = i, b_chord = chord\<rparr> (bindings m),
           idents_by_id := (idents_by_id m)(i \<mapsto> ident)\<rparr>)"

definition unregister_binding ::
  "('s, 'e) hotkey_api \<Rightarrow> string \<Rightarrow> 's binding_manager
   \<Rightarrow> ('e + binding_registration option) \<times> 's binding_manager" where
  "unregister_binding api ident m =
     (case map_of (bindings m) ident of
        None \<Rightarrow> (Ok None, m)
      | Some b \<Rightarrow>
          (case api_unregister api (kb_api m) (b_id b) of
             (Inl e, s) \<Rightarrow> (Err e, m\<lparr>kb_api := s\<rparr>)
           | (Inr _, s) \<Rightarrow>
               (Ok (Some b),
                m\<lparr>kb_api := s, bindings := AList.delete ident (bindings m),
                  idents_by_id := (idents_by_id m)(b_id b := None)\<rparr>)))"

fun restore_bindings ::
  "('s, 'e) hotkey_api \<Rightarrow> (string \<times> binding_registration) list \<Rightarrow> 's binding_manager
   \<Rightarrow> 's binding_manager" where
  "restore_bindings api [] m = m"
| "restore_bindings api ((ident, b) # bs) m =
     restore_bindings api bs (register_binding api ident (b_chord b) m)"

text \<open>The unregister loop of \<open>update_bindings\<close>, restoring what it removed on an error.\<close>

fun unregister_loop ::
  "('s, 'e) hotkey_api \<Rightarrow> string list \<Rightarrow> (string \<times> binding_registration) list
   \<Rightarrow> 's binding_manager \<Rightarrow> ('e + unit) \<times> 's binding_manager" where
  "unregister_loop api [] removed m = (Ok (), m)"
| "unregister_loop api (ident # idents) removed m =
     (case unregister_binding api ident m of
        (Inr (Some b), m') \<Rightarrow> unregister_loop api idents (removed @ [(ident, b)]) m'
      | (Inr None, m') \<Rightarrow> unregister_loop api idents removed m'
      | (Inl e, m') \<Rightarrow> (Err e, restore_bindings api removed m'))"

fun register_loop ::
  "('s, 'e) hotkey_api \<Rightarrow> (string \<Rightarrow> chord option) \<Rightarrow> string list \<Rightarrow> 's binding_manager
   \<Rightarrow> 's binding_manager" where
  "register_loop api desired [] m = m"
| "register_loop api desired (ident # idents) m =
     register_loop api desired idents
       (case desired ident of Some c \<Rightarrow> register_binding api ident c m | None \<Rightarrow> m)"

text \<open>\<open>key_pairs.into_iter().collect()\<close>: a later pair replaces an earlier one.\<close>

definition collect_pairs :: "(string \<times> chord) list \<Rightarrow> (string \<times> chord) list" where
  "collect_pairs pairs = fold (\<lambda>(k, c) al. AList.update k c al) pairs []"

definition bindings_match :: "'s binding_manager \<Rightarrow> (string \<times> chord) list \<Rightarrow> bool" where
  "bindings_match m desired \<longleftrightarrow>
     length (bindings m) = length desired
     \<and> list_all (\<lambda>(ident, c). case map_of (bindings m) ident of
          None \<Rightarrow> False | Some b \<Rightarrow> b_chord b = c) desired"

definition update_bindings ::
  "(string list \<Rightarrow> string list) \<Rightarrow> ('s, 'e) hotkey_api \<Rightarrow> (string \<times> chord) list
   \<Rightarrow> 's binding_manager \<Rightarrow> ('e + bool) \<times> 's binding_manager" where
  "update_bindings ord api key_pairs m =
     (let desired = collect_pairs key_pairs in
      if bindings_match m desired then (Ok False, m)
      else
        let current = map fst (bindings m);
            desired_idents = map fst desired;
            replaced_keys = ord (map fst (filter (\<lambda>(ident, c).
               case map_of (bindings m) ident of None \<Rightarrow> False | Some b \<Rightarrow> b_chord b \<noteq> c) desired));
            added_keys = ord (filter (\<lambda>i. i \<notin> set current) desired_idents);
            removed_keys = ord (filter (\<lambda>i. i \<notin> set desired_idents) current)
        in (case unregister_loop api (removed_keys @ replaced_keys) [] m of
              (Inl e, m') \<Rightarrow> (Err e, m')
            | (Inr _, m') \<Rightarrow>
                (Ok True, register_loop api (map_of desired) (added_keys @ replaced_keys) m')))"

definition set_capture_all ::
  "('s, 'e) hotkey_api \<Rightarrow> bool \<Rightarrow> 's binding_manager \<Rightarrow> 's binding_manager" where
  "set_capture_all api active m =
     (let m1 = m\<lparr>capture_all_active := active\<rparr> in
      if active \<and> \<not> capture_guard m1
      then m1\<lparr>kb_api := api_capture_all api (kb_api m1), capture_guard := True\<rparr>
      else if \<not> active \<and> capture_guard m1
      then m1\<lparr>kb_api := api_capture_drop api (kb_api m1), capture_guard := False\<rparr>
      else m1)"

definition resolve_binding_id :: "'s binding_manager \<Rightarrow> 32 word \<Rightarrow> (string \<times> chord) option" where
  "resolve_binding_id m i =
     (case idents_by_id m i of
        None \<Rightarrow> None
      | Some ident \<Rightarrow> map_option (\<lambda>b. (ident, b_chord b)) (map_of (bindings m) ident))"

definition bindings_snapshot :: "'s binding_manager \<Rightarrow> (string \<times> chord) list" where
  "bindings_snapshot m = sort_key fst (map (\<lambda>(ident, b). (ident, b_chord b)) (bindings m))"

definition id_for_ident :: "'s binding_manager \<Rightarrow> string \<Rightarrow> 32 word option" where
  "id_for_ident m ident = map_option b_id (map_of (bindings m) ident)"

definition chord_for_ident :: "'s binding_manager \<Rightarrow> string \<Rightarrow> chord option" where
  "chord_for_ident m ident = map_option b_chord (map_of (bindings m) ident)"

subsection \<open>The bound chords, for any registrar\<close>

lemma chord_for_register [op_simps, simp]:
  "chord_for_ident (register_binding api ident c m) = (chord_for_ident m)(ident \<mapsto> c)"
  by (auto simp: chord_for_ident_def register_binding_def fun_eq_iff split: prod.splits)

lemma chord_for_unregister:
  assumes "unregister_binding api ident m = (r, m')"
  shows "case r of
      Inl e \<Rightarrow> chord_for_ident m' = chord_for_ident m
    | Inr None \<Rightarrow> m' = m \<and> chord_for_ident m ident = None
    | Inr (Some b) \<Rightarrow> chord_for_ident m ident = Some (b_chord b)
        \<and> chord_for_ident m' = (chord_for_ident m)(ident := None)"
  using assms
  by (auto simp: unregister_binding_def chord_for_ident_def fun_eq_iff
      split: option.splits sum.splits prod.splits)

lemma dom_removed_chords:
  "dom (map_of (map (\<lambda>(i, b). (i, b_chord b)) bs)) = set (map fst bs)"
  by (force simp: dom_map_of_conv_image_fst)

lemma chord_for_restore:
  "distinct (map fst bs) \<Longrightarrow>
   chord_for_ident (restore_bindings api bs m) =
     chord_for_ident m ++ map_of (map (\<lambda>(i, b). (i, b_chord b)) bs)"
proof (induction bs arbitrary: m)
  case (Cons e bs)
  obtain i b where e: "e = (i, b)" by fastforce
  have "i \<notin> dom (map_of (map (\<lambda>(i, b). (i, b_chord b)) bs))"
    using Cons.prems e by (simp add: dom_removed_chords)
  then have "(chord_for_ident m)(i \<mapsto> b_chord b) ++ map_of (map (\<lambda>(i, b). (i, b_chord b)) bs)
      = (chord_for_ident m ++ map_of (map (\<lambda>(i, b). (i, b_chord b)) bs))(i \<mapsto> b_chord b)"
    by (rule map_add_upd_left)
  then show ?case
    using Cons.prems e Cons.IH [of "register_binding api i (b_chord b) m"] by (simp del: fun_upd_apply)
qed simp

lemma unregister_loop_chords:
  assumes "distinct (map fst removed @ idents)" and "unregister_loop api idents removed m = (r, m')"
  shows "case r of
      Inl e \<Rightarrow> chord_for_ident m' =
        chord_for_ident m ++ map_of (map (\<lambda>(i, b). (i, b_chord b)) removed)
    | Inr _ \<Rightarrow> chord_for_ident m' = (\<lambda>i. if i \<in> set idents then None else chord_for_ident m i)"
  using assms
proof (induction idents arbitrary: removed m)
  case (Cons ident idents)
  obtain r1 m1 where u: "unregister_binding api ident m = (r1, m1)" by fastforce
  note chords = chord_for_unregister [OF u]
  show ?case
  proof (cases r1)
    case (Inl e)
    then show ?thesis
      using Cons.prems u chords by (auto simp: chord_for_restore)
  next
    case (Inr ob)
    show ?thesis
    proof (cases ob)
      case None
      then show ?thesis
        using Inr u chords Cons.prems Cons.IH [of removed m1]
        by (auto split: sum.splits simp: fun_eq_iff)
    next
      case (Some b)
      let ?old = "map_of (map (\<lambda>(i, b). (i, b_chord b)) removed)"
      have none: "?old ident = None"
        using Cons.prems(1) dom_removed_chords [of removed] by (auto simp: domIff)
      have "chord_for_ident m1 ++ map_of (map (\<lambda>(i, b). (i, b_chord b)) (removed @ [(ident, b)]))
          = chord_for_ident m ++ ?old"
        using chords Inr Some none by (auto simp: fun_eq_iff map_add_def split: option.splits)
      then show ?thesis
        using Inr Some u chords Cons.prems Cons.IH [of "removed @ [(ident, b)]" m1]
        by (auto split: sum.splits simp: fun_eq_iff)
    qed
  qed
qed auto

lemma register_loop_chords:
  "chord_for_ident (register_loop api desired idents m) =
     (\<lambda>i. if i \<in> set idents \<and> desired i \<noteq> None then desired i else chord_for_ident m i)"
  by (induction idents arbitrary: m) (auto simp: fun_eq_iff split: option.splits)

lemma map_of_collect_pairs: "map_of (collect_pairs pairs) = map_of (rev pairs)"
proof -
  have "map_of (fold (\<lambda>(k, c) al. AList.update k c al) ps al) = map_of al ++ map_of (rev ps)" for ps al :: "(string \<times> chord) list"
    by (induction ps arbitrary: al) (auto simp: map_add_upd_left map_add_assoc [symmetric])
  then show ?thesis by (simp add: collect_pairs_def)
qed

lemma distinct_collect_pairs: "distinct (map fst (collect_pairs pairs))"
proof -
  have "distinct (map fst al) \<Longrightarrow> distinct (map fst (fold (\<lambda>(k, c) al. AList.update k c al) ps al))" for ps al :: "(string \<times> chord) list"
    by (induction ps arbitrary: al) auto
  then show ?thesis by (simp add: collect_pairs_def)
qed

lemma bindings_match_iff:
  assumes "distinct (map fst (bindings m))" and "distinct (map fst desired)"
  shows "bindings_match m desired \<longleftrightarrow> chord_for_ident m = map_of desired"
proof
  have sizes: "length al = card (dom (map_of al))" if "distinct (map fst al)" for al :: "(string \<times> 'c) list"
    using that by (metis distinct_card dom_map_of_conv_image_fst length_map list.set_map)
  have dom: "dom (chord_for_ident m) = dom (map_of (bindings m))"
    by (auto simp: chord_for_ident_def)
  {
    assume match: "bindings_match m desired"
    then have sub: "map_of desired \<subseteq>\<^sub>m chord_for_ident m"
      using assms(2) by (fastforce simp: bindings_match_def chord_for_ident_def map_le_def
          list_all_iff split: option.splits)
    have "card (dom (map_of desired)) = card (dom (chord_for_ident m))"
      using match sizes [OF assms(1)] sizes [OF assms(2)] dom by (simp add: bindings_match_def)
    then have "dom (map_of desired) = dom (chord_for_ident m)"
      using sub dom by (metis card_subset_eq finite_dom_map_of map_le_implies_dom_le)
    then show "chord_for_ident m = map_of desired"
      using sub by (metis map_le_antisym map_le_def)
  }
  {
    assume eq: "chord_for_ident m = map_of desired"
    have "length (bindings m) = length desired"
      using sizes [OF assms(1)] sizes [OF assms(2)] dom eq by simp
    moreover have "case map_of (bindings m) i of None \<Rightarrow> False | Some b \<Rightarrow> b_chord b = c"
      if "(i, c) \<in> set desired" for i c
    proof -
      have "chord_for_ident m i = Some c"
        using that eq assms(2) by simp
      then show ?thesis by (auto simp: chord_for_ident_def)
    qed
    ultimately show "bindings_match m desired"
      by (auto simp: bindings_match_def list_all_iff)
  }
qed

lemma update_bindings_chords:
  assumes "\<And>xs. mset (ord xs) = mset xs" and "distinct (map fst (bindings m))"
    and "update_bindings ord api pairs m = (r, m')"
  shows "case r of
      Inl e \<Rightarrow> chord_for_ident m' = chord_for_ident m
    | Inr changed \<Rightarrow> chord_for_ident m' = map_of (rev pairs)
        \<and> (changed \<longleftrightarrow> chord_for_ident m \<noteq> map_of (rev pairs))"
proof (cases "bindings_match m (collect_pairs pairs)")
  case True
  then show ?thesis
    using assms(3) bindings_match_iff [OF assms(2) distinct_collect_pairs]
    by (auto simp: update_bindings_def map_of_collect_pairs)
next
  case False
  let ?desired = "collect_pairs pairs"
  let ?replaced = "ord (map fst (filter (\<lambda>(ident, c).
      case map_of (bindings m) ident of None \<Rightarrow> False | Some b \<Rightarrow> b_chord b \<noteq> c) ?desired))"
  let ?added = "ord (filter (\<lambda>i. i \<notin> set (map fst (bindings m))) (map fst ?desired))"
  let ?removed = "ord (filter (\<lambda>i. i \<notin> set (map fst ?desired)) (map fst (bindings m)))"
  have set_ord: "set (ord xs) = set xs" and dist_ord: "distinct (ord xs) = distinct xs" for xs
    using assms(1) [of xs] by (metis mset_eq_setD, metis mset_eq_imp_distinct_iff)
  have replaced: "i \<in> set ?replaced \<longleftrightarrow>
      (\<exists>b c. map_of (bindings m) i = Some b \<and> map_of ?desired i = Some c \<and> b_chord b \<noteq> c)" for i
    using distinct_collect_pairs [of pairs]
    by (force simp: set_ord image_iff split: option.splits)
  have added: "i \<in> set ?added \<longleftrightarrow> map_of (bindings m) i = None \<and> map_of ?desired i \<noteq> None" for i
    by (auto simp: set_ord map_of_eq_None_iff)
  have removed: "i \<in> set ?removed \<longleftrightarrow> map_of (bindings m) i \<noteq> None \<and> map_of ?desired i = None" for i
    by (auto simp: set_ord map_of_eq_None_iff)
  have "distinct (?removed @ ?replaced)"
    using assms(2) distinct_collect_pairs [of pairs] removed replaced
    by (auto simp: dist_ord distinct_map_filter)
  then have dist: "distinct (map fst ([] :: (string \<times> binding_registration) list) @ (?removed @ ?replaced))"
    by simp
  obtain r1 m1 where loop: "unregister_loop api (?removed @ ?replaced) [] m = (r1, m1)" by fastforce
  note chords = unregister_loop_chords [OF dist loop]
  have ne: "chord_for_ident m \<noteq> map_of ?desired"
    using False bindings_match_iff [OF assms(2) distinct_collect_pairs] by simp
  show ?thesis
  proof (cases r1)
    case (Inl e)
    then show ?thesis
      using assms(3) False loop chords by (auto simp: update_bindings_def Let_def)
  next
    case (Inr u)
    then have r: "r = Ok True" "m' = register_loop api (map_of ?desired) (?added @ ?replaced) m1"
      using assms(3) False loop by (auto simp: update_bindings_def Let_def)
    have "chord_for_ident m' i = map_of ?desired i" for i
    proof -
      have m1: "chord_for_ident m1 i =
          (if i \<in> set ?removed \<or> i \<in> set ?replaced then None else chord_for_ident m i)"
        using chords Inr by simp
      have old: "chord_for_ident m i = map_option b_chord (map_of (bindings m) i)"
        by (simp add: chord_for_ident_def)
      show ?thesis
        unfolding r(2) register_loop_chords m1 old set_append Un_iff added removed replaced
        by (cases "map_of (bindings m) i"; cases "map_of ?desired i") simp_all
    qed
    then show ?thesis
      using r(1) ne by (auto simp: map_of_collect_pairs)
  qed
qed

text \<open>Identifiers stay distinct.\<close>

lemma register_binding_distinct [simp]:
  "distinct (map fst (bindings m)) \<Longrightarrow> distinct (map fst (bindings (register_binding api i c m)))"
  by (simp add: register_binding_def distinct_update split: prod.splits)

lemma unregister_binding_distinct:
  "unregister_binding api i m = (r, m') \<Longrightarrow> distinct (map fst (bindings m))
   \<Longrightarrow> distinct (map fst (bindings m'))"
  by (auto simp: unregister_binding_def distinct_delete split: option.splits prod.splits sum.splits)

lemma restore_bindings_distinct:
  "distinct (map fst (bindings m)) \<Longrightarrow> distinct (map fst (bindings (restore_bindings api bs m)))"
  by (induction api bs m rule: restore_bindings.induct) auto

lemma unregister_loop_distinct:
  "unregister_loop api is rem m = (r, m') \<Longrightarrow> distinct (map fst (bindings m))
   \<Longrightarrow> distinct (map fst (bindings m'))"
proof (induction "is" arbitrary: rem m)
  case (Cons i "is")
  obtain r1 m1 where u: "unregister_binding api i m = (r1, m1)" by fastforce
  from unregister_binding_distinct [OF u Cons.prems(2)] Cons.IH [of _ m1] Cons.prems(1) u
  show ?case by (auto split: sum.splits option.splits intro: restore_bindings_distinct)
qed simp

lemma register_loop_distinct:
  "distinct (map fst (bindings m)) \<Longrightarrow> distinct (map fst (bindings (register_loop api d is m)))"
  by (induction api d "is" m rule: register_loop.induct) (auto split: option.split)

lemma update_bindings_distinct:
  "update_bindings ord api pairs m = (r, m') \<Longrightarrow> distinct (map fst (bindings m))
   \<Longrightarrow> distinct (map fst (bindings m'))"
  by (auto simp: update_bindings_def Let_def split: if_splits prod.splits sum.splits
      dest: unregister_loop_distinct intro!: register_loop_distinct)

text \<open>An update of the bindings leaves the capture as it is.\<close>

definition capture_of :: "'s binding_manager \<Rightarrow> bool \<times> bool" where
  "capture_of m = (capture_guard m, capture_all_active m)"

lemma register_binding_capture [simp]: "capture_of (register_binding api i c m) = capture_of m"
  by (simp add: register_binding_def capture_of_def split: prod.split)

lemma restore_bindings_capture [simp]: "capture_of (restore_bindings api bs m) = capture_of m"
  by (induction api bs m rule: restore_bindings.induct) simp_all

lemma unregister_binding_capture: "unregister_binding api i m = (r, m') \<Longrightarrow> capture_of m' = capture_of m"
  by (auto simp: unregister_binding_def capture_of_def split: option.splits prod.splits sum.splits)

lemma unregister_loop_capture: "unregister_loop api is rem m = (r, m') \<Longrightarrow> capture_of m' = capture_of m"
proof (induction "is" arbitrary: rem m)
  case (Cons i "is")
  obtain r1 m1 where u: "unregister_binding api i m = (r1, m1)" by fastforce
  from unregister_binding_capture [OF u] Cons u show ?case
    by (auto split: sum.splits option.splits)
qed simp

lemma register_loop_capture [simp]: "capture_of (register_loop api d is m) = capture_of m"
  by (induction api d "is" m rule: register_loop.induct) (auto split: option.split)

lemma update_bindings_capture: "update_bindings ord api pairs m = (r, m') \<Longrightarrow> capture_of m' = capture_of m"
  by (auto simp: update_bindings_def Let_def split: if_splits prod.splits sum.splits
      dest: unregister_loop_capture)

subsection \<open>The registrar interface\<close>

text \<open>
  What the binding manager relies on: the live registrations \<open>live s\<close> by id and the
  number \<open>room s\<close> of ids still free.  Under these laws no unregistration of a
  binding fails and ids and identifiers stay in one-to-one correspondence.
\<close>

definition bindings_wf :: "('s \<Rightarrow> 32 word \<Rightarrow> chord option) \<Rightarrow> 's binding_manager \<Rightarrow> bool" where
  "bindings_wf live m \<longleftrightarrow>
     distinct (map fst (bindings m))
     \<and> (\<forall>ident b. map_of (bindings m) ident = Some b \<longrightarrow>
          live (kb_api m) (b_id b) = Some (b_chord b) \<and> idents_by_id m (b_id b) = Some ident)
     \<and> (\<forall>i ident. idents_by_id m i = Some ident \<longrightarrow>
          (\<exists>b. map_of (bindings m) ident = Some b \<and> b_id b = i))"

lemma bindings_wfD:
  assumes "bindings_wf live m"
  shows "distinct (map fst (bindings m))"
    "map_of (bindings m) ident = Some b \<Longrightarrow> live (kb_api m) (b_id b) = Some (b_chord b)"
    "map_of (bindings m) ident = Some b \<Longrightarrow> idents_by_id m (b_id b) = Some ident"
    "idents_by_id m i = Some ident \<Longrightarrow> \<exists>b. map_of (bindings m) ident = Some b \<and> b_id b = i"
  using assms by (auto simp: bindings_wf_def)

lemma resolve_bindings_wf:
  "bindings_wf live m \<Longrightarrow>
   resolve_binding_id m i = Some (ident, c) \<longleftrightarrow> map_of (bindings m) ident = Some \<lparr>b_id = i, b_chord = c\<rparr>"
proof -
  assume wf: "bindings_wf live m"
  have res: "resolve_binding_id m i = Some (ident, c) \<longleftrightarrow>
      idents_by_id m i = Some ident \<and> map_option b_chord (map_of (bindings m) ident) = Some c"
    by (auto simp: resolve_binding_id_def split: option.splits)
  show ?thesis
  proof (cases "map_of (bindings m) ident")
    case None
    then show ?thesis unfolding res by simp
  next
    case (Some b)
    have "idents_by_id m i = Some ident \<longleftrightarrow> b_id b = i"
      using bindings_wfD(3) [OF wf Some] bindings_wfD(4) [OF wf, of i ident] Some by auto
    then show ?thesis
      unfolding res Some by (cases b) simp
  qed
qed

locale hotkey_registrar =
  fixes api :: "('s, 'e) hotkey_api"
    and wf :: "'s \<Rightarrow> bool"
    and live :: "'s \<Rightarrow> 32 word \<Rightarrow> chord option"
    and room :: "'s \<Rightarrow> nat"
  assumes intercept_law: "wf s \<Longrightarrow> 0 < room s \<Longrightarrow> api_intercept api s c = (i, s') \<Longrightarrow>
      wf s' \<and> live s i = None \<and> live s' = (live s)(i \<mapsto> c) \<and> Suc (room s') = room s"
    and unregister_law: "wf s \<Longrightarrow> live s i = Some c \<Longrightarrow> api_unregister api s i = (r, s') \<Longrightarrow>
      r = Ok () \<and> wf s' \<and> live s' = (live s)(i := None) \<and> room s' = Suc (room s)"
begin

definition inv :: "'s binding_manager \<Rightarrow> bool" where
  "inv m \<longleftrightarrow> wf (kb_api m) \<and> bindings_wf live m"

lemma register_inv:
  assumes "inv m" "map_of (bindings m) ident = None" "0 < room (kb_api m)"
  shows "inv (register_binding api ident c m)"
    "Suc (room (kb_api (register_binding api ident c m))) = room (kb_api m)"
proof -
  obtain i s where s: "api_intercept api (kb_api m) c = (i, s)" by fastforce
  note law = intercept_law [OF _ assms(3) s]
  note wf = bindings_wfD [OF assms(1) [unfolded inv_def, THEN conjunct2]]
  have fresh: "idents_by_id m i = None"
  proof (rule ccontr)
    assume "idents_by_id m i \<noteq> None"
    then obtain j where "idents_by_id m i = Some j" by blast
    with wf(4) obtain b where "map_of (bindings m) j = Some b" "b_id b = i" by blast
    with wf(2) law assms(1) show False by (force simp: inv_def)
  qed
  have unbound: "idents_by_id m j \<noteq> Some ident" for j
    using wf(4) [of j ident] assms(2) by auto
  have "b_id b \<noteq> i" if "map_of (bindings m) j = Some b" for j b
    using wf(3) [OF that] fresh by auto
  then show "inv (register_binding api ident c m)"
    using assms(1, 2) law s fresh unbound
    by (auto simp: inv_def bindings_wf_def register_binding_def)
  show "Suc (room (kb_api (register_binding api ident c m))) = room (kb_api m)"
    using law s assms(1) by (simp add: register_binding_def inv_def)
qed

lemma unregister_inv:
  assumes "inv m" and "unregister_binding api ident m = (r, m')"
  shows "inv m'" "r = Ok (map_of (bindings m) ident)"
    "map_of (bindings m') = (map_of (bindings m))(ident := None)" "room (kb_api m) \<le> room (kb_api m')"
proof -
  note wf = bindings_wfD [OF assms(1) [unfolded inv_def, THEN conjunct2]]
  have "inv m' \<and> r = Ok (map_of (bindings m) ident)
      \<and> map_of (bindings m') = (map_of (bindings m))(ident := None)
      \<and> room (kb_api m) \<le> room (kb_api m')"
  proof (cases "map_of (bindings m) ident")
    case None
    then show ?thesis
      using assms by (auto simp: unregister_binding_def)
  next
    case (Some b)
    obtain r1 s where s: "api_unregister api (kb_api m) (b_id b) = (r1, s)" by fastforce
    note law = unregister_law [OF _ wf(2) [OF Some] s]
    have other: "b_id b' \<noteq> b_id b" if "map_of (bindings m) j = Some b'" "j \<noteq> ident" for j b'
      using wf(3) [OF Some] wf(3) [OF that(1)] that(2) by auto
    have "m' = m\<lparr>kb_api := s, bindings := AList.delete ident (bindings m),
        idents_by_id := (idents_by_id m)(b_id b := None)\<rparr>" "r = Ok (Some b)"
      using assms law s Some by (auto simp: unregister_binding_def inv_def)
    moreover have "bindings_wf live (m\<lparr>kb_api := s, bindings := AList.delete ident (bindings m),
        idents_by_id := (idents_by_id m)(b_id b := None)\<rparr>)"
      unfolding bindings_wf_def
    proof (intro conjI allI impI)
      fix i j assume "idents_by_id (m\<lparr>kb_api := s, bindings := AList.delete ident (bindings m),
        idents_by_id := (idents_by_id m)(b_id b := None)\<rparr>) i = Some j"
      then have i: "idents_by_id m i = Some j" "i \<noteq> b_id b" by (auto split: if_splits)
      from wf(4) [OF i(1)] obtain b' where "map_of (bindings m) j = Some b'" "b_id b' = i" by blast
      moreover from this i(2) Some have "j \<noteq> ident" by auto
      ultimately show "\<exists>b'. map_of (bindings (m\<lparr>kb_api := s, bindings := AList.delete ident (bindings m),
        idents_by_id := (idents_by_id m)(b_id b := None)\<rparr>)) j = Some b' \<and> b_id b' = i"
        by simp
    qed (use assms(1) law wf other in \<open>auto simp: inv_def split: if_splits\<close>)
    ultimately show ?thesis
      using assms(1) law Some by (simp add: inv_def)
  qed
  then show "inv m'" "r = Ok (map_of (bindings m) ident)"
    "map_of (bindings m') = (map_of (bindings m))(ident := None)" "room (kb_api m) \<le> room (kb_api m')"
    by blast+
qed

lemma unregister_loop_inv:
  assumes "inv m" and "unregister_loop api idents removed m = (r, m')"
  shows "inv m' \<and> r = Ok () \<and> room (kb_api m) \<le> room (kb_api m')
    \<and> map_of (bindings m') = (\<lambda>i. if i \<in> set idents then None else map_of (bindings m) i)"
  using assms
proof (induction idents arbitrary: removed m)
  case (Cons ident idents)
  obtain r1 m1 where u: "unregister_binding api ident m = (r1, m1)" by fastforce
  note step = unregister_inv [OF Cons.prems(1) u]
  obtain removed1 where "unregister_loop api idents removed1 m1 = (r, m')"
    using Cons.prems(2) u step(2) by (cases "map_of (bindings m) ident") auto
  from Cons.IH [OF step(1) this] step show ?case by (auto simp: fun_eq_iff)
qed auto

lemma register_loop_inv:
  assumes "inv m" "distinct idents" "\<And>i. i \<in> set idents \<Longrightarrow> map_of (bindings m) i = None"
    and "length idents \<le> room (kb_api m)"
  shows "inv (register_loop api desired idents m)
    \<and> (\<forall>i. i \<notin> set idents \<longrightarrow>
         map_of (bindings (register_loop api desired idents m)) i = map_of (bindings m) i)"
  using assms
proof (induction idents arbitrary: m)
  case (Cons ident idents)
  have other: "map_of (bindings (register_binding api ident c m)) i = map_of (bindings m) i"
    if "i \<noteq> ident" for i c
    using that by (simp add: register_binding_def split: prod.splits)
  show ?case
  proof (cases "desired ident")
    case None
    then show ?thesis using Cons.prems Cons.IH [of m] by auto
  next
    case (Some c)
    have none: "map_of (bindings m) ident = None" and room: "0 < room (kb_api m)"
      using Cons.prems(3, 4) by auto
    note step = register_inv [OF Cons.prems(1) none room, where c = c]
    have "inv (register_loop api desired idents (register_binding api ident c m))
      \<and> (\<forall>i. i \<notin> set idents \<longrightarrow>
         map_of (bindings (register_loop api desired idents (register_binding api ident c m))) i
           = map_of (bindings (register_binding api ident c m)) i)"
    proof (rule Cons.IH [OF step(1)])
      show "map_of (bindings (register_binding api ident c m)) i = None" if "i \<in> set idents" for i
        using that Cons.prems(2, 3) other [of i] by (cases "i = ident") auto
    qed (use Cons.prems(2, 4) step(2) in auto)
    then show ?thesis
      using Some other by auto
  qed
qed simp

lemma update_bindings_inv:
  assumes "inv m" "\<And>xs. mset (ord xs) = mset xs" "length (collect_pairs pairs) \<le> room (kb_api m)"
    and "update_bindings ord api pairs m = (r, m')"
  shows "inv m' \<and> r = Ok (chord_for_ident m \<noteq> map_of (rev pairs))
    \<and> (\<forall>i b. map_of (bindings m) i = Some b \<longrightarrow> map_of (rev pairs) i = Some (b_chord b) \<longrightarrow>
          map_of (bindings m') i = Some b)"
proof -
  let ?desired = "collect_pairs pairs"
  let ?replaced = "ord (map fst (filter (\<lambda>(ident, c).
      case map_of (bindings m) ident of None \<Rightarrow> False | Some b \<Rightarrow> b_chord b \<noteq> c) ?desired))"
  let ?added = "ord (filter (\<lambda>i. i \<notin> set (map fst (bindings m))) (map fst ?desired))"
  let ?removed = "ord (filter (\<lambda>i. i \<notin> set (map fst ?desired)) (map fst (bindings m)))"
  note wf = bindings_wfD [OF assms(1) [unfolded inv_def, THEN conjunct2]]
  note chords = update_bindings_chords [OF assms(2) wf(1) assms(4)]
  note match = bindings_match_iff [OF wf(1) distinct_collect_pairs [of pairs]]
  show ?thesis
  proof (cases "bindings_match m ?desired")
    case True
    then show ?thesis
      using assms(1, 4) match by (auto simp: update_bindings_def map_of_collect_pairs)
  next
    case False
    have set_ord: "set (ord xs) = set xs" and dist_ord: "distinct (ord xs) = distinct xs"
      and len_ord: "length (ord xs) = length xs" for xs
      using assms(2) [of xs]
      by (metis mset_eq_setD, metis mset_eq_imp_distinct_iff, metis size_mset)
    have repl: "set ?replaced \<subseteq> set (map fst ?desired) \<inter> set (map fst (bindings m))"
      by (force simp: set_ord map_of_eq_None_iff split: option.splits dest: map_of_SomeD)
    have addd: "set ?added = set (map fst ?desired) - set (map fst (bindings m))"
      by (auto simp: set_ord)
    have dist: "distinct (?added @ ?replaced)"
      using repl addd distinct_collect_pairs [of pairs] by (auto simp: dist_ord distinct_map_filter)
    have "set (?added @ ?replaced) \<subseteq> set (map fst ?desired)"
      using repl addd by auto
    then have "card (set (?added @ ?replaced)) \<le> card (set (map fst ?desired))"
      by (rule card_mono [OF List.finite_set])
    then have "length (?added @ ?replaced) \<le> length ?desired"
      unfolding distinct_card [OF dist] distinct_card [OF distinct_collect_pairs] length_map .
    then have room: "length (?added @ ?replaced) \<le> room (kb_api m)"
      using assms(3) by linarith
    obtain r1 m1 where loop: "unregister_loop api (?removed @ ?replaced) [] m = (r1, m1)" by fastforce
    note un = unregister_loop_inv [OF assms(1) loop]
    have m': "m' = register_loop api (map_of ?desired) (?added @ ?replaced) m1" and r: "r = Ok True"
      using assms(4) False loop un by (auto simp: update_bindings_def Let_def)
    have none: "map_of (bindings m1) i = None" if i: "i \<in> set (?added @ ?replaced)" for i
    proof (cases "i \<in> set ?replaced")
      case False
      then have "i \<notin> set (map fst (bindings m))" using i addd by auto
      then show ?thesis using un by (simp add: map_of_eq_None_iff)
    qed (use un in simp)
    have "room (kb_api m) \<le> room (kb_api m1)" using un by blast
    then have room1: "length (?added @ ?replaced) \<le> room (kb_api m1)" using room by (rule le_trans [rotated])
    have "inv m' \<and> (\<forall>i. i \<notin> set (?added @ ?replaced) \<longrightarrow>
        map_of (bindings m') i = map_of (bindings m1) i)"
      unfolding m' by (rule register_loop_inv [OF un [THEN conjunct1] dist none room1])
    moreover have "i \<notin> set (?added @ ?replaced) \<and> map_of (bindings m1) i = Some b"
      if "map_of (bindings m) i = Some b" "map_of (rev pairs) i = Some (b_chord b)" for i b
    proof -
      have d: "map_of ?desired i = Some (b_chord b)"
        using that(2) by (simp add: map_of_collect_pairs)
      have "i \<notin> set ?replaced"
      proof
        assume "i \<in> set ?replaced"
        then obtain c where c: "(i, c) \<in> set ?desired"
          "case map_of (bindings m) i of None \<Rightarrow> False | Some b \<Rightarrow> b_chord b \<noteq> c"
          by (auto simp: set_ord)
        from c(1) have "map_of ?desired i = Some c"
          by (rule map_of_is_SomeI [OF distinct_collect_pairs])
        with c(2) d show False unfolding that(1) option.case by simp
      qed
      moreover have "i \<notin> set ?added"
        using map_of_SomeD [OF that(1)] unfolding addd by force
      moreover have "i \<notin> set ?removed"
        using map_of_SomeD [OF d] unfolding set_ord by force
      ultimately show ?thesis using un that(1) by auto
    qed
    ultimately show ?thesis
      using r False match by (auto simp: map_of_collect_pairs)
  qed
qed

end

subsection \<open>The registrar of \<open>mac-hotkey\<close>\<close>

text \<open>
  \<open>RealHotkeyApi\<close>: the methods of \<open>mac_hotkey::Manager\<close>.  The id loop of
  \<open>intercept\<close> returns whenever there is room; \<open>the\<close> takes its result.
\<close>

definition real_hotkey_api :: "(inner, engine_error) hotkey_api" where
  "real_hotkey_api =
     \<lparr>api_intercept = (\<lambda>inn c. the (manager_intercept inn c)),
      api_unregister = (\<lambda>inn i. let (r, inn') = manager_unregister inn i in (from_hotkey r, inn')),
      api_capture_all = manager_capture_all,
      api_capture_drop = capture_guard_drop\<rparr>"

definition live_chords :: "inner \<Rightarrow> 32 word \<Rightarrow> chord option" where
  "live_chords inn i = map_option reg_hotkey (map_of (regs inn) i)"

definition free_ids :: "inner \<Rightarrow> nat" where
  "free_ids inn = 2 ^ 32 - 1 - length (regs inn)"

interpretation real: hotkey_registrar real_hotkey_api regs_wf live_chords free_ids
proof
  fix s s' c i
  assume wf: "regs_wf s" and room: "0 < free_ids s"
    and step: "api_intercept real_hotkey_api s c = (i, s')"
  from room have "length (regs s) < 2 ^ 32 - 1" by (simp add: free_ids_def)
  then obtain j t where reg: "inner_register s c True = Some (j, t)"
    using inner_register_free by blast
  with step have "j = i" "t = s'" by (simp_all add: real_hotkey_api_def manager_intercept_def)
  with inner_register_SomeD [OF reg] wf room
  show "regs_wf s' \<and> live_chords s i = None \<and> live_chords s' = (live_chords s)(i \<mapsto> c)
      \<and> Suc (free_ids s') = free_ids s"
    by (auto simp: live_chords_def free_ids_def fun_eq_iff)
next
  fix s s' c i r
  assume wf: "regs_wf s" and live: "live_chords s i = Some c"
    and step: "api_unregister real_hotkey_api s i = (r, s')"
  from live have some: "map_of (regs s) i \<noteq> None" by (auto simp: live_chords_def)
  with step have s': "r = Ok ()" "s' = s\<lparr>regs := AList.delete i (regs s)\<rparr>"
    by (auto simp: real_hotkey_api_def manager_unregister_def inner_unregister_def from_hotkey_def)
  have "card (fst ` set (regs s)) \<le> card (UNIV - {0 :: 32 word})"
    using wf by (intro card_mono) (auto simp: regs_wf_def)
  moreover have "card (fst ` set (regs s)) = length (regs s)"
    using wf by (metis distinct_card length_map list.set_map regs_wfD(1))
  ultimately have "length (regs s) \<le> 2 ^ 32 - 1"
    by (simp add: card_Diff_singleton card_word)
  moreover have "Suc (length (AList.delete i (regs s))) = length (regs s)"
    using length_delete_member [OF regs_wfD(1) [OF wf] some] .
  moreover have "regs_wf s'"
    using manager_unregister_wf [OF wf, of i] step by (auto simp: real_hotkey_api_def split: prod.splits)
  ultimately show "r = Ok () \<and> regs_wf s' \<and> live_chords s' = (live_chords s)(i := None)
      \<and> free_ids s' = Suc (free_ids s)"
    by (auto simp: s' live_chords_def free_ids_def fun_eq_iff)
qed

subsection \<open>Properties\<close>

text \<open>
  C3: over any registrar, a successful update leaves exactly the wanted chord at
  every identifier (the last pair given for it) and reports whether anything
  changed; a failed update leaves the bound chords as they were.
\<close>

theorem update_bindings_transactional:
  assumes "\<And>xs. mset (ord xs) = mset xs" and "distinct (map fst (bindings m))"
    and "update_bindings ord api pairs m = (r, m')"
  shows "case r of
      Inl e \<Rightarrow> chord_for_ident m' = chord_for_ident m
    | Inr changed \<Rightarrow> chord_for_ident m' = map_of (rev pairs)
        \<and> (changed \<longleftrightarrow> chord_for_ident m \<noteq> map_of (rev pairs))"
  by (rule update_bindings_chords [OF assms])

lemma update_bindings_transactional_witness:
  "let c = \<lparr>modifiers = {Mod_Command}, chord_key = Key_A\<rparr>;
       api = \<lparr>api_intercept = \<lambda>s d. (s, s + 1), api_unregister = \<lambda>s i. (Err (), s),
              api_capture_all = id, api_capture_drop = id\<rparr>;
       m = register_binding api ''cmd+a'' c (binding_manager_new (1 :: 32 word));
       (r, m') = update_bindings rev api [] m
   in r = Err () \<and> chord_for_ident m' = chord_for_ident m"
proof -
  let ?c = "\<lparr>modifiers = {Mod_Command}, chord_key = Key_A\<rparr>"
  let ?api = "\<lparr>api_intercept = \<lambda>s d. (s, s + 1), api_unregister = \<lambda>s i. (Err (), s),
              api_capture_all = id, api_capture_drop = id\<rparr> :: (32 word, unit) hotkey_api"
  let ?m = "register_binding ?api ''cmd+a'' ?c (binding_manager_new 1)"
  obtain r m' where u: "update_bindings rev ?api [] ?m = (r, m')" by fastforce
  have d: "distinct (map fst (bindings ?m))"
    by (simp add: register_binding_def binding_manager_new_def)
  have "r = Err ()"
    using u by (simp add: update_bindings_def collect_pairs_def bindings_match_def register_binding_def
        binding_manager_new_def unregister_binding_def)
  with update_bindings_transactional [OF _ d u] u show ?thesis by (simp add: Let_def)
qed



end
