(* ===== verification/Ui_Channel.thy ===== *)
theory Ui_Channel
  imports Protocol_Types Engine_Error
begin

text \<open>
  The notification dispatcher (\<open>hotki-engine/src/notification.rs\<close>) over a bounded
  tokio channel.  The channel keeps every message ever sent, in order, and how
  many of them the UI has not received yet; \<open>try_send\<close> and \<open>try_reserve\<close> fail when
  the channel is full or closed, \<open>send\<close> waits for room.
\<close>

record ui_channel =
  sent :: "msg_to_ui list"
  unread :: nat
  capacity :: nat
  closed :: bool

definition has_room :: "ui_channel \<Rightarrow> bool" where
  "has_room ch \<longleftrightarrow> \<not> closed ch \<and> unread ch < capacity ch"

definition chan_push :: "msg_to_ui \<Rightarrow> ui_channel \<Rightarrow> ui_channel" where
  "chan_push m ch = ch\<lparr>sent := sent ch @ [m], unread := Suc (unread ch)\<rparr>"

definition try_send_ui :: "msg_to_ui \<Rightarrow> ui_channel \<Rightarrow> (engine_error + unit) \<times> ui_channel" where
  "try_send_ui m ch = (if has_room ch then (Ok (), chan_push m ch) else (Err ChannelClosed, ch))"

text \<open>A permit of \<open>reserve_ui\<close> is used by \<open>chan_push\<close> or dropped.\<close>

definition reserve_ui :: "ui_channel \<Rightarrow> engine_error + unit" where
  "reserve_ui ch = (if has_room ch then Ok () else Err ChannelClosed)"

text \<open>While \<open>send\<close> waits on a full channel the UI receives at least one message.\<close>

definition send_ui :: "msg_to_ui \<Rightarrow> ui_channel \<Rightarrow> (engine_error + unit) \<times> ui_channel" where
  "send_ui m ch =
     (if closed ch then (Err ChannelClosed, ch)
      else (Ok (), chan_push m (ch\<lparr>unread := min (unread ch) (capacity ch - 1)\<rparr>)))"

definition send_hud_update ::
  "hud_state \<Rightarrow> displays_snapshot \<Rightarrow> ui_channel \<Rightarrow> (engine_error + unit) \<times> ui_channel" where
  "send_hud_update hud displays ch = try_send_ui (HudUpdate hud displays) ch"

definition send_notification ::
  "notify_kind \<Rightarrow> string \<Rightarrow> string \<Rightarrow> ui_channel \<Rightarrow> (engine_error + unit) \<times> ui_channel" where
  "send_notification kind title body ch = try_send_ui (Notify kind title body) ch"

definition send_error :: "string \<Rightarrow> string \<Rightarrow> ui_channel \<Rightarrow> (engine_error + unit) \<times> ui_channel" where
  "send_error title body ch = send_notification NK_Error title body ch"

subsection \<open>Messages are never lost or reordered\<close>

definition chan_wf :: "ui_channel \<Rightarrow> bool" where
  "chan_wf ch \<longleftrightarrow> 0 < capacity ch \<and> unread ch \<le> capacity ch \<and> unread ch \<le> length (sent ch)"

lemma chan_push_simps [simp]:
  "sent (chan_push m ch) = sent ch @ [m]" "closed (chan_push m ch) = closed ch"
  "capacity (chan_push m ch) = capacity ch" "unread (chan_push m ch) = Suc (unread ch)"
  by (simp_all add: chan_push_def)

lemma try_send_ui_cases:
  "try_send_ui m ch = (r, ch') \<Longrightarrow>
   (r = Ok () \<and> ch' = chan_push m ch \<and> has_room ch) \<or> (r = Err ChannelClosed \<and> ch' = ch \<and> \<not> has_room ch)"
  by (auto simp: try_send_ui_def split: if_splits)

lemma try_send_ui_wf [inv_intro]: "chan_wf ch \<Longrightarrow> chan_wf (snd (try_send_ui m ch))"
  by (auto simp: try_send_ui_def chan_wf_def has_room_def)

lemma send_ui_wf [inv_intro]: "chan_wf ch \<Longrightarrow> chan_wf (snd (send_ui m ch))"
  by (auto simp: send_ui_def chan_wf_def)

lemmas notify_defs = send_error_def send_notification_def send_hud_update_def

end
