(* ===== verification/Process_Run.thy ===== *)
theory Process_Run
  imports Config_Types
begin

text \<open>
  Processes started by actions (\<open>hotki-engine/src/repeater.rs\<close>): process
  specifications, bounded capture of output, the text of notifications, one run of
  a process, and repeat timings.  The operating system is what the run is told
  (\<open>process_env\<close>); lossy UTF-8 decoding is a parameter.
\<close>

subsection \<open>Specifications\<close>

record process_spec =
  ps_program :: string
  ps_args :: "string list"
  ps_cwd :: "string option"
  ps_ok_notify :: notify_kind
  ps_err_notify :: notify_kind
  ps_title :: string

definition process_spec_new ::
  "string \<Rightarrow> string list \<Rightarrow> string option \<Rightarrow> notify_kind \<Rightarrow> notify_kind \<Rightarrow> string \<Rightarrow> process_spec" where
  "process_spec_new program args cwd ok err title =
     \<lparr>ps_program = program, ps_args = args, ps_cwd = cwd, ps_ok_notify = ok, ps_err_notify = err,
      ps_title = title\<rparr>"

text \<open>\<open>shell_var\<close> is the value of the environment variable \<open>SHELL\<close>, if it is readable.\<close>

definition process_spec_shell ::
  "string option \<Rightarrow> string \<Rightarrow> notify_kind \<Rightarrow> notify_kind \<Rightarrow> process_spec" where
  "process_spec_shell shell_var command ok err =
     process_spec_new (case shell_var of Some s \<Rightarrow> s | None \<Rightarrow> ''/bin/zsh'')
       [''-lc'', command] None ok err ''Shell command''"

datatype process_notify = Configured notify_kind notify_kind | Silent

record process_notification =
  pn_kind :: notify_kind
  pn_title :: string
  pn_text :: string

definition process_failure ::
  "process_spec \<Rightarrow> process_notify \<Rightarrow> string \<Rightarrow> process_notification option" where
  "process_failure spec notify text =
     (case notify of
        Silent \<Rightarrow> None
      | Configured _ kind \<Rightarrow>
          if kind = NK_Ignore then None
          else Some \<lparr>pn_kind = kind, pn_title = ps_title spec, pn_text = text\<rparr>)"

subsection \<open>Bounded output\<close>

record captured_stream =
  cs_bytes :: "8 word list"
  cs_truncated :: bool

definition empty_stream :: captured_stream where
  "empty_stream = \<lparr>cs_bytes = [], cs_truncated = False\<rparr>"

definition process_stream_limit :: nat where
  "process_stream_limit = 64 * 1024 div 2"

text \<open>
  \<open>reads\<close> are the results of successive reads; a read of no bytes, or no further
  read, is the end of the stream.
\<close>

fun read_loop ::
  "(string + 8 word list) list \<Rightarrow> 8 word list \<Rightarrow> bool \<Rightarrow> string + captured_stream" where
  "read_loop [] bytes truncated = Ok \<lparr>cs_bytes = bytes, cs_truncated = truncated\<rparr>"
| "read_loop (Inl e # reads) bytes truncated = Err e"
| "read_loop (Inr chunk # reads) bytes truncated =
     (if chunk = [] then Ok \<lparr>cs_bytes = bytes, cs_truncated = truncated\<rparr>
      else let remaining = process_stream_limit - length bytes;
               retained = min remaining (length chunk)
           in read_loop reads (bytes @ take retained chunk) (truncated \<or> retained < length chunk))"

definition read_bounded :: "(string + 8 word list) list \<Rightarrow> string + captured_stream" where
  "read_bounded reads = read_loop reads [] False"

text \<open>A stream that was not captured, or could not be read, counts as empty.\<close>

definition collect_stream :: "(string + 8 word list) list option \<Rightarrow> captured_stream" where
  "collect_stream task =
     (case task of
        None \<Rightarrow> empty_stream
      | Some reads \<Rightarrow> (case read_bounded reads of Inl _ \<Rightarrow> empty_stream | Inr s \<Rightarrow> s))"

definition is_blank :: "string \<Rightarrow> bool" where
  "is_blank line \<longleftrightarrow> trim line = []"

definition trim_blank_lines :: "string list \<Rightarrow> string list" where
  "trim_blank_lines lines = rev (dropWhile is_blank (rev (dropWhile is_blank lines)))"

definition combine_output :: "string \<Rightarrow> string \<Rightarrow> string" where
  "combine_output out err =
     (if err = [] then out
      else out @ (if out \<noteq> [] \<and> last out \<noteq> newline then [newline] else []) @ err)"

definition trim_process_output ::
  "(8 word list \<Rightarrow> string) \<Rightarrow> captured_stream \<Rightarrow> captured_stream \<Rightarrow> string" where
  "trim_process_output decode stdout stderr =
     (let combined = combine_output (decode (cs_bytes stdout)) (decode (cs_bytes stderr));
          output = join_with [newline] (trim_blank_lines (str_lines combined))
      in if cs_truncated stdout \<or> cs_truncated stderr
         then output @ (if output \<noteq> [] then [newline] else []) @ ''[output truncated]''
         else output)"

subsection \<open>One run\<close>

text \<open>
  A program name without directory: one path component, which is neither empty
  nor one of \<open>.\<close> and \<open>..\<close>.
\<close>

definition is_bare_program :: "string \<Rightarrow> bool" where
  "is_bare_program program \<longleftrightarrow>
     program \<noteq> [] \<and> CHR ''/'' \<notin> set program \<and> program \<noteq> ''.'' \<and> program \<noteq> ''..''"

datatype wait_status = Exited bool | Wait_Failed string

text \<open>
  What the system does with a spawned process: the answer of \<open>spawn\<close> (an error with
  \<open>not_found\<close> and its text, or the child's process id if it is known), whether the
  run is cancelled before the child exits, how waiting for the child ends, whether
  cancellation is requested while the output is collected, and the output.
\<close>

record process_env =
  pe_spawn :: "(bool \<times> string) + 32 word option"
  pe_cancelled :: bool
  pe_wait :: wait_status
  pe_cancelled_late :: bool
  pe_stdout :: "(string + 8 word list) list"
  pe_stderr :: "(string + 8 word list) list"
  pe_path :: "string option"
  pe_is_dir :: "string \<Rightarrow> bool"
  pe_decode :: "8 word list \<Rightarrow> string"

definition effective_path :: "process_env \<Rightarrow> string" where
  "effective_path env = (case pe_path env of Some p \<Rightarrow> p | None \<Rightarrow> ''<unset>'')"

definition captures_output :: "process_notify \<Rightarrow> bool" where
  "captures_output notify \<longleftrightarrow> notify \<noteq> Silent \<and> notify \<noteq> Configured NK_Ignore NK_Ignore"

text \<open>The notification of a run, and the process groups it kills.\<close>

definition run_process ::
  "process_spec \<Rightarrow> process_notify \<Rightarrow> process_env \<Rightarrow> process_notification option \<times> 32 word list" where
  "run_process spec notify env =
     (case pe_spawn env of
        Inl (not_found, err) \<Rightarrow>
          (let cwd_is_directory = (case ps_cwd spec of None \<Rightarrow> True | Some d \<Rightarrow> pe_is_dir env d);
               path = (if not_found \<and> is_bare_program (ps_program spec) \<and> cwd_is_directory
                       then ''; effective PATH='' @ effective_path env else [])
           in (process_failure spec notify
                 (''Failed to execute '' @ ps_program spec @ '': '' @ err @ path), []))
      | Inr None \<Rightarrow> (process_failure spec notify ''Failed to obtain child process identifier'', [])
      | Inr (Some pid) \<Rightarrow>
          (let capture = captures_output notify;
               stdout = collect_stream (if capture then Some (pe_stdout env) else None);
               stderr = collect_stream (if capture then Some (pe_stderr env) else None)
           in (if pe_cancelled env \<or> pe_cancelled_late env then None
               else case pe_wait env of
                      Wait_Failed err \<Rightarrow> process_failure spec notify (''Failed to wait for process: '' @ err)
                    | Exited success \<Rightarrow>
                        (case notify of
                           Silent \<Rightarrow> None
                         | Configured ok err \<Rightarrow>
                             (let kind = (if success then ok else err) in
                              if kind = NK_Ignore then None
                              else Some \<lparr>pn_kind = kind, pn_title = ps_title spec,
                                         pn_text = trim_process_output (pe_decode env) stdout stderr\<rparr>)),
               [pid])))"

subsection \<open>Timings\<close>

record repeat_timings =
  initial_delay_ms :: "64 word option"
  repeat_interval_ms :: "64 word option"

definition sys_initial_delay_ms :: "64 word" where "sys_initial_delay_ms = 250"
definition sys_interval_ms :: "64 word" where "sys_interval_ms = 33"
definition repeat_default_min_interval_ms :: "64 word" where "repeat_default_min_interval_ms = 150"

definition clamp :: "'a::linorder \<Rightarrow> 'a \<Rightarrow> 'a \<Rightarrow> 'a" where
  "clamp lo hi x = (if x < lo then lo else if hi < x then hi else x)"

definition effective_timings :: "repeat_timings option \<Rightarrow> 64 word \<times> 64 word" where
  "effective_timings spec =
     (let default_interval = max sys_interval_ms repeat_default_min_interval_ms in
      case spec of
        Some s \<Rightarrow>
          (clamp 100 1000 (case initial_delay_ms s of Some d \<Rightarrow> d | None \<Rightarrow> sys_initial_delay_ms),
           clamp 100 2000 (case repeat_interval_ms s of Some t \<Rightarrow> t | None \<Rightarrow> default_interval))
      | None \<Rightarrow> (clamp 100 1000 sys_initial_delay_ms, clamp 100 2000 default_interval))"

definition repeat_spec_of :: "repeat_spec option \<Rightarrow> repeat_timings option" where
  "repeat_spec_of r =
     map_option (\<lambda>s. \<lparr>initial_delay_ms = delay_ms s, repeat_interval_ms = interval_ms s\<rparr>) r"

subsection \<open>Properties of runs\<close>

definition stream_content :: "(string + 8 word list) list \<Rightarrow> 8 word list" where
  "stream_content reads =
     concat (takeWhile (\<lambda>c. c \<noteq> []) (map (\<lambda>r. case r of Inl _ \<Rightarrow> [] | Inr c \<Rightarrow> c) reads))"

lemma read_loop_spec:
  assumes "read_loop reads bytes t = Inr s" and "length bytes \<le> process_stream_limit"
  shows "cs_bytes s = take process_stream_limit (bytes @ stream_content reads) \<and>
    cs_truncated s = (t \<or> process_stream_limit < length (bytes @ stream_content reads))"
  using assms
proof (induction reads bytes t rule: read_loop.induct)
  case (3 chunk reads bytes t)
  let ?keep = "min (process_stream_limit - length bytes) (length chunk)"
  show ?case
  proof (cases "chunk = []")
    case False
    have "cs_bytes s = take process_stream_limit ((bytes @ take ?keep chunk) @ stream_content reads) \<and>
      cs_truncated s = ((t \<or> ?keep < length chunk) \<or>
        process_stream_limit < length ((bytes @ take ?keep chunk) @ stream_content reads))"
      using 3 False by (simp add: Let_def)
    then show ?thesis
      using False "3.prems"(2) by (auto simp: stream_content_def min_def)
  qed (use 3 in \<open>auto simp: stream_content_def\<close>)
qed (auto simp: stream_content_def)

lemma clamp_bounds: "lo \<le> hi \<Longrightarrow> lo \<le> clamp lo hi x \<and> clamp lo hi x \<le> hi"
  by (auto simp: clamp_def not_less)

lemma clamp_id: "lo \<le> x \<Longrightarrow> x \<le> hi \<Longrightarrow> clamp lo hi x = x"
  by (auto simp: clamp_def)

text \<open>
  at most 32768 bytes of a stream are kept, exactly the first ones, and the
  truncation mark says whether any byte was dropped.
\<close>

theorem read_bounded_prefix:
  assumes "read_bounded reads = Ok s"
  shows "cs_bytes s = take 32768 (stream_content reads) \<and>
    (cs_truncated s \<longleftrightarrow> 32768 < length (stream_content reads))"
  using read_loop_spec[of reads "[]" False s] assms
  by (simp add: read_bounded_def process_stream_limit_def)

theorem read_bounded_prefix_witness:
  "\<exists>s. read_bounded [Inr [1, 2], Inr [3], Inr []] = Ok s \<and> cs_bytes s = [1, 2, 3] \<and> \<not> cs_truncated s"
proof -
  have run: "read_bounded [Inr [1, 2], Inr [3], Inr []] = Ok \<lparr>cs_bytes = [1, 2, 3], cs_truncated = False\<rparr>"
    by (simp add: read_bounded_def process_stream_limit_def)
  show ?thesis using run read_bounded_prefix[OF run] by (simp add: stream_content_def)
qed

text \<open>
  whatever a script asks for, a repeat starts after 100 to 1000 ms and
  repeats every 100 to 2000 ms; requests within these bounds are taken as they are.
\<close>

theorem effective_timings_bounds:
  "100 \<le> fst (effective_timings spec) \<and> fst (effective_timings spec) \<le> 1000 \<and>
   100 \<le> snd (effective_timings spec) \<and> snd (effective_timings spec) \<le> 2000 \<and>
   (100 \<le> d \<and> d \<le> 1000 \<and> 100 \<le> t \<and> t \<le> 2000 \<longrightarrow>
    effective_timings (Some \<lparr>initial_delay_ms = Some d, repeat_interval_ms = Some t\<rparr>) = (d, t)) \<and>
   effective_timings None = (250, 150)"
proof -
  have "100 \<le> fst (effective_timings spec) \<and> fst (effective_timings spec) \<le> 1000"
    using clamp_bounds[of "100 :: 64 word" 1000] by (simp add: effective_timings_def Let_def split: option.split)
  moreover have "100 \<le> snd (effective_timings spec) \<and> snd (effective_timings spec) \<le> 2000"
    using clamp_bounds[of "100 :: 64 word" 2000] by (simp add: effective_timings_def Let_def split: option.split)
  moreover have "effective_timings None = (250, 150)"
    by (simp add: effective_timings_def clamp_def sys_initial_delay_ms_def sys_interval_ms_def
        repeat_default_min_interval_ms_def max_def)
  ultimately show ?thesis by (auto simp: effective_timings_def clamp_id)
qed

theorem effective_timings_bounds_witness:
  "effective_timings (Some \<lparr>initial_delay_ms = Some 300, repeat_interval_ms = Some 200\<rparr>) = (300, 200)"
  using effective_timings_bounds[of None 300 200] by simp

text \<open>
  A process whose run is cancelled reports nothing once it was spawned, and every
  spawned process group is killed when its run ends.
\<close>

lemma run_process_spawned:
  assumes "pe_spawn env = Inr (Some pid)"
  shows "snd (run_process spec notify env) = [pid] \<and>
    (pe_cancelled env \<or> pe_cancelled_late env \<longrightarrow> fst (run_process spec notify env) = None) \<and>
    (notify = Silent \<longrightarrow> fst (run_process spec notify env) = None)"
  using assms by (auto simp: run_process_def Let_def process_failure_def split: wait_status.split)

lemma run_process_silent: "fst (run_process spec Silent env) = None"
  by (auto simp: run_process_def Let_def process_failure_def split: sum.split option.split wait_status.split prod.split)

lemma run_process_kind:
  "fst (run_process spec (Configured ok err) env) = Some n \<Longrightarrow> pn_kind n \<in> {ok, err} - {NK_Ignore}"
  by (auto simp: run_process_def Let_def process_failure_def
      split: sum.splits option.splits wait_status.splits prod.splits if_splits)

end
