(* ===== verification/Repeater.thy ===== *)
theory Repeater
  imports Process_Run
begin

text \<open>
  Repeat tickers (\<open>hotki-engine/src/ticker.rs\<close>) and the process repeater
  (\<open>repeater.rs\<close>).  Asynchronous tasks are explicit: a ticker task is an entry of
  its map, or, once aborted without waiting, a last poll that may still tick; a
  process run is an element of the list of unfinished tasks, and its run state
  lives in a heap, since a replaced state stays reachable from its tasks.
\<close>

subsection \<open>Tickers\<close>

text \<open>\<open>'c\<close> is what the tick callback captured.\<close>

record 'c ticker_entry =
  te_initial :: "64 word"
  te_interval :: "64 word"
  te_callback :: 'c

record 'c ticker =
  tk_entries :: "string \<Rightarrow> 'c ticker_entry option"
  tk_aborted :: "'c list"

definition ticker_empty :: "'c ticker" where
  "ticker_empty = \<lparr>tk_entries = (\<lambda>_. None), tk_aborted = []\<rparr>"

definition ticker_is_active :: "string \<Rightarrow> 'c ticker \<Rightarrow> bool" where
  "ticker_is_active i t \<longleftrightarrow> tk_entries t i \<noteq> None"

definition ticker_abort :: "string \<Rightarrow> 'c ticker \<Rightarrow> 'c ticker" where
  "ticker_abort i t =
     (case tk_entries t i of
        None \<Rightarrow> t
      | Some e \<Rightarrow> t\<lparr>tk_entries := (tk_entries t)(i := None), tk_aborted := te_callback e # tk_aborted t\<rparr>)"

definition ticker_start :: "string \<Rightarrow> 64 word \<Rightarrow> 64 word \<Rightarrow> 'c \<Rightarrow> 'c ticker \<Rightarrow> 'c ticker" where
  "ticker_start i initial interval cb t =
     (let t1 = ticker_abort i t in
      t1\<lparr>tk_entries := (tk_entries t1)(i \<mapsto> \<lparr>te_initial = initial, te_interval = interval, te_callback = cb\<rparr>)\<rparr>)"

text \<open>\<open>stop\<close> and \<open>clear_async\<close> wait for the tasks they cancel.\<close>

definition ticker_stop :: "string \<Rightarrow> 'c ticker \<Rightarrow> 'c ticker" where
  "ticker_stop i t = t\<lparr>tk_entries := (tk_entries t)(i := None)\<rparr>"

definition ticker_clear :: "'c ticker \<Rightarrow> 'c ticker" where
  "ticker_clear t = t\<lparr>tk_entries := (\<lambda>_. None)\<rparr>"

text \<open>\<open>drained\<close> are the callbacks of the drained entries, in the map's order.\<close>

definition ticker_abort_all :: "'c list \<Rightarrow> 'c ticker \<Rightarrow> 'c ticker" where
  "ticker_abort_all drained t = t\<lparr>tk_entries := (\<lambda>_. None), tk_aborted := drained @ tk_aborted t\<rparr>"

subsection \<open>Run states and tasks\<close>

record run_state =
  run_running :: bool
  run_cancelled :: bool
  run_pid :: "32 word"
  run_cancel_on_release :: bool

record run_task =
  task_ref :: nat
  task_spec :: process_spec
  task_notify :: process_notify
  task_repeat_id :: "string option"
  task_state_id :: string

record tick_closure =
  tc_ref :: nat
  tc_spec :: process_spec
  tc_id :: string

record repeater =
  rp_ticker :: "tick_closure ticker"
  rp_states :: "string \<Rightarrow> nat option"
  rp_heap :: "nat \<Rightarrow> run_state"
  rp_next :: nat
  rp_tasks :: "run_task list"
  rp_killed :: "32 word list"

definition repeater_new :: repeater where
  "repeater_new =
     \<lparr>rp_ticker = ticker_empty, rp_states = (\<lambda>_. None),
      rp_heap = (\<lambda>_. \<lparr>run_running = False, run_cancelled = False, run_pid = 0, run_cancel_on_release = False\<rparr>),
      rp_next = 0, rp_tasks = [], rp_killed = []\<rparr>"

definition upd_run :: "nat \<Rightarrow> (run_state \<Rightarrow> run_state) \<Rightarrow> repeater \<Rightarrow> repeater" where
  "upd_run r f rp = rp\<lparr>rp_heap := (rp_heap rp)(r := f (rp_heap rp r))\<rparr>"

definition process_state :: "string \<Rightarrow> bool \<Rightarrow> repeater \<Rightarrow> nat \<times> repeater" where
  "process_state i cancel_on_release rp =
     (case rp_states rp i of
        Some r \<Rightarrow> (r, rp)
      | None \<Rightarrow>
          (rp_next rp,
           rp\<lparr>rp_heap := (rp_heap rp)(rp_next rp :=
                 \<lparr>run_running = False, run_cancelled = False, run_pid = 0,
                  run_cancel_on_release = cancel_on_release\<rparr>),
              rp_states := (rp_states rp)(i \<mapsto> rp_next rp),
              rp_next := Suc (rp_next rp)\<rparr>))"

definition spawn_run ::
  "nat \<Rightarrow> process_spec \<Rightarrow> process_notify \<Rightarrow> string option \<Rightarrow> string \<Rightarrow> repeater \<Rightarrow> repeater" where
  "spawn_run r spec notify repeat_id state_id rp =
     rp\<lparr>rp_tasks := rp_tasks rp @
          [\<lparr>task_ref = r, task_spec = spec, task_notify = notify, task_repeat_id = repeat_id,
            task_state_id = state_id\<rparr>]\<rparr>"

definition kill_group :: "nat \<Rightarrow> repeater \<Rightarrow> repeater" where
  "kill_group r rp =
     (if run_pid (rp_heap rp r) = 0 then rp
      else upd_run r (\<lambda>s. s\<lparr>run_pid := 0\<rparr>) (rp\<lparr>rp_killed := run_pid (rp_heap rp r) # rp_killed rp\<rparr>))"

text \<open>\<open>ProcessRunState::abort\<close>: the task is left to end on its own.\<close>

definition run_abort :: "nat \<Rightarrow> repeater \<Rightarrow> repeater" where
  "run_abort r rp = kill_group r (upd_run r (\<lambda>s. s\<lparr>run_cancelled := True\<rparr>) rp)"

text \<open>
  The end of a run task: the process group is killed, the run state is free
  again, and a one-shot state leaves the map if it is still the current one.
\<close>

definition end_task :: "run_task \<Rightarrow> repeater \<Rightarrow> repeater" where
  "end_task t rp =
     (let r = task_ref t;
          rp1 = upd_run r (\<lambda>s. s\<lparr>run_running := False\<rparr>) (kill_group r rp)
      in rp1\<lparr>rp_tasks := remove1 t (rp_tasks rp1),
             rp_states :=
               (if task_repeat_id t = None \<and> \<not> run_cancel_on_release (rp_heap rp1 r)
                   \<and> rp_states rp1 (task_state_id t) = Some r
                then (rp_states rp1)(task_state_id t := None) else rp_states rp1)\<rparr>)"

text \<open>
  What the task does after the run: send the notification, if any, and call
  the repeat observer unless the run was cancelled.
\<close>

definition task_repeat_observed :: "run_task \<Rightarrow> repeater \<Rightarrow> string option" where
  "task_repeat_observed t rp =
     (if run_cancelled (rp_heap rp (task_ref t)) then None else task_repeat_id t)"

text \<open>\<open>ProcessRunState::stop\<close>: cancel, then wait for the task that runs, if any.\<close>

definition run_stop :: "nat \<Rightarrow> repeater \<Rightarrow> repeater" where
  "run_stop r rp =
     (let rp1 = upd_run r (\<lambda>s. s\<lparr>run_cancelled := True\<rparr>) rp in
      case find (\<lambda>t. task_ref t = r) (rp_tasks rp1) of
        None \<Rightarrow> rp1
      | Some t \<Rightarrow> end_task t rp1)"

subsection \<open>The repeater\<close>

definition start_initial_process :: "string \<Rightarrow> process_spec \<Rightarrow> bool \<Rightarrow> repeater \<Rightarrow> repeater" where
  "start_initial_process i spec cancel_on_release rp =
     (let (r, rp1) = process_state i cancel_on_release rp;
          rp2 = upd_run r (\<lambda>s. s\<lparr>run_running := True\<rparr>) rp1
      in spawn_run r spec (Configured (ps_ok_notify spec) (ps_err_notify spec)) None i rp2)"

definition spawn_process_repeat_loop ::
  "string \<Rightarrow> process_spec \<Rightarrow> repeat_timings option \<Rightarrow> repeater \<Rightarrow> repeater" where
  "spawn_process_repeat_loop i spec repeat rp =
     (let (r, rp1) = process_state i True rp;
          (initial, interval) = effective_timings repeat
      in rp1\<lparr>rp_ticker := ticker_start i initial interval \<lparr>tc_ref = r, tc_spec = spec, tc_id = i\<rparr> (rp_ticker rp1)\<rparr>)"

text \<open>The tick callback of the loop: skipped while a run is in flight.\<close>

definition process_tick :: "tick_closure \<Rightarrow> repeater \<Rightarrow> repeater" where
  "process_tick c rp =
     (if run_running (rp_heap rp (tc_ref c)) then rp
      else spawn_run (tc_ref c) (tc_spec c) Silent (Some (tc_id c)) (tc_id c)
             (upd_run (tc_ref c) (\<lambda>s. s\<lparr>run_running := True\<rparr>) rp))"

definition rp_start :: "string \<Rightarrow> process_spec \<Rightarrow> repeat_timings option \<Rightarrow> repeater \<Rightarrow> repeater" where
  "rp_start i spec repeat rp =
     (let rp1 = rp\<lparr>rp_ticker := ticker_abort i (rp_ticker rp)\<rparr>;
          rp2 = (case rp_states rp1 i of
                   None \<Rightarrow> rp1
                 | Some r \<Rightarrow> run_abort r (rp1\<lparr>rp_states := (rp_states rp1)(i := None)\<rparr>));
          rp3 = start_initial_process i spec (repeat \<noteq> None) rp2
      in if repeat \<noteq> None then spawn_process_repeat_loop i spec repeat rp3 else rp3)"

definition rp_note_os_repeat :: "string \<Rightarrow> repeater \<Rightarrow> repeater" where
  "rp_note_os_repeat i rp = rp\<lparr>rp_ticker := ticker_stop i (rp_ticker rp)\<rparr>"

definition rp_stop :: "string \<Rightarrow> repeater \<Rightarrow> repeater" where
  "rp_stop i rp =
     (let rp1 = rp\<lparr>rp_ticker := ticker_stop i (rp_ticker rp)\<rparr> in
      case rp_states rp1 i of
        None \<Rightarrow> rp1
      | Some r \<Rightarrow>
          (let rp2 = rp1\<lparr>rp_states := (rp_states rp1)(i := None)\<rparr> in
           if run_cancel_on_release (rp_heap rp2 r) then run_stop r rp2 else rp2))"

definition rp_is_ticking :: "string \<Rightarrow> repeater \<Rightarrow> bool" where
  "rp_is_ticking i rp = ticker_is_active i (rp_ticker rp)"

definition held_ids :: "repeater \<Rightarrow> string set" where
  "held_ids rp = {i. \<exists>r. rp_states rp i = Some r \<and> run_cancel_on_release (rp_heap rp r)}"

text \<open>\<open>refs\<close> are the states taken from the map, in its order.\<close>

definition rp_stop_repeats :: "nat list \<Rightarrow> repeater \<Rightarrow> repeater" where
  "rp_stop_repeats refs rp =
     fold run_stop refs
       (rp\<lparr>rp_ticker := ticker_clear (rp_ticker rp),
           rp_states := (\<lambda>i. if i \<in> held_ids rp then None else rp_states rp i)\<rparr>)"

definition rp_abort_all :: "tick_closure list \<Rightarrow> nat list \<Rightarrow> repeater \<Rightarrow> repeater" where
  "rp_abort_all drained refs rp =
     fold run_abort refs
       (rp\<lparr>rp_ticker := ticker_abort_all drained (rp_ticker rp), rp_states := (\<lambda>_. None)\<rparr>)"

subsection \<open>The invariant\<close>

definition run_count :: "nat \<Rightarrow> repeater \<Rightarrow> nat" where
  "run_count r rp = length (filter (\<lambda>t. task_ref t = r) (rp_tasks rp))"

definition refs_ok :: "repeater \<Rightarrow> bool" where
  "refs_ok rp \<longleftrightarrow>
     (\<forall>t \<in> set (rp_tasks rp). task_ref t < rp_next rp) \<and>
     (\<forall>c \<in> set (tk_aborted (rp_ticker rp)). tc_ref c < rp_next rp) \<and>
     (\<forall>i r. rp_states rp i = Some r \<longrightarrow> r < rp_next rp)"

definition states_ok :: "repeater \<Rightarrow> bool" where
  "states_ok rp \<longleftrightarrow>
     (\<forall>i j r. rp_states rp i = Some r \<longrightarrow> rp_states rp j = Some r \<longrightarrow> i = j) \<and>
     (\<forall>i r. rp_states rp i = Some r \<longrightarrow> \<not> run_cancelled (rp_heap rp r))"

definition tickers_ok :: "repeater \<Rightarrow> bool" where
  "tickers_ok rp \<longleftrightarrow>
     (\<forall>i e. tk_entries (rp_ticker rp) i = Some e \<longrightarrow>
        rp_states rp i = Some (tc_ref (te_callback e)) \<and>
        run_cancel_on_release (rp_heap rp (tc_ref (te_callback e))))"

definition serial :: "repeater \<Rightarrow> bool" where
  "serial rp \<longleftrightarrow> (\<forall>r. run_count r rp = (if run_running (rp_heap rp r) \<and> r < rp_next rp then 1 else 0))"

definition repeater_inv :: "repeater \<Rightarrow> bool" where
  "repeater_inv rp \<longleftrightarrow> refs_ok rp \<and> states_ok rp \<and> tickers_ok rp \<and> serial rp"

lemmas repeater_inv_defs = repeater_inv_def refs_ok_def states_ok_def tickers_ok_def serial_def

lemma run_count_frame [simp]:
  "run_count q (rp\<lparr>rp_ticker := t\<rparr>) = run_count q rp"
  "run_count q (rp\<lparr>rp_states := st\<rparr>) = run_count q rp"
  by (simp_all add: run_count_def)

lemma upd_run_simps [simp]:
  "rp_ticker (upd_run r f rp) = rp_ticker rp" "rp_states (upd_run r f rp) = rp_states rp"
  "rp_next (upd_run r f rp) = rp_next rp" "rp_tasks (upd_run r f rp) = rp_tasks rp"
  "rp_heap (upd_run r f rp) q = (if q = r then f (rp_heap rp r) else rp_heap rp q)"
  "rp_killed (upd_run r f rp) = rp_killed rp" "run_count q (upd_run r f rp) = run_count q rp"
  by (simp_all add: upd_run_def run_count_def)

lemma kill_group_simps [simp]:
  "rp_ticker (kill_group r rp) = rp_ticker rp" "rp_states (kill_group r rp) = rp_states rp"
  "rp_next (kill_group r rp) = rp_next rp" "rp_tasks (kill_group r rp) = rp_tasks rp"
  "run_count q (kill_group r rp) = run_count q rp"
  "rp_heap (kill_group r rp) q = (if q = r then (rp_heap rp r)\<lparr>run_pid := 0\<rparr> else rp_heap rp q)"
  by (simp_all add: kill_group_def run_count_def)

lemma kill_group_inv [inv_intro]: "repeater_inv rp \<Longrightarrow> repeater_inv (kill_group r rp)"
  by (auto simp: repeater_inv_defs)

lemma cancel_inv [inv_intro]:
  "repeater_inv rp \<Longrightarrow> r \<notin> ran (rp_states rp) \<Longrightarrow> repeater_inv (upd_run r (\<lambda>s. s\<lparr>run_cancelled := True\<rparr>) rp)"
  by (auto simp: repeater_inv_defs ran_def)

lemma run_abort_inv [inv_intro]:
  "repeater_inv rp \<Longrightarrow> r \<notin> ran (rp_states rp) \<Longrightarrow> repeater_inv (run_abort r rp)"
  unfolding run_abort_def by (intro inv_intro)

lemma length_filter_remove1:
  "x \<in> set xs \<Longrightarrow> length (filter P (remove1 x xs)) = length (filter P xs) - (if P x then 1 else 0)"
  by (induction xs) (auto simp: Suc_diff_le filter_empty_conv intro!: Suc_pred length_pos_if_in_set)

lemma end_task_tasks [simp]: "rp_tasks (end_task t rp) = remove1 t (rp_tasks rp)"
  by (simp add: end_task_def Let_def)

lemma end_task_simps [simp]:
  "rp_ticker (end_task t rp) = rp_ticker rp" "rp_next (end_task t rp) = rp_next rp"
  "rp_heap (end_task t rp) q =
     (if q = task_ref t then (rp_heap rp q)\<lparr>run_running := False, run_pid := 0\<rparr> else rp_heap rp q)"
  by (simp_all add: end_task_def Let_def)

lemma end_task_states:
  "rp_states (end_task t rp) i = None \<or> rp_states (end_task t rp) i = rp_states rp i"
  "i \<noteq> task_state_id t \<Longrightarrow> rp_states (end_task t rp) i = rp_states rp i"
  "rp_states rp i = Some r \<Longrightarrow> run_cancel_on_release (rp_heap rp r) \<Longrightarrow> rp_states (end_task t rp) i = Some r"
  by (auto simp: end_task_def Let_def)

lemma end_task_states_Some: "rp_states (end_task t rp) i = Some r \<Longrightarrow> rp_states rp i = Some r"
  using end_task_states(1)[of t rp i] by auto

lemma end_task_count:
  "t \<in> set (rp_tasks rp) \<Longrightarrow> run_count r (end_task t rp) = run_count r rp - (if task_ref t = r then 1 else 0)"
  by (simp add: run_count_def length_filter_remove1)

lemma end_task_inv [inv_intro]:
  assumes "repeater_inv rp" and "t \<in> set (rp_tasks rp)"
  shows "repeater_inv (end_task t rp)"
proof -
  have "serial (end_task t rp)"
    unfolding serial_def
  proof
    fix r
    have "run_count r rp = (if run_running (rp_heap rp r) \<and> r < rp_next rp then 1 else 0)"
      using assms(1) by (simp add: repeater_inv_def serial_def)
    then show "run_count r (end_task t rp) =
      (if run_running (rp_heap (end_task t rp) r) \<and> r < rp_next (end_task t rp) then 1 else 0)"
      using end_task_count[OF assms(2), of r] by auto
  qed
  moreover have "refs_ok (end_task t rp)"
    using assms by (auto simp: repeater_inv_def refs_ok_def dest: notin_set_remove1 end_task_states_Some)
  moreover have "states_ok (end_task t rp)"
    using assms by (auto simp: repeater_inv_def states_ok_def dest!: end_task_states_Some)
  moreover have "tickers_ok (end_task t rp)"
    unfolding tickers_ok_def
  proof (intro allI impI)
    fix i e
    assume "tk_entries (rp_ticker (end_task t rp)) i = Some e"
    then have "rp_states rp i = Some (tc_ref (te_callback e))"
      "run_cancel_on_release (rp_heap rp (tc_ref (te_callback e)))"
      using assms(1) by (auto simp: repeater_inv_def tickers_ok_def)
    then show "rp_states (end_task t rp) i = Some (tc_ref (te_callback e)) \<and>
      run_cancel_on_release (rp_heap (end_task t rp) (tc_ref (te_callback e)))"
      using end_task_states(3)[of rp i _ t] by auto
  qed
  ultimately show ?thesis by (simp add: repeater_inv_def)
qed

lemma run_stop_inv [inv_intro]:
  assumes "repeater_inv rp" and "r \<notin> ran (rp_states rp)"
  shows "repeater_inv (run_stop r rp)"
proof -
  have c: "repeater_inv (upd_run r (\<lambda>s. s\<lparr>run_cancelled := True\<rparr>) rp)"
    using assms by (rule cancel_inv)
  show ?thesis
    using c end_task_inv[OF c]
    by (auto simp: run_stop_def Let_def find_Some_iff split: option.split)
qed

lemma remove_state_inv [inv_intro]:
  "repeater_inv rp \<Longrightarrow> tk_entries (rp_ticker rp) i = None \<Longrightarrow>
   repeater_inv (rp\<lparr>rp_states := (rp_states rp)(i := None)\<rparr>)"
  by (auto simp: repeater_inv_defs run_count_def)

lemma removed_state_unreachable:
  "repeater_inv rp \<Longrightarrow> rp_states rp i = Some r \<Longrightarrow> r \<notin> ran ((rp_states rp)(i := None))"
  by (auto simp: repeater_inv_defs ran_def split: if_splits)

lemma ticker_less_inv:
  assumes "repeater_inv rp" and "\<And>i. tk_entries t i = None \<or> tk_entries t i = tk_entries (rp_ticker rp) i"
    and "\<And>c. c \<in> set (tk_aborted t) \<Longrightarrow> tc_ref c < rp_next rp"
  shows "repeater_inv (rp\<lparr>rp_ticker := t\<rparr>)"
  using assms by (auto simp: repeater_inv_defs run_count_def) (metis option.distinct(1))+

lemma entry_ref: "repeater_inv rp \<Longrightarrow> tk_entries (rp_ticker rp) i = Some e \<Longrightarrow> tc_ref (te_callback e) < rp_next rp"
  unfolding repeater_inv_defs by blast

lemma ticker_abort_inv [inv_intro]:
  "repeater_inv rp \<Longrightarrow> repeater_inv (rp\<lparr>rp_ticker := ticker_abort i (rp_ticker rp)\<rparr>)"
  by (rule ticker_less_inv)
     (auto simp: ticker_abort_def entry_ref split: option.splits, auto simp: repeater_inv_defs)

lemma ticker_stop_inv [inv_intro]:
  "repeater_inv rp \<Longrightarrow> repeater_inv (rp\<lparr>rp_ticker := ticker_stop i (rp_ticker rp)\<rparr>)"
  by (rule ticker_less_inv) (auto simp: ticker_stop_def repeater_inv_defs)

lemma fresh_state_inv:
  assumes "repeater_inv rp" and "rp_states rp i = None" and "process_state i c rp = (r, rp1)"
  shows "repeater_inv rp1 \<and> rp_states rp1 = (rp_states rp)(i \<mapsto> r) \<and> rp_ticker rp1 = rp_ticker rp \<and>
    \<not> run_running (rp_heap rp1 r) \<and> run_cancel_on_release (rp_heap rp1 r) = c \<and>
    r < rp_next rp1 \<and> rp_tasks rp1 = rp_tasks rp \<and> r = rp_next rp"
proof -
  let ?s = "\<lparr>run_running = False, run_cancelled = False, run_pid = 0, run_cancel_on_release = c\<rparr>"
  have rp1: "rp1 = rp\<lparr>rp_heap := (rp_heap rp)(rp_next rp := ?s), rp_states := (rp_states rp)(i \<mapsto> rp_next rp),
      rp_next := Suc (rp_next rp)\<rparr>" and r: "r = rp_next rp"
    using assms by (auto simp: process_state_def)
  have bound: "rp_states rp j = Some q \<Longrightarrow> q < rp_next rp" for j q
    using assms(1) unfolding repeater_inv_defs by blast
  then have new: "rp_states rp j \<noteq> Some (rp_next rp)" for j
    by blast
  have "refs_ok rp1"
    using assms(1) unfolding repeater_inv_def refs_ok_def rp1 by (auto simp: less_Suc_eq)
  moreover have "states_ok rp1"
    using assms(1) new unfolding repeater_inv_def states_ok_def rp1 by auto
  moreover have "tickers_ok rp1"
    using assms(1,2) new unfolding repeater_inv_def tickers_ok_def rp1 by (auto) (metis new option.distinct(1))+
  moreover have "serial rp1"
    using assms(1) unfolding repeater_inv_def serial_def rp1 by (auto simp: run_count_def less_Suc_eq)
  ultimately show ?thesis
    unfolding repeater_inv_def by (simp add: rp1 r)
qed

lemma spawn_run_inv:
  assumes "repeater_inv rp" and "\<not> run_running (rp_heap rp r)" and "r < rp_next rp"
  shows "repeater_inv (spawn_run r spec notify rid sid (upd_run r (\<lambda>s. s\<lparr>run_running := True\<rparr>) rp))"
  using assms by (auto simp: spawn_run_def repeater_inv_defs run_count_def)

lemma spawn_run_simps [simp]:
  "rp_states (spawn_run r spec n rid sid rp) = rp_states rp" "rp_heap (spawn_run r spec n rid sid rp) = rp_heap rp"
  "rp_ticker (spawn_run r spec n rid sid rp) = rp_ticker rp" "rp_next (spawn_run r spec n rid sid rp) = rp_next rp"
  by (simp_all add: spawn_run_def)

lemma add_entry_inv:
  assumes "repeater_inv rp" and "tk_entries (rp_ticker rp) i = None" and "rp_states rp i = Some r"
    and "run_cancel_on_release (rp_heap rp r)"
  shows "repeater_inv (rp\<lparr>rp_ticker := ticker_start i d t \<lparr>tc_ref = r, tc_spec = spec, tc_id = i\<rparr> (rp_ticker rp)\<rparr>)"
  using assms by (auto simp: ticker_start_def ticker_abort_def repeater_inv_defs Let_def split: if_splits)

lemma process_tick_inv [inv_intro]:
  "repeater_inv rp \<Longrightarrow> tc_ref c < rp_next rp \<Longrightarrow> repeater_inv (process_tick c rp)"
  by (simp add: process_tick_def spawn_run_inv)

lemma start_initial_inv:
  assumes "repeater_inv rp" and "rp_states rp i = None"
  shows "repeater_inv (start_initial_process i spec c rp) \<and>
    (\<exists>r. rp_states (start_initial_process i spec c rp) i = Some r \<and>
         run_cancel_on_release (rp_heap (start_initial_process i spec c rp) r) = c \<and> r = rp_next rp) \<and>
    rp_ticker (start_initial_process i spec c rp) = rp_ticker rp"
proof -
  obtain r rp1 where ps: "process_state i c rp = (r, rp1)" by fastforce
  note fresh = fresh_state_inv[OF assms ps]
  show ?thesis
    using fresh spawn_run_inv[of rp1 r] by (auto simp: start_initial_process_def Let_def ps)
qed

lemma rp_start_spec:
  assumes "repeater_inv rp"
  shows "repeater_inv (rp_start i spec repeat rp) \<and>
    rp_is_ticking i (rp_start i spec repeat rp) = (repeat \<noteq> None) \<and>
    (\<exists>r. rp_states (rp_start i spec repeat rp) i = Some r \<and>
         run_cancel_on_release (rp_heap (rp_start i spec repeat rp) r) = (repeat \<noteq> None))"
proof -
  define rp1 where "rp1 = rp\<lparr>rp_ticker := ticker_abort i (rp_ticker rp)\<rparr>"
  define rp2 where "rp2 = (case rp_states rp1 i of None \<Rightarrow> rp1
    | Some r \<Rightarrow> run_abort r (rp1\<lparr>rp_states := (rp_states rp1)(i := None)\<rparr>))"
  have inv1: "repeater_inv rp1" unfolding rp1_def using assms by (rule ticker_abort_inv)
  have no_entry: "tk_entries (rp_ticker rp1) i = None"
    by (simp add: rp1_def ticker_abort_def split: option.split)
  have inv2: "repeater_inv rp2 \<and> rp_states rp2 i = None \<and> rp_ticker rp2 = rp_ticker rp1"
  proof (cases "rp_states rp1 i")
    case None
    then show ?thesis by (simp add: rp2_def inv1)
  next
    case (Some r)
    have "repeater_inv (run_abort r (rp1\<lparr>rp_states := (rp_states rp1)(i := None)\<rparr>))"
      using remove_state_inv[OF inv1 no_entry] removed_state_unreachable[OF inv1 Some] by (intro run_abort_inv) simp_all
    then show ?thesis using Some by (simp add: rp2_def run_abort_def)
  qed
  define rp3 where "rp3 = start_initial_process i spec (repeat \<noteq> None) rp2"
  obtain r where inv3: "repeater_inv rp3" "rp_states rp3 i = Some r"
    "run_cancel_on_release (rp_heap rp3 r) = (repeat \<noteq> None)" "rp_ticker rp3 = rp_ticker rp1"
    using start_initial_inv[of rp2 i spec "repeat \<noteq> None"] inv2 rp3_def by auto
  have start: "rp_start i spec repeat rp = (if repeat \<noteq> None then spawn_process_repeat_loop i spec repeat rp3 else rp3)"
    by (simp only: rp_start_def rp1_def rp2_def rp3_def Let_def)
  have loop: "spawn_process_repeat_loop i spec repeat rp3 =
    rp3\<lparr>rp_ticker := ticker_start i (fst (effective_timings repeat)) (snd (effective_timings repeat))
      \<lparr>tc_ref = r, tc_spec = spec, tc_id = i\<rparr> (rp_ticker rp3)\<rparr>"
    using inv3(2) by (simp add: spawn_process_repeat_loop_def process_state_def Let_def split_def)
  have "repeater_inv (spawn_process_repeat_loop i spec repeat rp3)" if "repeat \<noteq> None"
    unfolding loop using inv3 that no_entry by (intro add_entry_inv) simp_all
  then show ?thesis
    using inv3 start no_entry loop
    by (auto simp: rp_is_ticking_def ticker_is_active_def ticker_start_def Let_def)
qed

lemma rp_start_inv [inv_intro]: "repeater_inv rp \<Longrightarrow> repeater_inv (rp_start i spec repeat rp)"
  using rp_start_spec by blast

lemma rp_stop_inv [inv_intro]:
  assumes "repeater_inv rp"
  shows "repeater_inv (rp_stop i rp)"
proof -
  define rp1 where "rp1 = rp\<lparr>rp_ticker := ticker_stop i (rp_ticker rp)\<rparr>"
  have inv1: "repeater_inv rp1" unfolding rp1_def using assms by (rule ticker_stop_inv)
  have no_entry: "tk_entries (rp_ticker rp1) i = None" by (simp add: rp1_def ticker_stop_def)
  have "repeater_inv (run_stop r (rp1\<lparr>rp_states := (rp_states rp1)(i := None)\<rparr>))"
    if "rp_states rp1 i = Some r" for r
    using remove_state_inv[OF inv1 no_entry] removed_state_unreachable[OF inv1 that] by (intro run_stop_inv) simp_all
  then show ?thesis
    using inv1 remove_state_inv[OF inv1 no_entry]
    unfolding rp_stop_def rp1_def[symmetric] Let_def by (auto split: option.split)
qed

lemma run_stop_states: "rp_states (run_stop r rp) i = None \<or> rp_states (run_stop r rp) i = rp_states rp i"
  using end_task_states(1) by (fastforce simp: run_stop_def Let_def split: option.split)

lemma run_stop_simps [simp]:
  "rp_ticker (run_stop r rp) = rp_ticker rp" "rp_next (run_stop r rp) = rp_next rp"
  by (simp_all add: run_stop_def Let_def split: option.split)

lemma run_abort_simps [simp]:
  "rp_ticker (run_abort r rp) = rp_ticker rp" "rp_next (run_abort r rp) = rp_next rp"
  "rp_states (run_abort r rp) = rp_states rp" "rp_tasks (run_abort r rp) = rp_tasks rp"
  by (simp_all add: run_abort_def)

lemma run_stop_all_inv:
  "repeater_inv rp \<Longrightarrow> \<forall>r \<in> set refs. r \<notin> ran (rp_states rp) \<Longrightarrow> repeater_inv (fold run_stop refs rp)"
proof (induction refs arbitrary: rp)
  case (Cons r refs)
  have "q \<notin> ran (rp_states (run_stop r rp))" if "q \<in> set refs" for q
    using that Cons.prems(2) run_stop_states[of r rp] by (auto simp: ran_def) (metis option.distinct(1))
  then show ?case using Cons run_stop_inv by simp
qed simp

lemma run_abort_all_inv:
  "repeater_inv rp \<Longrightarrow> \<forall>r \<in> set refs. r \<notin> ran (rp_states rp) \<Longrightarrow> repeater_inv (fold run_abort refs rp)"
  by (induction refs arbitrary: rp) (simp_all add: run_abort_inv)

lemma drop_states_inv:
  assumes "repeater_inv rp" and "\<And>i. st i = None \<or> st i = rp_states rp i"
    and "\<And>i. tk_entries t i = None" and "\<And>c. c \<in> set (tk_aborted t) \<Longrightarrow> tc_ref c < rp_next rp"
  shows "repeater_inv (rp\<lparr>rp_ticker := t, rp_states := st\<rparr>)"
proof -
  have "run_count q (rp\<lparr>rp_ticker := t, rp_states := st\<rparr>) = run_count q rp" for q
    by (simp add: run_count_def)
  moreover have "st i = Some r \<Longrightarrow> rp_states rp i = Some r" for i r
    using assms(2)[of i] by auto
  ultimately show ?thesis
    using assms(1,3,4) unfolding repeater_inv_defs by simp blast
qed

text \<open>The references \<open>stop_repeats_async\<close> and \<open>abort_all\<close> take from the map.\<close>

definition held_refs :: "repeater \<Rightarrow> nat set" where
  "held_refs rp = {r. \<exists>i \<in> held_ids rp. rp_states rp i = Some r}"

lemma rp_stop_repeats_inv [inv_intro]:
  assumes "repeater_inv rp" and "set refs \<subseteq> held_refs rp"
  shows "repeater_inv (rp_stop_repeats refs rp)"
  unfolding rp_stop_repeats_def
proof (rule run_stop_all_inv)
  show "repeater_inv (rp\<lparr>rp_ticker := ticker_clear (rp_ticker rp),
      rp_states := (\<lambda>i. if i \<in> held_ids rp then None else rp_states rp i)\<rparr>)"
    using assms(1) by (intro drop_states_inv) (auto simp: ticker_clear_def repeater_inv_defs)
  show "\<forall>r \<in> set refs. r \<notin> ran (rp_states (rp\<lparr>rp_ticker := ticker_clear (rp_ticker rp),
      rp_states := (\<lambda>i. if i \<in> held_ids rp then None else rp_states rp i)\<rparr>))"
    using assms by (auto simp: held_refs_def held_ids_def ran_def split: if_splits)
qed

lemma rp_abort_all_inv [inv_intro]:
  assumes "repeater_inv rp" and "\<forall>c \<in> set drained. \<exists>i e. tk_entries (rp_ticker rp) i = Some e \<and> te_callback e = c"
  shows "repeater_inv (rp_abort_all drained refs rp)"
  unfolding rp_abort_all_def
proof (rule run_abort_all_inv)
  show "repeater_inv (rp\<lparr>rp_ticker := ticker_abort_all drained (rp_ticker rp), rp_states := \<lambda>_. None\<rparr>)"
    using assms entry_ref[OF assms(1)]
    by (intro drop_states_inv) (auto simp: ticker_abort_all_def, auto simp: repeater_inv_defs)
qed (simp add: ran_def)

subsection \<open>Every interleaving\<close>

inductive repeater_step :: "repeater \<Rightarrow> repeater \<Rightarrow> bool" where
  start: "repeater_step rp (rp_start i spec repeat rp)"
| tick: "tk_entries (rp_ticker rp) i = Some e \<Longrightarrow> repeater_step rp (process_tick (te_callback e) rp)"
| late_tick: "tk_aborted (rp_ticker rp) = cs @ c # ds \<Longrightarrow>
    repeater_step rp (process_tick c (rp\<lparr>rp_ticker := (rp_ticker rp)\<lparr>tk_aborted := cs @ ds\<rparr>\<rparr>))"
| child: "t \<in> set (rp_tasks rp) \<Longrightarrow> repeater_step rp (upd_run (task_ref t) (\<lambda>s. s\<lparr>run_pid := pid\<rparr>) rp)"
| finish: "t \<in> set (rp_tasks rp) \<Longrightarrow> repeater_step rp (end_task t rp)"
| stop: "repeater_step rp (rp_stop i rp)"
| os_repeat: "repeater_step rp (rp_note_os_repeat i rp)"
| stop_repeats: "set refs = held_refs rp \<Longrightarrow> repeater_step rp (rp_stop_repeats refs rp)"
| abort_all: "set refs = ran (rp_states rp) \<Longrightarrow>
    set drained = {te_callback e | e. \<exists>i. tk_entries (rp_ticker rp) i = Some e} \<Longrightarrow>
    repeater_step rp (rp_abort_all drained refs rp)"

inductive repeater_reachable :: "repeater \<Rightarrow> bool" where
  init: "repeater_reachable repeater_new"
| step: "repeater_reachable rp \<Longrightarrow> repeater_step rp rp' \<Longrightarrow> repeater_reachable rp'"

lemma repeater_step_inv:
  assumes "repeater_step rp rp'" and "repeater_inv rp"
  shows "repeater_inv rp'"
  using assms
proof (cases rule: repeater_step.cases)
  case (tick i e)
  then show ?thesis using assms(2) entry_ref by (simp add: process_tick_inv)
next
  case (late_tick cs c ds)
  have "repeater_inv (rp\<lparr>rp_ticker := (rp_ticker rp)\<lparr>tk_aborted := cs @ ds\<rparr>\<rparr>)" and "tc_ref c < rp_next rp"
    using assms(2) late_tick(2) by (auto simp: repeater_inv_defs)
  then show ?thesis using late_tick(1) by (simp add: process_tick_inv)
next
  case (child t pid)
  then show ?thesis using assms(2) by (auto simp: repeater_inv_defs) (metis (no_types))+
next
  case (os_repeat i)
  then show ?thesis using assms(2) by (simp add: rp_note_os_repeat_def ticker_stop_inv)
next
  case (abort_all refs drained)
  have "\<forall>c \<in> set drained. \<exists>i e. tk_entries (rp_ticker rp) i = Some e \<and> te_callback e = c"
    using abort_all(3) by auto
  then show ?thesis using abort_all(1) rp_abort_all_inv[OF assms(2)] by simp
qed (simp_all add: inv_intro)

lemma repeater_new_inv: "repeater_inv repeater_new"
  by (simp add: repeater_new_def repeater_inv_defs run_count_def ticker_empty_def)

lemma repeater_reachable_inv: "repeater_reachable rp \<Longrightarrow> repeater_inv rp"
  by (induction rule: repeater_reachable.induct) (auto intro: repeater_new_inv repeater_step_inv)

text \<open>Stopping a run leaves no task of it and touches no other task.\<close>

lemma run_stop_tasks:
  assumes "repeater_inv rp"
  shows "run_count r (run_stop r rp) = 0" and "run_cancelled (rp_heap (run_stop r rp) r)"
    and "q \<noteq> r \<Longrightarrow> filter (\<lambda>t. task_ref t = q) (rp_tasks (run_stop r rp)) = filter (\<lambda>t. task_ref t = q) (rp_tasks rp)"
proof -
  have le: "run_count r rp \<le> 1"
    using assms by (auto simp: repeater_inv_def serial_def)
  show "run_count r (run_stop r rp) = 0"
  proof (cases "find (\<lambda>t. task_ref t = r) (rp_tasks rp)")
    case None
    then have "run_stop r rp = upd_run r (\<lambda>s. s\<lparr>run_cancelled := True\<rparr>) rp"
      by (simp add: run_stop_def Let_def)
    then show ?thesis
      using None by (auto simp: run_count_def find_None_iff filter_empty_conv)
  next
    case (Some t)
    then have t: "t \<in> set (rp_tasks rp)" "task_ref t = r"
      by (auto simp: find_Some_iff)
    then show ?thesis
      using le Some end_task_count[of t "upd_run r (\<lambda>s. s\<lparr>run_cancelled := True\<rparr>) rp" r]
      by (simp add: run_stop_def Let_def)
  qed
  show "run_cancelled (rp_heap (run_stop r rp) r)"
    by (auto simp: run_stop_def Let_def split: option.split)
  show "filter (\<lambda>t. task_ref t = q) (rp_tasks (run_stop r rp)) = filter (\<lambda>t. task_ref t = q) (rp_tasks rp)"
    if "q \<noteq> r"
    using that by (auto simp: run_stop_def Let_def find_Some_iff filter_remove1 remove1_idem split: option.split)
qed

text \<open>
  C26: in every interleaving of starts, ticks (late ones of aborted tickers included),
  process exits, releases and teardown, a run state has at most one process in
  flight, and an identifier that ticks has a current, uncancelled held run state.
\<close>

theorem process_runs_serial:
  assumes "repeater_reachable rp"
  shows "length (filter (\<lambda>t. task_ref t = r) (rp_tasks rp)) \<le> 1 \<and>
    (rp_is_ticking i rp \<longrightarrow> (\<exists>q. rp_states rp i = Some q \<and> run_cancel_on_release (rp_heap rp q) \<and>
       \<not> run_cancelled (rp_heap rp q)))"
proof -
  have inv: "repeater_inv rp" using assms by (rule repeater_reachable_inv)
  then have "run_count r rp \<le> 1"
    unfolding repeater_inv_def serial_def by auto
  moreover have "\<exists>q. rp_states rp i = Some q \<and> run_cancel_on_release (rp_heap rp q) \<and> \<not> run_cancelled (rp_heap rp q)"
    if "tk_entries (rp_ticker rp) i = Some e" for e
    using inv that unfolding repeater_inv_def tickers_ok_def states_ok_def by blast
  ultimately show ?thesis
    by (auto simp: run_count_def rp_is_ticking_def ticker_is_active_def)
qed

definition sample_spec :: process_spec where
  "sample_spec = process_spec_shell None ''true'' NK_Ignore NK_Warn"

definition sample_repeater :: repeater where
  "sample_repeater = rp_start ''a'' sample_spec (Some \<lparr>initial_delay_ms = None, repeat_interval_ms = None\<rparr>) repeater_new"

lemma sample_repeater_reachable: "repeater_reachable sample_repeater"
  unfolding sample_repeater_def by (rule repeater_reachable.step[OF repeater_reachable.init repeater_step.start])

lemma sample_repeater_state:
  "rp_is_ticking ''a'' sample_repeater"
  "\<exists>r. rp_states sample_repeater ''a'' = Some r \<and> run_cancel_on_release (rp_heap sample_repeater r)"
  using rp_start_spec[OF repeater_new_inv, of "''a''" sample_spec
      "Some \<lparr>initial_delay_ms = None, repeat_interval_ms = None\<rparr>"]
  unfolding sample_repeater_def by simp_all

theorem process_runs_serial_witness:
  "\<exists>q. rp_states sample_repeater ''a'' = Some q \<and> run_cancel_on_release (rp_heap sample_repeater q) \<and>
     \<not> run_cancelled (rp_heap sample_repeater q)"
  using process_runs_serial[OF sample_repeater_reachable, of 0 "''a''"] sample_repeater_state by blast

text \<open>
  C25: releasing a key stops its repeats: when \<open>stop\<close> returns the identifier
  does not tick, no process of its held run state is in flight, that state is
  cancelled for good, and every other run is untouched; a one-shot process goes on.
\<close>

theorem stop_ends_held_process:
  assumes "repeater_reachable rp"
  shows "\<not> rp_is_ticking i (rp_stop i rp) \<and>
    (\<forall>r. rp_states rp i = Some r \<longrightarrow>
       (if run_cancel_on_release (rp_heap rp r)
        then run_count r (rp_stop i rp) = 0 \<and> run_cancelled (rp_heap (rp_stop i rp) r)
        else rp_tasks (rp_stop i rp) = rp_tasks rp)) \<and>
    (\<forall>q. rp_states rp i \<noteq> Some q \<longrightarrow>
       filter (\<lambda>t. task_ref t = q) (rp_tasks (rp_stop i rp)) = filter (\<lambda>t. task_ref t = q) (rp_tasks rp))"
proof (cases "rp_states rp i")
  case None
  then show ?thesis
    by (simp add: rp_stop_def Let_def rp_is_ticking_def ticker_is_active_def ticker_stop_def)
next
  case (Some r)
  define rp1 where "rp1 = rp\<lparr>rp_ticker := ticker_stop i (rp_ticker rp)\<rparr>"
  define rp2 where "rp2 = rp1\<lparr>rp_states := (rp_states rp1)(i := None)\<rparr>"
  have inv1: "repeater_inv rp1"
    unfolding rp1_def using repeater_reachable_inv[OF assms] by (rule ticker_stop_inv)
  have inv2: "repeater_inv rp2"
    unfolding rp2_def using inv1 by (rule remove_state_inv) (simp add: rp1_def ticker_stop_def)
  have stop: "rp_stop i rp = (if run_cancel_on_release (rp_heap rp r) then run_stop r rp2 else rp2)"
    using Some by (simp add: rp_stop_def Let_def rp1_def rp2_def)
  show ?thesis
    using Some run_stop_tasks[OF inv2] unfolding stop
    by (auto simp: rp_is_ticking_def ticker_is_active_def ticker_stop_def) (auto simp: rp1_def rp2_def ticker_stop_def)
qed

theorem stop_ends_held_process_witness:
  "\<exists>r. rp_states sample_repeater ''a'' = Some r \<and> run_count r (rp_stop ''a'' sample_repeater) = 0 \<and>
     \<not> rp_is_ticking ''a'' (rp_stop ''a'' sample_repeater)"
  using stop_ends_held_process[OF sample_repeater_reachable, of "''a''"] sample_repeater_state(2) by auto

end
