(* ===== verification/World_State.thy ===== *)
theory World_State
  imports Protocol_Types
begin

text \<open>
  The world view of \<open>hotki-world\<close>: resolution of running applications
  (\<open>types.rs\<close>), the platform snapshot and its conversion to a poll update
  (\<open>platform.rs\<close>, \<open>polling.rs\<close>), and the shared state that a poll replaces
  together with the events it publishes (\<open>state.rs\<close>).  AppKit, CoreGraphics and
  the permission queries are parameters.  An \<open>f32\<close> is its bit pattern; comparing
  two of them follows IEEE equality.
\<close>

subsection \<open>Running applications\<close>

datatype application_resolution = App_Found "32 word" | App_NotRunning | App_Ambiguous nat

record running_application =
  ra_name :: "string option"
  ra_pid :: "32 word"
  ra_terminated :: bool

definition running_named :: "string \<Rightarrow> running_application \<Rightarrow> bool" where
  "running_named app_name a \<longleftrightarrow> \<not> ra_terminated a \<and> 0 < sint (ra_pid a) \<and> ra_name a = Some app_name"

definition resolve_application :: "running_application list \<Rightarrow> string \<Rightarrow> application_resolution" where
  "resolve_application applications app_name =
     (let pids = remdups_adj (sort_key sint (map ra_pid (filter (running_named app_name) applications)))
      in case pids of
           [] \<Rightarrow> App_NotRunning
         | [pid] \<Rightarrow> App_Found pid
         | pids \<Rightarrow> App_Ambiguous (length pids))"

text \<open>The pids of the live processes with the requested name.\<close>

definition live_pids :: "running_application list \<Rightarrow> string \<Rightarrow> 32 word set" where
  "live_pids applications app_name = ra_pid ` {a \<in> set applications. running_named app_name a}"

lemma resolve_pids:
  obtains pids where "distinct pids" "set pids = live_pids applications app_name"
    "resolve_application applications app_name =
       (case pids of [] \<Rightarrow> App_NotRunning | [pid] \<Rightarrow> App_Found pid | pids \<Rightarrow> App_Ambiguous (length pids))"
proof
  let ?pids = "remdups_adj (sort_key sint (map ra_pid (filter (running_named app_name) applications)))"
  show "distinct ?pids" by (rule distinct_remdups_adj_sort_key) (auto intro: injI signed_word_eqI)
  show "set ?pids = live_pids applications app_name" by (auto simp: live_pids_def)
qed (simp add: resolve_application_def Let_def)

lemma resolve_application_spec:
  "resolve_application applications app_name =
     (let pids = live_pids applications app_name
      in if card pids = 0 then App_NotRunning
         else if card pids = 1 then App_Found (the_elem pids)
         else App_Ambiguous (card pids))"
proof -
  obtain pids where d: "distinct pids" "set pids = live_pids applications app_name"
    and r: "resolve_application applications app_name =
       (case pids of [] \<Rightarrow> App_NotRunning | [pid] \<Rightarrow> App_Found pid | pids \<Rightarrow> App_Ambiguous (length pids))"
    by (rule resolve_pids)
  moreover have "card (set pids) = length pids" using d(1) by (rule distinct_card)
  ultimately show ?thesis unfolding d(2)[symmetric] r by (cases pids rule: remdups_adj.cases) (auto simp: Let_def)
qed

subsection \<open>Windows and displays\<close>

record window_key =
  wk_pid :: "32 word"
  wk_id :: "32 word"

record world_window =
  ww_app :: string
  ww_title :: string
  ww_pid :: "32 word"
  ww_id :: "32 word"
  ww_display_id :: "32 word option"
  ww_focused :: bool

definition world_id :: "world_window \<Rightarrow> window_key" where
  "world_id w = \<lparr>wk_pid = ww_pid w, wk_id = ww_id w\<rparr>"

definition focus_snapshot_of :: "world_window \<Rightarrow> focus_snapshot" where
  "focus_snapshot_of w =
     \<lparr>focus_id = ww_id w, focus_app = ww_app w, focus_title = ww_title w, focus_pid = ww_pid w,
      focus_display_id = ww_display_id w\<rparr>"

datatype permission_state = Perm_Granted | Perm_Denied | Perm_Unknown

definition permission_of_bool :: "bool \<Rightarrow> permission_state" where
  "permission_of_bool b = (if b then Perm_Granted else Perm_Denied)"

definition is_granted :: "permission_state \<Rightarrow> bool" where
  "is_granted p \<longleftrightarrow> p = Perm_Granted"

record capabilities =
  cap_accessibility :: permission_state
  cap_input_monitoring :: permission_state
  cap_screen_recording :: permission_state

definition capabilities_default :: capabilities where
  "capabilities_default =
     \<lparr>cap_accessibility = Perm_Unknown, cap_input_monitoring = Perm_Unknown,
      cap_screen_recording = Perm_Unknown\<rparr>"

subsection \<open>The platform snapshot\<close>

record platform_window =
  pw_app :: string
  pw_title :: string
  pw_pid :: "32 word"
  pw_id :: "32 word"
  pw_display_id :: "32 word option"

record platform_snapshot =
  pl_windows :: "platform_window list"
  pl_focused :: "platform_window option"
  pl_displays :: displays_snapshot
  pl_capabilities :: capabilities

definition platform_default :: platform_snapshot where
  "platform_default =
     \<lparr>pl_windows = [], pl_focused = None, pl_displays = displays_default,
      pl_capabilities = capabilities_default\<rparr>"

text \<open>
  The operating system as \<open>capture_platform_snapshot\<close> reads it: the on-screen
  window dictionaries front to back (\<open>None\<close> when CoreGraphics returns no array),
  the lookups of a number and of a string under a key, the display a window's
  bounds fall on, and the attached displays.
\<close>

record 'd platform_api =
  pf_accessibility :: bool
  pf_input_monitoring :: bool
  pf_screen_recording :: bool
  pf_gather_displays :: displays_snapshot
  pf_window_info :: "'d list option"
  pf_number :: "'d \<Rightarrow> string \<Rightarrow> 64 word option"
  pf_string :: "'d \<Rightarrow> string \<Rightarrow> string option"
  pf_display_for :: "'d \<Rightarrow> display_frame list \<Rightarrow> 32 word option"

definition dict_value_i32 :: "'d platform_api \<Rightarrow> 'd \<Rightarrow> string \<Rightarrow> 32 word option" where
  "dict_value_i32 pf d k = map_option ucast (pf_number pf d k)"

text \<open>The body of the loop over the windows: the first window of layer 0 with an owner.\<close>

fun front_window :: "'d platform_api \<Rightarrow> display_frame list \<Rightarrow> 'd list \<Rightarrow> platform_window option" where
  "front_window pf displays [] = None"
| "front_window pf displays (d # ds) =
     (if (case dict_value_i32 pf d ''kCGWindowLayer'' of None \<Rightarrow> 1 | Some l \<Rightarrow> l) \<noteq> 0
      then front_window pf displays ds
      else case dict_value_i32 pf d ''kCGWindowOwnerPID'' of
             None \<Rightarrow> front_window pf displays ds
           | Some pid \<Rightarrow> Some
               \<lparr>pw_app = (case pf_string pf d ''kCGWindowOwnerName'' of None \<Rightarrow> [] | Some s \<Rightarrow> s),
                pw_title = (case pf_string pf d ''kCGWindowName'' of None \<Rightarrow> [] | Some s \<Rightarrow> s),
                pw_pid = pid,
                pw_id = (case dict_value_i32 pf d ''kCGWindowNumber'' of None \<Rightarrow> 0 | Some i \<Rightarrow> i),
                pw_display_id = pf_display_for pf d displays\<rparr>)"

definition active_window :: "'d platform_api \<Rightarrow> display_frame list \<Rightarrow> platform_window option" where
  "active_window pf displays =
     (case pf_window_info pf of None \<Rightarrow> None | Some ds \<Rightarrow> front_window pf displays ds)"

definition select_active_display ::
  "platform_window option \<Rightarrow> displays_snapshot \<Rightarrow> displays_snapshot" where
  "select_active_display window ds =
     (let ds1 =
        (case window of None \<Rightarrow> ds
         | Some w \<Rightarrow>
             (case pw_display_id w of None \<Rightarrow> ds
              | Some active_id \<Rightarrow>
                  ds\<lparr>active_display :=
                       (case find (\<lambda>d. frame_id d = active_id) (all_displays ds) of
                          Some d \<Rightarrow> Some d | None \<Rightarrow> active_display ds)\<rparr>))
      in if active_display ds1 = None
         then ds1\<lparr>active_display := (case all_displays ds1 of [] \<Rightarrow> None | d # _ \<Rightarrow> Some d)\<rparr>
         else ds1)"

definition capture_platform_snapshot :: "'d platform_api \<Rightarrow> platform_snapshot" where
  "capture_platform_snapshot pf =
     (let displays = pf_gather_displays pf;
          window = active_window pf (all_displays displays)
      in \<lparr>pl_windows = (case window of None \<Rightarrow> [] | Some w \<Rightarrow> [w]), pl_focused = window,
          pl_displays = select_active_display window displays,
          pl_capabilities =
            \<lparr>cap_accessibility = permission_of_bool (pf_accessibility pf),
             cap_input_monitoring = permission_of_bool (pf_input_monitoring pf),
             cap_screen_recording = permission_of_bool (pf_screen_recording pf)\<rparr>\<rparr>)"

subsection \<open>Poll updates\<close>

datatype focus_change = Focused focus_snapshot | Cleared

datatype world_event = WE_FocusChanged focus_change | WE_DisplaysChanged

record world_poll_update =
  wu_snapshot :: "world_window list"
  wu_focused :: "window_key option"
  wu_focus :: "focus_snapshot option"
  wu_displays :: displays_snapshot
  wu_capabilities :: capabilities

definition platform_key :: "platform_window \<Rightarrow> window_key" where
  "platform_key w = \<lparr>wk_pid = pw_pid w, wk_id = pw_id w\<rparr>"

definition platform_focus :: "platform_window \<Rightarrow> focus_snapshot" where
  "platform_focus w =
     \<lparr>focus_id = pw_id w, focus_app = pw_app w, focus_title = pw_title w, focus_pid = pw_pid w,
      focus_display_id = pw_display_id w\<rparr>"

definition world_poll_update :: "platform_snapshot \<Rightarrow> world_poll_update" where
  "world_poll_update p =
     (let focused = map_option platform_key (pl_focused p)
      in \<lparr>wu_snapshot =
            map (\<lambda>w. \<lparr>ww_app = pw_app w, ww_title = pw_title w, ww_pid = pw_pid w, ww_id = pw_id w,
                      ww_display_id = pw_display_id w, ww_focused = (focused = Some (platform_key w))\<rparr>)
              (pl_windows p),
          wu_focused = focused, wu_focus = map_option platform_focus (pl_focused p),
          wu_displays = pl_displays p, wu_capabilities = pl_capabilities p\<rparr>)"

subsection \<open>The shared state\<close>

record world_status =
  st_windows_count :: nat
  st_focused :: "window_key option"
  st_last_tick_ms :: "64 word"
  st_current_poll_ms :: "64 word"
  st_capabilities :: capabilities

record world_data =
  wd_snapshot :: "world_window list"
  wd_focused :: "window_key option"
  wd_focus :: "focus_snapshot option"
  wd_displays :: displays_snapshot
  wd_capabilities :: capabilities
  wd_status :: world_status

definition world_data_default :: world_data where
  "world_data_default =
     \<lparr>wd_snapshot = [], wd_focused = None, wd_focus = None, wd_displays = displays_default,
      wd_capabilities = capabilities_default,
      wd_status = \<lparr>st_windows_count = 0, st_focused = None, st_last_tick_ms = 0,
                   st_current_poll_ms = 0, st_capabilities = capabilities_default\<rparr>\<rparr>"

text \<open>IEEE equality of bit patterns: NaN differs from itself, the two zeros agree.\<close>

definition f32_nan :: "f32 \<Rightarrow> bool" where
  "f32_nan x \<longleftrightarrow> x AND 0x7F800000 = 0x7F800000 \<and> x AND 0x007FFFFF \<noteq> 0"

definition f32_eq :: "f32 \<Rightarrow> f32 \<Rightarrow> bool" where
  "f32_eq x y \<longleftrightarrow>
     \<not> f32_nan x \<and> \<not> f32_nan y \<and> (x = y \<or> (x AND 0x7FFFFFFF = 0 \<and> y AND 0x7FFFFFFF = 0))"

definition frame_eq :: "display_frame \<Rightarrow> display_frame \<Rightarrow> bool" where
  "frame_eq a b \<longleftrightarrow>
     frame_id a = frame_id b \<and> f32_eq (frame_x a) (frame_x b) \<and> f32_eq (frame_y a) (frame_y b)
     \<and> f32_eq (frame_width a) (frame_width b) \<and> f32_eq (frame_height a) (frame_height b)"

definition displays_eq :: "displays_snapshot \<Rightarrow> displays_snapshot \<Rightarrow> bool" where
  "displays_eq a b \<longleftrightarrow>
     f32_eq (global_top a) (global_top b) \<and> rel_option frame_eq (active_display a) (active_display b)
     \<and> list_all2 frame_eq (all_displays a) (all_displays b)"

record world_poll_changes =
  wc_displays_changed :: bool
  wc_focus_changed :: "focus_change option"

definition focus_change_of :: "focus_snapshot option \<Rightarrow> focus_change" where
  "focus_change_of f = (case f of None \<Rightarrow> Cleared | Some s \<Rightarrow> Focused s)"

definition apply_poll_update ::
  "world_poll_update \<Rightarrow> 64 word \<Rightarrow> 64 word \<Rightarrow> world_data \<Rightarrow> world_poll_changes \<times> world_data" where
  "apply_poll_update u last_tick_ms current_poll_ms d =
     (let displays_changed = (\<not> displays_eq (wd_displays d) (wu_displays u));
          d1 = (if displays_changed then d\<lparr>wd_displays := wu_displays u\<rparr> else d);
          focus_changed =
            (if wd_focused d1 \<noteq> wu_focused u \<or> wd_focus d1 \<noteq> wu_focus u
             then Some (focus_change_of (wu_focus u)) else None);
          d2 = d1\<lparr>wd_focused := wu_focused u, wd_focus := wu_focus u\<rparr>;
          d3 = (if wd_snapshot d2 \<noteq> wu_snapshot u then d2\<lparr>wd_snapshot := wu_snapshot u\<rparr> else d2);
          d4 = d3\<lparr>wd_capabilities := wu_capabilities u\<rparr>
      in (\<lparr>wc_displays_changed = displays_changed, wc_focus_changed = focus_changed\<rparr>,
          d4\<lparr>wd_status :=
               \<lparr>st_windows_count = length (wd_snapshot d4), st_focused = wd_focused d4,
                st_last_tick_ms = last_tick_ms, st_current_poll_ms = current_poll_ms,
                st_capabilities = wu_capabilities u\<rparr>\<rparr>))"

text \<open>The events that \<open>publish\<close> sends to the hub, in order.\<close>

definition published_events :: "world_poll_changes \<Rightarrow> world_event list" where
  "published_events c =
     (if wc_displays_changed c then [WE_DisplaysChanged] else [])
     @ (case wc_focus_changed c of None \<Rightarrow> [] | Some change \<Rightarrow> [WE_FocusChanged change])"

subsection \<open>What a poll leaves behind\<close>

lemma capture_windows: "pl_windows (capture_platform_snapshot pf) =
    (case pl_focused (capture_platform_snapshot pf) of None \<Rightarrow> [] | Some w \<Rightarrow> [w])"
  by (simp add: capture_platform_snapshot_def Let_def)

lemma apply_poll_update_state:
  assumes "apply_poll_update u t i d = (c, d')"
  shows "wd_snapshot d' = wu_snapshot u" "wd_focused d' = wu_focused u" "wd_focus d' = wu_focus u"
    "wd_capabilities d' = wu_capabilities u" "st_windows_count (wd_status d') = length (wu_snapshot u)"
    "st_focused (wd_status d') = wu_focused u"
    "wd_displays d' = (if displays_eq (wd_displays d) (wu_displays u) then wd_displays d else wu_displays u)"
  using assms by (auto simp: apply_poll_update_def Let_def)

lemma apply_poll_update_changes:
  assumes "apply_poll_update u t i d = (c, d')"
  shows "wc_displays_changed c \<longleftrightarrow> \<not> displays_eq (wd_displays d) (wu_displays u)"
    "wc_focus_changed c =
       (if wd_focused d = wu_focused u \<and> wd_focus d = wu_focus u then None
        else Some (focus_change_of (wu_focus u)))"
  using assms by (auto simp: apply_poll_update_def Let_def)

text \<open>A subscriber's view: the focus after a list of events.\<close>

fun replay_focus :: "focus_snapshot option \<Rightarrow> world_event list \<Rightarrow> focus_snapshot option" where
  "replay_focus f [] = f"
| "replay_focus f (WE_DisplaysChanged # es) = replay_focus f es"
| "replay_focus f (WE_FocusChanged (Focused s) # es) = replay_focus (Some s) es"
| "replay_focus f (WE_FocusChanged Cleared # es) = replay_focus None es"

lemma replay_focus_append: "replay_focus f (xs @ ys) = replay_focus (replay_focus f xs) ys"
  by (induction f xs rule: replay_focus.induct) simp_all

lemma replay_published:
  assumes "apply_poll_update u t i d = (c, d')"
  shows "replay_focus (wd_focus d) (published_events c) = wd_focus d'"
  using apply_poll_update_state(3)[OF assms] apply_poll_update_changes(2)[OF assms]
  by (auto simp: published_events_def focus_change_of_def split: option.splits)

end
