(* ===== verification/Engine_State.thy ===== *)
theory Engine_State
  imports Runtime_State Key_State Relay Key_Binding Ui_Channel Repeater World_State
begin

text \<open>
  The engine (\<open>hotki-engine/src/lib.rs\<close>): its state, what it takes from outside, the
  outcome of a dispatch, and lifted operations of its parts.  A dispatch or a
  background step runs to its end before the next one starts; the state its locks
  protect is one record.
\<close>

subsection \<open>Dispatch outcomes\<close>

datatype dispatch_result = AutoExit | Stay | Navigation | EnteredMode | SelectorOpened

definition should_auto_exit :: "dispatch_result \<Rightarrow> bool" where
  "should_auto_exit r \<longleftrightarrow> r = AutoExit"

definition with_stay :: "dispatch_result \<Rightarrow> bool \<Rightarrow> dispatch_result" where
  "with_stay r stay = (if stay \<and> should_auto_exit r then Stay else r)"

primrec result_priority :: "dispatch_result \<Rightarrow> nat" where
  "result_priority AutoExit = 0"
| "result_priority Stay = 1"
| "result_priority Navigation = 2"
| "result_priority EnteredMode = 3"
| "result_priority SelectorOpened = 4"

definition combine :: "dispatch_result \<Rightarrow> dispatch_result \<Rightarrow> dispatch_result" where
  "combine a b = (if result_priority a < result_priority b then b else a)"

lemma result_priority_inject [simp]: "result_priority a = result_priority b \<longleftrightarrow> a = b"
  by (cases a; cases b) simp_all

lemma combine_max: "result_priority (combine a b) = max (result_priority a) (result_priority b)"
  by (auto simp: combine_def)

text \<open>Outcomes combine in any order and grouping.\<close>

lemma combine_assoc: "combine (combine a b) c = combine a (combine b c)"
  by (simp add: combine_max flip: result_priority_inject)

lemma combine_commute: "combine a b = combine b a"
  by (simp add: combine_max max.commute flip: result_priority_inject)

lemma combine_simps [simp]: "combine a a = a" "combine AutoExit a = a" "combine a AutoExit = a"
  by (simp_all add: combine_max flip: result_priority_inject)

subsection \<open>The state\<close>

record held_binding =
  hb_identifier :: string
  hb_chord :: chord

text \<open>
  The tick callback of a held action: \<open>cl_id\<close> stands for its \<open>running\<close> flag, which is
  shared by its ticks.
\<close>

record action_closure =
  cl_id :: nat
  cl_identifier :: string
  cl_action :: handler_ref
  cl_ctx :: mode_ctx

record ('v, 'm, 's) engine_env =
  ev_vm :: "'v vm_ops"
  ev_matcher :: "'m matcher_ops"
  ev_api :: "('s, engine_error) hotkey_api"
  ev_ident_order :: "string list \<Rightarrow> string list"
  ev_gesture_order :: "(string \<times> active_gesture) list \<Rightarrow> (string \<times> active_gesture) list"
  ev_held_refs :: "repeater \<Rightarrow> nat list"
  ev_load :: "string \<Rightarrow> config_error + 'v config"
  ev_displays :: displays_snapshot
  ev_world_focus :: "focus_snapshot option"
  ev_resolve_application :: "string \<Rightarrow> application_resolution"
  ev_shell :: "string option"
  ev_current_dir :: "string option"

record ('v, 'm, 's) engine =
  en_runtime :: "'m runtime_state"
  en_manager :: "'s binding_manager"
  en_keys :: key_states
  en_held :: "32 word \<Rightarrow> held_binding option"
  en_config :: "'v config option"
  en_config_path :: "string option"
  en_focus :: "focus_snapshot option"
  en_sync_on_dispatch :: bool
  en_displays :: displays_snapshot
  en_relay :: relay_state
  en_ui :: ui_channel
  en_repeater :: repeater
  en_actions :: "action_closure ticker"
  en_ticks :: "action_closure list"
  en_next_closure :: nat

definition engine_build :: "'s \<Rightarrow> bool \<Rightarrow> bool \<Rightarrow> nat \<Rightarrow> (nat \<Rightarrow> relay_error option) \<Rightarrow> ('v, 'm, 's) engine" where
  "engine_build api_state relay_enabled sync_on_dispatch cap oracle =
     \<lparr>en_runtime = runtime_empty, en_manager = binding_manager_new api_state, en_keys = (\<lambda>_. None),
      en_held = (\<lambda>_. None), en_config = None, en_config_path = None, en_focus = None,
      en_sync_on_dispatch = sync_on_dispatch, en_displays = displays_default,
      en_relay = relay_new relay_enabled oracle,
      en_ui = \<lparr>sent = [], unread = 0, capacity = cap, closed = False\<rparr>,
      en_repeater = repeater_new, en_actions = ticker_empty, en_ticks = [], en_next_closure = 0\<rparr>"

subsection \<open>Sequencing\<close>

text \<open>The \<open>?\<close> operator over a state.\<close>

definition ebind :: "('e + 'a) \<times> 's \<Rightarrow> ('a \<Rightarrow> 's \<Rightarrow> ('e + 'b) \<times> 's) \<Rightarrow> ('e + 'b) \<times> 's" where
  "ebind r f = (case r of (Inl e, s) \<Rightarrow> (Err e, s) | (Inr x, s) \<Rightarrow> f x s)"

lemma ebind_simps [simp]: "ebind (Inl e, s) f = (Inl e, s)" "ebind (Inr x, s) f = f x s"
  by (simp_all add: ebind_def)

lemma ebind_Ok: "ebind r f = (Inr y, s') \<longleftrightarrow> (\<exists>x s. r = (Inr x, s) \<and> f x s = (Inr y, s'))"
  by (cases r; cases "fst r") (auto simp: ebind_def)

text \<open>A predicate every branch of a sequence keeps.\<close>

lemma ebind_inv:
  assumes "P (snd r)" and "\<And>x s. r = (Inr x, s) \<Longrightarrow> P s \<Longrightarrow> P (snd (f x s))"
  shows "P (snd (ebind r f))"
  using assms by (cases r; cases "fst r") auto

definition on_ui ::
  "(ui_channel \<Rightarrow> (engine_error + unit) \<times> ui_channel) \<Rightarrow> ('v, 'm, 's) engine
   \<Rightarrow> (engine_error + unit) \<times> ('v, 'm, 's) engine" where
  "on_ui f e = (let (r, ch) = f (en_ui e) in (r, e\<lparr>en_ui := ch\<rparr>))"

definition on_runtime ::
  "('m runtime_state \<Rightarrow> 'm runtime_state) \<Rightarrow> ('v, 'm, 's) engine \<Rightarrow> ('v, 'm, 's) engine" where
  "on_runtime f e = e\<lparr>en_runtime := f (en_runtime e)\<rparr>"

lemma on_ui_snd: "snd (on_ui f e) = e\<lparr>en_ui := snd (f (en_ui e))\<rparr>"
  by (simp add: on_ui_def case_prod_beta)

end
