(* ===== verification/Refresh.thy ===== *)
theory Refresh
  imports Engine_State
begin

text \<open>
  Refreshing the engine (\<open>hotki-engine/src/refresh.rs\<close>): the plan computed from the
  runtime state, recovery from render errors, installing a configuration and
  rebinding, with their rollbacks.
\<close>

subsection \<open>Plans\<close>

record refresh_plan =
  plan_warnings :: "effect list"
  plan_errors :: "string list"
  plan_key_pairs :: "(string \<times> chord) list"
  plan_capture_all :: bool
  plan_hud :: hud_state

definition hud_state_for_ui :: "'m runtime_state \<Rightarrow> hud_state" where
  "hud_state_for_ui rt =
     \<lparr>hud_state_visible = rt_hud_visible rt, hud_state_rows = rs_hud_rows (rt_rendered rt),
      hud_state_depth = rt_depth rt, hud_state_breadcrumbs = breadcrumbs (rt_stack rt),
      hud_state_style = rs_style (rt_rendered rt),
      hud_state_capture = (rt_hud_visible rt \<and> rs_capture (rt_rendered rt))\<rparr>"

text \<open>One render pass: the warnings, or the error as text.\<close>

definition try_render ::
  "'v vm_ops \<Rightarrow> mode_ctx \<Rightarrow> 'm runtime_state \<Rightarrow> 'v config
   \<Rightarrow> (string + effect list) \<times> 'm runtime_state \<times> 'v config" where
  "try_render vm ctx rt cfg =
     (case config_render vm ctx (rt_stack rt) cfg of
        (Inl err, stack, cfg') \<Rightarrow> (Err (error_pretty err), rt\<lparr>rt_stack := stack\<rparr>, cfg')
      | (Inr (st, warnings), stack, cfg') \<Rightarrow>
          (Ok warnings, rt\<lparr>rt_stack := stack, rt_rendered := st\<rparr>, cfg'))"

definition render_stack_with_recovery ::
  "'v vm_ops \<Rightarrow> 'm runtime_state \<Rightarrow> 'v config
   \<Rightarrow> (effect list \<times> string list) \<times> 'm runtime_state \<times> 'v config" where
  "render_stack_with_recovery vm rt cfg =
     (let ctx = mode_ctx_of (rt_focus rt) (rt_hud_visible rt) (rt_depth rt) in
      case try_render vm ctx rt cfg of
        (Inr warnings, rt1, cfg1) \<Rightarrow> ((warnings, []), rt1, cfg1)
      | (Inl err1, rt1, cfg1) \<Rightarrow>
          (let rt2 = rt1\<lparr>rt_stack := snd (reset_to_root (rt_stack rt1))\<rparr> in
           case try_render vm (ctx\<lparr>ctx_depth := 0\<rparr>) rt2 cfg1 of
             (Inr warnings, rt3, cfg3) \<Rightarrow> ((warnings, [err1]), rt3, cfg3)
           | (Inl err2, rt3, cfg3) \<Rightarrow>
               (([], [err1, err2]), rt3\<lparr>rt_rendered := empty_rendered (cfg_base_style cfg3)\<rparr>, cfg3)))"

definition build_loaded_refresh_plan ::
  "'v vm_ops \<Rightarrow> 'm runtime_state \<Rightarrow> 'v config \<Rightarrow> refresh_plan \<times> 'm runtime_state \<times> 'v config" where
  "build_loaded_refresh_plan vm rt0 cfg =
     (let rt = rt0\<lparr>rt_stack := ensure_stack cfg (rt_stack rt0)\<rparr> in
      if rt_selector rt \<noteq> None
      then (\<lparr>plan_warnings = [], plan_errors = [],
             plan_key_pairs = map (\<lambda>c. (chord_to_string c, c)) selector_capture_chords,
             plan_capture_all = True, plan_hud = hud_state_for_ui rt\<rparr>, rt, cfg)
      else
        let ((warnings, errors), rt1, cfg1) = render_stack_with_recovery vm rt cfg
        in (\<lparr>plan_warnings = warnings, plan_errors = errors,
             plan_key_pairs =
               sort_key fst (map (\<lambda>(c, b). (chord_to_string c, c)) (rs_bindings (rt_rendered rt1))),
             plan_capture_all = (rt_hud_visible rt1 \<and> rs_capture (rt_rendered rt1)),
             plan_hud = hud_state_for_ui rt1\<rparr>, rt1, cfg1))"

definition build_refresh_plan ::
  "'v vm_ops \<Rightarrow> focus_snapshot option \<Rightarrow> 'm runtime_state \<Rightarrow> 'v config option
   \<Rightarrow> refresh_plan \<times> 'm runtime_state \<times> 'v config option" where
  "build_refresh_plan vm focus rt0 cfg =
     (let rt = rt0\<lparr>rt_focus := context_window focus rt0\<rparr> in
      case cfg of
        Some c \<Rightarrow>
          (let (plan, rt1, c1) = build_loaded_refresh_plan vm rt c in (plan, rt1, Some c1))
      | None \<Rightarrow>
          (let rt1 = clear_config_state ui_style_default rt
           in (\<lparr>plan_warnings = [], plan_errors = [], plan_key_pairs = [], plan_capture_all = False,
                plan_hud = hud_state_for_ui rt1\<rparr>, rt1, None)))"

subsection \<open>Committing\<close>

fun deliver_warnings :: "effect list \<Rightarrow> ui_channel \<Rightarrow> ui_channel" where
  "deliver_warnings [] ch = ch"
| "deliver_warnings (Eff_Notify kind title body # es) ch =
     deliver_warnings es (snd (send_notification kind title body ch))"
| "deliver_warnings (_ # es) ch = deliver_warnings es ch"

definition deliver_refresh_diagnostics :: "string list \<Rightarrow> effect list \<Rightarrow> ui_channel \<Rightarrow> ui_channel" where
  "deliver_refresh_diagnostics errors warnings ch =
     deliver_warnings warnings (fold (\<lambda>m ch. snd (send_error ''Config'' m ch)) errors ch)"

text \<open>When the bindings changed, held repeats and relayed gestures end.\<close>

definition clear_repeats ::
  "('v, 'm, 's) engine_env \<Rightarrow> ('v, 'm, 's) engine \<Rightarrow> ('v, 'm, 's) engine" where
  "clear_repeats env e =
     e\<lparr>en_repeater := rp_stop_repeats (ev_held_refs env (en_repeater e)) (en_repeater e),
       en_actions := ticker_clear (en_actions e),
       en_relay := relay_release_all (ev_gesture_order env) (en_relay e)\<rparr>"

record ('v, 'm) prepared_config =
  prep_path :: string
  prep_config :: "'v config"
  prep_runtime :: "'m runtime_state"
  prep_plan :: refresh_plan
  prep_displays :: displays_snapshot

datatype config_install = ResetFocus | KeepFocus

fun join_lines :: "string list \<Rightarrow> string" where
  "join_lines ls = join_with [newline] ls"

definition prepare_config ::
  "('v, 'm, 's) engine_env \<Rightarrow> string \<Rightarrow> config_install \<Rightarrow> ('v, 'm, 's) engine
   \<Rightarrow> engine_error + ('v, 'm) prepared_config" where
  "prepare_config env path mode e =
     (case ev_load env path of
        Inl err \<Rightarrow> Err (Msg_Error (error_pretty err))
      | Inr cfg \<Rightarrow>
          (let (hud_visible, focus) =
                 (case mode of
                    ResetFocus \<Rightarrow> (False, en_focus e)
                  | KeepFocus \<Rightarrow> (rt_hud_visible (en_runtime e), rt_focus (en_runtime e)));
               rt0 = runtime_empty\<lparr>rt_hud_visible := hud_visible, rt_focus := focus\<rparr>;
               rt1 = (if hud_visible then start_session focus rt0 else rt0);
               rt2 = rt_install_config cfg rt1;
               (plan, rt3, cfg') = build_refresh_plan (ev_vm env) focus rt2 (Some cfg)
           in if plan_errors plan \<noteq> [] then Err (Msg_Error (join_lines (plan_errors plan)))
              else Ok \<lparr>prep_path = path, prep_config = (case cfg' of Some c \<Rightarrow> c | None \<Rightarrow> cfg),
                       prep_runtime = rt3, prep_plan = plan, prep_displays = ev_displays env\<rparr>))"

definition commit_config ::
  "('v, 'm, 's) engine_env \<Rightarrow> ('v, 'm) prepared_config \<Rightarrow> ('v, 'm, 's) engine
   \<Rightarrow> (engine_error + unit) \<times> ('v, 'm, 's) engine" where
  "commit_config env p e =
     (case reserve_ui (en_ui e) of
        Inl err \<Rightarrow> (Err err, e)
      | Inr _ \<Rightarrow>
          (let plan = prep_plan p in
           case update_bindings (ev_ident_order env) (ev_api env) (plan_key_pairs plan) (en_manager e) of
             (Inl err, m) \<Rightarrow> (Err err, e\<lparr>en_manager := m\<rparr>)
           | (Inr changed, m) \<Rightarrow>
               (let e1 = e\<lparr>en_manager := set_capture_all (ev_api env) (plan_capture_all plan) m,
                           en_config := Some (prep_config p), en_runtime := prep_runtime p,
                           en_config_path := Some (prep_path p), en_displays := prep_displays p,
                           en_ui := chan_push (HudUpdate (plan_hud plan) (prep_displays p)) (en_ui e)\<rparr>;
                    e2 = (if changed then clear_repeats env e1 else e1)
                in (Ok (), e2\<lparr>en_ui := deliver_refresh_diagnostics (plan_errors plan) (plan_warnings plan) (en_ui e2)\<rparr>))))"

definition install_config ::
  "('v, 'm, 's) engine_env \<Rightarrow> string \<Rightarrow> config_install \<Rightarrow> ('v, 'm, 's) engine
   \<Rightarrow> (engine_error + unit) \<times> ('v, 'm, 's) engine" where
  "install_config env path mode e =
     (case prepare_config env path mode e of
        Inl err \<Rightarrow> (Err err, e)
      | Inr p \<Rightarrow> commit_config env p e)"

definition set_config_path ::
  "('v, 'm, 's) engine_env \<Rightarrow> string \<Rightarrow> ('v, 'm, 's) engine \<Rightarrow> (engine_error + unit) \<times> ('v, 'm, 's) engine" where
  "set_config_path env path e = install_config env path ResetFocus e"

subsection \<open>Rebinding\<close>

text \<open>The runtime state and configuration after a failed rebind.\<close>

definition rollback_runtime ::
  "'v vm_ops \<Rightarrow> runtime_checkpoint \<Rightarrow> focus_snapshot option \<Rightarrow> bool
   \<Rightarrow> 'm runtime_state \<Rightarrow> 'v config option \<Rightarrow> 'm runtime_state \<times> 'v config option" where
  "rollback_runtime vm cp rollback_focus selector_active rt cfg =
     (let rt1 = restore cp rt in
      case cfg of
        Some c \<Rightarrow>
          if selector_active then (rt1, cfg)
          else let (restored, rt2, cfg2) = build_refresh_plan vm rollback_focus rt1 cfg
               in (if plan_errors restored \<noteq> [] then restore cp rt2 else rt2, cfg2)
      | None \<Rightarrow> (rt1, cfg))"

definition rebind_and_refresh ::
  "('v, 'm, 's) engine_env \<Rightarrow> focus_snapshot option \<Rightarrow> ('v, 'm, 's) engine
   \<Rightarrow> (engine_error + unit) \<times> ('v, 'm, 's) engine" where
  "rebind_and_refresh env focus e =
     (case reserve_ui (en_ui e) of
        Inl err \<Rightarrow> (Err err, e)
      | Inr _ \<Rightarrow>
          (let cp = checkpoint (en_runtime e);
               (plan, rt, cfg) = build_refresh_plan (ev_vm env) focus (en_runtime e) (en_config e)
           in case update_bindings (ev_ident_order env) (ev_api env) (plan_key_pairs plan) (en_manager e) of
                (Inl err, m) \<Rightarrow>
                  (let (rt', cfg') = rollback_runtime (ev_vm env) cp (rt_focus (en_runtime e))
                         (rt_selector (en_runtime e) \<noteq> None) rt cfg
                   in (Err err, e\<lparr>en_manager := m, en_runtime := rt', en_config := cfg'\<rparr>))
              | (Inr changed, m) \<Rightarrow>
                  (let e1 = e\<lparr>en_manager := set_capture_all (ev_api env) (plan_capture_all plan) m,
                              en_config := cfg, en_runtime := rt, en_displays := ev_displays env,
                              en_ui := chan_push (HudUpdate (plan_hud plan) (ev_displays env)) (en_ui e)\<rparr>;
                       e2 = (if changed then clear_repeats env e1 else e1)
                   in (Ok (), e2\<lparr>en_ui := deliver_refresh_diagnostics (plan_errors plan) (plan_warnings plan) (en_ui e2)\<rparr>))))"


subsection \<open>What a refresh keeps\<close>

text \<open>The part of the runtime state no render changes.\<close>

definition session_view ::
  "'m runtime_state \<Rightarrow> bool \<times> mode_session option \<times> 'm selector_state option \<times> focus_snapshot option" where
  "session_view rt = (rt_hud_visible rt, rt_session rt, rt_selector rt, rt_focus rt)"

lemma session_view_simps [simp]:
  "session_view (rt\<lparr>rt_stack := st\<rparr>) = session_view rt"
  "session_view (rt\<lparr>rt_rendered := rs\<rparr>) = session_view rt"
  "session_view (rt\<lparr>rt_stack := st, rt_rendered := rs\<rparr>) = session_view rt"
  by (simp_all add: session_view_def)

lemma session_viewD:
  assumes "session_view rt' = session_view rt"
  shows "rt_hud_visible rt' = rt_hud_visible rt" "rt_session rt' = rt_session rt"
    "rt_selector rt' = rt_selector rt" "rt_focus rt' = rt_focus rt"
  using assms by (simp_all add: session_view_def)

text \<open>The outcome of one pass and the configuration call it stands for.\<close>

lemma try_render_cases:
  assumes "try_render vm ctx rt cfg = (r, rt', cfg')"
  obtains (err) e st where "r = Err (error_pretty e)" "config_render vm ctx (rt_stack rt) cfg = (Err e, st, cfg')"
      "rt' = rt\<lparr>rt_stack := st\<rparr>"
    | (ok) ws rs st where "r = Ok ws" "config_render vm ctx (rt_stack rt) cfg = (Ok (rs, ws), st, cfg')"
      "rt' = rt\<lparr>rt_stack := st, rt_rendered := rs\<rparr>"
  using assms by (auto simp: try_render_def split: prod.splits sum.splits)

lemma recovery_cases:
  assumes "render_stack_with_recovery vm rt cfg = ((ws, errs), rt', cfg')"
  obtains (ok) ctx rs st where "errs = []" "config_render vm ctx (rt_stack rt) cfg = (Ok (rs, ws), st, cfg')"
      "rt' = rt\<lparr>rt_stack := st, rt_rendered := rs\<rparr>"
    | (root) ctx ctx' e st cfg1 rs st' where "errs = [error_pretty e]"
      "config_render vm ctx (rt_stack rt) cfg = (Err e, st, cfg1)"
      "config_render vm ctx' (snd (reset_to_root st)) cfg1 = (Ok (rs, ws), st', cfg')"
      "rt' = rt\<lparr>rt_stack := st', rt_rendered := rs\<rparr>"
    | (empty) ctx ctx' e e' st cfg1 st' where "errs = [error_pretty e, error_pretty e']" "ws = []"
      "config_render vm ctx (rt_stack rt) cfg = (Err e, st, cfg1)"
      "config_render vm ctx' (snd (reset_to_root st)) cfg1 = (Err e', st', cfg')"
      "rt' = rt\<lparr>rt_stack := st', rt_rendered := empty_rendered (cfg_base_style cfg')\<rparr>"
proof -
  define ctx where "ctx = mode_ctx_of (rt_focus rt) (rt_hud_visible rt) (rt_depth rt)"
  obtain r1 rt1 cfg1 where t1: "try_render vm ctx rt cfg = (r1, rt1, cfg1)" by (metis prod_cases3)
  let ?rt2 = "rt1\<lparr>rt_stack := snd (reset_to_root (rt_stack rt1))\<rparr>"
  obtain r2 rt3 cfg3 where t2: "try_render vm (ctx\<lparr>ctx_depth := 0\<rparr>) ?rt2 cfg1 = (r2, rt3, cfg3)"
    by (metis prod_cases3)
  note eq = assms [unfolded render_stack_with_recovery_def Let_def ctx_def [symmetric] t1 split]
  from t1 show ?thesis
  proof (cases rule: try_render_cases)
    case ok
    with eq show ?thesis by (auto intro: that(1))
  next
    case err1: (err e st)
    note eq2 = eq [unfolded err1 old.sum.simps prod.case, folded err1(3), unfolded t2 split]
    from t2 show ?thesis
    proof (cases rule: try_render_cases)
      case ok
      with eq2 err1 show ?thesis by (intro that(2)) auto
    next
      case err
      with eq2 err1 show ?thesis by (intro that(3)) auto
    qed
  qed
qed

lemma recovery_view:
  "render_stack_with_recovery vm rt cfg = ((ws, errs), rt', cfg') \<Longrightarrow> session_view rt' = session_view rt"
  by (erule recovery_cases) simp_all

subsection \<open>What is bound after a refresh\<close>

definition bound_chord :: "'m runtime_state \<Rightarrow> chord \<Rightarrow> bool" where
  "bound_chord rt c \<longleftrightarrow>
     (if rt_selector rt \<noteq> None then c \<in> set selector_capture_chords
      else resolve_binding (rt_rendered rt) c \<noteq> None)"

definition capture_wanted :: "'m runtime_state \<Rightarrow> bool" where
  "capture_wanted rt \<longleftrightarrow> rt_selector rt \<noteq> None \<or> rt_hud_visible rt \<and> rs_capture (rt_rendered rt)"

text \<open>The bindings of a manager are those of a runtime state.\<close>

definition binds_exactly :: "(string \<Rightarrow> chord option) \<Rightarrow> 'm runtime_state \<Rightarrow> bool" where
  "binds_exactly chords rt \<longleftrightarrow> (\<forall>i c. chords i = Some c \<longleftrightarrow> i = chord_to_string c \<and> bound_chord rt c)"

definition plan_matches :: "refresh_plan \<Rightarrow> 'm runtime_state \<Rightarrow> bool" where
  "plan_matches plan rt \<longleftrightarrow> binds_exactly (map_of (rev (plan_key_pairs plan))) rt \<and>
     plan_capture_all plan = capture_wanted rt \<and> plan_hud plan = hud_state_for_ui rt"

definition engine_synced :: "('v, 'm, 's) engine \<Rightarrow> bool" where
  "engine_synced e \<longleftrightarrow> binds_exactly (chord_for_ident (en_manager e)) (en_runtime e) \<and>
     capture_all_active (en_manager e) = capture_wanted (en_runtime e)"

lemma map_of_chord_pairs:
  assumes "set ps = (\<lambda>c. (chord_to_string c, c)) ` S"
  shows "map_of (rev ps) i = Some c \<longleftrightarrow> i = chord_to_string c \<and> c \<in> S"
proof
  assume "map_of (rev ps) i = Some c"
  then have "(i, c) \<in> set ps" using map_of_SomeD by fastforce
  then show "i = chord_to_string c \<and> c \<in> S" using assms by auto
next
  assume c: "i = chord_to_string c \<and> c \<in> S"
  then have "(i, c) \<in> set (rev ps)" using assms by auto
  then obtain d where d: "map_of (rev ps) i = Some d"
    using weak_map_of_SomeI [of i c "rev ps"] by blast
  then have "(i, d) \<in> set ps" using map_of_SomeD by fastforce
  then have "d = c" using c assms by (auto simp: chord_to_string_inject)
  then show "map_of (rev ps) i = Some c" using d by simp
qed

lemma resolve_binding_iff: "resolve_binding st c \<noteq> None \<longleftrightarrow> c \<in> fst ` set (rs_bindings st)"
  by (simp add: resolve_binding_def find_pair_map_of map_of_eq_None_iff)

lemma build_loaded_matches:
  assumes "build_loaded_refresh_plan vm rt cfg = (plan, rt', cfg')"
  shows "session_view rt' = session_view rt" "plan_matches plan rt'"
proof -
  let ?rt = "rt\<lparr>rt_stack := ensure_stack cfg (rt_stack rt)\<rparr>"
  have "session_view rt' = session_view rt \<and> plan_matches plan rt'"
  proof (cases "rt_selector rt = None")
    case False
    have "set (map (\<lambda>c. (chord_to_string c, c)) selector_capture_chords)
      = (\<lambda>c. (chord_to_string c, c)) ` set selector_capture_chords" by simp
    from map_of_chord_pairs [OF this] False assms show ?thesis
      by (auto simp: build_loaded_refresh_plan_def Let_def plan_matches_def binds_exactly_def
          bound_chord_def capture_wanted_def)
  next
    case True
    obtain ws errs rt1 cfg1 where rec: "render_stack_with_recovery vm ?rt cfg = ((ws, errs), rt1, cfg1)"
      by (metis prod_cases4 surj_pair)
    have view: "session_view rt1 = session_view rt" using recovery_view [OF rec] by simp
    let ?pairs = "sort_key fst (map (\<lambda>(c, b). (chord_to_string c, c)) (rs_bindings (rt_rendered rt1)))"
    have "set ?pairs = (\<lambda>c. (chord_to_string c, c)) ` fst ` set (rs_bindings (rt_rendered rt1))" by force
    note pairs = map_of_chord_pairs [OF this, folded resolve_binding_iff]
    have "plan = \<lparr>plan_warnings = ws, plan_errors = errs, plan_key_pairs = ?pairs,
        plan_capture_all = (rt_hud_visible rt1 \<and> rs_capture (rt_rendered rt1)),
        plan_hud = hud_state_for_ui rt1\<rparr>" "rt' = rt1"
      using assms True rec by (auto simp: build_loaded_refresh_plan_def Let_def)
    moreover have "rt_selector rt1 = None" using session_viewD(3) [OF view] True by simp
    ultimately show ?thesis
      using view pairs
      by (simp add: plan_matches_def binds_exactly_def bound_chord_def capture_wanted_def resolve_binding_iff)
  qed
  then show "session_view rt' = session_view rt" "plan_matches plan rt'" by blast+
qed

text \<open>With or without a configuration.\<close>

lemma build_plan_matches:
  assumes "build_refresh_plan vm focus rt cfg = (plan, rt', cfg')"
  shows "plan_matches plan rt'"
    and "cfg \<noteq> None \<Longrightarrow> cfg' \<noteq> None \<and> session_view rt' = session_view (rt\<lparr>rt_focus := context_window focus rt\<rparr>)"
    and "cfg = None \<Longrightarrow> cfg' = None \<and> rt_selector rt' = None \<and> rs_bindings (rt_rendered rt') = []"
proof -
  let ?rt = "rt\<lparr>rt_focus := context_window focus rt\<rparr>"
  have "plan_matches plan rt' \<and>
    (if cfg = None then cfg' = None \<and> rt_selector rt' = None \<and> rs_bindings (rt_rendered rt') = []
     else cfg' \<noteq> None \<and> session_view rt' = session_view ?rt)"
  proof (cases cfg)
    case None
    with assms show ?thesis
      by (auto simp: build_refresh_plan_def Let_def plan_matches_def binds_exactly_def bound_chord_def
          capture_wanted_def clear_config_state_def empty_rendered_def resolve_binding_def)
  next
    case (Some c)
    obtain p rt1 c1 where l: "build_loaded_refresh_plan vm ?rt c = (p, rt1, c1)" by (metis prod_cases3)
    from assms Some l have "p = plan" "rt1 = rt'" "cfg' = Some c1"
      by (auto simp: build_refresh_plan_def Let_def)
    with build_loaded_matches [OF l] Some show ?thesis by simp
  qed
  then show "plan_matches plan rt'"
    and "cfg \<noteq> None \<Longrightarrow> cfg' \<noteq> None \<and> session_view rt' = session_view ?rt"
    and "cfg = None \<Longrightarrow> cfg' = None \<and> rt_selector rt' = None \<and> rs_bindings (rt_rendered rt') = []"
    by (simp_all split: if_splits)
qed

subsection \<open>Diagnostics\<close>

definition is_notify :: "msg_to_ui \<Rightarrow> bool" where
  "is_notify m \<longleftrightarrow> (\<exists>k t b. m = Notify k t b)"

definition notifies_more :: "ui_channel \<Rightarrow> ui_channel \<Rightarrow> bool" where
  "notifies_more ch ch' \<longleftrightarrow> (\<exists>ms. sent ch' = sent ch @ ms \<and> list_all is_notify ms)"

lemma notifies_more_refl [simp, intro]: "notifies_more ch ch"
  by (simp add: notifies_more_def)

lemma notifies_more_trans: "notifies_more a b \<Longrightarrow> notifies_more b c \<Longrightarrow> notifies_more a c"
  unfolding notifies_more_def by (metis append.assoc list_all_append)

lemma send_notification_more: "notifies_more ch (snd (send_notification k t b ch))"
  by (simp add: send_notification_def try_send_ui_def notifies_more_def is_notify_def)

lemma send_error_more: "notifies_more ch (snd (send_error t b ch))"
  unfolding send_error_def by (rule send_notification_more)

lemma deliver_warnings_more: "notifies_more ch (deliver_warnings ws ch)"
  by (induction ws ch rule: deliver_warnings.induct)
     (auto intro: notifies_more_trans send_notification_more)

lemma deliver_refresh_diagnostics_more: "notifies_more ch (deliver_refresh_diagnostics errs ws ch)"
proof -
  have "notifies_more ch (fold (\<lambda>m ch. snd (send_error ''Config'' m ch)) errs ch)"
  proof (induction errs arbitrary: ch)
    case (Cons m errs)
    show ?case by simp (rule notifies_more_trans [OF send_error_more Cons.IH])
  qed simp
  then show ?thesis
    unfolding deliver_refresh_diagnostics_def by (rule notifies_more_trans [OF _ deliver_warnings_more])
qed

subsection \<open>Releasing what is held\<close>

definition nothing_held :: "('v, 'm, 's) engine \<Rightarrow> bool" where
  "nothing_held e \<longleftrightarrow> active (en_relay e) = [] \<and> tk_entries (en_actions e) = (\<lambda>_. None) \<and>
     tk_entries (rp_ticker (en_repeater e)) = (\<lambda>_. None) \<and> held_ids (en_repeater e) = {}"

lemma run_stop_frame:
  "rp_ticker (run_stop r rp) = rp_ticker rp"
  "rp_states (run_stop r rp) i = Some q \<Longrightarrow> rp_states rp i = Some q"
  "run_cancel_on_release (rp_heap (run_stop r rp) q) = run_cancel_on_release (rp_heap rp q)"
  by (auto simp: run_stop_def Let_def split: option.splits dest: end_task_states_Some)

lemma held_ids_run_stop: "held_ids rp = {} \<Longrightarrow> held_ids (run_stop r rp) = {}"
  using run_stop_frame(2, 3) [of r rp] by (fastforce simp: held_ids_def)

lemma fold_run_stop_held:
  "held_ids rp = {} \<Longrightarrow> held_ids (fold run_stop refs rp) = {} \<and> rp_ticker (fold run_stop refs rp) = rp_ticker rp"
  by (induction refs arbitrary: rp) (simp_all add: held_ids_run_stop run_stop_frame)

lemma rp_stop_repeats_releases:
  "held_ids (rp_stop_repeats refs rp) = {}" "tk_entries (rp_ticker (rp_stop_repeats refs rp)) = (\<lambda>_. None)"
proof -
  let ?rp = "rp\<lparr>rp_ticker := ticker_clear (rp_ticker rp),
           rp_states := (\<lambda>i. if i \<in> held_ids rp then None else rp_states rp i)\<rparr>"
  have "held_ids ?rp = {}" by (auto simp: held_ids_def)
  from fold_run_stop_held [OF this, of refs]
  show "held_ids (rp_stop_repeats refs rp) = {}" "tk_entries (rp_ticker (rp_stop_repeats refs rp)) = (\<lambda>_. None)"
    by (simp_all add: rp_stop_repeats_def ticker_clear_def)
qed

lemma clear_repeats_nothing_held: "nothing_held (clear_repeats env e)"
  by (simp add: nothing_held_def clear_repeats_def rp_stop_repeats_releases ticker_clear_def
      relay_release_all_def)

lemma clear_repeats_frame [simp]:
  "en_manager (clear_repeats env e) = en_manager e" "en_runtime (clear_repeats env e) = en_runtime e"
  "en_config (clear_repeats env e) = en_config e" "en_config_path (clear_repeats env e) = en_config_path e"
  "en_ui (clear_repeats env e) = en_ui e" "en_displays (clear_repeats env e) = en_displays e"
  "en_focus (clear_repeats env e) = en_focus e" "en_keys (clear_repeats env e) = en_keys e"
  "en_held (clear_repeats env e) = en_held e" "en_ticks (clear_repeats env e) = en_ticks e"
  by (simp_all add: clear_repeats_def)

lemma set_capture_all_simps [simp]:
  "bindings (set_capture_all api a m) = bindings m" "capture_all_active (set_capture_all api a m) = a"
  "chord_for_ident (set_capture_all api a m) = chord_for_ident m"
  by (auto simp: set_capture_all_def chord_for_ident_def Let_def fun_eq_iff)

subsection \<open>Applying a plan\<close>

text \<open>
  The end of a successful install or rebind: the given state published, what is held
  released when the bindings changed, diagnostics delivered.
\<close>

definition publish_plan ::
  "('v, 'm, 's) engine_env \<Rightarrow> refresh_plan \<Rightarrow> displays_snapshot \<Rightarrow> bool \<Rightarrow> 's binding_manager
   \<Rightarrow> ('v, 'm, 's) engine \<Rightarrow> ('v, 'm, 's) engine" where
  "publish_plan env plan displays changed m e =
     (let e1 = e\<lparr>en_manager := set_capture_all (ev_api env) (plan_capture_all plan) m,
                 en_displays := displays,
                 en_ui := chan_push (HudUpdate (plan_hud plan) displays) (en_ui e)\<rparr>;
          e2 = (if changed then clear_repeats env e1 else e1)
      in e2\<lparr>en_ui := deliver_refresh_diagnostics (plan_errors plan) (plan_warnings plan) (en_ui e2)\<rparr>)"

definition refreshed :: "('v, 'm, 's) engine \<Rightarrow> ('v, 'm, 's) engine \<Rightarrow> bool" where
  "refreshed e e' \<longleftrightarrow> engine_synced e' \<and> distinct (map fst (bindings (en_manager e'))) \<and>
     notifies_more (chan_push (HudUpdate (hud_state_for_ui (en_runtime e')) (en_displays e')) (en_ui e)) (en_ui e') \<and>
     (if chord_for_ident (en_manager e') = chord_for_ident (en_manager e)
      then en_relay e' = en_relay e \<and> en_repeater e' = en_repeater e \<and> en_actions e' = en_actions e
      else nothing_held e') \<and>
     en_keys e' = en_keys e \<and> en_held e' = en_held e \<and> en_focus e' = en_focus e \<and> en_ticks e' = en_ticks e"

lemma publish_plan_refreshed:
  assumes ord: "\<And>xs. mset (ev_ident_order env xs) = mset xs"
    and dist: "distinct (map fst (bindings (en_manager e)))"
    and upd: "update_bindings (ev_ident_order env) (ev_api env) (plan_key_pairs plan) (en_manager e) = (Ok changed, m)"
    and match: "plan_matches plan rt"
  shows "refreshed e (publish_plan env plan displays changed m
      (e\<lparr>en_config := cfg, en_runtime := rt, en_config_path := path\<rparr>))"
proof -
  have chords: "chord_for_ident m = map_of (rev (plan_key_pairs plan))"
    "changed \<longleftrightarrow> chord_for_ident (en_manager e) \<noteq> map_of (rev (plan_key_pairs plan))"
    using update_bindings_chords [OF ord dist upd] by simp_all
  note d = update_bindings_distinct [OF upd dist]
  define e' where "e' = publish_plan env plan displays changed m
    (e\<lparr>en_config := cfg, en_runtime := rt, en_config_path := path\<rparr>)"
  have fields: "en_manager e' = set_capture_all (ev_api env) (plan_capture_all plan) m"
    "en_runtime e' = rt" "en_displays e' = displays" "en_keys e' = en_keys e" "en_held e' = en_held e"
    "en_focus e' = en_focus e" "en_ticks e' = en_ticks e"
    and ui: "en_ui e' = deliver_refresh_diagnostics (plan_errors plan) (plan_warnings plan)
       (chan_push (HudUpdate (plan_hud plan) displays) (en_ui e))"
    by (simp_all add: e'_def publish_plan_def Let_def)
  have held: "if changed then nothing_held e'
    else en_relay e' = en_relay e \<and> en_repeater e' = en_repeater e \<and> en_actions e' = en_actions e"
    using clear_repeats_nothing_held by (auto simp: e'_def publish_plan_def Let_def nothing_held_def)
  have "engine_synced e'"
    using match chords(1) by (simp add: engine_synced_def fields plan_matches_def)
  moreover have "chord_for_ident (en_manager e') = chord_for_ident (en_manager e) \<longleftrightarrow> \<not> changed"
    using chords by (auto simp: fields)
  moreover have "notifies_more (chan_push (HudUpdate (hud_state_for_ui rt) displays) (en_ui e)) (en_ui e')"
    using match unfolding ui plan_matches_def by (simp add: deliver_refresh_diagnostics_more)
  ultimately have "refreshed e e'"
    using held d by (simp add: refreshed_def fields)
  then show ?thesis unfolding e'_def .
qed

subsection \<open>Rebinding\<close>

lemma rebind_cases:
  assumes "rebind_and_refresh env focus e = (r, e')"
  obtains (full) "r = Err ChannelClosed" "e' = e" "\<not> has_room (en_ui e)"
    | (failed) err plan rt cfg m rt' cfg' where "r = Err err" "has_room (en_ui e)"
      "build_refresh_plan (ev_vm env) focus (en_runtime e) (en_config e) = (plan, rt, cfg)"
      "update_bindings (ev_ident_order env) (ev_api env) (plan_key_pairs plan) (en_manager e) = (Err err, m)"
      "rollback_runtime (ev_vm env) (checkpoint (en_runtime e)) (rt_focus (en_runtime e))
         (rt_selector (en_runtime e) \<noteq> None) rt cfg = (rt', cfg')"
      "e' = e\<lparr>en_manager := m, en_runtime := rt', en_config := cfg'\<rparr>"
    | (ok) plan rt cfg m changed where "r = Ok ()" "has_room (en_ui e)"
      "build_refresh_plan (ev_vm env) focus (en_runtime e) (en_config e) = (plan, rt, cfg)"
      "update_bindings (ev_ident_order env) (ev_api env) (plan_key_pairs plan) (en_manager e) = (Ok changed, m)"
      "e' = publish_plan env plan (ev_displays env) changed m
         (e\<lparr>en_config := cfg, en_runtime := rt, en_config_path := en_config_path e\<rparr>)"
proof -
  obtain plan rt cfg where b: "build_refresh_plan (ev_vm env) focus (en_runtime e) (en_config e) = (plan, rt, cfg)"
    by (metis prod_cases3)
  obtain u m where u: "update_bindings (ev_ident_order env) (ev_api env) (plan_key_pairs plan) (en_manager e) = (u, m)"
    by fastforce
  obtain rt' cfg' where rb: "rollback_runtime (ev_vm env) (checkpoint (en_runtime e)) (rt_focus (en_runtime e))
         (rt_selector (en_runtime e) \<noteq> None) rt cfg = (rt', cfg')"
    by fastforce
  note eq = assms [unfolded rebind_and_refresh_def Let_def b split u rb]
  show ?thesis
  proof (cases "has_room (en_ui e)")
    case False
    with eq show ?thesis by (intro full) (auto simp: reserve_ui_def)
  next
    case True
    show ?thesis
    proof (cases u)
      case (Inl err)
      with eq True show ?thesis by (intro failed [OF _ True b _ rb]) (auto simp: reserve_ui_def u)
    next
      case (Inr changed)
      have "r = Ok ()" "e' = publish_plan env plan (ev_displays env) changed m
         (e\<lparr>en_config := cfg, en_runtime := rt, en_config_path := en_config_path e\<rparr>)"
        using eq True Inr u by (cases e, auto simp: reserve_ui_def publish_plan_def Let_def)+
      with True b u Inr show ?thesis by (intro ok) auto
    qed
  qed
qed

text \<open>The runtime state a failed rebind leaves.\<close>

lemma rollback_view:
  assumes "rollback_runtime vm (checkpoint rt0) (rt_focus rt0) sel rt cfg = (rt', cfg')"
    and "rt_selector rt = rt_selector rt0" and "sel = (rt_selector rt0 \<noteq> None)"
  shows "rt_hud_visible rt' = rt_hud_visible rt0 \<and> rt_session rt' = rt_session rt0 \<and>
    rt_selector rt' = rt_selector rt0 \<and> (sel \<longrightarrow> rt' = rt0 \<and> cfg' = cfg)"
proof -
  have rs: "restore (checkpoint rt0) rt = rt0" using assms(2) by simp
  show ?thesis
  proof (cases "cfg = None \<or> sel")
    case True
    with assms(1) show ?thesis unfolding rollback_runtime_def Let_def rs by (auto split: option.splits)
  next
    case False
    then obtain c where c: "cfg = Some c" "\<not> sel" by auto
    obtain plan rt2 cfg2 where b: "build_refresh_plan vm (rt_focus rt0) rt0 (Some c) = (plan, rt2, cfg2)"
      by (metis prod_cases3)
    have view: "rt_hud_visible rt2 = rt_hud_visible rt0" "rt_session rt2 = rt_session rt0"
      "rt_selector rt2 = rt_selector rt0"
      using session_viewD [of rt2 "rt0\<lparr>rt_focus := context_window (rt_focus rt0) rt0\<rparr>"]
        build_plan_matches(2) [OF b] by simp_all
    have "rt' = (if plan_errors plan \<noteq> [] then restore (checkpoint rt0) rt2 else rt2)"
      using assms(1) c unfolding rollback_runtime_def Let_def rs by (simp add: b)
    then show ?thesis using view c by (simp split: if_splits)
  qed
qed

subsection \<open>Installing\<close>

lemma commit_cases:
  assumes "commit_config env p e = (r, e')"
  obtains (full) "r = Err ChannelClosed" "e' = e" "\<not> has_room (en_ui e)"
    | (failed) err m where "r = Err err" "has_room (en_ui e)"
      "update_bindings (ev_ident_order env) (ev_api env) (plan_key_pairs (prep_plan p)) (en_manager e) = (Err err, m)"
      "e' = e\<lparr>en_manager := m\<rparr>"
    | (ok) m changed where "r = Ok ()" "has_room (en_ui e)"
      "update_bindings (ev_ident_order env) (ev_api env) (plan_key_pairs (prep_plan p)) (en_manager e) = (Ok changed, m)"
      "e' = publish_plan env (prep_plan p) (prep_displays p) changed m
         (e\<lparr>en_config := Some (prep_config p), en_runtime := prep_runtime p, en_config_path := Some (prep_path p)\<rparr>)"
proof -
  obtain u m where u: "update_bindings (ev_ident_order env) (ev_api env) (plan_key_pairs (prep_plan p)) (en_manager e) = (u, m)"
    by fastforce
  note eq = assms [unfolded commit_config_def Let_def u split]
  show ?thesis
  proof (cases "has_room (en_ui e)")
    case False
    with eq show ?thesis by (intro full) (auto simp: reserve_ui_def)
  next
    case True
    show ?thesis
    proof (cases u)
      case (Inl err)
      with eq True show ?thesis by (intro failed [OF _ True]) (auto simp: reserve_ui_def u)
    next
      case (Inr changed)
      have "r = Ok ()" "e' = publish_plan env (prep_plan p) (prep_displays p) changed m
         (e\<lparr>en_config := Some (prep_config p), en_runtime := prep_runtime p, en_config_path := Some (prep_path p)\<rparr>)"
        using eq True Inr u by (cases e, auto simp: reserve_ui_def publish_plan_def Let_def)+
      with True u Inr show ?thesis by (intro ok) auto
    qed
  qed
qed

text \<open>A prepared configuration was loaded and rendered without errors, and its plan is that of its state.\<close>

lemma prepare_config_Ok:
  fixes p :: "('v, 'm) prepared_config"
  assumes "prepare_config env path mode e = Ok p"
  shows "prep_path p = path" "plan_matches (prep_plan p) (prep_runtime p)" "plan_errors (prep_plan p) = []"
    "rt_selector (prep_runtime p) = None"
    "rt_hud_visible (prep_runtime p) = (mode = KeepFocus \<and> rt_hud_visible (en_runtime e))"
    "\<exists>cfg. ev_load env path = Ok cfg"
proof -
  obtain cfg where cfg: "ev_load env path = Ok cfg"
    using assms by (auto simp: prepare_config_def split: sum.splits)
  define hud where "hud = (mode = KeepFocus \<and> rt_hud_visible (en_runtime e))"
  define focus where "focus = (case mode of ResetFocus \<Rightarrow> en_focus e | KeepFocus \<Rightarrow> rt_focus (en_runtime e))"
  have mode: "(case mode of ResetFocus \<Rightarrow> (False, en_focus e)
      | KeepFocus \<Rightarrow> (rt_hud_visible (en_runtime e), rt_focus (en_runtime e))) = (hud, focus)"
    by (cases mode) (simp_all add: hud_def focus_def)
  let ?rt0 = "runtime_empty\<lparr>rt_hud_visible := hud, rt_focus := focus\<rparr> :: 'm runtime_state"
  let ?rt = "rt_install_config cfg (if hud then start_session focus ?rt0 else ?rt0)"
  obtain plan rt3 cfg' where b: "build_refresh_plan (ev_vm env) focus ?rt (Some cfg) = (plan, rt3, cfg')"
    by (metis prod_cases3)
  have p: "plan_errors plan = []" "p = \<lparr>prep_path = path,
      prep_config = (case cfg' of Some c \<Rightarrow> c | None \<Rightarrow> cfg), prep_runtime = rt3, prep_plan = plan,
      prep_displays = ev_displays env\<rparr>"
    using assms by (auto simp: prepare_config_def cfg mode Let_def b split: if_splits)
  have "rt_selector rt3 = None" "rt_hud_visible rt3 = hud"
    using session_viewD [of rt3 "?rt\<lparr>rt_focus := context_window focus ?rt\<rparr>"] build_plan_matches(2) [OF b]
    by (simp_all add: rt_install_config_def)
  with p build_plan_matches(1) [OF b] cfg
  show "prep_path p = path" "plan_matches (prep_plan p) (prep_runtime p)" "plan_errors (prep_plan p) = []"
    "rt_selector (prep_runtime p) = None"
    "rt_hud_visible (prep_runtime p) = (mode = KeepFocus \<and> rt_hud_visible (en_runtime e))"
    "\<exists>cfg. ev_load env path = Ok cfg"
    by (simp_all add: hud_def)
qed

lemma publish_plan_frame [simp]:
  "en_runtime (publish_plan env plan d ch m e) = en_runtime e"
  "en_config (publish_plan env plan d ch m e) = en_config e"
  "en_config_path (publish_plan env plan d ch m e) = en_config_path e"
  "en_displays (publish_plan env plan d ch m e) = d"
  by (simp_all add: publish_plan_def Let_def)

lemma rebind_refreshed:
  assumes "\<And>xs. mset (ev_ident_order env xs) = mset xs"
    and "distinct (map fst (bindings (en_manager e)))"
    and "rebind_and_refresh env focus e = (Ok (), e')"
  shows "refreshed e e'"
  using assms(3)
proof (cases rule: rebind_cases)
  case (ok plan rt cfg m changed)
  show ?thesis
    unfolding ok(5) by (rule publish_plan_refreshed [OF assms(1, 2) ok(4) build_plan_matches(1) [OF ok(3)]])
qed simp_all

lemma commit_refreshed:
  assumes "\<And>xs. mset (ev_ident_order env xs) = mset xs"
    and "distinct (map fst (bindings (en_manager e)))"
    and "commit_config env p e = (Ok (), e')" and "plan_matches (prep_plan p) (prep_runtime p)"
  shows "refreshed e e'"
  using assms(3)
proof (cases rule: commit_cases)
  case (ok m changed)
  show ?thesis
    unfolding ok(4) by (rule publish_plan_refreshed [OF assms(1, 2) ok(3) assms(4)])
qed simp_all

text \<open>Rendering keeps a prefix of the mode stack, root included.\<close>

definition keeps_root :: "mode_stack \<Rightarrow> mode_stack \<Rightarrow> bool" where
  "keeps_root st st' \<longleftrightarrow> st' \<noteq> [] \<and> prefix (map frame_key st') (map frame_key st)"

lemma keeps_root_trans: "keeps_root a b \<Longrightarrow> keeps_root b c \<Longrightarrow> keeps_root a c"
  by (auto simp: keeps_root_def)

lemma keeps_root_length: "keeps_root st st' \<Longrightarrow> length st' \<le> length st"
  by (auto simp: keeps_root_def dest: prefix_length_le)

lemma reset_to_root_keeps:
  "st \<noteq> [] \<Longrightarrow> keeps_root st (snd (reset_to_root st)) \<and> length (snd (reset_to_root st)) = 1"
  by (cases st) (simp_all add: reset_to_root_def keeps_root_def)

lemma config_render_keeps:
  assumes "config_render vm ctx st cfg = (r, st', cfg')" and "st \<noteq> []"
  shows "keeps_root st st'"
proof -
  obtain r' where out: "render_outcome [] st r' st'" using render_outcome_final [OF assms(1)] by blast
  then have eq: "map frame_key st' = take (length st') (map frame_key st)" by (simp add: render_outcome_def)
  have "st' \<noteq> []" using out assms(2) by (cases "is_ok r'") (auto simp: render_outcome_def)
  then show ?thesis unfolding keeps_root_def by (subst eq) (simp add: take_is_prefix)
qed

lemma config_render_flat:
  "config_render vm ctx st cfg = (Ok (rs, ws), st', cfg') \<Longrightarrow> rs_bindings rs = flatten_bindings st'"
  by (erule render_stack_Ok) blast

text \<open>Rendering again after a reset leaves the root alone.\<close>

lemma recovered_root:
  assumes "config_render vm ctx st cfg = (r, st1, cfg1)" "st \<noteq> []"
    and "config_render vm ctx' (snd (reset_to_root st1)) cfg1 = (r', st', cfg')"
  shows "keeps_root st st' \<and> length st' = 1"
proof -
  note k1 = config_render_keeps [OF assms(1, 2)]
  have k2: "keeps_root st1 (snd (reset_to_root st1))" "length (snd (reset_to_root st1)) = 1"
    using k1 reset_to_root_keeps [of st1] by (simp_all add: keeps_root_def)
  then have "snd (reset_to_root st1) \<noteq> []" by (auto simp: keeps_root_def)
  note k3 = config_render_keeps [OF assms(3) this]
  then have "length st' = 1" using keeps_root_length [OF k3] k2(2) by (cases st') (auto simp: keeps_root_def)
  then show ?thesis using keeps_root_trans [OF k1 keeps_root_trans [OF k2(1) k3]] by blast
qed

subsection \<open>Properties\<close>

text \<open>
  C23: after a successful rebind the registered chords are exactly those the rendered
  state binds, or, while a selector is open, exactly the selector's own keys, each under
  its own identifier; capture-all is on exactly when the state asks for it; the first
  message the UI gets is that state, and only diagnostics follow.
\<close>

theorem rebind_synchronizes:
  assumes "\<And>xs. mset (ev_ident_order env xs) = mset xs"
    and "distinct (map fst (bindings (en_manager e)))"
    and "rebind_and_refresh env focus e = (Ok (), e')"
  shows "engine_synced e' \<and> distinct (map fst (bindings (en_manager e'))) \<and>
    notifies_more (chan_push (HudUpdate (hud_state_for_ui (en_runtime e')) (en_displays e')) (en_ui e)) (en_ui e')"
  using rebind_refreshed [OF assms] by (simp add: refreshed_def)

text \<open>
  a rebind that changes the bound chords ends every held repeat and relayed gesture;
  one that leaves them alone touches no relay, repeat or ticker; held keys are kept.
\<close>

theorem rebind_releases_on_change:
  assumes "\<And>xs. mset (ev_ident_order env xs) = mset xs"
    and "distinct (map fst (bindings (en_manager e)))"
    and "rebind_and_refresh env focus e = (r, e')"
  shows "(if chord_for_ident (en_manager e') = chord_for_ident (en_manager e)
      then en_relay e' = en_relay e \<and> en_repeater e' = en_repeater e \<and> en_actions e' = en_actions e
      else nothing_held e') \<and> en_keys e' = en_keys e \<and> en_held e' = en_held e"
  using assms(3)
proof (cases rule: rebind_cases)
  case (ok plan rt cfg m changed)
  with rebind_refreshed [OF assms(1, 2)] assms(3) show ?thesis by (simp add: refreshed_def)
next
  case (failed err plan rt cfg m rt' cfg')
  with update_bindings_chords [OF assms(1, 2) failed(4)] show ?thesis by simp
qed simp

text \<open>
  C6: a rebind that fails keeps the bound chords, capture, UI stream, relay and repeats;
  with a configuration loaded it keeps HUD visibility, mode session and selector, and with
  a selector open it restores the runtime state exactly.
\<close>

theorem rebind_failure_rolls_back:
  assumes "\<And>xs. mset (ev_ident_order env xs) = mset xs"
    and "distinct (map fst (bindings (en_manager e)))"
    and "rebind_and_refresh env focus e = (Err err, e')"
  shows "chord_for_ident (en_manager e') = chord_for_ident (en_manager e) \<and>
    capture_of (en_manager e') = capture_of (en_manager e) \<and>
    e' = e\<lparr>en_manager := en_manager e', en_runtime := en_runtime e', en_config := en_config e'\<rparr> \<and>
    (en_config e \<noteq> None \<longrightarrow>
       rt_hud_visible (en_runtime e') = rt_hud_visible (en_runtime e) \<and>
       rt_session (en_runtime e') = rt_session (en_runtime e) \<and>
       rt_selector (en_runtime e') = rt_selector (en_runtime e) \<and>
       (rt_selector (en_runtime e) \<noteq> None \<longrightarrow> en_runtime e' = en_runtime e))"
  using assms(3)
proof (cases rule: rebind_cases)
  case (failed err' plan rt cfg m rt' cfg')
  note kept = update_bindings_chords [OF assms(1, 2) failed(4)] update_bindings_capture [OF failed(4)]
  have "rt_hud_visible rt' = rt_hud_visible (en_runtime e) \<and> rt_session rt' = rt_session (en_runtime e) \<and>
      rt_selector rt' = rt_selector (en_runtime e) \<and> (rt_selector (en_runtime e) \<noteq> None \<longrightarrow> rt' = en_runtime e)"
    if "en_config e \<noteq> None"
  proof -
    have "rt_selector rt = rt_selector (en_runtime e)"
      using session_viewD(3) [of rt "(en_runtime e)\<lparr>rt_focus := context_window focus (en_runtime e)\<rparr>"]
        build_plan_matches(2) [OF failed(3) that] by simp
    from rollback_view [OF failed(5) this refl] show ?thesis by blast
  qed
  with kept failed show ?thesis by simp
qed simp_all

text \<open>
  C5: installing a configuration is all or nothing.  On success the new configuration is
  active under its path with no selector open, the registered chords are those it renders,
  and the HUD is visible only where a reload kept it.  On any failure nothing the engine
  shows or holds changes.
\<close>

theorem install_config_atomic:
  assumes "\<And>xs. mset (ev_ident_order env xs) = mset xs"
    and "distinct (map fst (bindings (en_manager e)))"
    and "install_config env path mode e = (r, e')"
  shows "if is_ok r
    then engine_synced e' \<and> en_config_path e' = Some path \<and> en_config e' \<noteq> None \<and>
      rt_selector (en_runtime e') = None \<and>
      rt_hud_visible (en_runtime e') = (mode = KeepFocus \<and> rt_hud_visible (en_runtime e))
    else e' = e\<lparr>en_manager := en_manager e'\<rparr> \<and>
      chord_for_ident (en_manager e') = chord_for_ident (en_manager e) \<and>
      capture_of (en_manager e') = capture_of (en_manager e)"
proof (cases "prepare_config env path mode e")
  case (Inl err)
  with assms(3) show ?thesis by (auto simp: install_config_def)
next
  case (Inr p)
  note prep = prepare_config_Ok [OF Inr]
  have c: "commit_config env p e = (r, e')" using assms(3) Inr by (simp add: install_config_def)
  then show ?thesis
  proof (cases rule: commit_cases)
    case (failed err m)
    with update_bindings_chords [OF assms(1, 2) failed(3)] update_bindings_capture [OF failed(3)]
    show ?thesis by simp
  next
    case (ok m changed)
    from commit_refreshed [OF assms(1, 2) c [unfolded ok(1)] prep(2)]
    have "engine_synced e'" by (simp add: refreshed_def)
    with ok prep show ?thesis by simp
  qed simp
qed

text \<open>
  C24: recovery from render errors.  At most two errors are reported: after the first only
  the root mode is left, after the second nothing is bound.  What remains of the mode stack
  is a prefix of it that keeps the root, and HUD, session and selector are untouched.
\<close>

theorem recovery_bounded:
  assumes "render_stack_with_recovery vm rt cfg = ((ws, errs), rt', cfg')" and "rt_stack rt \<noteq> []"
  shows "length errs \<le> 2 \<and> session_view rt' = session_view rt \<and> rt_stack rt' \<noteq> [] \<and>
    prefix (map frame_key (rt_stack rt')) (map frame_key (rt_stack rt)) \<and>
    (errs \<noteq> [] \<longrightarrow> length (rt_stack rt') = 1) \<and>
    rs_bindings (rt_rendered rt') = (if length errs = 2 then [] else flatten_bindings (rt_stack rt'))"
  using assms(1)
proof (cases rule: recovery_cases)
  case (ok ctx rs st)
  with config_render_keeps [OF ok(2) assms(2)] config_render_flat [OF ok(2)] show ?thesis
    by (simp add: keeps_root_def)
next
  case (root ctx ctx' e st cfg1 rs st')
  with recovered_root [OF root(2) assms(2) root(3)] config_render_flat [OF root(3)] show ?thesis
    by (simp add: keeps_root_def)
next
  case (empty ctx ctx' e e' st cfg1 st')
  with recovered_root [OF empty(3) assms(2) empty(4)] show ?thesis
    by (simp add: keeps_root_def empty_rendered_def)
qed

subsection \<open>A sample engine\<close>

text \<open>
  Menus without bindings over a registrar that counts ids; \<open>ok\<close> says whether it can
  unregister.
\<close>

definition empty_menu_vm :: "unit vm_ops" where
  "empty_menu_vm = sample_vm\<lparr>vm_render := (\<lambda>_ _ _. Menu_Return None ())\<rparr>"

definition sample_api :: "bool \<Rightarrow> (32 word, engine_error) hotkey_api" where
  "sample_api ok =
     \<lparr>api_intercept = (\<lambda>s c. (s, s + 1)),
      api_unregister = (\<lambda>s i. (if ok then Ok () else Err (Msg_Error ''busy''), s)),
      api_capture_all = id, api_capture_drop = id\<rparr>"

definition sample_env :: "bool \<Rightarrow> (unit, selector_item list, 32 word) engine_env" where
  "sample_env ok =
     \<lparr>ev_vm = empty_menu_vm, ev_matcher = sample_matcher, ev_api = sample_api ok, ev_ident_order = id,
      ev_gesture_order = id, ev_held_refs = (\<lambda>_. []), ev_load = (\<lambda>_. Ok sample_config),
      ev_displays = displays_default, ev_world_focus = None,
      ev_resolve_application = (\<lambda>_. App_NotRunning), ev_shell = None, ev_current_dir = Some ''/''\<rparr>"

definition sample_engine :: "(unit, selector_item list, 32 word) engine" where
  "sample_engine =
     (engine_build 1 True True 128 (\<lambda>_. None))
       \<lparr>en_config := Some sample_config,
        en_manager := register_binding (sample_api True) ''cmd+a''
          \<lparr>modifiers = {Mod_Command}, chord_key = Key_A\<rparr> (binding_manager_new 1)\<rparr>"

lemma sample_engine_simps [simp]:
  "ev_ident_order (sample_env ok) = id" "ev_api (sample_env ok) = sample_api ok"
  "ev_vm (sample_env ok) = empty_menu_vm" "has_room (en_ui sample_engine)"
  "en_runtime sample_engine = runtime_empty" "en_config sample_engine = Some sample_config"
  "distinct (map fst (bindings (en_manager sample_engine)))"
  by (simp_all add: sample_env_def sample_engine_def engine_build_def has_room_def binding_manager_new_def)

lemma sample_config_render:
  "config_render empty_menu_vm ctx [root_frame (cfg_root sample_config)] sample_config =
     (Ok (\<lparr>rs_bindings = [], rs_hud_rows = [], rs_style = ui_style_default, rs_capture = False\<rparr>, []),
      [root_frame (cfg_root sample_config)], sample_config)"
  by (simp add: config_render_def render_stack_def render_stack_inner_def render_mode_def empty_menu_vm_def
      sample_vm_def Let_def synchronize_callbacks_def builder_new_for_render_def builder_finish_def root_frame_def
      dedup_mode_bindings_def flatten_bindings_def build_hud_rows_def sample_config_def)

lemma sample_plan:
  assumes "rt_selector rt = None" "rt_stack rt = [] \<or> rt_stack rt = [root_frame (cfg_root sample_config)]"
  obtains plan rt' where
    "build_refresh_plan empty_menu_vm focus rt (Some sample_config) = (plan, rt', Some sample_config)"
    "plan_key_pairs plan = []" "plan_errors plan = []"
proof -
  let ?rt = "rt\<lparr>rt_focus := context_window focus rt\<rparr>"
  have "rt_stack (?rt\<lparr>rt_stack := ensure_stack sample_config (rt_stack ?rt)\<rparr>) = [root_frame (cfg_root sample_config)]"
    using assms(2) by (auto simp: ensure_stack_def)
  then have "\<exists>plan rt'. build_refresh_plan empty_menu_vm focus rt (Some sample_config) = (plan, rt', Some sample_config)
      \<and> plan_key_pairs plan = [] \<and> plan_errors plan = []"
    using assms(1)
    by (simp add: build_refresh_plan_def build_loaded_refresh_plan_def render_stack_with_recovery_def
        try_render_def Let_def sample_config_render)
  then show ?thesis using that by blast
qed

lemma sample_update:
  "update_bindings id (sample_api ok) [] (en_manager sample_engine) =
     (if ok then Ok True else Err (Msg_Error ''busy''),
      if ok then (en_manager sample_engine)\<lparr>bindings := [], idents_by_id := Map.empty\<rparr>
      else en_manager sample_engine)"
  by (simp add: update_bindings_def collect_pairs_def bindings_match_def sample_engine_def sample_api_def
      register_binding_def binding_manager_new_def unregister_binding_def Let_def fun_eq_iff)

lemma sample_rebind:
  obtains e' where "rebind_and_refresh (sample_env ok) None sample_engine =
    (if ok then Ok () else Err (Msg_Error ''busy''), e')"
proof -
  obtain plan rt' where b: "build_refresh_plan empty_menu_vm None
      (runtime_empty :: selector_item list runtime_state) (Some sample_config) =
      (plan, rt', Some sample_config)" "plan_key_pairs plan = []" "plan_errors plan = []"
    by (rule sample_plan [of "runtime_empty :: selector_item list runtime_state"]) (simp_all add: runtime_empty_def)
  obtain r e' where r: "rebind_and_refresh (sample_env ok) None sample_engine = (r, e')" by fastforce
  have "r = (if ok then Ok () else Err (Msg_Error ''busy''))"
    using r
  proof (cases rule: rebind_cases)
    case (failed err p rt cfg m rt' cfg')
    with b sample_update [of ok] show ?thesis by (auto split: if_splits)
  next
    case (ok p rt cfg m changed)
    with b sample_update show ?thesis by (auto split: if_splits)
  qed simp
  with r that show ?thesis by blast
qed

theorem rebind_synchronizes_witness:
  "\<exists>e'. rebind_and_refresh (sample_env True) None sample_engine = (Ok (), e') \<and> engine_synced e'"
proof -
  obtain e' where r: "rebind_and_refresh (sample_env True) None sample_engine = (Ok (), e')"
    using sample_rebind [of True] by auto
  then show ?thesis using rebind_synchronizes [OF _ _ r] by auto
qed

theorem rebind_releases_on_change_witness:
  "\<exists>e'. rebind_and_refresh (sample_env True) None sample_engine = (Ok (), e') \<and> en_keys e' = en_keys sample_engine"
proof -
  obtain e' where r: "rebind_and_refresh (sample_env True) None sample_engine = (Ok (), e')"
    using sample_rebind [of True] by auto
  then show ?thesis using rebind_releases_on_change [OF _ _ r] by auto
qed

theorem rebind_failure_rolls_back_witness:
  "\<exists>e'. rebind_and_refresh (sample_env False) None sample_engine = (Err (Msg_Error ''busy''), e') \<and>
     chord_for_ident (en_manager e') ''cmd+a'' = Some \<lparr>modifiers = {Mod_Command}, chord_key = Key_A\<rparr>"
proof -
  obtain e' where r: "rebind_and_refresh (sample_env False) None sample_engine = (Err (Msg_Error ''busy''), e')"
    using sample_rebind [of False] by auto
  have "chord_for_ident (en_manager sample_engine) ''cmd+a'' =
      Some \<lparr>modifiers = {Mod_Command}, chord_key = Key_A\<rparr>"
    by (simp add: sample_engine_def)
  then show ?thesis using r rebind_failure_rolls_back [OF _ _ r] by auto
qed

theorem install_config_atomic_witness:
  "\<exists>e'. install_config (sample_env True) ''/c'' ResetFocus sample_engine = (Ok (), e') \<and>
     en_config_path e' = Some ''/c'' \<and> engine_synced e'"
proof -
  let ?rt = "rt_install_config sample_config (runtime_empty\<lparr>rt_hud_visible := False, rt_focus := None\<rparr>)
    :: selector_item list runtime_state"
  obtain plan rt' where b: "build_refresh_plan empty_menu_vm None ?rt (Some sample_config) =
      (plan, rt', Some sample_config)" "plan_key_pairs plan = []" "plan_errors plan = []"
    by (rule sample_plan [of ?rt]) (simp_all add: runtime_empty_def rt_install_config_def reset_stack_def)
  have f: "en_focus sample_engine = None" by (simp add: sample_engine_def engine_build_def)
  have l: "ev_load (sample_env True) ''/c'' = Inr sample_config" by (simp add: sample_env_def)
  obtain e' where r: "install_config (sample_env True) ''/c'' ResetFocus sample_engine = (Ok (), e')"
    using b sample_update [of True]
    by (simp add: install_config_def prepare_config_def commit_config_def reserve_ui_def Let_def f l)
  then show ?thesis using install_config_atomic [OF _ _ r] by auto
qed

theorem recovery_bounded_witness:
  "\<exists>ws errs rt' cfg'. render_stack_with_recovery empty_menu_vm
       (runtime_empty\<lparr>rt_stack := [root_frame (cfg_root sample_config)]\<rparr> :: unit runtime_state) sample_config =
       ((ws, errs), rt', cfg') \<and> rt_stack rt' \<noteq> []"
proof -
  let ?rt = "runtime_empty\<lparr>rt_stack := [root_frame (cfg_root sample_config)]\<rparr> :: unit runtime_state"
  obtain ws errs rt' cfg' where
    r: "render_stack_with_recovery empty_menu_vm ?rt sample_config = ((ws, errs), rt', cfg')"
    by (metis prod_cases4 surj_pair)
  then show ?thesis using recovery_bounded [OF r] by auto
qed

end
