(* ===== verification/Engine_Actions.thy ===== *)
theory Engine_Actions
  imports Refresh
begin

text \<open>
  Applying effects (\<open>hotki-engine/src/actions.rs\<close>) and the selector controller
  (\<open>selector_controller.rs\<close>): actions, navigation, relays, held-key repetition, and the
  opening of a selector.
\<close>

subsection \<open>Process specifications of actions\<close>

definition apple_script_process :: "string \<Rightarrow> process_spec" where
  "apple_script_process script =
     process_spec_new ''/usr/bin/osascript''
       (concat (map (\<lambda>line. [''-e'', line]) (split_on newline script)))
       None NK_Ignore NK_Warn ''Shell command''"

definition config_entry_directory :: "string option \<Rightarrow> string \<Rightarrow> string" where
  "config_entry_directory current_dir path =
     (let path' = (if path_is_absolute path then path
                   else path_join (case current_dir of Some d \<Rightarrow> d | None \<Rightarrow> ''.'') path)
      in case path_parent path' of Some p \<Rightarrow> p | None \<Rightarrow> ''.'')"

definition set_volume_script :: "8 word \<Rightarrow> string" where
  "set_volume_script level = ''set volume output volume '' @ string_of_nat (unat (min level 100))"

definition change_volume_script :: "32 word \<Rightarrow> string" where
  "change_volume_script delta =
     ''set currentVolume to output volume of (get volume settings)'' @ [newline] @
     ''set volume output volume (currentVolume + '' @ string_of_int (sint delta) @ '')''"

primrec mute_script :: "toggle \<Rightarrow> string" where
  "mute_script Toggle_On = ''set volume output muted true''"
| "mute_script Toggle_Off = ''set volume output muted false''"
| "mute_script Toggle_Toggle =
     ''set curMuted to output muted of (get volume settings)'' @ [newline] @
     ''set volume output muted not curMuted''"

definition resolve_exec_cwd ::
  "('v, 'm, 's) engine_env \<Rightarrow> string option \<Rightarrow> ('v, 'm, 's) engine \<Rightarrow> string option" where
  "resolve_exec_cwd env cwd e =
     (case cwd of
        None \<Rightarrow> None
      | Some path \<Rightarrow>
          if path_is_absolute path then Some path
          else (let base = (case en_config_path e of
                              Some p \<Rightarrow> config_entry_directory (ev_current_dir env) p
                            | None \<Rightarrow> (case ev_current_dir env of Some d \<Rightarrow> d | None \<Rightarrow> ''.''))
                in Some (path_join base path)))"

definition direct_process_spec ::
  "('v, 'm, 's) engine_env \<Rightarrow> exec_spec \<Rightarrow> ('v, 'm, 's) engine \<Rightarrow> process_spec" where
  "direct_process_spec env spec e =
     process_spec_new (exec_program spec) (case exec_args spec of Some a \<Rightarrow> a | None \<Rightarrow> [])
       (resolve_exec_cwd env (exec_cwd spec) e) (exec_ok_notify spec) (exec_err_notify spec) ''Process''"

definition start_process_action ::
  "string \<Rightarrow> process_spec \<Rightarrow> repeat_spec option \<Rightarrow> ('v, 'm, 's) engine \<Rightarrow> ('v, 'm, 's) engine" where
  "start_process_action i spec repeat e =
     e\<lparr>en_repeater := rp_start i spec (repeat_spec_of repeat) (en_repeater e)\<rparr>"

definition start_shell_action ::
  "('v, 'm, 's) engine_env \<Rightarrow> string \<Rightarrow> string \<Rightarrow> notify_kind \<Rightarrow> notify_kind \<Rightarrow> repeat_spec option
   \<Rightarrow> ('v, 'm, 's) engine \<Rightarrow> ('v, 'm, 's) engine" where
  "start_shell_action env i command ok err repeat e =
     start_process_action i (process_spec_shell (ev_shell env) command ok err) repeat e"

definition start_warn_apple_script ::
  "string \<Rightarrow> string \<Rightarrow> repeat_spec option \<Rightarrow> ('v, 'm, 's) engine \<Rightarrow> ('v, 'm, 's) engine" where
  "start_warn_apple_script i script repeat e = start_process_action i (apple_script_process script) repeat e"

subsection \<open>Effect runs\<close>

datatype effect_run = OneShot | RepeatedFirst | RepeatedTick

record effect_application =
  app_result :: dispatch_result
  app_terminal :: bool

definition app_empty :: effect_application where
  "app_empty = \<lparr>app_result = AutoExit, app_terminal = False\<rparr>"

definition app_stop :: effect_application where
  "app_stop = \<lparr>app_result = AutoExit, app_terminal = True\<rparr>"

definition combine_result :: "dispatch_result \<Rightarrow> effect_application \<Rightarrow> effect_application" where
  "combine_result r a = a\<lparr>app_result := combine (app_result a) r\<rparr>"

subsection \<open>Relays\<close>

definition resolve_relay_destination ::
  "('v, 'm, 's) engine_env \<Rightarrow> relay_target \<Rightarrow> ('v, 'm, 's) engine
   \<Rightarrow> (engine_error + relay_destination option) \<times> ('v, 'm, 's) engine" where
  "resolve_relay_destination env target e =
     (case target of
        relay_target.Focused \<Rightarrow> (Ok (Some Hid), e)
      | ApplicationName app_name \<Rightarrow>
          (case ev_resolve_application env app_name of
             App_Found pid \<Rightarrow> (Ok (Some (Process pid)), e)
           | App_NotRunning \<Rightarrow>
               ebind (on_ui (send_notification NK_Warn ''Relay''
                   (''Application '' @ [CHR 0x22] @ app_name @ [CHR 0x22] @ '' is not running'')) e)
                 (\<lambda>_ e. (Ok None, e))
           | App_Ambiguous n \<Rightarrow>
               ebind (on_ui (send_notification NK_Warn ''Relay''
                   (''Application '' @ [CHR 0x22] @ app_name @ [CHR 0x22] @ '' is ambiguous: ''
                    @ string_of_nat n @ '' running matches'')) e)
                 (\<lambda>_ e. (Ok None, e))))"

text \<open>The observer \<open>note_relay_repeat\<close> calls is only installed by tests.\<close>

definition apply_relay ::
  "('v, 'm, 's) engine_env \<Rightarrow> string \<Rightarrow> relay_spec \<Rightarrow> effect_run \<Rightarrow> ('v, 'm, 's) engine
   \<Rightarrow> (engine_error + effect_application) \<times> ('v, 'm, 's) engine" where
  "apply_relay env i spec run e =
     (case chord_parse (relay_chord spec) of
        None \<Rightarrow>
          ebind (on_ui (send_error ''Relay'' (''Invalid relay chord string: '' @ relay_chord spec)) e)
            (\<lambda>_ e. (Ok app_stop, e))
      | Some chord \<Rightarrow>
          if run = RepeatedTick
          then (Ok app_empty, e\<lparr>en_relay := snd (relay_repeat i (en_relay e))\<rparr>)
          else ebind (resolve_relay_destination env (relay_target spec) e) (\<lambda>dest e.
            case dest of
              None \<Rightarrow> (Ok app_stop, e)
            | Some d \<Rightarrow>
                (let r1 = relay_begin i chord d (en_relay e);
                     r2 = (if run = OneShot then snd (relay_end i r1) else r1)
                 in (Ok app_empty, e\<lparr>en_relay := r2\<rparr>))))"

subsection \<open>Actions\<close>

definition reload_dynamic_config ::
  "('v, 'm, 's) engine_env \<Rightarrow> ('v, 'm, 's) engine \<Rightarrow> (engine_error + unit) \<times> ('v, 'm, 's) engine" where
  "reload_dynamic_config env e =
     (case en_config_path e of
        None \<Rightarrow> (Err (Msg_Error ''No config path set; cannot reload config''), e)
      | Some path \<Rightarrow> install_config env path KeepFocus e)"

definition apply_action ::
  "('v, 'm, 's) engine_env \<Rightarrow> string \<Rightarrow> action \<Rightarrow> repeat_spec option \<Rightarrow> ('v, 'm, 's) engine
   \<Rightarrow> (engine_error + dispatch_result) \<times> ('v, 'm, 's) engine" where
  "apply_action env i act repeat e0 =
     (let e = e0\<lparr>en_keys := ks_set_repeat_allowed i False (en_keys e0)\<rparr> in
      case act of
        Act_Shell spec \<Rightarrow>
          (Ok AutoExit, start_shell_action env i (shell_command spec) (shell_ok_notify spec)
             (shell_err_notify spec) repeat e)
      | Act_Exec spec \<Rightarrow> (Ok AutoExit, start_process_action i (direct_process_spec env spec e) repeat e)
      | Act_Relay spec \<Rightarrow>
          ebind (apply_relay env i spec OneShot e) (\<lambda>a e. (Ok (app_result a), e))
      | Act_ReloadConfig \<Rightarrow>
          (case reload_dynamic_config env e of
             (Inl err, e) \<Rightarrow>
               ebind (on_ui (send_error ''Config'' (engine_error_string err)) e) (\<lambda>_ e. (Ok AutoExit, e))
           | (Inr _, e) \<Rightarrow> (Ok AutoExit, e))
      | Act_ClearNotifications \<Rightarrow> ebind (on_ui (try_send_ui ClearNotifications) e) (\<lambda>_ e. (Ok AutoExit, e))
      | Act_ShowMainWindow arg \<Rightarrow> ebind (on_ui (try_send_ui (ShowMainWindow arg)) e) (\<lambda>_ e. (Ok AutoExit, e))
      | Act_Open target \<Rightarrow>
          (Ok AutoExit, start_process_action i
             (process_spec_new ''open'' [''--'', target] None NK_Ignore NK_Warn ''Open'') repeat e)
      | Act_SetVolume level \<Rightarrow> (Ok AutoExit, start_warn_apple_script i (set_volume_script level) repeat e)
      | Act_ChangeVolume delta \<Rightarrow>
          (Ok AutoExit, start_warn_apple_script i (change_volume_script (scast delta)) repeat e)
      | Act_Mute arg \<Rightarrow> (Ok AutoExit, start_warn_apple_script i (mute_script arg) None e))"

subsection \<open>Navigation\<close>

definition apply_nav_request ::
  "nav_request \<Rightarrow> focus_snapshot option \<Rightarrow> ('v, 'm, 's) engine \<Rightarrow> dispatch_result \<times> ('v, 'm, 's) engine" where
  "apply_nav_request nav opening_window e =
     (case nav of
        Nav_Push mode title \<Rightarrow>
          (let title' = (case title of Some t \<Rightarrow> t
                         | None \<Rightarrow> (case mode_default_title mode of Some t \<Rightarrow> t | None \<Rightarrow> ''mode''))
           in (EnteredMode, on_runtime (push_mode title' mode None False opening_window) e))
      | Nav_Pop \<Rightarrow>
          (Navigation, on_runtime (\<lambda>rt.
             let rt1 = rt\<lparr>rt_stack := snd (stack_pop (rt_stack rt))\<rparr> in
             if rt_depth rt1 = 0 then end_session (rt1\<lparr>rt_hud_visible := False\<rparr>) else rt1) e)
      | Nav_Exit \<Rightarrow>
          (Navigation, on_runtime (\<lambda>rt.
             end_session (rt\<lparr>rt_stack := snd (reset_to_root (rt_stack rt)), rt_hud_visible := False\<rparr>)) e)
      | Nav_ShowRoot \<Rightarrow>
          (Navigation, on_runtime (\<lambda>rt.
             (start_session opening_window (rt\<lparr>rt_stack := snd (reset_to_root (rt_stack rt))\<rparr>))
               \<lparr>rt_hud_visible := True\<rparr>) e)
      | Nav_HideHud \<Rightarrow> (Navigation, on_runtime (\<lambda>rt. rt\<lparr>rt_hud_visible := False\<rparr>) e))"

definition auto_exit :: "('v, 'm, 's) engine \<Rightarrow> ('v, 'm, 's) engine" where
  "auto_exit e = snd (apply_nav_request Nav_Exit None e)"

subsection \<open>Opening a selector\<close>

definition selector_open ::
  "('v, 'm, 's) engine_env \<Rightarrow> selector_config \<Rightarrow> mode_ctx \<Rightarrow> ('v, 'm, 's) engine
   \<Rightarrow> (engine_error + bool) \<times> ('v, 'm, 's) engine" where
  "selector_open env sel ctx e =
     (case en_config e of
        None \<Rightarrow> (Ok False, e)
      | Some cfg \<Rightarrow>
          (let (items_result, cfg') = resolve_selector_items (ev_vm env) sel ctx cfg;
               e1 = e\<lparr>en_config := Some cfg'\<rparr>;
               items = (case items_result of
                          Inr items \<Rightarrow> (Ok items, e1)
                        | Inl err \<Rightarrow>
                            ebind (on_ui (send_error ''Selector'' (error_pretty err)) e1) (\<lambda>_ e. (Ok [], e)))
           in ebind items (\<lambda>items e.
                let prev = rt_hud_visible (en_runtime e);
                    s0 = selector_new (ev_matcher env) sel items prev (ctx_window ctx);
                    s1 = snd (selector_tick (ev_matcher env) s0);
                    (snapshot, s2) = selector_snapshot_of (ev_matcher env) s1;
                    e2 = on_runtime (\<lambda>rt. rt\<lparr>rt_hud_visible := False, rt_selector := Some s2\<rparr>) e
                in ebind (on_ui (try_send_ui (SelectorUpdate snapshot)) e2) (\<lambda>_ e. (Ok True, e)))))"

subsection \<open>Effect queues\<close>

text \<open>
  One effect; \<open>start\<close> is what \<open>until_keyup\<close> does in a one-shot run.
\<close>

fun apply_effect ::
  "(handler_ref \<Rightarrow> repeat_spec option \<Rightarrow> ('v, 'm, 's) engine \<Rightarrow> (engine_error + effect_application) \<times> ('v, 'm, 's) engine)
   \<Rightarrow> ('v, 'm, 's) engine_env \<Rightarrow> string \<Rightarrow> mode_ctx \<Rightarrow> effect_run \<Rightarrow> effect \<Rightarrow> ('v, 'm, 's) engine
   \<Rightarrow> (engine_error + effect_application) \<times> ('v, 'm, 's) engine" where
  "apply_effect start env i ctx run (Eff_UntilKeyUp action repeat) e =
     (if run = OneShot then start action repeat e
      else ebind (on_ui (send_error ''Handler''
               ''ctx:until_keyup cannot be nested inside a repeated action'') e)
             (\<lambda>_ e. (Ok app_stop, e)))"
| "apply_effect start env i ctx run (Eff_Exec action) e =
     (let terminal = (action = Act_ReloadConfig) in
      ebind (case action of
               Act_Relay spec \<Rightarrow> apply_relay env i spec run e
             | _ \<Rightarrow> ebind (apply_action env i action None e)
                      (\<lambda>r e. (Ok \<lparr>app_result = r, app_terminal = False\<rparr>, e)))
        (\<lambda>a e. (Ok (a\<lparr>app_terminal := app_terminal a \<or> terminal\<rparr>), e)))"
| "apply_effect start env i ctx run (Eff_Notify kind title body) e =
     ebind (on_ui (send_notification kind title body) e) (\<lambda>_ e. (Ok app_empty, e))"
| "apply_effect start env i ctx run (Eff_Nav nav) e =
     (let (r, e1) = apply_nav_request nav (ctx_window ctx) e
      in (Ok \<lparr>app_result = r, app_terminal = False\<rparr>, e1))"
| "apply_effect start env i ctx run (Eff_Select sel) e =
     ebind (selector_open env sel ctx e) (\<lambda>opened e.
       (Ok \<lparr>app_result = (if opened then SelectorOpened else AutoExit), app_terminal = False\<rparr>, e))"

fun apply_queue_from ::
  "(handler_ref \<Rightarrow> repeat_spec option \<Rightarrow> ('v, 'm, 's) engine \<Rightarrow> (engine_error + effect_application) \<times> ('v, 'm, 's) engine)
   \<Rightarrow> ('v, 'm, 's) engine_env \<Rightarrow> string \<Rightarrow> mode_ctx \<Rightarrow> effect_run \<Rightarrow> effect_application \<Rightarrow> effect list
   \<Rightarrow> ('v, 'm, 's) engine \<Rightarrow> (engine_error + effect_application) \<times> ('v, 'm, 's) engine" where
  "apply_queue_from start env i ctx run applied [] e = (Ok applied, e)"
| "apply_queue_from start env i ctx run applied (eff # effs) e =
     ebind (apply_effect start env i ctx run eff e) (\<lambda>a e.
       let applied' = combine_result (app_result a) applied in
       if app_terminal a then (Ok (applied'\<lparr>app_terminal := True\<rparr>), e)
       else apply_queue_from start env i ctx run applied' effs e)"

text \<open>In a repeated run \<open>until_keyup\<close> is an error, so the starter is never called.\<close>

definition apply_repeated_queue ::
  "('v, 'm, 's) engine_env \<Rightarrow> string \<Rightarrow> effect list \<Rightarrow> mode_ctx \<Rightarrow> effect_run \<Rightarrow> ('v, 'm, 's) engine
   \<Rightarrow> (engine_error + effect_application) \<times> ('v, 'm, 's) engine" where
  "apply_repeated_queue env i effects ctx run e =
     apply_queue_from (\<lambda>_ _ e. (Ok app_stop, e)) env i ctx run app_empty effects e"

definition run_repeated_action ::
  "('v, 'm, 's) engine_env \<Rightarrow> string \<Rightarrow> handler_ref \<Rightarrow> mode_ctx \<Rightarrow> effect_run \<Rightarrow> ('v, 'm, 's) engine
   \<Rightarrow> (engine_error + effect_application) \<times> ('v, 'm, 's) engine" where
  "run_repeated_action env i action ctx run e =
     (case en_config e of
        None \<Rightarrow> (Ok app_stop, e)
      | Some cfg \<Rightarrow>
          (case execute_handler_with_permission (ev_vm env) action ctx RepeatedAction cfg of
             (Inl err, cfg') \<Rightarrow>
               ebind (on_ui (send_error ''Handler'' (error_pretty err)) (e\<lparr>en_config := Some cfg'\<rparr>))
                 (\<lambda>_ e. (Ok app_stop, e))
           | (Inr result, cfg') \<Rightarrow>
               ebind (apply_repeated_queue env i (hr_effects result) ctx run (e\<lparr>en_config := Some cfg'\<rparr>))
                 (\<lambda>a e. (Ok (a\<lparr>app_result := with_stay (app_result a) (hr_stay result)\<rparr>), e))))"

definition start_until_keyup ::
  "('v, 'm, 's) engine_env \<Rightarrow> string \<Rightarrow> mode_ctx \<Rightarrow> handler_ref \<Rightarrow> repeat_spec option \<Rightarrow> ('v, 'm, 's) engine
   \<Rightarrow> (engine_error + effect_application) \<times> ('v, 'm, 's) engine" where
  "start_until_keyup env i ctx action repeat e =
     ebind (run_repeated_action env i action ctx RepeatedFirst e) (\<lambda>first e.
       if app_terminal first \<or> \<not> ks_is_down i (en_keys e) then (Ok first, e)
       else
         let (initial, interval) = effective_timings (repeat_spec_of repeat);
             closure = \<lparr>cl_id = en_next_closure e, cl_identifier = i, cl_action = action, cl_ctx = ctx\<rparr>
         in (Ok first, e\<lparr>en_actions := ticker_start i initial interval closure (en_actions e),
                         en_next_closure := Suc (en_next_closure e)\<rparr>))"

definition apply_effects ::
  "('v, 'm, 's) engine_env \<Rightarrow> string \<Rightarrow> effect list \<Rightarrow> mode_ctx \<Rightarrow> ('v, 'm, 's) engine
   \<Rightarrow> (engine_error + dispatch_result) \<times> ('v, 'm, 's) engine" where
  "apply_effects env i effects ctx e =
     ebind (apply_queue_from (start_until_keyup env i ctx) env i ctx OneShot app_empty effects e)
       (\<lambda>a e. (Ok (app_result a), e))"

subsection \<open>Ticks of a held action\<close>

text \<open>A tick of the loop starts a task unless one of its tasks is still running.\<close>

definition action_tick :: "action_closure \<Rightarrow> ('v, 'm, 's) engine \<Rightarrow> ('v, 'm, 's) engine" where
  "action_tick c e =
     (if list_ex (\<lambda>t. cl_id t = cl_id c) (en_ticks e) then e else e\<lparr>en_ticks := en_ticks e @ [c]\<rparr>)"

definition action_tick_run ::
  "('v, 'm, 's) engine_env \<Rightarrow> action_closure \<Rightarrow> ('v, 'm, 's) engine \<Rightarrow> ('v, 'm, 's) engine" where
  "action_tick_run env c e =
     (let (r, e1) = run_repeated_action env (cl_identifier c) (cl_action c) (cl_ctx c) RepeatedTick e;
          stop = (case r of Inr a \<Rightarrow> app_terminal a | Inl _ \<Rightarrow> True);
          e2 = e1\<lparr>en_ticks := remove1 c (en_ticks e1)\<rparr>
      in if stop then e2\<lparr>en_actions := ticker_stop (cl_identifier c) (en_actions e2)\<rparr> else e2)"

subsection \<open>What effects may do to the engine\<close>

text \<open>
  The state changes effects are made of, for the identifier of the key that runs them.  A
  predicate closed under them is kept by every action, effect queue and repeated run.
\<close>

locale engine_ops =
  fixes env :: "('v, 'm, 's) engine_env" and ident :: string and P :: "('v, 'm, 's) engine \<Rightarrow> bool"
  assumes ui_law: "P e \<Longrightarrow> P (e\<lparr>en_ui := snd (try_send_ui msg (en_ui e))\<rparr>)"
    and no_repeat_law: "P e \<Longrightarrow> P (e\<lparr>en_keys := ks_set_repeat_allowed ident False (en_keys e)\<rparr>)"
    and process_law: "P e \<Longrightarrow> P (e\<lparr>en_repeater := rp_start ident spec None (en_repeater e)\<rparr>)"
    and relay_begin_law: "P e \<Longrightarrow> P (e\<lparr>en_relay := relay_begin ident c d (en_relay e)\<rparr>)"
    and relay_end_law: "P e \<Longrightarrow> P (e\<lparr>en_relay := snd (relay_end ident (en_relay e))\<rparr>)"
    and relay_repeat_law: "P e \<Longrightarrow> P (e\<lparr>en_relay := snd (relay_repeat ident (en_relay e))\<rparr>)"
    and session_law: "P e \<Longrightarrow> rt_selector rt = rt_selector (en_runtime e) \<Longrightarrow> P (e\<lparr>en_runtime := rt\<rparr>)"
    and selector_law: "P e \<Longrightarrow> en_config e \<noteq> None \<Longrightarrow> P (e\<lparr>en_runtime := rt\<rparr>)"
    and config_law: "P e \<Longrightarrow> en_config e \<noteq> None \<Longrightarrow> P (e\<lparr>en_config := Some cfg\<rparr>)"
    and loop_law: "P e \<Longrightarrow> ks_is_down ident (en_keys e) \<Longrightarrow>
      P (e\<lparr>en_actions := ticker_start ident (fst (effective_timings rep)) (snd (effective_timings rep))
             \<lparr>cl_id = en_next_closure e, cl_identifier = ident, cl_action = h, cl_ctx = ctx\<rparr> (en_actions e),
           en_next_closure := Suc (en_next_closure e)\<rparr>)"
    and install_law: "P e \<Longrightarrow> P (snd (commit_config env p e))"
begin

lemma on_ui_P: "P e \<Longrightarrow> P (snd (on_ui (try_send_ui msg) e))"
  by (simp add: on_ui_snd ui_law)

lemma notify_P:
  "P e \<Longrightarrow> P (snd (on_ui (send_notification k t b) e))" "P e \<Longrightarrow> P (snd (on_ui (send_error t b) e))"
  by (simp_all add: on_ui_snd send_error_def send_notification_def ui_law)

lemma bind_P: "P (snd r) \<Longrightarrow> (\<And>x e. P e \<Longrightarrow> P (snd (f x e))) \<Longrightarrow> P (snd (ebind r f))"
  by (rule ebind_inv)

text \<open>A message, then a result.\<close>

lemma ui_then_P:
  "P e \<Longrightarrow> P (snd (ebind (on_ui (try_send_ui msg) e) (\<lambda>_ e. (r, e))))"
  "P e \<Longrightarrow> P (snd (ebind (on_ui (send_notification k t b) e) (\<lambda>_ e. (r, e))))"
  "P e \<Longrightarrow> P (snd (ebind (on_ui (send_error t b) e) (\<lambda>_ e. (r, e))))"
  by (rule bind_P; simp add: on_ui_P notify_P)+

lemma resolve_relay_destination_P: "P e \<Longrightarrow> P (snd (resolve_relay_destination env target e))"
  by (auto simp: resolve_relay_destination_def ui_then_P split: relay_target.split application_resolution.split)

lemma relay_tap_P: "P e \<Longrightarrow> P (e\<lparr>en_relay := snd (relay_end ident (relay_begin ident c d (en_relay e)))\<rparr>)"
  using relay_end_law [OF relay_begin_law [of e c d]] by simp

lemma apply_relay_P: "P e \<Longrightarrow> P (snd (apply_relay env ident spec run e))"
  unfolding apply_relay_def
  by (auto simp: ui_then_P relay_repeat_law Let_def relay_tap_P relay_begin_law resolve_relay_destination_P
      split: option.split intro!: bind_P)

lemma install_config_P: "P e \<Longrightarrow> P (snd (install_config env path mode e))"
  by (auto simp: install_config_def install_law split: sum.split)

lemma reload_P: "P e \<Longrightarrow> P (snd (reload_dynamic_config env e))"
  by (auto simp: reload_dynamic_config_def install_config_P split: option.split)

lemma apply_action_P: "P e \<Longrightarrow> P (snd (apply_action env ident act None e))"
proof -
  assume "P e"
  note k = no_repeat_law [OF this]
  have proc: "P (start_process_action ident spec None (e\<lparr>en_keys := ks_set_repeat_allowed ident False (en_keys e)\<rparr>))" for spec
    unfolding start_process_action_def repeat_spec_of_def option.map using process_law [OF k] by simp
  show ?thesis
  proof (cases act)
    case (Act_Relay spec)
    show ?thesis unfolding apply_action_def Act_Relay Let_def action.case
      by (rule bind_P) (simp_all add: apply_relay_P k)
  next
    case Act_ReloadConfig
    show ?thesis
      using reload_P [OF k] unfolding apply_action_def Act_ReloadConfig Let_def action.case
      by (auto simp: ui_then_P split: prod.split sum.split)
  qed (simp_all only: apply_action_def Let_def action.case snd_conv start_shell_action_def
      start_warn_apple_script_def proc ui_then_P [OF k])
qed

lemma on_runtime_P: "P e \<Longrightarrow> rt_selector (f (en_runtime e)) = rt_selector (en_runtime e) \<Longrightarrow> P (on_runtime f e)"
  by (simp add: on_runtime_def session_law)

lemma apply_nav_request_P: "P e \<Longrightarrow> P (snd (apply_nav_request nav w e))"
  by (cases nav) (auto simp: apply_nav_request_def Let_def end_session_def intro!: on_runtime_P)

text \<open>With a configuration loaded, the selector may change too.\<close>

definition loaded :: "('v, 'm, 's) engine \<Rightarrow> bool" where
  "loaded e \<longleftrightarrow> P e \<and> en_config e \<noteq> None"

lemma loaded_bind:
  "loaded (snd r) \<Longrightarrow> (\<And>x e. loaded e \<Longrightarrow> loaded (snd (f x e))) \<Longrightarrow> loaded (snd (ebind r f))"
  by (rule ebind_inv)

lemma loaded_ui: "loaded e \<Longrightarrow> loaded (snd (on_ui (try_send_ui m) e))"
  by (simp add: loaded_def on_ui_P) (simp add: on_ui_snd)

lemma loaded_error: "loaded e \<Longrightarrow> loaded (snd (on_ui (send_error t b) e))"
  unfolding send_error_def send_notification_def by (rule loaded_ui)

lemma loaded_runtime: "loaded e \<Longrightarrow> loaded (on_runtime f e)"
  by (simp add: loaded_def on_runtime_def selector_law)

lemma selector_open_P: "P e \<Longrightarrow> P (snd (selector_open env sel ctx e))"
proof (cases "en_config e")
  case (Some cfg)
  assume P: "P e"
  obtain items cfg' where r: "resolve_selector_items (ev_vm env) sel ctx cfg = (items, cfg')" by fastforce
  have e1: "loaded (e\<lparr>en_config := Some cfg'\<rparr>)" using P Some by (simp add: loaded_def config_law)
  have "loaded (snd (selector_open env sel ctx e))"
    unfolding selector_open_def Some option.case r Let_def split
  proof (rule loaded_bind)
    show "loaded (snd (case items of Inl err \<Rightarrow>
        ebind (on_ui (send_error ''Selector'' (error_pretty err)) (e\<lparr>en_config := Some cfg'\<rparr>)) (\<lambda>_ e. (Ok [], e))
      | Inr items \<Rightarrow> (Ok items, e\<lparr>en_config := Some cfg'\<rparr>)))"
    proof (cases items)
      case (Inl err)
      show ?thesis unfolding Inl sum.case
        by (rule loaded_bind) (simp_all add: loaded_error e1)
    qed (simp add: e1)
  next
    fix items e
    assume e: "loaded e"
    show "loaded (snd (case selector_snapshot_of (ev_matcher env) (snd (selector_tick (ev_matcher env)
          (selector_new (ev_matcher env) sel items (rt_hud_visible (en_runtime e)) (ctx_window ctx)))) of
        (snapshot, s2) \<Rightarrow>
          ebind (on_ui (try_send_ui (SelectorUpdate snapshot))
              (on_runtime (\<lambda>rt. rt\<lparr>rt_hud_visible := False, rt_selector := Some s2\<rparr>) e))
            (\<lambda>_ e. (Ok True, e))))"
      unfolding case_prod_beta by (rule loaded_bind) (simp_all add: loaded_ui loaded_runtime e)
  qed
  then show ?thesis by (simp add: loaded_def)
qed (simp add: selector_open_def)

lemma apply_effect_P:
  assumes "P e" and "\<And>a r e. P e \<Longrightarrow> P (snd (start a r e))"
  shows "P (snd (apply_effect start env ident ctx run eff e))"
proof (cases eff)
  case (Eff_Exec act)
  then show ?thesis
    using assms(1) by (cases act) (auto simp: Let_def apply_relay_P apply_action_P intro!: bind_P)
next
  case (Eff_Select sel)
  then show ?thesis using assms(1) by (auto simp: selector_open_P intro!: bind_P)
qed (use assms in \<open>auto simp: ui_then_P case_prod_beta apply_nav_request_P\<close>)

lemma apply_queue_P:
  assumes "P e" and "\<And>a r e. P e \<Longrightarrow> P (snd (start a r e))"
  shows "P (snd (apply_queue_from start env ident ctx run applied effs e))"
  using assms(1)
proof (induction effs arbitrary: applied e)
  case (Cons eff effs)
  then show ?case
    by (auto simp: Let_def apply_effect_P assms(2) intro!: bind_P)
qed simp

lemma run_repeated_action_P: "P e \<Longrightarrow> P (snd (run_repeated_action env ident h ctx run e))"
proof (cases "en_config e")
  case (Some cfg)
  assume P: "P e"
  obtain r cfg' where x: "execute_handler_with_permission (ev_vm env) h ctx RepeatedAction cfg = (r, cfg')"
    by fastforce
  have e1: "P (e\<lparr>en_config := Some cfg'\<rparr>)" using P Some by (simp add: config_law)
  show ?thesis
  proof (cases r)
    case (Inl err)
    then show ?thesis using Some x ui_then_P(3) [OF e1] by (simp add: run_repeated_action_def)
  next
    case (Inr result)
    have "P (snd (apply_repeated_queue env ident (hr_effects result) ctx run (e\<lparr>en_config := Some cfg'\<rparr>)))"
      unfolding apply_repeated_queue_def by (rule apply_queue_P [OF e1]) simp
    then show ?thesis using Some x Inr by (auto simp: run_repeated_action_def intro!: bind_P)
  qed
qed (simp add: run_repeated_action_def)

lemma start_until_keyup_P: "P e \<Longrightarrow> P (snd (start_until_keyup env ident ctx h repeat e))"
  unfolding start_until_keyup_def
  by (rule bind_P)
     (auto simp: run_repeated_action_P loop_law case_prod_beta Let_def)

lemma apply_effects_P: "P e \<Longrightarrow> P (snd (apply_effects env ident effs ctx e))"
  unfolding apply_effects_def
  by (rule bind_P) (simp_all add: apply_queue_P start_until_keyup_P)

end

end
