(* ===== verification/Engine_Dispatch.thy ===== *)
theory Engine_Dispatch
  imports Engine_Actions
begin

text \<open>
  Dispatch of hotkey events (\<open>hotki-engine/src/dispatch.rs\<close>), closing of a selector
  (\<open>selector_controller.rs\<close>), focus, display and matcher events (\<open>world_sync.rs\<close>),
  and the drop of the last engine owner (\<open>lib.rs\<close>).
\<close>

subsection \<open>Focus\<close>

definition rebind_current_context ::
  "('v, 'm, 's) engine_env \<Rightarrow> ('v, 'm, 's) engine \<Rightarrow> (engine_error + unit) \<times> ('v, 'm, 's) engine" where
  "rebind_current_context env e = rebind_and_refresh env (en_focus e) e"

definition apply_world_focus_snapshot ::
  "('v, 'm, 's) engine_env \<Rightarrow> focus_snapshot option \<Rightarrow> ('v, 'm, 's) engine
   \<Rightarrow> (engine_error + unit) \<times> ('v, 'm, 's) engine" where
  "apply_world_focus_snapshot env focus e =
     (if en_focus e = focus then (Ok (), e)
      else rebind_current_context env (e\<lparr>en_focus := focus\<rparr>))"

definition refresh_world_focus ::
  "('v, 'm, 's) engine_env \<Rightarrow> ('v, 'm, 's) engine \<Rightarrow> (engine_error + unit) \<times> ('v, 'm, 's) engine" where
  "refresh_world_focus env e = apply_world_focus_snapshot env (ev_world_focus env) e"

text \<open>A failed update is only logged.\<close>

definition handle_focus_change_event ::
  "('v, 'm, 's) engine_env \<Rightarrow> focus_snapshot option \<Rightarrow> ('v, 'm, 's) engine \<Rightarrow> ('v, 'm, 's) engine" where
  "handle_focus_change_event env change e = snd (apply_world_focus_snapshot env change e)"

definition publish_hud_with_displays ::
  "hud_state \<Rightarrow> displays_snapshot \<Rightarrow> ('v, 'm, 's) engine \<Rightarrow> (engine_error + unit) \<times> ('v, 'm, 's) engine" where
  "publish_hud_with_displays hud displays e = on_ui (send_hud_update hud displays) (e\<lparr>en_displays := displays\<rparr>)"

definition refresh_displays_if_changed ::
  "('v, 'm, 's) engine_env \<Rightarrow> ('v, 'm, 's) engine \<Rightarrow> (engine_error + unit) \<times> ('v, 'm, 's) engine" where
  "refresh_displays_if_changed env e =
     (if en_displays e = ev_displays env then (Ok (), e)
      else publish_hud_with_displays (hud_state_for_ui (en_runtime e)) (ev_displays env) e)"

definition on_selector_notify ::
  "('v, 'm, 's) engine_env \<Rightarrow> ('v, 'm, 's) engine \<Rightarrow> (engine_error + unit) \<times> ('v, 'm, 's) engine" where
  "on_selector_notify env e =
     (case rt_selector (en_runtime e) of
        None \<Rightarrow> (Ok (), e)
      | Some s \<Rightarrow>
          (let (changed, s1) = selector_tick (ev_matcher env) s in
           if \<not> changed then (Ok (), on_runtime (\<lambda>rt. rt\<lparr>rt_selector := Some s1\<rparr>) e)
           else let (snapshot, s2) = selector_snapshot_of (ev_matcher env) s1
                in on_ui (try_send_ui (SelectorUpdate snapshot))
                     (on_runtime (\<lambda>rt. rt\<lparr>rt_selector := Some s2\<rparr>) e)))"

subsection \<open>Keys of an open selector\<close>

datatype selector_terminal = ST_Select selector_selection | ST_Cancel

record selector_close =
  sc_terminal :: selector_terminal
  sc_config :: selector_config
  sc_ctx :: mode_ctx

datatype selector_input_result =
  SI_Inactive | SI_Consumed | SI_Update selector_snapshot | SI_Close selector_close

definition close_selector ::
  "'m selector_state \<Rightarrow> selector_terminal \<Rightarrow> 'm runtime_state \<Rightarrow> selector_input_result \<times> 'm runtime_state" where
  "close_selector s terminal rt =
     (let rt1 = rt\<lparr>rt_hud_visible := sel_prev_hud_visible s\<rparr>
      in (SI_Close \<lparr>sc_terminal = terminal, sc_config = sel_config s,
                    sc_ctx = mode_ctx_of (sel_window s) (rt_hud_visible rt1) (rt_depth rt1)\<rparr>, rt1))"

definition selector_input ::
  "'m matcher_ops \<Rightarrow> chord \<Rightarrow> 'm runtime_state \<Rightarrow> selector_input_result \<times> 'm runtime_state" where
  "selector_input mo chord rt0 =
     (case rt_selector rt0 of
        None \<Rightarrow> (SI_Inactive, rt0)
      | Some s \<Rightarrow>
          (let rt = rt0\<lparr>rt_selector := None\<rparr>;
               (ev, s1) = selector_handle_key_down mo chord s
           in case ev of
                SE_Update \<Rightarrow>
                  (let s2 = snd (selector_tick mo s1);
                       (snapshot, s3) = selector_snapshot_of mo s2
                   in (SI_Update snapshot, rt\<lparr>rt_selector := Some s3\<rparr>))
              | SE_Select selection \<Rightarrow> close_selector s1 (ST_Select selection) rt
              | SE_Cancel \<Rightarrow> close_selector s1 ST_Cancel rt
              | SE_None \<Rightarrow> (SI_Consumed, rt\<lparr>rt_selector := Some s1\<rparr>)))"

definition selector_noop_result :: handler_result where
  "selector_noop_result = \<lparr>hr_effects = [], hr_stay = True\<rparr>"

definition execute_selector_close ::
  "'v vm_ops \<Rightarrow> selector_close \<Rightarrow> 'v config \<Rightarrow> (config_error + handler_result) \<times> 'v config" where
  "execute_selector_close vm close cfg =
     (case sc_terminal close of
        ST_Select selection \<Rightarrow>
          execute_selector_selection vm (sc_config close) (sc_ctx close) (chosen_item selection)
            (chosen_query selection) cfg
      | ST_Cancel \<Rightarrow>
          (case execute_selector_cancel vm (sc_config close) (sc_ctx close) cfg of
             (Inl err, cfg') \<Rightarrow> (Err err, cfg')
           | (Inr (Some result), cfg') \<Rightarrow> (Ok result, cfg')
           | (Inr None, cfg') \<Rightarrow> (Ok selector_noop_result, cfg')))"

text \<open>
  Without a configuration the code rebinds while it holds the configuration lock that
  the rebind takes; no reachable state has a selector and no configuration.
\<close>

definition complete_close ::
  "('v, 'm, 's) engine_env \<Rightarrow> string \<Rightarrow> focus_snapshot option \<Rightarrow> selector_close \<Rightarrow> ('v, 'm, 's) engine
   \<Rightarrow> (engine_error + unit) \<times> ('v, 'm, 's) engine" where
  "complete_close env i focus close e =
     ebind (on_ui (try_send_ui SelectorHide) e) (\<lambda>_ e.
       case en_config e of
         None \<Rightarrow> rebind_and_refresh env focus e
       | Some cfg \<Rightarrow>
           (case execute_selector_close (ev_vm env) close cfg of
              (Inl err, cfg') \<Rightarrow>
                ebind (on_ui (send_error ''Selector'' (error_pretty err)) (e\<lparr>en_config := Some cfg'\<rparr>))
                  (\<lambda>_ e. rebind_and_refresh env focus e)
            | (Inr result, cfg') \<Rightarrow>
                ebind (apply_effects env i (hr_effects result) (sc_ctx close) (e\<lparr>en_config := Some cfg'\<rparr>))
                  (\<lambda>_ e. rebind_and_refresh env focus e)))"

definition selector_handle_input ::
  "('v, 'm, 's) engine_env \<Rightarrow> chord \<Rightarrow> string \<Rightarrow> focus_snapshot option \<Rightarrow> ('v, 'm, 's) engine
   \<Rightarrow> (engine_error + bool) \<times> ('v, 'm, 's) engine" where
  "selector_handle_input env chord i focus e =
     (let (input, rt) = selector_input (ev_matcher env) chord (en_runtime e);
          e1 = e\<lparr>en_runtime := rt\<rparr>
      in case input of
           SI_Inactive \<Rightarrow> (Ok False, e1)
         | SI_Consumed \<Rightarrow> (Ok True, e1)
         | SI_Update snapshot \<Rightarrow> ebind (on_ui (try_send_ui (SelectorUpdate snapshot)) e1) (\<lambda>_ e. (Ok True, e))
         | SI_Close close \<Rightarrow> ebind (complete_close env i focus close e1) (\<lambda>_ e. (Ok True, e)))"

subsection \<open>Executing a binding\<close>

definition execute_binding ::
  "('v, 'm, 's) engine_env \<Rightarrow> string \<Rightarrow> binding \<Rightarrow> mode_ctx \<Rightarrow> ('v, 'm, 's) engine
   \<Rightarrow> (engine_error + dispatch_result option) \<times> ('v, 'm, 's) engine" where
  "execute_binding env i b ctx e =
     (case bd_kind b of
        Bind_Mode mode \<Rightarrow>
          (Ok (Some (with_stay EnteredMode (stays_in_mode b))),
           on_runtime (push_mode (bd_desc b) mode (map_option (\<lambda>id. (bd_chord b, id)) (bd_mode_id b))
             (bd_mode_capture b) (ctx_window ctx)) e)
      | Bind_Handler handler \<Rightarrow>
          (case en_config e of
             None \<Rightarrow> (Ok None, e)
           | Some cfg \<Rightarrow>
               (case execute_handler (ev_vm env) handler ctx cfg of
                  (Inl err, cfg') \<Rightarrow>
                    ebind (on_ui (send_error ''Handler'' (error_pretty err)) (e\<lparr>en_config := Some cfg'\<rparr>))
                      (\<lambda>_ e. (Ok None, e))
                | (Inr result, cfg') \<Rightarrow>
                    ebind (apply_effects env i (hr_effects result) ctx (e\<lparr>en_config := Some cfg'\<rparr>))
                      (\<lambda>r e. (Ok (Some (with_stay (with_stay r (hr_stay result)) (stays_in_mode b))), e)))))"

definition press_feedback :: "bool \<Rightarrow> chord \<Rightarrow> binding \<Rightarrow> 'm runtime_state \<Rightarrow> bool" where
  "press_feedback allow chord b rt \<longleftrightarrow>
     allow \<and> rt_hud_visible rt \<and> hs_mode (style_hud (rs_style (rt_rendered rt))) = Mode_Hud \<and>
     (case bd_kind b of Bind_Handler _ \<Rightarrow> True | Bind_Mode _ \<Rightarrow> False) \<and>
     list_ex (\<lambda>row. row_chord row = chord \<and> row_stay row) (rs_hud_rows (rt_rendered rt))"

definition notify_press :: "bool \<Rightarrow> chord \<Rightarrow> string \<Rightarrow> binding \<Rightarrow> ('v, 'm, 's) engine \<Rightarrow> ('v, 'm, 's) engine" where
  "notify_press allow chord i b e =
     (if press_feedback allow chord b (en_runtime e)
      then (case on_ui (try_send_ui (HudKeyState chord True)) e of
              (Inr _, e1) \<Rightarrow> e1\<lparr>en_keys := ks_mark_press_notified i (en_keys e1)\<rparr>
            | (Inl _, e1) \<Rightarrow> e1)
      else e)"

definition handle_bound_key ::
  "('v, 'm, 's) engine_env \<Rightarrow> chord \<Rightarrow> string \<Rightarrow> focus_snapshot option \<Rightarrow> bool \<Rightarrow> ('v, 'm, 's) engine
   \<Rightarrow> (engine_error + unit) \<times> ('v, 'm, 's) engine" where
  "handle_bound_key env chord i focus allow_feedback e =
     (case resolve_binding (rt_rendered (en_runtime e)) chord of
        None \<Rightarrow> (Ok (), e)
      | Some b \<Rightarrow>
          (let ctx = rt_mode_ctx focus (en_runtime e);
               e1 = notify_press allow_feedback chord i b e
           in ebind (execute_binding env i b ctx e1) (\<lambda>result e.
                case result of
                  None \<Rightarrow> (Ok (), e)
                | Some r \<Rightarrow>
                    rebind_and_refresh env focus (if should_auto_exit r then auto_exit e else e))))"

definition handle_key_event ::
  "('v, 'm, 's) engine_env \<Rightarrow> chord \<Rightarrow> string \<Rightarrow> bool \<Rightarrow> bool \<Rightarrow> ('v, 'm, 's) engine
   \<Rightarrow> (engine_error + unit) \<times> ('v, 'm, 's) engine" where
  "handle_key_event env chord i refresh_world allow_feedback e =
     ebind (if refresh_world \<and> en_sync_on_dispatch e then refresh_world_focus env e else (Ok (), e)) (\<lambda>_ e.
       let focus = en_focus e in
       if en_config e = None then (Ok (), e)
       else ebind (selector_handle_input env chord i focus e) (\<lambda>consumed e.
              if consumed then (Ok (), e)
              else handle_bound_key env chord i focus allow_feedback e))"

subsection \<open>Dispatch\<close>

definition handle_key_up :: "string \<Rightarrow> ('v, 'm, 's) engine \<Rightarrow> ('v, 'm, 's) engine" where
  "handle_key_up i e =
     e\<lparr>en_actions := ticker_stop i (en_actions e), en_repeater := rp_stop i (en_repeater e),
       en_relay := snd (relay_end i (en_relay e))\<rparr>"

definition handle_repeat :: "string \<Rightarrow> ('v, 'm, 's) engine \<Rightarrow> ('v, 'm, 's) engine" where
  "handle_repeat i e =
     (let (repeated, relay) = relay_repeat i (en_relay e);
          e1 = e\<lparr>en_relay := relay\<rparr>
      in if repeated \<and> rp_is_ticking i (en_repeater e1)
         then e1\<lparr>en_repeater := rp_note_os_repeat i (en_repeater e1)\<rparr> else e1)"

definition resolve_dispatch_binding ::
  "32 word \<Rightarrow> event_kind \<Rightarrow> bool \<Rightarrow> ('v, 'm, 's) engine \<Rightarrow> held_binding option \<times> ('v, 'm, 's) engine" where
  "resolve_dispatch_binding i kind repeat e =
     (if kind = KeyUp \<and> en_held e i \<noteq> None
      then (en_held e i, e\<lparr>en_held := (en_held e)(i := None)\<rparr>)
      else if kind = KeyDown \<and> repeat \<and> en_held e i \<noteq> None then (en_held e i, e)
      else (case resolve_binding_id (en_manager e) i of
              None \<Rightarrow> (None, e)
            | Some (ident, c) \<Rightarrow>
                (let b = \<lparr>hb_identifier = ident, hb_chord = c\<rparr>
                 in (Some b, if kind = KeyDown then e\<lparr>en_held := (en_held e)(i \<mapsto> b)\<rparr> else e))))"

definition dispatch_resolved ::
  "('v, 'm, 's) engine_env \<Rightarrow> string \<Rightarrow> chord \<Rightarrow> event_kind \<Rightarrow> bool \<Rightarrow> bool \<Rightarrow> ('v, 'm, 's) engine
   \<Rightarrow> (engine_error + unit) \<times> ('v, 'm, 's) engine" where
  "dispatch_resolved env i chord kind repeat refresh_world e =
     (case kind of
        KeyDown \<Rightarrow>
          if repeat
          then if rt_selector (en_runtime e) \<noteq> None then handle_key_event env chord i refresh_world False e
               else if ks_is_down i (en_keys e) \<and> ks_is_repeat_allowed i (en_keys e)
               then (Ok (), handle_repeat i e)
               else (Ok (), e)
          else (let (initial, keys) = ks_on_key_down i chord (en_keys e)
                in handle_key_event env chord i refresh_world initial (e\<lparr>en_keys := keys\<rparr>))
      | KeyUp \<Rightarrow>
          (let (released, keys) = ks_on_key_up i (en_keys e);
               e1 = handle_key_up i (e\<lparr>en_keys := keys\<rparr>)
           in (Ok (), case released of
                        Some r \<Rightarrow>
                          if released_press_notified r
                          then snd (on_ui (send_ui (HudKeyState (released_chord r) False)) e1)
                          else e1
                      | None \<Rightarrow> e1)))"

definition dispatch ::
  "('v, 'm, 's) engine_env \<Rightarrow> 32 word \<Rightarrow> event_kind \<Rightarrow> bool \<Rightarrow> ('v, 'm, 's) engine
   \<Rightarrow> (engine_error + unit) \<times> ('v, 'm, 's) engine" where
  "dispatch env i kind repeat e =
     (case resolve_dispatch_binding i kind repeat e of
        (None, e1) \<Rightarrow> (Ok (), e1)
      | (Some b, e1) \<Rightarrow> dispatch_resolved env (hb_identifier b) (hb_chord b) kind repeat True e1)"

definition dispatch_injected ::
  "('v, 'm, 's) engine_env \<Rightarrow> string \<Rightarrow> event_kind \<Rightarrow> bool \<Rightarrow> ('v, 'm, 's) engine
   \<Rightarrow> (engine_error + bool) \<times> ('v, 'm, 's) engine" where
  "dispatch_injected env ident kind repeat e =
     (let retained = (if kind = KeyUp \<or> repeat then ks_held_chord ident (en_keys e) else None);
          chord = (case retained of Some c \<Rightarrow> Some c | None \<Rightarrow> chord_for_ident (en_manager e) ident)
      in case chord of
           None \<Rightarrow> (Ok False, e)
         | Some c \<Rightarrow> ebind (dispatch_resolved env ident c kind repeat False e) (\<lambda>_ e. (Ok True, e)))"

subsection \<open>Shutdown\<close>

text \<open>The drop of the last owner; \<open>refs\<close>, \<open>pt\<close> and \<open>at\<close> are what the maps hold, in their order.\<close>

definition engine_drop ::
  "('v, 'm, 's) engine_env \<Rightarrow> nat list \<Rightarrow> tick_closure list \<Rightarrow> action_closure list
   \<Rightarrow> ('v, 'm, 's) engine \<Rightarrow> ('v, 'm, 's) engine" where
  "engine_drop env refs pt at e =
     e\<lparr>en_repeater := rp_abort_all pt refs (en_repeater e),
       en_actions := ticker_abort_all at (en_actions e),
       en_relay := relay_release_all (ev_gesture_order env) (en_relay e)\<rparr>"

subsection \<open>What handling a key may do to the engine\<close>

locale engine_key_ops = engine_ops env ident P
  for env :: "('v, 'm, 's) engine_env" and ident :: string and P :: "('v, 'm, 's) engine \<Rightarrow> bool" +
  assumes rebind_law: "P e \<Longrightarrow> P (snd (rebind_and_refresh env focus e))"
    and focus_law: "P e \<Longrightarrow> P (e\<lparr>en_focus := focus\<rparr>)"
    and notified_law: "P e \<Longrightarrow> P (e\<lparr>en_keys := ks_mark_press_notified ident (en_keys e)\<rparr>)"
begin

lemma refresh_world_focus_P: "P e \<Longrightarrow> P (snd (refresh_world_focus env e))"
  by (simp add: refresh_world_focus_def apply_world_focus_snapshot_def rebind_current_context_def
      rebind_law focus_law)

lemma complete_close_P: "P e \<Longrightarrow> P (snd (complete_close env ident focus close e))"
  unfolding complete_close_def
proof (rule bind_P)
  fix x e assume e: "P e"
  show "P (snd (case en_config e of None \<Rightarrow> rebind_and_refresh env focus e
    | Some cfg \<Rightarrow> (case execute_selector_close (ev_vm env) close cfg of
        (Inl err, cfg') \<Rightarrow> ebind (on_ui (send_error ''Selector'' (error_pretty err)) (e\<lparr>en_config := Some cfg'\<rparr>))
            (\<lambda>_ e. rebind_and_refresh env focus e)
      | (Inr result, cfg') \<Rightarrow> ebind (apply_effects env ident (hr_effects result) (sc_ctx close) (e\<lparr>en_config := Some cfg'\<rparr>))
            (\<lambda>_ e. rebind_and_refresh env focus e))))"
    by (auto simp: e rebind_law config_law apply_effects_P notify_P split: option.split prod.split sum.split
        intro!: bind_P)
qed (simp add: on_ui_P)

lemma selector_handle_input_P:
  assumes "P e" "en_config e \<noteq> None"
  shows "P (snd (selector_handle_input env chord ident focus e))"
proof -
  obtain input rt where i: "selector_input (ev_matcher env) chord (en_runtime e) = (input, rt)" by fastforce
  have e1: "P (e\<lparr>en_runtime := rt\<rparr>)" using assms by (rule selector_law)
  show ?thesis
    unfolding selector_handle_input_def i Let_def split
    by (cases input) (auto simp: e1 on_ui_P complete_close_P intro!: bind_P)
qed

lemma execute_binding_P: "P e \<Longrightarrow> P (snd (execute_binding env ident b ctx e))"
  by (auto simp: execute_binding_def on_runtime_P config_law apply_effects_P notify_P
      split: binding_kind.split option.split prod.split sum.split intro!: bind_P)

lemma auto_exit_P: "P e \<Longrightarrow> P (auto_exit e)"
  unfolding auto_exit_def by (rule apply_nav_request_P)

lemma notify_press_P: "P e \<Longrightarrow> P (notify_press allow chord ident b e)"
  using on_ui_P [of e "HudKeyState chord True"]
  by (auto simp: notify_press_def notified_law split: prod.split sum.split)

lemma handle_bound_key_P: "P e \<Longrightarrow> P (snd (handle_bound_key env chord ident focus allow e))"
  by (auto simp: handle_bound_key_def Let_def execute_binding_P notify_press_P rebind_law auto_exit_P
      split: option.split intro!: bind_P)

lemma handle_key_event_P: "P e \<Longrightarrow> P (snd (handle_key_event env chord ident refresh allow e))"
  unfolding handle_key_event_def
  by (rule bind_P)
     (auto simp: refresh_world_focus_P Let_def selector_handle_input_P handle_bound_key_P intro!: bind_P)

end

end
