(* ===== verification/Engine_Invariant.thy ===== *)
theory Engine_Invariant
  imports Engine_Dispatch
begin

text \<open>
  The engine as a whole: what handling one key leaves alone, the invariant of every
  state the engine reaches through dispatches, focus and display events, matcher and
  ticker wakeups, process runs and reloads, and the properties of key release.
\<close>

subsection \<open>One key at a time\<close>

text \<open>
  Handling a key keeps which keys are held and, for every other key, may end its
  repeat loop or relayed gesture but never start or change one.
\<close>

definition key_frame :: "string \<Rightarrow> ('v, 'm, 's) engine \<Rightarrow> ('v, 'm, 's) engine \<Rightarrow> bool" where
  "key_frame i e0 e \<longleftrightarrow>
     (\<forall>j. ks_held_chord j (en_keys e) = ks_held_chord j (en_keys e0)) \<and>
     (\<forall>j. j \<noteq> i \<longrightarrow> tk_entries (en_actions e) j \<in> {None, tk_entries (en_actions e0) j}) \<and>
     (\<forall>j. j \<noteq> i \<longrightarrow> map_of (active (en_relay e)) j \<in> {None, map_of (active (en_relay e0)) j}) \<and>
     en_held e = en_held e0 \<and> en_ticks e = en_ticks e0"

lemma key_frame_refl [simp, intro]: "key_frame i e e"
  by (simp add: key_frame_def)

lemma relay_begin_other: "j \<noteq> i \<Longrightarrow> map_of (active (relay_begin i c d st)) j = map_of (active st) j"
  by (auto simp: relay_begin_def Let_def update_conv' delete_conv' split: option.split)

lemma relay_end_other: "j \<noteq> i \<Longrightarrow> map_of (active (snd (relay_end i st))) j = map_of (active st) j"
  by (auto simp: relay_end_def Let_def delete_conv' split: option.split)

lemma relay_repeat_active [simp]: "active (snd (relay_repeat i st)) = active st"
  by (auto simp: relay_repeat_def split: option.split)

lemma ticker_start_entries:
  "tk_entries (ticker_start i a b cb t) =
     (tk_entries t)(i \<mapsto> \<lparr>te_initial = a, te_interval = b, te_callback = cb\<rparr>)"
  by (auto simp: ticker_start_def ticker_abort_def Let_def split: option.split)

lemma held_chord_updates [simp]:
  "ks_held_chord j (ks_set_repeat_allowed i b st) = ks_held_chord j st"
  "ks_held_chord j (ks_mark_press_notified i st) = ks_held_chord j st"
  by (simp_all add: ks_held_chord_def ks_set_repeat_allowed_def ks_mark_press_notified_def split: option.split)

lemma publish_plan_keeps:
  "en_keys (publish_plan env plan d ch m e) = en_keys e" "en_held (publish_plan env plan d ch m e) = en_held e"
  "en_ticks (publish_plan env plan d ch m e) = en_ticks e"
  "en_focus (publish_plan env plan d ch m e) = en_focus e"
  "en_next_closure (publish_plan env plan d ch m e) = en_next_closure e"
  "en_actions (publish_plan env plan d ch m e) = (if ch then ticker_clear (en_actions e) else en_actions e)"
  "en_relay (publish_plan env plan d ch m e) =
     (if ch then relay_release_all (ev_gesture_order env) (en_relay e) else en_relay e)"
  "en_repeater (publish_plan env plan d ch m e) =
     (if ch then rp_stop_repeats (ev_held_refs env (en_repeater e)) (en_repeater e) else en_repeater e)"
  "en_manager (publish_plan env plan d ch m e) = set_capture_all (ev_api env) (plan_capture_all plan) m"
  "en_ui (publish_plan env plan d ch m e) = deliver_refresh_diagnostics (plan_errors plan) (plan_warnings plan)
     (chan_push (HudUpdate (plan_hud plan) d) (en_ui e))"
  by (simp_all add: publish_plan_def clear_repeats_def Let_def)

text \<open>Every rebind and every commit is one of these.\<close>

lemma publish_key_frame:
  "key_frame i e0 e \<Longrightarrow> key_frame i e0 (publish_plan env plan d ch m (e\<lparr>en_config := c, en_runtime := rt, en_config_path := p\<rparr>))"
  by (auto simp: key_frame_def publish_plan_keeps ticker_clear_def relay_release_all_def)

lemma rebind_key_frame: "key_frame i e0 e \<Longrightarrow> key_frame i e0 (snd (rebind_and_refresh env focus e))"
proof -
  assume k: "key_frame i e0 e"
  obtain r e' where r: "rebind_and_refresh env focus e = (r, e')" by fastforce
  then show ?thesis
  proof (cases rule: rebind_cases)
    case (ok plan rt cfg m changed)
    have "key_frame i e0 e'" unfolding ok(5) by (rule publish_key_frame [OF k])
    then show ?thesis by (simp add: r)
  qed (use k r in \<open>auto simp: key_frame_def\<close>)
qed

lemma commit_key_frame: "key_frame i e0 e \<Longrightarrow> key_frame i e0 (snd (commit_config env p e))"
proof -
  assume k: "key_frame i e0 e"
  obtain r e' where r: "commit_config env p e = (r, e')" by fastforce
  then show ?thesis
  proof (cases rule: commit_cases)
    case (ok m changed)
    have "key_frame i e0 e'" unfolding ok(4) by (rule publish_key_frame [OF k])
    then show ?thesis by (simp add: r)
  qed (use k r in \<open>auto simp: key_frame_def\<close>)
qed

interpretation frame: engine_key_ops env ident "key_frame ident e0" for env ident e0
proof
  fix e :: "('a, 'b, 'c) engine" and p focus
  assume k: "key_frame ident e0 e"
  show "key_frame ident e0 (snd (commit_config env p e))" by (rule commit_key_frame [OF k])
  show "key_frame ident e0 (snd (rebind_and_refresh env focus e))" by (rule rebind_key_frame [OF k])
qed (auto simp: key_frame_def relay_begin_other relay_end_other ticker_start_entries)

subsection \<open>The invariant\<close>

text \<open>The orders in which hash maps are iterated, and the run states taken from one.\<close>

definition env_ok :: "('v, 'm, 's) engine_env \<Rightarrow> bool" where
  "env_ok env \<longleftrightarrow> (\<forall>xs. mset (ev_ident_order env xs) = mset xs) \<and>
     (\<forall>xs. mset (ev_gesture_order env xs) = mset xs) \<and> (\<forall>rp. set (ev_held_refs env rp) = held_refs rp)"

text \<open>A repeat loop belongs to a held key and ticks within the bounds of its timings.\<close>

definition loops_ok :: "key_states \<Rightarrow> nat \<Rightarrow> action_closure ticker \<Rightarrow> bool" where
  "loops_ok keys n t \<longleftrightarrow> (\<forall>i e. tk_entries t i = Some e \<longrightarrow>
     cl_identifier (te_callback e) = i \<and> ks_is_down i keys \<and> cl_id (te_callback e) < n \<and>
     te_initial e \<in> {100..1000} \<and> te_interval e \<in> {100..2000})"

definition keys_ok :: "key_states \<Rightarrow> bool" where
  "keys_ok keys \<longleftrightarrow> (\<forall>i. \<not> ks_is_repeat_allowed i keys)"

text \<open>No process is ever started with a repeat.\<close>

definition procs_ok :: "repeater \<Rightarrow> bool" where
  "procs_ok rp \<longleftrightarrow> repeater_inv rp \<and> (\<forall>r. \<not> run_cancel_on_release (rp_heap rp r)) \<and>
     rp_ticker rp = ticker_empty"

definition engine_inv :: "('v, 'm, 's) engine \<Rightarrow> bool" where
  "engine_inv e \<longleftrightarrow> distinct (map fst (bindings (en_manager e))) \<and>
     loops_ok (en_keys e) (en_next_closure e) (en_actions e) \<and> distinct (map cl_id (en_ticks e)) \<and>
     keys_ok (en_keys e) \<and> procs_ok (en_repeater e) \<and>
     (en_config e = None \<longrightarrow> rt_selector (en_runtime e) = None) \<and>
     relay_inv (en_relay e) \<and> chan_wf (en_ui e)"

lemma keys_ok_updates:
  assumes "keys_ok keys"
  shows "keys_ok (ks_set_repeat_allowed i False keys)" "keys_ok (ks_mark_press_notified i keys)"
    "keys_ok (snd (ks_on_key_down i c keys))" "keys_ok (snd (ks_on_key_up i keys))"
  using assms
  by (auto simp: keys_ok_def ks_is_repeat_allowed_def ks_set_repeat_allowed_def ks_mark_press_notified_def
      ks_on_key_down_def ks_on_key_up_def split: option.splits if_splits)

lemma is_down_updates [simp]:
  "ks_is_down j (ks_set_repeat_allowed i b keys) = ks_is_down j keys"
  "ks_is_down j (ks_mark_press_notified i keys) = ks_is_down j keys"
  "ks_is_down j (snd (ks_on_key_down i c keys)) \<longleftrightarrow> j = i \<or> ks_is_down j keys"
  "ks_is_down j (snd (ks_on_key_up i keys)) \<longleftrightarrow> j \<noteq> i \<and> ks_is_down j keys"
  by (auto simp: ks_is_down_def ks_set_repeat_allowed_def ks_mark_press_notified_def ks_on_key_down_def
      ks_on_key_up_def split: option.splits)

lemma loops_ok_mono:
  "loops_ok keys n t \<Longrightarrow> (\<And>i. ks_is_down i keys \<Longrightarrow> ks_is_down i keys') \<Longrightarrow> n \<le> n' \<Longrightarrow> loops_ok keys' n' t"
  unfolding loops_ok_def by (meson less_le_trans)

lemma loops_ok_start:
  assumes "loops_ok keys n t" "ks_is_down i keys" "a \<in> {100..1000}" "b \<in> {100..2000}"
  shows "loops_ok keys (Suc n) (ticker_start i a b \<lparr>cl_id = n, cl_identifier = i, cl_action = h, cl_ctx = ctx\<rparr> t)"
  unfolding loops_ok_def ticker_start_entries
proof (intro allI impI)
  fix j e
  assume j: "((tk_entries t)(i \<mapsto> \<lparr>te_initial = a, te_interval = b,
    te_callback = \<lparr>cl_id = n, cl_identifier = i, cl_action = h, cl_ctx = ctx\<rparr>\<rparr>)) j = Some e"
  show "cl_identifier (te_callback e) = j \<and> ks_is_down j keys \<and> cl_id (te_callback e) < Suc n \<and>
      te_initial e \<in> {100..1000} \<and> te_interval e \<in> {100..2000}"
  proof (cases "j = i")
    case True
    then show ?thesis using j assms(2-) by auto
  next
    case False
    then have "tk_entries t j = Some e" using j by simp
    then show ?thesis using assms(1) unfolding loops_ok_def by (blast intro: less_SucI)
  qed
qed

lemma timings_in_bounds:
  "fst (effective_timings r) \<in> {100..1000}" "snd (effective_timings r) \<in> {100..2000}"
  using clamp_bounds [of "100 :: 64 word" 1000] clamp_bounds [of "100 :: 64 word" 2000]
  by (simp_all add: effective_timings_def Let_def split: option.split)

lemma ticker_empty_abort [simp]: "ticker_abort i ticker_empty = ticker_empty"
  by (simp add: ticker_abort_def ticker_empty_def)

lemma ticker_empty_stop [simp]: "ticker_stop i ticker_empty = ticker_empty" "ticker_clear ticker_empty = ticker_empty"
  by (simp_all add: ticker_stop_def ticker_clear_def ticker_empty_def fun_eq_iff)

lemma run_abort_frame:
  "run_cancel_on_release (rp_heap (run_abort r rp) q) = run_cancel_on_release (rp_heap rp q)"
  "rp_ticker (run_abort r rp) = rp_ticker rp"
  by (simp_all add: run_abort_def)

lemma procs_ok_start: "procs_ok rp \<Longrightarrow> procs_ok (rp_start i spec None rp)"
proof -
  assume ok: "procs_ok rp"
  have "repeater_inv (rp_start i spec None rp)" using ok by (simp add: procs_ok_def rp_start_inv)
  moreover have "(\<forall>r. \<not> run_cancel_on_release (rp_heap (rp_start i spec None rp) r)) \<and>
      rp_ticker (rp_start i spec None rp) = ticker_empty"
    using ok by (auto simp: procs_ok_def rp_start_def start_initial_process_def process_state_def Let_def
        run_abort_frame split: option.split)
  ultimately show ?thesis by (simp add: procs_ok_def)
qed

lemma procs_ok_stop: "procs_ok rp \<Longrightarrow> procs_ok (rp_stop i rp)"
  using rp_stop_inv [of rp i]
  by (auto simp: procs_ok_def rp_stop_def Let_def run_stop_frame(1, 3) split: option.split)

lemma procs_ok_no_held: "procs_ok rp \<Longrightarrow> held_ids rp = {}"
  by (auto simp: procs_ok_def held_ids_def)

lemma procs_ok_stop_repeats:
  assumes "procs_ok rp" "set refs = held_refs rp"
  shows "rp_stop_repeats refs rp = rp"
proof -
  have "refs = []" using assms procs_ok_no_held [OF assms(1)] by (simp add: held_refs_def)
  then show ?thesis
    using assms(1) procs_ok_no_held [OF assms(1)] by (simp add: rp_stop_repeats_def procs_ok_def)
qed

lemma procs_ok_task:
  assumes "procs_ok rp" "t \<in> set (rp_tasks rp)"
  shows "procs_ok (end_task t rp)" "procs_ok (upd_run (task_ref t) (\<lambda>s. s\<lparr>run_pid := pid\<rparr>) rp)"
  using assms end_task_inv [of rp t] repeater_step_inv [OF repeater_step.child [OF assms(2)]]
  by (auto simp: procs_ok_def)

lemma ticker_clear_loops_ok: "loops_ok keys n (ticker_clear t)"
  by (simp add: loops_ok_def ticker_clear_def)

lemma ticker_stop_loops_ok: "loops_ok keys n t \<Longrightarrow> loops_ok keys n (ticker_stop i t)"
  by (simp add: loops_ok_def ticker_stop_def)

lemma deliver_warnings_wf: "chan_wf ch \<Longrightarrow> chan_wf (deliver_warnings ws ch)"
  by (induction ws ch rule: deliver_warnings.induct) (auto simp: notify_defs try_send_ui_wf)

lemma deliver_diagnostics_wf: "chan_wf ch \<Longrightarrow> chan_wf (deliver_refresh_diagnostics errs ws ch)"
proof -
  assume "chan_wf ch"
  then have "chan_wf (fold (\<lambda>m ch. snd (send_error ''Config'' m ch)) errs ch)"
    by (induction errs arbitrary: ch) (auto simp: notify_defs try_send_ui_wf)
  then show ?thesis unfolding deliver_refresh_diagnostics_def by (rule deliver_warnings_wf)
qed

lemma chan_push_wf: "chan_wf ch \<Longrightarrow> has_room ch \<Longrightarrow> chan_wf (chan_push m ch)"
  by (simp add: chan_wf_def has_room_def)

text \<open>Publishing a plan keeps the invariant.\<close>

lemma publish_plan_inv:
  assumes "env_ok env" "engine_inv e" "has_room (en_ui e)"
    and "update_bindings (ev_ident_order env) (ev_api env) pairs (en_manager e) = (u, m)"
    and "cfg = None \<longrightarrow> rt_selector rt = None"
  shows "engine_inv (publish_plan env plan d ch m (e\<lparr>en_config := cfg, en_runtime := rt, en_config_path := p\<rparr>))"
proof -
  let ?e = "e\<lparr>en_config := cfg, en_runtime := rt, en_config_path := p\<rparr>"
  have e: "loops_ok (en_keys e) (en_next_closure e) (en_actions e)" "distinct (map cl_id (en_ticks e))"
    "keys_ok (en_keys e)" "procs_ok (en_repeater e)" "relay_inv (en_relay e)" "chan_wf (en_ui e)"
    "distinct (map fst (bindings (en_manager e)))"
    using assms(2) by (simp_all add: engine_inv_def)
  have order: "mset (ev_gesture_order env xs) = mset xs" "set (ev_held_refs env rp) = held_refs rp" for xs rp
    using assms(1) by (simp_all add: env_ok_def)
  have "relay_inv (en_relay (publish_plan env plan d ch m ?e))"
    using relay_release_all_inv [OF e(5) order(1)] e(5) by (simp add: publish_plan_keeps)
  moreover have "procs_ok (en_repeater (publish_plan env plan d ch m ?e))"
    using e(4) procs_ok_stop_repeats [OF e(4) order(2)] by (simp add: publish_plan_keeps)
  moreover have "distinct (map fst (bindings (en_manager (publish_plan env plan d ch m ?e))))"
    using update_bindings_distinct [OF assms(4) e(7)] by (simp add: publish_plan_keeps)
  moreover have "chan_wf (en_ui (publish_plan env plan d ch m ?e))"
    using e(6) assms(3) by (simp add: publish_plan_keeps deliver_diagnostics_wf chan_push_wf)
  moreover have "loops_ok (en_keys ?e) (en_next_closure ?e) (en_actions (publish_plan env plan d ch m ?e))"
    using e(1) by (simp add: publish_plan_keeps ticker_clear_loops_ok)
  ultimately show ?thesis
    using e(2, 3) assms(5) unfolding engine_inv_def by (simp add: publish_plan_keeps(1,3,5))
qed

lemma rollback_None: "rollback_runtime vm cp f sel rt None = (restore cp rt, None)"
  by (simp add: rollback_runtime_def)

lemma rollback_Some: "rollback_runtime vm cp f sel rt (Some c) = (rt', cfg') \<Longrightarrow> cfg' \<noteq> None"
  using build_plan_matches(2) [of vm f "restore cp rt" "Some c"]
  by (auto simp: rollback_runtime_def Let_def split: if_splits prod.splits)

lemma rebind_engine_inv:
  assumes "env_ok env" "engine_inv e"
  shows "engine_inv (snd (rebind_and_refresh env focus e))"
proof -
  obtain r e' where r: "rebind_and_refresh env focus e = (r, e')" by fastforce
  have plan: "cfg = None \<longrightarrow> rt_selector rt = None"
    if "build_refresh_plan (ev_vm env) focus (en_runtime e) (en_config e) = (plan, rt, cfg)" for plan rt cfg
    using build_plan_matches(2, 3) [OF that] by (cases "en_config e") auto
  from r show ?thesis
  proof (cases rule: rebind_cases)
    case (failed err plan rt cfg m rt' cfg')
    have "distinct (map fst (bindings m))"
      using update_bindings_distinct [OF failed(4)] assms(2) by (simp add: engine_inv_def)
    moreover have "cfg' = None \<longrightarrow> rt_selector rt' = None"
      using failed(5) plan [OF failed(3)] by (cases cfg) (auto simp: rollback_None restore_def dest: rollback_Some)
    ultimately show ?thesis using assms(2) failed(6) by (simp add: r engine_inv_def)
  next
    case (ok plan rt cfg m changed)
    have "engine_inv e'" unfolding ok(5) by (rule publish_plan_inv [OF assms ok(2, 4) plan [OF ok(3)]])
    then show ?thesis by (simp add: r)
  qed (use assms(2) r in simp)
qed

lemma commit_engine_inv:
  assumes "env_ok env" "engine_inv e"
  shows "engine_inv (snd (commit_config env p e))"
proof -
  obtain r e' where r: "commit_config env p e = (r, e')" by fastforce
  then show ?thesis
  proof (cases rule: commit_cases)
    case (failed err m)
    have "distinct (map fst (bindings m))"
      using update_bindings_distinct [OF failed(3)] assms(2) by (simp add: engine_inv_def)
    then show ?thesis using assms(2) failed(4) by (simp add: r engine_inv_def)
  next
    case (ok m changed)
    have "engine_inv e'" unfolding ok(4) by (rule publish_plan_inv [OF assms ok(2, 3)]) simp
    then show ?thesis by (simp add: r)
  qed (use assms(2) r in simp)
qed

interpretation inv: engine_key_ops env ident "\<lambda>e. env_ok env \<longrightarrow> engine_inv e" for env ident
proof
  fix e :: "('a, 'b, 'c) engine" and p focus
  assume k: "env_ok env \<longrightarrow> engine_inv e"
  show "env_ok env \<longrightarrow> engine_inv (snd (commit_config env p e))" using k commit_engine_inv by blast
  show "env_ok env \<longrightarrow> engine_inv (snd (rebind_and_refresh env focus e))" using k rebind_engine_inv by blast
qed (auto simp: engine_inv_def loops_ok_start [OF _ _ timings_in_bounds] keys_ok_updates procs_ok_start relay_begin_inv relay_end_inv
    relay_repeat_inv try_send_ui_wf elim!: loops_ok_mono)

subsection \<open>Every step of the engine\<close>

text \<open>
  Steps: hotkey and injected events, configuration, world and matcher events, ticks of
  held actions and their tasks, process runs, and the receiving end of the UI channel.
  The environment, scripts included, may differ from step to step.
\<close>

inductive engine_step :: "('v, 'm, 's) engine \<Rightarrow> ('v, 'm, 's) engine \<Rightarrow> bool" where
  hotkey: "env_ok env \<Longrightarrow> engine_step e (snd (dispatch env i kind rep e))"
| inject: "env_ok env \<Longrightarrow> engine_step e (snd (dispatch_injected env ident kind rep e))"
| configure: "env_ok env \<Longrightarrow> engine_step e (snd (set_config_path env path e))"
| focus: "env_ok env \<Longrightarrow> engine_step e (handle_focus_change_event env change e)"
| displays: "engine_step e (snd (refresh_displays_if_changed env e))"
| matcher: "engine_step e (snd (on_selector_notify env e))"
| tick: "tk_entries (en_actions e) i = Some t \<Longrightarrow> engine_step e (action_tick (te_callback t) e)"
| late_tick: "tk_aborted (en_actions e) = cs @ c # ds \<Longrightarrow>
    engine_step e (action_tick c (e\<lparr>en_actions := (en_actions e)\<lparr>tk_aborted := cs @ ds\<rparr>\<rparr>))"
| tick_task: "env_ok env \<Longrightarrow> c \<in> set (en_ticks e) \<Longrightarrow> engine_step e (action_tick_run env c e)"
| process_child: "t \<in> set (rp_tasks (en_repeater e)) \<Longrightarrow>
    engine_step e (e\<lparr>en_repeater := upd_run (task_ref t) (\<lambda>s. s\<lparr>run_pid := pid\<rparr>) (en_repeater e)\<rparr>)"
| process_end: "t \<in> set (rp_tasks (en_repeater e)) \<Longrightarrow>
    engine_step e (e\<lparr>en_repeater := end_task t (en_repeater e),
      en_ui := (case (note :: process_notification option) of None \<Rightarrow> en_ui e
                | Some n \<Rightarrow> snd (send_notification (pn_kind n) (pn_title n) (pn_text n) (en_ui e)))\<rparr>)"
| ui_receive: "n \<le> unread (en_ui e) \<Longrightarrow> engine_step e (e\<lparr>en_ui := (en_ui e)\<lparr>unread := n\<rparr>\<rparr>)"
| ui_close: "engine_step e (e\<lparr>en_ui := (en_ui e)\<lparr>closed := True\<rparr>\<rparr>)"

inductive engine_reachable :: "('v, 'm, 's) engine \<Rightarrow> bool" where
  init: "0 < cap \<Longrightarrow> engine_reachable (engine_build api_state True sync cap (\<lambda>_. None))"
| step: "engine_reachable e \<Longrightarrow> engine_step e e' \<Longrightarrow> engine_reachable e'"

lemma handle_key_up_inv:
  assumes "engine_inv e"
  shows "engine_inv (handle_key_up i (e\<lparr>en_keys := snd (ks_on_key_up i (en_keys e))\<rparr>))"
proof -
  have "loops_ok (snd (ks_on_key_up i (en_keys e))) (en_next_closure e) (ticker_stop i (en_actions e))"
    using assms unfolding engine_inv_def loops_ok_def by (auto simp: ticker_stop_def)
  then show ?thesis
    using assms by (simp add: engine_inv_def handle_key_up_def keys_ok_updates procs_ok_stop relay_end_inv)
qed

lemma dispatch_resolved_inv:
  assumes "env_ok env" "engine_inv e"
  shows "engine_inv (snd (dispatch_resolved env i c kind rep refresh e))"
proof (cases kind)
  case KeyUp
  let ?e = "handle_key_up i (e\<lparr>en_keys := snd (ks_on_key_up i (en_keys e))\<rparr>)"
  have "engine_inv ?e" using assms(2) by (rule handle_key_up_inv)
  then have "engine_inv (snd (on_ui (send_ui m) ?e))" for m
    by (simp add: engine_inv_def on_ui_snd send_ui_wf)
  then show ?thesis using \<open>engine_inv ?e\<close>
    by (auto simp: dispatch_resolved_def KeyUp case_prod_beta Let_def split: option.split)
next
  case KeyDown
  have down: "engine_inv (e\<lparr>en_keys := snd (ks_on_key_down i c (en_keys e))\<rparr>)"
    using assms(2) by (auto simp: engine_inv_def keys_ok_updates elim!: loops_ok_mono)
  have "\<not> ks_is_repeat_allowed i (en_keys e)" using assms(2) by (simp add: engine_inv_def keys_ok_def)
  then show ?thesis
    using inv.handle_key_event_P [of env e c i refresh False] assms
      inv.handle_key_event_P [of env _ c i refresh, OF impI [OF down]]
    by (auto simp: dispatch_resolved_def KeyDown case_prod_beta)
qed

lemma resolve_dispatch_binding_frame:
  "resolve_dispatch_binding i kind rep e = (b, e1) \<Longrightarrow> e1 = e\<lparr>en_held := en_held e1\<rparr>"
  by (auto simp: resolve_dispatch_binding_def Let_def split: if_splits option.splits prod.splits)

lemma dispatch_inv: "env_ok env \<Longrightarrow> engine_inv e \<Longrightarrow> engine_inv (snd (dispatch env i kind rep e))"
proof -
  assume a: "env_ok env" "engine_inv e"
  obtain b e1 where r: "resolve_dispatch_binding i kind rep e = (b, e1)" by fastforce
  have "engine_inv e1"
    using a(2) by (subst resolve_dispatch_binding_frame [OF r]) (simp add: engine_inv_def)
  then show ?thesis using a(1) by (auto simp: dispatch_def r dispatch_resolved_inv split: option.split)
qed

lemma ebind_snd_const: "snd (ebind r (\<lambda>_ e. (x, e))) = snd r"
  by (cases r; cases "fst r") auto

lemma dispatch_injected_inv:
  "env_ok env \<Longrightarrow> engine_inv e \<Longrightarrow> engine_inv (snd (dispatch_injected env ident kind rep e))"
  by (auto simp: dispatch_injected_def Let_def ebind_snd_const dispatch_resolved_inv split: option.split)

lemma action_tick_inv: "engine_inv e \<Longrightarrow> engine_inv (action_tick c e)"
  by (auto simp: action_tick_def engine_inv_def list_ex_iff)

lemma action_tick_run_inv:
  assumes "env_ok env" "engine_inv e"
  shows "engine_inv (action_tick_run env c e)"
proof -
  obtain r e1 where r: "run_repeated_action env (cl_identifier c) (cl_action c) (cl_ctx c) RepeatedTick e = (r, e1)"
    by fastforce
  have e1: "engine_inv e1"
    using inv.run_repeated_action_P [of env e "cl_identifier c" "cl_action c" "cl_ctx c" RepeatedTick] assms r by simp
  have "distinct (map cl_id (remove1 c (en_ticks e1)))"
    using e1 by (metis distinct_map distinct_remove1 engine_inv_def inj_on_subset set_remove1_subset)
  then have "engine_inv (e1\<lparr>en_ticks := remove1 c (en_ticks e1)\<rparr>)"
    using e1 by (simp add: engine_inv_def)
  then show ?thesis
    unfolding action_tick_run_def r Let_def split by (auto simp: engine_inv_def ticker_stop_loops_ok)
qed

lemma focus_engine_inv:
  "env_ok env \<Longrightarrow> engine_inv e \<Longrightarrow> engine_inv (snd (apply_world_focus_snapshot env f e))"
  using rebind_engine_inv [of env "e\<lparr>en_focus := f\<rparr>" f]
  by (simp add: apply_world_focus_snapshot_def rebind_current_context_def engine_inv_def)

lemma selector_notify_inv: "engine_inv e \<Longrightarrow> engine_inv (snd (on_selector_notify env e))"
  by (auto simp: on_selector_notify_def on_ui_snd on_runtime_def engine_inv_def try_send_ui_wf Let_def
      split: option.split prod.split)

lemma engine_build_inv: "0 < cap \<Longrightarrow> engine_inv (engine_build s True sync cap (\<lambda>_. None))"
  using relay_inv_new repeater_new_inv
  by (simp add: engine_inv_def engine_build_def binding_manager_new_def loops_ok_def ticker_empty_def keys_ok_def
      ks_is_repeat_allowed_def procs_ok_def repeater_new_def runtime_empty_def chan_wf_def)

lemma engine_step_inv:
  assumes "engine_step e e'" "engine_inv e"
  shows "engine_inv e'"
  using assms(1)
proof (cases rule: engine_step.cases)
  case (displays env)
  then show ?thesis using assms(2)
    by (auto simp: refresh_displays_if_changed_def publish_hud_with_displays_def on_ui_snd engine_inv_def
        notify_defs try_send_ui_wf)
next
  case (configure env path)
  then show ?thesis using assms(2) inv.install_config_P [of env e path ResetFocus] by (simp add: set_config_path_def)
next
  case (focus env change)
  then show ?thesis using assms(2) by (simp add: handle_focus_change_event_def focus_engine_inv)
next
  case (late_tick cs c ds)
  have "engine_inv (e\<lparr>en_actions := (en_actions e)\<lparr>tk_aborted := cs @ ds\<rparr>\<rparr>)"
    using assms(2) by (simp add: engine_inv_def loops_ok_def)
  then show ?thesis using late_tick(1) by (simp add: action_tick_inv)
next
  case (process_child t pid)
  then show ?thesis using assms(2) by (simp add: engine_inv_def procs_ok_task)
next
  case (process_end t msg)
  then show ?thesis using assms(2)
    by (auto simp: engine_inv_def procs_ok_task notify_defs try_send_ui_wf split: option.split)
next
  case (ui_receive n)
  then show ?thesis using assms(2) by (auto simp: engine_inv_def chan_wf_def)
next
  case ui_close
  then show ?thesis using assms(2) by (auto simp: engine_inv_def chan_wf_def)
qed (use assms(2) in \<open>simp_all add: dispatch_inv dispatch_injected_inv selector_notify_inv action_tick_inv
    action_tick_run_inv\<close>)

lemma engine_reachable_inv: "engine_reachable e \<Longrightarrow> engine_inv e"
  by (induction rule: engine_reachable.induct) (simp_all add: engine_build_inv engine_step_inv)

end
