(* ===== verification/Engine_Safety.thy ===== *)
theory Engine_Safety
  imports Engine_Invariant
begin

text \<open>
  Properties of the engine: the reachable states, the release of a key, the isolation of
  keys, retained bindings, effect queues, auto-exit and the end of a repeat loop.
\<close>

subsection \<open>Releases\<close>

lemma rp_stop_not_ticking: "rp_ticker (rp_stop i rp) = ticker_stop i (rp_ticker rp)"
  by (simp add: rp_stop_def Let_def run_stop_frame(1) split: option.split)

lemma relay_end_active: "active (snd (relay_end i st)) = AList.delete i (active st)"
  by (auto simp: relay_end_def Let_def delete_id map_of_eq_None_iff split: option.split)

lemma sent_send_ui: "sent (snd (send_ui m ch)) = sent ch @ (if closed ch then [] else [m])"
  by (simp add: send_ui_def)

text \<open>
  C1: the release of a key always succeeds, ends its repeat loop, process ticker and
  relayed gesture, leaves every other key's alone, and is shown in the HUD exactly when
  its press was (unless the UI is gone), with the chord it was pressed with.
\<close>

theorem key_release_ends_key:
  assumes "dispatch_resolved env i c KeyUp rep refresh e = (r, e')"
  shows "r = Ok () \<and> \<not> ks_is_down i (en_keys e') \<and> tk_entries (en_actions e') i = None \<and>
    map_of (active (en_relay e')) i = None \<and> \<not> rp_is_ticking i (en_repeater e') \<and>
    (\<forall>j. j \<noteq> i \<longrightarrow> en_keys e' j = en_keys e j \<and>
       tk_entries (en_actions e') j = tk_entries (en_actions e) j \<and>
       map_of (active (en_relay e')) j = map_of (active (en_relay e)) j) \<and>
    sent (en_ui e') = sent (en_ui e) @
      (case en_keys e i of
         Some st \<Rightarrow> if ks_press_notified st \<and> \<not> closed (en_ui e) then [HudKeyState (ks_chord st) False] else []
       | None \<Rightarrow> [])"
  using assms
  by (auto simp: dispatch_resolved_def Let_def ks_on_key_up_def handle_key_up_def ks_is_down_def ticker_stop_def
      rp_is_ticking_def ticker_is_active_def rp_stop_not_ticking relay_end_active delete_conv' on_ui_snd sent_send_ui
      split: option.splits if_splits)

subsection \<open>Retained bindings\<close>

fun dispatch_all ::
  "('v, 'm, 's) engine_env \<Rightarrow> (32 word \<times> event_kind \<times> bool) list \<Rightarrow> ('v, 'm, 's) engine \<Rightarrow> ('v, 'm, 's) engine" where
  "dispatch_all env [] e = e"
| "dispatch_all env ((i, kind, rep) # evs) e = dispatch_all env evs (snd (dispatch env i kind rep e))"

lemma dispatch_resolved_held: "en_held (snd (dispatch_resolved env ident c kind rep refresh e)) = en_held e"
proof (cases kind)
  case KeyDown
  have "en_held (snd (handle_key_event env c ident refresh allow e1)) = en_held e1" for allow e1
    using frame.handle_key_event_P [where ident = ident and e0 = e1 and e = e1] by (auto simp: key_frame_def)
  then show ?thesis
    by (auto simp: dispatch_resolved_def KeyDown case_prod_beta handle_repeat_def Let_def)
qed (auto simp: dispatch_resolved_def Let_def ks_on_key_up_def handle_key_up_def on_ui_snd split: option.split)

lemma dispatch_held: "en_held (snd (dispatch env i kind rep e)) = en_held (snd (resolve_dispatch_binding i kind rep e))"
  by (auto simp: dispatch_def dispatch_resolved_held split: prod.split option.split)

lemma dispatch_held_other: "j \<noteq> i \<Longrightarrow> en_held (snd (dispatch env j kind rep e)) i = en_held e i"
  unfolding dispatch_held
  by (auto simp: resolve_dispatch_binding_def Let_def split: option.split)

lemma dispatch_all_held_other:
  "list_all (\<lambda>ev. fst ev \<noteq> i) evs \<Longrightarrow> en_held (dispatch_all env evs e) i = en_held e i"
  by (induction env evs e rule: dispatch_all.induct) (auto simp: dispatch_held_other)

text \<open>
  C4: a press is released under the binding it was pressed with.  Whatever other keys do
  in between, rebinding and unregistering included, the key-up (and every key repeat) of
  a registration resolves to the identifier and chord of its key-down.
\<close>

theorem release_uses_press_binding:
  assumes "resolve_dispatch_binding i KeyDown False e = (Some b, e1)"
    and "list_all (\<lambda>ev. fst ev \<noteq> i) evs"
  shows "fst (resolve_dispatch_binding i KeyUp rep
      (dispatch_all env evs (snd (dispatch env i KeyDown False e)))) = Some b \<and>
    fst (resolve_dispatch_binding i KeyDown True
      (dispatch_all env evs (snd (dispatch env i KeyDown False e)))) = Some b"
proof -
  have "en_held (dispatch_all env evs (snd (dispatch env i KeyDown False e))) i = en_held e1 i"
    by (simp add: dispatch_all_held_other [OF assms(2)] dispatch_held assms(1))
  also have "\<dots> = Some b"
    using assms(1) by (auto simp: resolve_dispatch_binding_def Let_def split: option.splits prod.splits)
  finally show ?thesis by (simp add: resolve_dispatch_binding_def)
qed

subsection \<open>Keys do not disturb each other\<close>

text \<open>
  C32: handling one key keeps which keys are held and under which chord; for any other
  key it may end the repeat loop or relayed gesture (through a rebind) but never starts,
  retimes or retargets one.
\<close>

theorem key_handling_isolated:
  assumes "handle_key_event env c i refresh allow e = (r, e')"
  shows "(\<forall>j. ks_held_chord j (en_keys e') = ks_held_chord j (en_keys e)) \<and>
    (\<forall>j. j \<noteq> i \<longrightarrow> tk_entries (en_actions e') j = None \<or>
       tk_entries (en_actions e') j = tk_entries (en_actions e) j) \<and>
    (\<forall>j. j \<noteq> i \<longrightarrow> map_of (active (en_relay e')) j = None \<or>
       map_of (active (en_relay e')) j = map_of (active (en_relay e)) j)"
  using frame.handle_key_event_P [of i e e env c refresh allow] assms by (simp add: key_frame_def)

subsection \<open>Reachable states\<close>

text \<open>
  C2: in every reachable state identifiers are bound once, every repeat loop belongs to
  a key that is held and has timings within their bounds, no loop has two runs in
  flight, a selector is only open under a loaded configuration, every key event relayed
  down has been relayed up or belongs to a live gesture, and the UI channel never
  overflows.
\<close>

theorem reachable_states_safe:
  assumes "engine_reachable e"
  shows "distinct (map fst (bindings (en_manager e))) \<and>
    (\<forall>i t. tk_entries (en_actions e) i = Some t \<longrightarrow>
       cl_identifier (te_callback t) = i \<and> ks_is_down i (en_keys e) \<and>
       100 \<le> te_initial t \<and> te_initial t \<le> 1000 \<and> 100 \<le> te_interval t \<and> te_interval t \<le> 2000) \<and>
    distinct (map cl_id (en_ticks e)) \<and>
    (rt_selector (en_runtime e) \<noteq> None \<longrightarrow> en_config e \<noteq> None) \<and>
    pressed (posts (system (en_relay e))) = released (posts (system (en_relay e))) + pending (active (en_relay e)) \<and>
    unread (en_ui e) \<le> capacity (en_ui e)"
  using engine_reachable_inv [OF assms]
  by (auto simp: engine_inv_def loops_ok_def relay_inv_def chan_wf_def)

text \<open>
  the paths for keyboard auto-repeat and for processes started with a repeat are
  never taken: no held key ever allows repeats, no process loop ever ticks, and no process
  is cancelled by a release.
\<close>

theorem repeat_paths_unreachable:
  assumes "engine_reachable e"
  shows "\<not> ks_is_repeat_allowed i (en_keys e) \<and> \<not> rp_is_ticking i (en_repeater e) \<and> held_ids (en_repeater e) = {}"
  using engine_reachable_inv [OF assms]
  by (auto simp: engine_inv_def keys_ok_def procs_ok_no_held rp_is_ticking_def ticker_is_active_def procs_ok_def
      ticker_empty_def)

subsection \<open>Effect queues\<close>

lemma reload_terminal:
  "apply_effect start env i ctx run (Eff_Exec Act_ReloadConfig) e = (Inr a, e1) \<Longrightarrow> app_terminal a"
  by (auto simp: Let_def ebind_Ok)

lemma repeated_nested_terminal:
  "run \<noteq> OneShot \<Longrightarrow> apply_effect start env i ctx run (Eff_UntilKeyUp h rep) e = (Inr a, e1) \<Longrightarrow> app_terminal a"
  by (auto simp: ebind_Ok app_stop_def)

lemma queue_stops:
  assumes "\<And>e a e1. apply_effect start env i ctx run eff e = (Inr a, e1) \<Longrightarrow> app_terminal a"
  shows "apply_queue_from start env i ctx run applied (pre @ eff # rest) e =
    apply_queue_from start env i ctx run applied (pre @ [eff]) e"
proof (induction pre arbitrary: applied e)
  case Nil
  obtain r e1 where r: "apply_effect start env i ctx run eff e = (r, e1)" by fastforce
  then show ?case using assms [of e] by (cases r) (auto simp: Let_def)
next
  case (Cons x pre)
  obtain r e1 where r: "apply_effect start env i ctx run x e = (r, e1)" by fastforce
  then show ?case using Cons by (cases r) (auto simp: Let_def)
qed

lemma repeated_effect_starter:
  "run \<noteq> OneShot \<Longrightarrow> apply_effect start env i ctx run eff e = apply_effect start' env i ctx run eff e"
  by (cases eff) (simp_all cong: action.case_cong)

lemma repeated_queue_starter:
  assumes "run \<noteq> OneShot"
  shows "apply_queue_from start env i ctx run applied effs e = apply_queue_from start' env i ctx run applied effs e"
proof (induction effs arbitrary: applied e)
  case (Cons x effs)
  obtain r e1 where r: "apply_effect start env i ctx run x e = (r, e1)" by fastforce
  have r': "apply_effect start' env i ctx run x e = (r, e1)"
    using r repeated_effect_starter [OF assms, of start env i ctx x e start'] by simp
  show ?case using Cons r r' by (cases r) (simp_all add: Let_def)
qed simp

text \<open>
  C35: nothing in an effect queue runs after a configuration reload, or after an
  \<open>until_keyup\<close> met inside a repeated action; and in a repeated run no held-key loop can
  be started, whatever the starter.
\<close>

theorem queue_stops_after_terminal:
  "apply_queue_from start env i ctx run applied (pre @ Eff_Exec Act_ReloadConfig # rest) e =
     apply_queue_from start env i ctx run applied (pre @ [Eff_Exec Act_ReloadConfig]) e \<and>
   (run \<noteq> OneShot \<longrightarrow>
     apply_queue_from start env i ctx run applied (pre @ Eff_UntilKeyUp h rep # rest) e =
       apply_queue_from start' env i ctx run applied (pre @ [Eff_UntilKeyUp h rep]) e)"
proof (intro conjI impI)
  show "apply_queue_from start env i ctx run applied (pre @ Eff_Exec Act_ReloadConfig # rest) e =
     apply_queue_from start env i ctx run applied (pre @ [Eff_Exec Act_ReloadConfig]) e"
    by (rule queue_stops) (rule reload_terminal)
  assume run: "run \<noteq> OneShot"
  have "apply_queue_from start env i ctx run applied (pre @ Eff_UntilKeyUp h rep # rest) e =
     apply_queue_from start env i ctx run applied (pre @ [Eff_UntilKeyUp h rep]) e"
    by (rule queue_stops) (rule repeated_nested_terminal [OF run])
  also have "\<dots> = apply_queue_from start' env i ctx run applied (pre @ [Eff_UntilKeyUp h rep]) e"
    by (rule repeated_queue_starter [OF run])
  finally show "apply_queue_from start env i ctx run applied (pre @ Eff_UntilKeyUp h rep # rest) e =
     apply_queue_from start' env i ctx run applied (pre @ [Eff_UntilKeyUp h rep]) e" .
qed

subsection \<open>Auto-exit\<close>

lemma recovery_depth:
  assumes "render_stack_with_recovery vm rt cfg = ((ws, errs), rt', cfg')"
  shows "length (rt_stack rt') \<le> length (rt_stack rt)"
proof (cases "rt_stack rt = []")
  case True
  have nil: "st' = []" if "config_render vm ctx [] c = (r, st', c')" for ctx c r st' c'
    using that by (auto simp: config_render_def render_stack_def render_stack_inner_def Let_def
        split: prod.splits sum.splits)
  from assms show ?thesis
    by (cases rule: recovery_cases) (auto simp: True reset_to_root_def dest!: nil)
next
  case False
  from assms show ?thesis
  proof (cases rule: recovery_cases)
    case (ok ctx rs st)
    with keeps_root_length [OF config_render_keeps [OF ok(2) False]] show ?thesis by simp
  next
    case (root ctx ctx' e st cfg1 rs st')
    with keeps_root_length recovered_root [OF root(2) False root(3)] show ?thesis by fastforce
  next
    case (empty ctx ctx' e e' st cfg1 st')
    with keeps_root_length recovered_root [OF empty(3) False empty(4)] show ?thesis by fastforce
  qed
qed

lemma build_plan_depth:
  assumes "build_refresh_plan vm focus rt (Some c) = (plan, rt', cfg')"
  shows "length (rt_stack rt') \<le> max 1 (length (rt_stack rt))"
proof -
  let ?rt = "rt\<lparr>rt_focus := context_window focus rt\<rparr>"
  let ?st = "ensure_stack c (rt_stack rt)"
  have st: "length ?st \<le> max 1 (length (rt_stack rt))" by (simp add: ensure_stack_def)
  obtain ws errs rt1 c1 where r: "render_stack_with_recovery vm (?rt\<lparr>rt_stack := ?st\<rparr>) c = ((ws, errs), rt1, c1)"
    by (metis prod_cases4 surj_pair)
  have "rt_stack rt' = ?st \<or> rt' = rt1"
    using assms r by (auto simp: build_refresh_plan_def build_loaded_refresh_plan_def Let_def split: if_splits)
  then show ?thesis using st recovery_depth [OF r] by auto
qed

lemma rebind_Ok_session:
  assumes "rebind_and_refresh env focus e = (Ok (), e')" and "en_config e \<noteq> None"
  shows "rt_hud_visible (en_runtime e') = rt_hud_visible (en_runtime e) \<and>
    rt_session (en_runtime e') = rt_session (en_runtime e) \<and>
    rt_selector (en_runtime e') = rt_selector (en_runtime e) \<and>
    length (rt_stack (en_runtime e')) \<le> max 1 (length (rt_stack (en_runtime e)))"
  using assms(1)
proof (cases rule: rebind_cases)
  case (ok plan rt cfg m changed)
  obtain c where c: "en_config e = Some c" using assms(2) by blast
  have rt': "en_runtime e' = rt" unfolding ok(5) by simp
  note view = session_viewD [OF build_plan_matches(2) [OF ok(3) assms(2), THEN conjunct2]]
  show ?thesis
    using view build_plan_depth [OF ok(3) [unfolded c]] by (simp add: rt')
qed simp_all

text \<open>
  after a binding whose outcome asks for auto-exit, the HUD is hidden, the mode
  session ended and only the root mode left; after any other outcome the rebind keeps
  the HUD, session and selector the effects left, and never deepens the mode stack.
\<close>

theorem auto_exit_returns_to_root:
  assumes "resolve_binding (rt_rendered (en_runtime e)) chord = Some b"
    and "execute_binding env i b (rt_mode_ctx focus (en_runtime e)) (notify_press allow chord i b e) = (Ok (Some r), e2)"
    and "en_config e2 \<noteq> None"
    and "handle_bound_key env chord i focus allow e = (Ok (), e')"
  shows "if r = AutoExit
    then \<not> rt_hud_visible (en_runtime e') \<and> rt_session (en_runtime e') = None \<and> length (rt_stack (en_runtime e')) \<le> 1
    else rt_hud_visible (en_runtime e') = rt_hud_visible (en_runtime e2) \<and>
      rt_session (en_runtime e') = rt_session (en_runtime e2) \<and>
      rt_selector (en_runtime e') = rt_selector (en_runtime e2) \<and>
      length (rt_stack (en_runtime e')) \<le> max 1 (length (rt_stack (en_runtime e2)))"
proof -
  let ?e3 = "if should_auto_exit r then auto_exit e2 else e2"
  have rebind: "rebind_and_refresh env focus ?e3 = (Ok (), e')"
    using assms(1,2,4) by (simp add: handle_bound_key_def Let_def)
  have cfg: "en_config ?e3 \<noteq> None"
    using assms(3) by (simp add: auto_exit_def apply_nav_request_def on_runtime_def)
  from rebind_Ok_session [OF rebind cfg] show ?thesis
    by (auto simp: should_auto_exit_def auto_exit_def apply_nav_request_def on_runtime_def end_session_def
        reset_to_root_def min_def split: if_splits)
qed

subsection \<open>The end of a repeat loop\<close>

text \<open>
  a tick whose run fails or ends the action stops the loop of its identifier; the
  loop stopped is the current one, even when it is not the loop the tick belongs to.
\<close>

theorem terminal_tick_stops_current_loop:
  assumes "run_repeated_action env (cl_identifier c) (cl_action c) (cl_ctx c) RepeatedTick e = (r, e1)"
    and "\<not> (\<exists>a. r = Ok a \<and> \<not> app_terminal a)"
  shows "tk_entries (en_actions (action_tick_run env c e)) (cl_identifier c) = None \<and>
    (\<forall>j. j \<noteq> cl_identifier c \<longrightarrow>
       tk_entries (en_actions (action_tick_run env c e)) j = tk_entries (en_actions e1) j)"
  using assms by (cases r) (auto simp: action_tick_run_def Let_def ticker_stop_def)

subsection \<open>Witnesses\<close>

theorem key_release_ends_key_witness:
  "\<exists>r e'. dispatch_resolved (sample_env True) ''a'' \<lparr>modifiers = {}, chord_key = Key_A\<rparr> KeyUp False True
       sample_engine = (r, e') \<and> r = Ok () \<and> tk_entries (en_actions e') ''a'' = None"
proof -
  obtain r e' where r: "dispatch_resolved (sample_env True) ''a'' \<lparr>modifiers = {}, chord_key = Key_A\<rparr> KeyUp False True
       sample_engine = (r, e')" by fastforce
  then show ?thesis using key_release_ends_key [OF r] by blast
qed

theorem release_uses_press_binding_witness:
  "let e = sample_engine; (b, e1) = resolve_dispatch_binding 1 KeyDown False e
   in fst (resolve_dispatch_binding 1 KeyUp False (dispatch_all (sample_env True) [(2, KeyDown, False)]
        (snd (dispatch (sample_env True) 1 KeyDown False e)))) = b"
proof -
  obtain b e1 where r: "resolve_dispatch_binding 1 KeyDown False sample_engine = (b, e1)" by fastforce
  have "idents_by_id (en_manager sample_engine) 1 = Some ''cmd+a''"
    "map_of (bindings (en_manager sample_engine)) ''cmd+a'' =
       Some \<lparr>b_id = 1, b_chord = \<lparr>modifiers = {Mod_Command}, chord_key = Key_A\<rparr>\<rparr>"
    by (simp_all add: sample_engine_def register_binding_def sample_api_def binding_manager_new_def)
  then obtain c where b: "b = Some c"
    using r by (auto simp: resolve_dispatch_binding_def resolve_binding_id_def Let_def split: prod.splits)
  have l: "list_all (\<lambda>ev. fst ev \<noteq> (1 :: 32 word)) [(2, KeyDown, False)]" by simp
  show ?thesis
    using release_uses_press_binding [OF r [unfolded b] l, of False "sample_env True"] r b by (simp add: Let_def)
qed

theorem key_handling_isolated_witness:
  "\<exists>r e'. handle_key_event (sample_env True) \<lparr>modifiers = {}, chord_key = Key_A\<rparr> ''a'' True True sample_engine = (r, e') \<and>
     ks_held_chord ''a'' (en_keys e') = None"
proof -
  obtain r e' where
    r: "handle_key_event (sample_env True) \<lparr>modifiers = {}, chord_key = Key_A\<rparr> ''a'' True True sample_engine = (r, e')"
    by fastforce
  have "ks_held_chord ''a'' (en_keys sample_engine) = None"
    by (simp add: sample_engine_def engine_build_def ks_held_chord_def)
  then show ?thesis using r key_handling_isolated [OF r] by metis
qed

lemma sample_reachable:
  "engine_reachable (engine_build 1 True True 128 (\<lambda>_. None) :: (unit, selector_item list, 32 word) engine)"
  by (rule engine_reachable.init) simp

theorem reachable_states_safe_witness:
  "unread (en_ui (engine_build 1 True True 128 (\<lambda>_. None) :: (unit, selector_item list, 32 word) engine)) \<le> 128"
  using reachable_states_safe [OF sample_reachable]
  by (simp add: engine_build_def)

theorem repeat_paths_unreachable_witness:
  "held_ids (en_repeater (engine_build 1 True True 128 (\<lambda>_. None) :: (unit, selector_item list, 32 word) engine)) = {}"
  using repeat_paths_unreachable [OF sample_reachable]
  by blast

theorem queue_stops_after_terminal_witness:
  "apply_queue_from (\<lambda>_ _ e. (Ok app_stop, e)) (sample_env True) ''a'' sample_ctx RepeatedTick app_empty
     [Eff_UntilKeyUp \<lparr>handler_func = 0\<rparr> None, Eff_Nav Nav_Pop] sample_engine =
   apply_queue_from (\<lambda>_ _ e. (Ok app_empty, e)) (sample_env True) ''a'' sample_ctx RepeatedTick app_empty
     [Eff_UntilKeyUp \<lparr>handler_func = 0\<rparr> None] sample_engine"
  using queue_stops_after_terminal [where pre = "[]" and run = RepeatedTick, THEN conjunct2, rule_format, OF effect_run.distinct(4)]
  by simp

text \<open>A registrar that never fails never fails an update.\<close>

lemma sample_unregister_loop: "fst (unregister_loop (sample_api True) is rem m) = Ok ()"
proof (induction "is" arbitrary: rem m)
  case (Cons i "is")
  have "\<exists>b m'. unregister_binding (sample_api True) i m = (Ok b, m')"
    by (simp add: unregister_binding_def sample_api_def split: option.split)
  with Cons show ?case by (auto split: option.split)
qed simp

lemma sample_update_Ok: "fst (update_bindings ord (sample_api True) pairs m) \<noteq> Inl err"
  using sample_unregister_loop by (auto simp: update_bindings_def Let_def split: prod.split sum.split) (metis fst_conv sum.distinct(1))

definition sample_mode_binding :: binding where
  "sample_mode_binding =
     \<lparr>bd_chord = \<lparr>modifiers = {}, chord_key = Key_A\<rparr>, bd_desc = ''mode'',
      bd_kind = Bind_Mode \<lparr>mode_ref_id = 2, mode_func = 1, mode_default_title = None\<rparr>, bd_mode_id = None,
      bd_flags = \<lparr>flag_hidden = False, flag_global = False, flag_stay = False\<rparr>, bd_mode_capture = False,
      bd_pos = None\<rparr>"

definition sample_mode_engine :: "(unit, selector_item list, 32 word) engine" where
  "sample_mode_engine = sample_engine\<lparr>en_runtime := (runtime_empty\<lparr>rt_rendered :=
     \<lparr>rs_bindings = [(\<lparr>modifiers = {}, chord_key = Key_A\<rparr>, sample_mode_binding)], rs_hud_rows = [],
      rs_style = ui_style_default, rs_capture = False\<rparr>\<rparr>)\<rparr>"

theorem auto_exit_returns_to_root_witness:
  "\<exists>e'. handle_bound_key (sample_env True) \<lparr>modifiers = {}, chord_key = Key_A\<rparr> ''a'' None False sample_mode_engine =
     (Ok (), e') \<and> rt_hud_visible (en_runtime e')"
proof -
  let ?c = "\<lparr>modifiers = {}, chord_key = Key_A\<rparr>"
  let ?e2 = "on_runtime (push_mode ''mode'' \<lparr>mode_ref_id = 2, mode_func = 1, mode_default_title = None\<rparr> None False
    None) sample_mode_engine"
  have b: "resolve_binding (rt_rendered (en_runtime sample_mode_engine)) ?c = Some sample_mode_binding"
    by (simp add: sample_mode_engine_def resolve_binding_def)
  have x: "execute_binding (sample_env True) ''a'' sample_mode_binding (rt_mode_ctx None (en_runtime sample_mode_engine))
      (notify_press False ?c ''a'' sample_mode_binding sample_mode_engine) = (Ok (Some EnteredMode), ?e2)"
    by (simp add: execute_binding_def notify_press_def press_feedback_def sample_mode_binding_def stays_in_mode_def
        with_stay_def rt_mode_ctx_def mode_ctx_of_def context_window_def sample_mode_engine_def runtime_empty_def)
  have cfg: "en_config ?e2 \<noteq> None" by (simp add: on_runtime_def sample_mode_engine_def)
  have room: "has_room (en_ui ?e2)" by (simp add: on_runtime_def sample_mode_engine_def)
  obtain r e' where r: "rebind_and_refresh (sample_env True) None ?e2 = (r, e')" by fastforce
  have "r = Ok ()"
    using r
  proof (cases rule: rebind_cases)
    case (failed err plan rt cfg m rt' cfg')
    then show ?thesis using sample_update_Ok by (metis fst_conv sample_engine_simps(2))
  qed (use room in simp_all)
  then have h: "handle_bound_key (sample_env True) ?c ''a'' None False sample_mode_engine = (Ok (), e')"
    using r by (simp add: handle_bound_key_def b Let_def x should_auto_exit_def)
  have "rt_hud_visible (en_runtime ?e2)" by (simp add: on_runtime_def)
  then show ?thesis using h auto_exit_returns_to_root [OF b x cfg h] by auto
qed

theorem terminal_tick_stops_current_loop_witness:
  "let c = \<lparr>cl_id = 0, cl_identifier = ''a'', cl_action = \<lparr>handler_func = 0\<rparr>, cl_ctx = sample_ctx\<rparr>;
       newer = \<lparr>cl_id = 1, cl_identifier = ''a'', cl_action = \<lparr>handler_func = 0\<rparr>, cl_ctx = sample_ctx\<rparr>;
       e = sample_engine\<lparr>en_config := None, en_ticks := [c], en_actions := ticker_start ''a'' 250 150 newer ticker_empty\<rparr>
   in tk_entries (en_actions e) ''a'' \<noteq> None \<and>
      tk_entries (en_actions (action_tick_run (sample_env True) c e)) ''a'' = None"
proof -
  let ?c = "\<lparr>cl_id = 0, cl_identifier = ''a'', cl_action = \<lparr>handler_func = 0\<rparr>, cl_ctx = sample_ctx\<rparr>"
  let ?newer = "\<lparr>cl_id = 1, cl_identifier = ''a'', cl_action = \<lparr>handler_func = 0\<rparr>, cl_ctx = sample_ctx\<rparr>"
  let ?e = "sample_engine\<lparr>en_config := None, en_ticks := [?c],
    en_actions := ticker_start ''a'' 250 150 ?newer ticker_empty\<rparr>"
  have r: "run_repeated_action (sample_env True) (cl_identifier ?c) (cl_action ?c) (cl_ctx ?c) RepeatedTick ?e =
      (Ok app_stop, ?e)"
    by (simp add: run_repeated_action_def)
  have t: "\<not> (\<exists>a. Ok app_stop = (Ok a :: engine_error + effect_application) \<and> \<not> app_terminal a)"
    by (simp add: app_stop_def)
  show ?thesis
    using terminal_tick_stops_current_loop [OF r t] by (simp add: Let_def ticker_start_entries)
qed

end
