(* ===== verification/World_Poll.thy ===== *)
theory World_Poll
  imports World_State
begin

text \<open>
  The polling world of \<open>hotki-world\<close>: the cadence controller and the poll loop
  (\<open>polling.rs\<close>) and the event hub (\<open>events.rs\<close>).  The loop runs as a state
  machine whose steps interleave with the callers of \<open>refresh\<close> and with changes
  of the platform; every platform snapshot that was ever current is kept in a
  history, so that the age of a polled state can be stated.  Tokio's \<open>Notify\<close> holds
  at most one permit: \<open>notify_one\<close> stores it and the next \<open>notified\<close> takes it.
\<close>

subsection \<open>The cadence controller\<close>

record poll_tuner =
  pt_min_ms :: "64 word"
  pt_max_ms :: "64 word"
  pt_next_ms :: "64 word"
  pt_requested :: "64 word"
  pt_completed :: "64 word"
  pt_permit :: bool

definition poll_tuner_new :: "64 word \<Rightarrow> 64 word \<Rightarrow> poll_tuner" where
  "poll_tuner_new min_ms max_ms =
     \<lparr>pt_min_ms = max min_ms 50, pt_max_ms = max_ms, pt_next_ms = 0, pt_requested = 0,
      pt_completed = 0, pt_permit = False\<rparr>"

definition consume_hint :: "poll_tuner \<Rightarrow> 64 word option \<times> poll_tuner" where
  "consume_hint t =
     (if pt_next_ms t = 0 then None else Some (pt_next_ms t), t\<lparr>pt_next_ms := 0\<rparr>)"

definition next_interval :: "64 word \<Rightarrow> poll_tuner \<Rightarrow> 64 word \<times> poll_tuner" where
  "next_interval last_ms t =
     (case consume_hint t of
        (Some hinted_ms, t') \<Rightarrow> (hinted_ms, t')
      | (None, t') \<Rightarrow> (min (sat_add last_ms 10) (pt_max_ms t'), t'))"

definition poll_reset :: "poll_tuner \<Rightarrow> poll_tuner" where
  "poll_reset t = t\<lparr>pt_next_ms := pt_min_ms t, pt_permit := True\<rparr>"

definition request_refresh :: "poll_tuner \<Rightarrow> 64 word \<times> poll_tuner" where
  "request_refresh t =
     (let generation = pt_requested t + 1
      in (generation, poll_reset (t\<lparr>pt_requested := generation\<rparr>)))"

definition complete_refresh :: "64 word \<Rightarrow> poll_tuner \<Rightarrow> poll_tuner" where
  "complete_refresh generation t = t\<lparr>pt_completed := generation\<rparr>"

text \<open>The test on which \<open>wait_for_refresh\<close> returns.\<close>

definition refresh_completed :: "64 word \<Rightarrow> poll_tuner \<Rightarrow> bool" where
  "refresh_completed generation t \<longleftrightarrow> generation \<le> pt_completed t"

subsection \<open>The poll loop\<close>

text \<open>
  The points of \<open>run_poll_loop\<close> between which other threads run: before reading
  the requested generation, capturing, applying, choosing the interval, testing
  the hint, and waiting.
\<close>

datatype poll_phase =
    PP_Begin
  | PP_Capture "64 word"
  | PP_Apply "64 word" platform_snapshot
  | PP_Complete "64 word"
  | PP_Tune
  | PP_Hint
  | PP_Wait
  | PP_Stopped

text \<open>
  \<open>pw_history\<close> lists every platform snapshot that was ever current, the last one
  is; \<open>pw_captured\<close> and \<open>pw_applied\<close> count how much of it the snapshot in flight and
  the one in the state had seen; \<open>pw_requests\<close> records for each generation how much
  of the history existed when it was requested.
\<close>

record poll_world =
  pw_tuner :: poll_tuner
  pw_phase :: poll_phase
  pw_interval :: "64 word"
  pw_data :: world_data
  pw_log :: "world_event list"
  pw_history :: "platform_snapshot list"
  pw_captured :: nat
  pw_applied :: nat
  pw_requests :: "nat list"

record world_cfg =
  poll_ms_min :: "64 word"
  poll_ms_max :: "64 word"

definition world_cfg_default :: world_cfg where
  "world_cfg_default = \<lparr>poll_ms_min = 200, poll_ms_max = 500\<rparr>"

definition poll_world_spawn :: "world_cfg \<Rightarrow> platform_snapshot \<Rightarrow> poll_world" where
  "poll_world_spawn cfg p =
     \<lparr>pw_tuner = poll_tuner_new (poll_ms_min cfg) (poll_ms_max cfg), pw_phase = PP_Begin,
      pw_interval = max (poll_ms_min cfg) 50, pw_data = world_data_default, pw_log = [],
      pw_history = [p], pw_captured = 0, pw_applied = 0, pw_requests = []\<rparr>"

definition poll_once_core :: "platform_snapshot \<Rightarrow> 64 word \<Rightarrow> poll_world \<Rightarrow> poll_world" where
  "poll_once_core platform elapsed w =
     (let (changes, d) =
        apply_poll_update (world_poll_update platform) elapsed (pw_interval w) (pw_data w)
      in w\<lparr>pw_data := d, pw_log := pw_log w @ published_events changes\<rparr>)"

text \<open>
  A step of the loop.  The two parameters are what it does not decide itself:
  the measured time of the capture, and whether the capture task panicked, in
  which case the default snapshot stands for it.
\<close>

fun poll_step :: "64 word \<Rightarrow> bool \<Rightarrow> poll_phase \<Rightarrow> poll_world \<Rightarrow> poll_world" where
  "poll_step elapsed panicked PP_Begin w = w\<lparr>pw_phase := PP_Capture (pt_requested (pw_tuner w))\<rparr>"
| "poll_step elapsed panicked (PP_Capture g) w =
     w\<lparr>pw_phase := PP_Apply g (if panicked then platform_default else last (pw_history w)),
       pw_captured := length (pw_history w)\<rparr>"
| "poll_step elapsed panicked (PP_Apply g p) w =
     (poll_once_core p elapsed w)\<lparr>pw_phase := PP_Complete g, pw_applied := pw_captured w\<rparr>"
| "poll_step elapsed panicked (PP_Complete g) w =
     w\<lparr>pw_phase := PP_Tune, pw_tuner := complete_refresh g (pw_tuner w)\<rparr>"
| "poll_step elapsed panicked PP_Tune w =
     (let (i, t) = next_interval (pw_interval w) (pw_tuner w)
      in w\<lparr>pw_phase := PP_Hint, pw_interval := i, pw_tuner := t\<rparr>)"
| "poll_step elapsed panicked PP_Hint w =
     (case consume_hint (pw_tuner w) of
        (Some hinted_ms, t) \<Rightarrow> w\<lparr>pw_phase := PP_Begin, pw_interval := hinted_ms, pw_tuner := t\<rparr>
      | (None, t) \<Rightarrow> w\<lparr>pw_phase := PP_Wait, pw_tuner := t\<rparr>)"
| "poll_step elapsed panicked PP_Wait w = w"
| "poll_step elapsed panicked PP_Stopped w = w"

text \<open>The two branches of the \<open>select!\<close> that ends an iteration.\<close>

definition poll_sleep_elapsed :: "poll_world \<Rightarrow> poll_world" where
  "poll_sleep_elapsed w = w\<lparr>pw_phase := PP_Begin\<rparr>"

definition poll_notified :: "poll_world \<Rightarrow> poll_world" where
  "poll_notified w =
     (let (hint, t) = consume_hint ((pw_tuner w)\<lparr>pt_permit := False\<rparr>)
      in w\<lparr>pw_phase := PP_Begin, pw_tuner := t,
           pw_interval := (case hint of None \<Rightarrow> pw_interval w | Some ms \<Rightarrow> ms)\<rparr>)"

text \<open>\<open>refresh\<close> up to its wait; the caller then waits for the generation it got.\<close>

definition world_request :: "poll_world \<Rightarrow> 64 word \<times> poll_world" where
  "world_request w =
     (let (generation, t) = request_refresh (pw_tuner w)
      in (generation, w\<lparr>pw_tuner := t, pw_requests := pw_requests w @ [length (pw_history w)]\<rparr>))"

definition platform_change :: "platform_snapshot \<Rightarrow> poll_world \<Rightarrow> poll_world" where
  "platform_change p w = w\<lparr>pw_history := pw_history w @ [p]\<rparr>"

definition world_dropped :: "poll_world \<Rightarrow> poll_world" where
  "world_dropped w = w\<lparr>pw_phase := PP_Stopped\<rparr>"

text \<open>
  The interleavings.  The loop finds the world dropped before it applies a
  snapshot; a caller of \<open>refresh\<close> holds the world.  A request is only taken while
  the counter of generations is below its maximum, where the increment wraps.
\<close>

inductive loop_step :: "poll_world \<Rightarrow> poll_world \<Rightarrow> bool" where
  ls_step: "pw_phase w \<notin> {PP_Wait, PP_Stopped}
    \<Longrightarrow> loop_step w (poll_step elapsed panicked (pw_phase w) w)"
| ls_dropped: "pw_phase w = PP_Apply g p \<Longrightarrow> loop_step w (world_dropped w)"
| ls_sleep: "pw_phase w = PP_Wait \<Longrightarrow> loop_step w (poll_sleep_elapsed w)"
| ls_notified: "pw_phase w = PP_Wait \<Longrightarrow> pt_permit (pw_tuner w) \<Longrightarrow> loop_step w (poll_notified w)"

inductive caller_step :: "poll_world \<Rightarrow> poll_world \<Rightarrow> bool" where
  cs_request: "pw_phase w \<noteq> PP_Stopped \<Longrightarrow> pt_requested (pw_tuner w) < - 1
    \<Longrightarrow> caller_step w (snd (world_request w))"
| cs_platform: "caller_step w (platform_change p w)"

text \<open>\<open>world_run n w w'\<close>: from \<open>w\<close> to \<open>w'\<close> with \<open>n\<close> steps of the loop.\<close>

inductive world_run :: "nat \<Rightarrow> poll_world \<Rightarrow> poll_world \<Rightarrow> bool" where
  wr_refl: "world_run 0 w w"
| wr_loop: "world_run n w w' \<Longrightarrow> loop_step w' w'' \<Longrightarrow> world_run (Suc n) w w''"
| wr_caller: "world_run n w w' \<Longrightarrow> caller_step w' w'' \<Longrightarrow> world_run n w w''"

definition world_reachable :: "world_cfg \<Rightarrow> poll_world \<Rightarrow> bool" where
  "world_reachable cfg w \<longleftrightarrow> (\<exists>p n. world_run n (poll_world_spawn cfg p) w)"

subsection \<open>The invariant of the poll loop\<close>

definition world_mirrors :: "platform_snapshot \<Rightarrow> world_data \<Rightarrow> bool" where
  "world_mirrors p d \<longleftrightarrow>
     (let u = world_poll_update p
      in wd_snapshot d = wu_snapshot u \<and> wd_focused d = wu_focused u \<and> wd_focus d = wu_focus u
         \<and> wd_capabilities d = wu_capabilities u
         \<and> (wd_displays d = wu_displays u \<or> displays_eq (wd_displays d) (wu_displays u)))"

text \<open>The platform snapshot that was current at the \<open>k\<close>th point of the history, or a failed capture.\<close>

definition snapshot_at :: "platform_snapshot list \<Rightarrow> nat \<Rightarrow> platform_snapshot \<Rightarrow> bool" where
  "snapshot_at hist k p \<longleftrightarrow> p = platform_default \<or> 0 < k \<and> k \<le> length hist \<and> p = hist ! (k - 1)"

text \<open>The state shows one of them.\<close>

definition reflects :: "platform_snapshot list \<Rightarrow> nat \<Rightarrow> world_data \<Rightarrow> bool" where
  "reflects hist k d \<longleftrightarrow> (\<exists>p. snapshot_at hist k p \<and> world_mirrors p d)"

text \<open>The first \<open>g\<close> requests were made when at most \<open>k\<close> snapshots existed.\<close>

definition covers :: "nat list \<Rightarrow> 64 word \<Rightarrow> nat \<Rightarrow> bool" where
  "covers reqs g k \<longleftrightarrow> (\<forall>r \<in> set (take (unat g) reqs). r \<le> k)"

fun phase_ok :: "poll_phase \<Rightarrow> poll_world \<Rightarrow> bool" where
  "phase_ok (PP_Capture g) w \<longleftrightarrow>
     pt_completed (pw_tuner w) \<le> g \<and> g \<le> pt_requested (pw_tuner w)
     \<and> covers (pw_requests w) g (length (pw_history w))"
| "phase_ok (PP_Apply g p) w \<longleftrightarrow>
     pt_completed (pw_tuner w) \<le> g \<and> g \<le> pt_requested (pw_tuner w)
     \<and> covers (pw_requests w) g (pw_captured w) \<and> snapshot_at (pw_history w) (pw_captured w) p"
| "phase_ok (PP_Complete g) w \<longleftrightarrow>
     pt_completed (pw_tuner w) \<le> g \<and> g \<le> pt_requested (pw_tuner w)
     \<and> covers (pw_requests w) g (pw_applied w)"
| "phase_ok _ w \<longleftrightarrow> True"

text \<open>The generation that the running iteration, or the last one, answers.\<close>

fun answered :: "poll_phase \<Rightarrow> poll_tuner \<Rightarrow> 64 word" where
  "answered PP_Begin t = pt_requested t"
| "answered (PP_Capture g) t = g"
| "answered (PP_Apply g p) t = g"
| "answered (PP_Complete g) t = g"
| "answered PP_Stopped t = pt_requested t"
| "answered _ t = pt_completed t"

definition tuner_ok :: "world_cfg \<Rightarrow> poll_tuner \<Rightarrow> bool" where
  "tuner_ok cfg t \<longleftrightarrow>
     pt_min_ms t = max (poll_ms_min cfg) 50 \<and> pt_max_ms t = poll_ms_max cfg
     \<and> pt_next_ms t \<in> {0, pt_min_ms t} \<and> pt_completed t \<le> pt_requested t"

definition interval_ok :: "world_cfg \<Rightarrow> 64 word \<Rightarrow> bool" where
  "interval_ok cfg i \<longleftrightarrow>
     min (max (poll_ms_min cfg) 50) (poll_ms_max cfg) \<le> i \<and> i \<le> max (max (poll_ms_min cfg) 50) (poll_ms_max cfg)"

definition world_inv :: "world_cfg \<Rightarrow> poll_world \<Rightarrow> bool" where
  "world_inv cfg w \<longleftrightarrow>
     tuner_ok cfg (pw_tuner w) \<and> interval_ok cfg (pw_interval w)
     \<and> unat (pt_requested (pw_tuner w)) = length (pw_requests w)
     \<and> pw_history w \<noteq> [] \<and> (\<forall>r \<in> set (pw_requests w). 0 < r \<and> r \<le> length (pw_history w))
     \<and> pw_applied w \<le> pw_captured w \<and> pw_captured w \<le> length (pw_history w)
     \<and> covers (pw_requests w) (pt_completed (pw_tuner w)) (pw_applied w)
     \<and> phase_ok (pw_phase w) w
     \<and> (answered (pw_phase w) (pw_tuner w) < pt_requested (pw_tuner w) \<longrightarrow> pt_permit (pw_tuner w))
     \<and> (0 < pw_applied w \<longrightarrow> reflects (pw_history w) (pw_applied w) (pw_data w))
     \<and> replay_focus None (pw_log w) = wd_focus (pw_data w)"

lemma covers_mono: "covers reqs g k \<Longrightarrow> k \<le> k' \<Longrightarrow> covers reqs g k'"
  by (auto simp: covers_def)

lemma covers_all: "\<forall>r \<in> set reqs. r \<le> k \<Longrightarrow> covers reqs g k"
  by (auto simp: covers_def dest: in_set_takeD)

lemma covers_append: "unat g \<le> length reqs \<Longrightarrow> covers (reqs @ rs) g k \<longleftrightarrow> covers reqs g k"
  by (simp add: covers_def)

lemma snapshot_at_append: "snapshot_at hist k p \<Longrightarrow> snapshot_at (hist @ hs) k p"
  by (auto simp: snapshot_at_def nth_append)

lemma reflects_append: "reflects hist k d \<Longrightarrow> reflects (hist @ hs) k d"
  unfolding reflects_def by (blast intro: snapshot_at_append)

lemma snapshot_at_last: "hist \<noteq> [] \<Longrightarrow> snapshot_at hist (length hist) (last hist)"
  by (auto simp: snapshot_at_def last_conv_nth)

lemma apply_mirrors: "apply_poll_update (world_poll_update p) t i d = (c, d') \<Longrightarrow> world_mirrors p d'"
  by (simp add: world_mirrors_def apply_poll_update_state Let_def)

lemma apply_reflects:
  "snapshot_at hist k p \<Longrightarrow> apply_poll_update (world_poll_update p) t i d = (c, d') \<Longrightarrow> reflects hist k d'"
  unfolding reflects_def by (blast intro: apply_mirrors)

lemma spawn_inv: "world_inv cfg (poll_world_spawn cfg p)"
  by (simp add: world_inv_def poll_world_spawn_def poll_tuner_new_def tuner_ok_def interval_ok_def
      covers_def world_data_default_def)

lemma consume_hint_ok:
  assumes "tuner_ok cfg t" "consume_hint t = (h, t')"
  shows "tuner_ok cfg t'" "pt_permit t' = pt_permit t" "pt_requested t' = pt_requested t"
    "pt_completed t' = pt_completed t" "h = None \<or> h = Some (max (poll_ms_min cfg) 50)"
  using assms by (auto simp: consume_hint_def tuner_ok_def split: if_splits)

lemma next_interval_ok:
  assumes t: "tuner_ok cfg t" and i: "interval_ok cfg i" and r: "next_interval i t = (i', t')"
  shows "tuner_ok cfg t'" "pt_permit t' = pt_permit t" "pt_requested t' = pt_requested t"
    "pt_completed t' = pt_completed t" "interval_ok cfg i'"
proof -
  obtain h t1 where h: "consume_hint t = (h, t1)" by fastforce
  note ok = consume_hint_ok[OF t h]
  have "i \<le> sat_add i 10"
    using unsigned_less[of i, where ?'a = nat] by (simp add: word_le_nat_alt unat_sat_add)
  then have "interval_ok cfg (min (sat_add i 10) (poll_ms_max cfg))"
    using i by (auto simp: interval_ok_def min_def max_def)
  then show "tuner_ok cfg t'" "pt_permit t' = pt_permit t" "pt_requested t' = pt_requested t"
    "pt_completed t' = pt_completed t" "interval_ok cfg i'"
    using r h ok by (auto simp: next_interval_def interval_ok_def tuner_ok_def split: option.splits)
qed

lemma poll_step_inv:
  assumes inv: "world_inv cfg w" and ph: "pw_phase w \<notin> {PP_Wait, PP_Stopped}"
  shows "world_inv cfg (poll_step elapsed panicked (pw_phase w) w)"
proof (cases "pw_phase w")
  case PP_Begin
  with inv show ?thesis by (auto simp: world_inv_def tuner_ok_def covers_all)
next
  case (PP_Capture g)
  with inv show ?thesis
    by (auto simp: world_inv_def snapshot_at_last intro: snapshot_at_def[THEN iffD2])
next
  case (PP_Apply g p)
  obtain c d where c: "apply_poll_update (world_poll_update p) elapsed (pw_interval w) (pw_data w) = (c, d)"
    by fastforce
  have "replay_focus None (pw_log w @ published_events c) = wd_focus d"
    using inv replay_published[OF c] by (simp add: world_inv_def replay_focus_append)
  moreover have "reflects (pw_history w) (pw_captured w) d"
    using inv PP_Apply apply_reflects[OF _ c] by (simp add: world_inv_def)
  ultimately show ?thesis
    using inv PP_Apply c by (auto simp: world_inv_def poll_once_core_def intro: covers_mono)
next
  case (PP_Complete g)
  with inv show ?thesis by (auto simp: world_inv_def tuner_ok_def complete_refresh_def)
next
  case PP_Tune
  obtain i t where n: "next_interval (pw_interval w) (pw_tuner w) = (i, t)" by fastforce
  have "tuner_ok cfg (pw_tuner w)" "interval_ok cfg (pw_interval w)" using inv by (simp_all add: world_inv_def)
  from next_interval_ok[OF this n] inv PP_Tune n show ?thesis by (simp add: world_inv_def)
next
  case PP_Hint
  obtain h t where n: "consume_hint (pw_tuner w) = (h, t)" by fastforce
  have "tuner_ok cfg (pw_tuner w)" using inv by (simp add: world_inv_def)
  from consume_hint_ok[OF this n] inv PP_Hint n show ?thesis
    by (cases h) (simp_all add: world_inv_def interval_ok_def)
qed (use ph in auto)

lemma poll_notified_inv:
  assumes inv: "world_inv cfg w"
  shows "world_inv cfg (poll_notified w)"
proof -
  obtain h t where n: "consume_hint ((pw_tuner w)\<lparr>pt_permit := False\<rparr>) = (h, t)" by fastforce
  have "tuner_ok cfg ((pw_tuner w)\<lparr>pt_permit := False\<rparr>)"
    using inv by (auto simp: world_inv_def tuner_ok_def)
  from consume_hint_ok[OF this n] inv n show ?thesis
    by (cases h) (simp_all add: world_inv_def poll_notified_def interval_ok_def)
qed

lemma loop_step_inv: "loop_step w w' \<Longrightarrow> world_inv cfg w \<Longrightarrow> world_inv cfg w'"
proof (induction rule: loop_step.induct)
  case (ls_dropped w g p)
  then show ?case by (auto simp: world_inv_def world_dropped_def)
next
  case (ls_sleep w)
  then show ?case by (simp add: world_inv_def poll_sleep_elapsed_def)
qed (simp_all add: poll_step_inv poll_notified_inv)

lemma world_request_simps [simp]:
  "pw_tuner (snd (world_request w)) = snd (request_refresh (pw_tuner w))"
  "pw_phase (snd (world_request w)) = pw_phase w"
  "pw_interval (snd (world_request w)) = pw_interval w"
  "pw_data (snd (world_request w)) = pw_data w" "pw_log (snd (world_request w)) = pw_log w"
  "pw_history (snd (world_request w)) = pw_history w"
  "pw_captured (snd (world_request w)) = pw_captured w"
  "pw_applied (snd (world_request w)) = pw_applied w"
  "pw_requests (snd (world_request w)) = pw_requests w @ [length (pw_history w)]"
  by (simp_all add: world_request_def split_def Let_def)

lemma request_refresh_simps [simp]:
  "pt_min_ms (snd (request_refresh t)) = pt_min_ms t" "pt_max_ms (snd (request_refresh t)) = pt_max_ms t"
  "pt_next_ms (snd (request_refresh t)) = pt_min_ms t"
  "pt_requested (snd (request_refresh t)) = pt_requested t + 1"
  "pt_completed (snd (request_refresh t)) = pt_completed t" "pt_permit (snd (request_refresh t))"
  by (simp_all add: request_refresh_def poll_reset_def Let_def)

lemma world_request_inv:
  assumes inv: "world_inv cfg w" and room: "pt_requested (pw_tuner w) < - 1"
  shows "world_inv cfg (snd (world_request w))"
proof -
  let ?t = "pw_tuner w"
  have suc: "unat (pt_requested ?t + 1) = Suc (unat (pt_requested ?t))"
    by (rule unat_plus_one[OF room])
  then have "pt_requested ?t \<le> pt_requested ?t + 1" by (simp add: word_le_nat_alt)
  then have le: "g \<le> pt_requested ?t + 1" if "g \<le> pt_requested ?t" for g
    using that by (rule order_trans[rotated])
  have cov: "covers (pw_requests w @ rs) g k \<longleftrightarrow> covers (pw_requests w) g k"
    if "g \<le> pt_requested ?t" for g k rs
    using that inv by (intro covers_append) (simp add: world_inv_def word_le_nat_alt)
  have t: "tuner_ok cfg (snd (request_refresh ?t))"
    using inv le by (simp add: world_inv_def tuner_ok_def)
  have c: "covers (pw_requests w @ [length (pw_history w)]) (pt_completed ?t) (pw_applied w)"
    using inv cov by (simp add: world_inv_def tuner_ok_def)
  have p: "phase_ok (pw_phase w) (snd (world_request w))"
    using inv by (cases "pw_phase w") (simp_all add: world_inv_def cov le)
  show ?thesis
    using inv t c p suc unfolding world_inv_def by (simp add: suc)
qed

lemma platform_change_inv:
  assumes inv: "world_inv cfg w"
  shows "world_inv cfg (platform_change p w)"
  using inv
  by (cases "pw_phase w")
    (auto simp: world_inv_def platform_change_def snapshot_at_append reflects_append intro: covers_mono)

lemma caller_step_inv: "caller_step w w' \<Longrightarrow> world_inv cfg w \<Longrightarrow> world_inv cfg w'"
  by (induction rule: caller_step.induct) (simp_all add: world_request_inv platform_change_inv)

lemma world_run_inv: "world_run n w w' \<Longrightarrow> world_inv cfg w \<Longrightarrow> world_inv cfg w'"
  by (induction rule: world_run.induct) (auto intro: loop_step_inv caller_step_inv)

lemma world_reachable_inv: "world_reachable cfg w \<Longrightarrow> world_inv cfg w"
  unfolding world_reachable_def by (auto intro: world_run_inv spawn_inv)

subsection \<open>How far a refresh is from its answer\<close>

text \<open>Loop steps until generation \<open>g\<close> is completed, whatever callers and platform do meanwhile.\<close>

fun refresh_distance :: "64 word \<Rightarrow> poll_phase \<Rightarrow> nat" where
  "refresh_distance g PP_Begin = 4"
| "refresh_distance g (PP_Capture g') = (if g \<le> g' then 3 else 10)"
| "refresh_distance g (PP_Apply g' p) = (if g \<le> g' then 2 else 9)"
| "refresh_distance g (PP_Complete g') = (if g \<le> g' then 1 else 8)"
| "refresh_distance g PP_Tune = 7"
| "refresh_distance g PP_Hint = 6"
| "refresh_distance g PP_Wait = 5"
| "refresh_distance g PP_Stopped = 0"

definition refresh_pending :: "64 word \<Rightarrow> poll_world \<Rightarrow> nat" where
  "refresh_pending g w =
     (if refresh_completed g (pw_tuner w) then 0 else refresh_distance g (pw_phase w))"

lemma loop_step_progress:
  assumes "loop_step w w'" "world_inv cfg w" "g \<le> pt_requested (pw_tuner w)"
  shows "refresh_pending g w' \<le> refresh_pending g w - 1" "g \<le> pt_requested (pw_tuner w')"
proof -
  have "refresh_pending g w' \<le> refresh_pending g w - 1 \<and> g \<le> pt_requested (pw_tuner w')"
    using assms
  proof (induction rule: loop_step.induct)
    case (ls_step w elapsed panicked)
    then show ?case
      by (cases "pw_phase w")
        (auto simp: refresh_pending_def refresh_completed_def complete_refresh_def consume_hint_def
          next_interval_def poll_once_core_def world_inv_def Let_def split: prod.splits option.splits)
  qed (auto simp: refresh_pending_def refresh_completed_def world_dropped_def poll_sleep_elapsed_def
      poll_notified_def consume_hint_def Let_def)
  then show "refresh_pending g w' \<le> refresh_pending g w - 1" "g \<le> pt_requested (pw_tuner w')" by simp_all
qed

lemma caller_step_progress:
  assumes "caller_step w w'" "world_inv cfg w" "g \<le> pt_requested (pw_tuner w)"
  shows "refresh_pending g w' = refresh_pending g w" "g \<le> pt_requested (pw_tuner w')"
proof -
  have "refresh_pending g w' = refresh_pending g w \<and> g \<le> pt_requested (pw_tuner w')"
    using assms
  proof (induction rule: caller_step.induct)
    case (cs_request w)
    then show ?case
      using unat_plus_one[of "pt_requested (pw_tuner w)"]
      by (simp add: refresh_pending_def refresh_completed_def word_le_nat_alt)
  qed (simp add: refresh_pending_def refresh_completed_def platform_change_def)
  then show "refresh_pending g w' = refresh_pending g w" "g \<le> pt_requested (pw_tuner w')" by simp_all
qed

lemma world_run_progress:
  assumes "world_run n w w'" "world_inv cfg w" "g \<le> pt_requested (pw_tuner w)"
  shows "refresh_pending g w' \<le> refresh_pending g w - n \<and> g \<le> pt_requested (pw_tuner w')"
  using assms
proof (induction rule: world_run.induct)
  case (wr_loop n w w' w'')
  then have "world_inv cfg w'" by (blast intro: world_run_inv)
  with wr_loop loop_step_progress[of w' w'' cfg g] show ?case by fastforce
next
  case (wr_caller n w w' w'')
  then have "world_inv cfg w'" by (blast intro: world_run_inv)
  with wr_caller caller_step_progress[of w' w'' cfg g] show ?case by fastforce
qed simp

lemma refresh_pending_le: "refresh_pending g w \<le> 10"
  by (cases "pw_phase w") (auto simp: refresh_pending_def)

lemma refresh_pending_done:
  "refresh_pending g w = 0 \<Longrightarrow> pw_phase w \<noteq> PP_Stopped \<Longrightarrow> refresh_completed g (pw_tuner w)"
  by (cases "pw_phase w") (auto simp: refresh_pending_def split: if_splits)

end
