(* ===== verification/World_Events.thy ===== *)
theory World_Events
  imports World_Poll "HOL-Library.Sublist"
begin

text \<open>
  The event hub of \<open>hotki-world\<close> (\<open>events.rs\<close>) and the promises of the world view:
  refreshes answer with a snapshot taken after the request, they never wait for
  the poll timer, and a subscriber that replays the events it received tracks
  the world's focus.  The broadcast channel is tokio's: sending, subscribing and
  receiving are parameters, and \<open>broadcast_ok\<close> states their documented behaviour
  over an unbounded log of everything sent.
\<close>

subsection \<open>The broadcast channel\<close>

datatype recv_result = Received world_event | Lagged "64 word" | RecvClosed | RecvTimeout

record ('c, 'r) broadcast_api =
  bc_channel :: "nat \<Rightarrow> 'c"
  bc_send :: "world_event \<Rightarrow> 'c \<Rightarrow> 'c"
  bc_subscribe :: "'c \<Rightarrow> 'r"
  bc_recv :: "'c \<Rightarrow> 'r \<Rightarrow> recv_result \<times> 'r"

record 'r event_cursor =
  lost_count :: "64 word"
  cur_receiver :: 'r
  cur_closed :: bool

definition DEFAULT_EVENT_CAPACITY :: nat where "DEFAULT_EVENT_CAPACITY = 256"

definition hub_new :: "('c, 'r) broadcast_api \<Rightarrow> nat \<Rightarrow> 'c" where
  "hub_new bc cap = bc_channel bc (max cap 8)"

definition hub_subscribe :: "('c, 'r) broadcast_api \<Rightarrow> 'c \<Rightarrow> 'r event_cursor" where
  "hub_subscribe bc c = \<lparr>lost_count = 0, cur_receiver = bc_subscribe bc c, cur_closed = False\<rparr>"

definition hub_publish :: "('c, 'r) broadcast_api \<Rightarrow> world_event list \<Rightarrow> 'c \<Rightarrow> 'c" where
  "hub_publish bc es c = fold (bc_send bc) es c"

text \<open>
  The loop of \<open>next_event_until\<close>.  The fuel bounds the receives before the
  deadline; a receive that finds nothing waits until the deadline passes.
\<close>

fun next_event_until ::
  "('c, 'r) broadcast_api \<Rightarrow> 'c \<Rightarrow> nat \<Rightarrow> 'r event_cursor \<Rightarrow> world_event option \<times> 'r event_cursor" where
  "next_event_until bc c 0 cur = (None, cur)"
| "next_event_until bc c (Suc n) cur =
     (case bc_recv bc c (cur_receiver cur) of
        (Received e, r) \<Rightarrow> (Some e, cur\<lparr>cur_receiver := r\<rparr>)
      | (Lagged k, r) \<Rightarrow>
          next_event_until bc c n (cur\<lparr>cur_receiver := r, lost_count := sat_add (lost_count cur) k\<rparr>)
      | (RecvClosed, r) \<Rightarrow> (None, cur\<lparr>cur_receiver := r, cur_closed := True\<rparr>)
      | (RecvTimeout, r) \<Rightarrow> (None, cur\<lparr>cur_receiver := r\<rparr>))"

text \<open>
  Tokio's documentation: a receiver starts at the end of the log and receives
  every value once and in order; when it has fallen more than the retained number
  of values behind it is told how many it missed and continues at the oldest
  retained one.  The sender outlives the cursors here, so it is never closed.
\<close>

definition broadcast_ok ::
  "('c, 'r) broadcast_api \<Rightarrow> ('c \<Rightarrow> world_event list) \<Rightarrow> ('r \<Rightarrow> nat) \<Rightarrow> nat \<Rightarrow> bool" where
  "broadcast_ok bc log pos retained \<longleftrightarrow>
     0 < retained
     \<and> (\<forall>n. log (bc_channel bc n) = [])
     \<and> (\<forall>e c. log (bc_send bc e c) = log c @ [e])
     \<and> (\<forall>c. pos (bc_subscribe bc c) = length (log c))
     \<and> (\<forall>c r. pos r \<le> length (log c) \<longrightarrow>
          (let n = length (log c); (res, r') = bc_recv bc c r
           in if pos r + retained < n
              then res = Lagged (of_nat (n - retained - pos r)) \<and> pos r' = n - retained
              else if pos r < n then res = Received (log c ! pos r) \<and> pos r' = Suc (pos r)
              else res = RecvTimeout \<and> pos r' = pos r))"

lemma broadcast_okD:
  assumes "broadcast_ok bc log pos retained"
  shows "0 < retained" "log (bc_channel bc n) = []" "log (bc_send bc e c) = log c @ [e]"
    "pos (bc_subscribe bc c) = length (log c)"
  using assms by (simp_all add: broadcast_ok_def)

lemma broadcast_recv:
  assumes "broadcast_ok bc log pos retained" "pos r \<le> length (log c)"
  obtains r' where "pos r + retained < length (log c)"
      "bc_recv bc c r = (Lagged (of_nat (length (log c) - retained - pos r)), r')"
      "pos r' = length (log c) - retained"
  | r' where "length (log c) \<le> pos r + retained" "pos r < length (log c)"
      "bc_recv bc c r = (Received (log c ! pos r), r')" "pos r' = Suc (pos r)"
  | r' where "pos r = length (log c)" "bc_recv bc c r = (RecvTimeout, r')" "pos r' = pos r"
proof -
  obtain res r' where r: "bc_recv bc c r = (res, r')" by fastforce
  have "(let n = length (log c); (res, r') = bc_recv bc c r
           in if pos r + retained < n
              then res = Lagged (of_nat (n - retained - pos r)) \<and> pos r' = n - retained
              else if pos r < n then res = Received (log c ! pos r) \<and> pos r' = Suc (pos r)
              else res = RecvTimeout \<and> pos r' = pos r)"
    using assms by (simp add: broadcast_ok_def)
  then show ?thesis
    using r assms(2) that by (simp add: Let_def split: if_splits)
qed

lemma hub_publish_log:
  "broadcast_ok bc log pos retained \<Longrightarrow> log (hub_publish bc es c) = log c @ es"
  by (induction es arbitrary: c) (simp_all add: hub_publish_def broadcast_okD)

subsection \<open>What one subscriber receives\<close>

text \<open>
  A cursor that started at position \<open>start\<close>: the events it returned are a
  subsequence of what was published since, and every event up to its position
  was either returned or counted as lost.
\<close>

definition cursor_ok ::
  "nat \<Rightarrow> world_event list \<Rightarrow> nat \<Rightarrow> 64 word \<Rightarrow> world_event list \<Rightarrow> bool" where
  "cursor_ok start log p lost got \<longleftrightarrow>
     start \<le> p \<and> p \<le> length log \<and> subseq got (drop start (take p log))
     \<and> length got + unat lost = p - start"

datatype hub_op = Hub_Publish "world_event list" | Hub_Next

fun hub_run ::
  "('c, 'r) broadcast_api \<Rightarrow> hub_op list \<Rightarrow> 'c \<times> 'r event_cursor \<times> world_event list
   \<Rightarrow> 'c \<times> 'r event_cursor \<times> world_event list" where
  "hub_run bc [] s = s"
| "hub_run bc (Hub_Publish es # ops) (c, cur, got) = hub_run bc ops (hub_publish bc es c, cur, got)"
| "hub_run bc (Hub_Next # ops) (c, cur, got) =
     (case next_event_until bc c 2 cur of
        (Some e, cur') \<Rightarrow> hub_run bc ops (c, cur', got @ [e])
      | (None, cur') \<Rightarrow> hub_run bc ops (c, cur', got))"

lemma cursor_ok_append: "cursor_ok start log p lost got \<Longrightarrow> cursor_ok start (log @ es) p lost got"
  by (auto simp: cursor_ok_def)

lemma drop_take_Suc: "start \<le> p \<Longrightarrow> p < length xs \<Longrightarrow> drop start (take (Suc p) xs) = drop start (take p xs) @ [xs ! p]"
  by (simp add: take_Suc_conv_app_nth)

lemma cursor_ok_received:
  assumes "cursor_ok start log p lost got" "p < length log"
  shows "cursor_ok start log (Suc p) lost (got @ [log ! p])"
  using assms by (auto simp: cursor_ok_def drop_take_Suc)

lemma drop_take_prefix:
  "p \<le> q \<Longrightarrow> \<exists>ys. drop start (take q xs) = drop start (take p xs) @ ys"
  by (metis append_take_drop_id drop_append take_take min.absorb1)

lemma cursor_ok_lagged:
  assumes ok: "cursor_ok start log p lost got" and k: "p + k \<le> length log" and len: "length log < 2 ^ 64"
  shows "cursor_ok start log (p + k) (sat_add lost (of_nat k)) got"
proof -
  obtain ys where "drop start (take (p + k) log) = drop start (take p log) @ ys"
    using drop_take_prefix[of p "p + k"] by auto
  then have "subseq got (drop start (take (p + k) log))"
    using ok by (auto simp: cursor_ok_def intro: subseq_order.trans)
  moreover have "unat (of_nat k :: 64 word) = k"
    using k len by (simp add: unsigned_of_nat take_bit_nat_eq_self)
  ultimately show ?thesis
    using ok k len by (auto simp: cursor_ok_def unat_sat_add)
qed

lemma next_event_until_cases:
  assumes bc: "broadcast_ok bc log pos retained" and le: "pos (cur_receiver cur) \<le> length (log c)"
    and len: "length (log c) < 2 ^ 64"
    and ok: "cursor_ok start (log c) (pos (cur_receiver cur)) (lost_count cur) got"
    and r: "next_event_until bc c 2 cur = (res, cur')"
  shows "cursor_ok start (log c) (pos (cur_receiver cur')) (lost_count cur')
           (got @ (case res of None \<Rightarrow> [] | Some e \<Rightarrow> [e]))
         \<and> (res = None \<longrightarrow> pos (cur_receiver cur') = length (log c) \<and> lost_count cur' = lost_count cur)"
  using bc le
proof (cases rule: broadcast_recv)
  case (1 r')
  let ?n = "length (log c)" and ?p = "pos (cur_receiver cur)"
  let ?cur = "cur\<lparr>cur_receiver := r', lost_count := sat_add (lost_count cur) (of_nat (?n - retained - ?p))\<rparr>"
  have lag: "cursor_ok start (log c) (pos r') (lost_count ?cur) got"
    using cursor_ok_lagged[OF ok, of "?n - retained - ?p"] 1 len by simp
  have le': "pos r' \<le> ?n" using 1 by simp
  show ?thesis
    using bc le'
  proof (cases rule: broadcast_recv)
    case (2 r2)
    with r 1 cursor_ok_received[OF lag] show ?thesis by (auto simp: numeral_2_eq_2)
  qed (use 1 broadcast_okD(1)[OF bc] in auto)
next
  case (2 r')
  with r cursor_ok_received[OF ok] show ?thesis by (auto simp: numeral_2_eq_2)
next
  case (3 r')
  with r ok show ?thesis by (auto simp: numeral_2_eq_2)
qed

text \<open>The events that the operations publish, in order.\<close>

fun hub_published :: "hub_op list \<Rightarrow> world_event list" where
  "hub_published [] = []"
| "hub_published (Hub_Publish es # ops) = es @ hub_published ops"
| "hub_published (Hub_Next # ops) = hub_published ops"

lemma hub_run_log:
  assumes bc: "broadcast_ok bc log pos retained"
  shows "hub_run bc ops (c, cur, got) = (c', cur', got') \<Longrightarrow> log c' = log c @ hub_published ops"
proof (induction ops arbitrary: c cur got)
  case (Cons op ops)
  then show ?case
    by (cases op) (auto simp: hub_publish_log[OF bc] split: prod.splits option.splits)
qed simp

lemma hub_run_cursor:
  assumes bc: "broadcast_ok bc log pos retained" and len: "length (log c') < 2 ^ 64"
    and ok: "cursor_ok start (log c) (pos (cur_receiver cur)) (lost_count cur) got"
    and r: "hub_run bc ops (c, cur, got) = (c', cur', got')"
  shows "cursor_ok start (log c') (pos (cur_receiver cur')) (lost_count cur') got'"
  using ok r
proof (induction ops arbitrary: c cur got)
  case (Cons op ops)
  show ?case
  proof (cases op)
    case (Hub_Publish es)
    have "cursor_ok start (log (hub_publish bc es c)) (pos (cur_receiver cur)) (lost_count cur) got"
      using Cons.prems(1) by (simp add: hub_publish_log[OF bc] cursor_ok_append)
    from Cons.IH[OF this] Cons.prems(2) Hub_Publish show ?thesis by simp
  next
    case Hub_Next
    obtain res cur1 where n: "next_event_until bc c 2 cur = (res, cur1)" by fastforce
    have run: "hub_run bc ops (c, cur1, got @ (case res of None \<Rightarrow> [] | Some e \<Rightarrow> [e])) = (c', cur', got')"
      using Cons.prems(2) Hub_Next n by (cases res) simp_all
    have "length (log c) < 2 ^ 64" using len hub_run_log[OF bc run] by simp
    moreover have "pos (cur_receiver cur) \<le> length (log c)"
      using Cons.prems(1) by (simp add: cursor_ok_def)
    ultimately have "cursor_ok start (log c) (pos (cur_receiver cur1)) (lost_count cur1)
        (got @ (case res of None \<Rightarrow> [] | Some e \<Rightarrow> [e]))"
      using next_event_until_cases[OF bc _ _ Cons.prems(1) n] by blast
    then show ?thesis by (rule Cons.IH[OF _ run])
  qed
qed (use len in auto)

lemma cursor_ok_complete:
  assumes "cursor_ok start log (length log) 0 got"
  shows "got = drop start log"
  using assms subseq_same_length[of got "drop start log"] by (simp add: cursor_ok_def)

subsection \<open>Replaying events\<close>

text \<open>A list of events either sets the focus or leaves it alone.\<close>

lemma replay_focus_dichotomy:
  "(\<forall>f. replay_focus f es = f) \<or> (\<forall>f g. replay_focus f es = replay_focus g es)"
proof (induction es)
  case (Cons e es)
  show ?case
  proof (cases e)
    case (WE_FocusChanged ch)
    then show ?thesis by (cases ch) simp_all
  qed (use Cons in simp)
qed simp

lemma replay_focus_idem: "replay_focus (replay_focus f es) es = replay_focus f es"
  using replay_focus_dichotomy[of es] by metis

lemma loop_step_log: "loop_step w w' \<Longrightarrow> \<exists>es. pw_log w' = pw_log w @ es"
proof (induction rule: loop_step.induct)
  case (ls_step w elapsed panicked)
  then show ?case
    by (cases "pw_phase w")
      (auto simp: poll_once_core_def Let_def split: prod.splits option.splits)
qed (auto simp: world_dropped_def poll_sleep_elapsed_def poll_notified_def split: prod.splits)

lemma world_run_log: "world_run n w w' \<Longrightarrow> \<exists>es. pw_log w' = pw_log w @ es"
proof (induction rule: world_run.induct)
  case (wr_loop n w w' w'')
  then show ?case using loop_step_log[of w' w''] by fastforce
next
  case (wr_caller n w w' w'')
  moreover from this have "pw_log w'' = pw_log w'"
    by (auto simp: platform_change_def elim: caller_step.cases)
  ultimately show ?case by simp
qed simp

subsection \<open>Properties\<close>

text \<open>
  C13: a refresh whose wait has returned is answered by a state that shows one
  platform snapshot which was captured after the request was made (or the default
  snapshot of a failed capture), however requests, polls and platform changes
  interleave.
\<close>

theorem refresh_observes_request:
  assumes "world_reachable cfg w" "0 < g" "g \<le> pt_requested (pw_tuner w)"
    "refresh_completed g (pw_tuner w)"
  shows "pw_requests w ! (unat g - 1) \<le> pw_applied w \<and> reflects (pw_history w) (pw_applied w) (pw_data w)"
proof -
  note inv = world_reachable_inv[OF assms(1)]
  let ?r = "pw_requests w ! (unat g - 1)"
  have g: "0 < unat g" "unat g \<le> unat (pt_completed (pw_tuner w))"
    "unat (pt_completed (pw_tuner w)) \<le> length (pw_requests w)"
    using assms inv by (simp_all add: refresh_completed_def word_le_nat_alt word_less_nat_alt
        world_inv_def tuner_ok_def)
  then have "?r \<in> set (take (unat (pt_completed (pw_tuner w))) (pw_requests w))"
    by (auto simp: in_set_conv_nth intro!: exI[of _ "unat g - 1"])
  with inv have "?r \<le> pw_applied w" "0 < ?r"
    by (auto simp: world_inv_def covers_def dest: in_set_takeD)
  with inv show ?thesis by (simp add: world_inv_def)
qed

text \<open>
  C29: a refresh is answered within ten steps of the poll loop, whatever the
  callers and the platform do in between, and while it is unanswered the loop is
  never left waiting for its timer: a permit to go on is stored.
\<close>

theorem refresh_answered_promptly:
  assumes "world_reachable cfg w" "g \<le> pt_requested (pw_tuner w)" "world_run n w w'"
    "pw_phase w' \<noteq> PP_Stopped"
  shows "(10 \<le> n \<longrightarrow> refresh_completed g (pw_tuner w'))
         \<and> (pw_phase w' = PP_Wait \<and> \<not> refresh_completed g (pw_tuner w') \<longrightarrow> pt_permit (pw_tuner w'))"
proof -
  note inv = world_reachable_inv[OF assms(1)]
  note p = world_run_progress[OF assms(3) inv assms(2)]
  have "refresh_completed g (pw_tuner w')" if "10 \<le> n"
    using p that refresh_pending_le[of g w] refresh_pending_done[OF _ assms(4)] by simp
  moreover have "pt_permit (pw_tuner w')" if "pw_phase w' = PP_Wait" "\<not> refresh_completed g (pw_tuner w')"
    using world_run_inv[OF assms(3) inv] that p by (auto simp: world_inv_def refresh_completed_def)
  ultimately show ?thesis by blast
qed

text \<open>
  C14: a subscriber that takes a cursor, then reads the focus, and then applies
  every event it receives ends, once it has received everything and lost nothing,
  with exactly the focus of the world, although the world may have changed
  between the subscription and the read.
\<close>

theorem subscriber_tracks_focus:
  assumes bc: "broadcast_ok bc log pos retained"
    and w0: "world_reachable cfg w0" "log c0 = pw_log w0"
    and w1: "world_run n w0 w1" and w2: "world_run m w1 w2" "log c = pw_log w2"
    and run: "hub_run bc ops (c0, hub_subscribe bc c0, []) = (c, cur, got)"
    and len: "length (log c) < 2 ^ 64"
    and all_read: "lost_count cur = 0" "fst (next_event_until bc c 2 cur) = None"
  shows "replay_focus (wd_focus (pw_data w1)) got = wd_focus (pw_data w2)"
proof -
  let ?start = "length (log c0)"
  have "cursor_ok ?start (log c0) (pos (cur_receiver (hub_subscribe bc c0)))
      (lost_count (hub_subscribe bc c0)) []"
    by (simp add: cursor_ok_def hub_subscribe_def broadcast_okD(4)[OF bc])
  note ok = hub_run_cursor[OF bc len this run]
  obtain cur' where n: "next_event_until bc c 2 cur = (None, cur')"
    using all_read(2) by (cases "next_event_until bc c 2 cur") simp
  have "pos (cur_receiver cur) \<le> length (log c)" using ok by (simp add: cursor_ok_def)
  from next_event_until_cases[OF bc this len ok n] all_read(1)
  have "cursor_ok ?start (log c) (length (log c)) 0 got" by auto
  then have got: "got = drop ?start (log c)" by (rule cursor_ok_complete)
  obtain xs where xs: "pw_log w1 = pw_log w0 @ xs" using world_run_log[OF w1] by blast
  obtain ys where ys: "pw_log w2 = pw_log w1 @ ys" using world_run_log[OF w2(1)] by blast
  note inv0 = world_reachable_inv[OF w0(1)]
  note inv1 = world_run_inv[OF w1 inv0]
  note inv2 = world_run_inv[OF w2(1) inv1]
  have f1: "wd_focus (pw_data w1) = replay_focus (replay_focus None (pw_log w0)) xs"
    and f2: "wd_focus (pw_data w2) = replay_focus (wd_focus (pw_data w1)) ys"
    using inv1 inv2 xs ys by (simp_all add: world_inv_def replay_focus_append)
  have "got = xs @ ys" using got w0(2) w2(2) xs ys by simp
  then show ?thesis by (simp add: replay_focus_append f1 replay_focus_idem f2)
qed

subsection \<open>Concrete runs\<close>

definition sample_window :: platform_window where
  "sample_window =
     \<lparr>pw_app = ''Safari'', pw_title = ''Home'', pw_pid = 42, pw_id = 7, pw_display_id = Some 1\<rparr>"

definition sample_platform :: platform_snapshot where
  "sample_platform = platform_default\<lparr>pl_windows := [sample_window], pl_focused := Some sample_window\<rparr>"

definition sample_start :: poll_world where
  "sample_start = poll_world_spawn world_cfg_default sample_platform"

text \<open>A refresh is requested, then the loop runs one iteration up to its completion.\<close>

definition sample_requested :: poll_world where
  "sample_requested = snd (world_request sample_start)"

definition sample_applied :: poll_world where
  "sample_applied =
     (let loop = (\<lambda>w. poll_step 3 False (pw_phase w) w) in loop (loop (loop sample_requested)))"

definition sample_polled :: poll_world where
  "sample_polled = poll_step 3 False (pw_phase sample_applied) sample_applied"

lemmas sample_world_defs = sample_polled_def sample_applied_def sample_requested_def sample_start_def
  poll_world_spawn_def world_cfg_default_def world_request_def request_refresh_def poll_reset_def
  poll_tuner_new_def complete_refresh_def poll_once_core_def

lemma sample_world_reachable: "world_reachable world_cfg_default sample_start"
  unfolding world_reachable_def sample_start_def by (blast intro: wr_refl)

lemma sample_request_run: "world_run 0 sample_start sample_requested"
  unfolding sample_requested_def
  by (intro wr_caller[OF wr_refl] cs_request)
    (simp_all add: sample_start_def poll_world_spawn_def poll_tuner_new_def word_less_nat_alt
      unsigned_minus_1_eq_mask mask_eq_exp_minus_1)

lemma sample_phases:
  "pw_phase sample_requested = PP_Begin"
  "pw_phase (poll_step 3 False PP_Begin sample_requested) = PP_Capture 1"
  "pw_phase (poll_step 3 False (PP_Capture 1) (poll_step 3 False PP_Begin sample_requested)) = PP_Apply 1 sample_platform"
  by (simp_all add: sample_world_defs)

lemma sample_applied_run: "world_run 3 sample_requested sample_applied"
proof -
  let ?w1 = "poll_step 3 False (pw_phase sample_requested) sample_requested"
  let ?w2 = "poll_step 3 False (pw_phase ?w1) ?w1"
  have "world_run (Suc (Suc (Suc 0))) sample_requested (poll_step 3 False (pw_phase ?w2) ?w2)"
    by (intro wr_loop[OF _ ls_step] wr_refl) (simp_all add: sample_phases)
  then show ?thesis by (simp add: sample_applied_def Let_def numeral_3_eq_3)
qed

lemma sample_applied_phase: "pw_phase sample_applied = PP_Complete 1"
  by (simp add: sample_world_defs split: prod.split)

lemma sample_polled_run: "world_run 4 sample_requested sample_polled"
proof -
  have "world_run (Suc 3) sample_requested sample_polled"
    unfolding sample_polled_def
    by (intro wr_loop[OF sample_applied_run ls_step]) (simp add: sample_applied_phase)
  then show ?thesis by simp
qed

lemma world_run_trans: "world_run m w' w'' \<Longrightarrow> world_run n w w' \<Longrightarrow> world_run (n + m) w w''"
  by (induction rule: world_run.induct) (auto intro: world_run.intros)

lemma sample_polled_reachable: "world_reachable world_cfg_default sample_polled"
  using world_run_trans[OF sample_polled_run sample_request_run]
  unfolding world_reachable_def sample_start_def by blast

lemma sample_polled_tuner:
  "pt_requested (pw_tuner sample_polled) = 1" "pt_completed (pw_tuner sample_polled) = 1"
  "pw_requests sample_polled = [1]"
  by (simp_all add: sample_world_defs split: prod.split)

lemma refresh_observes_request_witness:
  "pw_requests sample_polled ! (unat (1 :: 64 word) - 1) \<le> pw_applied sample_polled
   \<and> reflects (pw_history sample_polled) (pw_applied sample_polled) (pw_data sample_polled)"
  by (rule refresh_observes_request[OF sample_polled_reachable])
    (simp_all add: sample_polled_tuner refresh_completed_def)

lemma refresh_answered_promptly_witness:
  "\<not> (pw_phase sample_applied = PP_Wait \<and> \<not> refresh_completed 1 (pw_tuner sample_applied)
      \<and> \<not> pt_permit (pw_tuner sample_applied))"
proof -
  have "world_reachable world_cfg_default sample_requested"
    using sample_request_run unfolding world_reachable_def sample_start_def by blast
  from refresh_answered_promptly[OF this _ sample_applied_run, of 1]
  show ?thesis
    by (simp add: sample_applied_phase sample_requested_def sample_start_def poll_world_spawn_def
        poll_tuner_new_def)
qed

text \<open>A broadcast channel: the log itself, a receiver is its position, 256 values are retained.\<close>

definition sample_broadcast :: "(world_event list, nat) broadcast_api" where
  "sample_broadcast =
     \<lparr>bc_channel = (\<lambda>n. []), bc_send = (\<lambda>e c. c @ [e]), bc_subscribe = length,
      bc_recv = (\<lambda>c p.
        if p + 256 < length c then (Lagged (of_nat (length c - 256 - p)), length c - 256)
        else if p < length c then (Received (c ! p), Suc p) else (RecvTimeout, p))\<rparr>"

lemma sample_broadcast_ok: "broadcast_ok sample_broadcast id id 256"
  by (simp add: broadcast_ok_def sample_broadcast_def Let_def)

lemma sample_logs:
  "pw_log sample_start = []" "pw_log sample_requested = []"
  "pw_log sample_applied = [WE_FocusChanged (Focused (platform_focus sample_window))]"
  by (simp_all add: sample_world_defs apply_poll_update_def world_poll_update_def sample_platform_def
      platform_default_def world_data_default_def displays_default_def displays_eq_def f32_eq_def
      f32_nan_def published_events_def focus_change_of_def Let_def)

lemma subscriber_tracks_focus_witness:
  "replay_focus (wd_focus (pw_data sample_requested))
     [WE_FocusChanged (Focused (platform_focus sample_window))] = wd_focus (pw_data sample_applied)"
proof (rule subscriber_tracks_focus[OF sample_broadcast_ok sample_world_reachable _ sample_request_run
        sample_applied_run])
  let ?e = "WE_FocusChanged (Focused (platform_focus sample_window))"
  show "hub_run sample_broadcast [Hub_Publish [?e], Hub_Next]
      ([], hub_subscribe sample_broadcast [], [])
    = ([?e], \<lparr>lost_count = 0, cur_receiver = 1, cur_closed = False\<rparr>, [?e])"
    by (simp add: hub_publish_def hub_subscribe_def sample_broadcast_def numeral_2_eq_2)
  show "fst (next_event_until sample_broadcast [?e] 2
      \<lparr>lost_count = 0, cur_receiver = 1, cur_closed = False\<rparr>) = None"
    by (simp add: sample_broadcast_def numeral_2_eq_2)
qed (simp_all add: sample_logs)

end
