(* ===== verification/Worker_Pool.thy ===== *)
theory Worker_Pool
  imports Hotkey_Manager
begin

text \<open>
  The per-hotkey worker pool of \<open>hotki-server\<close> (\<open>ipc/service/workers.rs\<close>): one
  worker task per registration id hands its events to the engine in order, closes
  its queue when idle, drains what it accepted and is replaced by a new generation
  that waits for it.  Dispatching runs on the server's single-threaded runtime
  without awaiting, so it is one step; the tasks interleave between their awaits.
  A send on a queue that was just seen open succeeds for the same reason.
\<close>

subsection \<open>Messages and tasks\<close>

datatype worker_dispatch_result = Queued | QueueFull | ReleaseQueued | QueueClosed

datatype worker_message =
    WM_Event tap_event
  | WM_ForcedRelease "32 word" "64 word"

fun message_id :: "worker_message \<Rightarrow> 32 word" where
  "message_id (WM_Event ev) = event_id ev"
| "message_id (WM_ForcedRelease i g) = i"

fun is_forced :: "worker_message \<Rightarrow> bool" where
  "is_forced (WM_Event ev) = False"
| "is_forced (WM_ForcedRelease i g) = True"

text \<open>The engine call that \<open>process_worker_message\<close> makes for a message.\<close>

fun message_call :: "worker_message \<Rightarrow> 32 word \<times> event_kind \<times> bool" where
  "message_call (WM_Event ev) = (event_id ev, event_kind ev, event_repeat ev)"
| "message_call (WM_ForcedRelease i g) = (i, KeyUp, False)"

text \<open>
  Where a task is: waiting for the handoff lock, waiting for a message, inside the
  engine call of one, and the same two while draining its closed queue.
\<close>

datatype worker_phase =
    WP_Waiting
  | WP_Idle
  | WP_Busy worker_message
  | WP_Draining
  | WP_DrainBusy worker_message

record worker =
  wk_id :: "32 word"
  wk_generation :: "64 word"
  wk_handoff :: "64 word"
  wk_queue :: "worker_message list"
  wk_open :: bool
  wk_pending :: nat
  wk_release_pending :: bool
  wk_phase :: worker_phase

text \<open>
  The pool.  A handle names its task by generation and carries the handoff lock,
  which is named by the generation it was created for.  \<open>wp_accepted\<close> and
  \<open>wp_taken\<close> record the messages put on a queue and handed to the engine.
\<close>

record worker_pool =
  wp_workers :: "(32 word \<times> 64 word \<times> 64 word) list"
  wp_tasks :: "worker list"
  wp_next_generation :: "64 word"
  wp_queue_capacity :: nat
  wp_shutdown :: bool
  wp_accepted :: "worker_message list"
  wp_taken :: "worker_message list"

definition DEFAULT_QUEUE_CAPACITY :: nat where "DEFAULT_QUEUE_CAPACITY = 64"

definition worker_pool_new :: worker_pool where
  "worker_pool_new =
     \<lparr>wp_workers = [], wp_tasks = [], wp_next_generation = 1,
      wp_queue_capacity = DEFAULT_QUEUE_CAPACITY, wp_shutdown = False, wp_accepted = [], wp_taken = []\<rparr>"

subsection \<open>Dispatching\<close>

definition spawn_worker ::
  "32 word \<Rightarrow> 64 word option \<Rightarrow> worker_pool \<Rightarrow> (64 word \<times> 64 word) \<times> worker_pool" where
  "spawn_worker i handoff p =
     (let generation = wp_next_generation p;
          lock = (case handoff of None \<Rightarrow> generation | Some l \<Rightarrow> l)
      in ((generation, lock),
          p\<lparr>wp_next_generation := generation + 1,
            wp_tasks := wp_tasks p @
              [\<lparr>wk_id = i, wk_generation = generation, wk_handoff = lock, wk_queue = [],
                wk_open = True, wk_pending = 0, wk_release_pending = False, wk_phase = WP_Waiting\<rparr>]\<rparr>))"

definition get_or_spawn :: "32 word \<Rightarrow> worker_pool \<Rightarrow> (64 word \<times> 64 word) \<times> worker_pool" where
  "get_or_spawn i p =
     (case map_of (wp_workers p) i of
        Some h \<Rightarrow> (h, p)
      | None \<Rightarrow>
          (let (h, p') = spawn_worker i None p
           in (h, p'\<lparr>wp_workers := AList.update i h (wp_workers p')\<rparr>)))"

definition find_task :: "64 word \<Rightarrow> worker_pool \<Rightarrow> worker option" where
  "find_task g p = find (\<lambda>t. wk_generation t = g) (wp_tasks p)"

definition remove_generation :: "32 word \<Rightarrow> 64 word \<Rightarrow> worker_pool \<Rightarrow> worker_pool" where
  "remove_generation i g p =
     (case map_of (wp_workers p) i of
        Some (g', l) \<Rightarrow> if g' = g then p\<lparr>wp_workers := AList.delete i (wp_workers p)\<rparr> else p
      | None \<Rightarrow> p)"

definition replace_closed_generation ::
  "32 word \<Rightarrow> 64 word \<times> 64 word \<Rightarrow> worker_pool \<Rightarrow> worker_pool" where
  "replace_closed_generation i closed p =
     (let needs_replacement =
        (case map_of (wp_workers p) i of None \<Rightarrow> True | Some (g, l) \<Rightarrow> g = fst closed)
      in if needs_replacement
         then let (h, p') = spawn_worker i (Some (snd closed)) p
              in p'\<lparr>wp_workers := AList.update i h (wp_workers p')\<rparr>
         else p)"

definition upd_task :: "64 word \<Rightarrow> (worker \<Rightarrow> worker) \<Rightarrow> worker_pool \<Rightarrow> worker_pool" where
  "upd_task g f p = p\<lparr>wp_tasks := map (\<lambda>t. if wk_generation t = g then f t else t) (wp_tasks p)\<rparr>"

definition accept_message :: "worker_message \<Rightarrow> worker \<Rightarrow> worker" where
  "accept_message m t =
     t\<lparr>wk_queue := wk_queue t @ [m], wk_pending := wk_pending t + 1,
       wk_release_pending := wk_release_pending t \<or> is_forced m\<rparr>"

definition send_message :: "64 word \<Rightarrow> worker_message \<Rightarrow> worker_pool \<Rightarrow> worker_pool" where
  "send_message g m p = (upd_task g (accept_message m) p)\<lparr>wp_accepted := wp_accepted p @ [m]\<rparr>"

text \<open>\<open>dispatch_with\<close> makes two attempts; the argument counts the ones left.\<close>

fun dispatch_attempts :: "nat \<Rightarrow> tap_event \<Rightarrow> worker_pool \<Rightarrow> worker_dispatch_result \<times> worker_pool" where
  "dispatch_attempts 0 ev p = (QueueClosed, p)"
| "dispatch_attempts (Suc n) ev p =
     (let i = event_id ev; (h, p) = get_or_spawn i p; g = fst h
      in case find_task g p of
           None \<Rightarrow>
             (if n = 0 then (QueueClosed, remove_generation i g p)
              else dispatch_attempts n ev (replace_closed_generation i h p))
         | Some t \<Rightarrow>
             if \<not> wk_open t
             then (if n = 0 then (QueueClosed, remove_generation i g p)
                   else dispatch_attempts n ev (replace_closed_generation i h p))
             else if wp_queue_capacity p \<le> wk_pending t
             then (if event_kind ev = KeyUp \<and> \<not> wk_release_pending t
                   then (ReleaseQueued, send_message g (WM_ForcedRelease i g) p)
                   else (QueueFull, p))
             else (Queued, send_message g (WM_Event ev) p))"

definition pool_dispatch :: "tap_event \<Rightarrow> worker_pool \<Rightarrow> worker_dispatch_result \<times> worker_pool" where
  "pool_dispatch ev p = dispatch_attempts 2 ev p"

subsection \<open>The tasks\<close>

text \<open>The end of \<open>process_worker_message\<close>.\<close>

definition message_done :: "worker_message \<Rightarrow> worker \<Rightarrow> worker" where
  "message_done m t =
     t\<lparr>wk_pending := wk_pending t - 1,
       wk_release_pending := (if is_forced m then False else wk_release_pending t)\<rparr>"

text \<open>One step of a task that only touches the task itself.\<close>

fun task_step :: "worker_phase \<Rightarrow> worker \<Rightarrow> worker option" where
  "task_step WP_Idle t =
     (case wk_queue t of [] \<Rightarrow> None | m # q \<Rightarrow> Some (t\<lparr>wk_queue := q, wk_phase := WP_Busy m\<rparr>))"
| "task_step (WP_Busy m) t = Some ((message_done m t)\<lparr>wk_phase := WP_Idle\<rparr>)"
| "task_step WP_Draining t =
     (case wk_queue t of [] \<Rightarrow> None | m # q \<Rightarrow> Some (t\<lparr>wk_queue := q, wk_phase := WP_DrainBusy m\<rparr>))"
| "task_step (WP_DrainBusy m) t = Some ((message_done m t)\<lparr>wk_phase := WP_Draining\<rparr>)"
| "task_step WP_Waiting t = None"

text \<open>The message that a step takes off the queue and hands to the engine.\<close>

fun taken_by :: "worker_phase \<Rightarrow> worker \<Rightarrow> worker_message list" where
  "taken_by WP_Idle t = take 1 (wk_queue t)"
| "taken_by WP_Draining t = take 1 (wk_queue t)"
| "taken_by _ t = []"

definition holds_lock :: "64 word \<Rightarrow> worker \<Rightarrow> bool" where
  "holds_lock l t \<longleftrightarrow> wk_handoff t = l \<and> wk_phase t \<noteq> WP_Waiting"

definition close_queue :: "worker \<Rightarrow> worker" where
  "close_queue t = t\<lparr>wk_open := False, wk_phase := WP_Draining\<rparr>"

text \<open>
  The steps of the pool: a dispatch (while a generation number is left), a task
  acquiring the handoff lock, taking or finishing a message, closing its queue
  (the idle timeout with nothing queued, or shutdown), and ending after the drain.
\<close>

inductive pool_step :: "worker_pool \<Rightarrow> worker_pool \<Rightarrow> bool" where
  ps_dispatch: "unat (wp_next_generation p) < 2 ^ 64 - 2 \<Longrightarrow> pool_step p (snd (pool_dispatch ev p))"
| ps_acquire: "wp_tasks p = xs @ t # ys \<Longrightarrow> wk_phase t = WP_Waiting
    \<Longrightarrow> list_all (\<lambda>u. \<not> holds_lock (wk_handoff t) u) (xs @ ys)
    \<Longrightarrow> list_all (\<lambda>u. wk_handoff u \<noteq> wk_handoff t) xs
    \<Longrightarrow> pool_step p (p\<lparr>wp_tasks := xs @ t\<lparr>wk_phase := WP_Idle\<rparr> # ys\<rparr>)"
| ps_task: "wp_tasks p = xs @ t # ys \<Longrightarrow> task_step (wk_phase t) t = Some t'
    \<Longrightarrow> pool_step p (p\<lparr>wp_tasks := xs @ t' # ys, wp_taken := wp_taken p @ taken_by (wk_phase t) t\<rparr>)"
| ps_close: "wp_tasks p = xs @ t # ys \<Longrightarrow> wk_phase t = WP_Idle \<Longrightarrow> wk_queue t = [] \<or> wp_shutdown p
    \<Longrightarrow> pool_step p (p\<lparr>wp_tasks := xs @ close_queue t # ys\<rparr>)"
| ps_end: "wp_tasks p = xs @ t # ys \<Longrightarrow> wk_phase t = WP_Draining \<Longrightarrow> wk_queue t = []
    \<Longrightarrow> pool_step p (remove_generation (wk_id t) (wk_generation t) (p\<lparr>wp_tasks := xs @ ys\<rparr>))"
| ps_shutdown: "pool_step p (p\<lparr>wp_shutdown := True\<rparr>)"

inductive pool_reachable :: "worker_pool \<Rightarrow> bool" where
  pr_new: "pool_reachable worker_pool_new"
| pr_step: "pool_reachable p \<Longrightarrow> pool_step p p' \<Longrightarrow> pool_reachable p'"

subsection \<open>The invariant\<close>

fun busy :: "worker_phase \<Rightarrow> worker_message list" where
  "busy (WP_Busy m) = [m]"
| "busy (WP_DrainBusy m) = [m]"
| "busy _ = []"

fun draining :: "worker_phase \<Rightarrow> bool" where
  "draining WP_Draining = True"
| "draining (WP_DrainBusy m) = True"
| "draining _ = False"

definition in_flight :: "worker \<Rightarrow> worker_message list" where
  "in_flight t = busy (wk_phase t) @ wk_queue t"

definition own_message :: "worker \<Rightarrow> worker_message \<Rightarrow> bool" where
  "own_message t m \<longleftrightarrow> message_id m = wk_id t \<and> (is_forced m \<longrightarrow> m = WM_ForcedRelease (wk_id t) (wk_generation t))"

text \<open>
  One task: its counters agree with its messages, at most one forced release is
  in flight, and only that one may exceed the capacity.
\<close>

definition worker_ok :: "nat \<Rightarrow> worker \<Rightarrow> bool" where
  "worker_ok cap t \<longleftrightarrow>
     (wk_open t \<longleftrightarrow> \<not> draining (wk_phase t))
     \<and> wk_pending t = length (in_flight t)
     \<and> (wk_release_pending t \<longleftrightarrow> list_ex is_forced (in_flight t))
     \<and> length (filter is_forced (in_flight t)) \<le> 1
     \<and> list_all (own_message t) (in_flight t)
     \<and> wk_pending t \<le> cap + (if wk_release_pending t then 1 else 0)"

text \<open>
  The tasks of one id, oldest first, against the handle of the id: at most a
  draining generation and the open one that waits for it.
\<close>

fun lane_ok :: "worker list \<Rightarrow> (64 word \<times> 64 word) option \<Rightarrow> bool" where
  "lane_ok [] h \<longleftrightarrow> h = None"
| "lane_ok [t] h \<longleftrightarrow> h = Some (wk_generation t, wk_handoff t)"
| "lane_ok [d, t] h \<longleftrightarrow> h = Some (wk_generation t, wk_handoff t) \<and> \<not> wk_open d \<and> wk_phase t = WP_Waiting
     \<and> wk_handoff t = wk_handoff d"
| "lane_ok _ h \<longleftrightarrow> False"

definition lane :: "32 word \<Rightarrow> worker list \<Rightarrow> worker list" where
  "lane i ts = filter (\<lambda>t. wk_id t = i) ts"

definition for_id :: "32 word \<Rightarrow> worker_message list \<Rightarrow> worker_message list" where
  "for_id i ms = filter (\<lambda>m. message_id m = i) ms"

definition queued :: "worker list \<Rightarrow> worker_message list" where
  "queued ts = concat (map wk_queue ts)"

definition pool_inv :: "worker_pool \<Rightarrow> bool" where
  "pool_inv p \<longleftrightarrow>
     distinct (map wk_generation (wp_tasks p))
     \<and> (\<forall>t \<in> set (wp_tasks p). wk_generation t < wp_next_generation p \<and> worker_ok (wp_queue_capacity p) t)
     \<and> distinct (map fst (wp_workers p))
     \<and> (\<forall>i. lane_ok (lane i (wp_tasks p)) (map_of (wp_workers p) i))
     \<and> (\<forall>i. for_id i (wp_accepted p) = for_id i (wp_taken p) @ queued (lane i (wp_tasks p)))
     \<and> wp_queue_capacity p = DEFAULT_QUEUE_CAPACITY"

lemma lane_simps [simp]:
  "lane i [] = []" "lane i (t # ts) = (if wk_id t = i then t # lane i ts else lane i ts)"
  "lane i (xs @ ys) = lane i xs @ lane i ys"
  by (simp_all add: lane_def)

lemma for_id_simps [simp]:
  "for_id i [] = []" "for_id i (m # ms) = (if message_id m = i then m # for_id i ms else for_id i ms)"
  "for_id i (xs @ ys) = for_id i xs @ for_id i ys"
  by (simp_all add: for_id_def)

lemma queued_simps [simp]:
  "queued [] = []" "queued (t # ts) = wk_queue t @ queued ts" "queued (xs @ ys) = queued xs @ queued ys"
  by (simp_all add: queued_def)

lemma lane_ok_cases:
  assumes "lane_ok (as @ t # bs) h"
  obtains "as = []" "bs = []" "h = Some (wk_generation t, wk_handoff t)"
  | u where "as = []" "bs = [u]" "h = Some (wk_generation u, wk_handoff u)" "\<not> wk_open t"
      "wk_phase u = WP_Waiting" "wk_handoff u = wk_handoff t"
  | d where "as = [d]" "bs = []" "h = Some (wk_generation t, wk_handoff t)" "\<not> wk_open d"
      "wk_phase t = WP_Waiting" "wk_handoff t = wk_handoff d"
  using assms by (cases "(as @ t # bs, h)" rule: lane_ok.cases) (auto simp: append_eq_Cons_conv Cons_eq_append_conv)

text \<open>Replacing a task by one with the same identity.\<close>

definition same_identity :: "worker \<Rightarrow> worker \<Rightarrow> bool" where
  "same_identity t t' \<longleftrightarrow> wk_id t' = wk_id t \<and> wk_generation t' = wk_generation t \<and> wk_handoff t' = wk_handoff t"

lemma lane_ok_replace:
  assumes "lane_ok (as @ t # bs) h" "same_identity t t'"
    "wk_phase t = WP_Waiting \<longrightarrow> as = [] \<or> wk_phase t' = WP_Waiting" "wk_open t' \<longrightarrow> wk_open t"
  shows "lane_ok (as @ t' # bs) h"
  using assms(1)
  by (rule lane_ok_cases) (use assms in \<open>auto simp: same_identity_def\<close>)

lemma pool_inv_replace:
  assumes inv: "pool_inv p" and ts: "wp_tasks p = xs @ t # ys" and same: "same_identity t t'"
    and ok: "worker_ok (wp_queue_capacity p) t'"
    and lane: "lane_ok (lane (wk_id t) xs @ t' # lane (wk_id t) ys) (map_of (wp_workers p) (wk_id t))"
    and logs: "\<And>i. for_id i (wp_accepted p') =
      for_id i (wp_taken p') @ queued (lane i (xs @ t' # ys))"
    and p': "wp_tasks p' = xs @ t' # ys" "wp_workers p' = wp_workers p"
      "wp_next_generation p' = wp_next_generation p" "wp_queue_capacity p' = wp_queue_capacity p"
  shows "pool_inv p'"
proof -
  have l: "lane_ok (lane i (xs @ t # ys)) (map_of (wp_workers p) i)" for i
    using inv ts by (simp add: pool_inv_def)
  have "lane_ok (lane i (xs @ t' # ys)) (map_of (wp_workers p) i)" for i
    using l[of i] lane same by (auto simp: same_identity_def)
  with inv ts same ok logs p' show ?thesis
    by (auto simp: pool_inv_def same_identity_def)
qed

lemma own_message_same: "same_identity t t' \<Longrightarrow> own_message t' = own_message t"
  by (simp add: same_identity_def own_message_def fun_eq_iff)

lemma worker_ok_cong:
  assumes "worker_ok cap t" "same_identity t t'" "in_flight t' = in_flight t"
    "wk_pending t' = wk_pending t" "wk_release_pending t' = wk_release_pending t"
    "wk_open t' \<longleftrightarrow> \<not> draining (wk_phase t')"
  shows "worker_ok cap t'"
  using assms(1,3-) unfolding worker_ok_def own_message_same[OF assms(2)] by metis

lemma worker_ok_done:
  assumes ok: "worker_ok cap t" and f: "in_flight t = m # in_flight t'"
    and t': "same_identity t t'" "wk_pending t' = wk_pending t - 1"
      "wk_release_pending t' = (if is_forced m then False else wk_release_pending t)"
    and opn: "wk_open t' \<longleftrightarrow> \<not> draining (wk_phase t')"
  shows "worker_ok cap t'"
proof -
  have p: "wk_pending t' = length (in_flight t')"
    using ok f t'(2) by (simp add: worker_ok_def)
  have one: "length (filter is_forced (m # in_flight t')) \<le> 1"
    and rel: "wk_release_pending t \<longleftrightarrow> list_ex is_forced (m # in_flight t')"
    and own: "list_all (own_message t) (m # in_flight t')"
    and bound: "Suc (wk_pending t') \<le> cap + (if wk_release_pending t then 1 else 0)"
    using ok f p by (auto simp: worker_ok_def)
  have r: "wk_release_pending t' \<longleftrightarrow> list_ex is_forced (in_flight t')"
  proof (cases "is_forced m")
    case True
    then have "filter is_forced (in_flight t') = []" using one by simp
    with True t'(3) show ?thesis by (simp add: list_ex_iff filter_empty_conv)
  qed (use rel t'(3) in simp)
  have "wk_pending t' \<le> cap + (if wk_release_pending t' then 1 else 0)"
    using bound by (auto split: if_splits)
  moreover have "length (filter is_forced (in_flight t')) \<le> 1" using one by (simp split: if_splits)
  ultimately show ?thesis
    using p r own opn unfolding worker_ok_def own_message_same[OF t'(1)] by simp
qed

lemma task_step_ok:
  assumes step: "task_step (wk_phase t) t = Some t'" and ok: "worker_ok cap t"
  shows "worker_ok cap t'" "same_identity t t'" "wk_open t' = wk_open t"
    "wk_queue t = taken_by (wk_phase t) t @ wk_queue t'" "wk_phase t \<noteq> WP_Waiting"
proof -
  have o: "wk_open t \<longleftrightarrow> \<not> draining (wk_phase t)" using ok by (simp add: worker_ok_def)
  show "worker_ok cap t'"
  proof (cases "wk_phase t")
    case WP_Idle
    with step o show ?thesis
      by (intro worker_ok_cong[OF ok]) (auto simp: same_identity_def in_flight_def split: list.splits)
  next
    case WP_Draining
    with step o show ?thesis
      by (intro worker_ok_cong[OF ok]) (auto simp: same_identity_def in_flight_def split: list.splits)
  next
    case (WP_Busy m)
    with step o show ?thesis
      by (intro worker_ok_done[OF ok, of m]) (auto simp: same_identity_def in_flight_def message_done_def)
  next
    case (WP_DrainBusy m)
    with step o show ?thesis
      by (intro worker_ok_done[OF ok, of m]) (auto simp: same_identity_def in_flight_def message_done_def)
  qed (use step in simp)
  show "same_identity t t'" "wk_open t' = wk_open t"
    "wk_queue t = taken_by (wk_phase t) t @ wk_queue t'" "wk_phase t \<noteq> WP_Waiting"
    using step by (cases "wk_phase t"; auto simp: same_identity_def message_done_def split: list.splits)+
qed

lemma close_queue_ok:
  assumes "worker_ok cap t" "wk_phase t = WP_Idle"
  shows "worker_ok cap (close_queue t)"
  by (rule worker_ok_cong[OF assms(1)])
    (use assms(2) in \<open>simp_all add: same_identity_def in_flight_def close_queue_def\<close>)

lemma accept_message_ok:
  assumes "worker_ok cap t" "own_message t m"
    "wk_pending t < cap \<and> \<not> is_forced m \<or> is_forced m \<and> \<not> wk_release_pending t"
  shows "worker_ok cap (accept_message m t)"
  using assms
  by (auto simp: worker_ok_def accept_message_def in_flight_def own_message_def list_all_iff list_ex_iff
      filter_empty_conv split: if_splits)

lemma task_lane: "wp_tasks p = xs @ t # ys \<Longrightarrow> pool_inv p
  \<Longrightarrow> lane_ok (lane (wk_id t) xs @ t # lane (wk_id t) ys) (map_of (wp_workers p) (wk_id t))"
  unfolding pool_inv_def by (metis lane_simps(2,3))

lemma task_ok_of: "wp_tasks p = xs @ t # ys \<Longrightarrow> pool_inv p \<Longrightarrow> worker_ok (wp_queue_capacity p) t"
  unfolding pool_inv_def by (metis in_set_conv_decomp)

lemma task_ok_member: "t \<in> set (wp_tasks p) \<Longrightarrow> pool_inv p \<Longrightarrow> worker_ok (wp_queue_capacity p) t"
  unfolding pool_inv_def by metis

lemma lane_member: "lane i ts = u # us \<Longrightarrow> u \<in> set ts \<and> wk_id u = i"
  unfolding lane_def by (metis (mono_tags, lifting) filter_eq_ConsD in_set_conv_decomp)

lemma pool_step_task_inv:
  assumes ts: "wp_tasks p = xs @ t # ys" and step: "task_step (wk_phase t) t = Some t'" and inv: "pool_inv p"
  shows "pool_inv (p\<lparr>wp_tasks := xs @ t' # ys, wp_taken := wp_taken p @ taken_by (wk_phase t) t\<rparr>)"
proof -
  note ok = task_step_ok[OF step task_ok_of[OF ts inv]]
  note l = task_lane[OF ts inv]
  have id: "wk_id t' = wk_id t" using ok(2) by (simp add: same_identity_def)
  have ids: "for_id i (taken_by (wk_phase t) t) = (if i = wk_id t then taken_by (wk_phase t) t else [])" for i
    using task_ok_of[OF ts inv]
    by (cases "wk_phase t"; cases "wk_queue t")
      (auto simp: worker_ok_def in_flight_def own_message_def)
  have first: "lane (wk_id t) xs = []"
    using l by (rule lane_ok_cases) (use ok(5) in auto)
  show ?thesis
  proof (rule pool_inv_replace[OF inv ts ok(2,1)])
    show "lane_ok (lane (wk_id t) xs @ t' # lane (wk_id t) ys) (map_of (wp_workers p) (wk_id t))"
      by (rule lane_ok_replace[OF l ok(2)]) (use ok(3,5) in simp_all)
    show "for_id i (wp_accepted (p\<lparr>wp_tasks := xs @ t' # ys, wp_taken := wp_taken p @ taken_by (wk_phase t) t\<rparr>)) =
      for_id i (wp_taken (p\<lparr>wp_tasks := xs @ t' # ys, wp_taken := wp_taken p @ taken_by (wk_phase t) t\<rparr>))
      @ queued (lane i (xs @ t' # ys))" for i
      using inv ts first ids[of i] ok(4) id by (simp add: pool_inv_def)
  qed simp_all
qed

lemma pool_step_close_inv:
  assumes ts: "wp_tasks p = xs @ t # ys" and ph: "wk_phase t = WP_Idle" and inv: "pool_inv p"
  shows "pool_inv (p\<lparr>wp_tasks := xs @ close_queue t # ys\<rparr>)"
proof -
  have same: "same_identity t (close_queue t)" by (simp add: same_identity_def close_queue_def)
  have q: "wk_queue (close_queue t) = wk_queue t" "wk_id (close_queue t) = wk_id t"
    by (simp_all add: close_queue_def)
  show ?thesis
  proof (rule pool_inv_replace[OF inv ts same close_queue_ok[OF task_ok_of[OF ts inv] ph]])
    show "lane_ok (lane (wk_id t) xs @ close_queue t # lane (wk_id t) ys) (map_of (wp_workers p) (wk_id t))"
      by (rule lane_ok_replace[OF task_lane[OF ts inv] same]) (simp_all add: ph close_queue_def)
  qed (use inv ts q in \<open>simp_all add: pool_inv_def\<close>)
qed

lemma pool_step_acquire_inv:
  assumes ts: "wp_tasks p = xs @ t # ys" and ph: "wk_phase t = WP_Waiting"
    and free: "list_all (\<lambda>u. \<not> holds_lock (wk_handoff t) u) (xs @ ys)" and inv: "pool_inv p"
  shows "pool_inv (p\<lparr>wp_tasks := xs @ t\<lparr>wk_phase := WP_Idle\<rparr> # ys\<rparr>)"
proof -
  let ?t = "t\<lparr>wk_phase := WP_Idle\<rparr>"
  have same: "same_identity t ?t" by (simp add: same_identity_def)
  have ok: "worker_ok (wp_queue_capacity p) ?t"
    by (rule worker_ok_cong[OF task_ok_of[OF ts inv] same])
      (use ph task_ok_of[OF ts inv] in \<open>simp_all add: in_flight_def worker_ok_def\<close>)
  have "lane (wk_id t) xs = []"
    using task_lane[OF ts inv]
  proof (rule lane_ok_cases)
    fix d assume d: "lane (wk_id t) xs = [d]" "\<not> wk_open d" "wk_handoff t = wk_handoff d"
    have "d \<in> set xs" using lane_member[OF d(1)] by blast
    then have "worker_ok (wp_queue_capacity p) d" by (intro task_ok_member[OF _ inv]) (simp add: ts)
    with d(2) have "wk_phase d \<noteq> WP_Waiting" by (auto simp: worker_ok_def)
    with free d \<open>d \<in> set xs\<close> show ?thesis by (simp add: list_all_iff holds_lock_def)
  qed simp_all
  show ?thesis
  proof (rule pool_inv_replace[OF inv ts same ok])
    show "lane_ok (lane (wk_id t) xs @ ?t # lane (wk_id t) ys) (map_of (wp_workers p) (wk_id t))"
      by (rule lane_ok_replace[OF task_lane[OF ts inv] same]) (simp_all add: \<open>lane (wk_id t) xs = []\<close>)
  qed (use inv ts in \<open>simp_all add: pool_inv_def\<close>)
qed

lemma pool_step_end_inv:
  assumes ts: "wp_tasks p = xs @ t # ys" and ph: "wk_phase t = WP_Draining" and q: "wk_queue t = []"
    and inv: "pool_inv p"
  shows "pool_inv (remove_generation (wk_id t) (wk_generation t) (p\<lparr>wp_tasks := xs @ ys\<rparr>))"
proof -
  let ?w = "map_of (wp_workers p) (wk_id t)"
  have gens: "wk_generation t \<notin> wk_generation ` set (xs @ ys)" "distinct (map wk_generation (xs @ ys))"
    using inv ts by (auto simp: pool_inv_def)
  have other: "wk_generation u \<noteq> wk_generation t" if "u \<in> set (xs @ ys)" for u
    using gens(1) that by (metis imageI)
  have l: "lane_ok (lane i (xs @ ys)) (if i = wk_id t \<and> lane i (xs @ ys) = [] then None else map_of (wp_workers p) i)" for i
  proof (cases "i = wk_id t")
    case True
    have "lane_ok (lane (wk_id t) xs @ lane (wk_id t) ys)
        (if lane (wk_id t) (xs @ ys) = [] then None else ?w)"
      using task_lane[OF ts inv] by (rule lane_ok_cases) (use ph in simp_all)
    with True show ?thesis by (simp split: if_splits)
  next
    case False
    have "lane_ok (lane i (wp_tasks p)) (map_of (wp_workers p) i)" using inv by (simp add: pool_inv_def)
    with False ts show ?thesis by simp
  qed
  have gen: "?w = Some (wk_generation t, wk_handoff t) \<and> lane (wk_id t) (xs @ ys) = []
    \<or> (\<exists>u \<in> set (xs @ ys). ?w = Some (wk_generation u, wk_handoff u)) \<and> lane (wk_id t) (xs @ ys) \<noteq> []"
    using task_lane[OF ts inv]
  proof (rule lane_ok_cases)
    fix u assume u: "lane (wk_id t) ys = [u]" "?w = Some (wk_generation u, wk_handoff u)"
    have "u \<in> set ys" using lane_member[OF u(1)] by blast
    with u show ?thesis by auto
  qed (use ph in simp_all)
  let ?p = "remove_generation (wk_id t) (wk_generation t) (p\<lparr>wp_tasks := xs @ ys\<rparr>)"
  have m: "map_of (wp_workers ?p) i =
      (if i = wk_id t \<and> lane i (xs @ ys) = [] then None else map_of (wp_workers p) i)" for i
    using gen other by (auto simp: remove_generation_def)
  have fields: "wp_tasks ?p = xs @ ys" "wp_next_generation ?p = wp_next_generation p"
    "wp_queue_capacity ?p = wp_queue_capacity p" "wp_accepted ?p = wp_accepted p" "wp_taken ?p = wp_taken p"
    by (auto simp: remove_generation_def split: option.splits)
  have d: "distinct (map fst (wp_workers ?p))"
    using inv by (auto simp: remove_generation_def pool_inv_def split: option.splits)
  have "queued (lane i (xs @ ys)) = queued (lane i (xs @ t # ys))" for i
    using q by simp
  then have logs: "for_id i (wp_accepted p) = for_id i (wp_taken p) @ queued (lane i (xs @ ys))" for i
    using inv ts by (simp add: pool_inv_def)
  have ok: "wk_generation u < wp_next_generation p \<and> worker_ok (wp_queue_capacity p) u" if "u \<in> set (xs @ ys)" for u
    using inv ts that by (metis (no_types, lifting) Un_iff list.set_intros(2) pool_inv_def set_append)
  have cap: "wp_queue_capacity p = DEFAULT_QUEUE_CAPACITY" using inv by (simp add: pool_inv_def)
  show ?thesis
    unfolding pool_inv_def fields m using gens(2) ok d l logs cap by blast
qed

subsection \<open>Dispatching keeps the invariant\<close>

text \<open>A pool with a task for the id whose queue is open.\<close>

definition open_lane :: "32 word \<Rightarrow> worker_pool \<Rightarrow> worker \<Rightarrow> bool" where
  "open_lane i p t \<longleftrightarrow>
     t \<in> set (wp_tasks p) \<and> wk_id t = i \<and> wk_open t
     \<and> map_of (wp_workers p) i = Some (wk_generation t, wk_handoff t)"

lemma find_by_key: "distinct (map f xs) \<Longrightarrow> x \<in> set xs \<Longrightarrow> find (\<lambda>y. f y = f x) xs = Some x"
  by (induction xs) (auto simp: image_iff)

lemma find_task_unique:
  "pool_inv p \<Longrightarrow> t \<in> set (wp_tasks p) \<Longrightarrow> find_task (wk_generation t) p = Some t"
  unfolding find_task_def by (rule find_by_key) (simp_all add: pool_inv_def)

lemma upd_task_split:
  assumes "pool_inv p" "wp_tasks p = xs @ t # ys"
  shows "wp_tasks (upd_task (wk_generation t) f p) = xs @ f t # ys"
proof -
  have "wk_generation t \<notin> wk_generation ` set xs" "wk_generation t \<notin> wk_generation ` set ys"
    using assms by (auto simp: pool_inv_def)
  then show ?thesis unfolding upd_task_def using assms(2) by (auto simp: image_iff intro!: map_idI)
qed

lemma send_message_inv:
  assumes inv: "pool_inv p" and opn: "open_lane i p t" and own: "own_message t m"
    and room: "wk_pending t < wp_queue_capacity p \<and> \<not> is_forced m \<or> is_forced m \<and> \<not> wk_release_pending t"
  shows "pool_inv (send_message (wk_generation t) m p)"
proof -
  obtain xs ys where ts: "wp_tasks p = xs @ t # ys"
    using opn unfolding open_lane_def by (meson split_list)
  have id: "wk_id t = i" "message_id m = i" using opn own by (auto simp: open_lane_def own_message_def)
  have same: "same_identity t (accept_message m t)" by (simp add: same_identity_def accept_message_def)
  have tasks: "wp_tasks (send_message (wk_generation t) m p) = xs @ accept_message m t # ys"
    by (simp add: send_message_def upd_task_split[OF inv ts])
  have last: "lane (wk_id t) ys = []"
    using task_lane[OF ts inv] by (rule lane_ok_cases) (use opn in \<open>auto simp: open_lane_def\<close>)
  show ?thesis
  proof (rule pool_inv_replace[OF inv ts same accept_message_ok[OF task_ok_of[OF ts inv] own room]])
    show "lane_ok (lane (wk_id t) xs @ accept_message m t # lane (wk_id t) ys) (map_of (wp_workers p) (wk_id t))"
      by (rule lane_ok_replace[OF task_lane[OF ts inv] same]) (simp_all add: accept_message_def)
    show "for_id k (wp_accepted (send_message (wk_generation t) m p)) =
        for_id k (wp_taken (send_message (wk_generation t) m p)) @ queued (lane k (xs @ accept_message m t # ys))" for k
    proof -
      have "for_id k (wp_accepted p) = for_id k (wp_taken p) @ queued (lane k (xs @ t # ys))"
        using inv ts by (simp add: pool_inv_def)
      with last id show ?thesis
        by (cases "k = i") (simp_all add: send_message_def upd_task_def accept_message_def)
    qed
  qed (simp_all add: tasks, simp_all add: send_message_def upd_task_def)
qed

lemma generation_room: "unat g < 2 ^ 64 - 1 \<longleftrightarrow> g < - 1" for g :: "64 word"
  by (simp add: word_less_nat_alt unsigned_minus_1_eq_mask mask_eq_exp_minus_1)

lemma generation_less: "g < next \<Longrightarrow> next < - 1 \<Longrightarrow> g < next + 1" for g :: "64 word"
  using unat_plus_one[of "next"] by (simp add: word_less_nat_alt)

lemma add_task_inv:
  assumes inv: "pool_inv p" and room: "wp_next_generation p < - 1"
    and lane: "lane_ok (lane i (wp_tasks p) @ [t]) (Some (wk_generation t, wk_handoff t))"
    and t: "wk_id t = i" "wk_generation t = wp_next_generation p" "wk_queue t = []" "wk_open t"
      "wk_pending t = 0" "\<not> wk_release_pending t" "wk_phase t = WP_Waiting"
    and p': "p' = p\<lparr>wp_next_generation := wp_next_generation p + 1, wp_tasks := wp_tasks p @ [t],
                     wp_workers := AList.update i (wk_generation t, wk_handoff t) (wp_workers p)\<rparr>"
  shows "pool_inv p'" "open_lane i p' t"
proof -
  have old: "wk_generation u < wp_next_generation p" "worker_ok (wp_queue_capacity p) u"
    if "u \<in> set (wp_tasks p)" for u
    using inv that by (auto simp: pool_inv_def)
  have fresh: "wp_next_generation p \<notin> wk_generation ` set (wp_tasks p)"
    using old(1) by fastforce
  have lanes: "lane_ok (lane k (wp_tasks p @ [t])) (map_of (wp_workers p') k)" for k
    using inv lane t(1) p' by (simp add: pool_inv_def)
  have gens: "wk_generation u < wp_next_generation p + 1" if "u \<in> set (wp_tasks p @ [t])" for u
  proof (cases "u = t")
    case True
    then show ?thesis using unat_plus_one[OF room] t(2) by (simp add: word_less_nat_alt)
  next
    case False
    then show ?thesis using that old(1) room generation_less by auto
  qed
  have ok: "worker_ok (wp_queue_capacity p) u" if "u \<in> set (wp_tasks p @ [t])" for u
  proof (cases "u = t")
    case True
    with t show ?thesis by (simp add: worker_ok_def in_flight_def)
  qed (use that old(2) in simp)
  have logs: "for_id k (wp_accepted p) = for_id k (wp_taken p) @ queued (lane k (wp_tasks p @ [t]))" for k
    using inv t(3) by (simp add: pool_inv_def)
  show "pool_inv p'"
    using inv fresh lanes gens ok logs t(2) unfolding p' pool_inv_def by simp
  show "open_lane i p' t" using t p' by (simp add: open_lane_def)
qed

lemma get_or_spawn_inv:
  assumes inv: "pool_inv p" and room: "unat (wp_next_generation p) < 2 ^ 64 - 2" and g: "get_or_spawn i p = (h, p1)"
  obtains t where "pool_inv p1" "wp_next_generation p1 < - 1" "t \<in> set (wp_tasks p1)"
    "h = (wk_generation t, wk_handoff t)" "lane i (wp_tasks p1) = [t] \<or> open_lane i p1 t"
    "wk_id t = i" "map_of (wp_workers p1) i = Some h"
    "wp_accepted p1 = wp_accepted p" "wp_taken p1 = wp_taken p"
proof (cases "map_of (wp_workers p) i")
  case None
  have room': "wp_next_generation p < - 1" using room unfolding generation_room[symmetric] by simp
  have "lane_ok (lane i (wp_tasks p)) None" using inv None by (metis pool_inv_def)
  then have l: "lane i (wp_tasks p) = []"
    by (cases "(lane i (wp_tasks p), None :: (64 word \<times> 64 word) option)" rule: lane_ok.cases) auto
  let ?g = "wp_next_generation p"
  let ?t = "\<lparr>wk_id = i, wk_generation = ?g, wk_handoff = ?g, wk_queue = [], wk_open = True,
    wk_pending = 0, wk_release_pending = False, wk_phase = WP_Waiting\<rparr>"
  have p1: "h = (?g, ?g)" "p1 = p\<lparr>wp_next_generation := ?g + 1, wp_tasks := wp_tasks p @ [?t],
      wp_workers := AList.update i (?g, ?g) (wp_workers p)\<rparr>"
    using g None by (auto simp: get_or_spawn_def spawn_worker_def Let_def)
  have lane: "lane_ok (lane i (wp_tasks p) @ [?t]) (Some (wk_generation ?t, wk_handoff ?t))"
    using l by simp
  have new: "pool_inv p1" "open_lane i p1 ?t"
    by (rule add_task_inv[OF inv room' lane]; use p1 in simp)+
  have gen_room: "wp_next_generation p1 < - 1"
    using unat_plus_one[OF room'] room p1 unfolding generation_room[symmetric] by simp
  show thesis
    by (rule that[OF new(1) gen_room _ _ _ _ _ _ _]) (use new(2) p1 l in \<open>auto simp: open_lane_def\<close>)
next
  case (Some h')
  then have p1: "h = h'" "p1 = p" using g by (simp_all add: get_or_spawn_def)
  have room': "wp_next_generation p < - 1" using room unfolding generation_room[symmetric] by simp
  have l: "lane_ok (lane i (wp_tasks p)) (Some h)" using inv Some p1 by (metis pool_inv_def)
  then obtain t where t: "t \<in> set (lane i (wp_tasks p))" "h = (wk_generation t, wk_handoff t)"
    "lane i (wp_tasks p) = [t] \<or> wk_phase t = WP_Waiting"
    by (cases "(lane i (wp_tasks p), Some h)" rule: lane_ok.cases) force+
  then have m: "t \<in> set (wp_tasks p)" "wk_id t = i" by (auto simp: lane_def)
  then have "worker_ok (wp_queue_capacity p) t" using inv by (simp add: task_ok_member)
  then have "wk_phase t = WP_Waiting \<Longrightarrow> wk_open t" by (simp add: worker_ok_def)
  then show thesis
    by (intro that[of t]) (use inv room' t m p1 Some in \<open>auto simp: open_lane_def\<close>)
qed

text \<open>Every dispatch reaches a task with an open queue, at the latest in the second attempt.\<close>

definition deliver :: "tap_event \<Rightarrow> worker \<Rightarrow> worker_pool \<Rightarrow> worker_dispatch_result \<times> worker_pool" where
  "deliver ev t p =
     (if wp_queue_capacity p \<le> wk_pending t
      then (if event_kind ev = KeyUp \<and> \<not> wk_release_pending t
            then (ReleaseQueued,
                  send_message (wk_generation t) (WM_ForcedRelease (event_id ev) (wk_generation t)) p)
            else (QueueFull, p))
      else (Queued, send_message (wk_generation t) (WM_Event ev) p))"

lemma dispatch_open:
  assumes inv: "pool_inv p" and opn: "open_lane (event_id ev) p t"
  shows "dispatch_attempts (Suc n) ev p = deliver ev t p"
proof -
  have "t \<in> set (wp_tasks p)" using opn by (simp add: open_lane_def)
  note f = find_task_unique[OF inv this]
  show ?thesis
    using opn f by (simp add: get_or_spawn_def open_lane_def deliver_def Let_def)
qed

lemma dispatch_reaches:
  assumes inv: "pool_inv p" and room: "unat (wp_next_generation p) < 2 ^ 64 - 2"
  obtains t p1 where "pool_inv p1" "open_lane (event_id ev) p1 t" "pool_dispatch ev p = deliver ev t p1"
    "wp_accepted p1 = wp_accepted p" "wp_taken p1 = wp_taken p"
proof -
  let ?i = "event_id ev"
  obtain h p1 where g: "get_or_spawn ?i p = (h, p1)" by fastforce
  obtain t where p1: "pool_inv p1" "wp_next_generation p1 < - 1" "t \<in> set (wp_tasks p1)"
    "h = (wk_generation t, wk_handoff t)" "lane ?i (wp_tasks p1) = [t] \<or> open_lane ?i p1 t"
    "wk_id t = ?i" "map_of (wp_workers p1) ?i = Some h"
    "wp_accepted p1 = wp_accepted p" "wp_taken p1 = wp_taken p"
    by (rule get_or_spawn_inv[OF inv room g])
  note f = find_task_unique[OF p1(1,3)]
  show thesis
  proof (cases "wk_open t")
    case True
    then have opn: "open_lane ?i p1 t" using p1 by (auto simp: open_lane_def)
    have "pool_dispatch ev p = deliver ev t p1"
      using g f True p1(4) by (simp add: pool_dispatch_def numeral_2_eq_2 deliver_def Let_def)
    with p1 opn show thesis by (intro that)
  next
    case False
    then have l: "lane ?i (wp_tasks p1) = [t]" using p1(5) by (auto simp: open_lane_def)
    let ?g = "wp_next_generation p1"
    let ?t = "\<lparr>wk_id = ?i, wk_generation = ?g, wk_handoff = wk_handoff t, wk_queue = [], wk_open = True,
      wk_pending = 0, wk_release_pending = False, wk_phase = WP_Waiting\<rparr>"
    let ?p = "p1\<lparr>wp_next_generation := ?g + 1, wp_tasks := wp_tasks p1 @ [?t],
      wp_workers := AList.update ?i (?g, wk_handoff t) (wp_workers p1)\<rparr>"
    have r: "replace_closed_generation ?i h p1 = ?p"
      using p1(4,7) by (simp add: replace_closed_generation_def spawn_worker_def Let_def)
    have lane: "lane_ok (lane ?i (wp_tasks p1) @ [?t]) (Some (wk_generation ?t, wk_handoff ?t))"
      using l False by simp
    have new: "pool_inv ?p" "open_lane ?i ?p ?t"
      by (rule add_task_inv[OF p1(1,2) lane]; simp)+
    have "pool_dispatch ev p = dispatch_attempts (Suc 0) ev ?p"
      using g f False p1(4) r by (simp add: pool_dispatch_def numeral_2_eq_2 Let_def del: dispatch_attempts.simps(2))
        (simp add: Let_def g f)
    also have "\<dots> = deliver ev ?t ?p" by (rule dispatch_open[OF new])
    finally show thesis by (intro that[OF new]) (use p1 in simp_all)
  qed
qed

lemma deliver_inv:
  assumes inv: "pool_inv p" and opn: "open_lane (event_id ev) p t"
  shows "pool_inv (snd (deliver ev t p))"
proof -
  have id: "wk_id t = event_id ev" using opn by (simp add: open_lane_def)
  show ?thesis
    unfolding deliver_def
    using send_message_inv[OF inv opn, of "WM_Event ev"]
      send_message_inv[OF inv opn, of "WM_ForcedRelease (event_id ev) (wk_generation t)"] inv id
    by (simp add: own_message_def)
qed

lemma pool_step_inv: "pool_step p p' \<Longrightarrow> pool_inv p \<Longrightarrow> pool_inv p'"
proof (induction rule: pool_step.induct)
  case (ps_dispatch p ev)
  from dispatch_reaches[OF ps_dispatch(2,1), of ev] show ?case
    by (metis deliver_inv)
next
  case (ps_shutdown p)
  then show ?case by (auto simp: pool_inv_def)
qed (simp_all add: pool_step_acquire_inv pool_step_task_inv pool_step_close_inv pool_step_end_inv)

lemma pool_new_inv: "pool_inv worker_pool_new"
  by (simp add: pool_inv_def worker_pool_new_def)

lemma pool_reachable_inv: "pool_reachable p \<Longrightarrow> pool_inv p"
  by (induction rule: pool_reachable.induct) (auto intro: pool_new_inv pool_step_inv)

subsection \<open>Properties\<close>

text \<open>The tasks of an id that are inside an engine call.\<close>

definition processing :: "32 word \<Rightarrow> worker_pool \<Rightarrow> worker list" where
  "processing i p = filter (\<lambda>t. busy (wk_phase t) \<noteq> []) (lane i (wp_tasks p))"

lemma lane_processing:
  assumes "lane_ok ts h" "list_all (worker_ok cap) ts"
  shows "length (filter (\<lambda>t. busy (wk_phase t) \<noteq> []) ts) \<le> 1"
  using assms by (cases "(ts, h)" rule: lane_ok.cases) auto

text \<open>
  C7: for every hotkey id the engine is called in exactly the order in which the
  messages were accepted, one call at a time, and no accepted message is lost or
  repeated, although workers time out, drain and are replaced while events arrive.
\<close>

theorem worker_pool_ordered:
  assumes "pool_reachable p"
  shows "for_id i (wp_accepted p) = for_id i (wp_taken p) @ queued (lane i (wp_tasks p))
         \<and> length (processing i p) \<le> 1"
proof -
  note inv = pool_reachable_inv[OF assms]
  have "list_all (worker_ok (wp_queue_capacity p)) (lane i (wp_tasks p))"
    using task_ok_member[OF _ inv] by (auto simp: lane_def list_all_iff)
  moreover have "lane_ok (lane i (wp_tasks p)) (map_of (wp_workers p) i)"
    using inv by (simp add: pool_inv_def)
  ultimately show ?thesis
    using inv lane_processing unfolding processing_def pool_inv_def by blast
qed

text \<open>
  C40: a dispatch either accepts its event, or finds 64 messages in flight; then
  it retains a release for a key-up unless one is still in flight, and drops every
  other event.  At most 65 messages are ever in flight for a worker, and a fresh
  worker is never found closed.
\<close>

theorem worker_pool_saturation:
  assumes "pool_reachable p" "unat (wp_next_generation p) < 2 ^ 64 - 2" "pool_dispatch ev p = (r, p')"
  shows "\<exists>t p1. open_lane (event_id ev) p1 t \<and> wp_accepted p1 = wp_accepted p
    \<and> wk_pending t = length (in_flight t) \<and> wk_pending t \<le> 65
    \<and> (wk_pending t < 64 \<and> r = Queued \<and> wp_accepted p' = wp_accepted p @ [WM_Event ev]
       \<or> 64 \<le> wk_pending t \<and> event_kind ev = KeyUp \<and> \<not> list_ex is_forced (in_flight t) \<and> r = ReleaseQueued
         \<and> wp_accepted p' = wp_accepted p @ [WM_ForcedRelease (event_id ev) (wk_generation t)]
       \<or> 64 \<le> wk_pending t \<and> (event_kind ev = KeyUp \<longrightarrow> list_ex is_forced (in_flight t)) \<and> r = QueueFull
         \<and> wp_accepted p' = wp_accepted p)"
proof -
  note inv = pool_reachable_inv[OF assms(1)]
  obtain t p1 where p1: "pool_inv p1" "open_lane (event_id ev) p1 t" "pool_dispatch ev p = deliver ev t p1"
    "wp_accepted p1 = wp_accepted p" by (rule dispatch_reaches[OF inv assms(2)])
  have cap: "wp_queue_capacity p1 = 64" using p1(1) by (simp add: pool_inv_def DEFAULT_QUEUE_CAPACITY_def)
  have "t \<in> set (wp_tasks p1)" using p1(2) by (simp add: open_lane_def)
  then have ok: "worker_ok 64 t" using task_ok_member[OF _ p1(1)] cap by simp
  then have c: "wk_pending t = length (in_flight t)" "wk_release_pending t \<longleftrightarrow> list_ex is_forced (in_flight t)"
    "wk_pending t \<le> 65" by (auto simp: worker_ok_def split: if_splits)
  have "deliver ev t p1 = (r, p')" using assms(3) p1(3) by simp
  then show ?thesis
    using p1(2,4) c cap
    by (intro exI[of _ t] exI[of _ p1]) (auto simp: deliver_def send_message_def split: if_splits)
qed

subsection \<open>Concrete runs\<close>

definition sample_down :: tap_event where
  "sample_down = \<lparr>event_id = 7, event_hotkey = \<lparr>modifiers = {}, chord_key = Key_A\<rparr>,
     event_kind = KeyDown, event_repeat = False\<rparr>"

definition sample_up :: tap_event where
  "sample_up = sample_down\<lparr>event_kind := KeyUp\<rparr>"

text \<open>\<open>n\<close> key-downs accepted, \<open>done\<close> of the messages handed to the engine.\<close>

definition flood_worker :: "worker_message list \<Rightarrow> bool \<Rightarrow> worker_phase \<Rightarrow> worker" where
  "flood_worker ms release ph =
     \<lparr>wk_id = 7, wk_generation = 1, wk_handoff = 1, wk_queue = ms, wk_open = True,
      wk_pending = length (busy ph) + length ms, wk_release_pending = release, wk_phase = ph\<rparr>"

definition flood_pool :: "worker_message list \<Rightarrow> worker_message list \<Rightarrow> bool \<Rightarrow> worker_phase \<Rightarrow> worker_pool" where
  "flood_pool taken ms release ph =
     \<lparr>wp_workers = [(7, 1, 1)], wp_tasks = [flood_worker ms release ph], wp_next_generation = 2,
      wp_queue_capacity = 64, wp_shutdown = False, wp_accepted = taken @ ms, wp_taken = taken\<rparr>"

lemma flood_first:
  "pool_dispatch sample_down worker_pool_new = (Queued, flood_pool [] [WM_Event sample_down] False WP_Waiting)"
  by (simp add: pool_dispatch_def numeral_2_eq_2 worker_pool_new_def DEFAULT_QUEUE_CAPACITY_def
      get_or_spawn_def spawn_worker_def find_task_def send_message_def upd_task_def accept_message_def
      flood_pool_def flood_worker_def sample_down_def Let_def)

lemma flood_dispatch:
  assumes "event_id ev = 7"
  shows "pool_dispatch ev (flood_pool taken ms release ph) =
    (if 64 \<le> length (busy ph) + length ms
     then if event_kind ev = KeyUp \<and> \<not> release
          then (ReleaseQueued, flood_pool taken (ms @ [WM_ForcedRelease 7 1]) True ph)
          else (QueueFull, flood_pool taken ms release ph)
     else (Queued, flood_pool taken (ms @ [WM_Event ev]) release ph))"
  using assms
  by (auto simp: pool_dispatch_def numeral_2_eq_2 get_or_spawn_def find_task_def send_message_def
      upd_task_def accept_message_def flood_pool_def flood_worker_def Let_def)

lemma flood_step:
  "pool_reachable (flood_pool taken ms release ph)
   \<Longrightarrow> pool_reachable (snd (pool_dispatch ev (flood_pool taken ms release ph)))"
  by (erule pr_step, rule ps_dispatch) (simp add: flood_pool_def)

lemma flood_downs:
  "n < 64 \<Longrightarrow> pool_reachable (flood_pool [] (replicate (Suc n) (WM_Event sample_down)) False WP_Waiting)"
proof (induction n)
  case 0
  have "pool_step worker_pool_new (snd (pool_dispatch sample_down worker_pool_new))"
    by (rule ps_dispatch) (simp add: worker_pool_new_def)
  then show ?case using pr_step[OF pr_new] flood_first by simp
next
  case (Suc n)
  then have "pool_reachable (flood_pool [] (replicate (Suc n) (WM_Event sample_down)) False WP_Waiting)"
    by simp
  from flood_step[OF this, of sample_down] Suc.prems show ?case
    by (simp add: flood_dispatch sample_down_def replicate_append_same)
qed

lemma flood_acquire:
  assumes "pool_reachable (flood_pool taken ms release WP_Waiting)"
  shows "pool_reachable (flood_pool taken ms release WP_Idle)"
proof -
  let ?p = "flood_pool taken ms release WP_Waiting" and ?t = "flood_worker ms release WP_Waiting"
  have "pool_step ?p (?p\<lparr>wp_tasks := [] @ ?t\<lparr>wk_phase := WP_Idle\<rparr> # []\<rparr>)"
    by (rule ps_acquire) (simp_all add: flood_pool_def flood_worker_def)
  with assms show ?thesis
    using pr_step by (fastforce simp: flood_pool_def flood_worker_def)
qed

lemma flood_process:
  assumes "pool_reachable (flood_pool taken (m # ms) release WP_Idle)" "\<not> is_forced m"
  shows "pool_reachable (flood_pool (taken @ [m]) ms release WP_Idle)"
proof -
  let ?p = "flood_pool taken (m # ms) release WP_Idle" and ?t = "flood_worker (m # ms) release WP_Idle"
  let ?q = "flood_pool (taken @ [m]) ms release (WP_Busy m)" and ?u = "flood_worker ms release (WP_Busy m)"
  have "pool_step ?p (?p\<lparr>wp_tasks := [] @ ?u # [], wp_taken := wp_taken ?p @ taken_by (wk_phase ?t) ?t\<rparr>)"
    by (rule ps_task) (simp_all add: flood_pool_def flood_worker_def)
  with assms(1) have q: "pool_reachable ?q"
    using pr_step by (fastforce simp: flood_pool_def flood_worker_def)
  have "pool_step ?q (?q\<lparr>wp_tasks := [] @ flood_worker ms release WP_Idle # [],
      wp_taken := wp_taken ?q @ taken_by (wk_phase ?u) ?u\<rparr>)"
    by (rule ps_task) (use assms(2) in \<open>simp_all add: flood_pool_def flood_worker_def message_done_def\<close>)
  with q show ?thesis
    using pr_step by (fastforce simp: flood_pool_def flood_worker_def)
qed

text \<open>
  A slow engine: 64 key-downs and the release that followed them are accepted,
  then two messages are handed to the engine.
\<close>

definition slow_queue :: "worker_message list" where
  "slow_queue = replicate 62 (WM_Event sample_down) @ [WM_ForcedRelease 7 1]"

definition slow_pool :: worker_pool where
  "slow_pool = flood_pool (replicate 2 (WM_Event sample_down)) slow_queue True WP_Idle"

lemma slow_pool_reachable: "pool_reachable slow_pool"
proof -
  let ?d = "WM_Event sample_down"
  have "pool_reachable (flood_pool [] (replicate (Suc 63) ?d) False WP_Waiting)"
    by (rule flood_downs) simp
  from flood_step[OF this, of sample_up]
  have "pool_reachable (flood_pool [] (replicate (Suc 63) ?d @ [WM_ForcedRelease 7 1]) True WP_Waiting)"
    by (simp add: flood_dispatch sample_up_def sample_down_def)
  from flood_acquire[OF this]
  have "pool_reachable (flood_pool [] (?d # ?d # slow_queue) True WP_Idle)"
    by (simp add: slow_queue_def eval_nat_numeral(2,3)[of _] numeral_eq_Suc)
  from flood_process[OF flood_process[OF this]]
  show ?thesis by (simp add: slow_pool_def numeral_2_eq_2)
qed

text \<open>
  The forced release is still queued when the key goes down again, so its next
  key-up is dropped: the last message the worker accepted is the key-down.
\<close>

lemma saturated_release_lost:
  "\<exists>p1. pool_reachable slow_pool
      \<and> pool_dispatch sample_down slow_pool = (Queued, p1)
      \<and> pool_dispatch sample_up p1 = (QueueFull, p1)
      \<and> last (wp_accepted p1) = WM_Event sample_down"
  using slow_pool_reachable
  by (simp add: slow_pool_def flood_dispatch sample_down_def sample_up_def slow_queue_def)
    (simp add: flood_pool_def)

lemma worker_pool_ordered_witness:
  "for_id 7 (wp_accepted slow_pool) = for_id 7 (wp_taken slow_pool) @ slow_queue
   \<and> length (processing 7 slow_pool) \<le> 1"
  using worker_pool_ordered[OF slow_pool_reachable, of 7]
  by (simp add: slow_pool_def flood_pool_def flood_worker_def)

lemma worker_pool_saturation_witness:
  "\<exists>t. wk_pending t = length (in_flight t) \<and> wk_pending t \<le> 65 \<and> 64 \<le> wk_pending t"
proof -
  let ?up = "sample_up"
  have d: "pool_dispatch ?up (snd (pool_dispatch sample_down slow_pool))
      = (QueueFull, snd (pool_dispatch sample_down slow_pool))"
    by (simp add: slow_pool_def flood_dispatch sample_down_def sample_up_def slow_queue_def)
  have r: "pool_reachable (snd (pool_dispatch sample_down slow_pool))"
    using slow_pool_reachable unfolding slow_pool_def by (rule flood_step)
  have "unat (wp_next_generation (snd (pool_dispatch sample_down slow_pool))) < 2 ^ 64 - 2"
    by (simp add: slow_pool_def flood_dispatch sample_down_def slow_queue_def) (simp add: flood_pool_def)
  from worker_pool_saturation[OF r this d] show ?thesis by auto
qed

end
