(* ===== verification/Server_Lifecycle.thy ===== *)
theory Server_Lifecycle
  imports Hotkey_Manager Protocol_Types
begin

text \<open>
  The lifecycle of \<open>hotki-server\<close>: shutdown coordination (\<open>shutdown.rs\<close>), the wake
  events (\<open>loop_wake.rs\<close>), the client registry, broadcaster and event pipeline
  (\<open>ipc/service/events\<close>), the service handlers that change them
  (\<open>ipc/service.rs\<close>), the idle timer (\<open>ipc/mod.rs\<close>) and the Tao event loop
  (\<open>server.rs\<close>).  The service runs on a single-threaded runtime and its registry
  lock is never held across an await, so a handler is one step up to its network
  calls; the Tao loop runs on the main thread and takes wake events from its queue.
  Instants are milliseconds.
\<close>

subsection \<open>Shutdown and wake events\<close>

datatype shutdown_reason =
  SR_Rpc | SR_ParentExited | SR_IdleExpired | SR_IpcRuntimeFailed | SR_IpcStopped | SR_EventLoopDestroyed

datatype wake_event = Wake_Shutdown | Wake_ClientConnected | Wake_ClientDisconnected

subsection \<open>The idle timer\<close>

record idle_timer =
  it_timeout_secs :: "64 word"
  it_armed :: bool
  it_deadline_ms :: "64 word"

record idle_snapshot =
  is_timeout_secs :: "64 word"
  is_armed :: bool
  is_deadline_ms :: "64 word option"

definition idle_timer_new :: "64 word \<Rightarrow> idle_timer" where
  "idle_timer_new secs = \<lparr>it_timeout_secs = secs, it_armed = False, it_deadline_ms = 0\<rparr>"

definition idle_timer_snapshot :: "idle_timer \<Rightarrow> idle_snapshot" where
  "idle_timer_snapshot t =
     \<lparr>is_timeout_secs = it_timeout_secs t, is_armed = it_armed t,
      is_deadline_ms = (if it_armed t \<and> 0 < it_deadline_ms t then Some (it_deadline_ms t) else None)\<rparr>"

text \<open>
  \<open>wall\<close> is the system time in milliseconds since the epoch at the call.  Times that
  exceed the platform's \<open>SystemTime\<close> are beyond the model.
\<close>

definition encode_deadline :: "nat \<Rightarrow> nat \<Rightarrow> nat \<Rightarrow> 64 word" where
  "encode_deadline now wall deadline = of_nat (min (2 ^ 64 - 1) (wall + (deadline - now)))"

definition idle_arm :: "nat \<Rightarrow> nat \<Rightarrow> nat \<Rightarrow> idle_timer \<Rightarrow> idle_timer" where
  "idle_arm now wall deadline t =
     t\<lparr>it_deadline_ms := encode_deadline now wall deadline, it_armed := True\<rparr>"

definition idle_disarm :: "idle_timer \<Rightarrow> idle_timer" where
  "idle_disarm t = t\<lparr>it_armed := False, it_deadline_ms := 0\<rparr>"

subsection \<open>The server\<close>

datatype pipeline_lifecycle = PL_Ready | PL_Running | PL_Stopped

datatype control_flow = CF_Wait | CF_WaitUntil nat | CF_Exit

record tao_loop =
  tl_deadline :: "nat option"
  tl_client_disconnected :: bool
  tl_flow :: control_flow
  tl_destroyed :: bool

text \<open>
  A client is its registry id.  \<open>sv_sending\<close> are the notifications in flight and
  \<open>sv_delivered\<close> the ones a client received; \<open>sv_had_client\<close> records that a client
  was ever registered.
\<close>

record server_state =
  sv_shutdown :: bool
  sv_reason :: "shutdown_reason option"
  sv_wake :: "wake_event list"
  sv_idle :: idle_timer
  sv_clients :: "32 word list"
  sv_next_client :: "32 word"
  sv_pipeline :: pipeline_lifecycle
  sv_sending :: "(32 word \<times> msg_to_ui) list"
  sv_delivered :: "(32 word \<times> msg_to_ui) list"
  sv_had_client :: bool
  sv_loop :: tao_loop

definition DEFAULT_IDLE_TIMEOUT_SECS :: "64 word" where "DEFAULT_IDLE_TIMEOUT_SECS = 5"

definition server_new :: "64 word \<Rightarrow> server_state" where
  "server_new secs =
     \<lparr>sv_shutdown = False, sv_reason = None, sv_wake = [], sv_idle = idle_timer_new secs,
      sv_clients = [], sv_next_client = 0, sv_pipeline = PL_Ready, sv_sending = [], sv_delivered = [],
      sv_had_client = False,
      sv_loop = \<lparr>tl_deadline = None, tl_client_disconnected = False, tl_flow = CF_Wait, tl_destroyed = False\<rparr>\<rparr>"

definition post_user_event :: "wake_event \<Rightarrow> server_state \<Rightarrow> server_state" where
  "post_user_event w s = s\<lparr>sv_wake := sv_wake s @ [w]\<rparr>"

definition request_shutdown :: "shutdown_reason \<Rightarrow> server_state \<Rightarrow> bool \<times> server_state" where
  "request_shutdown reason s =
     (let first = \<not> sv_shutdown s
      in (first, post_user_event Wake_Shutdown
            (s\<lparr>sv_shutdown := True, sv_reason := (if first then Some reason else sv_reason s)\<rparr>)))"

subsection \<open>Clients and broadcasts\<close>

definition register_client :: "server_state \<Rightarrow> server_state" where
  "register_client s =
     s\<lparr>sv_clients := sv_clients s @ [sv_next_client s], sv_next_client := sv_next_client s + 1,
       sv_had_client := True\<rparr>"

definition remove_client :: "32 word \<Rightarrow> server_state \<Rightarrow> bool \<times> server_state" where
  "remove_client i s =
     (let had_clients = (sv_clients s \<noteq> []);
          before = length (sv_clients s);
          kept = filter (\<lambda>c. c \<noteq> i) (sv_clients s)
      in (had_clients \<and> length kept < before \<and> kept = [], s\<lparr>sv_clients := kept\<rparr>))"

text \<open>\<open>encodes\<close> is whether the event could be encoded.\<close>

definition broadcast_event :: "msg_to_ui \<Rightarrow> bool \<Rightarrow> server_state \<Rightarrow> server_state" where
  "broadcast_event event encodes s =
     (if sv_shutdown s \<or> \<not> encodes then s
      else s\<lparr>sv_sending := sv_sending s @ map (\<lambda>c. (c, event)) (sv_clients s)\<rparr>)"

definition send_finished :: "nat \<Rightarrow> bool \<Rightarrow> server_state \<Rightarrow> server_state" where
  "send_finished k ok s =
     (if length (sv_sending s) \<le> k then s
      else
        let (i, event) = sv_sending s ! k;
            s = s\<lparr>sv_sending := take k (sv_sending s) @ drop (Suc k) (sv_sending s)\<rparr>
        in if ok then s\<lparr>sv_delivered := sv_delivered s @ [(i, event)]\<rparr>
           else let (emptied, s) = remove_client i s
                in if emptied then post_user_event Wake_ClientDisconnected s else s)"

subsection \<open>The event pipeline and the service\<close>

definition pipeline_start :: "server_state \<Rightarrow> bool \<times> server_state" where
  "pipeline_start s =
     (case sv_pipeline s of
        PL_Ready \<Rightarrow> (True, s\<lparr>sv_pipeline := PL_Running\<rparr>)
      | _ \<Rightarrow> (False, s))"

definition pipeline_shutdown :: "server_state \<Rightarrow> server_state" where
  "pipeline_shutdown s = s\<lparr>sv_clients := [], sv_pipeline := PL_Stopped\<rparr>"

text \<open>
  \<open>connected\<close>.  The first use of the engine starts the pipeline; as only clients
  use the engine before one has connected, it is started here or already was.
\<close>

definition service_connected :: "server_state \<Rightarrow> bool \<times> server_state" where
  "service_connected s =
     (if sv_shutdown s then (False, s)
      else (True, post_user_event Wake_ClientConnected (snd (pipeline_start (register_client s)))))"

definition handle_shutdown_request :: "server_state \<Rightarrow> server_state" where
  "handle_shutdown_request s = pipeline_shutdown (snd (request_shutdown SR_Rpc s))"

text \<open>The IPC server ended: its pipeline is stopped, then the thread asks for shutdown.\<close>

definition ipc_stopped :: "server_state \<Rightarrow> server_state" where
  "ipc_stopped s = snd (request_shutdown SR_IpcStopped (pipeline_shutdown s))"

text \<open>Input health as the protocol shows it.\<close>

definition input_health_of :: "manager_status \<Rightarrow> input_health" where
  "input_health_of status =
     (let mode = (case tap_mode status of Physical \<Rightarrow> HTM_Physical | InjectionOnly \<Rightarrow> HTM_InjectionOnly);
          lifecycle = (case tap_lifecycle status of
              Starting \<Rightarrow> HTL_Starting | Running \<Rightarrow> HTL_Running | Stopped \<Rightarrow> HTL_Stopped);
          secure = (case secure_input status of
              SecureUnknown \<Rightarrow> HSI_Unknown | SecureInactive \<Rightarrow> HSI_Inactive | SecureActive \<Rightarrow> HSI_Active);
          blocked = (secure = HSI_Active \<and> mode = HTM_Physical \<and> lifecycle = HTL_Running
              \<and> 0 < registered_hotkeys status)
      in \<lparr>ih_tap_mode = mode, ih_tap_lifecycle = lifecycle, ih_secure_input = secure,
          ih_secure_input_owner =
            map_option (\<lambda>owner. \<lparr>ho_pid = owner_pid owner, ho_app_name = owner_app_name owner\<rparr>)
              (secure_input_owner status),
          ih_blocked = blocked, ih_registered_hotkeys = registered_hotkeys status,
          ih_physical_event_count = physical_event_count status,
          ih_physical_event_age_ms = physical_event_age_ms status,
          ih_os_disable_count = os_disable_count status, ih_os_reenable_count = os_reenable_count status,
          ih_observed_at_ms = observed_at_ms status, ih_server_pid = server_pid status\<rparr>)"

subsection \<open>The Tao event loop\<close>

datatype tao_event = Tao_User wake_event | Tao_Other | Tao_LoopDestroyed

definition upd_loop :: "(tao_loop \<Rightarrow> tao_loop) \<Rightarrow> server_state \<Rightarrow> server_state" where
  "upd_loop f s = s\<lparr>sv_loop := f (sv_loop s)\<rparr>"

definition request_idle_shutdown_if_due :: "nat \<Rightarrow> nat \<Rightarrow> server_state \<Rightarrow> bool \<times> server_state" where
  "request_idle_shutdown_if_due deadline now s =
     (if now < deadline then (False, s) else (True, snd (request_shutdown SR_IdleExpired s)))"

text \<open>The idle block of the loop; the result says whether the iteration ends there.\<close>

definition idle_block :: "nat \<Rightarrow> nat \<Rightarrow> server_state \<Rightarrow> bool \<times> server_state" where
  "idle_block now wall s =
     (if tl_client_disconnected (sv_loop s) then
        (case tl_deadline (sv_loop s) of
           None \<Rightarrow>
             let deadline = now + unat (it_timeout_secs (sv_idle s)) * 1000
             in (False, upd_loop (\<lambda>l. l\<lparr>tl_deadline := Some deadline, tl_flow := CF_WaitUntil deadline\<rparr>)
                    (s\<lparr>sv_idle := idle_arm now wall deadline (sv_idle s)\<rparr>))
         | Some deadline \<Rightarrow>
             let (due, s) = request_idle_shutdown_if_due deadline now s
             in (due, upd_loop (\<lambda>l. l\<lparr>tl_flow := (if due then CF_Exit else CF_WaitUntil deadline)\<rparr>) s))
      else
        (False, upd_loop (\<lambda>l. l\<lparr>tl_deadline := None\<rparr>)
           (if tl_deadline (sv_loop s) \<noteq> None then s\<lparr>sv_idle := idle_disarm (sv_idle s)\<rparr> else s)))"

fun user_event :: "tao_event \<Rightarrow> server_state \<Rightarrow> server_state" where
  "user_event (Tao_User Wake_ClientConnected) s =
     (if tl_client_disconnected (sv_loop s)
      then upd_loop (\<lambda>l. l\<lparr>tl_client_disconnected := False, tl_deadline := None\<rparr>)
             (s\<lparr>sv_idle := idle_disarm (sv_idle s)\<rparr>)
      else s)"
| "user_event (Tao_User Wake_ClientDisconnected) s =
     upd_loop (\<lambda>l. l\<lparr>tl_client_disconnected := True\<rparr>) s"
| "user_event _ s = s"

definition tao_handle :: "tao_event \<Rightarrow> nat \<Rightarrow> nat \<Rightarrow> server_state \<Rightarrow> server_state" where
  "tao_handle event now wall s =
     (let s = upd_loop (\<lambda>l. l\<lparr>tl_flow := CF_Wait\<rparr>) s
      in if event = Tao_LoopDestroyed then
           (let s = snd (request_shutdown SR_EventLoopDestroyed s)
            in upd_loop (\<lambda>l. l\<lparr>tl_destroyed := True\<rparr>) (s\<lparr>sv_idle := idle_disarm (sv_idle s)\<rparr>))
         else if sv_shutdown s then upd_loop (\<lambda>l. l\<lparr>tl_flow := CF_Exit\<rparr>) s
         else let (exiting, s) = idle_block now wall s
              in if exiting then s else user_event event s)"

subsection \<open>Interleavings\<close>

text \<open>
  What can happen: a client connects, an event of the pipeline is broadcast, a
  notification succeeds or fails, shutdown is requested over RPC or because the
  parent process is gone, the IPC server ends, and the main loop handles a queued
  wake event, an event of its own, or its end.  Loop events carry the instant and
  the wall time at which they are handled.
\<close>

datatype server_input =
    SI_Connected
  | SI_Broadcast msg_to_ui bool
  | SI_SendFinished nat bool
  | SI_ShutdownRpc
  | SI_ParentExited
  | SI_IpcStopped
  | SI_Wake nat nat
  | SI_LoopEvent nat nat
  | SI_LoopDestroyed

fun server_do :: "server_input \<Rightarrow> server_state \<Rightarrow> server_state" where
  "server_do SI_Connected s = snd (service_connected s)"
| "server_do (SI_Broadcast event encodes) s =
     (if sv_pipeline s = PL_Running then broadcast_event event encodes s else s)"
| "server_do (SI_SendFinished k ok) s = send_finished k ok s"
| "server_do SI_ShutdownRpc s = handle_shutdown_request s"
| "server_do SI_ParentExited s = snd (request_shutdown SR_ParentExited s)"
| "server_do SI_IpcStopped s = ipc_stopped s"
| "server_do (SI_Wake now wall) s =
     (case sv_wake s of
        [] \<Rightarrow> s
      | w # ws \<Rightarrow> tao_handle (Tao_User w) now wall (s\<lparr>sv_wake := ws\<rparr>))"
| "server_do (SI_LoopEvent now wall) s = tao_handle Tao_Other now wall s"
| "server_do SI_LoopDestroyed s = tao_handle Tao_LoopDestroyed 0 0 s"

definition server_run :: "server_input list \<Rightarrow> server_state \<Rightarrow> server_state" where
  "server_run inputs s = fold server_do inputs s"

subsection \<open>The idle timer follows the clients\<close>

text \<open>Whether the loop will consider the server without clients once its queue is processed.\<close>

definition will_be_idle :: "server_state \<Rightarrow> bool" where
  "will_be_idle s =
     fold (\<lambda>w d. case w of Wake_ClientConnected \<Rightarrow> False | Wake_ClientDisconnected \<Rightarrow> True | Wake_Shutdown \<Rightarrow> d)
       (sv_wake s) (tl_client_disconnected (sv_loop s))"

definition server_inv :: "nat \<Rightarrow> server_state \<Rightarrow> bool" where
  "server_inv t s \<longleftrightarrow> sv_shutdown s \<or>
     (sv_pipeline s \<noteq> PL_Stopped
      \<and> (will_be_idle s \<longleftrightarrow> sv_had_client s \<and> sv_clients s = [])
      \<and> (sv_clients s \<noteq> [] \<longrightarrow> sv_had_client s)
      \<and> (it_armed (sv_idle s) \<longleftrightarrow> tl_deadline (sv_loop s) \<noteq> None)
      \<and> (tl_deadline (sv_loop s) \<noteq> None \<longrightarrow> tl_client_disconnected (sv_loop s))
      \<and> (\<forall>w. tl_deadline (sv_loop s) = Some w \<longrightarrow> w \<le> t + unat (it_timeout_secs (sv_idle s)) * 1000))"

lemmas server_defs = post_user_event_def request_shutdown_def register_client_def remove_client_def
  broadcast_event_def pipeline_start_def pipeline_shutdown_def upd_loop_def Let_def

lemma request_shutdown_stops [simp]: "sv_shutdown (snd (request_shutdown r s))"
  by (simp add: server_defs)

lemma server_inv_stopped: "sv_shutdown s \<Longrightarrow> server_inv t s"
  by (simp add: server_inv_def)

lemma service_connected_inv:
  assumes "server_inv t s"
  shows "server_inv t (snd (service_connected s))"
  using assms by (auto simp: service_connected_def server_inv_def will_be_idle_def server_defs
      split: pipeline_lifecycle.split)

lemma send_finished_inv:
  assumes "server_inv t s"
  shows "server_inv t (send_finished k ok s)"
proof -
  obtain i event where k: "sv_sending s ! k = (i, event)" by fastforce
  have "filter (\<lambda>c. c \<noteq> i) (sv_clients s) = [] \<Longrightarrow> sv_clients s \<noteq> []
      \<Longrightarrow> length (filter (\<lambda>c. c \<noteq> i) (sv_clients s)) < length (sv_clients s)" by simp
  then show ?thesis using assms
    by (auto simp: send_finished_def k server_inv_def will_be_idle_def server_defs)
qed

lemma idle_block_inv:
  assumes "server_inv t s" and "idle_block now wall s = (exiting, s')" and "now \<le> t" and "\<not> sv_shutdown s"
  shows "server_inv t s'" "exiting \<longleftrightarrow> sv_shutdown s'" "sv_wake s' = sv_wake s \<or> exiting"
    "tl_client_disconnected (sv_loop s') = tl_client_disconnected (sv_loop s)"
  using assms
  by (auto simp: idle_block_def request_idle_shutdown_if_due_def idle_arm_def idle_disarm_def server_inv_def
      will_be_idle_def server_defs split: if_splits option.splits)

lemma user_event_inv:
  assumes "server_inv t (s\<lparr>sv_wake := w # sv_wake s\<rparr>)"
  shows "server_inv t (user_event (Tao_User w) s)"
  using assms by (cases w) (auto simp: server_inv_def will_be_idle_def upd_loop_def idle_disarm_def)

lemma idle_block_wake:
  assumes "idle_block now wall (s\<lparr>sv_wake := ws\<rparr>) = (False, s')"
  shows "idle_block now wall s = (False, s'\<lparr>sv_wake := sv_wake s\<rparr>)" "sv_wake s' = ws"
  using assms by (auto simp: idle_block_def request_idle_shutdown_if_due_def server_defs
      split: if_splits option.splits)

lemma server_inv_flow [simp]: "server_inv t (upd_loop (\<lambda>l. l\<lparr>tl_flow := f\<rparr>) s) = server_inv t s"
  by (simp add: server_inv_def will_be_idle_def upd_loop_def)

lemma tao_wake_inv:
  assumes inv: "server_inv t s" and wake: "sv_wake s = w # ws" and now: "now \<le> t"
  shows "server_inv t (tao_handle (Tao_User w) now wall (s\<lparr>sv_wake := ws\<rparr>))"
proof (cases "sv_shutdown s")
  case True
  then show ?thesis by (simp add: tao_handle_def server_inv_stopped upd_loop_def)
next
  case False
  let ?s0 = "upd_loop (\<lambda>l. l\<lparr>tl_flow := CF_Wait\<rparr>) s"
  have s1: "upd_loop (\<lambda>l. l\<lparr>tl_flow := CF_Wait\<rparr>) (s\<lparr>sv_wake := ws\<rparr>) = ?s0\<lparr>sv_wake := ws\<rparr>"
    by (simp add: upd_loop_def)
  have live: "\<not> sv_shutdown ?s0" "sv_wake ?s0 = w # ws" using False wake by (simp_all add: upd_loop_def)
  obtain ex s2 where b: "idle_block now wall (?s0\<lparr>sv_wake := ws\<rparr>) = (ex, s2)" by fastforce
  have "server_inv t (if ex then s2 else user_event (Tao_User w) s2)"
  proof (cases ex)
    case True
    then have "sv_shutdown s2" using b by (auto simp: idle_block_def request_idle_shutdown_if_due_def server_defs
          split: if_splits option.splits)
    then show ?thesis using True by (simp add: server_inv_stopped)
  next
    case False
    have b0: "idle_block now wall ?s0 = (False, s2\<lparr>sv_wake := w # ws\<rparr>)" "sv_wake s2 = ws"
      using idle_block_wake[where s = ?s0 and ws = ws and s' = s2] b live False by simp_all
    have "server_inv t (s2\<lparr>sv_wake := w # sv_wake s2\<rparr>)"
      using idle_block_inv(1)[OF _ b0(1) now live(1)] inv b0(2) by simp
    then show ?thesis using False user_event_inv by simp
  qed
  then show ?thesis using False b live by (simp add: tao_handle_def s1)
qed

lemma tao_other_inv:
  assumes inv: "server_inv t s" and now: "now \<le> t"
  shows "server_inv t (tao_handle Tao_Other now wall s)"
proof (cases "sv_shutdown s")
  case True
  then show ?thesis by (simp add: tao_handle_def server_inv_stopped upd_loop_def)
next
  case False
  let ?s0 = "upd_loop (\<lambda>l. l\<lparr>tl_flow := CF_Wait\<rparr>) s"
  obtain ex s2 where b: "idle_block now wall ?s0 = (ex, s2)" by fastforce
  have live: "\<not> sv_shutdown ?s0" using False by (simp add: upd_loop_def)
  have "server_inv t s2" using idle_block_inv(1)[OF _ b now live] inv by simp
  then show ?thesis using b live by (simp add: tao_handle_def)
qed

fun input_time :: "server_input \<Rightarrow> nat" where
  "input_time (SI_Wake now wall) = now"
| "input_time (SI_LoopEvent now wall) = now"
| "input_time _ = 0"

lemma server_do_inv:
  assumes "server_inv t s" and "input_time i \<le> t"
  shows "server_inv t (server_do i s)"
proof (cases i)
  case (SI_Wake now wall)
  then show ?thesis using assms tao_wake_inv[of t s] by (cases "sv_wake s") simp_all
next
  case (SI_LoopEvent now wall)
  then show ?thesis using assms tao_other_inv by simp
next
  case SI_Connected
  then show ?thesis using assms(1) service_connected_inv by simp
next
  case (SI_SendFinished k ok)
  then show ?thesis using assms(1) send_finished_inv by simp
next
  case (SI_Broadcast event encodes)
  then show ?thesis using assms(1) by (auto simp: server_inv_def will_be_idle_def broadcast_event_def)
next
  case SI_LoopDestroyed
  have "sv_shutdown (server_do i s)" by (simp add: SI_LoopDestroyed tao_handle_def server_defs)
  then show ?thesis by (rule server_inv_stopped)
qed (simp_all add: server_inv_stopped handle_shutdown_request_def ipc_stopped_def server_defs)

lemma server_do_frame:
  "it_timeout_secs (sv_idle (server_do i s)) = it_timeout_secs (sv_idle s)"
  by (cases i; cases "hd (sv_wake s)")
    (auto simp: service_connected_def send_finished_def handle_shutdown_request_def ipc_stopped_def tao_handle_def
      idle_block_def request_idle_shutdown_if_due_def idle_arm_def idle_disarm_def server_defs
      split: pipeline_lifecycle.splits prod.splits list.splits option.splits)

lemma server_new_inv: "server_inv t (server_new secs)"
  by (simp add: server_new_def server_inv_def will_be_idle_def idle_timer_new_def)

lemma server_run_inv:
  assumes "list_all (\<lambda>i. input_time i \<le> t) inputs" "server_inv t s"
  shows "server_inv t (server_run inputs s)"
  using assms by (induction inputs arbitrary: s) (simp_all add: server_run_def server_do_inv)

lemma server_run_timeout:
  "it_timeout_secs (sv_idle (server_run inputs s)) = it_timeout_secs (sv_idle s)"
  by (induction inputs arbitrary: s) (simp_all add: server_run_def server_do_frame)

text \<open>A queued wake event that does not end the loop leaves the queue and the clients alone.\<close>

lemma wake_step:
  assumes "\<not> sv_shutdown s" "sv_wake s = w # ws"
  shows "sv_shutdown (server_do (SI_Wake now wall) s)
    \<or> sv_wake (server_do (SI_Wake now wall) s) = ws
      \<and> sv_clients (server_do (SI_Wake now wall) s) = sv_clients s
      \<and> sv_had_client (server_do (SI_Wake now wall) s) = sv_had_client s"
  using assms by (cases w) (auto simp: tao_handle_def idle_block_def request_idle_shutdown_if_due_def server_defs
      split: option.splits if_splits)

lemma tao_shutdown:
  assumes "sv_shutdown s"
  shows "sv_shutdown (server_do (SI_Wake now wall) s)" "sv_shutdown (server_do (SI_LoopEvent now wall) s)"
    "tl_flow (sv_loop (server_do (SI_LoopEvent now wall) s)) = CF_Exit"
  using assms by (auto simp: tao_handle_def server_defs split: list.split)

lemma wakes_shutdown: "sv_shutdown s \<Longrightarrow> sv_shutdown (server_run (replicate n (SI_Wake now wall)) s)"
  by (induction n arbitrary: s) (simp_all add: server_run_def tao_shutdown del: server_do.simps)

lemma wakes_drain:
  assumes "server_inv t s" "now \<le> t" "n = length (sv_wake s)"
  shows "sv_shutdown (server_run (replicate n (SI_Wake now wall)) s)
    \<or> sv_wake (server_run (replicate n (SI_Wake now wall)) s) = []
      \<and> sv_clients (server_run (replicate n (SI_Wake now wall)) s) = sv_clients s
      \<and> sv_had_client (server_run (replicate n (SI_Wake now wall)) s) = sv_had_client s"
  using assms
proof (induction n arbitrary: s)
  case 0
  then show ?case by (simp add: server_run_def)
next
  case (Suc n)
  then obtain w ws where w: "sv_wake s = w # ws" "n = length ws" by (cases "sv_wake s") auto
  let ?s1 = "server_do (SI_Wake now wall) s"
  have run: "server_run (replicate (Suc n) (SI_Wake now wall)) s = server_run (replicate n (SI_Wake now wall)) ?s1"
    by (simp add: server_run_def del: server_do.simps)
  show ?case
  proof (cases "sv_shutdown s \<or> sv_shutdown ?s1")
    case True
    then show ?thesis unfolding run using wakes_shutdown tao_shutdown(1) by blast
  next
    case False
    then have s1: "sv_wake ?s1 = ws" "sv_clients ?s1 = sv_clients s" "sv_had_client ?s1 = sv_had_client s"
      using wake_step[OF _ w(1), of now wall] by blast+
    have "server_inv t ?s1" using server_do_inv[OF Suc.prems(1), of "SI_Wake now wall"] Suc.prems(2) by simp
    from Suc.IH[OF this Suc.prems(2)] show ?thesis unfolding run using s1 w(2) by simp
  qed
qed

lemma loop_due:
  assumes "\<not> sv_shutdown s" "tl_client_disconnected (sv_loop s)" "tl_deadline (sv_loop s) = Some d" "d \<le> now"
  shows "sv_shutdown (server_do (SI_LoopEvent now wall) s)
    \<and> tl_flow (sv_loop (server_do (SI_LoopEvent now wall) s)) = CF_Exit"
  using assms by (simp add: tao_handle_def idle_block_def request_idle_shutdown_if_due_def server_defs)

lemma idle_loop_exits:
  assumes inv: "server_inv t1 s" and idle: "sv_shutdown s \<or> tl_client_disconnected (sv_loop s)"
    and t2: "t1 + unat (it_timeout_secs (sv_idle s)) * 1000 \<le> t2"
  shows "sv_shutdown (server_run [SI_LoopEvent t1 w, SI_LoopEvent t2 w] s)
    \<and> tl_flow (sv_loop (server_run [SI_LoopEvent t1 w, SI_LoopEvent t2 w] s)) = CF_Exit"
proof (cases "sv_shutdown (server_do (SI_LoopEvent t1 w) s)")
  case True
  then show ?thesis by (simp add: server_run_def tao_shutdown del: server_do.simps)
next
  case False
  let ?s1 = "server_do (SI_LoopEvent t1 w) s"
  have "\<not> sv_shutdown s" using False tao_shutdown(2) by blast
  then have "tl_client_disconnected (sv_loop ?s1)" "tl_deadline (sv_loop ?s1) \<noteq> None"
    using idle False by (auto simp: tao_handle_def idle_block_def request_idle_shutdown_if_due_def server_defs
        split: option.splits if_splits)
  moreover have "server_inv t1 ?s1" using server_do_inv[OF inv, of "SI_LoopEvent t1 w"] by simp
  moreover have "it_timeout_secs (sv_idle ?s1) = it_timeout_secs (sv_idle s)" by (rule server_do_frame)
  ultimately obtain d where "tl_deadline (sv_loop ?s1) = Some d" "d \<le> t2" "tl_client_disconnected (sv_loop ?s1)"
    using False t2 by (fastforce simp: server_inv_def simp del: server_do.simps)
  then show ?thesis using False loop_due[of ?s1 d t2 w] by (simp add: server_run_def del: server_do.simps)
qed

text \<open>
  C33: The idle timer follows the clients.  In every interleaving of connections, lost
  connections, broadcasts and main-loop iterations, while no shutdown was requested:
  once its queued wake events are handled the loop considers the server idle exactly
  when it had clients and has none left; the timer shown to status requests is armed
  exactly while the loop has a deadline; and a deadline exists only when no client is
  registered, or one has just connected and its wake event is still queued.
\<close>
theorem idle_timer_tracks_clients:
  assumes "s = server_run inputs (server_new secs)" and "\<not> sv_shutdown s"
  shows "(will_be_idle s \<longleftrightarrow> sv_had_client s \<and> sv_clients s = [])
    \<and> (is_armed (idle_timer_snapshot (sv_idle s)) \<longleftrightarrow> tl_deadline (sv_loop s) \<noteq> None)
    \<and> (tl_deadline (sv_loop s) \<noteq> None \<longrightarrow> sv_clients s = [] \<or> Wake_ClientConnected \<in> set (sv_wake s))"
proof -
  have "list_all (\<lambda>i. input_time i \<le> Max (set (0 # map input_time inputs))) inputs"
    by (simp add: list_all_iff)
  then have inv: "server_inv (Max (set (0 # map input_time inputs))) s"
    unfolding assms(1) by (rule server_run_inv[OF _ server_new_inv])
  have keep: "fold (\<lambda>w d. case w of Wake_ClientConnected \<Rightarrow> False | Wake_ClientDisconnected \<Rightarrow> True
      | Wake_Shutdown \<Rightarrow> d) ws True" if "Wake_ClientConnected \<notin> set ws" for ws
    using that by (induction ws) (auto split: wake_event.split)
  have "sv_clients s = []" if "tl_deadline (sv_loop s) \<noteq> None" "Wake_ClientConnected \<notin> set (sv_wake s)"
    using inv assms(2) that keep[OF that(2)] by (auto simp: server_inv_def will_be_idle_def)
  then show ?thesis using inv assms(2) by (auto simp: server_inv_def idle_timer_snapshot_def)
qed

text \<open>
  C34: An idle server ends.  Whatever happened before, once the server had clients and
  has none, the main loop, handling its queued wake events and then one event of its
  own, and one more at the end of the idle timeout, has requested shutdown and exits.
\<close>
theorem idle_server_exits:
  assumes s: "s = server_run inputs (server_new secs)" and past: "list_all (\<lambda>i. input_time i \<le> t1) inputs"
    and idle: "sv_had_client s" "sv_clients s = []" and t2: "t1 + unat secs * 1000 \<le> t2"
  shows "sv_shutdown (server_run (replicate (length (sv_wake s)) (SI_Wake t1 w) @ [SI_LoopEvent t1 w, SI_LoopEvent t2 w]) s)
    \<and> tl_flow (sv_loop (server_run
        (replicate (length (sv_wake s)) (SI_Wake t1 w) @ [SI_LoopEvent t1 w, SI_LoopEvent t2 w]) s)) = CF_Exit"
proof -
  have inv: "server_inv t1 s" unfolding s by (rule server_run_inv[OF past server_new_inv])
  let ?d = "server_run (replicate (length (sv_wake s)) (SI_Wake t1 w)) s"
  have d: "server_inv t1 ?d" by (rule server_run_inv[OF _ inv]) (simp add: list_all_iff)
  have "sv_shutdown ?d \<or> tl_client_disconnected (sv_loop ?d)"
    using wakes_drain[OF inv order_refl refl, of w] d idle by (auto simp: server_inv_def will_be_idle_def)
  moreover have "it_timeout_secs (sv_idle ?d) = secs"
    by (simp add: server_run_timeout s server_new_def idle_timer_new_def)
  ultimately show ?thesis using idle_loop_exits[OF d, of t2 w] t2 by (simp add: server_run_def)
qed

lemma idle_timer_tracks_clients_witness:
  "tl_deadline (sv_loop (server_run [SI_Connected, SI_Wake 0 0] (server_new 5))) = None"
proof -
  let ?s = "server_run [SI_Connected, SI_Wake 0 0] (server_new 5)"
  have "\<not> sv_shutdown ?s" "sv_clients ?s = [0]" "sv_wake ?s = []"
    by (simp_all add: server_run_def server_new_def service_connected_def tao_handle_def idle_block_def server_defs)
  then show ?thesis using idle_timer_tracks_clients[OF refl, of "[SI_Connected, SI_Wake 0 0]" 5] by simp
qed

lemma idle_server_exits_witness:
  "sv_shutdown (server_run [SI_Wake 10 0, SI_Wake 10 0, SI_LoopEvent 10 0, SI_LoopEvent 5010 0]
     (server_run [SI_Connected, SI_Broadcast ClearNotifications True, SI_SendFinished 0 False] (server_new 5)))"
proof -
  let ?i = "[SI_Connected, SI_Broadcast ClearNotifications True, SI_SendFinished 0 False]"
  have "sv_had_client (server_run ?i (server_new 5))" "sv_clients (server_run ?i (server_new 5)) = []"
    "length (sv_wake (server_run ?i (server_new 5))) = 2"
    by (simp_all add: server_run_def server_new_def service_connected_def send_finished_def server_defs)
  then show ?thesis using idle_server_exits[OF refl, of 10 ?i 5 5010 0] by (simp add: numeral_2_eq_2)
qed

end
