(* ===== verification/Rpc_Protocol.thy ===== *)
theory Rpc_Protocol
  imports Protocol_Types
begin

text \<open>
  The typed RPC vocabulary of \<open>hotki-protocol/src/rpc.rs\<close>: error codes, failures
  and their service-error envelope, method names, status payloads and injection
  requests.  The MRPC value type is the part of it that the code distinguishes: a
  string value holds UTF-8 text or other bytes, and \<open>V_Other\<close> stands for the
  variants that no code here inspects.
\<close>

subsection \<open>MRPC values and errors\<close>

datatype rpc_value =
    V_Nil
  | V_Boolean bool
  | V_Integer int
  | V_String string
  | V_NonUtf8 "8 word list"
  | V_Binary "8 word list"
  | V_Array "rpc_value list"
  | V_Map "(rpc_value \<times> rpc_value) list"
  | V_Other string

fun value_as_str :: "rpc_value \<Rightarrow> string option" where
  "value_as_str (V_String s) = Some s"
| "value_as_str _ = None"

record service_error =
  se_name :: string
  se_value :: rpc_value

text \<open>\<open>Transport\<close> stands for every other MRPC error, with its display text.\<close>

datatype rpc_error = Service service_error | Transport string

subsection \<open>Error codes\<close>

datatype rpc_error_code =
    EC_ShuttingDown | EC_MissingParams | EC_InvalidType | EC_InvalidConfig | EC_MethodNotFound
  | EC_EngineSetConfig | EC_KeyNotBound | EC_EngineDispatch

primrec error_code_str :: "rpc_error_code \<Rightarrow> string" where
  "error_code_str EC_ShuttingDown = ''ShuttingDown''"
| "error_code_str EC_MissingParams = ''MissingParams''"
| "error_code_str EC_InvalidType = ''InvalidType''"
| "error_code_str EC_InvalidConfig = ''InvalidConfig''"
| "error_code_str EC_MethodNotFound = ''MethodNotFound''"
| "error_code_str EC_EngineSetConfig = ''EngineSetConfig''"
| "error_code_str EC_KeyNotBound = ''KeyNotBound''"
| "error_code_str EC_EngineDispatch = ''EngineDispatch''"

definition from_service_name :: "string \<Rightarrow> rpc_error_code option" where
  "from_service_name name =
     (if name = ''ShuttingDown'' then Some EC_ShuttingDown
      else if name = ''MissingParams'' then Some EC_MissingParams
      else if name = ''InvalidType'' then Some EC_InvalidType
      else if name = ''InvalidConfig'' then Some EC_InvalidConfig
      else if name = ''MethodNotFound'' then Some EC_MethodNotFound
      else if name = ''EngineSetConfig'' then Some EC_EngineSetConfig
      else if name = ''KeyNotBound'' then Some EC_KeyNotBound
      else if name = ''EngineDispatch'' then Some EC_EngineDispatch
      else None)"

subsection \<open>Failures\<close>

record rpc_error_fields =
  rf_method :: "string option"
  rf_expected :: "string option"
  rf_ident :: "string option"

record rpc_failure =
  fl_code :: rpc_error_code
  fl_message :: string
  fl_fields :: rpc_error_fields

definition rpc_error_fields_default :: rpc_error_fields where
  "rpc_error_fields_default = \<lparr>rf_method = None, rf_expected = None, rf_ident = None\<rparr>"

definition rpc_failure_new :: "rpc_error_code \<Rightarrow> string \<Rightarrow> rpc_failure" where
  "rpc_failure_new code message =
     \<lparr>fl_code = code, fl_message = message, fl_fields = rpc_error_fields_default\<rparr>"

definition with_method :: "string \<Rightarrow> rpc_failure \<Rightarrow> rpc_failure" where
  "with_method method f = f\<lparr>fl_fields := (fl_fields f)\<lparr>rf_method := Some method\<rparr>\<rparr>"

definition with_expected :: "string \<Rightarrow> rpc_failure \<Rightarrow> rpc_failure" where
  "with_expected expected f = f\<lparr>fl_fields := (fl_fields f)\<lparr>rf_expected := Some expected\<rparr>\<rparr>"

definition with_ident :: "string \<Rightarrow> rpc_failure \<Rightarrow> rpc_failure" where
  "with_ident ident f = f\<lparr>fl_fields := (fl_fields f)\<lparr>rf_ident := Some ident\<rparr>\<rparr>"

definition rpc_failure_string :: "rpc_failure \<Rightarrow> string" where
  "rpc_failure_string f = ''service error '' @ error_code_str (fl_code f) @ '': '' @ fl_message f"

datatype rpc_decode_error =
  UnknownCode string | PayloadType | MissingMessage | FieldType string | FieldsType

primrec rpc_decode_error_string :: "rpc_decode_error \<Rightarrow> string" where
  "rpc_decode_error_string (UnknownCode name) = ''unknown RPC error code '' @ [CHR 0x27] @ name @ [CHR 0x27]"
| "rpc_decode_error_string PayloadType = ''RPC error payload must be a map''"
| "rpc_decode_error_string MissingMessage = ''RPC error payload is missing message''"
| "rpc_decode_error_string (FieldType name) =
     ''RPC error payload field '' @ [CHR 0x27] @ name @ [CHR 0x27] @ '' must be a UTF-8 string''"
| "rpc_decode_error_string FieldsType = ''RPC error payload fields must be a map''"

subsection \<open>The service-error envelope\<close>

definition push_string_field ::
    "(rpc_value \<times> rpc_value) list \<Rightarrow> string \<Rightarrow> string option \<Rightarrow> (rpc_value \<times> rpc_value) list" where
  "push_string_field flds name value =
     (case value of Some v \<Rightarrow> flds @ [(V_String name, V_String v)] | None \<Rightarrow> flds)"

definition encode_rpc_failure :: "rpc_failure \<Rightarrow> rpc_error" where
  "encode_rpc_failure f =
     (let flds = push_string_field [] ''method'' (rf_method (fl_fields f));
          flds = push_string_field flds ''expected'' (rf_expected (fl_fields f));
          flds = push_string_field flds ''ident'' (rf_ident (fl_fields f))
      in Service \<lparr>se_name = error_code_str (fl_code f),
           se_value = V_Map [(V_String ''message'', V_String (fl_message f)), (V_String ''fields'', V_Map flds)]\<rparr>)"

definition map_value :: "(rpc_value \<times> rpc_value) list \<Rightarrow> string \<Rightarrow> rpc_value option" where
  "map_value m name = map_option snd (find (\<lambda>(key, _). value_as_str key = Some name) m)"

definition required_string ::
    "(rpc_value \<times> rpc_value) list \<Rightarrow> string \<Rightarrow> rpc_decode_error + string" where
  "required_string m name =
     (case map_value m name of
        Some value \<Rightarrow> (case value_as_str value of Some s \<Rightarrow> Ok s | None \<Rightarrow> Err (FieldType name))
      | None \<Rightarrow> if name = ''message'' then Err MissingMessage else Err (FieldType name))"

definition optional_string ::
    "(rpc_value \<times> rpc_value) list \<Rightarrow> string \<Rightarrow> rpc_decode_error + string option" where
  "optional_string m name =
     (case map_value m name of
        None \<Rightarrow> Ok None
      | Some value \<Rightarrow> (case value_as_str value of Some s \<Rightarrow> Ok (Some s) | None \<Rightarrow> Err (FieldType name)))"

text \<open>The \<open>?\<close> operator on results.\<close>

definition rbind :: "'e + 'a \<Rightarrow> ('a \<Rightarrow> 'e + 'b) \<Rightarrow> 'e + 'b" where
  "rbind r f = (case r of Inl e \<Rightarrow> Err e | Inr x \<Rightarrow> f x)"

definition map_err :: "('e \<Rightarrow> 'f) \<Rightarrow> 'e + 'a \<Rightarrow> 'f + 'a" where
  "map_err f r = (case r of Inl e \<Rightarrow> Err (f e) | Inr x \<Rightarrow> Ok x)"

definition decode_rpc_fields :: "(rpc_value \<times> rpc_value) list \<Rightarrow> rpc_decode_error + rpc_error_fields" where
  "decode_rpc_fields payload =
     (case map_value payload ''fields'' of
        None \<Rightarrow> Ok rpc_error_fields_default
      | Some (V_Map flds) \<Rightarrow>
          rbind (optional_string flds ''method'') (\<lambda>method.
          rbind (optional_string flds ''expected'') (\<lambda>expected.
          rbind (optional_string flds ''ident'') (\<lambda>ident.
            Ok \<lparr>rf_method = method, rf_expected = expected, rf_ident = ident\<rparr>)))
      | Some _ \<Rightarrow> Err FieldsType)"

definition decode_rpc_failure :: "service_error \<Rightarrow> rpc_decode_error + rpc_failure" where
  "decode_rpc_failure service =
     (case from_service_name (se_name service) of
        None \<Rightarrow> Err (UnknownCode (se_name service))
      | Some code \<Rightarrow>
          (case se_value service of
             V_Map payload \<Rightarrow>
               rbind (required_string payload ''message'') (\<lambda>message.
               rbind (decode_rpc_fields payload) (\<lambda>flds.
                 Ok \<lparr>fl_code = code, fl_message = message, fl_fields = flds\<rparr>))
           | _ \<Rightarrow> Err PayloadType))"

subsection \<open>Methods and notifications\<close>

datatype hotkey_method =
    HM_Shutdown | HM_SetConfigPath | HM_InjectKey | HM_GetBindings | HM_GetDepth
  | HM_GetWorldStatus | HM_GetServerStatus | HM_GetWorldSnapshot

primrec method_str :: "hotkey_method \<Rightarrow> string" where
  "method_str HM_Shutdown = ''shutdown''"
| "method_str HM_SetConfigPath = ''set_config_path''"
| "method_str HM_InjectKey = ''inject_key''"
| "method_str HM_GetBindings = ''get_bindings''"
| "method_str HM_GetDepth = ''get_depth''"
| "method_str HM_GetWorldStatus = ''get_world_status''"
| "method_str HM_GetServerStatus = ''get_server_status''"
| "method_str HM_GetWorldSnapshot = ''get_world_snapshot''"

definition method_try_from_str :: "string \<Rightarrow> hotkey_method option" where
  "method_try_from_str s =
     (if s = ''shutdown'' then Some HM_Shutdown
      else if s = ''set_config_path'' then Some HM_SetConfigPath
      else if s = ''inject_key'' then Some HM_InjectKey
      else if s = ''get_bindings'' then Some HM_GetBindings
      else if s = ''get_depth'' then Some HM_GetDepth
      else if s = ''get_world_status'' then Some HM_GetWorldStatus
      else if s = ''get_server_status'' then Some HM_GetServerStatus
      else if s = ''get_world_snapshot'' then Some HM_GetWorldSnapshot
      else None)"

datatype hotkey_notification = HN_Notify

primrec notification_str :: "hotkey_notification \<Rightarrow> string" where
  "notification_str HN_Notify = ''notify''"

subsection \<open>Payloads\<close>

record server_status_lite =
  ss_idle_timeout_secs :: "64 word"
  ss_idle_timer_armed :: bool
  ss_idle_deadline_ms :: "64 word option"
  ss_clients_connected :: nat
  ss_input :: input_health

record world_snapshot_lite =
  ws_focused :: "focus_snapshot option"
  ws_displays :: displays_snapshot

datatype inject_kind = IK_Down | IK_Up

record inject_key_req =
  ik_ident :: string
  ik_kind :: inject_kind
  ik_repeat :: bool

subsection \<open>Names and failures are decoded as they were encoded\<close>

lemma from_service_name_str [simp]: "from_service_name (error_code_str c) = Some c"
  by (cases c) (simp_all add: from_service_name_def)

lemma from_service_name_SomeD: "from_service_name name = Some c \<Longrightarrow> name = error_code_str c"
  by (auto simp: from_service_name_def split: if_splits)

lemma method_try_from_str_str [simp]: "method_try_from_str (method_str m) = Some m"
  by (cases m) (simp_all add: method_try_from_str_def)

lemma method_try_from_str_SomeD: "method_try_from_str s = Some m \<Longrightarrow> s = method_str m"
  by (auto simp: method_try_from_str_def split: if_splits)

lemma rbind_simps [simp]: "rbind (Ok x) f = f x" "rbind (Err e) f = Err e"
  by (simp_all add: rbind_def)

lemma map_err_simps [simp]: "map_err f (Ok x) = Ok x" "map_err f (Err e) = Err (f e)"
  by (simp_all add: map_err_def)

lemma map_value_Nil [simp]: "map_value [] name = None"
  by (simp add: map_value_def)

lemma map_value_Cons [simp]:
  "map_value ((key, value) # m) name =
     (if value_as_str key = Some name then Some value else map_value m name)"
  by (simp add: map_value_def)

lemma map_value_append [simp]:
  "map_value (m @ m') name = (case map_value m name of Some v \<Rightarrow> Some v | None \<Rightarrow> map_value m' name)"
  by (induction m) auto

lemma map_value_push [simp]:
  "map_value (push_string_field m name value) name' =
     (case map_value m name' of
        Some v \<Rightarrow> Some v
      | None \<Rightarrow> if name = name' then map_option V_String value else None)"
  by (auto simp: push_string_field_def split: option.split)

lemma optional_string_push:
  "map_value m name = None \<Longrightarrow> optional_string (push_string_field m name value) name = Ok value"
  by (simp add: optional_string_def split: option.split)

text \<open>A failure that crosses the wire arrives as it was sent.\<close>

lemma decode_encode_rpc_failure:
  obtains service where "encode_rpc_failure f = Service service" "decode_rpc_failure service = Ok f"
proof -
  obtain service where s: "encode_rpc_failure f = Service service"
    by (simp add: encode_rpc_failure_def Let_def)
  then have "decode_rpc_failure service = Ok f"
    by (cases f, cases "fl_fields f")
      (auto simp: encode_rpc_failure_def decode_rpc_failure_def decode_rpc_fields_def required_string_def
        optional_string_def Let_def split: option.split)
  with s show thesis by (rule that)
qed

text \<open>Decoding fails exactly on envelopes that no failure has; what it accepts has the code's name.\<close>

lemma decode_rpc_failure_name: "decode_rpc_failure s = Ok f \<Longrightarrow> se_name s = error_code_str (fl_code f)"
  by (auto simp: decode_rpc_failure_def rbind_def split: option.splits rpc_value.splits sum.splits
      dest!: from_service_name_SomeD)

end
