(* ===== verification/Rpc_Service.thy ===== *)
theory Rpc_Service
  imports Engine_Dispatch Server_Lifecycle Rpc_Protocol
begin

text \<open>
  The RPC surface of \<open>hotki-server\<close>: the service handlers over the engine
  (\<open>ipc/service.rs\<close>, \<open>ipc/service/rpc.rs\<close>), value conversions
  (\<open>ipc/value.rs\<close>), the server error type (\<open>error.rs\<close>) and the typed client
  calls (\<open>ipc/client.rs\<close>).  MessagePack is a parameter: a codec encodes a payload
  to bytes and decodes it.  A service holds its lazily created engine and the
  server state of \<open>Server_Lifecycle\<close>.
\<close>

subsection \<open>Server errors\<close>

datatype server_error =
    HotkeyOperation string
  | Ipc string
  | ServerExitedBeforeConnect string string
  | Rpc string rpc_failure
  | Io string
  | Serialization string

primrec server_error_string :: "server_error \<Rightarrow> string" where
  "server_error_string (HotkeyOperation m) = ''Hotkey error: '' @ m"
| "server_error_string (Ipc m) = ''IPC error: '' @ m"
| "server_error_string (ServerExitedBeforeConnect socket_path status) =
     ''Server process exited before connection was ready on '' @ socket_path @ '': '' @ status"
| "server_error_string (Rpc method failure) = method @ '' request failed: '' @ rpc_failure_string failure"
| "server_error_string (Io m) = ''IO error: '' @ m"
| "server_error_string (Serialization m) = ''Serialization error: '' @ m"

subsection \<open>Payload codecs and value conversions\<close>

record 'a codec =
  cd_enc :: "'a \<Rightarrow> string + 8 word list"
  cd_dec :: "8 word list \<Rightarrow> string + 'a"

text \<open>The codec carries a value: it encodes it, and decodes the bytes to the same value.\<close>

definition carries :: "'a codec \<Rightarrow> 'a \<Rightarrow> bool" where
  "carries c x \<longleftrightarrow> (case cd_enc c x of Inr b \<Rightarrow> cd_dec c b = Ok x | Inl _ \<Rightarrow> False)"

definition binary_param :: "'a codec \<Rightarrow> 'a \<Rightarrow> server_error + rpc_value" where
  "binary_param c x = (case cd_enc c x of Inl m \<Rightarrow> Err (Serialization m) | Inr b \<Rightarrow> Ok (V_Binary b))"

text \<open>\<open>debug\<close> is the debug text of a value.\<close>

definition unexpected_response :: "(rpc_value \<Rightarrow> string) \<Rightarrow> string \<Rightarrow> rpc_value \<Rightarrow> server_error" where
  "unexpected_response debug ctx other = Ipc (''Unexpected '' @ ctx @ '' response: '' @ debug other)"

definition binary_response ::
    "(rpc_value \<Rightarrow> string) \<Rightarrow> 'a codec \<Rightarrow> rpc_value \<Rightarrow> string \<Rightarrow> server_error + 'a" where
  "binary_response debug c value ctx =
     (case value of
        V_Binary b \<Rightarrow> map_err Serialization (cd_dec c b)
      | other \<Rightarrow> Err (unexpected_response debug ctx other))"

definition string_response :: "(rpc_value \<Rightarrow> string) \<Rightarrow> rpc_value \<Rightarrow> string \<Rightarrow> server_error + string" where
  "string_response debug value ctx =
     (case value of
        V_String s \<Rightarrow> Ok s
      | V_NonUtf8 _ \<Rightarrow> Err (Ipc (''Unexpected non-utf8 string in '' @ ctx))
      | other \<Rightarrow> Err (Ipc (''Unexpected element in '' @ ctx @ '': '' @ debug other)))"

text \<open>\<open>collect\<close> into a result stops at the first error.\<close>

fun collect_results :: "('e + 'a) list \<Rightarrow> 'e + 'a list" where
  "collect_results [] = Ok []"
| "collect_results (r # rs) = rbind r (\<lambda>x. rbind (collect_results rs) (\<lambda>xs. Ok (x # xs)))"

definition string_vec_response :: "(rpc_value \<Rightarrow> string) \<Rightarrow> rpc_value \<Rightarrow> string \<Rightarrow> server_error + string list" where
  "string_vec_response debug value ctx =
     (case value of
        V_Array values \<Rightarrow> collect_results (map (\<lambda>v. string_response debug v ctx) values)
      | other \<Rightarrow> Err (unexpected_response debug ctx other))"

definition usize_response :: "(rpc_value \<Rightarrow> string) \<Rightarrow> rpc_value \<Rightarrow> string \<Rightarrow> server_error + 64 word" where
  "usize_response debug value ctx =
     (case value of
        V_Integer raw \<Rightarrow>
          if 0 \<le> raw \<and> raw < 2 ^ 64 then Ok (word_of_int raw) else Err (Ipc (''Invalid '' @ ctx @ '' value''))
      | other \<Rightarrow> Err (unexpected_response debug ctx other))"

subsection \<open>Request parameters\<close>

definition rpc_string_param ::
    "rpc_value list \<Rightarrow> string \<Rightarrow> string \<Rightarrow> rpc_error_code \<Rightarrow> rpc_error + string" where
  "rpc_string_param params method expected missing_code =
     (case params of
        [] \<Rightarrow> Err (encode_rpc_failure (with_expected expected (with_method method
                (rpc_failure_new missing_code (method @ '' requires '' @ expected)))))
      | value # _ \<Rightarrow>
          (case value of
             V_String raw \<Rightarrow> Ok raw
           | V_NonUtf8 _ \<Rightarrow>
               (let expected = ''UTF-8 string '' @ expected
                in Err (encode_rpc_failure (with_expected expected (with_method method
                     (rpc_failure_new EC_InvalidType (''expected '' @ expected))))))
           | _ \<Rightarrow>
               (let expected = ''string '' @ expected
                in Err (encode_rpc_failure (with_expected expected (with_method method
                     (rpc_failure_new EC_InvalidType (''expected '' @ expected))))))))"

definition dec_inject_key_param :: "inject_key_req codec \<Rightarrow> rpc_value \<Rightarrow> rpc_error + inject_key_req" where
  "dec_inject_key_param c value =
     (case value of
        V_Binary bytes \<Rightarrow>
          map_err (\<lambda>err. encode_rpc_failure (rpc_failure_new EC_InvalidConfig (''invalid inject request: '' @ err)))
            (cd_dec c bytes)
      | _ \<Rightarrow> Err (encode_rpc_failure (with_expected ''binary MessagePack''
               (rpc_failure_new EC_InvalidType ''expected binary MessagePack''))))"

primrec inject_kind_to_event :: "inject_kind \<Rightarrow> event_kind" where
  "inject_kind_to_event IK_Down = KeyDown"
| "inject_kind_to_event IK_Up = KeyUp"

subsection \<open>The service\<close>

record ('v, 'm, 's) rpc_env =
  re_engine :: "('v, 'm, 's) engine_env"
  re_new_engine :: "('v, 'm, 's) engine"
  re_inject_codec :: "inject_key_req codec"
  re_world_codec :: "world_status codec"
  re_snapshot_codec :: "world_snapshot_lite codec"
  re_status_codec :: "server_status_lite codec"
  re_world :: world_data
  re_manager_status :: manager_status
  re_debug :: "rpc_value \<Rightarrow> string"

record ('v, 'm, 's) hotkey_service =
  svc_server :: server_state
  svc_engine :: "('v, 'm, 's) engine option"

text \<open>\<open>get_or_init\<close>: the first use creates the engine and starts the event pipeline.\<close>

definition service_engine ::
    "('v, 'm, 's) rpc_env \<Rightarrow> ('v, 'm, 's) hotkey_service \<Rightarrow> ('v, 'm, 's) engine \<times> ('v, 'm, 's) hotkey_service" where
  "service_engine env s =
     (case svc_engine s of
        Some e \<Rightarrow> (e, s)
      | None \<Rightarrow> (re_new_engine env,
          s\<lparr>svc_engine := Some (re_new_engine env), svc_server := snd (pipeline_start (svc_server s))\<rparr>))"

definition snapshot_server_status :: "('v, 'm, 's) rpc_env \<Rightarrow> ('v, 'm, 's) hotkey_service \<Rightarrow> server_status_lite" where
  "snapshot_server_status env s =
     (let idle = idle_timer_snapshot (sv_idle (svc_server s))
      in \<lparr>ss_idle_timeout_secs = is_timeout_secs idle, ss_idle_timer_armed = is_armed idle,
          ss_idle_deadline_ms = is_deadline_ms idle,
          ss_clients_connected = length (sv_clients (svc_server s)),
          ss_input = input_health_of (re_manager_status env)\<rparr>)"

definition svc_shutdown ::
    "('v, 'm, 's) hotkey_service \<Rightarrow> (rpc_error + rpc_value) \<times> ('v, 'm, 's) hotkey_service" where
  "svc_shutdown s = (Ok (V_Boolean True), s\<lparr>svc_server := handle_shutdown_request (svc_server s)\<rparr>)"

definition handle_set_config_path ::
    "('v, 'm, 's) rpc_env \<Rightarrow> rpc_value list \<Rightarrow> ('v, 'm, 's) hotkey_service
     \<Rightarrow> (rpc_error + rpc_value) \<times> ('v, 'm, 's) hotkey_service" where
  "handle_set_config_path env params s =
     (case rpc_string_param params (method_str HM_SetConfigPath) ''path'' EC_MissingParams of
        Inl err \<Rightarrow> (Err err, s)
      | Inr raw_path \<Rightarrow>
          (let (e, s) = service_engine env s;
               (r, e) = set_config_path (re_engine env) raw_path e
           in (case r of
                 Inl err \<Rightarrow> Err (encode_rpc_failure (rpc_failure_new EC_EngineSetConfig (engine_error_string err)))
               | Inr _ \<Rightarrow> Ok (V_Boolean True),
               s\<lparr>svc_engine := Some e\<rparr>)))"

definition handle_inject_key ::
    "('v, 'm, 's) rpc_env \<Rightarrow> rpc_value list \<Rightarrow> ('v, 'm, 's) hotkey_service
     \<Rightarrow> (rpc_error + rpc_value) \<times> ('v, 'm, 's) hotkey_service" where
  "handle_inject_key env params s =
     (case params of
        [] \<Rightarrow> (Err (encode_rpc_failure (with_expected ''inject request'' (with_method (method_str HM_InjectKey)
                (rpc_failure_new EC_MissingParams ''inject_key requires an inject request'')))), s)
      | value # _ \<Rightarrow>
          (case dec_inject_key_param (re_inject_codec env) value of
             Inl err \<Rightarrow> (Err err, s)
           | Inr req \<Rightarrow>
               (let (e, s) = service_engine env s;
                    (r, e) = dispatch_injected (re_engine env) (ik_ident req)
                      (inject_kind_to_event (ik_kind req)) (ik_repeat req) e
                in (case r of
                      Inr True \<Rightarrow> Ok (V_Boolean True)
                    | Inr False \<Rightarrow>
                        Err (encode_rpc_failure (with_ident (ik_ident req)
                          (rpc_failure_new EC_KeyNotBound (''key is not bound: '' @ ik_ident req))))
                    | Inl err \<Rightarrow>
                        Err (encode_rpc_failure (rpc_failure_new EC_EngineDispatch (engine_error_string err))),
                    s\<lparr>svc_engine := Some e\<rparr>))))"

definition handle_get_bindings ::
    "('v, 'm, 's) rpc_env \<Rightarrow> ('v, 'm, 's) hotkey_service
     \<Rightarrow> (rpc_error + rpc_value) \<times> ('v, 'm, 's) hotkey_service" where
  "handle_get_bindings env s =
     (let (e, s) = service_engine env s;
          idents = sort (map fst (bindings_snapshot (en_manager e)))
      in (Ok (V_Array (map V_String idents)), s))"

definition handle_get_depth ::
    "('v, 'm, 's) rpc_env \<Rightarrow> ('v, 'm, 's) hotkey_service
     \<Rightarrow> (rpc_error + rpc_value) \<times> ('v, 'm, 's) hotkey_service" where
  "handle_get_depth env s =
     (let (e, s) = service_engine env s
      in (Ok (V_Integer (uint (of_nat (rt_depth (en_runtime e)) :: 64 word))), s))"

definition handle_get_world_status ::
    "('v, 'm, 's) rpc_env \<Rightarrow> ('v, 'm, 's) hotkey_service
     \<Rightarrow> (rpc_error + rpc_value) \<times> ('v, 'm, 's) hotkey_service" where
  "handle_get_world_status env s =
     (let (e, s) = service_engine env s
      in (Ok (case binary_param (re_world_codec env) (wd_status (re_world env)) of
                Inr v \<Rightarrow> v | Inl _ \<Rightarrow> V_Nil), s))"

definition handle_get_world_snapshot ::
    "('v, 'm, 's) rpc_env \<Rightarrow> ('v, 'm, 's) hotkey_service
     \<Rightarrow> (rpc_error + rpc_value) \<times> ('v, 'm, 's) hotkey_service" where
  "handle_get_world_snapshot env s =
     (let (e, s) = service_engine env s;
          payload = \<lparr>ws_focused = wd_focus (re_world env), ws_displays = wd_displays (re_world env)\<rparr>
      in (map_err (\<lambda>err. encode_rpc_failure (rpc_failure_new EC_InvalidType (server_error_string err)))
            (binary_param (re_snapshot_codec env) payload), s))"

definition handle_get_server_status ::
    "('v, 'm, 's) rpc_env \<Rightarrow> ('v, 'm, 's) hotkey_service
     \<Rightarrow> (rpc_error + rpc_value) \<times> ('v, 'm, 's) hotkey_service" where
  "handle_get_server_status env s =
     (map_err (\<lambda>err. encode_rpc_failure (rpc_failure_new EC_InvalidType (server_error_string err)))
        (binary_param (re_status_codec env) (snapshot_server_status env s)), s)"

fun route_request ::
    "('v, 'm, 's) rpc_env \<Rightarrow> hotkey_method \<Rightarrow> rpc_value list \<Rightarrow> ('v, 'm, 's) hotkey_service
     \<Rightarrow> (rpc_error + rpc_value) \<times> ('v, 'm, 's) hotkey_service" where
  "route_request env HM_Shutdown params s = svc_shutdown s"
| "route_request env HM_SetConfigPath params s = handle_set_config_path env params s"
| "route_request env HM_InjectKey params s = handle_inject_key env params s"
| "route_request env HM_GetBindings params s = handle_get_bindings env s"
| "route_request env HM_GetDepth params s = handle_get_depth env s"
| "route_request env HM_GetWorldStatus params s = handle_get_world_status env s"
| "route_request env HM_GetWorldSnapshot params s = handle_get_world_snapshot env s"
| "route_request env HM_GetServerStatus params s = handle_get_server_status env s"

definition unknown_method :: "string \<Rightarrow> rpc_error" where
  "unknown_method method =
     encode_rpc_failure (with_method method
       (rpc_failure_new EC_MethodNotFound (''method '' @ [CHR 0x27] @ method @ [CHR 0x27] @ '' not found'')))"

definition handle_request ::
    "('v, 'm, 's) rpc_env \<Rightarrow> string \<Rightarrow> rpc_value list \<Rightarrow> ('v, 'm, 's) hotkey_service
     \<Rightarrow> (rpc_error + rpc_value) \<times> ('v, 'm, 's) hotkey_service" where
  "handle_request env method params s =
     (case method_try_from_str method of
        Some m \<Rightarrow> route_request env m params s
      | None \<Rightarrow> (Err (unknown_method method), s))"

definition svc_connected ::
    "('v, 'm, 's) rpc_env \<Rightarrow> ('v, 'm, 's) hotkey_service \<Rightarrow> (rpc_error + unit) \<times> ('v, 'm, 's) hotkey_service" where
  "svc_connected env s =
     (if sv_shutdown (svc_server s)
      then (Err (encode_rpc_failure (rpc_failure_new EC_ShuttingDown ''server is shutting down'')), s)
      else
        (let s = s\<lparr>svc_server := register_client (svc_server s)\<rparr>;
             s = snd (service_engine env s)
         in (Ok (), s\<lparr>svc_server := post_user_event Wake_ClientConnected (svc_server s)\<rparr>)))"

subsection \<open>The client\<close>

definition request_error :: "hotkey_method \<Rightarrow> rpc_error \<Rightarrow> server_error" where
  "request_error method err =
     (case err of
        Service service \<Rightarrow>
          (case decode_rpc_failure service of
             Inr failure \<Rightarrow> Rpc (method_str method) failure
           | Inl decode_error \<Rightarrow>
               Ipc (method_str method @ '' request failed: service error '' @ se_name service @ '': ''
                    @ rpc_decode_error_string decode_error))
      | Transport other \<Rightarrow> Ipc (method_str method @ '' request failed: '' @ other))"

text \<open>What the connection does with one request: it may fail before or after the server handled it.\<close>

datatype wire = Delivered | Lost_Request string | Lost_Reply string

definition client_request ::
    "('v, 'm, 's) rpc_env \<Rightarrow> wire \<Rightarrow> hotkey_method \<Rightarrow> rpc_value list \<Rightarrow> ('v, 'm, 's) hotkey_service
     \<Rightarrow> (server_error + rpc_value) \<times> ('v, 'm, 's) hotkey_service" where
  "client_request env w method params s =
     (case w of
        Lost_Request e \<Rightarrow> (Err (request_error method (Transport e)), s)
      | Delivered \<Rightarrow>
          (let (r, s) = handle_request env (method_str method) params s in (map_err (request_error method) r, s))
      | Lost_Reply e \<Rightarrow>
          (Err (request_error method (Transport e)), snd (handle_request env (method_str method) params s)))"

definition client_request_ok ::
    "('v, 'm, 's) rpc_env \<Rightarrow> wire \<Rightarrow> hotkey_method \<Rightarrow> rpc_value list \<Rightarrow> ('v, 'm, 's) hotkey_service
     \<Rightarrow> (server_error + unit) \<times> ('v, 'm, 's) hotkey_service" where
  "client_request_ok env w method params s =
     (let (r, s) = client_request env w method params s
      in (rbind r (\<lambda>v. if v = V_Boolean True then Ok ()
                       else Err (unexpected_response (re_debug env) (method_str method) v)), s))"

definition client_request_binary ::
    "('v, 'm, 's) rpc_env \<Rightarrow> 'a codec \<Rightarrow> wire \<Rightarrow> hotkey_method \<Rightarrow> rpc_value list \<Rightarrow> ('v, 'm, 's) hotkey_service
     \<Rightarrow> (server_error + 'a) \<times> ('v, 'm, 's) hotkey_service" where
  "client_request_binary env c w method params s =
     (let (r, s) = client_request env w method params s
      in (rbind r (\<lambda>v. binary_response (re_debug env) c v (method_str method)), s))"

definition client_shutdown where
  "client_shutdown env w s = client_request_ok env w HM_Shutdown [] s"

definition client_set_config_path where
  "client_set_config_path env w path s = client_request_ok env w HM_SetConfigPath [V_String path] s"

definition client_inject_key ::
    "('v, 'm, 's) rpc_env \<Rightarrow> wire \<Rightarrow> string \<Rightarrow> inject_kind \<Rightarrow> bool \<Rightarrow> ('v, 'm, 's) hotkey_service
     \<Rightarrow> (server_error + unit) \<times> ('v, 'm, 's) hotkey_service" where
  "client_inject_key env w ident kind rep s =
     (case binary_param (re_inject_codec env) \<lparr>ik_ident = ident, ik_kind = kind, ik_repeat = rep\<rparr> of
        Inl err \<Rightarrow> (Err err, s)
      | Inr param \<Rightarrow> client_request_ok env w HM_InjectKey [param] s)"

definition client_get_bindings ::
    "('v, 'm, 's) rpc_env \<Rightarrow> wire \<Rightarrow> ('v, 'm, 's) hotkey_service
     \<Rightarrow> (server_error + string list) \<times> ('v, 'm, 's) hotkey_service" where
  "client_get_bindings env w s =
     (let (r, s) = client_request env w HM_GetBindings [] s
      in (rbind r (\<lambda>v. string_vec_response (re_debug env) v (method_str HM_GetBindings)), s))"

definition client_get_depth ::
    "('v, 'm, 's) rpc_env \<Rightarrow> wire \<Rightarrow> ('v, 'm, 's) hotkey_service
     \<Rightarrow> (server_error + 64 word) \<times> ('v, 'm, 's) hotkey_service" where
  "client_get_depth env w s =
     (let (r, s) = client_request env w HM_GetDepth [] s
      in (rbind r (\<lambda>v. usize_response (re_debug env) v (method_str HM_GetDepth)), s))"

definition client_get_world_status where
  "client_get_world_status env w s = client_request_binary env (re_world_codec env) w HM_GetWorldStatus [] s"

definition client_get_server_status where
  "client_get_server_status env w s = client_request_binary env (re_status_codec env) w HM_GetServerStatus [] s"

definition client_get_world_snapshot where
  "client_get_world_snapshot env w s = client_request_binary env (re_snapshot_codec env) w HM_GetWorldSnapshot [] s"

subsection \<open>Calls reach the engine and answers come back unchanged\<close>

lemma request_error_failure [simp]:
  "request_error method (encode_rpc_failure f) = Rpc (method_str method) f"
proof -
  obtain service where "encode_rpc_failure f = Service service" "decode_rpc_failure service = Ok f"
    by (rule decode_encode_rpc_failure)
  then show ?thesis by (simp add: request_error_def)
qed

lemma handle_request_str [simp]: "handle_request env (method_str m) params s = route_request env m params s"
  by (simp add: handle_request_def)

lemma client_request_delivered:
  "client_request env Delivered m params s =
     (map_err (request_error m) (fst (route_request env m params s)), snd (route_request env m params s))"
  by (simp add: client_request_def split_beta)

lemma client_request_ok_delivered:
  assumes "route_request env m params s = (r, s')"
  shows "client_request_ok env Delivered m params s =
     (rbind (map_err (request_error m) r) (\<lambda>v. if v = V_Boolean True then Ok ()
         else Err (unexpected_response (re_debug env) (method_str m) v)), s')"
  by (simp add: client_request_ok_def client_request_delivered assms)

lemma collect_strings [simp]:
  "collect_results (map (\<lambda>v. string_response debug v ctx) (map V_String ss)) = Ok ss"
  by (induction ss) (simp_all add: string_response_def)

lemma collect_strings_comp [simp]:
  "collect_results (map ((\<lambda>v. string_response debug v ctx) \<circ> V_String) ss) = Ok ss"
  using collect_strings [of debug ctx ss] by (simp only: map_map)

lemma carries_binary:
  assumes "carries c x"
  obtains b where "binary_param c x = Ok (V_Binary b)" "cd_dec c b = Ok x"
  using assms by (auto simp: carries_def binary_param_def split: sum.splits)

text \<open>What a client sees of an engine result that the service maps to a failure.\<close>

definition engine_answer :: "string \<Rightarrow> rpc_error_code \<Rightarrow> engine_error + unit \<Rightarrow> server_error + unit" where
  "engine_answer method code r =
     map_err (\<lambda>err. Rpc method (rpc_failure_new code (engine_error_string err))) r"

lemma client_set_config_path_delivered:
  "client_set_config_path env Delivered path s =
     (let (e, s) = service_engine env s; (r, e) = set_config_path (re_engine env) path e
      in (engine_answer ''set_config_path'' EC_EngineSetConfig r, s\<lparr>svc_engine := Some e\<rparr>))"
  by (simp add: client_set_config_path_def client_request_ok_def client_request_delivered
      handle_set_config_path_def rpc_string_param_def engine_answer_def split_beta Let_def split: sum.split)

lemma client_inject_key_delivered:
  assumes "carries (re_inject_codec env) \<lparr>ik_ident = ident, ik_kind = kind, ik_repeat = rep\<rparr>"
  shows "client_inject_key env Delivered ident kind rep s =
     (let (e, s) = service_engine env s;
          (r, e) = dispatch_injected (re_engine env) ident (inject_kind_to_event kind) rep e
      in (case r of
            Inr bound \<Rightarrow> if bound then Ok ()
              else Err (Rpc ''inject_key'' (with_ident ident
                     (rpc_failure_new EC_KeyNotBound (''key is not bound: '' @ ident))))
          | Inl err \<Rightarrow> engine_answer ''inject_key'' EC_EngineDispatch (Err err),
          s\<lparr>svc_engine := Some e\<rparr>))"
proof -
  obtain b where "binary_param (re_inject_codec env) \<lparr>ik_ident = ident, ik_kind = kind, ik_repeat = rep\<rparr> = Ok (V_Binary b)"
    "cd_dec (re_inject_codec env) b = Ok \<lparr>ik_ident = ident, ik_kind = kind, ik_repeat = rep\<rparr>"
    using assms by (rule carries_binary)
  then show ?thesis
    by (simp add: client_inject_key_def client_request_ok_def client_request_delivered
        handle_inject_key_def dec_inject_key_param_def engine_answer_def split_beta Let_def
        split: sum.split bool.split)
qed

lemma client_get_bindings_delivered:
  "client_get_bindings env Delivered s =
     (let (e, s) = service_engine env s in (Ok (sort (map fst (bindings_snapshot (en_manager e)))), s))"
  by (simp add: client_get_bindings_def client_request_delivered handle_get_bindings_def
      string_vec_response_def split_beta Let_def)

lemma client_get_depth_delivered:
  "client_get_depth env Delivered s =
     (let (e, s) = service_engine env s in (Ok (of_nat (rt_depth (en_runtime e))), s))"
  using uint_lt2p [of "of_nat (rt_depth (en_runtime (fst (service_engine env s)))) :: 64 word"]
  by (simp add: client_get_depth_def client_request_delivered handle_get_depth_def
      usize_response_def split_beta Let_def)

lemma client_get_server_status_delivered:
  assumes "carries (re_status_codec env) (snapshot_server_status env s)"
  shows "client_get_server_status env Delivered s = (Ok (snapshot_server_status env s), s)"
proof -
  obtain b where "binary_param (re_status_codec env) (snapshot_server_status env s) = Ok (V_Binary b)"
    "cd_dec (re_status_codec env) b = Ok (snapshot_server_status env s)"
    using assms by (rule carries_binary)
  then show ?thesis
    by (simp add: client_get_server_status_def client_request_binary_def client_request_delivered
        handle_get_server_status_def binary_response_def)
qed

text \<open>A lost request leaves the server alone; either loss reads as a transport error.\<close>

lemma client_request_lost:
  "client_request env (Lost_Request e) m params s = (Err (Ipc (method_str m @ '' request failed: '' @ e)), s)"
  "fst (client_request env (Lost_Reply e) m params s) = Err (Ipc (method_str m @ '' request failed: '' @ e))"
  "snd (client_request env (Lost_Reply e) m params s) = snd (client_request env Delivered m params s)"
  by (simp_all add: client_request_def request_error_def split_beta)

text \<open>Malformed requests are answered without touching the service.\<close>

lemma bad_requests_rejected:
  "method_try_from_str name = None \<Longrightarrow>
     handle_request env name params s = (Err (unknown_method name), s)"
  "\<lbrakk>params = [] \<or> (\<forall>raw. hd params \<noteq> V_String raw)\<rbrakk> \<Longrightarrow>
     snd (handle_set_config_path env params s) = s \<and> \<not> is_ok (fst (handle_set_config_path env params s))"
  "\<lbrakk>params = [] \<or> (\<forall>b. hd params \<noteq> V_Binary b)\<rbrakk> \<Longrightarrow>
     snd (handle_inject_key env params s) = s \<and> \<not> is_ok (fst (handle_inject_key env params s))"
  by (auto simp: handle_request_def handle_set_config_path_def handle_inject_key_def rpc_string_param_def
      dec_inject_key_param_def Let_def split: list.split rpc_value.split)

subsection \<open>The service keeps the lifecycle of the server\<close>

text \<open>The engine exists exactly once the pipeline has left its initial state, or was stopped before it.\<close>

definition service_ok :: "('v, 'm, 's) hotkey_service \<Rightarrow> bool" where
  "service_ok s \<longleftrightarrow> (svc_engine s \<noteq> None \<longrightarrow> sv_pipeline (svc_server s) \<noteq> PL_Ready)"

lemma service_engine_ok [simp]: "service_ok (snd (service_engine env s)) \<longleftrightarrow> service_ok s"
  by (auto simp: service_ok_def service_engine_def pipeline_start_def split: option.split pipeline_lifecycle.split)

lemma svc_connected_lifecycle:
  assumes "service_ok s"
  shows "svc_server (snd (svc_connected env s)) = snd (service_connected (svc_server s))"
    and "is_ok (fst (svc_connected env s)) = fst (service_connected (svc_server s))"
  using assms
  by (auto simp: svc_connected_def service_connected_def service_engine_def service_ok_def pipeline_start_def
      register_client_def Let_def split: option.split pipeline_lifecycle.split)

lemma svc_shutdown_ok: "service_ok (snd (svc_shutdown s))"
  by (simp add: service_ok_def svc_shutdown_def handle_shutdown_request_def pipeline_shutdown_def)

lemma service_ok_engine [simp]:
  "service_ok (s\<lparr>svc_engine := Some e\<rparr>) \<longleftrightarrow> sv_pipeline (svc_server s) \<noteq> PL_Ready"
  by (simp add: service_ok_def)

lemma service_engine_pipeline:
  "service_ok s \<Longrightarrow> sv_pipeline (svc_server (snd (service_engine env s))) \<noteq> PL_Ready"
  by (auto simp: service_ok_def service_engine_def pipeline_start_def split: option.split pipeline_lifecycle.split)

lemma route_request_ok: "service_ok s \<Longrightarrow> service_ok (snd (route_request env m params s))"
  by (cases m) (auto simp: svc_shutdown_ok handle_set_config_path_def handle_inject_key_def handle_get_bindings_def
      handle_get_depth_def handle_get_world_status_def handle_get_world_snapshot_def handle_get_server_status_def
      service_engine_pipeline split_beta Let_def split: sum.split list.split)

text \<open>Only a shutdown request moves the server beyond starting its pipeline.\<close>

lemma route_request_server:
  assumes "m \<noteq> HM_Shutdown"
  shows "svc_server (snd (route_request env m params s)) = svc_server s
    \<or> svc_server (snd (route_request env m params s)) = snd (pipeline_start (svc_server s))"
  using assms
  by (cases m) (auto simp: handle_set_config_path_def handle_inject_key_def handle_get_bindings_def
      handle_get_depth_def handle_get_world_status_def handle_get_world_snapshot_def handle_get_server_status_def
      service_engine_def split_beta Let_def split: sum.split list.split option.split)

subsection \<open>Client calls\<close>

text \<open>
  C17: A client call over a working connection is transparent: it runs the engine operation
  exactly once on the service's engine, creating it when there is none, and answers with the
  outcome of that operation. An engine error arrives as the typed failure of its method with
  the engine's own text; an unbound key names its identifier; bindings arrive sorted and the
  depth as the word the engine counts.
\<close>

theorem client_calls_transparent:
  assumes "carries (re_inject_codec env) \<lparr>ik_ident = ident, ik_kind = kind, ik_repeat = rep\<rparr>"
  shows "client_inject_key env Delivered ident kind rep s =
      (let (e, s) = service_engine env s;
           (r, e) = dispatch_injected (re_engine env) ident (inject_kind_to_event kind) rep e
       in (case r of
             Inr bound \<Rightarrow> if bound then Ok ()
               else Err (Rpc ''inject_key'' (with_ident ident
                      (rpc_failure_new EC_KeyNotBound (''key is not bound: '' @ ident))))
           | Inl err \<Rightarrow> Err (Rpc ''inject_key'' (rpc_failure_new EC_EngineDispatch (engine_error_string err))),
           s\<lparr>svc_engine := Some e\<rparr>))
    \<and> client_set_config_path env Delivered path s =
      (let (e, s) = service_engine env s; (r, e) = set_config_path (re_engine env) path e
       in (case r of
             Inr _ \<Rightarrow> Ok ()
           | Inl err \<Rightarrow> Err (Rpc ''set_config_path''
               (rpc_failure_new EC_EngineSetConfig (engine_error_string err))),
           s\<lparr>svc_engine := Some e\<rparr>))
    \<and> client_get_bindings env Delivered s =
      (let (e, s) = service_engine env s in (Ok (sort (map fst (bindings_snapshot (en_manager e)))), s))
    \<and> client_get_depth env Delivered s =
      (let (e, s) = service_engine env s in (Ok (of_nat (rt_depth (en_runtime e))), s))"
  unfolding client_inject_key_delivered [OF assms] client_set_config_path_delivered
    client_get_bindings_delivered client_get_depth_delivered
  by (auto simp: engine_answer_def split: prod.split sum.split)

text \<open>A codec for injection requests and a service whose engine binds one key.\<close>

definition sample_inject_codec :: "inject_key_req codec" where
  "sample_inject_codec =
     \<lparr>cd_enc = (\<lambda>r. Ok ((if ik_kind r = IK_Down then 1 else 0) # (if ik_repeat r then 1 else 0)
                       # map (\<lambda>c. of_nat (of_char c)) (ik_ident r))),
      cd_dec = (\<lambda>b. case b of
          k # r # cs \<Rightarrow> Ok \<lparr>ik_ident = map (\<lambda>w. char_of (unat w)) cs, ik_kind = (if k = 1 then IK_Down else IK_Up),
                           ik_repeat = (r = 1)\<rparr>
        | _ \<Rightarrow> Err ''invalid length'')\<rparr>"

lemma sample_inject_codec_carries: "carries sample_inject_codec r"
proof -
  have "unat (of_nat (of_char c) :: 8 word) = (of_char c :: nat)" for c :: char
    by (simp add: unsigned_of_nat take_bit_nat_eq_self)
  then have "map (\<lambda>w. char_of (unat w)) (map (\<lambda>c. of_nat (of_char c) :: 8 word) cs) = cs" for cs :: string
    by (simp add: o_def)
  moreover obtain ident kind rep where "r = \<lparr>ik_ident = ident, ik_kind = kind, ik_repeat = rep\<rparr>" by (cases r) simp
  ultimately show ?thesis by (cases kind) (simp_all add: carries_def sample_inject_codec_def)
qed

definition sample_rpc_env :: "(unit, selector_item list, 32 word) rpc_env" where
  "sample_rpc_env =
     \<lparr>re_engine = sample_env True, re_new_engine = sample_engine, re_inject_codec = sample_inject_codec,
      re_world_codec = \<lparr>cd_enc = (\<lambda>_. Ok []), cd_dec = (\<lambda>_. Err ''unused'')\<rparr>,
      re_snapshot_codec = \<lparr>cd_enc = (\<lambda>_. Ok []), cd_dec = (\<lambda>_. Err ''unused'')\<rparr>,
      re_status_codec = \<lparr>cd_enc = (\<lambda>_. Ok []), cd_dec = (\<lambda>_. Err ''unused'')\<rparr>,
      re_world = world_data_default,
      re_manager_status = \<lparr>tap_mode = Physical, tap_lifecycle = Running, secure_input = SecureInactive,
        secure_input_owner = None, registered_hotkeys = 1, physical_event_count = 0,
        physical_event_age_ms = None, os_disable_count = 0, os_reenable_count = 0,
        observed_at_ms = None, server_pid = 7\<rparr>,
      re_debug = (\<lambda>_. ''value'')\<rparr>"

definition sample_service :: "(unit, selector_item list, 32 word) hotkey_service" where
  "sample_service = \<lparr>svc_server = server_new 5, svc_engine = None\<rparr>"

theorem client_calls_transparent_witness:
  "fst (client_inject_key sample_rpc_env Delivered ''b'' IK_Down False sample_service) =
     Err (Rpc ''inject_key'' (with_ident ''b'' (rpc_failure_new EC_KeyNotBound ''key is not bound: b'')))
   \<and> fst (client_get_bindings sample_rpc_env Delivered sample_service) = Ok [''cmd+a'']"
proof -
  have carries: "carries (re_inject_codec sample_rpc_env) \<lparr>ik_ident = ''b'', ik_kind = IK_Down, ik_repeat = False\<rparr>"
    by (simp add: sample_rpc_env_def sample_inject_codec_carries)
  have engine: "fst (service_engine sample_rpc_env sample_service) = sample_engine"
    by (simp add: service_engine_def sample_service_def sample_rpc_env_def)
  have unbound: "dispatch_injected (re_engine sample_rpc_env) ''b'' KeyDown False sample_engine = (Ok False, sample_engine)"
    by (simp add: dispatch_injected_def chord_for_ident_def sample_engine_def register_binding_def
        binding_manager_new_def sample_api_def)
  have bound: "map fst (bindings_snapshot (en_manager sample_engine)) = [''cmd+a'']"
    by (simp add: bindings_snapshot_def sample_engine_def register_binding_def
        binding_manager_new_def sample_api_def)
  show ?thesis
    using client_calls_transparent [OF carries, of sample_service "''/c''"] engine unbound bound
    by (simp add: split_beta Let_def)
qed

end
