(* ===== verification/Client_Delivery.thy ===== *)
theory Client_Delivery
  imports Rpc_Protocol "HOL-Library.Sublist"
begin

text \<open>
  The delivery lane between a client's connection handler and the code that consumes
  the server's messages (\<open>hotki-server/src/ipc/client.rs\<close>): a bounded ordered
  channel and one slot per class of snapshot.  The handler and the consumer run on
  different threads, so a receive is a sequence of steps, one per lock it takes, and
  sends interleave with them.  There is one sender: the connection hands its
  notifications to the handler one after the other.
\<close>

subsection \<open>The lane\<close>

definition CLIENT_EVENT_CAPACITY :: nat where "CLIENT_EVENT_CAPACITY = 256"

text \<open>The fields of \<open>PendingSnapshots\<close>, in the order in which they are scanned.\<close>

datatype delivery_slot = DS_Hud | DS_Selector | DS_Heartbeat | DS_World

definition delivery_slots :: "delivery_slot list" where
  "delivery_slots = [DS_Hud, DS_Selector, DS_Heartbeat, DS_World]"

fun delivery_slot_of :: "msg_to_ui \<Rightarrow> delivery_slot option" where
  "delivery_slot_of (HudUpdate h d) = Some DS_Hud"
| "delivery_slot_of (SelectorUpdate s) = Some DS_Selector"
| "delivery_slot_of SelectorHide = Some DS_Selector"
| "delivery_slot_of (Heartbeat h) = Some DS_Heartbeat"
| "delivery_slot_of (WorldMsg w) = Some DS_World"
| "delivery_slot_of _ = None"

fun is_log_message :: "msg_to_ui \<Rightarrow> bool" where
  "is_log_message (Log l t m) = True"
| "is_log_message _ = False"

type_synonym delivery_entry = "64 word \<times> msg_to_ui"

record delivery_stats =
  ds_dropped_logs :: "64 word"
  ds_coalesced_snapshots :: "64 word"

record delivery =
  ed_ordered :: "delivery_entry list"
  ed_snapshots :: "delivery_slot \<Rightarrow> delivery_entry option"
  ed_counters :: delivery_stats
  ed_next_sequence :: "64 word"
  ed_reported_dropped :: "64 word"
  ed_buffered :: "delivery_entry option"
  ed_ordered_closed :: bool
  ed_tx_open :: bool
  ed_rx_open :: bool

definition event_delivery_channel :: delivery where
  "event_delivery_channel =
     \<lparr>ed_ordered = [], ed_snapshots = (\<lambda>_. None),
      ed_counters = \<lparr>ds_dropped_logs = 0, ds_coalesced_snapshots = 0\<rparr>, ed_next_sequence = 0,
      ed_reported_dropped = 0, ed_buffered = None, ed_ordered_closed = False,
      ed_tx_open = True, ed_rx_open = True\<rparr>"

definition delivery_next_sequence :: "(delivery_slot \<Rightarrow> delivery_entry option) \<Rightarrow> 64 word option" where
  "delivery_next_sequence s =
     (case map fst (List.map_filter s delivery_slots) of [] \<Rightarrow> None | q # qs \<Rightarrow> Some (fold min qs q))"

definition delivery_take ::
    "64 word \<Rightarrow> (delivery_slot \<Rightarrow> delivery_entry option)
     \<Rightarrow> delivery_entry option \<times> (delivery_slot \<Rightarrow> delivery_entry option)" where
  "delivery_take sequence s =
     (case find (\<lambda>c. case s c of None \<Rightarrow> False | Some e \<Rightarrow> fst e = sequence) delivery_slots of
        None \<Rightarrow> (None, s)
      | Some c \<Rightarrow> (s c, s(c := None)))"

subsection \<open>Sending\<close>

datatype delivery_outcome = DO_Queued | DO_Coalesced | DO_DroppedLogFull | DO_Closed | DO_Waiting

text \<open>
  \<open>DO_Waiting\<close> is a send that waits for room in the ordered channel; it is retried from
  its start, which has no effect before the room is found.
\<close>

definition delivery_push :: "msg_to_ui \<Rightarrow> delivery \<Rightarrow> delivery" where
  "delivery_push message d =
     d\<lparr>ed_ordered := ed_ordered d @ [(ed_next_sequence d, message)],
       ed_next_sequence := ed_next_sequence d + 1\<rparr>"

definition delivery_send :: "msg_to_ui \<Rightarrow> delivery \<Rightarrow> delivery_outcome \<times> delivery" where
  "delivery_send message d =
     (case delivery_slot_of message of
        Some c \<Rightarrow>
          (let entry = (ed_next_sequence d, message);
               coalesced = ed_snapshots d c \<noteq> None;
               d = d\<lparr>ed_next_sequence := ed_next_sequence d + 1,
                     ed_snapshots := (ed_snapshots d)(c := Some entry)\<rparr>
           in if coalesced
              then (DO_Coalesced, d\<lparr>ed_counters := (ed_counters d)
                      \<lparr>ds_coalesced_snapshots := ds_coalesced_snapshots (ed_counters d) + 1\<rparr>\<rparr>)
              else (DO_Queued, d))
      | None \<Rightarrow>
          if \<not> ed_rx_open d then (DO_Closed, d)
          else if CLIENT_EVENT_CAPACITY \<le> length (ed_ordered d) then
            (if is_log_message message
             then (DO_DroppedLogFull, d\<lparr>ed_counters := (ed_counters d)
                     \<lparr>ds_dropped_logs := ds_dropped_logs (ed_counters d) + 1\<rparr>\<rparr>)
             else (DO_Waiting, d))
          else (DO_Queued, delivery_push message d))"

text \<open>The handler of notifications from the server.\<close>

definition dec_event :: "(8 word list \<Rightarrow> string + msg_to_ui) \<Rightarrow> rpc_value \<Rightarrow> string + msg_to_ui" where
  "dec_event from_slice v =
     (case v of V_Binary b \<Rightarrow> from_slice b | _ \<Rightarrow> Err ''expected binary message payload'')"

definition client_handle_notification ::
    "(8 word list \<Rightarrow> string + msg_to_ui) \<Rightarrow> string \<Rightarrow> rpc_value list \<Rightarrow> delivery
     \<Rightarrow> delivery_outcome option \<times> delivery" where
  "client_handle_notification from_slice method params d =
     (case params of
        v # _ \<Rightarrow>
          if method = notification_str HN_Notify then
            (case dec_event from_slice v of
               Inr msg \<Rightarrow> (let (out, d) = delivery_send msg d in (Some out, d))
             | Inl _ \<Rightarrow> (None, d))
          else (None, d)
      | [] \<Rightarrow> (None, d))"

subsection \<open>Receiving\<close>

text \<open>
  Where the consumer stands: outside a call, or after it returned nothing; before it
  pulls from the ordered channel; before it looks at the snapshots; before it takes
  the snapshot with a sequence it saw.
\<close>

datatype rx_phase = Rx_Idle | Rx_Waiting | Rx_Pull | Rx_Peek | Rx_Take "64 word"

datatype rx_result = Rx_Message msg_to_ui | Rx_Summary "64 word" | Rx_Empty | Rx_Disconnected

text \<open>The summary message of a number of dropped logs; \<open>show\<close> writes a number.\<close>

definition summary_message :: "(64 word \<Rightarrow> string) \<Rightarrow> 64 word \<Rightarrow> msg_to_ui" where
  "summary_message show n =
     Log ''warn'' ''hotki_server::delivery''
       (''dropped '' @ show n @ '' server log messages under queue pressure'')"

definition dropped_log_summary :: "delivery \<Rightarrow> 64 word option \<times> delivery" where
  "dropped_log_summary d =
     (let dropped = ds_dropped_logs (ed_counters d);
          newly_dropped = (if ed_reported_dropped d \<le> dropped then dropped - ed_reported_dropped d else 0)
      in if newly_dropped = 0 then (None, d)
         else (Some newly_dropped, d\<lparr>ed_reported_dropped := dropped\<rparr>))"

text \<open>Pulling the head of the ordered channel into the buffer, or noticing that it ended.\<close>

definition delivery_pull :: "delivery \<Rightarrow> delivery" where
  "delivery_pull d =
     (case ed_ordered d of
        e # es \<Rightarrow> d\<lparr>ed_ordered := es, ed_buffered := Some e\<rparr>
      | [] \<Rightarrow> if ed_tx_open d then d else d\<lparr>ed_ordered_closed := True\<rparr>)"

text \<open>One step of the consumer, with the result when the call returns.\<close>

fun rx_step :: "rx_phase \<Rightarrow> delivery \<Rightarrow> rx_result option \<times> rx_phase \<times> delivery" where
  "rx_step Rx_Pull d =
     (None, Rx_Peek, if ed_buffered d = None \<and> \<not> ed_ordered_closed d then delivery_pull d else d)"
| "rx_step Rx_Peek d =
     (case delivery_next_sequence (ed_snapshots d) of
        Some sequence \<Rightarrow>
          if (case ed_buffered d of None \<Rightarrow> True | Some e \<Rightarrow> sequence < fst e)
          then (None, Rx_Take sequence, d)
          else (case ed_buffered d of
                  Some e \<Rightarrow> (Some (Rx_Message (snd e)), Rx_Idle, d\<lparr>ed_buffered := None\<rparr>)
                | None \<Rightarrow> (None, Rx_Peek, d))
      | None \<Rightarrow>
          (case ed_buffered d of
             Some e \<Rightarrow> (Some (Rx_Message (snd e)), Rx_Idle, d\<lparr>ed_buffered := None\<rparr>)
           | None \<Rightarrow>
               if ed_ordered_closed d then (Some Rx_Disconnected, Rx_Idle, d)
               else (Some Rx_Empty, Rx_Waiting, d)))"
| "rx_step (Rx_Take sequence) d =
     (case delivery_take sequence (ed_snapshots d) of
        (Some e, s) \<Rightarrow> (Some (Rx_Message (snd e)), Rx_Idle, d\<lparr>ed_snapshots := s\<rparr>)
      | (None, _) \<Rightarrow> (None, Rx_Pull, d))"
| "rx_step _ d =
     (case dropped_log_summary d of
        (Some n, d) \<Rightarrow> (Some (Rx_Summary n), Rx_Idle, d)
      | (None, d) \<Rightarrow> (None, Rx_Pull, d))"

subsection \<open>Sender and consumer interleaved\<close>

text \<open>
  \<open>DI_Wake\<close> is the branch of \<open>recv\<close> in which a waiting consumer is handed the next
  ordered entry; \<open>DI_Step\<close> is a step of a call, or starts one.
\<close>

datatype delivery_input = DI_Send msg_to_ui | DI_Step | DI_Wake | DI_SenderGone | DI_ReceiverGone

datatype delivery_label = DL_Sent msg_to_ui delivery_outcome | DL_Result rx_result

type_synonym delivery_system = "rx_phase \<times> delivery \<times> delivery_label list"

fun delivery_step :: "delivery_input \<Rightarrow> delivery_system \<Rightarrow> delivery_system" where
  "delivery_step (DI_Send message) (p, d, h) =
     (if ed_tx_open d
      then let (out, d) = delivery_send message d in (p, d, h @ [DL_Sent message out]) else (p, d, h))"
| "delivery_step DI_Step (p, d, h) =
     (if ed_rx_open d
      then let (r, p, d) = rx_step p d
           in (p, d, case r of Some x \<Rightarrow> h @ [DL_Result x] | None \<Rightarrow> h)
      else (p, d, h))"
| "delivery_step DI_Wake (p, d, h) = (if ed_rx_open d \<and> p = Rx_Waiting then (Rx_Idle, delivery_pull d, h) else (p, d, h))"
| "delivery_step DI_SenderGone (p, d, h) = (p, d\<lparr>ed_tx_open := False\<rparr>, h)"
| "delivery_step DI_ReceiverGone (p, d, h) = (p, d\<lparr>ed_rx_open := False\<rparr>, h)"

definition delivery_run :: "delivery_input list \<Rightarrow> delivery_system" where
  "delivery_run inputs = fold delivery_step inputs (Rx_Idle, event_delivery_channel, [])"

subsection \<open>Histories\<close>

definition project :: "('a \<Rightarrow> 'b option) \<Rightarrow> 'a list \<Rightarrow> 'b list" where
  "project f h = concat (map (\<lambda>l. case f l of Some x \<Rightarrow> [x] | None \<Rightarrow> []) h)"

lemma project_simps [simp]:
  "project f [] = []" "project f (h @ h') = project f h @ project f h'"
  "project f [l] = (case f l of Some x \<Rightarrow> [x] | None \<Rightarrow> [])"
  by (simp_all add: project_def)

fun queued_ordered :: "delivery_label \<Rightarrow> msg_to_ui option" where
  "queued_ordered (DL_Sent m DO_Queued) = (if delivery_slot_of m = None then Some m else None)"
| "queued_ordered _ = None"

fun received_ordered :: "delivery_label \<Rightarrow> msg_to_ui option" where
  "received_ordered (DL_Result (Rx_Message m)) = (if delivery_slot_of m = None then Some m else None)"
| "received_ordered _ = None"

fun sent_snapshot :: "delivery_slot \<Rightarrow> delivery_label \<Rightarrow> msg_to_ui option" where
  "sent_snapshot c (DL_Sent m out) = (if delivery_slot_of m = Some c then Some m else None)"
| "sent_snapshot c _ = None"

fun received_snapshot :: "delivery_slot \<Rightarrow> delivery_label \<Rightarrow> msg_to_ui option" where
  "received_snapshot c (DL_Result (Rx_Message m)) = (if delivery_slot_of m = Some c then Some m else None)"
| "received_snapshot c _ = None"

fun dropped_log :: "delivery_label \<Rightarrow> msg_to_ui option" where
  "dropped_log (DL_Sent m DO_DroppedLogFull) = Some m"
| "dropped_log _ = None"

fun summary_count :: "delivery_label \<Rightarrow> 64 word option" where
  "summary_count (DL_Result (Rx_Summary n)) = Some n"
| "summary_count _ = None"

definition last_opt :: "'a list \<Rightarrow> 'a option" where
  "last_opt xs = (if xs = [] then None else Some (last xs))"

lemma last_opt_snoc [simp]: "last_opt (xs @ [x]) = Some x" "last_opt [] = None"
  by (simp_all add: last_opt_def)

lemma last_opt_append: "last_opt (xs @ ys) = (case last_opt ys of None \<Rightarrow> last_opt xs | Some y \<Rightarrow> Some y)"
  by (simp add: last_opt_def)

text \<open>What waits to be received: the ordered entries, and the snapshot of a class.\<close>

definition held_ordered :: "delivery \<Rightarrow> msg_to_ui list" where
  "held_ordered d = (case ed_buffered d of Some e \<Rightarrow> [snd e] | None \<Rightarrow> []) @ map snd (ed_ordered d)"

definition held_snapshot :: "delivery \<Rightarrow> delivery_slot \<Rightarrow> msg_to_ui list" where
  "held_snapshot d c = (case ed_snapshots d c of Some e \<Rightarrow> [snd e] | None \<Rightarrow> [])"

definition slots_ok :: "delivery \<Rightarrow> bool" where
  "slots_ok d \<longleftrightarrow>
     (\<forall>c e. ed_snapshots d c = Some e \<longrightarrow> delivery_slot_of (snd e) = Some c)
     \<and> list_all (\<lambda>m. delivery_slot_of m = None) (held_ordered d)
     \<and> length (ed_ordered d) \<le> CLIENT_EVENT_CAPACITY
     \<and> (ed_ordered_closed d \<longrightarrow> \<not> ed_tx_open d \<and> ed_ordered d = [])"

definition delivery_inv :: "delivery_system \<Rightarrow> bool" where
  "delivery_inv sys =
     (case sys of (p, d, h) \<Rightarrow>
       slots_ok d
       \<and> (p = Rx_Waiting \<longrightarrow> ed_buffered d = None)
       \<and> project queued_ordered h = project received_ordered h @ held_ordered d
       \<and> (\<forall>c. subseq (project (received_snapshot c) h @ held_snapshot d c) (project (sent_snapshot c) h)
            \<and> last_opt (project (received_snapshot c) h @ held_snapshot d c)
              = last_opt (project (sent_snapshot c) h))
       \<and> ds_dropped_logs (ed_counters d) = of_nat (length (project dropped_log h))
       \<and> ed_reported_dropped d = sum_list (project summary_count h)
       \<and> (DL_Result Rx_Disconnected \<in> set h \<longrightarrow>
            \<not> ed_tx_open d \<and> held_ordered d = [] \<and> (\<forall>c. held_snapshot d c = [])))"

lemma held_simps [simp]:
  "held_ordered (d\<lparr>ed_buffered := None\<rparr>) = map snd (ed_ordered d)"
  "held_ordered (d\<lparr>ed_snapshots := s\<rparr>) = held_ordered d"
  "held_ordered (d\<lparr>ed_counters := k\<rparr>) = held_ordered d"
  "held_ordered (d\<lparr>ed_next_sequence := q\<rparr>) = held_ordered d"
  "held_ordered (d\<lparr>ed_reported_dropped := n\<rparr>) = held_ordered d"
  "held_ordered (d\<lparr>ed_ordered_closed := b\<rparr>) = held_ordered d"
  "held_ordered (d\<lparr>ed_tx_open := b\<rparr>) = held_ordered d"
  "held_ordered (d\<lparr>ed_rx_open := b\<rparr>) = held_ordered d"
  "held_ordered (delivery_push m d) = held_ordered d @ [m]"
  by (simp_all add: held_ordered_def delivery_push_def)

lemma held_snapshot_simps [simp]:
  "held_snapshot (d\<lparr>ed_snapshots := s\<rparr>) c = (case s c of Some e \<Rightarrow> [snd e] | None \<Rightarrow> [])"
  "held_snapshot (d\<lparr>ed_buffered := b\<rparr>) c = held_snapshot d c"
  "held_snapshot (d\<lparr>ed_counters := k\<rparr>) c = held_snapshot d c"
  "held_snapshot (d\<lparr>ed_next_sequence := q\<rparr>) c = held_snapshot d c"
  "held_snapshot (d\<lparr>ed_reported_dropped := n\<rparr>) c = held_snapshot d c"
  "held_snapshot (d\<lparr>ed_ordered_closed := t\<rparr>) c = held_snapshot d c"
  "held_snapshot (d\<lparr>ed_tx_open := t\<rparr>) c = held_snapshot d c"
  "held_snapshot (d\<lparr>ed_rx_open := t\<rparr>) c = held_snapshot d c"
  "held_snapshot (delivery_push m d) c = held_snapshot d c"
  "held_snapshot (delivery_pull d) c = held_snapshot d c"
  by (auto simp: held_snapshot_def delivery_push_def delivery_pull_def split: list.split)

lemma held_pull [simp]: "ed_buffered d = None \<Longrightarrow> held_ordered (delivery_pull d) = held_ordered d"
  by (auto simp: held_ordered_def delivery_pull_def split: list.split)

lemma pull_frame [simp]:
  "ed_counters (delivery_pull d) = ed_counters d" "ed_reported_dropped (delivery_pull d) = ed_reported_dropped d"
  "ed_tx_open (delivery_pull d) = ed_tx_open d" "ed_snapshots (delivery_pull d) = ed_snapshots d"
  "ed_counters (delivery_push m d) = ed_counters d" "ed_reported_dropped (delivery_push m d) = ed_reported_dropped d"
  "ed_tx_open (delivery_push m d) = ed_tx_open d" "ed_buffered (delivery_push m d) = ed_buffered d"
  by (auto simp: delivery_pull_def delivery_push_def split: list.split)

lemma slots_ok_pull:
  "slots_ok d \<Longrightarrow> ed_buffered d = None \<Longrightarrow> slots_ok (delivery_pull d)"
  by (auto simp: slots_ok_def delivery_pull_def held_ordered_def split: list.split)

lemma delivery_take_cases:
  obtains "delivery_take q s = (None, s)"
  | c e where "delivery_take q s = (Some e, s(c := None))" "s c = Some e"
proof (cases "find (\<lambda>c. case s c of None \<Rightarrow> False | Some e \<Rightarrow> fst e = q) delivery_slots")
  case None
  then have "delivery_take q s = (None, s)" by (simp add: delivery_take_def)
  then show thesis by (rule that(1))
next
  case (Some c)
  then obtain e where "s c = Some e" by (auto simp: find_Some_iff split: option.splits)
  with Some have "delivery_take q s = (Some e, s(c := None))" by (simp add: delivery_take_def)
  then show thesis using \<open>s c = Some e\<close> by (rule that(2))
qed

subsection \<open>Every interleaving keeps the invariant\<close>

lemma subseq_appendD: "subseq (r @ old) ys \<Longrightarrow> subseq r ys"
  by (rule subseq_order.trans [of r "r @ old"]) auto

lemma delivery_send_inv:
  assumes inv: "delivery_inv (p, d, h)" and "ed_tx_open d" and s: "delivery_send m d = (out, d')"
  shows "delivery_inv (p, d', h @ [DL_Sent m out])"
proof (cases "delivery_slot_of m")
  case (Some c)
  let ?s = "(ed_snapshots d)(c := Some (ed_next_sequence d, m))"
  have d'_cases: "out = DO_Queued \<and> d' = d\<lparr>ed_next_sequence := ed_next_sequence d + 1, ed_snapshots := ?s\<rparr>
    \<or> out = DO_Coalesced \<and> d' = d\<lparr>ed_next_sequence := ed_next_sequence d + 1, ed_snapshots := ?s,
         ed_counters := (ed_counters d)\<lparr>ds_coalesced_snapshots := ds_coalesced_snapshots (ed_counters d) + 1\<rparr>\<rparr>"
    using s Some by (simp add: delivery_send_def Let_def split: if_splits)
  then have out: "out \<noteq> DO_DroppedLogFull" by auto
  have "slots_ok d" using inv by (simp add: delivery_inv_def)
  then have ok: "slots_ok (d\<lparr>ed_next_sequence := q, ed_snapshots := ?s\<rparr>)"
    "slots_ok (d\<lparr>ed_next_sequence := q, ed_snapshots := ?s, ed_counters := k\<rparr>)" for q k
    using Some by (simp_all add: slots_ok_def)
  have snap: "held_snapshot d' = (held_snapshot d)(c := [m])"
    using d'_cases by (elim disjE) (simp_all add: held_snapshot_def fun_eq_iff)
  have d': "slots_ok d'" "ed_buffered d' = ed_buffered d" "held_ordered d' = held_ordered d" "ed_tx_open d' = ed_tx_open d"
    "ds_dropped_logs (ed_counters d') = ds_dropped_logs (ed_counters d)" "ed_reported_dropped d' = ed_reported_dropped d"
    "held_snapshot d' = (held_snapshot d)(c := [m])"
    using d'_cases ok snap by (elim disjE; simp)+
  have "queued_ordered (DL_Sent m out) = None" "dropped_log (DL_Sent m out) = None"
    using Some out by (cases out; simp)+
  then show ?thesis
    using inv \<open>ed_tx_open d\<close> d' Some
    by (auto simp: delivery_inv_def intro: subseq_appendD)
next
  case None
  then consider "out = DO_Queued" "d' = delivery_push m d" "length (ed_ordered d) < CLIENT_EVENT_CAPACITY"
    | "out = DO_DroppedLogFull" "d' = d\<lparr>ed_counters := (ed_counters d)
                     \<lparr>ds_dropped_logs := ds_dropped_logs (ed_counters d) + 1\<rparr>\<rparr>"
    | "out = DO_Waiting \<or> out = DO_Closed" "d' = d"
    using s by (auto simp: delivery_send_def split: if_splits)
  then show ?thesis
  proof cases
    case 1
    moreover have "slots_ok (delivery_push m d)"
      using inv 1(3) None \<open>ed_tx_open d\<close>
      by (auto simp: delivery_inv_def slots_ok_def delivery_push_def held_ordered_def split: option.splits)
    ultimately show ?thesis
      using inv \<open>ed_tx_open d\<close> None by (auto simp: delivery_inv_def)
  next
    case 2
    moreover have "slots_ok d'" using inv 2(2) by (auto simp: delivery_inv_def slots_ok_def)
    ultimately show ?thesis
      using inv \<open>ed_tx_open d\<close> None by (auto simp: delivery_inv_def held_snapshot_def)
  next
    case 3
    then show ?thesis using inv None by (auto simp: delivery_inv_def)
  qed
qed

text \<open>A result that hands out what waited first.\<close>

lemma deliver_buffered_inv:
  assumes inv: "delivery_inv (p, d, h)" and b: "ed_buffered d = Some e"
  shows "delivery_inv (Rx_Idle, d\<lparr>ed_buffered := None\<rparr>, h @ [DL_Result (Rx_Message (snd e))])"
proof -
  have h: "held_ordered d = snd e # map snd (ed_ordered d)" using b by (simp add: held_ordered_def)
  then have "delivery_slot_of (snd e) = None" "slots_ok (d\<lparr>ed_buffered := None\<rparr>)"
    using inv by (auto simp: delivery_inv_def slots_ok_def)
  then show ?thesis using inv h by (auto simp: delivery_inv_def)
qed

lemma deliver_snapshot_inv:
  assumes inv: "delivery_inv (p, d, h)" and c: "ed_snapshots d c = Some (q, m)"
  shows "delivery_inv (Rx_Idle, d\<lparr>ed_snapshots := (ed_snapshots d)(c := None)\<rparr>, h @ [DL_Result (Rx_Message m)])"
proof -
  have e: "delivery_slot_of m = Some c" using inv c by (fastforce simp: delivery_inv_def slots_ok_def)
  have h: "held_snapshot d c = [m]" using c by (simp add: held_snapshot_def)
  have "slots_ok (d\<lparr>ed_snapshots := (ed_snapshots d)(c := None)\<rparr>)"
    using inv by (auto simp: delivery_inv_def slots_ok_def)
  moreover have "project (received_snapshot c') (h @ [DL_Result (Rx_Message m)])
      @ held_snapshot (d\<lparr>ed_snapshots := (ed_snapshots d)(c := None)\<rparr>) c'
    = project (received_snapshot c') h @ held_snapshot d c'" for c'
    using e h by (auto simp: held_snapshot_def)
  moreover have "DL_Result Rx_Disconnected \<notin> set h" using inv h by (auto simp: delivery_inv_def)
  ultimately show ?thesis using inv e by (simp add: delivery_inv_def)
qed

lemma delivery_inv_phase:
  "delivery_inv (p, d, h) \<Longrightarrow> (q = Rx_Waiting \<Longrightarrow> ed_buffered d = None) \<Longrightarrow> delivery_inv (q, d, h)"
  by (auto simp: delivery_inv_def)

lemma pull_inv:
  "delivery_inv (p, d, h) \<Longrightarrow> ed_buffered d = None \<Longrightarrow> q \<noteq> Rx_Waiting \<Longrightarrow> delivery_inv (q, delivery_pull d, h)"
  by (auto simp: delivery_inv_def slots_ok_pull)

lemma next_sequence_None:
  "delivery_next_sequence s = None \<longleftrightarrow> (\<forall>c. s c = None)"
proof -
  have "List.map_filter s cs = [] \<longleftrightarrow> (\<forall>c \<in> set cs. s c = None)" for cs
    by (induction cs) (simp_all add: map_filter_simps split: option.split)
  moreover have "set delivery_slots = UNIV" by (auto simp: delivery_slots_def intro: delivery_slot.exhaust)
  ultimately have "List.map_filter s delivery_slots = [] \<longleftrightarrow> (\<forall>c. s c = None)" by simp
  then show ?thesis by (cases "List.map_filter s delivery_slots") (simp_all add: delivery_next_sequence_def)
qed

lemma disconnected_inv:
  assumes inv: "delivery_inv (p, d, h)" and "ed_buffered d = None" "ed_ordered_closed d" "delivery_next_sequence (ed_snapshots d) = None"
  shows "delivery_inv (Rx_Idle, d, h @ [DL_Result Rx_Disconnected])"
proof -
  have "held_ordered d = []" "held_snapshot d c = []" "\<not> ed_tx_open d" for c
    using assms by (auto simp: delivery_inv_def slots_ok_def held_ordered_def held_snapshot_def next_sequence_None)
  then show ?thesis using inv by (simp add: delivery_inv_def)
qed

lemma empty_inv:
  "delivery_inv (p, d, h) \<Longrightarrow> ed_buffered d = None \<Longrightarrow> delivery_inv (Rx_Waiting, d, h @ [DL_Result Rx_Empty])"
  by (simp add: delivery_inv_def)

lemma start_call_inv:
  assumes inv: "delivery_inv (p, d, h)" and s: "dropped_log_summary d = (r, d')"
  shows "case r of Some n \<Rightarrow> delivery_inv (Rx_Idle, d', h @ [DL_Result (Rx_Summary n)]) | None \<Rightarrow> delivery_inv (Rx_Pull, d', h)"
proof (cases r)
  case None
  then have "d' = d" using s by (auto simp: dropped_log_summary_def Let_def split: if_splits)
  then show ?thesis using inv None by (auto intro: delivery_inv_phase)
next
  case (Some n)
  then have d': "d' = d\<lparr>ed_reported_dropped := ds_dropped_logs (ed_counters d)\<rparr>"
    "n = ds_dropped_logs (ed_counters d) - ed_reported_dropped d"
    using s by (auto simp: dropped_log_summary_def Let_def split: if_splits)
  moreover have "slots_ok d'" using inv d'(1) by (auto simp: delivery_inv_def slots_ok_def)
  ultimately show ?thesis using inv Some by (simp add: delivery_inv_def)
qed

lemma rx_step_inv:
  assumes inv: "delivery_inv (p, d, h)" and s: "rx_step p d = (r, p', d')"
  shows "delivery_inv (p', d', case r of Some x \<Rightarrow> h @ [DL_Result x] | None \<Rightarrow> h)"
proof (cases p)
  case Rx_Pull
  then show ?thesis using inv s by (auto intro: pull_inv delivery_inv_phase split: if_splits)
next
  case Rx_Peek
  then show ?thesis
    using inv s by (auto intro: deliver_buffered_inv disconnected_inv empty_inv delivery_inv_phase
        split: option.splits if_splits)
next
  case (Rx_Take q)
  show ?thesis
    using inv s Rx_Take
    by (cases rule: delivery_take_cases [of q "ed_snapshots d"])
      (auto intro: deliver_snapshot_inv delivery_inv_phase)
next
  case Rx_Idle
  then show ?thesis using start_call_inv [OF inv] s by (auto split: prod.splits option.splits)
next
  case Rx_Waiting
  then show ?thesis using start_call_inv [OF inv] s by (auto split: prod.splits option.splits)
qed

lemma delivery_step_inv: "delivery_inv sys \<Longrightarrow> delivery_inv (delivery_step i sys)"
proof (cases sys)
  case (fields p d h)
  assume inv: "delivery_inv sys"
  show ?thesis
  proof (cases i)
    case (DI_Send m)
    then show ?thesis using inv fields by (auto split: prod.split intro: delivery_send_inv)
  next
    case DI_Step
    then show ?thesis using inv fields by (auto simp: Let_def split: prod.split dest: rx_step_inv)
  next
    case DI_Wake
    then show ?thesis using inv fields by (auto intro: pull_inv simp: delivery_inv_def [of "(Rx_Waiting, d, h)"])
  next
    case DI_SenderGone
    then show ?thesis using inv fields by (auto simp: delivery_inv_def slots_ok_def)
  next
    case DI_ReceiverGone
    then show ?thesis using inv fields by (auto simp: delivery_inv_def slots_ok_def)
  qed
qed

lemma delivery_run_inv: "delivery_inv (delivery_run inputs)"
proof -
  have "delivery_inv (Rx_Idle, event_delivery_channel, [])"
    by (simp add: delivery_inv_def slots_ok_def event_delivery_channel_def held_ordered_def held_snapshot_def)
  then show ?thesis
    unfolding delivery_run_def by (induction inputs rule: rev_induct) (simp_all add: delivery_step_inv)
qed

text \<open>
  C16: Whatever the interleaving of the sender with the steps of the consumer, a client receives
  the ordered messages that were queued, each once and in order, and what it has not received
  is in the lane, which holds at most 256. Of every class of snapshots it receives a
  subsequence that, with the pending one, ends with the last snapshot sent. The drop counter
  counts the dropped logs and the summaries add up to what was reported.
\<close>

theorem client_delivery_exact:
  "let (p, d, h) = delivery_run inputs
   in project queued_ordered h = project received_ordered h @ held_ordered d
      \<and> length (ed_ordered d) \<le> CLIENT_EVENT_CAPACITY
      \<and> (\<forall>c. subseq (project (received_snapshot c) h @ held_snapshot d c) (project (sent_snapshot c) h)
           \<and> last_opt (project (received_snapshot c) h @ held_snapshot d c)
             = last_opt (project (sent_snapshot c) h))
      \<and> ds_dropped_logs (ed_counters d) = of_nat (length (project dropped_log h))
      \<and> ed_reported_dropped d = sum_list (project summary_count h)"
  using delivery_run_inv [of inputs] by (auto simp: delivery_inv_def slots_ok_def)

text \<open>A consumer that is told of the end has received everything that was queued.\<close>

lemma disconnected_received_all:
  assumes "delivery_run inputs = (p, d, h)" "DL_Result Rx_Disconnected \<in> set h"
  shows "project queued_ordered h = project received_ordered h"
    and "last_opt (project (received_snapshot c) h) = last_opt (project (sent_snapshot c) h)"
  using delivery_run_inv [of inputs] assms by (auto simp: delivery_inv_def)

text \<open>
  The lane gives every message a sequence number so that messages of different classes
  arrive in the order in which they were sent, and they do when nothing is sent during
  a receive.  A message sent between the pull and the look at the snapshots, with a
  snapshot after it, arrives after that snapshot.
\<close>

lemma sequence_order_quiet:
  "project (\<lambda>l. case l of DL_Result (Rx_Message m) \<Rightarrow> Some m | _ \<Rightarrow> None)
     (snd (snd (delivery_run ([DI_Send ClearNotifications, DI_Send SelectorHide] @ replicate 8 DI_Step))))
   = [ClearNotifications, SelectorHide]"
  by (simp add: delivery_run_def eval_nat_numeral event_delivery_channel_def delivery_send_def delivery_push_def
      CLIENT_EVENT_CAPACITY_def delivery_pull_def dropped_log_summary_def delivery_next_sequence_def delivery_take_def
      delivery_slots_def map_filter_simps project_def Let_def)

lemma sequence_order_raced:
  "project (\<lambda>l. case l of DL_Result (Rx_Message m) \<Rightarrow> Some m | _ \<Rightarrow> None)
     (snd (snd (delivery_run ([DI_Step, DI_Step, DI_Send ClearNotifications, DI_Send SelectorHide] @ replicate 6 DI_Step))))
   = [SelectorHide, ClearNotifications]"
  by (simp add: delivery_run_def eval_nat_numeral event_delivery_channel_def delivery_send_def delivery_push_def
      CLIENT_EVENT_CAPACITY_def delivery_pull_def dropped_log_summary_def delivery_next_sequence_def delivery_take_def
      delivery_slots_def map_filter_simps project_def Let_def)

end
