(* ===== verification/Server_Process.thy ===== *)
theory Server_Process
  imports Hotki_Text Rpc_Service
begin

text \<open>
  The client's management of a server process: the arguments a server is spawned with
  and its termination (\<open>hotki-server/src/process.rs\<close>), the spawn and connection
  policy (\<open>managed_server.rs\<close>) and the client that holds the connection
  (\<open>client.rs\<close>).  What the operating system answers is an environment: the results
  of the successive polls of the child, of the connection attempts with the time they
  take, and of the signals.  Times are milliseconds.
\<close>

subsection \<open>Arguments\<close>

abbreviation SERVER_FLAG :: string where "SERVER_FLAG \<equiv> ''--server''"
abbreviation SOCKET_FLAG :: string where "SOCKET_FLAG \<equiv> ''--socket''"
abbreviation DISABLE_EVENT_TAP_FLAG :: string where "DISABLE_EVENT_TAP_FLAG \<equiv> ''--disable-event-tap''"
abbreviation PARENT_PID_FLAG :: string where "PARENT_PID_FLAG \<equiv> ''--parent-pid''"
abbreviation LOG_FILTER_FLAG :: string where "LOG_FILTER_FLAG \<equiv> ''--log-filter''"

fun drop_flag_pairs :: "string \<Rightarrow> string list \<Rightarrow> string list" where
  "drop_flag_pairs flag [] = []"
| "drop_flag_pairs flag [a] = (if a = flag then [] else [a])"
| "drop_flag_pairs flag (a # v # args) =
     (if a = flag then drop_flag_pairs flag args else a # drop_flag_pairs flag (v # args))"

definition replace_flag_pair :: "string list \<Rightarrow> string \<Rightarrow> string \<Rightarrow> string list" where
  "replace_flag_pair args flag value = drop_flag_pairs flag args @ [flag, value]"

definition set_plain_flag :: "string list \<Rightarrow> string \<Rightarrow> bool \<Rightarrow> string list" where
  "set_plain_flag args flag enabled = filter (\<lambda>a. a \<noteq> flag) args @ (if enabled then [flag] else [])"

record process_config =
  pc_executable :: string
  pc_args :: "string list"

definition process_config_new :: "string \<Rightarrow> process_config" where
  "process_config_new executable = \<lparr>pc_executable = executable, pc_args = [SERVER_FLAG]\<rparr>"

definition pc_ensure_server_mode :: "process_config \<Rightarrow> process_config" where
  "pc_ensure_server_mode c =
     (if SERVER_FLAG \<in> set (pc_args c) then c else c\<lparr>pc_args := SERVER_FLAG # pc_args c\<rparr>)"

definition pc_set_socket_path :: "string \<Rightarrow> process_config \<Rightarrow> process_config" where
  "pc_set_socket_path path c = c\<lparr>pc_args := replace_flag_pair (pc_args c) SOCKET_FLAG path\<rparr>"

definition pc_set_parent_pid :: "32 word \<Rightarrow> process_config \<Rightarrow> process_config" where
  "pc_set_parent_pid pid c = c\<lparr>pc_args := replace_flag_pair (pc_args c) PARENT_PID_FLAG (string_of_nat (unat pid))\<rparr>"

definition pc_set_log_filter :: "string \<Rightarrow> process_config \<Rightarrow> process_config" where
  "pc_set_log_filter flt c = c\<lparr>pc_args := replace_flag_pair (pc_args c) LOG_FILTER_FLAG flt\<rparr>"

definition pc_set_event_tap_enabled :: "bool \<Rightarrow> process_config \<Rightarrow> process_config" where
  "pc_set_event_tap_enabled enabled c =
     c\<lparr>pc_args := set_plain_flag (pc_args c) DISABLE_EVENT_TAP_FLAG (\<not> enabled)\<rparr>"

subsection \<open>The environment\<close>

datatype wait_result = Still_Running | Has_Exited string | Wait_Error string

text \<open>
  \<open>os_wait n\<close> is the result of the \<open>n\<close>-th poll of the child, \<open>os_probe n\<close> whether the
  signal probe after it finds the process, \<open>os_connect n\<close> the \<open>n\<close>-th connection attempt
  with its duration; \<open>os_kill\<close> is the result of the kill and \<open>os_reap\<close> that of the blocking wait
  after it.
\<close>

record os_env =
  os_spawn :: "string + 32 word"
  os_wait :: "nat \<Rightarrow> wait_result"
  os_probe :: "nat \<Rightarrow> bool"
  os_connect :: "nat \<Rightarrow> nat \<times> (server_error + unit)"
  os_kill :: "string + unit"
  os_reap :: "string + unit"

datatype process_event = Spawned process_config | Sent_Sigterm | Sent_Sigkill | Reaped | Attempted

record os_state =
  ot_now :: nat
  ot_polls :: nat
  ot_attempts :: nat
  ot_events :: "process_event list"

definition log_event :: "process_event \<Rightarrow> os_state \<Rightarrow> os_state" where
  "log_event ev t = t\<lparr>ot_events := ot_events t @ [ev]\<rparr>"

definition pass_time :: "nat \<Rightarrow> os_state \<Rightarrow> os_state" where
  "pass_time d t = t\<lparr>ot_now := ot_now t + d\<rparr>"

text \<open>A poll that finds the child exited reaps it.\<close>

definition poll_child :: "os_env \<Rightarrow> os_state \<Rightarrow> wait_result \<times> os_state" where
  "poll_child env t =
     (let t' = t\<lparr>ot_polls := ot_polls t + 1\<rparr>
      in case os_wait env (ot_polls t) of
           Has_Exited status \<Rightarrow> (Has_Exited status, log_event Reaped t')
         | w \<Rightarrow> (w, t'))"

subsection \<open>The server process\<close>

record server_process =
  sp_child :: "32 word option"
  sp_config :: process_config
  sp_is_running :: bool

definition server_process_new :: "process_config \<Rightarrow> server_process" where
  "server_process_new c = \<lparr>sp_child = None, sp_config = c, sp_is_running = False\<rparr>"

definition sp_check_running :: "os_env \<Rightarrow> server_process \<Rightarrow> os_state \<Rightarrow> bool \<times> server_process \<times> os_state" where
  "sp_check_running env p t =
     (case sp_child p of
        None \<Rightarrow> (False, p, t)
      | Some _ \<Rightarrow>
          (let alive = os_probe env (ot_polls t); (w, t) = poll_child env t
           in case w of
                Has_Exited _ \<Rightarrow> (False, p\<lparr>sp_is_running := False\<rparr>, t)
              | _ \<Rightarrow> (alive, p\<lparr>sp_is_running := alive\<rparr>, t)))"

definition sp_start :: "os_env \<Rightarrow> server_process \<Rightarrow> os_state \<Rightarrow> (server_error + unit) \<times> server_process \<times> os_state" where
  "sp_start env p t =
     (case sp_check_running env p t of
        (True, p, t) \<Rightarrow> (Err (HotkeyOperation ''Server is already running''), p, t)
      | (False, p, t) \<Rightarrow>
          (case os_spawn env of
             Inl e \<Rightarrow> (Err (Io e), p, t)
           | Inr pid \<Rightarrow>
               (case sp_check_running env (p\<lparr>sp_child := Some pid, sp_is_running := True\<rparr>)
                       (log_event (Spawned (sp_config p)) t) of
                  (True, p, t) \<Rightarrow> (Ok (), p, t)
                | (False, p, t) \<Rightarrow> (Err (HotkeyOperation ''Server process died during startup''), p, t))))"

definition sp_try_wait :: "os_env \<Rightarrow> server_process \<Rightarrow> os_state
    \<Rightarrow> (server_error + string option) \<times> server_process \<times> os_state" where
  "sp_try_wait env p t =
     (case sp_child p of
        None \<Rightarrow> (Ok None, p\<lparr>sp_is_running := False\<rparr>, t)
      | Some _ \<Rightarrow>
          (case poll_child env t of
             (Has_Exited status, t) \<Rightarrow> (Ok (Some status), p\<lparr>sp_is_running := False\<rparr>, t)
           | (Still_Running, t) \<Rightarrow> (Ok None, p, t)
           | (Wait_Error e, t) \<Rightarrow> (Err (Io e), p, t)))"

definition TERM_WAIT_TIMEOUT_MS :: nat where "TERM_WAIT_TIMEOUT_MS = 300"
definition TERM_POLL_INTERVAL_MS :: nat where "TERM_POLL_INTERVAL_MS = 10"

function wait_exit :: "os_env \<Rightarrow> nat \<Rightarrow> os_state \<Rightarrow> bool \<times> os_state" where
  "wait_exit env deadline t =
     (if ot_now t < deadline then
        (case poll_child env t of
           (Has_Exited _, t') \<Rightarrow> (True, t')
         | (Wait_Error _, t') \<Rightarrow> (False, t')
         | (Still_Running, t') \<Rightarrow> wait_exit env deadline (pass_time TERM_POLL_INTERVAL_MS t'))
      else (False, t))"
  by pat_completeness auto
termination
  by (relation "measure (\<lambda>(env, deadline, t). deadline - ot_now t)")
    (auto simp: poll_child_def pass_time_def log_event_def TERM_POLL_INTERVAL_MS_def Let_def split: wait_result.splits)

declare wait_exit.simps [simp del]

text \<open>The wait after a kill, whose failure is only logged.\<close>

definition reap_killed :: "os_env \<Rightarrow> os_state \<Rightarrow> os_state" where
  "reap_killed env t = (case os_reap env of Inl _ \<Rightarrow> t | Inr _ \<Rightarrow> log_event Reaped t)"

definition terminate_child :: "os_env \<Rightarrow> os_state \<Rightarrow> (server_error + unit) \<times> os_state" where
  "terminate_child env t =
     (case wait_exit env (ot_now t + TERM_WAIT_TIMEOUT_MS) (log_event Sent_Sigterm t) of
        (True, t) \<Rightarrow> (Ok (), t)
      | (False, t) \<Rightarrow>
          (case os_kill env of
             Inl e \<Rightarrow> (Err (Io e), t)
           | Inr _ \<Rightarrow> (Ok (), reap_killed env (log_event Sent_Sigkill t))))"

definition sp_stop :: "os_env \<Rightarrow> server_process \<Rightarrow> os_state \<Rightarrow> (server_error + unit) \<times> server_process \<times> os_state" where
  "sp_stop env p t =
     (case sp_child p of
        None \<Rightarrow> (Ok (), p, t)
      | Some _ \<Rightarrow>
          (let p = p\<lparr>sp_child := None\<rparr> in
           case poll_child env t of
             (Wait_Error e, t) \<Rightarrow> (Err (Io e), p, t)
           | (Has_Exited _, t) \<Rightarrow> (Ok (), p\<lparr>sp_is_running := False\<rparr>, t)
           | (Still_Running, t) \<Rightarrow>
               (case terminate_child env t of
                  (Inl e, t) \<Rightarrow> (Err e, p, t)
                | (Inr _, t) \<Rightarrow> (Ok (), p\<lparr>sp_is_running := False\<rparr>, t))))"

text \<open>The blocking variants that a drop uses: a failed poll does not end the wait.\<close>

function wait_exit_sync :: "os_env \<Rightarrow> nat \<Rightarrow> os_state \<Rightarrow> bool \<times> os_state" where
  "wait_exit_sync env deadline t =
     (if ot_now t < deadline then
        (case poll_child env t of
           (Has_Exited _, t') \<Rightarrow> (True, t')
         | (_, t') \<Rightarrow> wait_exit_sync env deadline (pass_time TERM_POLL_INTERVAL_MS t'))
      else (False, t))"
  by pat_completeness auto
termination
  by (relation "measure (\<lambda>(env, deadline, t). deadline - ot_now t)")
    (auto simp: poll_child_def pass_time_def log_event_def TERM_POLL_INTERVAL_MS_def Let_def split: wait_result.splits)

declare wait_exit_sync.simps [simp del]

definition terminate_child_sync :: "os_env \<Rightarrow> os_state \<Rightarrow> os_state" where
  "terminate_child_sync env t =
     (case wait_exit_sync env (ot_now t + TERM_WAIT_TIMEOUT_MS) (log_event Sent_Sigterm t) of
        (True, t) \<Rightarrow> t
      | (False, t) \<Rightarrow> reap_killed env (if is_ok (os_kill env) then log_event Sent_Sigkill t else t))"

definition sp_drop :: "os_env \<Rightarrow> server_process \<Rightarrow> os_state \<Rightarrow> os_state" where
  "sp_drop env p t =
     (case sp_check_running env p t of
        (True, p, t) \<Rightarrow> if sp_child p = None then t else terminate_child_sync env t
      | (False, p, t) \<Rightarrow> t)"

subsection \<open>The managed server\<close>

record retry_policy =
  rp_poll_timeout :: nat
  rp_initial_delay :: nat
  rp_max_delay :: nat
  rp_delay_step :: nat
  rp_connect_timeout :: nat
  rp_connect_attempts :: nat
  rp_retry_delay :: nat

definition DEFAULT_RETRY_POLICY :: retry_policy where
  "DEFAULT_RETRY_POLICY =
     \<lparr>rp_poll_timeout = 1000, rp_initial_delay = 10, rp_max_delay = 100, rp_delay_step = 10,
      rp_connect_timeout = 5000, rp_connect_attempts = 5, rp_retry_delay = 200\<rparr>"

definition next_startup_delay :: "retry_policy \<Rightarrow> nat \<Rightarrow> nat" where
  "next_startup_delay r current = min (current + rp_delay_step r) (rp_max_delay r)"

record managed_server =
  mg_socket_path :: string
  mg_auto_spawn :: bool
  mg_config :: "process_config option"
  mg_pending_log_filter :: "string option"
  mg_pending_event_tap :: "bool option"
  mg_server :: "server_process option"
  mg_retry :: retry_policy

definition managed_server_new :: "string \<Rightarrow> managed_server" where
  "managed_server_new socket_path =
     \<lparr>mg_socket_path = socket_path, mg_auto_spawn = False, mg_config = None, mg_pending_log_filter = None,
      mg_pending_event_tap = None, mg_server = None, mg_retry = DEFAULT_RETRY_POLICY\<rparr>"

definition mg_set_socket_path :: "string \<Rightarrow> managed_server \<Rightarrow> managed_server" where
  "mg_set_socket_path path m =
     m\<lparr>mg_socket_path := path, mg_config := map_option (pc_set_socket_path path) (mg_config m)\<rparr>"

text \<open>\<open>exe\<close> is the path of the running executable, when it can be found, and \<open>pid\<close> the process id.\<close>

definition ensure_auto_spawn_config :: "string option \<Rightarrow> 32 word \<Rightarrow> managed_server \<Rightarrow> managed_server" where
  "ensure_auto_spawn_config exe pid m =
     (if \<not> mg_auto_spawn m then m
      else case exe of
        None \<Rightarrow> m
      | Some current_exe \<Rightarrow>
          (let c = (case mg_config m of Some c \<Rightarrow> c | None \<Rightarrow> process_config_new current_exe);
               c = c\<lparr>pc_executable := current_exe\<rparr>;
               c = pc_ensure_server_mode c;
               c = pc_set_socket_path (mg_socket_path m) c;
               c = pc_set_parent_pid pid c;
               c = (case mg_pending_log_filter m of Some flt \<Rightarrow> pc_set_log_filter flt c | None \<Rightarrow> c);
               c = (case mg_pending_event_tap m of Some enabled \<Rightarrow> pc_set_event_tap_enabled enabled c | None \<Rightarrow> c)
           in m\<lparr>mg_config := Some c\<rparr>))"

definition enable_auto_spawn_server :: "string option \<Rightarrow> 32 word \<Rightarrow> managed_server \<Rightarrow> managed_server" where
  "enable_auto_spawn_server exe pid m = ensure_auto_spawn_config exe pid (m\<lparr>mg_auto_spawn := True\<rparr>)"

text \<open>The configuration that \<open>ensure_auto_spawn_config\<close> returns is present only under auto-spawn.\<close>

definition update_spawn_config :: "(process_config \<Rightarrow> process_config) \<Rightarrow> managed_server \<Rightarrow> managed_server" where
  "update_spawn_config f m = (if mg_auto_spawn m then m\<lparr>mg_config := map_option f (mg_config m)\<rparr> else m)"

definition set_server_log_filter :: "string option \<Rightarrow> 32 word \<Rightarrow> string \<Rightarrow> managed_server \<Rightarrow> managed_server" where
  "set_server_log_filter exe pid flt m =
     update_spawn_config (pc_set_log_filter flt)
       (ensure_auto_spawn_config exe pid (m\<lparr>mg_pending_log_filter := Some flt\<rparr>))"

definition set_server_event_tap_enabled :: "string option \<Rightarrow> 32 word \<Rightarrow> bool \<Rightarrow> managed_server \<Rightarrow> managed_server" where
  "set_server_event_tap_enabled exe pid enabled m =
     update_spawn_config (pc_set_event_tap_enabled enabled)
       (ensure_auto_spawn_config exe pid (m\<lparr>mg_pending_event_tap := Some enabled\<rparr>))"

definition disable_auto_spawn :: "managed_server \<Rightarrow> managed_server" where
  "disable_auto_spawn m = m\<lparr>mg_auto_spawn := False, mg_config := None\<rparr>"

subsection \<open>Connecting\<close>

text \<open>The debug text of a duration of whole milliseconds.\<close>

definition duration_debug :: "nat \<Rightarrow> string" where
  "duration_debug ms =
     (if ms = 0 then ''0ns''
      else if ms < 1000 then string_of_nat ms @ ''ms''
      else if ms mod 1000 = 0 then string_of_nat (ms div 1000) @ ''s''
      else string_of_nat (ms div 1000) @ ''.''
        @ rev (dropWhile (\<lambda>c. c = CHR ''0'') (rev (tl (string_of_nat (1000 + ms mod 1000))))) @ ''s'')"

definition try_connect :: "os_env \<Rightarrow> retry_policy \<Rightarrow> os_state \<Rightarrow> (server_error + unit) \<times> os_state" where
  "try_connect env r t =
     (let (d, result) = os_connect env (ot_attempts t);
          t = (log_event Attempted t)\<lparr>ot_attempts := ot_attempts t + 1\<rparr>
      in if rp_connect_timeout r \<le> d
         then (Err (Ipc (''Connection timeout after '' @ duration_debug (rp_connect_timeout r))),
               pass_time (rp_connect_timeout r) t)
         else (result, pass_time d t))"

definition check_spawned_server ::
    "os_env \<Rightarrow> string \<Rightarrow> server_process option \<Rightarrow> os_state \<Rightarrow> (server_error + unit) \<times> server_process option \<times> os_state" where
  "check_spawned_server env socket_path server t =
     (case server of
        None \<Rightarrow> (Ok (), None, t)
      | Some p \<Rightarrow>
          (case sp_try_wait env p t of
             (Inl e, p, t) \<Rightarrow> (Err e, Some p, t)
           | (Inr (Some status), p, t) \<Rightarrow> (Err (ServerExitedBeforeConnect socket_path status), Some p, t)
           | (Inr None, p, t) \<Rightarrow> (Ok (), Some p, t)))"

datatype poll_outcome = Poll_Done "server_error + unit" | Poll_Elapsed "server_error option"

partial_function (option) startup_poll ::
    "os_env \<Rightarrow> retry_policy \<Rightarrow> string \<Rightarrow> nat \<Rightarrow> nat \<Rightarrow> server_error option \<Rightarrow> server_process option \<Rightarrow> os_state
     \<Rightarrow> (poll_outcome \<times> server_process option \<times> os_state) option" where
  "startup_poll env r path start interval last_error server t =
     (if ot_now t - start < rp_poll_timeout r then
        (case check_spawned_server env path server t of
           (Inl e, server, t) \<Rightarrow> Some (Poll_Done (Err e), server, t)
         | (Inr _, server, t) \<Rightarrow>
             (case try_connect env r t of
                (Inr _, t) \<Rightarrow> Some (Poll_Done (Ok ()), server, t)
              | (Inl err, t) \<Rightarrow>
                  (case check_spawned_server env path server t of
                     (Inl e, server, t) \<Rightarrow> Some (Poll_Done (Err e), server, t)
                   | (Inr _, server, t) \<Rightarrow>
                       startup_poll env r path start (next_startup_delay r interval) (Some err) server
                         (pass_time interval t))))
      else Some (Poll_Elapsed last_error, server, t))"

fun connect_attempts ::
    "os_env \<Rightarrow> retry_policy \<Rightarrow> string \<Rightarrow> nat \<Rightarrow> server_error \<Rightarrow> server_process option \<Rightarrow> os_state
     \<Rightarrow> (server_error + unit) \<times> server_process option \<times> os_state" where
  "connect_attempts env r path 0 last_error server t = (Err last_error, server, t)"
| "connect_attempts env r path (Suc n) last_error server t =
     (case check_spawned_server env path server t of
        (Inl e, server, t) \<Rightarrow> (Err e, server, t)
      | (Inr _, server, t) \<Rightarrow>
          (case try_connect env r t of
             (Inr _, t) \<Rightarrow> (Ok (), server, t)
           | (Inl err, t) \<Rightarrow>
               (case check_spawned_server env path server t of
                  (Inl e, server, t) \<Rightarrow> (Err e, server, t)
                | (Inr _, server, t) \<Rightarrow>
                    connect_attempts env r path n err server (if 0 < n then pass_time (rp_retry_delay r) t else t))))"

definition try_connect_with_retries ::
    "os_env \<Rightarrow> retry_policy \<Rightarrow> string \<Rightarrow> server_process option \<Rightarrow> os_state
     \<Rightarrow> ((server_error + unit) \<times> server_process option \<times> os_state) option" where
  "try_connect_with_retries env r path server t =
     (let attempts = (\<lambda>last_error. connect_attempts env r path (rp_connect_attempts r)
            (case last_error of Some e \<Rightarrow> e | None \<Rightarrow> Ipc ''Failed to connect after all retry attempts''))
      in case server of
           None \<Rightarrow> Some (attempts None server t)
         | Some _ \<Rightarrow>
             (case startup_poll env r path (ot_now t) (rp_initial_delay r) None server t of
                None \<Rightarrow> None
              | Some (Poll_Done result, server, t) \<Rightarrow> Some (result, server, t)
              | Some (Poll_Elapsed last_error, server, t) \<Rightarrow> Some (attempts last_error server t)))"

text \<open>
  \<open>connect\<close>; a server tracked before is dropped when the new one is stored, with \<open>old\<close>
  the environment of its process.
\<close>

definition mg_connect ::
    "os_env \<Rightarrow> os_env \<Rightarrow> managed_server \<Rightarrow> os_state \<Rightarrow> ((server_error + unit) \<times> managed_server \<times> os_state) option" where
  "mg_connect env old m t =
     (let (started, spawned, t) =
            (case mg_config m of
               None \<Rightarrow> (Ok (), None, t)
             | Some c \<Rightarrow>
                 (case sp_start env (server_process_new c) t of
                    (Inl e, p, t) \<Rightarrow> (Err e, None, sp_drop env p t)
                  | (Inr _, p, t) \<Rightarrow> (Ok (), Some p, t)))
      in case started of
           Inl e \<Rightarrow> Some (Err e, m, t)
         | Inr _ \<Rightarrow>
             (case try_connect_with_retries env (mg_retry m) (mg_socket_path m) spawned t of
                None \<Rightarrow> None
              | Some (Inr _, spawned, t) \<Rightarrow>
                  Some (Ok (), m\<lparr>mg_server := spawned\<rparr>,
                    case mg_server m of Some p \<Rightarrow> sp_drop old p t | None \<Rightarrow> t)
              | Some (Inl e, spawned, t) \<Rightarrow>
                  Some (Err e, m, case spawned of Some p \<Rightarrow> snd (snd (sp_stop env p t)) | None \<Rightarrow> t)))"

definition mg_stop_server :: "os_env \<Rightarrow> managed_server \<Rightarrow> os_state \<Rightarrow> (server_error + unit) \<times> managed_server \<times> os_state" where
  "mg_stop_server env m t =
     (case mg_server m of
        None \<Rightarrow> (Ok (), m, t)
      | Some p \<Rightarrow> (let (r, p, t) = sp_stop env p t in (r, m\<lparr>mg_server := None\<rparr>, t)))"

subsection \<open>The client\<close>

record hotki_client =
  hc_managed :: managed_server
  hc_connected :: bool

definition client_new_with_socket :: "string option \<Rightarrow> 32 word \<Rightarrow> string \<Rightarrow> hotki_client" where
  "client_new_with_socket exe pid socket_path =
     \<lparr>hc_managed = enable_auto_spawn_server exe pid (managed_server_new socket_path), hc_connected = False\<rparr>"

definition client_connect ::
    "os_env \<Rightarrow> os_env \<Rightarrow> hotki_client \<Rightarrow> os_state \<Rightarrow> ((server_error + hotki_client) \<times> os_state) option" where
  "client_connect env old c t =
     (if hc_connected c then Some (Ok c, t)
      else map_option (\<lambda>(r, m, t). (case r of Inl e \<Rightarrow> Err e | Inr _ \<Rightarrow> Ok (c\<lparr>hc_managed := m, hc_connected := True\<rparr>), t))
             (mg_connect env old (hc_managed c) t))"

definition client_disconnect :: "server_error + unit \<Rightarrow> hotki_client \<Rightarrow> (server_error + unit) \<times> hotki_client" where
  "client_disconnect closing c = (if hc_connected c then (closing, c\<lparr>hc_connected := False\<rparr>) else (Ok (), c))"

definition client_shutdown_server ::
    "os_env \<Rightarrow> server_error + unit \<Rightarrow> hotki_client \<Rightarrow> os_state \<Rightarrow> (server_error + unit) \<times> hotki_client \<times> os_state" where
  "client_shutdown_server env rpc c t =
     (case (if hc_connected c then rpc else Ok ()) of
        Inl e \<Rightarrow> (Err e, c, t)
      | Inr _ \<Rightarrow> (let (r, m, t) = mg_stop_server env (hc_managed c) t in (r, c\<lparr>hc_managed := m\<rparr>, t)))"

end
