(* ===== verification/Server_Connect.thy ===== *)
theory Server_Connect
  imports Server_Process
begin

text \<open>
  Connecting to a managed server: the retry loops end, and a connection that fails leaves
  no process behind.
\<close>

subsection \<open>Connecting leaves no orphan\<close>

text \<open>
  An environment in which polling a child, killing it and waiting for a killed child do not
  fail, and in which the signal probe finds a child that has not exited.
\<close>

definition os_ok :: "os_env \<Rightarrow> bool" where
  "os_ok env \<longleftrightarrow> is_ok (os_kill env) \<and> is_ok (os_reap env) \<and>
     (\<forall>n. (\<exists>status. os_wait env n = Has_Exited status) \<or> os_wait env n = Still_Running \<and> os_probe env n)"

text \<open>A child is left when a process was spawned and not reaped since.\<close>

primrec after_event :: "process_event \<Rightarrow> bool \<Rightarrow> bool" where
  "after_event (Spawned c) left = True"
| "after_event Sent_Sigterm left = left"
| "after_event Sent_Sigkill left = left"
| "after_event Reaped left = False"
| "after_event Attempted left = left"

definition child_left :: "os_state \<Rightarrow> bool" where
  "child_left t = fold after_event (ot_events t) False"

lemma child_left_log [simp]: "child_left (log_event ev t) = after_event ev (child_left t)"
  by (simp add: child_left_def log_event_def)

lemma child_left_pass [simp]: "child_left (pass_time d t) = child_left t" "ot_now (pass_time d t) = ot_now t + d"
  "ot_attempts (pass_time d t) = ot_attempts t" "ot_polls (pass_time d t) = ot_polls t"
  by (simp_all add: child_left_def pass_time_def)

lemma log_event_frame [simp]: "ot_now (log_event ev t) = ot_now t" "ot_attempts (log_event ev t) = ot_attempts t"
  "ot_polls (log_event ev t) = ot_polls t"
  by (simp_all add: log_event_def)

lemma child_left_fields [simp]: "child_left (t\<lparr>ot_polls := n\<rparr>) = child_left t"
  "child_left (t\<lparr>ot_attempts := k\<rparr>) = child_left t"
  by (simp_all add: child_left_def)

lemma os_ok_wait:
  "os_ok env \<Longrightarrow> (\<exists>status. os_wait env n = Has_Exited status) \<or> os_wait env n = Still_Running \<and> os_probe env n"
  by (simp add: os_ok_def)

lemma poll_child_cases:
  assumes "os_ok env"
  obtains status t' where "poll_child env t = (Has_Exited status, t')" "\<not> child_left t'"
      "ot_now t' = ot_now t" "ot_attempts t' = ot_attempts t"
    | t' where "poll_child env t = (Still_Running, t')" "child_left t' = child_left t" "os_probe env (ot_polls t)"
      "ot_now t' = ot_now t" "ot_attempts t' = ot_attempts t"
proof (cases "os_wait env (ot_polls t)")
  case (Has_Exited status)
  then show ?thesis
    using that(1) [of status "log_event Reaped (t\<lparr>ot_polls := ot_polls t + 1\<rparr>)"]
    by (simp add: poll_child_def)
next
  case Still_Running
  moreover have "os_probe env (ot_polls t)" using os_ok_wait [OF assms, of "ot_polls t"] Still_Running by simp
  ultimately show ?thesis
    using that(2) [of "t\<lparr>ot_polls := ot_polls t + 1\<rparr>"] by (simp add: poll_child_def)
next
  case (Wait_Error e)
  then show ?thesis using os_ok_wait [OF assms, of "ot_polls t"] by simp
qed

lemma wait_exit_spec:
  assumes "os_ok env" "wait_exit env deadline t = (b, t')"
  shows "(b \<longrightarrow> \<not> child_left t') \<and> ot_attempts t' = ot_attempts t \<and> ot_now t \<le> ot_now t'"
  using assms
proof (induction env deadline t rule: wait_exit.induct)
  case (1 env deadline t)
  note step = "1.prems"(2) [unfolded wait_exit.simps [of env deadline t]]
  show ?case
  proof (cases "ot_now t < deadline")
    case True
    from \<open>os_ok env\<close> show ?thesis
    proof (cases rule: poll_child_cases [where t = t])
      case (1 status u)
      then show ?thesis using step True by auto
    next
      case (2 u)
      with step True have run: "wait_exit env deadline (pass_time TERM_POLL_INTERVAL_MS u) = (b, t')" by simp
      show ?thesis using "1.IH" [OF True 2(1) [symmetric] refl \<open>os_ok env\<close> run] 2 by simp
    qed
  qed (use step in auto)
qed

lemma wait_exit_sync_spec:
  assumes "os_ok env" "wait_exit_sync env deadline t = (b, t')"
  shows "(b \<longrightarrow> \<not> child_left t') \<and> ot_attempts t' = ot_attempts t \<and> ot_now t \<le> ot_now t'"
  using assms
proof (induction env deadline t rule: wait_exit_sync.induct)
  case (1 env deadline t)
  note step = "1.prems"(2) [unfolded wait_exit_sync.simps [of env deadline t]]
  show ?case
  proof (cases "ot_now t < deadline")
    case True
    from \<open>os_ok env\<close> show ?thesis
    proof (cases rule: poll_child_cases [where t = t])
      case (1 status u)
      then show ?thesis using step True by auto
    next
      case (2 u)
      with step True have run: "wait_exit_sync env deadline (pass_time TERM_POLL_INTERVAL_MS u) = (b, t')" by simp
      show ?thesis using "1.IH" True 2 \<open>os_ok env\<close> run by fastforce
    qed
  qed (use step in auto)
qed

lemma reap_killed_spec [simp]:
  "os_ok env \<Longrightarrow> \<not> child_left (reap_killed env t)" "ot_attempts (reap_killed env t) = ot_attempts t"
  by (auto simp: reap_killed_def os_ok_def split: sum.split)

lemma stop_reaps:
  assumes "os_ok env" "sp_child p \<noteq> None"
  shows "\<exists>p' t'. sp_stop env p t = (Ok (), p', t') \<and> sp_child p' = None \<and> \<not> child_left t'
    \<and> ot_attempts t' = ot_attempts t"
  using \<open>os_ok env\<close>
proof (cases rule: poll_child_cases [where t = t])
  case (1 status u)
  then show ?thesis using assms(2) by (auto simp: sp_stop_def Let_def)
next
  case (2 u)
  obtain b v where w: "wait_exit env (ot_now u + TERM_WAIT_TIMEOUT_MS) (log_event Sent_Sigterm u) = (b, v)"
    by (cases "wait_exit env (ot_now u + TERM_WAIT_TIMEOUT_MS) (log_event Sent_Sigterm u)")
  from \<open>os_ok env\<close> obtain x where "os_kill env = Inr x" by (cases "os_kill env") (auto simp: os_ok_def)
  then show ?thesis using assms(2) 2 w wait_exit_spec [OF assms(1) w]
    by (cases b) (auto simp: sp_stop_def terminate_child_def Let_def assms(1))
qed

lemma check_running_spec:
  assumes "os_ok env" "sp_child p \<noteq> None"
  shows "\<exists>b p' t'. sp_check_running env p t = (b, p', t') \<and> sp_child p' = sp_child p \<and> sp_config p' = sp_config p
    \<and> child_left t' = (b \<and> child_left t) \<and> ot_attempts t' = ot_attempts t \<and> ot_now t' = ot_now t"
  using \<open>os_ok env\<close> by (cases rule: poll_child_cases [where t = t]) (use assms(2) in \<open>auto simp: sp_check_running_def\<close>)

lemma drop_reaps:
  assumes "os_ok env" "sp_child p = None \<longrightarrow> \<not> child_left t"
  shows "\<not> child_left (sp_drop env p t) \<and> ot_attempts (sp_drop env p t) = ot_attempts t"
proof (cases "sp_child p")
  case None
  then show ?thesis using assms(2) by (simp add: sp_drop_def sp_check_running_def)
next
  case (Some pid)
  then obtain b q u where c: "sp_check_running env p t = (b, q, u)" "sp_child q = Some pid"
      "child_left u = (b \<and> child_left t)" "ot_attempts u = ot_attempts t"
    using check_running_spec [OF assms(1), of p t] by auto
  obtain d v where w: "wait_exit_sync env (ot_now u + TERM_WAIT_TIMEOUT_MS) (log_event Sent_Sigterm u) = (d, v)"
    by (cases "wait_exit_sync env (ot_now u + TERM_WAIT_TIMEOUT_MS) (log_event Sent_Sigterm u)")
  show ?thesis using c w wait_exit_sync_spec [OF assms(1) w] assms(1)
    by (cases b; cases d) (auto simp: sp_drop_def terminate_child_sync_def)
qed

lemma drop_attempts:
  assumes "os_ok env"
  shows "ot_attempts (sp_drop env p t) = ot_attempts t"
proof (cases "sp_child p = None \<longrightarrow> \<not> child_left t")
  case False
  then show ?thesis by (simp add: sp_drop_def sp_check_running_def)
qed (use drop_reaps [OF assms] in simp)

lemma start_spec:
  assumes "os_ok env" "sp_child p = None" "\<not> child_left t"
  shows "\<exists>r q u. sp_start env p t = (r, q, u) \<and> ot_attempts u = ot_attempts t
    \<and> (if is_ok r then sp_child q \<noteq> None \<and> child_left u else \<not> child_left (sp_drop env q u))"
proof (cases "os_spawn env")
  case (Inl e)
  then show ?thesis using assms by (simp add: sp_start_def sp_check_running_def sp_drop_def)
next
  case (Inr pid)
  let ?p = "p\<lparr>sp_child := Some pid, sp_is_running := True\<rparr>"
  let ?t = "log_event (Spawned (sp_config p)) t"
  obtain b q u where c: "sp_check_running env ?p ?t = (b, q, u)" "sp_child q = Some pid"
      "child_left u = b" "ot_attempts u = ot_attempts t"
    using check_running_spec [OF assms(1), of ?p ?t] by auto
  have "sp_start env p t = (if b then Ok () else Err (HotkeyOperation ''Server process died during startup''), q, u)"
    using c(1) Inr assms(2) by (simp add: sp_start_def sp_check_running_def split: bool.split)
  then show ?thesis using c drop_reaps [OF assms(1), of q u] by (cases b) auto
qed

text \<open>A poll of the spawned server that finds no exit changes nothing.\<close>

lemma check_spawned_spec:
  assumes "os_ok env"
  shows "\<exists>r server' t'. check_spawned_server env path server t = (r, server', t')
    \<and> map_option sp_child server' = map_option sp_child server
    \<and> (is_ok r \<or> server = None \<longrightarrow> child_left t' = child_left t) \<and> ot_attempts t' = ot_attempts t \<and> ot_now t' = ot_now t"
proof (cases server)
  case None
  then show ?thesis by (simp add: check_spawned_server_def)
next
  case (Some p)
  show ?thesis
  proof (cases "sp_child p")
    case None
    then show ?thesis using Some by (simp add: check_spawned_server_def sp_try_wait_def)
  next
    case (Some pid)
    from \<open>os_ok env\<close> show ?thesis
      by (cases rule: poll_child_cases [where t = t])
        (use Some \<open>server = Some p\<close> in \<open>auto simp: check_spawned_server_def sp_try_wait_def\<close>)
  qed
qed

lemma try_connect_spec:
  "\<exists>r t'. try_connect env rp t = (r, t') \<and> child_left t' = child_left t \<and> ot_attempts t' = ot_attempts t + 1
    \<and> ot_now t \<le> ot_now t'"
  by (auto simp: try_connect_def Let_def split: prod.split)

text \<open>
  The startup poll ends, since every round takes at least the delay \<open>d\<close>; it makes at most
  one attempt per delay, and unless it ends with an error the child is where it was.
\<close>

lemma startup_poll_spec:
  assumes "os_ok env" "0 < d" "d \<le> rp_max_delay rp" "d \<le> interval" "start \<le> ot_now t"
  shows "\<exists>out server' t'. startup_poll env rp path start interval lst server t = Some (out, server', t')
    \<and> map_option sp_child server' = map_option sp_child server
    \<and> (case out of Poll_Done (Inl e) \<Rightarrow> True | _ \<Rightarrow> child_left t' = child_left t)
    \<and> d * ot_attempts t' \<le> d * ot_attempts t
        + (if ot_now t < start + rp_poll_timeout rp then start + rp_poll_timeout rp - ot_now t + d else 0)"
  using assms(4,5)
proof (induction "start + rp_poll_timeout rp - ot_now t" arbitrary: interval lst server t rule: less_induct)
  case less
  note unf = startup_poll.simps [of env rp path start interval lst server t]
  show ?case
  proof (cases "ot_now t - start < rp_poll_timeout rp")
    case False
    then show ?thesis using less.prems by (auto simp: unf)
  next
    case True
    obtain r1 s1 t1 where c1: "check_spawned_server env path server t = (r1, s1, t1)"
      "map_option sp_child s1 = map_option sp_child server" "is_ok r1 \<longrightarrow> child_left t1 = child_left t"
      "ot_attempts t1 = ot_attempts t" "ot_now t1 = ot_now t"
      using check_spawned_spec [OF assms(1)] by metis
    obtain r2 t2 where c2: "try_connect env rp t1 = (r2, t2)" "child_left t2 = child_left t1"
      "ot_attempts t2 = ot_attempts t1 + 1" "ot_now t1 \<le> ot_now t2"
      using try_connect_spec by metis
    obtain r3 s3 t3 where c3: "check_spawned_server env path s1 t2 = (r3, s3, t3)"
      "map_option sp_child s3 = map_option sp_child s1" "is_ok r3 \<longrightarrow> child_left t3 = child_left t2"
      "ot_attempts t3 = ot_attempts t2" "ot_now t3 = ot_now t2"
      using check_spawned_spec [OF assms(1)] by metis
    have now: "ot_now t < start + rp_poll_timeout rp" using True less.prems by simp
    show ?thesis
    proof (cases "is_ok r1 \<and> \<not> is_ok r2 \<and> is_ok r3")
      case False
      then show ?thesis using True now c1 c2 c3 less.prems assms(2)
        by (cases r1; cases r2; cases r3) (auto simp: unf)
    next
      case go: True
      let ?t = "pass_time interval t3" and ?i = "next_startup_delay rp interval"
      have "start + rp_poll_timeout rp - ot_now ?t < start + rp_poll_timeout rp - ot_now t"
        using now c1(5) c2(4) c3(5) less.prems assms(2) by simp
      moreover have "d \<le> ?i" "start \<le> ot_now ?t"
        using less.prems assms(3) c1(5) c2(4) c3(5) by (simp_all add: next_startup_delay_def)
      ultimately have IH: "\<exists>out server' t'. startup_poll env rp path start ?i (Some err) s3 ?t = Some (out, server', t')
          \<and> map_option sp_child server' = map_option sp_child s3
          \<and> (case out of Poll_Done (Inl e) \<Rightarrow> True | _ \<Rightarrow> child_left t' = child_left ?t)
          \<and> d * ot_attempts t' \<le> d * ot_attempts ?t
              + (if ot_now ?t < start + rp_poll_timeout rp then start + rp_poll_timeout rp - ot_now ?t + d else 0)" for err
        by (rule less.hyps)
      from go obtain x1 err x3 where r: "r1 = Inr x1" "r2 = Inl err" "r3 = Inr x3"
        by (cases r1; cases r2; cases r3) auto
      from IH [of err] obtain out s' t' where run:
        "startup_poll env rp path start ?i (Some err) s3 ?t = Some (out, s', t')"
        "map_option sp_child s' = map_option sp_child s3"
        "case out of Poll_Done (Inl e) \<Rightarrow> True | _ \<Rightarrow> child_left t' = child_left ?t"
        "d * ot_attempts t' \<le> d * ot_attempts ?t
              + (if ot_now ?t < start + rp_poll_timeout rp then start + rp_poll_timeout rp - ot_now ?t + d else 0)"
        by blast
      have "startup_poll env rp path start interval lst server t = Some (out, s', t')"
        using True r c1(1) c2(1) c3(1) run(1) by (simp add: unf)
      moreover have "child_left ?t = child_left t" using r c1(3) c2(2) c3(3) by simp
      moreover have "d * ot_attempts t' \<le> d * ot_attempts t + (start + rp_poll_timeout rp - ot_now t + d)"
      proof -
        have a: "d * ot_attempts ?t = d * ot_attempts t + d" using c1(4) c2(3) c3(4) by simp
        have n: "ot_now t + d \<le> ot_now ?t" using c1(5) c2(4) c3(5) less.prems by simp
        show ?thesis using run(4) unfolding a using n now by (auto split: if_splits)
      qed
      ultimately show ?thesis using run(2,3) c1(2) c3(2) now by (simp split: poll_outcome.splits sum.splits)
    qed
  qed
qed

lemma connect_attempts_spec:
  assumes "os_ok env"
  shows "\<exists>r server' t'. connect_attempts env rp path n lst server t = (r, server', t')
    \<and> map_option sp_child server' = map_option sp_child server
    \<and> (is_ok r \<or> server = None \<longrightarrow> child_left t' = child_left t) \<and> ot_attempts t' \<le> ot_attempts t + n"
proof (induction n arbitrary: lst server t)
  case (Suc n)
  obtain r1 s1 t1 where c1: "check_spawned_server env path server t = (r1, s1, t1)"
    "map_option sp_child s1 = map_option sp_child server" "is_ok r1 \<or> server = None \<longrightarrow> child_left t1 = child_left t"
    "ot_attempts t1 = ot_attempts t"
    using check_spawned_spec [OF assms] by metis
  obtain r2 t2 where c2: "try_connect env rp t1 = (r2, t2)" "child_left t2 = child_left t1"
    "ot_attempts t2 = ot_attempts t1 + 1"
    using try_connect_spec by metis
  obtain r3 s3 t3 where c3: "check_spawned_server env path s1 t2 = (r3, s3, t3)"
    "map_option sp_child s3 = map_option sp_child s1" "is_ok r3 \<or> s1 = None \<longrightarrow> child_left t3 = child_left t2"
    "ot_attempts t3 = ot_attempts t2"
    using check_spawned_spec [OF assms] by metis
  let ?t = "if 0 < n then pass_time (rp_retry_delay rp) t3 else t3"
  have t: "child_left ?t = child_left t3" "ot_attempts ?t = ot_attempts t3" by simp_all
  show ?case
  proof (cases "is_ok r1 \<and> \<not> is_ok r2 \<and> is_ok r3")
    case False
    then show ?thesis using c1 c2 c3 by (cases r1; cases r2; cases r3) auto
  next
    case True
    then obtain x1 err x3 where r: "r1 = Inr x1" "r2 = Inl err" "r3 = Inr x3"
      by (cases r1; cases r2; cases r3) auto
    show ?thesis using Suc.IH [of err s3 ?t] r c1 c2 c3 t by auto
  qed
qed simp

text \<open>The attempts that a retry policy makes at most, times its shortest delay.\<close>

definition attempts_bound :: "retry_policy \<Rightarrow> nat" where
  "attempts_bound rp = min (rp_initial_delay rp) (rp_max_delay rp) * (rp_connect_attempts rp + 1) + rp_poll_timeout rp"

lemma retries_spec:
  assumes "os_ok env" "0 < rp_initial_delay rp" "0 < rp_max_delay rp"
  shows "\<exists>r server' t'. try_connect_with_retries env rp path server t = Some (r, server', t')
    \<and> map_option sp_child server' = map_option sp_child server \<and> (is_ok r \<or> server = None \<longrightarrow> child_left t' = child_left t)
    \<and> min (rp_initial_delay rp) (rp_max_delay rp) * ot_attempts t'
        \<le> min (rp_initial_delay rp) (rp_max_delay rp) * ot_attempts t + attempts_bound rp"
proof (cases server)
  case None
  let ?e = "Ipc ''Failed to connect after all retry attempts''"
  obtain r s' t' where c: "connect_attempts env rp path (rp_connect_attempts rp) ?e server t = (r, s', t')"
    "map_option sp_child s' = map_option sp_child server" "is_ok r \<or> server = None \<longrightarrow> child_left t' = child_left t"
    "ot_attempts t' \<le> ot_attempts t + rp_connect_attempts rp"
    using connect_attempts_spec [OF assms(1)] by metis
  have "min (rp_initial_delay rp) (rp_max_delay rp) * ot_attempts t'
      \<le> min (rp_initial_delay rp) (rp_max_delay rp) * (ot_attempts t + rp_connect_attempts rp)"
    using c(4) by (rule mult_le_mono2)
  then show ?thesis using c None
    by (simp add: try_connect_with_retries_def attempts_bound_def add_mult_distrib2 Let_def)
next
  case (Some p)
  define d where "d = min (rp_initial_delay rp) (rp_max_delay rp)"
  have d: "0 < d" "d \<le> rp_max_delay rp" "d \<le> rp_initial_delay rp" using assms(2,3) by (simp_all add: d_def)
  obtain out s1 t1 where p1: "startup_poll env rp path (ot_now t) (rp_initial_delay rp) None server t = Some (out, s1, t1)"
    "map_option sp_child s1 = map_option sp_child server"
    "case out of Poll_Done (Inl e) \<Rightarrow> True | _ \<Rightarrow> child_left t1 = child_left t"
    "d * ot_attempts t1 \<le> d * ot_attempts t + (rp_poll_timeout rp + d)"
    using startup_poll_spec [OF assms(1) d order_refl, where t = t and path = path and lst = None and server = server] by (fastforce split: if_splits)
  show ?thesis
  proof (cases out)
    case (Poll_Done r)
    then show ?thesis using p1 Some unfolding d_def [symmetric] attempts_bound_def
      by (cases r) (simp_all add: try_connect_with_retries_def Let_def add_mult_distrib2)
  next
    case (Poll_Elapsed lst)
    let ?e = "case lst of Some e \<Rightarrow> e | None \<Rightarrow> Ipc ''Failed to connect after all retry attempts''"
    obtain r s' t' where c: "connect_attempts env rp path (rp_connect_attempts rp) ?e s1 t1 = (r, s', t')"
      "map_option sp_child s' = map_option sp_child s1" "is_ok r \<or> s1 = None \<longrightarrow> child_left t' = child_left t1"
      "ot_attempts t' \<le> ot_attempts t1 + rp_connect_attempts rp"
      using connect_attempts_spec [OF assms(1)] by metis
    have "try_connect_with_retries env rp path server t = Some (r, s', t')"
      using p1(1) c(1) Some Poll_Elapsed by (simp add: try_connect_with_retries_def Let_def)
    moreover have "d * ot_attempts t' \<le> d * ot_attempts t + (d * (rp_connect_attempts rp + 1) + rp_poll_timeout rp)"
      using mult_le_mono2 [OF c(4), of d] p1(4) by (simp add: add_mult_distrib2)
    ultimately show ?thesis using c(2,3) p1(2,3) Poll_Elapsed Some
      unfolding d_def [symmetric] attempts_bound_def by simp
  qed
qed

lemma stop_server_reaps:
  assumes "os_ok env" "\<And>p. mg_server m = Some p \<Longrightarrow> sp_child p \<noteq> None" "mg_server m = None \<Longrightarrow> \<not> child_left t"
    and "mg_stop_server env m t = (r, m', t')"
  shows "is_ok r \<and> mg_server m' = None \<and> \<not> child_left t'"
proof (cases "mg_server m")
  case (Some p)
  then show ?thesis using stop_reaps [OF assms(1) assms(2) [OF Some], of t] assms(4)
    by (auto simp: mg_stop_server_def Let_def)
qed (use assms(3,4) in \<open>auto simp: mg_stop_server_def\<close>)

text \<open>
  C18: Connecting always returns, after boundedly many attempts, whatever the server and the
  socket do.  A process is left running exactly when the connection succeeded with a server
  spawned for it, and that one is tracked; after any failure (the spawn, an early exit, all
  attempts refused) none is left and the configuration is unchanged.  Stopping the tracked
  server then leaves none either.  Assumed of the operating system: a poll or a kill of the
  child does not fail, and the signal probe finds a running child.
\<close>

theorem connect_leaves_no_orphan:
  assumes "os_ok env" "0 < rp_initial_delay (mg_retry m)" "0 < rp_max_delay (mg_retry m)"
    and "mg_server m = None" "\<not> child_left t"
  shows "\<exists>r m' t'. mg_connect env old m t = Some (r, m', t')
    \<and> child_left t' = (mg_server m' \<noteq> None) \<and> (mg_server m' \<noteq> None) = (is_ok r \<and> mg_config m \<noteq> None)
    \<and> m'\<lparr>mg_server := None\<rparr> = m
    \<and> (let d = min (rp_initial_delay (mg_retry m)) (rp_max_delay (mg_retry m))
       in d * ot_attempts t' \<le> d * ot_attempts t + attempts_bound (mg_retry m))
    \<and> (case mg_stop_server env m' t' of (r, m', t') \<Rightarrow> is_ok r \<and> mg_server m' = None \<and> \<not> child_left t')"
proof -
  let ?d = "min (rp_initial_delay (mg_retry m)) (rp_max_delay (mg_retry m))"
  have "\<exists>r m' t'. mg_connect env old m t = Some (r, m', t')
    \<and> child_left t' = (mg_server m' \<noteq> None) \<and> (mg_server m' \<noteq> None) = (is_ok r \<and> mg_config m \<noteq> None)
    \<and> m'\<lparr>mg_server := None\<rparr> = m \<and> ?d * ot_attempts t' \<le> ?d * ot_attempts t + attempts_bound (mg_retry m)
    \<and> (mg_server m' \<noteq> None \<longrightarrow> sp_child (the (mg_server m')) \<noteq> None)"
  proof (cases "mg_config m")
    case None
    obtain r s1 t1 where c: "try_connect_with_retries env (mg_retry m) (mg_socket_path m) None t = Some (r, s1, t1)"
      "map_option sp_child s1 = None" "child_left t1 = child_left t"
      "?d * ot_attempts t1 \<le> ?d * ot_attempts t + attempts_bound (mg_retry m)"
      using retries_spec [OF assms(1-3), where path = "mg_socket_path m" and server = None and t = t] by auto
    then show ?thesis using None assms(4,5) by (cases r) (auto simp: mg_connect_def)
  next
    case (Some c)
    obtain r q u where st: "sp_start env (server_process_new c) t = (r, q, u)" "ot_attempts u = ot_attempts t"
      "if is_ok r then sp_child q \<noteq> None \<and> child_left u else \<not> child_left (sp_drop env q u)"
      using start_spec [OF assms(1) _ assms(5), of "server_process_new c"] by (auto simp: server_process_new_def)
    show ?thesis
    proof (cases r)
      case (Inl e)
      have "ot_attempts (sp_drop env q u) = ot_attempts u" by (rule drop_attempts [OF assms(1)])
      then show ?thesis using Inl Some st assms(4) by (auto simp: mg_connect_def)
    next
      case (Inr x)
      obtain r' s1 t1 where c: "try_connect_with_retries env (mg_retry m) (mg_socket_path m) (Some q) u = Some (r', s1, t1)"
        "map_option sp_child s1 = Some (sp_child q)" "is_ok r' \<longrightarrow> child_left t1 = child_left u"
        "?d * ot_attempts t1 \<le> ?d * ot_attempts t + attempts_bound (mg_retry m)"
        using retries_spec [OF assms(1-3), where path = "mg_socket_path m" and server = "Some q" and t = u] st(2) by auto
      then obtain p where p: "s1 = Some p" "sp_child p \<noteq> None" using st(3) Inr by (cases s1) auto
      show ?thesis
      proof (cases r')
        case (Inl e)
        then show ?thesis using Some st(1) c(1,4) p Inr assms(4) stop_reaps [OF assms(1) p(2), of t1]
          by (auto simp: mg_connect_def)
      next
        case (Inr y)
        then show ?thesis using Some st(1,3) c p \<open>r = Inr x\<close> assms(4) by (auto simp: mg_connect_def)
      qed
    qed
  qed
  then obtain r m' t' where res: "mg_connect env old m t = Some (r, m', t')" "child_left t' = (mg_server m' \<noteq> None)"
      "(mg_server m' \<noteq> None) = (is_ok r \<and> mg_config m \<noteq> None)" "m'\<lparr>mg_server := None\<rparr> = m"
      "?d * ot_attempts t' \<le> ?d * ot_attempts t + attempts_bound (mg_retry m)"
      "mg_server m' \<noteq> None \<longrightarrow> sp_child (the (mg_server m')) \<noteq> None" by blast
  obtain r2 m2 t2 where stop: "mg_stop_server env m' t' = (r2, m2, t2)" by (cases "mg_stop_server env m' t'")
  have "is_ok r2 \<and> mg_server m2 = None \<and> \<not> child_left t2"
    by (rule stop_server_reaps [OF assms(1) _ _ stop]) (use res(2,6) in auto)
  then show ?thesis using res stop by (auto simp: Let_def)
qed

text \<open>A server that is spawned, runs, and refuses every connection.\<close>

theorem connect_leaves_no_orphan_witness:
  "\<exists>m r m' t'. mg_config m \<noteq> None \<and> mg_retry m = DEFAULT_RETRY_POLICY
    \<and> mg_connect \<lparr>os_spawn = Inr 7, os_wait = (\<lambda>_. Still_Running), os_probe = (\<lambda>_. True),
          os_connect = (\<lambda>_. (1, Err (Ipc ''refused''))), os_kill = Inr (), os_reap = Inr ()\<rparr>
        \<lparr>os_spawn = Inr 7, os_wait = (\<lambda>_. Still_Running), os_probe = (\<lambda>_. True),
          os_connect = (\<lambda>_. (1, Err (Ipc ''refused''))), os_kill = Inr (), os_reap = Inr ()\<rparr>
        m \<lparr>ot_now = 0, ot_polls = 0, ot_attempts = 0, ot_events = []\<rparr> = Some (r, m', t')
    \<and> child_left t' = (mg_server m' \<noteq> None) \<and> ot_attempts t' \<le> 106"
proof -
  let ?env = "\<lparr>os_spawn = Inr 7, os_wait = (\<lambda>_. Still_Running), os_probe = (\<lambda>_. True),
          os_connect = (\<lambda>_. (1, Err (Ipc ''refused''))), os_kill = Inr (), os_reap = Inr ()\<rparr> :: os_env"
  let ?m = "enable_auto_spawn_server (Some ''hotki'') 7 (managed_server_new ''/s'')"
  let ?t = "\<lparr>ot_now = 0, ot_polls = 0, ot_attempts = 0, ot_events = []\<rparr> :: os_state"
  have m: "mg_config ?m \<noteq> None" "mg_retry ?m = DEFAULT_RETRY_POLICY" "mg_server ?m = None"
    by (simp_all add: enable_auto_spawn_server_def ensure_auto_spawn_config_def managed_server_new_def Let_def)
  have "os_ok ?env" "\<not> child_left ?t" by (simp_all add: os_ok_def child_left_def)
  from connect_leaves_no_orphan [OF this(1) _ _ m(3) this(2), of ?env] m show ?thesis
    by (fastforce simp: DEFAULT_RETRY_POLICY_def attempts_bound_def Let_def)
qed

end
