(* ===== verification/Spawn_Args.thy ===== *)
theory Spawn_Args
  imports Server_Process
begin

text \<open>
  The command line that the settings of a managed server add up to: whatever their order,
  each flag is given once, with the value set last.
\<close>

text \<open>
  A block is a flag with its value, or a plain flag.  The arguments of a configuration
  are blocks, one for each setting, in the order in which they were set last.
\<close>

definition flags :: "string set" where
  "flags = {SERVER_FLAG, SOCKET_FLAG, DISABLE_EVENT_TAP_FLAG, PARENT_PID_FLAG, LOG_FILTER_FLAG}"

fun block_ok :: "string list \<Rightarrow> bool" where
  "block_ok [f] \<longleftrightarrow> f = SERVER_FLAG \<or> f = DISABLE_EVENT_TAP_FLAG"
| "block_ok [f, v] \<longleftrightarrow> f \<in> {SOCKET_FLAG, PARENT_PID_FLAG, LOG_FILTER_FLAG} \<and> v \<notin> flags"
| "block_ok _ \<longleftrightarrow> False"

definition without_flag :: "string \<Rightarrow> string list list \<Rightarrow> string list list" where
  "without_flag f bs = filter (\<lambda>b. hd b \<noteq> f) bs"

lemma block_ok_cases:
  assumes "block_ok b"
  obtains f where "b = [f]" "f = SERVER_FLAG \<or> f = DISABLE_EVENT_TAP_FLAG"
  | f v where "b = [f, v]" "f \<in> {SOCKET_FLAG, PARENT_PID_FLAG, LOG_FILTER_FLAG}" "v \<notin> flags"
  using assms by (cases b rule: block_ok.cases) auto

lemma drop_flag_pairs_Cons: "a \<noteq> flag \<Longrightarrow> drop_flag_pairs flag (a # args) = a # drop_flag_pairs flag args"
  by (cases args) simp_all

lemma drop_flag_pairs_blocks:
  assumes "list_all block_ok bs" "f \<in> {SOCKET_FLAG, PARENT_PID_FLAG, LOG_FILTER_FLAG}"
  shows "drop_flag_pairs f (concat bs) = concat (without_flag f bs)"
  using assms(1)
proof (induction bs)
  case (Cons b bs)
  from Cons.prems have "block_ok b" by simp
  then show ?case
  proof (cases rule: block_ok_cases)
    case (1 g)
    then show ?thesis using Cons assms(2) by (auto simp: drop_flag_pairs_Cons without_flag_def)
  next
    case (2 g v)
    then have "v \<noteq> f" using assms(2) by (auto simp: flags_def)
    then show ?thesis using 2(1) Cons by (cases "g = f") (auto simp: drop_flag_pairs_Cons without_flag_def)
  qed
qed (simp add: without_flag_def)

lemma set_plain_flag_blocks:
  assumes "list_all block_ok bs"
  shows "filter (\<lambda>a. a \<noteq> DISABLE_EVENT_TAP_FLAG) (concat bs) = concat (without_flag DISABLE_EVENT_TAP_FLAG bs)"
  using assms
proof (induction bs)
  case (Cons b bs)
  from Cons.prems have "block_ok b" by simp
  then show ?case by (cases rule: block_ok_cases) (use Cons in \<open>auto simp: without_flag_def flags_def\<close>)
qed (simp add: without_flag_def)

definition value_block :: "string \<Rightarrow> string option \<Rightarrow> string list list" where
  "value_block f v = (case v of Some v \<Rightarrow> [[f, v]] | None \<Rightarrow> [])"

definition args_are :: "process_config \<Rightarrow> string option \<Rightarrow> string option \<Rightarrow> string option \<Rightarrow> bool \<Rightarrow> bool" where
  "args_are c sock pid flt no_tap \<longleftrightarrow>
     (\<exists>bs. pc_args c = concat bs \<and> list_all block_ok bs
        \<and> mset bs = mset ([SERVER_FLAG] # value_block SOCKET_FLAG sock @ value_block PARENT_PID_FLAG pid
             @ value_block LOG_FILTER_FLAG flt @ (if no_tap then [[DISABLE_EVENT_TAP_FLAG]] else [])))"

lemma mset_without_flag: "mset (without_flag f bs) = filter_mset (\<lambda>b. hd b \<noteq> f) (mset bs)"
  by (simp add: without_flag_def)

lemma list_all_without_flag: "list_all P bs \<Longrightarrow> list_all P (without_flag f bs)"
  by (simp add: without_flag_def list_all_iff)

lemma replace_flag_pair_blocks:
  assumes "list_all block_ok bs" "f \<in> {SOCKET_FLAG, PARENT_PID_FLAG, LOG_FILTER_FLAG}" "v \<notin> flags"
  shows "replace_flag_pair (concat bs) f v = concat (without_flag f bs @ [[f, v]])"
    and "list_all block_ok (without_flag f bs @ [[f, v]])"
  using assms by (auto simp: replace_flag_pair_def drop_flag_pairs_blocks list_all_without_flag)

lemma args_are_new: "args_are (process_config_new exe) None None None False"
  unfolding args_are_def
  by (intro exI[of _ "[[SERVER_FLAG]]"]) (simp add: process_config_new_def value_block_def)

lemma args_are_executable [simp]: "args_are (c\<lparr>pc_executable := e\<rparr>) = args_are c"
  by (simp add: args_are_def fun_eq_iff)

lemma args_are_server_mode [simp]: "args_are c sock pid flt no_tap \<Longrightarrow> pc_ensure_server_mode c = c"
proof -
  assume "args_are c sock pid flt no_tap"
  then obtain bs where bs: "pc_args c = concat bs" "mset bs = mset ([SERVER_FLAG] # value_block SOCKET_FLAG sock @ value_block PARENT_PID_FLAG pid
             @ value_block LOG_FILTER_FLAG flt @ (if no_tap then [[DISABLE_EVENT_TAP_FLAG]] else []))"
    by (auto simp: args_are_def)
  then have "[SERVER_FLAG] \<in> set bs" by (metis list.set_intros(1) mset_eq_setD)
  then show ?thesis using bs(1) by (force simp: pc_ensure_server_mode_def)
qed

lemma args_are_set:
  assumes "args_are c sock pid flt no_tap" "v \<notin> flags"
  shows "args_are (pc_set_socket_path v c) (Some v) pid flt no_tap"
    and "args_are (c\<lparr>pc_args := replace_flag_pair (pc_args c) PARENT_PID_FLAG v\<rparr>) sock (Some v) flt no_tap"
    and "args_are (pc_set_log_filter v c) sock pid (Some v) no_tap"
proof -
  obtain bs where bs: "pc_args c = concat bs" "list_all block_ok bs"
    "mset bs = mset ([SERVER_FLAG] # value_block SOCKET_FLAG sock @ value_block PARENT_PID_FLAG pid
             @ value_block LOG_FILTER_FLAG flt @ (if no_tap then [[DISABLE_EVENT_TAP_FLAG]] else []))"
    using assms(1) by (auto simp: args_are_def)
  note blocks = replace_flag_pair_blocks(1) [OF bs(2) _ assms(2)]
  have "filter_mset (\<lambda>b. hd b \<noteq> SOCKET_FLAG) (mset bs) + {#[SOCKET_FLAG, v]#} = mset ([SERVER_FLAG] # value_block SOCKET_FLAG (Some v) @ value_block PARENT_PID_FLAG pid @ value_block LOG_FILTER_FLAG flt
      @ (if no_tap then [[DISABLE_EVENT_TAP_FLAG]] else []))"
    unfolding bs(3) value_block_def by (cases sock; cases pid; cases flt) simp_all
  then show "args_are (pc_set_socket_path v c) (Some v) pid flt no_tap"
    unfolding args_are_def
    by (intro exI[of _ "without_flag SOCKET_FLAG bs @ [[SOCKET_FLAG, v]]"]) (use assms(2) in \<open>simp add: pc_set_socket_path_def bs(1) blocks mset_without_flag value_block_def
        list_all_without_flag [OF bs(2)]\<close>)
  have "filter_mset (\<lambda>b. hd b \<noteq> PARENT_PID_FLAG) (mset bs) + {#[PARENT_PID_FLAG, v]#} = mset ([SERVER_FLAG] # value_block SOCKET_FLAG sock @ value_block PARENT_PID_FLAG (Some v) @ value_block LOG_FILTER_FLAG flt
      @ (if no_tap then [[DISABLE_EVENT_TAP_FLAG]] else []))"
    unfolding bs(3) value_block_def by (cases sock; cases pid; cases flt) simp_all
  then show "args_are (c\<lparr>pc_args := replace_flag_pair (pc_args c) PARENT_PID_FLAG v\<rparr>) sock (Some v) flt no_tap"
    unfolding args_are_def
    by (intro exI[of _ "without_flag PARENT_PID_FLAG bs @ [[PARENT_PID_FLAG, v]]"]) (use assms(2) in \<open>simp add: bs(1) blocks mset_without_flag value_block_def
        list_all_without_flag [OF bs(2)]\<close>)
  have "filter_mset (\<lambda>b. hd b \<noteq> LOG_FILTER_FLAG) (mset bs) + {#[LOG_FILTER_FLAG, v]#} = mset ([SERVER_FLAG] # value_block SOCKET_FLAG sock @ value_block PARENT_PID_FLAG pid @ value_block LOG_FILTER_FLAG (Some v)
      @ (if no_tap then [[DISABLE_EVENT_TAP_FLAG]] else []))"
    unfolding bs(3) value_block_def by (cases sock; cases pid; cases flt) simp_all
  then show "args_are (pc_set_log_filter v c) sock pid (Some v) no_tap"
    unfolding args_are_def
    by (intro exI[of _ "without_flag LOG_FILTER_FLAG bs @ [[LOG_FILTER_FLAG, v]]"]) (use assms(2) in \<open>simp add: pc_set_log_filter_def bs(1) blocks mset_without_flag value_block_def
        list_all_without_flag [OF bs(2)]\<close>)
qed

lemma args_are_tap:
  assumes "args_are c sock pid flt no_tap"
  shows "args_are (pc_set_event_tap_enabled enabled c) sock pid flt (\<not> enabled)"
proof -
  obtain bs where bs: "pc_args c = concat bs" "list_all block_ok bs"
    "mset bs = mset ([SERVER_FLAG] # value_block SOCKET_FLAG sock @ value_block PARENT_PID_FLAG pid
             @ value_block LOG_FILTER_FLAG flt @ (if no_tap then [[DISABLE_EVENT_TAP_FLAG]] else []))"
    using assms by (auto simp: args_are_def)
  show ?thesis
    unfolding args_are_def
    by (intro exI[of _ "without_flag DISABLE_EVENT_TAP_FLAG bs @ (if enabled then [] else [[DISABLE_EVENT_TAP_FLAG]])"] conjI)
      (simp_all add: pc_set_event_tap_enabled_def set_plain_flag_def bs(1) set_plain_flag_blocks [OF bs(2)]
        list_all_without_flag [OF bs(2)] mset_without_flag bs(3) value_block_def split: option.split)
qed

text \<open>A number is not a flag.\<close>

lemma string_of_nat_digit: "hd (string_of_nat n) \<noteq> CHR ''-''"
proof (induction n rule: string_of_nat.induct)
  case (1 n)
  have "char_of (48 + k) \<noteq> CHR ''-''" if "k < 10" for k :: nat
  proof
    assume "char_of (48 + k) = CHR ''-''"
    then have "of_char (char_of (48 + k) :: char) = (of_char (CHR ''-'') :: nat)" by simp
    then show False using that by simp
  qed
  then show ?case using 1 by (subst string_of_nat.simps) (auto simp: hd_append)
qed

lemma string_of_nat_not_flag: "string_of_nat n \<notin> flags"
  using string_of_nat_digit [of n] by (auto simp: flags_def)

datatype server_setting =
  Set_Socket string | Set_Log_Filter string | Set_Event_Tap bool | Auto_Spawn | Connect_Only

text \<open>A setting with the executable path that is found when it is made.\<close>

fun apply_setting :: "32 word \<Rightarrow> string option \<times> server_setting \<Rightarrow> managed_server \<Rightarrow> managed_server" where
  "apply_setting pid (exe, Set_Socket path) m = mg_set_socket_path path m"
| "apply_setting pid (exe, Set_Log_Filter flt) m = set_server_log_filter exe pid flt m"
| "apply_setting pid (exe, Set_Event_Tap enabled) m = set_server_event_tap_enabled exe pid enabled m"
| "apply_setting pid (exe, Auto_Spawn) m = enable_auto_spawn_server exe pid m"
| "apply_setting pid (exe, Connect_Only) m = disable_auto_spawn m"

fun setting_ok :: "string option \<times> server_setting \<Rightarrow> bool" where
  "setting_ok (_, Set_Socket path) \<longleftrightarrow> path \<notin> flags"
| "setting_ok (_, Set_Log_Filter flt) \<longleftrightarrow> flt \<notin> flags"
| "setting_ok _ \<longleftrightarrow> True"

definition settings_ok :: "32 word \<Rightarrow> managed_server \<Rightarrow> bool" where
  "settings_ok pid m \<longleftrightarrow>
     mg_socket_path m \<notin> flags \<and> (\<forall>flt. mg_pending_log_filter m = Some flt \<longrightarrow> flt \<notin> flags)
     \<and> (mg_config m \<noteq> None \<longrightarrow> mg_auto_spawn m)
     \<and> (\<forall>c. mg_config m = Some c \<longrightarrow>
          args_are c (Some (mg_socket_path m)) (Some (string_of_nat (unat pid))) (mg_pending_log_filter m)
            (mg_pending_event_tap m = Some False))"

lemma ensure_auto_spawn_args:
  assumes c: "case mg_config m of Some c \<Rightarrow> args_are c sock p flt no_tap | None \<Rightarrow> flt = None \<and> \<not> no_tap"
    and sock: "mg_socket_path m \<notin> flags" and filt: "\<And>f. mg_pending_log_filter m = Some f \<Longrightarrow> f \<notin> flags"
    and "mg_auto_spawn m" "exe = Some e"
  shows "\<exists>c'. mg_config (ensure_auto_spawn_config exe pid m) = Some c' \<and>
     args_are c' (Some (mg_socket_path m)) (Some (string_of_nat (unat pid)))
       (case mg_pending_log_filter m of Some f \<Rightarrow> Some f | None \<Rightarrow> flt)
       (case mg_pending_event_tap m of Some enabled \<Rightarrow> \<not> enabled | None \<Rightarrow> no_tap)"
proof -
  obtain c0 s0 p0 where c0: "c0 = (case mg_config m of Some c \<Rightarrow> c | None \<Rightarrow> process_config_new e)"
    "args_are c0 s0 p0 flt no_tap"
    using c args_are_new [of e] by (cases "mg_config m") auto
  let ?c1 = "pc_set_socket_path (mg_socket_path m) (c0\<lparr>pc_executable := e\<rparr>)"
  have c1: "args_are ?c1 (Some (mg_socket_path m)) p0 flt no_tap"
    using c0(2) sock by (intro args_are_set(1)) simp_all
  let ?c2 = "pc_set_parent_pid pid ?c1"
  have c2: "args_are ?c2 (Some (mg_socket_path m)) (Some (string_of_nat (unat pid))) flt no_tap"
    unfolding pc_set_parent_pid_def by (rule args_are_set(2) [OF c1 string_of_nat_not_flag])
  let ?c3 = "case mg_pending_log_filter m of Some f \<Rightarrow> pc_set_log_filter f ?c2 | None \<Rightarrow> ?c2"
  have c3: "args_are ?c3 (Some (mg_socket_path m)) (Some (string_of_nat (unat pid)))
      (case mg_pending_log_filter m of Some f \<Rightarrow> Some f | None \<Rightarrow> flt) no_tap"
    using c2 args_are_set(3) [OF c2 filt] by (simp split: option.split)
  let ?c4 = "case mg_pending_event_tap m of Some enabled \<Rightarrow> pc_set_event_tap_enabled enabled ?c3 | None \<Rightarrow> ?c3"
  have c4: "args_are ?c4 (Some (mg_socket_path m)) (Some (string_of_nat (unat pid)))
      (case mg_pending_log_filter m of Some f \<Rightarrow> Some f | None \<Rightarrow> flt)
      (case mg_pending_event_tap m of Some enabled \<Rightarrow> \<not> enabled | None \<Rightarrow> no_tap)"
    using c3 args_are_tap [OF c3] by (simp split: option.split)
  have mode: "pc_ensure_server_mode (c0\<lparr>pc_executable := e\<rparr>) = c0\<lparr>pc_executable := e\<rparr>"
    using c0(2) by (intro args_are_server_mode) simp
  have "mg_config (ensure_auto_spawn_config exe pid m) = Some ?c4"
    using mode c0(1) \<open>exe = Some e\<close> \<open>mg_auto_spawn m\<close>
    by (cases "mg_config m") (simp_all add: ensure_auto_spawn_config_def Let_def split: option.split)
  then show ?thesis using c4 by blast
qed

lemma ensure_auto_spawn_frame [simp]:
  "mg_socket_path (ensure_auto_spawn_config exe pid m) = mg_socket_path m"
  "mg_pending_log_filter (ensure_auto_spawn_config exe pid m) = mg_pending_log_filter m"
  "mg_pending_event_tap (ensure_auto_spawn_config exe pid m) = mg_pending_event_tap m"
  "mg_auto_spawn (ensure_auto_spawn_config exe pid m) = mg_auto_spawn m"
  by (simp_all add: ensure_auto_spawn_config_def Let_def split: option.split)

lemma ensure_auto_spawn_none [simp]: "ensure_auto_spawn_config None pid m = m"
  by (simp add: ensure_auto_spawn_config_def)

lemma ensure_auto_spawn_off [simp]: "\<not> mg_auto_spawn m \<Longrightarrow> ensure_auto_spawn_config exe pid m = m"
  by (simp add: ensure_auto_spawn_config_def)

lemma settings_ok_ensure:
  assumes sock: "mg_socket_path m \<notin> flags" and filt: "\<And>f. mg_pending_log_filter m = Some f \<Longrightarrow> f \<notin> flags"
    and c: "\<And>c. mg_config m = Some c \<Longrightarrow> \<exists>s p flt tap. args_are c s p flt tap
      \<and> (mg_pending_log_filter m = None \<longrightarrow> flt = None) \<and> (mg_pending_event_tap m = None \<longrightarrow> \<not> tap)"
    and "exe = Some e" "mg_auto_spawn m"
  shows "settings_ok pid (ensure_auto_spawn_config exe pid m)"
proof -
  obtain s p flt tap where
    args: "case mg_config m of Some c \<Rightarrow> args_are c s p flt tap | None \<Rightarrow> flt = None \<and> \<not> tap"
    and pend: "mg_pending_log_filter m = None \<longrightarrow> flt = None" "mg_pending_event_tap m = None \<longrightarrow> \<not> tap"
    using c by (cases "mg_config m") fastforce+
  from ensure_auto_spawn_args [OF args sock filt assms(5,4), of pid] obtain c' where
    c': "mg_config (ensure_auto_spawn_config exe pid m) = Some c'"
     "args_are c' (Some (mg_socket_path m)) (Some (string_of_nat (unat pid)))
       (case mg_pending_log_filter m of Some f \<Rightarrow> Some f | None \<Rightarrow> flt)
       (case mg_pending_event_tap m of Some enabled \<Rightarrow> \<not> enabled | None \<Rightarrow> tap)" by blast
  moreover have "(case mg_pending_log_filter m of Some f \<Rightarrow> Some f | None \<Rightarrow> flt) = mg_pending_log_filter m"
    using pend by (simp split: option.split)
  moreover have "(case mg_pending_event_tap m of Some enabled \<Rightarrow> \<not> enabled | None \<Rightarrow> tap)
      = (mg_pending_event_tap m = Some False)"
    using pend by (simp split: option.split)
  ultimately show ?thesis using sock filt \<open>mg_auto_spawn m\<close> by (simp add: settings_ok_def)
qed

lemma settings_ok_args:
  assumes "settings_ok pid m" "mg_config m = Some c"
  shows "\<exists>s p. args_are c s p (mg_pending_log_filter m) (mg_pending_event_tap m = Some False)"
  using assms by (auto simp: settings_ok_def)

lemma settings_ok_setting:
  assumes "settings_ok pid m" "setting_ok st"
  shows "settings_ok pid (apply_setting pid st m)"
proof (cases st)
  case (Pair exe setting)
  note ok = assms(1) [unfolded settings_ok_def]
  show ?thesis
  proof (cases setting)
    case (Set_Socket path)
    then show ?thesis using ok assms(2) Pair
      by (auto simp: settings_ok_def mg_set_socket_path_def intro: args_are_set(1))
  next
    case (Set_Log_Filter flt)
    let ?m = "m\<lparr>mg_pending_log_filter := Some flt\<rparr>"
    have flt: "flt \<notin> flags" using assms(2) Pair Set_Log_Filter by simp
    show ?thesis
    proof (cases "mg_auto_spawn m")
      case True
      have upd: "settings_ok pid (update_spawn_config (pc_set_log_filter flt) n)"
        if n: "settings_ok pid n \<or> n = ?m" "mg_pending_log_filter n = Some flt" for n
      proof -
        have "\<exists>old. args_are c (Some (mg_socket_path n)) (Some (string_of_nat (unat pid))) old
            (mg_pending_event_tap n = Some False)" if "mg_config n = Some c" for c
          using n that ok by (auto simp: settings_ok_def)
        then have "args_are (pc_set_log_filter flt c) (Some (mg_socket_path n)) (Some (string_of_nat (unat pid)))
            (Some flt) (mg_pending_event_tap n = Some False)" if "mg_config n = Some c" for c
          using that args_are_set(3) [OF _ flt] by blast
        moreover have "mg_socket_path n \<notin> flags" "mg_auto_spawn n \<or> mg_config n = None"
          using n ok by (auto simp: settings_ok_def)
        ultimately show ?thesis
          using n(2) flt by (auto simp: settings_ok_def update_spawn_config_def split: option.split)
      qed
      have "settings_ok pid (ensure_auto_spawn_config exe pid ?m)" if "exe = Some e" for e
      proof (rule settings_ok_ensure [OF _ _ _ that])
        show "\<exists>s p f tap. args_are c s p f tap \<and> (mg_pending_log_filter ?m = None \<longrightarrow> f = None)
            \<and> (mg_pending_event_tap ?m = None \<longrightarrow> \<not> tap)" if "mg_config ?m = Some c" for c
          using settings_ok_args [OF assms(1)] that by fastforce
      qed (use ok flt True in auto)
      then show ?thesis
        using Pair Set_Log_Filter upd by (cases exe) (simp_all add: set_server_log_filter_def)
    next
      case False
      then have "mg_config m = None" using ok by auto
      with False show ?thesis using ok flt Pair Set_Log_Filter
        by (simp add: set_server_log_filter_def update_spawn_config_def settings_ok_def)
    qed
  next
    case (Set_Event_Tap enabled)
    let ?m = "m\<lparr>mg_pending_event_tap := Some enabled\<rparr>"
    show ?thesis
    proof (cases "mg_auto_spawn m")
      case True
      have upd: "settings_ok pid (update_spawn_config (pc_set_event_tap_enabled enabled) n)"
        if n: "settings_ok pid n \<or> n = ?m" "mg_pending_event_tap n = Some enabled" for n
      proof -
        have "\<exists>old. args_are c (Some (mg_socket_path n)) (Some (string_of_nat (unat pid)))
            (mg_pending_log_filter n) old" if "mg_config n = Some c" for c
          using n that ok by (auto simp: settings_ok_def)
        then have "args_are (pc_set_event_tap_enabled enabled c) (Some (mg_socket_path n))
            (Some (string_of_nat (unat pid))) (mg_pending_log_filter n) (\<not> enabled)" if "mg_config n = Some c" for c
          using that args_are_tap by blast
        moreover have "mg_socket_path n \<notin> flags" "mg_auto_spawn n \<or> mg_config n = None"
          "\<forall>flt. mg_pending_log_filter n = Some flt \<longrightarrow> flt \<notin> flags"
          using n ok by (auto simp: settings_ok_def)
        ultimately show ?thesis
          using n(2) by (auto simp: settings_ok_def update_spawn_config_def split: option.split)
      qed
      have "settings_ok pid (ensure_auto_spawn_config exe pid ?m)" if "exe = Some e" for e
      proof (rule settings_ok_ensure [OF _ _ _ that])
        show "\<exists>s p f tap. args_are c s p f tap \<and> (mg_pending_log_filter ?m = None \<longrightarrow> f = None)
            \<and> (mg_pending_event_tap ?m = None \<longrightarrow> \<not> tap)" if "mg_config ?m = Some c" for c
          using settings_ok_args [OF assms(1)] that by fastforce
      qed (use ok True in auto)
      then show ?thesis
        using Pair Set_Event_Tap upd by (cases exe) (simp_all add: set_server_event_tap_enabled_def)
    next
      case False
      then have "mg_config m = None" using ok by auto
      with False show ?thesis using ok Pair Set_Event_Tap
        by (simp add: set_server_event_tap_enabled_def update_spawn_config_def settings_ok_def)
    qed
  next
    case Auto_Spawn
    let ?m = "m\<lparr>mg_auto_spawn := True\<rparr>"
    have "settings_ok pid ?m" using ok by (simp add: settings_ok_def)
    moreover have "settings_ok pid (ensure_auto_spawn_config exe pid ?m)" if "exe = Some e" for e
    proof (rule settings_ok_ensure [OF _ _ _ that])
      show "\<exists>s p f tap. args_are c s p f tap \<and> (mg_pending_log_filter ?m = None \<longrightarrow> f = None)
          \<and> (mg_pending_event_tap ?m = None \<longrightarrow> \<not> tap)" if "mg_config ?m = Some c" for c
        using settings_ok_args [OF assms(1)] that by fastforce
    qed (use ok in auto)
    ultimately show ?thesis using Pair Auto_Spawn by (cases exe) (auto simp: enable_auto_spawn_server_def)
  next
    case Connect_Only
    then show ?thesis using ok Pair by (simp add: settings_ok_def disable_auto_spawn_def)
  qed
qed

lemma settings_ok_new: "path \<notin> flags \<Longrightarrow> settings_ok pid (managed_server_new path)"
  by (simp add: settings_ok_def managed_server_new_def)

lemma settings_ok_run:
  "settings_ok pid m \<Longrightarrow> list_all setting_ok sts \<Longrightarrow> settings_ok pid (fold (apply_setting pid) sts m)"
  by (induction sts arbitrary: m) (simp_all add: settings_ok_setting)

text \<open>
  Whatever settings are made in whatever order, a server that is to be spawned gets each
  flag once: the server mode, the socket path set last, the pid of this process, the log
  filter set last when one was set, and the flag against the event tap exactly when the tap
  was last disabled. Values that are themselves flags are excluded.
\<close>

theorem spawn_args_canonical:
  assumes "path \<notin> flags" "list_all setting_ok settings"
    and "mg_config (fold (apply_setting pid) settings (managed_server_new path)) = Some c"
  shows "let m = fold (apply_setting pid) settings (managed_server_new path)
    in mg_auto_spawn m \<and>
      (\<exists>bs. pc_args c = concat bs \<and> list_all block_ok bs
        \<and> mset bs = mset ([SERVER_FLAG] # [SOCKET_FLAG, mg_socket_path m] # [PARENT_PID_FLAG, string_of_nat (unat pid)]
             # value_block LOG_FILTER_FLAG (mg_pending_log_filter m)
             @ (if mg_pending_event_tap m = Some False then [[DISABLE_EVENT_TAP_FLAG]] else [])))"
  using settings_ok_run [OF settings_ok_new [OF assms(1)] assms(2), of pid] assms(3)
  by (simp add: settings_ok_def Let_def args_are_def value_block_def)

theorem spawn_args_canonical_witness:
  "\<exists>c bs. mg_config (fold (apply_setting 7) [(Some ''hotki'', Set_Log_Filter ''info''), (Some ''hotki'', Auto_Spawn),
         (Some ''hotki'', Set_Event_Tap False), (None, Set_Socket ''/s'')] (managed_server_new ''/t'')) = Some c
     \<and> pc_args c = concat bs \<and> mset bs = {#[SERVER_FLAG], [SOCKET_FLAG, ''/s''], [PARENT_PID_FLAG, ''7''],
         [LOG_FILTER_FLAG, ''info''], [DISABLE_EVENT_TAP_FLAG]#}"
proof -
  let ?sts = "[(Some ''hotki'', Set_Log_Filter ''info''), (Some ''hotki'', Auto_Spawn),
         (Some ''hotki'', Set_Event_Tap False), (None, Set_Socket ''/s'')]"
  let ?m = "fold (apply_setting 7) ?sts (managed_server_new ''/t'')"
  have "''/t'' \<notin> flags" "list_all setting_ok ?sts" by (simp_all add: flags_def)
  moreover obtain c where c: "mg_config ?m = Some c"
    by (simp add: managed_server_new_def set_server_log_filter_def ensure_auto_spawn_config_def update_spawn_config_def
        enable_auto_spawn_server_def set_server_event_tap_enabled_def mg_set_socket_path_def)
  moreover have "mg_socket_path ?m = ''/s''" "mg_pending_log_filter ?m = Some ''info''" "mg_pending_event_tap ?m = Some False"
    by (simp_all add: managed_server_new_def set_server_log_filter_def update_spawn_config_def
        enable_auto_spawn_server_def set_server_event_tap_enabled_def mg_set_socket_path_def)
  moreover have "string_of_nat 7 = ''7''" by code_simp
  ultimately show ?thesis
    using spawn_args_canonical [of "''/t''" ?sts 7 c] by (auto simp: Let_def value_block_def)
qed

end
