(* ===== verification/Runtime_Health.thy ===== *)
theory Runtime_Health
  imports Protocol_Types World_State
begin

text \<open>
  The app's runtime health (\<open>hotki-app/src/health.rs\<close>): the lifecycle of the
  runtime lane with its transitions and the projections the UI presents.  A path
  is its string.
\<close>

subsection \<open>Types\<close>

record input_projection =
  ip_tap_mode :: health_tap_mode
  ip_tap_lifecycle :: health_tap_lifecycle
  ip_secure_input :: health_secure_input
  ip_secure_input_owner :: "health_owner option"
  ip_blocked :: bool

definition input_projection_of :: "input_health \<Rightarrow> input_projection" where
  "input_projection_of input =
     \<lparr>ip_tap_mode = ih_tap_mode input, ip_tap_lifecycle = ih_tap_lifecycle input,
      ip_secure_input = ih_secure_input input, ip_secure_input_owner = ih_secure_input_owner input,
      ip_blocked = ih_blocked input\<rparr>"

definition input_projection_default :: input_projection where
  "input_projection_default =
     \<lparr>ip_tap_mode = HTM_Physical, ip_tap_lifecycle = HTL_Starting, ip_secure_input = HSI_Unknown,
      ip_secure_input_owner = None, ip_blocked = False\<rparr>"

datatype runtime_phase =
    RP_Disconnected | RP_Connecting | RP_InvalidConfig | RP_WaitingPermissions | RP_Ready
  | RP_Retrying | RP_ShuttingDown

fun phase_label :: "runtime_phase \<Rightarrow> string" where
  "phase_label RP_Disconnected = ''disconnected''"
| "phase_label RP_Connecting = ''connecting''"
| "phase_label RP_InvalidConfig = ''invalid_config''"
| "phase_label RP_WaitingPermissions = ''waiting_permissions''"
| "phase_label RP_Ready = ''ready''"
| "phase_label RP_Retrying = ''retrying''"
| "phase_label RP_ShuttingDown = ''shutting_down''"

datatype connection_status = CS_Disconnected | CS_Connecting | CS_Connected | CS_Closing

fun connection_label :: "connection_status \<Rightarrow> string" where
  "connection_label CS_Disconnected = ''disconnected''"
| "connection_label CS_Connecting = ''connecting''"
| "connection_label CS_Connected = ''connected''"
| "connection_label CS_Closing = ''closing''"

datatype retry_state = Retry_Idle | Retry_Available | Retry_InProgress

fun retry_label :: "retry_state \<Rightarrow> string" where
  "retry_label Retry_Idle = ''idle''"
| "retry_label Retry_Available = ''available''"
| "retry_label Retry_InProgress = ''in_progress''"

datatype notice_tone = Tone_Progress | Tone_Attention | Tone_Error

fun tone_label :: "notice_tone \<Rightarrow> string" where
  "tone_label Tone_Progress = ''progress''"
| "tone_label Tone_Attention = ''attention''"
| "tone_label Tone_Error = ''error''"

datatype primary_action = PA_ReloadConfig | PA_OpenPermissions | PA_TryAgain

fun primary_action_label :: "primary_action \<Rightarrow> string" where
  "primary_action_label PA_ReloadConfig = ''Reload Config''"
| "primary_action_label PA_OpenPermissions = ''Open Permissions''"
| "primary_action_label PA_TryAgain = ''Try Again''"

datatype health_state =
    RS_Disconnected "string option"
  | RS_InitialConnection string
  | RS_QueuedReconnect string
  | RS_Reconnecting string
  | RS_LiveConfigReload "string option" string
  | RS_PermissionBlocked "string option" bool
  | RS_Running string
  | RS_ConfigRejected "string option" string string
  | RS_ShuttingDown bool

record runtime_health =
  rh_state :: health_state
  rh_permissions :: capabilities
  rh_input :: input_projection

definition runtime_health_default :: runtime_health where
  "runtime_health_default =
     \<lparr>rh_state = RS_Disconnected None, rh_permissions = capabilities_default,
      rh_input = input_projection_default\<rparr>"

subsection \<open>Projections\<close>

fun state_phase :: "health_state \<Rightarrow> runtime_phase" where
  "state_phase (RS_Disconnected m) = RP_Disconnected"
| "state_phase (RS_InitialConnection c) = RP_Connecting"
| "state_phase (RS_QueuedReconnect c) = RP_Retrying"
| "state_phase (RS_Reconnecting c) = RP_Retrying"
| "state_phase (RS_LiveConfigReload a c) = RP_Retrying"
| "state_phase (RS_PermissionBlocked a l) = RP_WaitingPermissions"
| "state_phase (RS_Running a) = RP_Ready"
| "state_phase (RS_ConfigRejected a c m) = RP_InvalidConfig"
| "state_phase (RS_ShuttingDown l) = RP_ShuttingDown"

fun state_connection :: "health_state \<Rightarrow> connection_status" where
  "state_connection (RS_Disconnected m) = CS_Disconnected"
| "state_connection (RS_QueuedReconnect c) = CS_Disconnected"
| "state_connection (RS_PermissionBlocked a l) = (if l then CS_Connected else CS_Disconnected)"
| "state_connection (RS_ShuttingDown l) = (if l then CS_Closing else CS_Disconnected)"
| "state_connection (RS_InitialConnection c) = CS_Connecting"
| "state_connection (RS_Reconnecting c) = CS_Connecting"
| "state_connection (RS_LiveConfigReload a c) = CS_Connected"
| "state_connection (RS_Running a) = CS_Connected"
| "state_connection (RS_ConfigRejected a c m) = CS_Connected"

fun state_retry :: "health_state \<Rightarrow> retry_state" where
  "state_retry (RS_Disconnected m) = (case m of None \<Rightarrow> Retry_Idle | Some _ \<Rightarrow> Retry_Available)"
| "state_retry (RS_Running a) = Retry_Idle"
| "state_retry (RS_ShuttingDown l) = Retry_Idle"
| "state_retry (RS_PermissionBlocked a l) = Retry_Available"
| "state_retry (RS_ConfigRejected a c m) = Retry_Available"
| "state_retry (RS_InitialConnection c) = Retry_InProgress"
| "state_retry (RS_QueuedReconnect c) = Retry_InProgress"
| "state_retry (RS_Reconnecting c) = Retry_InProgress"
| "state_retry (RS_LiveConfigReload a c) = Retry_InProgress"

fun state_active_config :: "health_state \<Rightarrow> string option" where
  "state_active_config (RS_LiveConfigReload a c) = a"
| "state_active_config (RS_PermissionBlocked a l) = a"
| "state_active_config (RS_ConfigRejected a c m) = a"
| "state_active_config (RS_Running a) = Some a"
| "state_active_config _ = None"

fun state_pending_config :: "health_state \<Rightarrow> string option" where
  "state_pending_config (RS_InitialConnection c) = Some c"
| "state_pending_config (RS_QueuedReconnect c) = Some c"
| "state_pending_config (RS_Reconnecting c) = Some c"
| "state_pending_config (RS_LiveConfigReload a c) = Some c"
| "state_pending_config (RS_ConfigRejected a c m) = Some c"
| "state_pending_config _ = None"

definition rh_phase :: "runtime_health \<Rightarrow> runtime_phase" where
  "rh_phase h = state_phase (rh_state h)"

definition server_connected :: "runtime_health \<Rightarrow> bool" where
  "server_connected h \<longleftrightarrow> state_connection (rh_state h) = CS_Connected"

definition is_shutting_down :: "runtime_health \<Rightarrow> bool" where
  "is_shutting_down h \<longleftrightarrow> (case rh_state h of RS_ShuttingDown _ \<Rightarrow> True | _ \<Rightarrow> False)"

subsection \<open>Transitions\<close>

definition health_connecting :: "string \<Rightarrow> runtime_health" where
  "health_connecting config_path = runtime_health_default\<lparr>rh_state := RS_InitialConnection config_path\<rparr>"

definition health_disconnect :: "string \<Rightarrow> runtime_health \<Rightarrow> runtime_health" where
  "health_disconnect message h = h\<lparr>rh_state := RS_Disconnected (Some message)\<rparr>"

definition health_start_connecting :: "string \<Rightarrow> runtime_health \<Rightarrow> runtime_health" where
  "health_start_connecting candidate h =
     h\<lparr>rh_state := (case rh_state h of
         RS_InitialConnection _ \<Rightarrow> RS_InitialConnection candidate
       | _ \<Rightarrow> RS_Reconnecting candidate)\<rparr>"

definition health_queue_reconnect :: "string \<Rightarrow> runtime_health \<Rightarrow> runtime_health" where
  "health_queue_reconnect candidate h = h\<lparr>rh_state := RS_QueuedReconnect candidate\<rparr>"

definition health_block_on_permissions :: "runtime_health \<Rightarrow> runtime_health" where
  "health_block_on_permissions h =
     h\<lparr>rh_state := RS_PermissionBlocked (state_active_config (rh_state h)) (server_connected h)\<rparr>"

definition health_run_config :: "string \<Rightarrow> runtime_health \<Rightarrow> runtime_health" where
  "health_run_config active h = h\<lparr>rh_state := RS_Running active\<rparr>"

definition health_start_config_reload :: "string \<Rightarrow> runtime_health \<Rightarrow> runtime_health" where
  "health_start_config_reload candidate h =
     h\<lparr>rh_state := RS_LiveConfigReload (state_active_config (rh_state h)) candidate\<rparr>"

definition health_reject_config :: "string \<Rightarrow> string \<Rightarrow> runtime_health \<Rightarrow> runtime_health" where
  "health_reject_config candidate message h =
     h\<lparr>rh_state := RS_ConfigRejected (state_active_config (rh_state h)) candidate message\<rparr>"

definition health_begin_shutdown :: "runtime_health \<Rightarrow> runtime_health" where
  "health_begin_shutdown h = h\<lparr>rh_state := RS_ShuttingDown (server_connected h)\<rparr>"

lemmas health_transitions = health_connecting_def health_disconnect_def health_start_connecting_def
  health_queue_reconnect_def health_block_on_permissions_def health_run_config_def
  health_start_config_reload_def health_reject_config_def health_begin_shutdown_def

subsection \<open>Presentation\<close>

record runtime_notice =
  rn_title :: glyphs
  rn_detail :: "string option"
  rn_tone :: notice_tone
  rn_progress :: bool

record runtime_presentation =
  rp_notice :: "runtime_notice option"
  rp_primary_action :: "primary_action option"

definition secure_input_detail :: "input_projection \<Rightarrow> string" where
  "secure_input_detail input =
     (case ip_secure_input_owner input of
        None \<Rightarrow> ''Another application enabled Secure Input. Hotkeys resume automatically when it ends.''
      | Some owner \<Rightarrow> ho_app_name owner
          @ '' may own Secure Input (best effort). Hotkeys resume automatically when it ends.'')"

definition missing_required_permissions :: "capabilities \<Rightarrow> string option" where
  "missing_required_permissions status =
     (let missing = (if is_granted (cap_accessibility status) then [] else [''Accessibility''])
            @ (if is_granted (cap_input_monitoring status) then [] else [''Input Monitoring''])
      in case missing of
           [] \<Rightarrow> None
         | [permission] \<Rightarrow> Some (''Grant '' @ permission @ '' in System Settings.'')
         | first # second # _ \<Rightarrow> Some (''Grant '' @ first @ '' and '' @ second @ '' in System Settings.''))"

definition retry_action :: "runtime_health \<Rightarrow> primary_action option" where
  "retry_action h = (if state_retry (rh_state h) = Retry_Available then Some PA_TryAgain else None)"

text \<open>A title is its scalar values, since the two progress titles end in an ellipsis.\<close>

definition glyphs_of :: "string \<Rightarrow> glyphs" where
  "glyphs_of s = map (\<lambda>c. of_nat (of_char c)) s"

definition presentation :: "runtime_health \<Rightarrow> runtime_presentation" where
  "presentation h =
     (case rh_phase h of
        RP_Ready \<Rightarrow>
          \<lparr>rp_notice =
             (if ip_blocked (rh_input h)
              then Some \<lparr>rn_title = glyphs_of ''Hotkeys paused by Secure Input'',
                         rn_detail = Some (secure_input_detail (rh_input h)),
                         rn_tone = Tone_Attention, rn_progress = False\<rparr>
              else None),
           rp_primary_action = Some PA_ReloadConfig\<rparr>
      | RP_Connecting \<Rightarrow>
          \<lparr>rp_notice = Some \<lparr>rn_title = glyphs_of ''Starting Hotki'' @ [0x2026],
             rn_detail = Some ''Connecting and loading the configuration.'',
             rn_tone = Tone_Progress, rn_progress = True\<rparr>,
           rp_primary_action = None\<rparr>
      | RP_Retrying \<Rightarrow>
          \<lparr>rp_notice = Some \<lparr>rn_title = glyphs_of ''Trying again'' @ [0x2026],
             rn_detail = Some ''Reconnecting and reloading the configuration.'',
             rn_tone = Tone_Progress, rn_progress = True\<rparr>,
           rp_primary_action = None\<rparr>
      | RP_WaitingPermissions \<Rightarrow>
          \<lparr>rp_notice = Some \<lparr>rn_title = glyphs_of ''Hotki needs permission'',
             rn_detail = missing_required_permissions (rh_permissions h),
             rn_tone = Tone_Attention, rn_progress = False\<rparr>,
           rp_primary_action = Some PA_OpenPermissions\<rparr>
      | RP_InvalidConfig \<Rightarrow>
          \<lparr>rp_notice = Some \<lparr>rn_title = glyphs_of ''Hotki couldn't load the configuration'',
             rn_detail = Some (if state_active_config (rh_state h) \<noteq> None
               then ''The previous configuration is still active.''
               else ''No configuration is currently active.''),
             rn_tone = Tone_Error, rn_progress = False\<rparr>,
           rp_primary_action = retry_action h\<rparr>
      | RP_Disconnected \<Rightarrow>
          \<lparr>rp_notice = Some \<lparr>rn_title = glyphs_of ''Hotki isn't running'', rn_detail = None,
             rn_tone = Tone_Error, rn_progress = False\<rparr>,
           rp_primary_action = retry_action h\<rparr>
      | RP_ShuttingDown \<Rightarrow> \<lparr>rp_notice = None, rp_primary_action = None\<rparr>)"

end
