(* ===== verification/Ui_Delivery.thy ===== *)
theory Ui_Delivery
  imports Runtime_Health
begin

text \<open>
  The bounded mailbox between the app's background lanes and its UI thread
  (\<open>hotki-app/src/ui_delivery.rs\<close>): an ordered lane of at most 256 events and one
  slot per class of state snapshot.  A send runs under the mailbox lock except
  while it waits for space, where the lock is released; so a send is one step up
  to its first wait, and every wake-up is another.
\<close>

subsection \<open>Events\<close>

record notification_presentation =
  np_config :: notify_config
  np_displays :: displays_snapshot

record hud_presentation =
  hpr_hud :: hud_state
  hpr_displays :: displays_snapshot

datatype ui_command =
    ActivateApp | ShowAbout | UiShutdown | ShowPermissionsHelp | HidePermissionsHelp | ShowLogs | HideLogs
  | SetRuntimeHealth runtime_health
  | SetRuntimeHealthOverride "runtime_health option"
  | SetServerBindings "string list"
  | SetInputHealth input_health
  | SetPermissionStatusOverride "capabilities option"
  | SetNotificationPresentationOverride "notification_presentation option"
  | SetHudPresentationOverride "hud_presentation option"

datatype ui_event = UE_Message msg_to_ui | UE_Command ui_command

text \<open>The fields of \<open>PendingSnapshots\<close>, in the order in which they are scanned.\<close>

datatype snapshot_class =
  SC_Hud | SC_Selector | SC_RuntimeHealth | SC_BindingHealth | SC_PermissionHealth | SC_Heartbeat | SC_World

definition snapshot_classes :: "snapshot_class list" where
  "snapshot_classes =
     [SC_Hud, SC_Selector, SC_RuntimeHealth, SC_BindingHealth, SC_PermissionHealth, SC_Heartbeat, SC_World]"

fun snapshot_class_of :: "ui_event \<Rightarrow> snapshot_class option" where
  "snapshot_class_of (UE_Message (HudUpdate h d)) = Some SC_Hud"
| "snapshot_class_of (UE_Message (SelectorUpdate s)) = Some SC_Selector"
| "snapshot_class_of (UE_Message SelectorHide) = Some SC_Selector"
| "snapshot_class_of (UE_Message (Heartbeat h)) = Some SC_Heartbeat"
| "snapshot_class_of (UE_Message (WorldMsg w)) = Some SC_World"
| "snapshot_class_of (UE_Command (SetRuntimeHealth h)) = Some SC_RuntimeHealth"
| "snapshot_class_of (UE_Command (SetServerBindings b)) = Some SC_BindingHealth"
| "snapshot_class_of (UE_Command (SetPermissionStatusOverride p)) = Some SC_PermissionHealth"
| "snapshot_class_of _ = None"

fun is_log :: "ui_event \<Rightarrow> bool" where
  "is_log (UE_Message (Log l t m)) = True"
| "is_log _ = False"

subsection \<open>The mailbox\<close>

type_synonym sequenced = "64 word \<times> ui_event"

type_synonym pending_snapshots = "snapshot_class \<Rightarrow> sequenced option"

record ui_stats =
  dropped_logs :: "64 word"
  coalesced_snapshots :: "64 word"

record mailbox =
  mb_ordered :: "sequenced list"
  mb_snapshots :: pending_snapshots
  mb_stats :: ui_stats
  mb_next_sequence :: "64 word"

definition UI_ORDERED_CAPACITY :: nat where "UI_ORDERED_CAPACITY = 256"

definition mailbox_default :: mailbox where
  "mailbox_default =
     \<lparr>mb_ordered = [], mb_snapshots = (\<lambda>_. None),
      mb_stats = \<lparr>dropped_logs = 0, coalesced_snapshots = 0\<rparr>, mb_next_sequence = 0\<rparr>"

definition pending_entries :: "pending_snapshots \<Rightarrow> sequenced list" where
  "pending_entries s = List.map_filter s snapshot_classes"

definition snapshots_next_sequence :: "pending_snapshots \<Rightarrow> 64 word option" where
  "snapshots_next_sequence s =
     (case pending_entries s of [] \<Rightarrow> None | e # es \<Rightarrow> Some (fold min (map fst es) (fst e)))"

definition snapshots_len :: "pending_snapshots \<Rightarrow> nat" where
  "snapshots_len s = length (pending_entries s)"

definition snapshots_take :: "64 word \<Rightarrow> pending_snapshots \<Rightarrow> ui_event option \<times> pending_snapshots" where
  "snapshots_take sequence s =
     (case find (\<lambda>c. case s c of None \<Rightarrow> False | Some e \<Rightarrow> fst e = sequence) snapshot_classes of
        None \<Rightarrow> (None, s)
      | Some c \<Rightarrow> (map_option snd (s c), s(c := None)))"

datatype ui_outcome = UO_Queued | UO_Coalesced | UO_DroppedLogFull | UO_Closed

text \<open>
  Where a send stands after it gave up the lock: finished with an outcome, waiting
  for space to flush the snapshot with a sequence or to push its own entry, or
  panicked on a missing snapshot.
\<close>

datatype send_state =
    Sent ui_outcome
  | Wait_Flush "64 word" sequenced
  | Wait_Push sequenced
  | Panicked

definition lane_full :: "mailbox \<Rightarrow> bool" where
  "lane_full m \<longleftrightarrow> UI_ORDERED_CAPACITY \<le> length (mb_ordered m)"

definition push_ordered :: "sequenced \<Rightarrow> mailbox \<Rightarrow> mailbox" where
  "push_ordered e m = m\<lparr>mb_ordered := mb_ordered m @ [e]\<rparr>"

definition send_push :: "bool \<Rightarrow> sequenced \<Rightarrow> mailbox \<Rightarrow> send_state \<times> mailbox" where
  "send_push receiver_open entry m =
     (if lane_full m then (if receiver_open then Wait_Push entry else Sent UO_Closed, m)
      else (Sent UO_Queued, push_ordered entry m))"

lemma pending_take_less:
  assumes "snapshots_take s p = (Some e, p')"
  shows "length (pending_entries p') < length (pending_entries p)"
proof -
  obtain c where c: "p c \<noteq> None" "p' = p(c := None)"
    using assms by (auto simp: snapshots_take_def split: option.splits dest!: find_Some_iff[THEN iffD1])
  have len: "length (pending_entries q) = length (filter (\<lambda>c. q c \<noteq> None) snapshot_classes)" for q
    unfolding pending_entries_def List.map_filter_def by (simp add: o_def)
  have "c \<in> set snapshot_classes" by (cases c) (simp_all add: snapshot_classes_def)
  then have "c \<in> set (filter (\<lambda>c. p c \<noteq> None) snapshot_classes)" using c(1) by simp
  from length_filter_less[OF this, of "\<lambda>d. d \<noteq> c"]
  have "length (filter (\<lambda>d. d \<noteq> c) (filter (\<lambda>c. p c \<noteq> None) snapshot_classes))
    < length (filter (\<lambda>c. p c \<noteq> None) snapshot_classes)" by blast
  moreover have "filter (\<lambda>c. p' c \<noteq> None) snapshot_classes = filter (\<lambda>d. d \<noteq> c) (filter (\<lambda>c. p c \<noteq> None) snapshot_classes)"
    unfolding filter_filter c(2) by (rule filter_cong) auto
  ultimately show ?thesis unfolding len by argo
qed

text \<open>The loop that flushes the pending snapshots before an ordered entry is pushed.\<close>

function send_flush :: "bool \<Rightarrow> sequenced \<Rightarrow> mailbox \<Rightarrow> send_state \<times> mailbox" where
  "send_flush receiver_open entry m =
     (case snapshots_next_sequence (mb_snapshots m) of
        None \<Rightarrow> send_push receiver_open entry m
      | Some sequence \<Rightarrow>
          if lane_full m then (if receiver_open then Wait_Flush sequence entry else Sent UO_Closed, m)
          else case snapshots_take sequence (mb_snapshots m) of
                 (None, _) \<Rightarrow> (Panicked, m)
               | (Some ev, s) \<Rightarrow>
                   send_flush receiver_open entry (push_ordered (sequence, ev) (m\<lparr>mb_snapshots := s\<rparr>)))"
  by pat_completeness auto
termination
  by (relation "measure (\<lambda>(_, _, m). length (pending_entries (mb_snapshots m)))")
    (auto simp: push_ordered_def dest!: pending_take_less[OF sym])

declare send_flush.simps [simp del]

definition ui_send :: "bool \<Rightarrow> ui_event \<Rightarrow> mailbox \<Rightarrow> send_state \<times> mailbox" where
  "ui_send receiver_open event m =
     (if \<not> receiver_open then (Sent UO_Closed, m)
      else
        (let entry = (mb_next_sequence m, event);
             m = m\<lparr>mb_next_sequence := mb_next_sequence m + 1\<rparr>
         in case snapshot_class_of event of
              Some c \<Rightarrow>
                (let coalesced = (mb_snapshots m c \<noteq> None);
                     m = m\<lparr>mb_snapshots := (mb_snapshots m)(c := Some entry)\<rparr>
                 in if coalesced
                    then (Sent UO_Coalesced,
                          m\<lparr>mb_stats := (mb_stats m)\<lparr>coalesced_snapshots := coalesced_snapshots (mb_stats m) + 1\<rparr>\<rparr>)
                    else (Sent UO_Queued, m))
            | None \<Rightarrow>
                if is_log event \<and> UI_ORDERED_CAPACITY \<le> length (mb_ordered m) + snapshots_len (mb_snapshots m)
                then (Sent UO_DroppedLogFull,
                      m\<lparr>mb_stats := (mb_stats m)\<lparr>dropped_logs := dropped_logs (mb_stats m) + 1\<rparr>\<rparr>)
                else send_flush receiver_open entry m))"

text \<open>A waiting send that has been woken and holds the lock again.\<close>

fun ui_resume :: "bool \<Rightarrow> send_state \<Rightarrow> mailbox \<Rightarrow> send_state \<times> mailbox" where
  "ui_resume receiver_open (Wait_Flush sequence entry) m =
     (if lane_full m then (if receiver_open then Wait_Flush sequence entry else Sent UO_Closed, m)
      else case snapshots_take sequence (mb_snapshots m) of
             (None, _) \<Rightarrow> (Panicked, m)
           | (Some ev, s) \<Rightarrow>
               send_flush receiver_open entry (push_ordered (sequence, ev) (m\<lparr>mb_snapshots := s\<rparr>)))"
| "ui_resume receiver_open (Wait_Push entry) m = send_push receiver_open entry m"
| "ui_resume receiver_open st m = (st, m)"

definition ui_try_recv :: "mailbox \<Rightarrow> ui_event option \<times> mailbox" where
  "ui_try_recv m =
     (let ordered_sequence = (case mb_ordered m of [] \<Rightarrow> None | e # _ \<Rightarrow> Some (fst e))
      in case snapshots_next_sequence (mb_snapshots m) of
           Some sequence \<Rightarrow>
             if (case ordered_sequence of None \<Rightarrow> True | Some ordered \<Rightarrow> sequence < ordered)
             then (let (ev, s) = snapshots_take sequence (mb_snapshots m) in (ev, m\<lparr>mb_snapshots := s\<rparr>))
             else (case mb_ordered m of [] \<Rightarrow> (None, m) | e # es \<Rightarrow> (Some (snd e), m\<lparr>mb_ordered := es\<rparr>))
         | None \<Rightarrow> (case mb_ordered m of [] \<Rightarrow> (None, m) | e # es \<Rightarrow> (Some (snd e), m\<lparr>mb_ordered := es\<rparr>)))"

subsection \<open>The pending snapshots in sequence order\<close>

lemma set_snapshot_classes [simp]: "set snapshot_classes = UNIV"
  by (auto simp: snapshot_classes_def intro: snapshot_class.exhaust)

lemma distinct_snapshot_classes [simp]: "distinct snapshot_classes"
  by (simp add: snapshot_classes_def)

definition pending_list :: "pending_snapshots \<Rightarrow> sequenced list \<Rightarrow> bool" where
  "pending_list s ps \<longleftrightarrow>
     sorted_wrt (<) (map fst ps) \<and> set ps = ran s
     \<and> (\<forall>c e. s c = Some e \<longrightarrow> snapshot_class_of (snd e) = Some c)"

lemma set_pending_entries: "set (pending_entries s) = ran s"
  by (auto simp: pending_entries_def List.map_filter_def ran_def image_iff) (metis option.sel)

lemma pending_list_slot_class: "pending_list s ps \<Longrightarrow> s c = Some e \<Longrightarrow> snapshot_class_of (snd e) = Some c"
  unfolding pending_list_def by blast

lemma pending_list_class:
  "pending_list s ps \<Longrightarrow> s c = Some e \<Longrightarrow> s d = Some e' \<Longrightarrow> snd e = snd e' \<Longrightarrow> c = d"
  using pending_list_slot_class[of s ps c e] pending_list_slot_class[of s ps d e'] by simp

lemma pending_list_next:
  assumes "pending_list s ps"
  shows "snapshots_next_sequence s = (case ps of [] \<Rightarrow> None | e # _ \<Rightarrow> Some (fst e))"
proof (cases ps)
  case Nil
  with assms have "pending_entries s = []"
    using set_pending_entries[of s] by (simp add: pending_list_def)
  then show ?thesis using Nil by (simp add: snapshots_next_sequence_def)
next
  case (Cons e es)
  then have ne: "pending_entries s \<noteq> []"
    using assms set_pending_entries[of s] by (auto simp: pending_list_def)
  then obtain x xs where x: "pending_entries s = x # xs" by (cases "pending_entries s") auto
  have "fold min (map fst xs) (fst x) = Min (fst ` set (pending_entries s))"
    using Min.set_eq_fold[of "fst x" "map fst xs"] by (simp add: x)
  also have "\<dots> = Min (fst ` set ps)"
    using assms by (simp add: set_pending_entries pending_list_def)
  also have "\<dots> = fst e"
    using assms Cons by (intro Min_eqI) (auto simp: pending_list_def intro: less_imp_le)
  finally show ?thesis using x Cons by (simp add: snapshots_next_sequence_def)
qed

lemma pending_list_take:
  assumes pl: "pending_list s (e # es)"
  obtains s' where "snapshots_take (fst e) s = (Some (snd e), s')" "pending_list s' es"
proof -
  have srt: "\<And>x. x \<in> set es \<Longrightarrow> fst e < fst x" "sorted_wrt (<) (map fst es)" "set (e # es) = ran s"
    using pl by (auto simp: pending_list_def)
  have "e \<in> ran s" using srt(3) by (metis list.set_intros(1))
  then obtain c0 where c0: "s c0 = Some e" by (auto simp: ran_def)
  let ?P = "\<lambda>c. case s c of None \<Rightarrow> False | Some x \<Rightarrow> fst x = fst e"
  have "?P c0" using c0 by simp
  then obtain c where f: "find ?P snapshot_classes = Some c"
    by (metis UNIV_I find_None_iff not_Some_eq set_snapshot_classes)
  then have "?P c" by (auto simp: find_Some_iff)
  then obtain x where x: "s c = Some x" "fst x = fst e" by (auto split: option.splits)
  then have "x \<in> set (e # es)" using srt(3) by (auto simp: ran_def)
  then have xe: "x = e" using srt(1)[of x] x(2) by auto
  have "ran (s(c := None)) = set es"
  proof -
    have "d = c" if "s d = Some e" for d using pending_list_class[OF pl that x(1)] xe by simp
    then have one: "s d = Some y \<Longrightarrow> d \<noteq> c \<longleftrightarrow> y \<noteq> e" for d y
      using x(1) xe by (metis option.inject)
    have "y \<in> ran (s(c := None)) \<longleftrightarrow> (\<exists>d. d \<noteq> c \<and> s d = Some y)" for y
      by (simp add: ran_def) blast
    then have "y \<in> ran (s(c := None)) \<longleftrightarrow> y \<in> ran s \<and> y \<noteq> e" for y
      using one[of _ y] unfolding ran_def mem_Collect_eq by blast
    then have "ran (s(c := None)) = ran s - {e}"
      by blast
    moreover have "e \<notin> set es" using srt(1)[of e] less_irrefl by metis
    ultimately show ?thesis using srt(3) by auto
  qed
  then have "pending_list (s(c := None)) es"
    using pl srt by (auto simp: pending_list_def)
  moreover have "snapshots_take (fst e) s = (Some (snd e), s(c := None))"
    using f x(1) xe by (simp add: snapshots_take_def)
  ultimately show thesis by (rule that[rotated])
qed

lemma pending_list_replace:
  assumes pl: "pending_list s ps" and e: "snapshot_class_of (snd e) = Some c"
    and new: "\<forall>x \<in> set ps. fst x < fst e"
  shows "pending_list (s(c := Some e)) (filter (\<lambda>x. snapshot_class_of (snd x) \<noteq> Some c) ps @ [e])"
proof -
  have "sorted_wrt (<) (map fst (filter (\<lambda>x. snapshot_class_of (snd x) \<noteq> Some c) ps))"
    using pl by (auto simp: pending_list_def sorted_wrt_map intro: sorted_wrt_filter)
  moreover have "set (filter (\<lambda>x. snapshot_class_of (snd x) \<noteq> Some c) ps @ [e]) = ran (s(c := Some e))"
    using pl by (auto simp: pending_list_def ran_def)
  ultimately show ?thesis
    using pl e new by (auto simp: pending_list_def sorted_wrt_append)
qed

lemma pending_list_slot:
  assumes pl: "pending_list s ps"
  shows "s c \<noteq> None \<longleftrightarrow> (\<exists>x \<in> set ps. snapshot_class_of (snd x) = Some c)"
proof
  assume "s c \<noteq> None"
  then obtain x where "s c = Some x" by blast
  then show "\<exists>x \<in> set ps. snapshot_class_of (snd x) = Some c"
    using pl pending_list_slot_class[OF pl, of c x] unfolding pending_list_def by (blast intro: ranI)
next
  assume "\<exists>x \<in> set ps. snapshot_class_of (snd x) = Some c"
  then obtain x d where "snapshot_class_of (snd x) = Some c" "s d = Some x"
    using pl by (auto simp: pending_list_def ran_def)
  then show "s c \<noteq> None" using pending_list_slot_class[OF pl] by fastforce
qed

lemma pending_list_length:
  assumes pl: "pending_list s ps"
  shows "snapshots_len s = length ps"
proof -
  have "inj_on (\<lambda>c. the (s c)) {c. s c \<noteq> None}"
    using pending_list_class[OF pl] by (auto intro!: inj_onI)
  then have "distinct (map (\<lambda>c. the (s c)) (filter (\<lambda>c. s c \<noteq> None) snapshot_classes))"
    by (auto simp: distinct_map intro: inj_on_subset)
  moreover have "pending_entries s = map (\<lambda>c. the (s c)) (filter (\<lambda>c. s c \<noteq> None) snapshot_classes)"
    by (simp add: pending_entries_def List.map_filter_def o_def)
  ultimately have "length (pending_entries s) = card (ran s)"
    using set_pending_entries[of s] distinct_card by metis
  moreover have "distinct ps"
    using pl strict_sorted_iff[of "map fst ps"] by (simp add: pending_list_def distinct_map)
  ultimately show ?thesis
    using pl distinct_card[of ps] by (simp add: snapshots_len_def pending_list_def)
qed

subsection \<open>The mailbox refines a queue that coalesces trailing snapshots\<close>

text \<open>
  The specification: a list of events to deliver whose tail is the snapshots that
  a newer one of their class may still replace.
\<close>

type_synonym coalescing_queue = "ui_event list \<times> ui_event list"

fun queue_send :: "ui_event \<Rightarrow> coalescing_queue \<Rightarrow> coalescing_queue" where
  "queue_send ev (fixed, tail) =
     (case snapshot_class_of ev of
        Some c \<Rightarrow> (fixed, filter (\<lambda>e. snapshot_class_of e \<noteq> Some c) tail @ [ev])
      | None \<Rightarrow>
          if is_log ev \<and> UI_ORDERED_CAPACITY \<le> length fixed + length tail then (fixed, tail)
          else (fixed @ tail @ [ev], []))"

fun queue_recv :: "coalescing_queue \<Rightarrow> ui_event option \<times> coalescing_queue" where
  "queue_recv ([], []) = (None, ([], []))"
| "queue_recv ([], e # tail) = (Some e, ([], tail))"
| "queue_recv (e # fixed, tail) = (Some e, (fixed, tail))"

text \<open>Entries in the order of their sequence numbers, all below the next one.\<close>

definition ascending :: "64 word \<Rightarrow> sequenced list \<Rightarrow> bool" where
  "ascending n es \<longleftrightarrow> sorted_wrt (<) (map fst es) \<and> (\<forall>k \<in> fst ` set es. k < n)"

lemma ascending_snoc: "ascending n es \<Longrightarrow> n < n' \<Longrightarrow> ascending n' (es @ [(n, ev)])"
  unfolding ascending_def by (auto simp: sorted_wrt_append intro: less_trans)

lemma ascending_filter:
  assumes "ascending n (xs @ ys)"
  shows "ascending n (xs @ filter P ys)"
proof -
  let ?R = "\<lambda>x y :: sequenced. fst x < fst y"
  have s: "sorted_wrt ?R xs" "sorted_wrt ?R ys" "\<forall>x \<in> set xs. \<forall>y \<in> set ys. ?R x y"
    and n: "\<forall>k \<in> fst ` (set xs \<union> set ys). k < n"
    using assms by (simp_all add: ascending_def sorted_wrt_map sorted_wrt_append)
  have "\<forall>x \<in> set xs. \<forall>y \<in> set (filter P ys). ?R x y" using s(3) by (metis filter_is_subset subsetD)
  then have "sorted_wrt ?R (xs @ filter P ys)"
    using s(1) sorted_wrt_filter[OF s(2)] by (simp only: sorted_wrt_append simp_thms)
  moreover have "\<forall>k \<in> fst ` set (xs @ filter P ys). k < n" using n by (auto simp only: set_append set_filter image_iff)
  ultimately show ?thesis by (simp only: ascending_def sorted_wrt_map simp_thms)
qed

lemma ascending_mono: "ascending n es \<Longrightarrow> n \<le> n' \<Longrightarrow> ascending n' es"
  unfolding ascending_def by (auto intro: less_le_trans)

lemma ascending_Cons: "ascending n (e # es) \<longleftrightarrow> (\<forall>k \<in> fst ` set es. fst e < k) \<and> fst e < n \<and> ascending n es"
  unfolding ascending_def by auto

definition mailbox_rel :: "mailbox \<Rightarrow> coalescing_queue \<Rightarrow> bool" where
  "mailbox_rel m q \<longleftrightarrow>
     (\<exists>ps. pending_list (mb_snapshots m) ps \<and> q = (map snd (mb_ordered m), map snd ps)
        \<and> ascending (mb_next_sequence m) (mb_ordered m @ ps))"

lemma mailbox_relI:
  "pending_list (mb_snapshots m) ps \<Longrightarrow> q = (map snd (mb_ordered m), map snd ps)
   \<Longrightarrow> ascending (mb_next_sequence m) (mb_ordered m @ ps) \<Longrightarrow> mailbox_rel m q"
  unfolding mailbox_rel_def by blast

text \<open>Room for everything pending and one more event.\<close>

definition queue_has_room :: "coalescing_queue \<Rightarrow> bool" where
  "queue_has_room q \<longleftrightarrow> length (fst q) + length (snd q) < UI_ORDERED_CAPACITY"

lemma mailbox_rel_default: "mailbox_rel mailbox_default ([], [])"
  by (rule mailbox_relI[of _ "[]"]) (simp_all add: mailbox_default_def pending_list_def ascending_def)

lemma send_flush_room:
  assumes "pending_list (mb_snapshots m) ps" "length (mb_ordered m) + length ps < UI_ORDERED_CAPACITY"
  shows "\<exists>m'. send_flush receiver_open entry m = (Sent UO_Queued, m')
    \<and> mb_ordered m' = mb_ordered m @ ps @ [entry] \<and> pending_list (mb_snapshots m') []
    \<and> mb_next_sequence m' = mb_next_sequence m \<and> mb_stats m' = mb_stats m"
  using assms
proof (induction ps arbitrary: m)
  case Nil
  then have "snapshots_next_sequence (mb_snapshots m) = None" by (simp add: pending_list_next)
  with Nil show ?case
    by (simp add: send_flush.simps[of receiver_open entry m] send_push_def lane_full_def push_ordered_def)
next
  case (Cons e es)
  have n: "snapshots_next_sequence (mb_snapshots m) = Some (fst e)"
    using pending_list_next[OF Cons.prems(1)] by simp
  obtain s' where t: "snapshots_take (fst e) (mb_snapshots m) = (Some (snd e), s')" "pending_list s' es"
    by (rule pending_list_take[OF Cons.prems(1)])
  let ?m = "push_ordered (fst e, snd e) (m\<lparr>mb_snapshots := s'\<rparr>)"
  have "pending_list (mb_snapshots ?m) es" "length (mb_ordered ?m) + length es < UI_ORDERED_CAPACITY"
    using t(2) Cons.prems(2) by (simp_all add: push_ordered_def)
  from Cons.IH[OF this] obtain m' where "send_flush receiver_open entry ?m = (Sent UO_Queued, m')"
    "mb_ordered m' = mb_ordered ?m @ es @ [entry]" "pending_list (mb_snapshots m') []"
    "mb_next_sequence m' = mb_next_sequence ?m" "mb_stats m' = mb_stats ?m" by blast
  moreover have "send_flush receiver_open entry m = send_flush receiver_open entry ?m"
    using n t(1) Cons.prems(2) by (simp add: send_flush.simps[of receiver_open entry m] lane_full_def)
  ultimately show ?case by (auto simp: push_ordered_def)
qed

lemma ui_send_rel:
  assumes rel: "mailbox_rel m q" and room: "snapshot_class_of ev \<noteq> None \<or> is_log ev \<or> queue_has_room q"
    and seq: "mb_next_sequence m < - 1"
  shows "\<exists>out m'. ui_send True ev m = (Sent out, m') \<and> mailbox_rel m' (queue_send ev q)
    \<and> mb_next_sequence m' = mb_next_sequence m + 1
    \<and> out = (case snapshot_class_of ev of
        Some c \<Rightarrow> if (\<exists>e \<in> set (snd q). snapshot_class_of e = Some c) then UO_Coalesced else UO_Queued
      | None \<Rightarrow> if is_log ev \<and> \<not> queue_has_room q then UO_DroppedLogFull else UO_Queued)"
proof -
  obtain ps where ps: "pending_list (mb_snapshots m) ps" and q: "q = (map snd (mb_ordered m), map snd ps)"
    and asc: "ascending (mb_next_sequence m) (mb_ordered m @ ps)"
    using rel by (auto simp: mailbox_rel_def)
  have nxt: "mb_next_sequence m < mb_next_sequence m + 1"
    using unat_plus_one[OF seq] by (simp add: word_less_nat_alt)
  have len: "snapshots_len (mb_snapshots m) = length ps" by (rule pending_list_length[OF ps])
  let ?e = "(mb_next_sequence m, ev)"
  show ?thesis
  proof (cases "snapshot_class_of ev")
    case (Some c)
    let ?ps = "filter (\<lambda>x. snapshot_class_of (snd x) \<noteq> Some c) ps @ [?e]"
    have new: "pending_list ((mb_snapshots m)(c := Some ?e)) ?ps"
      by (rule pending_list_replace[OF ps]) (use Some asc in \<open>auto simp: ascending_def\<close>)
    have asc': "ascending (mb_next_sequence m + 1) (mb_ordered m @ ?ps)"
      using ascending_snoc[OF ascending_filter[OF asc] nxt] by simp
    have q': "queue_send ev q = (map snd (mb_ordered m), map snd ?ps)"
      using Some q by (simp add: filter_map o_def)
    have slot: "mb_snapshots m c \<noteq> None \<longleftrightarrow> (\<exists>e \<in> set (snd q). snapshot_class_of e = Some c)"
      using pending_list_slot[OF ps, of c] q by simp
    let ?m = "m\<lparr>mb_next_sequence := mb_next_sequence m + 1,
      mb_snapshots := (mb_snapshots m)(c := Some ?e)\<rparr>"
    have rel1: "mailbox_rel (?m\<lparr>mb_stats := st\<rparr>) (queue_send ev q)" for st
      by (rule mailbox_relI[of _ ?ps]) (use new asc' q' in simp_all)
    have rel2: "mailbox_rel ?m (queue_send ev q)"
      by (rule mailbox_relI[of _ ?ps]) (use new asc' q' in simp_all)
    note rel' = rel1 rel2
    show ?thesis
    proof (cases "mb_snapshots m c = None")
      case True
      then have "ui_send True ev m = (Sent UO_Queued, ?m)"
        using Some by (simp add: ui_send_def Let_def)
      with True Some slot rel' show ?thesis by auto
    next
      case False
      then have "\<exists>st. ui_send True ev m = (Sent UO_Coalesced, ?m\<lparr>mb_stats := st\<rparr>)"
        using Some by (auto simp: ui_send_def Let_def)
      with False Some slot rel' show ?thesis by auto
    qed
  next
    case None
    show ?thesis
    proof (cases "is_log ev \<and> \<not> queue_has_room q")
      case True
      have "ascending (mb_next_sequence m + 1) (mb_ordered m @ ps)"
        using asc nxt by (auto intro: ascending_mono)
      with True None q len ps show ?thesis
        by (auto simp: ui_send_def queue_has_room_def Let_def intro!: mailbox_relI[of _ ps])
    next
      case False
      then have r: "length (mb_ordered m) + length ps < UI_ORDERED_CAPACITY"
        using None room q by (auto simp: queue_has_room_def)
      let ?m = "m\<lparr>mb_next_sequence := mb_next_sequence m + 1\<rparr>"
      obtain m' where m': "send_flush True ?e ?m = (Sent UO_Queued, m')"
        "mb_ordered m' = mb_ordered m @ ps @ [?e]" "pending_list (mb_snapshots m') []"
        "mb_next_sequence m' = mb_next_sequence m + 1"
        using send_flush_room[of ?m ps] ps r by fastforce
      have "mailbox_rel m' (queue_send ev q)"
        by (rule mailbox_relI[OF m'(3)])
          (use None False q r m' ascending_snoc[OF asc nxt] in \<open>auto simp: queue_has_room_def\<close>)
      moreover have "ui_send True ev m = (Sent UO_Queued, m')"
        using None r len m'(1) by (simp add: ui_send_def Let_def)
      ultimately show ?thesis using None False m'(4) by auto
    qed
  qed
qed

lemma ui_try_recv_rel:
  assumes rel: "mailbox_rel m q"
  shows "\<exists>m'. ui_try_recv m = (fst (queue_recv q), m') \<and> mailbox_rel m' (snd (queue_recv q))
    \<and> mb_next_sequence m' = mb_next_sequence m"
proof -
  obtain ps where ps: "pending_list (mb_snapshots m) ps" and q: "q = (map snd (mb_ordered m), map snd ps)"
    and asc: "ascending (mb_next_sequence m) (mb_ordered m @ ps)"
    using rel by (auto simp: mailbox_rel_def)
  note n = pending_list_next[OF ps]
  show ?thesis
  proof (cases "mb_ordered m")
    case (Cons e es)
    have "ui_try_recv m = (Some (snd e), m\<lparr>mb_ordered := es\<rparr>)"
      using n asc Cons by (cases ps) (auto simp: ui_try_recv_def Let_def ascending_Cons not_less)
    moreover have "mailbox_rel (m\<lparr>mb_ordered := es\<rparr>) (map snd es, map snd ps)"
      by (rule mailbox_relI[of _ ps]) (use ps asc Cons in \<open>simp_all add: ascending_Cons\<close>)
    ultimately show ?thesis using Cons q by simp
  next
    case Nil
    show ?thesis
    proof (cases ps)
      case (Cons e es)
      obtain s' where t: "snapshots_take (fst e) (mb_snapshots m) = (Some (snd e), s')" "pending_list s' es"
        using pending_list_take ps Cons by blast
      then have "ui_try_recv m = (Some (snd e), m\<lparr>mb_snapshots := s'\<rparr>)"
        using n Nil Cons by (simp add: ui_try_recv_def Let_def)
      moreover have "mailbox_rel (m\<lparr>mb_snapshots := s'\<rparr>) ([], map snd es)"
        by (rule mailbox_relI[of _ es]) (use t asc Cons Nil in \<open>simp_all add: ascending_Cons\<close>)
      ultimately show ?thesis using Cons Nil q by simp
    next
      case Nil
      with \<open>mb_ordered m = []\<close> n q rel show ?thesis by (simp add: ui_try_recv_def Let_def)
    qed
  qed
qed

text \<open>Runs of sends and receives against the specification.\<close>

datatype ui_op = Op_Send ui_event | Op_Recv

fun mailbox_run :: "ui_op list \<Rightarrow> mailbox \<Rightarrow> ui_event list" where
  "mailbox_run [] m = []"
| "mailbox_run (Op_Send ev # ops) m = mailbox_run ops (snd (ui_send True ev m))"
| "mailbox_run (Op_Recv # ops) m =
     (case ui_try_recv m of (r, m') \<Rightarrow> (case r of None \<Rightarrow> [] | Some ev \<Rightarrow> [ev]) @ mailbox_run ops m')"

fun queue_run :: "ui_op list \<Rightarrow> coalescing_queue \<Rightarrow> ui_event list" where
  "queue_run [] q = []"
| "queue_run (Op_Send ev # ops) q = queue_run ops (queue_send ev q)"
| "queue_run (Op_Recv # ops) q =
     (case queue_recv q of (r, q') \<Rightarrow> (case r of None \<Rightarrow> [] | Some ev \<Rightarrow> [ev]) @ queue_run ops q')"

text \<open>No send has to wait: an ordered event that is not a log finds room.\<close>

fun queue_fits :: "ui_op list \<Rightarrow> coalescing_queue \<Rightarrow> bool" where
  "queue_fits [] q = True"
| "queue_fits (Op_Send ev # ops) q \<longleftrightarrow>
     (snapshot_class_of ev \<noteq> None \<or> is_log ev \<or> queue_has_room q) \<and> queue_fits ops (queue_send ev q)"
| "queue_fits (Op_Recv # ops) q \<longleftrightarrow> queue_fits ops (snd (queue_recv q))"

lemma mailbox_run_rel:
  assumes "mailbox_rel m q" "queue_fits ops q" "unat (mb_next_sequence m) + length ops < 2 ^ 64 - 1"
  shows "mailbox_run ops m = queue_run ops q"
  using assms
proof (induction ops arbitrary: m q)
  case (Cons op ops)
  show ?case
  proof (cases op)
    case (Op_Send ev)
    have seq: "mb_next_sequence m < - 1"
      using Cons.prems(3) by (simp add: word_less_nat_alt unsigned_minus_1_eq_mask mask_eq_exp_minus_1)
    from ui_send_rel[OF Cons.prems(1) _ seq, of ev] Cons.prems(2) Op_Send
    obtain out m' where "ui_send True ev m = (Sent out, m')" "mailbox_rel m' (queue_send ev q)"
      "mb_next_sequence m' = mb_next_sequence m + 1" by auto
    with Cons Op_Send show ?thesis by (simp add: unat_plus_one[OF seq])
  next
    case Op_Recv
    from ui_try_recv_rel[OF Cons.prems(1)] obtain m' where
      "ui_try_recv m = (fst (queue_recv q), m')" "mailbox_rel m' (snd (queue_recv q))"
      "mb_next_sequence m' = mb_next_sequence m" by blast
    with Cons Op_Recv show ?thesis by (simp add: split_def)
  qed
qed simp

subsection \<open>Properties\<close>

text \<open>
  C11: while no send has to wait, the mailbox delivers exactly what a queue
  delivers in which a snapshot replaces an older pending one of its class behind
  the last ordered event, and logs are dropped beyond 256 pending events: every
  other event arrives once and in order.
\<close>

theorem ui_mailbox_refines_queue:
  assumes "queue_fits ops ([], [])" "length ops < 2 ^ 64 - 1"
  shows "mailbox_run ops mailbox_default = queue_run ops ([], [])"
  by (rule mailbox_run_rel[OF mailbox_rel_default assms(1)])
    (use assms(2) in \<open>simp add: mailbox_default_def\<close>)

text \<open>The lane stays within its bound in every step of every send.\<close>

lemma send_push_bound:
  "length (mb_ordered m) \<le> 256 \<Longrightarrow> length (mb_ordered (snd (send_push receiver_open e m))) \<le> 256"
  by (auto simp: send_push_def push_ordered_def lane_full_def UI_ORDERED_CAPACITY_def)

lemma send_flush_bound:
  "length (mb_ordered m) \<le> 256 \<Longrightarrow> length (mb_ordered (snd (send_flush receiver_open e m))) \<le> 256"
proof (induction receiver_open e m rule: send_flush.induct)
  case (1 receiver_open entry m)
  show ?case
    using 1 send_push_bound[of m receiver_open entry]
    by (subst send_flush.simps)
      (auto simp: push_ordered_def lane_full_def UI_ORDERED_CAPACITY_def split: option.splits prod.splits)
qed

lemma ui_send_bound:
  "length (mb_ordered m) \<le> 256 \<Longrightarrow> length (mb_ordered (snd (ui_send receiver_open ev m))) \<le> 256"
  by (auto simp: ui_send_def Let_def send_flush_bound split: option.splits)

lemma ui_resume_bound:
  "length (mb_ordered m) \<le> 256 \<Longrightarrow> length (mb_ordered (snd (ui_resume receiver_open st m))) \<le> 256"
  by (cases st)
    (auto simp: send_push_bound lane_full_def UI_ORDERED_CAPACITY_def push_ordered_def
      intro!: send_flush_bound split: option.splits prod.splits)

subsection \<open>Concrete runs\<close>

definition sample_notice :: ui_event where
  "sample_notice = UE_Message ClearNotifications"

definition sample_hide :: ui_event where
  "sample_hide = UE_Message SelectorHide"

lemma ui_mailbox_refines_queue_witness:
  "mailbox_run [Op_Send sample_hide, Op_Send sample_hide, Op_Send sample_notice, Op_Send sample_hide,
      Op_Recv, Op_Recv, Op_Recv, Op_Recv] mailbox_default
   = [sample_hide, sample_notice, sample_hide]"
  by (subst ui_mailbox_refines_queue)
    (simp_all add: sample_notice_def sample_hide_def queue_has_room_def UI_ORDERED_CAPACITY_def)

text \<open>
  The lane is full and a snapshot is pending when an ordered event is sent: the
  send waits to flush the snapshot.  The UI drains everything that is pending, as
  it does in every frame.  The send then wakes up and does not find its snapshot.
\<close>

definition lane_of :: "nat \<Rightarrow> mailbox" where
  "lane_of n = mailbox_default\<lparr>mb_ordered := map (\<lambda>i. (of_nat i, sample_notice)) [0..<n], mb_next_sequence := of_nat n\<rparr>"

lemma pending_none: "pending_list (\<lambda>_. None) []"
  by (simp add: pending_list_def)

lemma lane_of_send: "n < 256 \<Longrightarrow> ui_send True sample_notice (lane_of n) = (Sent UO_Queued, lane_of (Suc n))"
  using pending_list_next[OF pending_none]
  by (simp add: ui_send_def sample_notice_def lane_of_def mailbox_default_def send_flush.simps send_push_def
      lane_full_def push_ordered_def UI_ORDERED_CAPACITY_def add.commute)

definition send_notices :: "nat \<Rightarrow> mailbox \<Rightarrow> mailbox" where
  "send_notices n m = ((\<lambda>m. snd (ui_send True sample_notice m)) ^^ n) m"

lemma send_notices_lane: "n \<le> 256 \<Longrightarrow> send_notices n mailbox_default = lane_of n"
proof (induction n)
  case 0
  then show ?case by (simp add: send_notices_def lane_of_def mailbox_default_def)
next
  case (Suc n)
  then show ?case using lane_of_send[of n] by (simp add: send_notices_def)
qed

definition recv_all :: "nat \<Rightarrow> mailbox \<Rightarrow> mailbox" where
  "recv_all n m = ((\<lambda>m. snd (ui_try_recv m)) ^^ n) m"

text \<open>The full lane with a pending snapshot, and a send that waits to flush it.\<close>

definition hidden_lane :: "64 word \<Rightarrow> mailbox" where
  "hidden_lane n = mailbox_default\<lparr>mb_snapshots := (\<lambda>_. None)(SC_Selector := Some (256, sample_hide)), mb_next_sequence := n\<rparr>"

lemma hidden_pending: "pending_list ((\<lambda>_. None)(SC_Selector := Some (256, sample_hide))) [(256, sample_hide)]"
  by (auto simp: pending_list_def sample_hide_def)

lemma hidden_recv:
  assumes "mb_ordered m = (k, e) # es" "mb_snapshots m = (\<lambda>_. None)(SC_Selector := Some (256, sample_hide))" "k < 256"
  shows "ui_try_recv m = (Some e, m\<lparr>mb_ordered := es\<rparr>)"
  using assms pending_list_next[OF hidden_pending] by (simp add: ui_try_recv_def Let_def order_less_not_sym)

lemma hidden_recv_all:
  assumes "mb_snapshots m = (\<lambda>_. None)(SC_Selector := Some (256, sample_hide))" "\<forall>e \<in> set (mb_ordered m). fst e < 256"
  shows "recv_all (length (mb_ordered m)) m = m\<lparr>mb_ordered := []\<rparr>"
  using assms
proof (induction "mb_ordered m" arbitrary: m)
  case Nil
  then show ?case by (simp add: recv_all_def)
next
  case (Cons e es)
  have "ui_try_recv m = (Some (snd e), m\<lparr>mb_ordered := es\<rparr>)"
    by (rule hidden_recv[of _ "fst e"]) (use Cons.hyps(2) Cons.prems in \<open>auto simp: Cons.hyps(2)[symmetric]\<close>)
  then have "recv_all (length (mb_ordered m)) m = recv_all (length es) (m\<lparr>mb_ordered := es\<rparr>)"
    by (simp add: recv_all_def Cons.hyps(2)[symmetric] funpow_Suc_right del: funpow.simps(2))
  also have "\<dots> = m\<lparr>mb_ordered := []\<rparr>"
    using Cons.hyps(1)[of "m\<lparr>mb_ordered := es\<rparr>"] Cons.prems by (simp add: Cons.hyps(2)[symmetric])
  finally show ?case .
qed

lemma delivery_send_panics:
  "\<exists>m1 m2 w. ui_send True sample_hide (send_notices 256 mailbox_default) = (Sent UO_Queued, m1)
     \<and> ui_send True sample_notice m1 = (w, m2) \<and> w = Wait_Flush 256 (257, sample_notice)
     \<and> fst (ui_resume True w (recv_all 257 m2)) = Panicked"
proof -
  let ?s = "(\<lambda>_. None)(SC_Selector := Some (256, sample_hide))"
  let ?m1 = "(lane_of 256)\<lparr>mb_snapshots := ?s, mb_next_sequence := 257\<rparr>"
  let ?m2 = "?m1\<lparr>mb_next_sequence := 258\<rparr>"
  have s1: "ui_send True sample_hide (lane_of 256) = (Sent UO_Queued, ?m1)"
    by (simp add: ui_send_def lane_of_def mailbox_default_def sample_hide_def Let_def)
  have nx: "snapshots_next_sequence ?s = Some 256" using pending_list_next[OF hidden_pending] by simp
  have s2: "ui_send True sample_notice ?m1 = (Wait_Flush 256 (257, sample_notice), ?m2)"
    using nx by (simp add: ui_send_def lane_of_def mailbox_default_def sample_notice_def send_flush.simps
        lane_full_def UI_ORDERED_CAPACITY_def Let_def)
  have len: "length (mb_ordered ?m2) = 256" by (simp add: lane_of_def)
  have below: "\<forall>e \<in> set (mb_ordered ?m2). fst e < 256"
    by (auto simp: lane_of_def word_less_nat_alt unsigned_of_nat take_bit_nat_eq_self)
  have r: "recv_all 256 ?m2 = ?m2\<lparr>mb_ordered := []\<rparr>"
    using hidden_recv_all[of ?m2] below len by simp
  obtain s' where t: "snapshots_take 256 ?s = (Some sample_hide, s')" "pending_list s' []"
    using pending_list_take[OF hidden_pending] by auto
  have "ui_try_recv (?m2\<lparr>mb_ordered := []\<rparr>) = (Some sample_hide, ?m2\<lparr>mb_ordered := [], mb_snapshots := s'\<rparr>)"
    using nx t(1) by (simp add: ui_try_recv_def)
  then have r1: "recv_all 257 ?m2 = ?m2\<lparr>mb_ordered := [], mb_snapshots := s'\<rparr>"
    using r by (simp add: recv_all_def numeral_eq_Suc)
  have "ran s' = {}" using t(2) by (simp add: pending_list_def)
  then have "s' = (\<lambda>_. None)" by (metis (no_types) empty_iff not_None_eq ranI ext)
  then have none: "snapshots_take 256 s' = (None, s')"
    by (simp add: snapshots_take_def snapshot_classes_def)
  have "fst (ui_resume True (Wait_Flush 256 (257, sample_notice)) (recv_all 257 ?m2)) = Panicked"
    using none unfolding r1 by (simp add: lane_full_def UI_ORDERED_CAPACITY_def)
  then show ?thesis using s1 s2 send_notices_lane[of 256] by auto
qed

end
