(* ===== verification/Connection_Driver.thy ===== *)
theory Connection_Driver
  imports Ui_Delivery Rpc_Protocol
begin

text \<open>
  The app's connection driver (\<open>hotki-app/src/connection_driver\<close>): it owns the
  lifecycle of the server connection, routes the control messages of the tray and
  the UI, and publishes health.  The driver's world answers through
  \<open>driver_env\<close>: the reply to the \<open>n\<close>-th server call and the permissions seen by the
  \<open>n\<close>-th check are arbitrary.  The asynchronous loops are a state machine over the
  inputs that their \<open>select!\<close> branches receive.
\<close>

subsection \<open>Control messages\<close>

record permission_observation =
  po_status :: capabilities
  po_overridden :: bool

definition observation_system :: "capabilities \<Rightarrow> permission_observation" where
  "observation_system status = \<lparr>po_status = status, po_overridden = False\<rparr>"

definition observation_devtools :: "capabilities \<Rightarrow> permission_observation" where
  "observation_devtools status = \<lparr>po_status = status, po_overridden = True\<rparr>"

datatype control_msg =
    CM_Reload
  | CM_Shutdown
  | CM_InjectKey string bool
  | CM_OpenPermissionsHelp
  | CM_Notice notify_kind string string
  | CM_PermissionsChanged permission_observation

datatype control_outcome = CO_Continue | CO_RetryConnect | CO_PauseConnect | CO_Stop

datatype local_control =
    LC_OpenPermissionsHelp
  | LC_Notice notify_kind string string
  | LC_PermissionsChanged permission_observation

datatype server_control = SC_Reload | SC_InjectKey string bool

datatype control_route = Route_Local local_control | Route_Server server_control | Route_Shutdown

fun control_route_from_msg :: "control_msg \<Rightarrow> control_route" where
  "control_route_from_msg CM_Shutdown = Route_Shutdown"
| "control_route_from_msg CM_Reload = Route_Server SC_Reload"
| "control_route_from_msg (CM_InjectKey ident report) = Route_Server (SC_InjectKey ident report)"
| "control_route_from_msg CM_OpenPermissionsHelp = Route_Local LC_OpenPermissionsHelp"
| "control_route_from_msg (CM_Notice k t b) = Route_Local (LC_Notice k t b)"
| "control_route_from_msg (CM_PermissionsChanged p) = Route_Local (LC_PermissionsChanged p)"

subsection \<open>The driver and its environment\<close>

text \<open>Calls over the connection, and the lines kept in the client's log.\<close>

datatype server_call =
    Call_SetConfigPath string
  | Call_GetBindings
  | Call_InjectDown string
  | Call_InjectRepeat string
  | Call_InjectUp string
  | Call_Shutdown
  | Call_WorldSnapshot

record driver_env =
  de_permissions :: "nat \<Rightarrow> capabilities"
  de_reply :: "nat \<Rightarrow> server_call \<Rightarrow> string option"
  de_bindings :: "nat \<Rightarrow> string list"

datatype log_line =
    Client_Notification notify_kind string string
  | Server_Log string string string

record conn_driver =
  cd_config_path :: string
  cd_ui :: "ui_event list"
  cd_event_tap_enabled :: bool
  cd_dumpworld :: bool
  cd_health :: runtime_health
  cd_permission_override :: "capabilities option"
  cd_pending :: "server_control list"
  cd_secure_warned :: bool
  cd_calls :: "server_call list"
  cd_checks :: nat
  cd_log :: "log_line list"

definition emit :: "ui_event \<Rightarrow> conn_driver \<Rightarrow> conn_driver" where
  "emit ev d = d\<lparr>cd_ui := cd_ui d @ [ev]\<rparr>"

definition sink_message :: "msg_to_ui \<Rightarrow> conn_driver \<Rightarrow> conn_driver" where
  "sink_message m = emit (UE_Message m)"

definition sink_command :: "ui_command \<Rightarrow> conn_driver \<Rightarrow> conn_driver" where
  "sink_command c = emit (UE_Command c)"

definition publish_health :: "conn_driver \<Rightarrow> conn_driver" where
  "publish_health d = sink_command (SetRuntimeHealth (cd_health d)) d"

definition set_health :: "(runtime_health \<Rightarrow> runtime_health) \<Rightarrow> conn_driver \<Rightarrow> conn_driver" where
  "set_health f d = d\<lparr>cd_health := f (cd_health d)\<rparr>"

definition check_permissions :: "driver_env \<Rightarrow> conn_driver \<Rightarrow> capabilities \<times> conn_driver" where
  "check_permissions env d = (de_permissions env (cd_checks d), d\<lparr>cd_checks := cd_checks d + 1\<rparr>)"

definition call_server :: "driver_env \<Rightarrow> server_call \<Rightarrow> conn_driver \<Rightarrow> string option \<times> conn_driver" where
  "call_server env c d = (de_reply env (length (cd_calls d)) c, d\<lparr>cd_calls := cd_calls d @ [c]\<rparr>)"

definition driver_new :: "string \<Rightarrow> bool \<Rightarrow> bool \<Rightarrow> capabilities \<Rightarrow> conn_driver" where
  "driver_new config_path tap_enabled dumpworld permissions =
     (let health = (health_connecting config_path)\<lparr>rh_permissions := permissions\<rparr>
      in publish_health
        \<lparr>cd_config_path = config_path, cd_ui = [], cd_event_tap_enabled = tap_enabled,
         cd_dumpworld = dumpworld, cd_health = health, cd_permission_override = None,
         cd_pending = [], cd_secure_warned = False, cd_calls = [], cd_checks = 0, cd_log = []\<rparr>)"

subsection \<open>Health transitions and notices\<close>

definition mark_disconnected :: "string \<Rightarrow> conn_driver \<Rightarrow> conn_driver" where
  "mark_disconnected message d =
     publish_health (sink_command (SetServerBindings []) (set_health (health_disconnect message) d))"

definition mark_connecting :: "conn_driver \<Rightarrow> conn_driver" where
  "mark_connecting d = publish_health (set_health (health_start_connecting (cd_config_path d)) d)"

definition mark_waiting_for_permissions :: "conn_driver \<Rightarrow> conn_driver" where
  "mark_waiting_for_permissions d = publish_health (set_health health_block_on_permissions d)"

definition mark_ready :: "conn_driver \<Rightarrow> conn_driver" where
  "mark_ready d = publish_health (set_health (health_run_config (cd_config_path d)) d)"

definition mark_invalid_config :: "string \<Rightarrow> conn_driver \<Rightarrow> conn_driver" where
  "mark_invalid_config message d =
     publish_health (set_health (health_reject_config (cd_config_path d) message) d)"

definition begin_shutdown :: "conn_driver \<Rightarrow> conn_driver" where
  "begin_shutdown d = publish_health (set_health health_begin_shutdown d)"

definition finish_shutdown :: "conn_driver \<Rightarrow> conn_driver" where
  "finish_shutdown d = sink_command UiShutdown d"

definition notify_remote :: "notify_kind \<Rightarrow> string \<Rightarrow> string \<Rightarrow> conn_driver \<Rightarrow> conn_driver" where
  "notify_remote kind title body = sink_message (Notify kind title body)"

definition notify_local :: "notify_kind \<Rightarrow> string \<Rightarrow> string \<Rightarrow> conn_driver \<Rightarrow> conn_driver" where
  "notify_local kind title body d =
     sink_message (Notify kind title body) (d\<lparr>cd_log := cd_log d @ [Client_Notification kind title body]\<rparr>)"

definition observed_permissions_granted :: "capabilities \<Rightarrow> bool" where
  "observed_permissions_granted p \<longleftrightarrow>
     is_granted (cap_accessibility p) \<and> is_granted (cap_input_monitoring p)"

definition required_permissions_granted :: "conn_driver \<Rightarrow> capabilities \<Rightarrow> bool" where
  "required_permissions_granted d p \<longleftrightarrow> \<not> cd_event_tap_enabled d \<or> observed_permissions_granted p"

definition note_permissions :: "capabilities \<Rightarrow> conn_driver \<Rightarrow> conn_driver" where
  "note_permissions perms d =
     (if rh_permissions (cd_health d) \<noteq> perms
      then publish_health (set_health (\<lambda>h. h\<lparr>rh_permissions := perms\<rparr>) d) else d)"

definition event_tap_permissions_missing :: "driver_env \<Rightarrow> conn_driver \<Rightarrow> bool \<times> conn_driver" where
  "event_tap_permissions_missing env d =
     (let (perms, d) = (case cd_permission_override d of Some p \<Rightarrow> (p, d) | None \<Rightarrow> check_permissions env d);
          d = note_permissions perms d
      in if required_permissions_granted d perms then (False, d)
         else (True,
           notify_local NK_Error ''Permissions''
             ''Grant Accessibility and Input Monitoring to Hotki. It will retry automatically.''
             (sink_command ShowPermissionsHelp (mark_waiting_for_permissions d))))"

subsection \<open>Server-bound controls\<close>

definition refresh_server_bindings :: "driver_env \<Rightarrow> conn_driver \<Rightarrow> conn_driver" where
  "refresh_server_bindings env d =
     (let n = length (cd_calls d); (r, d) = call_server env Call_GetBindings d
      in case r of None \<Rightarrow> sink_command (SetServerBindings (de_bindings env n)) d | Some _ \<Rightarrow> d)"

definition activate_config :: "driver_env \<Rightarrow> conn_driver \<Rightarrow> string option \<times> conn_driver" where
  "activate_config env d =
     (let (r, d) = call_server env (Call_SetConfigPath (cd_config_path d)) d
      in case r of None \<Rightarrow> (None, mark_ready d) | Some message \<Rightarrow> (Some message, mark_invalid_config message d))"

definition reload_config :: "driver_env \<Rightarrow> conn_driver \<Rightarrow> conn_driver" where
  "reload_config env d =
     (let d = publish_health (set_health (health_start_config_reload (cd_config_path d)) d);
          (r, d) = activate_config env d
      in case r of
           None \<Rightarrow> refresh_server_bindings env
             (notify_local NK_Success ''Config reloaded'' ''The new configuration is active.'' d)
         | Some message \<Rightarrow> notify_local NK_Error ''Config'' message d)"

definition inject_key ::
    "driver_env \<Rightarrow> string \<Rightarrow> inject_kind \<Rightarrow> bool \<Rightarrow> bool \<Rightarrow> conn_driver \<Rightarrow> bool \<times> conn_driver" where
  "inject_key env ident kind repeat report_errors d =
     (let (r, d) = call_server env
            (case kind of
               IK_Down \<Rightarrow> if repeat then Call_InjectRepeat ident else Call_InjectDown ident
             | IK_Up \<Rightarrow> Call_InjectUp ident) d
      in case r of
           None \<Rightarrow> (True, d)
         | Some err \<Rightarrow>
             (False, if report_errors
                then notify_local NK_Error ''Devtools'' (''Failed to inject '' @ ident @ '': '' @ err) d
                else d))"

fun handle_server_control :: "driver_env \<Rightarrow> server_control \<Rightarrow> conn_driver \<Rightarrow> conn_driver" where
  "handle_server_control env SC_Reload d =
     (let (missing, d) = event_tap_permissions_missing env d
      in if missing then d else reload_config env d)"
| "handle_server_control env (SC_InjectKey ident report) d =
     (let (ok, d) = inject_key env ident IK_Down False report d
      in if ok then snd (inject_key env ident IK_Up False False d) else d)"

definition drain_pending_controls :: "driver_env \<Rightarrow> conn_driver \<Rightarrow> conn_driver" where
  "drain_pending_controls env d =
     fold (handle_server_control env) (cd_pending d) (d\<lparr>cd_pending := []\<rparr>)"

subsection \<open>Local controls and routing\<close>

definition permissions_changed :: "permission_observation \<Rightarrow> conn_driver \<Rightarrow> control_outcome \<times> conn_driver" where
  "permissions_changed obs d =
     (let status = po_status obs;
          d = d\<lparr>cd_permission_override := (if po_overridden obs then Some status else None)\<rparr>;
          d = set_health (\<lambda>h. h\<lparr>rh_permissions := status\<rparr>) d;
          connected = server_connected (cd_health d);
          phase = rh_phase (cd_health d)
      in if \<not> observed_permissions_granted status then
           (let d = (if connected \<and> phase = RP_InvalidConfig then publish_health d
                     else mark_waiting_for_permissions d)
            in (if cd_event_tap_enabled d \<and> \<not> server_connected (cd_health d)
                then CO_PauseConnect else CO_Continue, d))
         else if connected \<and> phase = RP_WaitingPermissions then (CO_Continue, mark_ready d)
         else if phase = RP_Disconnected \<or> phase = RP_Connecting \<or> phase = RP_WaitingPermissions then
           (CO_RetryConnect, publish_health (set_health (health_queue_reconnect (cd_config_path d)) d))
         else (CO_Continue, publish_health d))"

fun handle_local_control :: "local_control \<Rightarrow> conn_driver \<Rightarrow> control_outcome \<times> conn_driver" where
  "handle_local_control LC_OpenPermissionsHelp d = (CO_Continue, sink_command ShowPermissionsHelp d)"
| "handle_local_control (LC_Notice kind title body) d = (CO_Continue, notify_local kind title body d)"
| "handle_local_control (LC_PermissionsChanged obs) d = permissions_changed obs d"

definition route_control_msg ::
    "driver_env \<Rightarrow> bool \<Rightarrow> control_msg \<Rightarrow> conn_driver \<Rightarrow> control_outcome \<times> conn_driver" where
  "route_control_msg env conn msg d =
     (case control_route_from_msg msg of
        Route_Local c \<Rightarrow> handle_local_control c d
      | Route_Server c \<Rightarrow>
          if conn then (CO_Continue, handle_server_control env c d)
          else (CO_RetryConnect,
            publish_health (set_health (health_queue_reconnect (cd_config_path d))
              (d\<lparr>cd_pending := cd_pending d @ [c]\<rparr>)))
      | Route_Shutdown \<Rightarrow>
          (CO_Stop,
           let d = begin_shutdown d in if conn then snd (call_server env Call_Shutdown d) else d))"

subsection \<open>Messages from the server\<close>

definition handle_input_health :: "input_health \<Rightarrow> conn_driver \<Rightarrow> conn_driver" where
  "handle_input_health input d =
     (let projection = input_projection_of input;
          d = sink_command (SetInputHealth input) d;
          d = (if rh_input (cd_health d) \<noteq> projection
               then publish_health (set_health (\<lambda>h. h\<lparr>rh_input := projection\<rparr>) d) else d)
      in if ih_secure_input input = HSI_Inactive then
           (if cd_secure_warned d
            then (notify_local NK_Success ''Secure Input ended'' ''Physical hotkeys have resumed.'' d)
                   \<lparr>cd_secure_warned := False\<rparr>
            else d)
         else if ih_blocked input \<and> \<not> cd_secure_warned d then
           (notify_local NK_Warn ''Hotkeys paused by Secure Input''
              ''Physical hotkeys resume automatically when Secure Input ends.'' d)\<lparr>cd_secure_warned := True\<rparr>
         else d)"

fun handle_server_msg :: "msg_to_ui \<Rightarrow> conn_driver \<Rightarrow> conn_driver" where
  "handle_server_msg (HudUpdate hud displays) d = sink_message (HudUpdate hud displays) d"
| "handle_server_msg (Notify kind title body) d = notify_remote kind title body d"
| "handle_server_msg ClearNotifications d = sink_message ClearNotifications d"
| "handle_server_msg (SelectorUpdate snapshot) d = sink_message (SelectorUpdate snapshot) d"
| "handle_server_msg SelectorHide d = sink_message SelectorHide d"
| "handle_server_msg (ShowMainWindow arg) d = sink_message (ShowMainWindow arg) d"
| "handle_server_msg (HudKeyState ch pressed) d = sink_message (HudKeyState ch pressed) d"
| "handle_server_msg (Log level target message) d = d\<lparr>cd_log := cd_log d @ [Server_Log level target message]\<rparr>"
| "handle_server_msg (Heartbeat hb) d = handle_input_health (hb_input hb) d"
| "handle_server_msg (WorldMsg m) d = d"

subsection \<open>The lifecycle\<close>

text \<open>
  Where \<open>run\<close> stands when it awaits: a connect task
  (\<open>wait_for_connected_client\<close>), a retry signal (\<open>wait_for_retry_signal\<close>), the
  next event of a connection (\<open>drive_event_once\<close>), or finished.  The inputs are what
  the \<open>select!\<close> branches deliver; \<open>In_ControlClosed\<close> is the end of the control
  channel, which only the retry loop observes.  A connect that succeeds carries
  whether the client really holds a connection (\<open>Client::connection\<close>).
\<close>

datatype driver_at = At_Connecting | At_Retry | At_Driving | At_Finished

datatype driver_input =
    In_Control control_msg
  | In_ControlClosed
  | In_ConnectOk bool
  | In_ConnectErr string
  | In_ConnectCanceled
  | In_Event msg_to_ui
  | In_EventErr
  | In_HeartbeatTimeout
  | In_DumpTimer

type_synonym driver_config = "driver_at \<times> conn_driver"

text \<open>The exit of the loop of \<open>run\<close>, and its top up to the next await.\<close>

definition run_exit :: "conn_driver \<Rightarrow> driver_config" where
  "run_exit d = (At_Finished, if is_shutting_down (cd_health d) then finish_shutdown d else d)"

definition connect_failed :: "conn_driver \<Rightarrow> driver_config" where
  "connect_failed d = (if is_shutting_down (cd_health d) then run_exit d else (At_Retry, d))"

definition run_top :: "driver_env \<Rightarrow> conn_driver \<Rightarrow> driver_config" where
  "run_top env d =
     (if is_shutting_down (cd_health d) then run_exit d
      else let (missing, d) = event_tap_permissions_missing env d
           in if missing then connect_failed d else (At_Connecting, mark_connecting d))"

definition NOT_CONNECTED :: string where
  "NOT_CONNECTED = ''Failed to open server connection: IPC error: Not connected to server''"

text \<open>The rest of \<open>connect\<close> once there is a client, up to the event loop.\<close>

definition connect_finish :: "driver_env \<Rightarrow> bool \<Rightarrow> conn_driver \<Rightarrow> driver_config" where
  "connect_finish env has_connection d =
     (let (missing, d) = event_tap_permissions_missing env d
      in if missing then connect_failed d
         else if \<not> has_connection then connect_failed (mark_disconnected NOT_CONNECTED d)
         else let (r, d) = activate_config env d;
                  d = (case r of
                         Some message \<Rightarrow> notify_local NK_Error ''Config'' message d
                       | None \<Rightarrow> refresh_server_bindings env d)
              in (At_Driving, drain_pending_controls env d))"

definition handle_connect_err :: "string \<Rightarrow> conn_driver \<Rightarrow> conn_driver" where
  "handle_connect_err err d =
     mark_disconnected (''Failed to start hotkey server: '' @ err)
       (notify_local NK_Error ''Connection'' (''Failed to start hotkey server: '' @ err) d)"

definition handle_connect_canceled :: "conn_driver \<Rightarrow> conn_driver" where
  "handle_connect_canceled d =
     (if is_shutting_down (cd_health d) then d
      else mark_disconnected ''Server connection attempt was canceled'' d)"

definition connecting_control :: "driver_env \<Rightarrow> control_msg \<Rightarrow> conn_driver \<Rightarrow> driver_config" where
  "connecting_control env msg d =
     (let (outcome, d) = route_control_msg env False msg d
      in if outcome = CO_Stop \<or> outcome = CO_PauseConnect then connect_failed d else (At_Connecting, d))"

definition retry_control :: "driver_env \<Rightarrow> control_msg \<Rightarrow> conn_driver \<Rightarrow> driver_config" where
  "retry_control env msg d =
     (let (outcome, d) = route_control_msg env False msg d
      in if outcome = CO_Stop then run_exit d
         else if outcome = CO_RetryConnect then run_top env d
         else (At_Retry, d))"

text \<open>The event loop ended: \<open>drive_events\<close> returns and \<open>run\<close> goes back to its top.\<close>

definition driving_ended :: "driver_env \<Rightarrow> conn_driver \<Rightarrow> driver_config" where
  "driving_ended env d =
     run_top env (if is_shutting_down (cd_health d) then d
                  else mark_disconnected ''Server connection lost; reconnecting'' d)"

definition driving_control :: "driver_env \<Rightarrow> control_msg \<Rightarrow> conn_driver \<Rightarrow> driver_config" where
  "driving_control env msg d =
     (let (outcome, d) = route_control_msg env True msg d
      in if outcome = CO_Stop then driving_ended env d else (At_Driving, d))"

definition driver_step :: "driver_env \<Rightarrow> driver_input \<Rightarrow> driver_config \<Rightarrow> driver_config" where
  "driver_step env i c =
     (case c of (at, d) \<Rightarrow>
        (case at of
           At_Finished \<Rightarrow> c
         | At_Connecting \<Rightarrow>
             (case i of
                In_ConnectOk has \<Rightarrow> connect_finish env has d
              | In_ConnectErr err \<Rightarrow> connect_failed (handle_connect_err err d)
              | In_ConnectCanceled \<Rightarrow> connect_failed (handle_connect_canceled d)
              | In_Control msg \<Rightarrow> connecting_control env msg d
              | _ \<Rightarrow> c)
         | At_Retry \<Rightarrow>
             (case i of
                In_Control msg \<Rightarrow> retry_control env msg d
              | In_ControlClosed \<Rightarrow> run_exit d
              | _ \<Rightarrow> c)
         | At_Driving \<Rightarrow>
             (case i of
                In_HeartbeatTimeout \<Rightarrow> driving_ended env d
              | In_Control msg \<Rightarrow> driving_control env msg d
              | In_Event msg \<Rightarrow> (At_Driving, handle_server_msg msg d)
              | In_EventErr \<Rightarrow> driving_ended env d
              | In_DumpTimer \<Rightarrow>
                  if cd_dumpworld d then (At_Driving, snd (call_server env Call_WorldSnapshot d)) else c
              | _ \<Rightarrow> c)))"

definition driver_run :: "driver_env \<Rightarrow> driver_input list \<Rightarrow> conn_driver \<Rightarrow> driver_config" where
  "driver_run env inputs d = fold (driver_step env) inputs (run_top env d)"

subsection \<open>The invariant of the lifecycle\<close>

text \<open>The health the UI shows: the last snapshot it was sent.\<close>

definition shown_health :: "ui_event list \<Rightarrow> runtime_health option" where
  "shown_health evs =
     fold (\<lambda>ev r. case ev of UE_Command (SetRuntimeHealth h) \<Rightarrow> Some h | _ \<Rightarrow> r) evs None"

lemma shown_health_snoc [simp]:
  "shown_health (evs @ [ev]) = (case ev of UE_Command (SetRuntimeHealth h) \<Rightarrow> Some h | _ \<Rightarrow> shown_health evs)"
  by (simp add: shown_health_def split: ui_event.split ui_command.split)

text \<open>What the health may say, given the path, the tap switch and the permission override.\<close>

definition health_ok :: "conn_driver \<Rightarrow> bool" where
  "health_ok d \<longleftrightarrow>
     (rh_phase (cd_health d) = RP_Ready \<longrightarrow> required_permissions_granted d (rh_permissions (cd_health d)))
     \<and> state_active_config (rh_state (cd_health d)) \<in> {None, Some (cd_config_path d)}
     \<and> state_pending_config (rh_state (cd_health d)) \<in> {None, Some (cd_config_path d)}
     \<and> cd_permission_override d \<in> {None, Some (rh_permissions (cd_health d))}"

definition driver_core :: "conn_driver \<Rightarrow> bool" where
  "driver_core d \<longleftrightarrow> shown_health (cd_ui d) = Some (cd_health d) \<and> health_ok d"

definition driver_live :: "conn_driver \<Rightarrow> bool" where
  "driver_live d \<longleftrightarrow>
     \<not> is_shutting_down (cd_health d) \<and> Call_Shutdown \<notin> set (cd_calls d)
     \<and> UE_Command UiShutdown \<notin> set (cd_ui d)"

definition driver_closed :: "conn_driver \<Rightarrow> bool" where
  "driver_closed d \<longleftrightarrow>
     is_shutting_down (cd_health d) \<and> Call_Shutdown \<notin> set (butlast (cd_calls d))
     \<and> (\<exists>evs. cd_ui d = evs @ [UE_Command UiShutdown] \<and> UE_Command UiShutdown \<notin> set evs)"

definition driver_inv :: "driver_config \<Rightarrow> bool" where
  "driver_inv c \<longleftrightarrow>
     (case c of (at, d) \<Rightarrow>
        driver_core d
        \<and> (driver_live d \<or> driver_closed d \<and> at = At_Finished)
        \<and> (server_connected (cd_health d) \<longleftrightarrow> at = At_Driving)
        \<and> (at = At_Connecting \<longrightarrow> required_permissions_granted d (rh_permissions (cd_health d)))
        \<and> (at = At_Driving \<longrightarrow> cd_pending d = []))"

text \<open>Simplification of the leaf operations: each says what it leaves alone.\<close>

lemma emit_frame [simp]:
  "cd_health (emit ev d) = cd_health d" "cd_pending (emit ev d) = cd_pending d"
  "cd_calls (emit ev d) = cd_calls d" "cd_config_path (emit ev d) = cd_config_path d"
  "cd_event_tap_enabled (emit ev d) = cd_event_tap_enabled d"
  "cd_permission_override (emit ev d) = cd_permission_override d"
  "cd_ui (emit ev d) = cd_ui d @ [ev]" "health_ok (emit ev d) = health_ok d"
  "required_permissions_granted (emit ev d) = required_permissions_granted d"
  by (simp_all add: emit_def health_ok_def required_permissions_granted_def fun_eq_iff)

lemma set_health_frame [simp]:
  "cd_health (set_health f d) = f (cd_health d)" "cd_pending (set_health f d) = cd_pending d"
  "cd_calls (set_health f d) = cd_calls d" "cd_config_path (set_health f d) = cd_config_path d"
  "cd_event_tap_enabled (set_health f d) = cd_event_tap_enabled d"
  "cd_permission_override (set_health f d) = cd_permission_override d"
  "cd_ui (set_health f d) = cd_ui d"
  "required_permissions_granted (set_health f d) = required_permissions_granted d"
  by (simp_all add: set_health_def required_permissions_granted_def fun_eq_iff)

lemma publish_health_frame [simp]:
  "cd_health (publish_health d) = cd_health d" "cd_pending (publish_health d) = cd_pending d"
  "cd_calls (publish_health d) = cd_calls d" "cd_config_path (publish_health d) = cd_config_path d"
  "cd_event_tap_enabled (publish_health d) = cd_event_tap_enabled d"
  "cd_permission_override (publish_health d) = cd_permission_override d"
  "required_permissions_granted (publish_health d) = required_permissions_granted d"
  "driver_core (publish_health d) = health_ok d" "driver_live (publish_health d) = driver_live d"
  "cd_ui (publish_health d) = cd_ui d @ [UE_Command (SetRuntimeHealth (cd_health d))]"
  by (simp_all add: publish_health_def sink_command_def driver_core_def driver_live_def)

lemma sink_frame [simp]:
  "cd_health (sink_message m d) = cd_health d" "cd_health (sink_command c d) = cd_health d"
  "cd_pending (sink_message m d) = cd_pending d" "cd_pending (sink_command c d) = cd_pending d"
  "cd_calls (sink_message m d) = cd_calls d" "cd_calls (sink_command c d) = cd_calls d"
  "cd_config_path (sink_message m d) = cd_config_path d" "cd_config_path (sink_command c d) = cd_config_path d"
  "cd_permission_override (sink_message m d) = cd_permission_override d"
  "cd_permission_override (sink_command c d) = cd_permission_override d"
  "cd_event_tap_enabled (sink_message m d) = cd_event_tap_enabled d"
  "cd_event_tap_enabled (sink_command c d) = cd_event_tap_enabled d"
  "health_ok (sink_message m d) = health_ok d" "health_ok (sink_command c d) = health_ok d"
  "required_permissions_granted (sink_message m d) = required_permissions_granted d"
  "required_permissions_granted (sink_command c d) = required_permissions_granted d"
  "driver_core (sink_message m d) = driver_core d" "driver_live (sink_message m d) = driver_live d"
  "driver_core (sink_command ShowPermissionsHelp d) = driver_core d"
  "driver_live (sink_command ShowPermissionsHelp d) = driver_live d"
  "driver_core (sink_command (SetServerBindings b) d) = driver_core d"
  "driver_live (sink_command (SetServerBindings b) d) = driver_live d"
  "driver_core (sink_command (SetInputHealth i) d) = driver_core d"
  "driver_live (sink_command (SetInputHealth i) d) = driver_live d"
  by (auto simp: sink_message_def sink_command_def driver_core_def driver_live_def)

lemma notify_local_frame [simp]:
  "cd_health (notify_local k t b d) = cd_health d" "cd_pending (notify_local k t b d) = cd_pending d"
  "cd_calls (notify_local k t b d) = cd_calls d" "cd_config_path (notify_local k t b d) = cd_config_path d"
  "cd_permission_override (notify_local k t b d) = cd_permission_override d"
  "cd_event_tap_enabled (notify_local k t b d) = cd_event_tap_enabled d"
  "cd_secure_warned (notify_local k t b d) = cd_secure_warned d"
  "required_permissions_granted (notify_local k t b d) = required_permissions_granted d"
  "driver_core (notify_local k t b d) = driver_core d" "driver_live (notify_local k t b d) = driver_live d"
  by (auto simp: notify_local_def driver_core_def driver_live_def health_ok_def fun_eq_iff
      sink_message_def emit_def required_permissions_granted_def)

lemma required_update_frame [simp]:
  "required_permissions_granted (d\<lparr>cd_calls := cs\<rparr>) = required_permissions_granted d"
  "required_permissions_granted (d\<lparr>cd_checks := n\<rparr>) = required_permissions_granted d"
  "required_permissions_granted (d\<lparr>cd_pending := ps\<rparr>) = required_permissions_granted d"
  "required_permissions_granted (d\<lparr>cd_secure_warned := w\<rparr>) = required_permissions_granted d"
  "required_permissions_granted (d\<lparr>cd_log := l\<rparr>) = required_permissions_granted d"
  by (simp_all add: required_permissions_granted_def fun_eq_iff)

lemma core_update_frame [simp]:
  "driver_core (d\<lparr>cd_calls := cs\<rparr>) = driver_core d" "driver_core (d\<lparr>cd_checks := n\<rparr>) = driver_core d"
  "driver_core (d\<lparr>cd_pending := ps\<rparr>) = driver_core d" "driver_core (d\<lparr>cd_secure_warned := w\<rparr>) = driver_core d"
  "driver_core (d\<lparr>cd_log := l\<rparr>) = driver_core d" "health_ok (d\<lparr>cd_pending := ps\<rparr>) = health_ok d"
  by (simp_all add: driver_core_def health_ok_def)

lemma live_update_frame [simp]:
  "driver_live (d\<lparr>cd_checks := n\<rparr>) = driver_live d" "driver_live (d\<lparr>cd_pending := ps\<rparr>) = driver_live d"
  "driver_live (d\<lparr>cd_secure_warned := w\<rparr>) = driver_live d" "driver_live (d\<lparr>cd_log := l\<rparr>) = driver_live d"
  by (simp_all add: driver_live_def)

lemma driver_live_set_health:
  "driver_live d \<Longrightarrow> \<not> is_shutting_down (f (cd_health d)) \<Longrightarrow> driver_live (set_health f d)"
  by (simp add: driver_live_def)

lemma driver_live_open: "driver_live d \<Longrightarrow> \<not> is_shutting_down (cd_health d)"
  by (simp add: driver_live_def)

lemma driver_core_health_ok: "driver_core d \<Longrightarrow> health_ok d"
  by (simp add: driver_core_def)

lemma active_config_queries [simp]:
  "state_active_config (rh_state (health_disconnect m h)) = None"
  "state_active_config (rh_state (health_queue_reconnect c h)) = None"
  "state_active_config (rh_state (health_block_on_permissions h)) = state_active_config (rh_state h)"
  "state_active_config (rh_state (health_start_config_reload c h)) = state_active_config (rh_state h)"
  "state_active_config (rh_state (health_reject_config c m h)) = state_active_config (rh_state h)"
  "state_active_config (rh_state (health_run_config c h)) = Some c"
  "state_active_config (rh_state (health_start_connecting c h)) = None"
  "state_active_config (rh_state (health_begin_shutdown h)) = None"
  by (simp_all add: health_transitions split: health_state.split)

lemma pending_config_queries [simp]:
  "state_pending_config (rh_state (health_disconnect m h)) = None"
  "state_pending_config (rh_state (health_queue_reconnect c h)) = Some c"
  "state_pending_config (rh_state (health_block_on_permissions h)) = None"
  "state_pending_config (rh_state (health_start_config_reload c h)) = Some c"
  "state_pending_config (rh_state (health_reject_config c m h)) = Some c"
  "state_pending_config (rh_state (health_run_config c h)) = None"
  "state_pending_config (rh_state (health_start_connecting c h)) = Some c"
  "state_pending_config (rh_state (health_begin_shutdown h)) = None"
  by (simp_all add: health_transitions split: health_state.split)

lemma phase_queries [simp]:
  "rh_phase (health_disconnect m h) = RP_Disconnected"
  "rh_phase (health_queue_reconnect c h) = RP_Retrying"
  "rh_phase (health_block_on_permissions h) = RP_WaitingPermissions"
  "rh_phase (health_start_config_reload c h) = RP_Retrying"
  "rh_phase (health_reject_config c m h) = RP_InvalidConfig"
  "rh_phase (health_run_config c h) = RP_Ready"
  "rh_phase (health_start_connecting c h) \<noteq> RP_Ready"
  "rh_phase (health_begin_shutdown h) = RP_ShuttingDown"
  by (simp_all add: rh_phase_def health_transitions split: health_state.split)

lemma connected_queries [simp]:
  "\<not> server_connected (health_disconnect m h)"
  "\<not> server_connected (health_queue_reconnect c h)"
  "server_connected (health_block_on_permissions h) = server_connected h"
  "server_connected (health_start_config_reload c h)"
  "server_connected (health_reject_config c m h)"
  "server_connected (health_run_config c h)"
  "\<not> server_connected (health_start_connecting c h)"
  "\<not> server_connected (health_begin_shutdown h)"
  by (simp_all add: server_connected_def health_transitions split: health_state.split)

lemma is_shutting_down_phase: "is_shutting_down h \<longleftrightarrow> rh_phase h = RP_ShuttingDown"
  by (simp add: is_shutting_down_def rh_phase_def split: health_state.split)

lemma shutting_down_queries [simp]:
  "\<not> is_shutting_down (health_disconnect m h)" "\<not> is_shutting_down (health_queue_reconnect c h)"
  "\<not> is_shutting_down (health_block_on_permissions h)"
  "\<not> is_shutting_down (health_start_config_reload c h)"
  "\<not> is_shutting_down (health_reject_config c m h)" "\<not> is_shutting_down (health_run_config c h)"
  "\<not> is_shutting_down (health_start_connecting c h)" "is_shutting_down (health_begin_shutdown h)"
  by (simp_all add: is_shutting_down_def health_transitions split: health_state.split)

lemma permissions_queries [simp]:
  "rh_permissions (health_disconnect m h) = rh_permissions h"
  "rh_permissions (health_queue_reconnect c h) = rh_permissions h"
  "rh_permissions (health_block_on_permissions h) = rh_permissions h"
  "rh_permissions (health_start_config_reload c h) = rh_permissions h"
  "rh_permissions (health_reject_config c m h) = rh_permissions h"
  "rh_permissions (health_run_config c h) = rh_permissions h"
  "rh_permissions (health_start_connecting c h) = rh_permissions h"
  "rh_permissions (health_begin_shutdown h) = rh_permissions h"
  by (simp_all add: health_transitions)

lemma state_queries_update [simp]:
  "rh_phase (h\<lparr>rh_permissions := p\<rparr>) = rh_phase h" "rh_phase (h\<lparr>rh_input := i\<rparr>) = rh_phase h"
  "server_connected (h\<lparr>rh_permissions := p\<rparr>) = server_connected h"
  "server_connected (h\<lparr>rh_input := i\<rparr>) = server_connected h"
  by (simp_all add: rh_phase_def server_connected_def)

text \<open>
  The common shape of a step inside an open lifecycle: the core and the openness
  are kept.  \<open>open_step\<close> also says which pending controls, connection status and
  configuration the step leaves alone.
\<close>

definition open_step :: "conn_driver \<Rightarrow> conn_driver \<Rightarrow> bool" where
  "open_step d d' \<longleftrightarrow>
     driver_core d' \<and> driver_live d' \<and> cd_pending d' = cd_pending d
     \<and> cd_config_path d' = cd_config_path d \<and> cd_event_tap_enabled d' = cd_event_tap_enabled d"

lemma mark_open_step:
  assumes "health_ok d" "driver_live d"
  shows "open_step d (mark_disconnected m d)" "open_step d (mark_connecting d)"
    "open_step d (mark_waiting_for_permissions d)" "open_step d (mark_invalid_config m d)"
    "required_permissions_granted d (rh_permissions (cd_health d)) \<Longrightarrow> open_step d (mark_ready d)"
  using assms
  by (auto simp: open_step_def mark_disconnected_def mark_connecting_def mark_waiting_for_permissions_def
      mark_invalid_config_def mark_ready_def driver_live_set_health health_ok_def)

lemma note_permissions_frame [simp]:
  "rh_state (cd_health (note_permissions p d)) = rh_state (cd_health d)"
  "rh_permissions (cd_health (note_permissions p d)) = p"
  "cd_permission_override (note_permissions p d) = cd_permission_override d"
  "cd_config_path (note_permissions p d) = cd_config_path d"
  "cd_event_tap_enabled (note_permissions p d) = cd_event_tap_enabled d"
  "cd_pending (note_permissions p d) = cd_pending d" "cd_calls (note_permissions p d) = cd_calls d"
  "driver_live (note_permissions p d) = driver_live d"
  by (auto simp: note_permissions_def driver_live_def is_shutting_down_def)

lemma note_permissions_core:
  "driver_core d \<Longrightarrow> health_ok (note_permissions p d) \<Longrightarrow> driver_core (note_permissions p d)"
  by (auto simp: note_permissions_def driver_core_def health_ok_def)

lemma event_tap_permissions_missing_step:
  assumes e: "event_tap_permissions_missing env d = (missing, d')" and core: "driver_core d" and live: "driver_live d"
  shows "open_step d d'" "server_connected (cd_health d') = server_connected (cd_health d)"
    and "\<not> missing \<Longrightarrow> required_permissions_granted d' (rh_permissions (cd_health d'))
      \<and> rh_state (cd_health d') = rh_state (cd_health d)"
proof -
  obtain p d1 where p: "(case cd_permission_override d of Some p \<Rightarrow> (p, d) | None \<Rightarrow> check_permissions env d) = (p, d1)"
    by fastforce
  then have d1: "driver_core d1" "driver_live d1" "cd_health d1 = cd_health d" "cd_pending d1 = cd_pending d"
    "cd_config_path d1 = cd_config_path d" "cd_event_tap_enabled d1 = cd_event_tap_enabled d"
    "cd_permission_override d1 \<in> {None, Some p}"
    using core live driver_core_health_ok[OF core] unfolding check_permissions_def
    by (cases "cd_permission_override d"; force simp: health_ok_def)+
  let ?n = "note_permissions p d1"
  have d': "(missing, d') = (if required_permissions_granted ?n p then (False, ?n)
      else (True, notify_local NK_Error ''Permissions''
        ''Grant Accessibility and Input Monitoring to Hotki. It will retry automatically.''
        (sink_command ShowPermissionsHelp (mark_waiting_for_permissions ?n))))"
    using e p by (auto simp: event_tap_permissions_missing_def Let_def split: if_splits)
  have "open_step d d' \<and> server_connected (cd_health d') = server_connected (cd_health d)
    \<and> (\<not> missing \<longrightarrow> required_permissions_granted d' (rh_permissions (cd_health d'))
        \<and> rh_state (cd_health d') = rh_state (cd_health d))"
  proof (cases "required_permissions_granted ?n p")
    case True
    have "health_ok ?n" using True d1 driver_core_health_ok[OF d1(1)] by (simp add: health_ok_def rh_phase_def)
    then show ?thesis using True d' d1 note_permissions_core[of d1 p]
      by (simp add: open_step_def server_connected_def)
  next
    case False
    have "open_step ?n (mark_waiting_for_permissions ?n)"
      using d1 driver_core_health_ok[OF d1(1)]
      by (simp add: open_step_def mark_waiting_for_permissions_def driver_live_set_health health_ok_def)
    then show ?thesis using False d' d1
      by (simp add: open_step_def mark_waiting_for_permissions_def server_connected_def[of "cd_health ?n"])
        (simp add: server_connected_def)
  qed
  then show "open_step d d'" "server_connected (cd_health d') = server_connected (cd_health d)"
    "\<not> missing \<Longrightarrow> required_permissions_granted d' (rh_permissions (cd_health d'))
      \<and> rh_state (cd_health d') = rh_state (cd_health d)" by blast+
qed

lemma open_step_trans: "open_step d d1 \<Longrightarrow> open_step d1 d2 \<Longrightarrow> open_step d d2"
  by (simp add: open_step_def)

lemma open_step_core: "open_step d d' \<Longrightarrow> driver_core d'" "open_step d d' \<Longrightarrow> driver_live d'"
  by (simp_all add: open_step_def)

lemma open_step_required:
  "open_step d d' \<Longrightarrow> required_permissions_granted d' = required_permissions_granted d"
  by (simp add: open_step_def required_permissions_granted_def fun_eq_iff)

lemma call_server_step:
  assumes "call_server env c d = (r, d')" "driver_core d" "driver_live d" "c \<noteq> Call_Shutdown"
  shows "open_step d d'" "cd_health d' = cd_health d" "cd_ui d' = cd_ui d"
proof -
  have d': "d' = d\<lparr>cd_calls := cd_calls d @ [c]\<rparr>" using assms(1) by (simp add: call_server_def)
  have "driver_live d'" unfolding d' using assms(3,4) by (simp add: driver_live_def)
  then show "open_step d d'" "cd_health d' = cd_health d" "cd_ui d' = cd_ui d"
    unfolding d' using assms(2) by (simp_all add: open_step_def)
qed

lemma refresh_server_bindings_step:
  assumes "driver_core d" "driver_live d"
  shows "open_step d (refresh_server_bindings env d)"
    "cd_health (refresh_server_bindings env d) = cd_health d"
proof -
  obtain r d1 where c: "call_server env Call_GetBindings d = (r, d1)" by fastforce
  note s = call_server_step[OF c assms]
  show "open_step d (refresh_server_bindings env d)" "cd_health (refresh_server_bindings env d) = cd_health d"
    using s by (simp_all add: refresh_server_bindings_def c Let_def open_step_def split: option.split)
qed

lemma activate_config_step:
  assumes a: "activate_config env d = (r, d')" and core: "health_ok d" "driver_live d"
    and shown: "driver_core d" and req: "required_permissions_granted d (rh_permissions (cd_health d))"
  shows "open_step d d'" "server_connected (cd_health d')"
proof -
  obtain r1 d1 where c: "call_server env (Call_SetConfigPath (cd_config_path d)) d = (r1, d1)" by fastforce
  note s = call_server_step[OF c shown core(2)]
  have d1: "health_ok d1" "driver_live d1" "required_permissions_granted d1 (rh_permissions (cd_health d1))"
    using s req open_step_required[OF s(1)] open_step_core[OF s(1)] driver_core_health_ok by simp_all
  note m = mark_open_step[OF d1(1,2)]
  have "open_step d1 d' \<and> server_connected (cd_health d')"
  proof (cases r1)
    case None
    then have "d' = mark_ready d1" using a c by (simp add: activate_config_def)
    then show ?thesis using m(5)[OF d1(3)] by (simp add: mark_ready_def)
  next
    case (Some message)
    then have "d' = mark_invalid_config message d1" using a c by (simp add: activate_config_def)
    then show ?thesis using m(4) by (simp add: mark_invalid_config_def)
  qed
  then show "open_step d d'" "server_connected (cd_health d')" using open_step_trans[OF s(1)] by blast+
qed

lemma reload_config_step:
  assumes core: "driver_core d" "driver_live d" and req: "required_permissions_granted d (rh_permissions (cd_health d))"
  shows "open_step d (reload_config env d)" "server_connected (cd_health (reload_config env d))"
proof -
  let ?d1 = "publish_health (set_health (health_start_config_reload (cd_config_path d)) d)"
  obtain r d2 where a: "activate_config env ?d1 = (r, d2)" by fastforce
  have d1: "open_step d ?d1"
    using core by (auto simp: open_step_def driver_live_set_health driver_core_def health_ok_def)
  note s = activate_config_step[OF a driver_core_health_ok[OF open_step_core(1)[OF d1]] open_step_core(2)[OF d1]
      open_step_core(1)[OF d1]]
  have s: "open_step ?d1 d2" "server_connected (cd_health d2)" using s req open_step_required[OF d1] by simp_all
  have n: "open_step d2 (notify_local k t b d2)" for k t b using open_step_core[OF s(1)] by (simp add: open_step_def)
  have f: "open_step (notify_local k t b d2) (refresh_server_bindings env (notify_local k t b d2))" for k t b
    using refresh_server_bindings_step open_step_core[OF n] by blast
  have step: "open_step d d2" using open_step_trans[OF d1 s(1)] .
  show "open_step d (reload_config env d)"
    using open_step_trans[OF step open_step_trans[OF n f]] open_step_trans[OF step n]
    by (simp add: reload_config_def a split: option.split)
  show "server_connected (cd_health (reload_config env d))"
    using s(2) refresh_server_bindings_step open_step_core[OF n]
    by (simp add: reload_config_def a split: option.split)
qed

lemma inject_key_step:
  assumes "inject_key env ident kind rep report d = (ok, d')" "driver_core d" "driver_live d"
  shows "open_step d d'" "cd_health d' = cd_health d"
proof -
  let ?c = "case kind of IK_Down \<Rightarrow> if rep then Call_InjectRepeat ident else Call_InjectDown ident
    | IK_Up \<Rightarrow> Call_InjectUp ident"
  obtain r d1 where c: "call_server env ?c d = (r, d1)" by fastforce
  have "?c \<noteq> Call_Shutdown" by (simp split: inject_kind.split)
  note s = call_server_step[OF c assms(2,3) this]
  show "open_step d d'" "cd_health d' = cd_health d"
    using assms(1) s by (auto simp: inject_key_def c open_step_def split: option.splits if_splits)
qed

lemma handle_server_control_step:
  assumes core: "driver_core d" "driver_live d" and conn: "server_connected (cd_health d)"
  shows "open_step d (handle_server_control env c d)
    \<and> server_connected (cd_health (handle_server_control env c d))"
proof (cases c)
  case SC_Reload
  obtain m d1 where e: "event_tap_permissions_missing env d = (m, d1)" by fastforce
  note s = event_tap_permissions_missing_step[OF e core]
  note r = reload_config_step[OF open_step_core[OF s(1)]]
  show ?thesis using SC_Reload e s r conn open_step_trans[OF s(1)] by auto
next
  case (SC_InjectKey ident report)
  obtain ok d1 where i: "inject_key env ident IK_Down False report d = (ok, d1)" by fastforce
  obtain ok2 d2 where j: "inject_key env ident IK_Up False False d1 = (ok2, d2)" by fastforce
  note s = inject_key_step[OF i core]
  note t = inject_key_step[OF j open_step_core[OF s(1)]]
  show ?thesis using SC_InjectKey i j s t conn open_step_trans[OF s(1) t(1)] by simp
qed

lemma server_controls_step:
  assumes "driver_core d" "driver_live d" "server_connected (cd_health d)"
  shows "open_step d (fold (handle_server_control env) cs d)
    \<and> server_connected (cd_health (fold (handle_server_control env) cs d))"
  using assms
proof (induction cs arbitrary: d)
  case Nil
  then show ?case by (simp add: open_step_def)
next
  case (Cons c cs)
  note s = handle_server_control_step[OF Cons.prems, of env c]
  note t = Cons.IH[OF open_step_core[OF s[THEN conjunct1]] s[THEN conjunct2]]
  show ?case using t open_step_trans[OF s[THEN conjunct1]] by simp
qed

lemma drain_pending_controls_step:
  assumes "driver_core d" "driver_live d" "server_connected (cd_health d)"
  shows "driver_core (drain_pending_controls env d)" "driver_live (drain_pending_controls env d)"
    "server_connected (cd_health (drain_pending_controls env d))" "cd_pending (drain_pending_controls env d) = []"
proof -
  have "driver_core (d\<lparr>cd_pending := []\<rparr>)" "driver_live (d\<lparr>cd_pending := []\<rparr>)"
    using assms by (simp_all add: driver_core_def driver_live_def health_ok_def required_permissions_granted_def)
  note s = server_controls_step[OF this, of env "cd_pending d"]
  show "driver_core (drain_pending_controls env d)" "driver_live (drain_pending_controls env d)"
    "server_connected (cd_health (drain_pending_controls env d))" "cd_pending (drain_pending_controls env d) = []"
    using s assms(3) by (simp_all add: drain_pending_controls_def open_step_def)
qed

lemma health_ok_permissions:
  assumes "driver_core d" and "rh_phase (cd_health d) \<noteq> RP_Ready \<or> required_permissions_granted d p"
    and "ov \<in> {None, Some p}"
  shows "health_ok (set_health (\<lambda>h. h\<lparr>rh_permissions := p\<rparr>) (d\<lparr>cd_permission_override := ov\<rparr>))"
  using assms by (auto simp: driver_core_def health_ok_def set_health_def rh_phase_def required_permissions_granted_def)

text \<open>A change of permissions keeps an open lifecycle and asks for a pause only without a connection.\<close>

lemma permissions_changed_step:
  assumes p: "permissions_changed obs d = (out, d')" and core: "driver_core d" and live: "driver_live d"
  shows "open_step d d'" "server_connected (cd_health d') = server_connected (cd_health d)" "out \<noteq> CO_Stop"
    "\<not> server_connected (cd_health d) \<Longrightarrow> out \<noteq> CO_PauseConnect
      \<Longrightarrow> required_permissions_granted d' (rh_permissions (cd_health d'))"
proof -
  let ?d1 = "set_health (\<lambda>h. h\<lparr>rh_permissions := po_status obs\<rparr>)
    (d\<lparr>cd_permission_override := (if po_overridden obs then Some (po_status obs) else None)\<rparr>)"
  have q [simp]: "rh_phase (cd_health ?d1) = rh_phase (cd_health d)"
    "server_connected (cd_health ?d1) = server_connected (cd_health d)" "rh_permissions (cd_health ?d1) = po_status obs"
    "cd_event_tap_enabled ?d1 = cd_event_tap_enabled d" "cd_pending ?d1 = cd_pending d"
    "cd_config_path ?d1 = cd_config_path d" "driver_live ?d1"
    using live by (simp_all add: rh_phase_def server_connected_def driver_live_def is_shutting_down_phase)
  have ok: "rh_phase (cd_health d) \<noteq> RP_Ready \<or> required_permissions_granted d (po_status obs) \<Longrightarrow> health_ok ?d1"
    using health_ok_permissions[OF core] by simp
  have conn: "server_connected h \<Longrightarrow> rh_phase h \<noteq> RP_Disconnected \<and> rh_phase h \<noteq> RP_Connecting" for h
    by (cases "rh_state h") (simp_all add: server_connected_def rh_phase_def)
  have wait: "open_step d (mark_waiting_for_permissions ?d1)"
    using core by (auto simp: open_step_def mark_waiting_for_permissions_def driver_live_set_health
        driver_core_def health_ok_def)
  have req: "required_permissions_granted ?d1 = required_permissions_granted d"
    by (simp add: required_permissions_granted_def fun_eq_iff)
  have shut: "rh_phase (cd_health d) \<noteq> RP_ShuttingDown" using live by (simp add: driver_live_def is_shutting_down_phase)
  let ?pause = "if cd_event_tap_enabled d \<and> \<not> server_connected (cd_health d) then CO_PauseConnect else CO_Continue"
  have eq: "(out, d') =
    (if \<not> observed_permissions_granted (po_status obs)
     then (?pause, if server_connected (cd_health d) \<and> rh_phase (cd_health d) = RP_InvalidConfig
                   then publish_health ?d1 else mark_waiting_for_permissions ?d1)
     else if server_connected (cd_health d) \<and> rh_phase (cd_health d) = RP_WaitingPermissions
     then (CO_Continue, mark_ready ?d1)
     else if rh_phase (cd_health d) \<in> {RP_Disconnected, RP_Connecting, RP_WaitingPermissions}
     then (CO_RetryConnect, publish_health (set_health (health_queue_reconnect (cd_config_path d)) ?d1))
     else (CO_Continue, publish_health ?d1))"
    unfolding p[symmetric] permissions_changed_def Let_def using q
    by (simp add: mark_waiting_for_permissions_def)
  consider
      (invalid) "\<not> observed_permissions_granted (po_status obs)" "server_connected (cd_health d)"
        "rh_phase (cd_health d) = RP_InvalidConfig" "(out, d') = (?pause, publish_health ?d1)"
    | (wait) "\<not> observed_permissions_granted (po_status obs)"
        "(out, d') = (?pause, mark_waiting_for_permissions ?d1)"
    | (ready) "observed_permissions_granted (po_status obs)" "server_connected (cd_health d)"
        "(out, d') = (CO_Continue, mark_ready ?d1)"
    | (queue) "observed_permissions_granted (po_status obs)" "\<not> server_connected (cd_health d)"
        "(out, d') = (CO_RetryConnect, publish_health (set_health (health_queue_reconnect (cd_config_path d)) ?d1))"
    | (stay) "observed_permissions_granted (po_status obs)" "(out, d') = (CO_Continue, publish_health ?d1)"
    using eq conn[of "cd_health d"] by (auto split: if_splits simp del: prod.inject)
  then have "open_step d d' \<and> server_connected (cd_health d') = server_connected (cd_health d) \<and> out \<noteq> CO_Stop
    \<and> (\<not> server_connected (cd_health d) \<longrightarrow> out \<noteq> CO_PauseConnect
      \<longrightarrow> required_permissions_granted d' (rh_permissions (cd_health d')))"
  proof cases
    case invalid
    then show ?thesis using ok by (simp add: open_step_def)
  next
    case wait
    then show ?thesis using \<open>open_step d (mark_waiting_for_permissions ?d1)\<close>
      by (simp add: mark_waiting_for_permissions_def req) (simp add: required_permissions_granted_def)
  next
    case ready
    then have "health_ok ?d1" using ok by (simp add: required_permissions_granted_def)
    then have "open_step ?d1 (mark_ready ?d1)"
      using ready by (intro mark_open_step(5)) (simp_all add: req required_permissions_granted_def)
    then show ?thesis using ready by (simp add: open_step_def mark_ready_def)
  next
    case queue
    then have "health_ok ?d1" using ok by (simp add: required_permissions_granted_def)
    then have "open_step d d'"
      using queue by (simp add: open_step_def driver_live_set_health health_ok_def)
    then show ?thesis using queue by (simp add: required_permissions_granted_def)
  next
    case stay
    then have "health_ok ?d1" using ok by (simp add: required_permissions_granted_def)
    then show ?thesis using stay by (simp add: open_step_def required_permissions_granted_def)
  qed
  then show "open_step d d'" "server_connected (cd_health d') = server_connected (cd_health d)" "out \<noteq> CO_Stop"
    "\<not> server_connected (cd_health d) \<Longrightarrow> out \<noteq> CO_PauseConnect
      \<Longrightarrow> required_permissions_granted d' (rh_permissions (cd_health d'))" by blast+
qed

text \<open>Shutdown was recorded and the loops are on their way out.\<close>

definition driver_closing :: "conn_driver \<Rightarrow> bool" where
  "driver_closing d \<longleftrightarrow>
     driver_core d \<and> is_shutting_down (cd_health d) \<and> Call_Shutdown \<notin> set (butlast (cd_calls d))
     \<and> UE_Command UiShutdown \<notin> set (cd_ui d)"

lemma closing_not_connected: "is_shutting_down h \<Longrightarrow> \<not> server_connected h"
  by (cases "rh_state h") (simp_all add: is_shutting_down_def server_connected_def)

lemma begin_shutdown_closing:
  assumes "driver_core d" "driver_live d"
  shows "driver_closing (begin_shutdown d)" "cd_calls (begin_shutdown d) = cd_calls d"
proof -
  have "Call_Shutdown \<notin> set (butlast (cd_calls d))" using assms(2) in_set_butlastD by (fastforce simp: driver_live_def)
  then show "driver_closing (begin_shutdown d)" "cd_calls (begin_shutdown d) = cd_calls d"
    using assms by (simp_all add: driver_closing_def begin_shutdown_def driver_live_def driver_core_def health_ok_def)
qed

lemma driver_closing_exit:
  assumes "driver_closing d"
  shows "driver_inv (run_exit d)" "run_exit d = (At_Finished, finish_shutdown d)"
proof -
  show e: "run_exit d = (At_Finished, finish_shutdown d)" using assms by (simp add: run_exit_def driver_closing_def)
  show "driver_inv (run_exit d)"
    using assms closing_not_connected[of "cd_health d"] unfolding e driver_inv_def driver_closing_def driver_closed_def
    by (simp add: finish_shutdown_def sink_command_def driver_core_def)
qed

lemma driver_closing_top:
  assumes "driver_closing d"
  shows "run_top env d = run_exit d" "connect_failed d = run_exit d"
  using assms by (simp_all add: run_top_def connect_failed_def driver_closing_def)

lemma driver_inv_retry:
  assumes "driver_core d" "driver_live d" "\<not> server_connected (cd_health d)"
  shows "driver_inv (At_Retry, d)" "driver_inv (connect_failed d)" "driver_inv (run_exit d)"
  using assms by (simp_all add: driver_inv_def connect_failed_def run_exit_def driver_live_def)

lemma driver_inv_connecting:
  "driver_core d \<Longrightarrow> driver_live d \<Longrightarrow> \<not> server_connected (cd_health d)
    \<Longrightarrow> required_permissions_granted d (rh_permissions (cd_health d)) \<Longrightarrow> driver_inv (At_Connecting, d)"
  by (simp add: driver_inv_def)

lemma driver_inv_driving:
  "driver_inv (At_Driving, d) \<longleftrightarrow>
     driver_core d \<and> driver_live d \<and> server_connected (cd_health d) \<and> cd_pending d = []"
  by (auto simp: driver_inv_def)

lemma run_top_inv:
  assumes "driver_core d" "driver_live d" "\<not> server_connected (cd_health d)"
  shows "driver_inv (run_top env d)"
proof -
  obtain m d1 where e: "event_tap_permissions_missing env d = (m, d1)" by fastforce
  note s = event_tap_permissions_missing_step[OF e assms(1,2)]
  note c = open_step_core[OF s(1)]
  have "driver_inv (At_Connecting, mark_connecting d1)" if "\<not> m"
    using mark_open_step(2)[OF driver_core_health_ok[OF c(1)] c(2)] s(3)[OF that]
    by (simp add: driver_inv_def open_step_def mark_connecting_def)
  moreover have "driver_inv (connect_failed d1)" using driver_inv_retry(2)[OF c] s(2) assms(3) by simp
  ultimately show ?thesis using assms(2) by (simp add: run_top_def e driver_live_def)
qed

text \<open>Controls without a connection.\<close>

lemma route_disconnected:
  assumes r: "route_control_msg env False msg d = (out, d')"
    and core: "driver_core d" "driver_live d" and conn: "\<not> server_connected (cd_health d)"
  shows "(out = CO_Stop \<and> driver_closing d')
    \<or> (out \<noteq> CO_Stop \<and> driver_core d' \<and> driver_live d' \<and> \<not> server_connected (cd_health d')
       \<and> (out \<noteq> CO_PauseConnect \<longrightarrow> required_permissions_granted d (rh_permissions (cd_health d))
           \<longrightarrow> required_permissions_granted d' (rh_permissions (cd_health d'))))"
proof (cases "control_route_from_msg msg")
  case (Route_Local c)
  show ?thesis
  proof (cases c)
    case (LC_PermissionsChanged obs)
    then have p: "permissions_changed obs d = (out, d')" using r Route_Local by (simp add: route_control_msg_def)
    show ?thesis using permissions_changed_step[OF p core] conn by (auto simp: open_step_def)
  qed (use r Route_Local core conn in \<open>auto simp: route_control_msg_def\<close>)
next
  case (Route_Server c)
  then show ?thesis using r core driver_core_health_ok[OF core(1)]
    by (auto simp: route_control_msg_def driver_live_set_health health_ok_def)
next
  case Route_Shutdown
  then show ?thesis using r begin_shutdown_closing[OF core] by (simp add: route_control_msg_def)
qed

lemma connecting_control_inv:
  assumes "driver_inv (At_Connecting, d)"
  shows "driver_inv (connecting_control env msg d)"
proof -
  have c: "driver_core d" "driver_live d" "\<not> server_connected (cd_health d)"
    "required_permissions_granted d (rh_permissions (cd_health d))"
    using assms by (auto simp: driver_inv_def)
  obtain out d' where r: "route_control_msg env False msg d = (out, d')" by fastforce
  show ?thesis using route_disconnected[OF r c(1-3)] c(4) driver_closing_exit(1) driver_inv_retry(2)[of d']
      driver_inv_connecting[of d']
    by (auto simp: connecting_control_def r driver_closing_top)
qed

lemma retry_control_inv:
  assumes "driver_inv (At_Retry, d)"
  shows "driver_inv (retry_control env msg d)"
proof -
  have c: "driver_core d" "driver_live d" "\<not> server_connected (cd_health d)"
    using assms by (auto simp: driver_inv_def)
  obtain out d' where r: "route_control_msg env False msg d = (out, d')" by fastforce
  show ?thesis using route_disconnected[OF r c] driver_closing_exit(1)[of d'] driver_inv_retry(1)[of d']
      run_top_inv[of d' env]
    by (auto simp: retry_control_def r)
qed

text \<open>The connected loop.\<close>

lemma connect_finish_inv:
  assumes "driver_inv (At_Connecting, d)"
  shows "driver_inv (connect_finish env has d)"
proof -
  have c: "driver_core d" "driver_live d" "\<not> server_connected (cd_health d)"
    using assms by (auto simp: driver_inv_def)
  obtain m d1 where e: "event_tap_permissions_missing env d = (m, d1)" by fastforce
  note s = event_tap_permissions_missing_step[OF e c(1,2)]
  note c1 = open_step_core[OF s(1)]
  obtain r d2 where a: "activate_config env d1 = (r, d2)" by fastforce
  let ?d3 = "case r of Some message \<Rightarrow> notify_local NK_Error ''Config'' message d2
    | None \<Rightarrow> refresh_server_bindings env d2"
  have ok: "driver_inv (At_Driving, drain_pending_controls env ?d3)" if "\<not> m"
  proof -
    note t = activate_config_step[OF a driver_core_health_ok[OF c1(1)] c1(2,1)]
    have t: "driver_core d2" "driver_live d2" "server_connected (cd_health d2)"
      using t s(3)[OF that] by (simp_all add: open_step_def)
    have "driver_core ?d3" "driver_live ?d3" "server_connected (cd_health ?d3)"
      using t refresh_server_bindings_step[OF t(1,2)] by (simp_all add: open_step_def split: option.split)
    from drain_pending_controls_step[OF this] show ?thesis unfolding driver_inv_driving by blast
  qed
  have dis: "open_step d1 (mark_disconnected NOT_CONNECTED d1)"
    by (rule mark_open_step(1)[OF driver_core_health_ok[OF c1(1)] c1(2)])
  have "driver_inv (connect_failed (mark_disconnected NOT_CONNECTED d1))"
    using driver_inv_retry(2)[OF open_step_core[OF dis]] by (simp add: mark_disconnected_def)
  then show ?thesis using ok driver_inv_retry(2)[OF c1] s(2) c(3)
    by (simp add: connect_finish_def e a)
qed

lemma driving_ended_inv:
  assumes "driver_core d" "driver_live d"
  shows "driver_inv (driving_ended env d)"
proof -
  let ?d1 = "mark_disconnected ''Server connection lost; reconnecting'' d"
  have "open_step d ?d1" by (rule mark_open_step(1)[OF driver_core_health_ok[OF assms(1)] assms(2)])
  then have "driver_inv (run_top env ?d1)"
    by (intro run_top_inv) (simp_all add: open_step_def mark_disconnected_def)
  then show ?thesis using assms(2) by (simp add: driving_ended_def driver_live_def)
qed

lemma driver_closing_call:
  "driver_closing d \<Longrightarrow> Call_Shutdown \<notin> set (cd_calls d) \<Longrightarrow> driver_closing (snd (call_server env Call_Shutdown d))"
  by (simp add: driver_closing_def call_server_def)

lemma driving_control_inv:
  assumes "driver_inv (At_Driving, d)"
  shows "driver_inv (driving_control env msg d)"
proof -
  have c: "driver_core d" "driver_live d" "server_connected (cd_health d)" "cd_pending d = []"
    using assms by (simp_all add: driver_inv_driving)
  show ?thesis
  proof (cases "control_route_from_msg msg")
    case (Route_Local l)
    show ?thesis
    proof (cases l)
      case (LC_PermissionsChanged obs)
      obtain out d' where p: "permissions_changed obs d = (out, d')" by fastforce
      show ?thesis using permissions_changed_step[OF p c(1,2)] c Route_Local LC_PermissionsChanged p
        by (simp add: driving_control_def route_control_msg_def driver_inv_driving open_step_def)
    qed (use c Route_Local in \<open>simp_all add: driving_control_def route_control_msg_def driver_inv_driving\<close>)
  next
    case (Route_Server sc)
    then show ?thesis using handle_server_control_step[OF c(1-3), of env sc] c(4)
      by (simp add: driving_control_def route_control_msg_def driver_inv_driving open_step_def)
  next
    case Route_Shutdown
    let ?d1 = "snd (call_server env Call_Shutdown (begin_shutdown d))"
    have "driver_closing ?d1"
      using begin_shutdown_closing[OF c(1,2)] c(2) by (intro driver_closing_call) (simp_all add: driver_live_def)
    then show ?thesis using Route_Shutdown driver_closing_exit(1)[of ?d1] driver_closing_top(1)[of ?d1 env]
      by (simp add: driving_control_def route_control_msg_def driving_ended_def Let_def driver_closing_def)
  qed
qed

lemma input_update_core [simp]:
  "health_ok (set_health (\<lambda>h. h\<lparr>rh_input := p\<rparr>) d) = health_ok d"
  "driver_live (set_health (\<lambda>h. h\<lparr>rh_input := p\<rparr>) d) = driver_live d"
  by (simp_all add: health_ok_def rh_phase_def driver_live_def is_shutting_down_phase)

lemma handle_server_msg_inv:
  assumes "driver_inv (At_Driving, d)"
  shows "driver_inv (At_Driving, handle_server_msg msg d)"
proof (cases msg)
  case (Heartbeat hb)
  show ?thesis using assms driver_core_health_ok[of d] unfolding Heartbeat driver_inv_driving
    by (auto simp: handle_input_health_def Let_def)
qed (use assms in \<open>simp_all add: driver_inv_driving notify_remote_def\<close>)

theorem driver_step_inv:
  assumes "driver_inv c"
  shows "driver_inv (driver_step env i c)"
proof -
  obtain at d where c: "c = (at, d)" by fastforce
  have open_at: "at \<noteq> At_Finished \<Longrightarrow> driver_core d \<and> driver_live d \<and> (at \<noteq> At_Driving \<longrightarrow> \<not> server_connected (cd_health d))"
    using assms by (auto simp: driver_inv_def c)
  show ?thesis
  proof (cases at)
    case At_Connecting
    have d: "driver_inv (connect_failed (mark_disconnected m e))" if "driver_core e" "driver_live e" for m e
    proof -
      note s = mark_open_step(1)[OF driver_core_health_ok[OF that(1)] that(2), of m]
      show ?thesis using driver_inv_retry(2)[OF open_step_core[OF s]] by (simp add: mark_disconnected_def)
    qed
    have "driver_inv (connect_failed (handle_connect_err err d))" "driver_inv (connect_failed (handle_connect_canceled d))" for err
      using d open_at At_Connecting by (simp_all add: handle_connect_err_def handle_connect_canceled_def driver_live_open)
    then show ?thesis using assms connect_finish_inv connecting_control_inv At_Connecting
      by (cases i) (simp_all add: driver_step_def c)
  next
    case At_Retry
    then show ?thesis using assms retry_control_inv open_at driver_inv_retry(3)[of d]
      by (cases i) (simp_all add: driver_step_def c)
  next
    case At_Driving
    have "driver_inv (At_Driving, snd (call_server env Call_WorldSnapshot d))"
      using assms At_Driving by (simp add: c call_server_def driver_inv_driving driver_live_def)
    then show ?thesis using assms driving_control_inv driving_ended_inv handle_server_msg_inv open_at At_Driving
      by (cases i) (simp_all add: driver_step_def c)
  next
    case At_Finished
    then show ?thesis using assms by (simp add: driver_step_def c)
  qed
qed

lemma driver_new_open:
  "driver_core (driver_new path tap dump perms)" "driver_live (driver_new path tap dump perms)"
  "\<not> server_connected (cd_health (driver_new path tap dump perms))"
  by (simp_all add: driver_new_def Let_def driver_live_def health_ok_def health_connecting_def
      runtime_health_default_def rh_phase_def server_connected_def is_shutting_down_def)

lemma driver_steps_inv: "driver_inv c \<Longrightarrow> driver_inv (fold (driver_step env) inputs c)"
  by (induction inputs arbitrary: c) (simp_all add: driver_step_inv)

lemma driver_run_inv: "driver_inv (driver_run env inputs (driver_new path tap dump perms))"
  unfolding driver_run_def by (intro driver_steps_inv run_top_inv driver_new_open)

lemma driver_finished: "fold (driver_step env) inputs (At_Finished, d) = (At_Finished, d)"
  by (induction inputs) (simp_all add: driver_step_def)

text \<open>
  C12: Shutdown is clean from everywhere.  In every state the driver can reach
  (connecting, waiting to retry, or connected), for every behaviour of the server
  and of the permission checks, a shutdown control finishes the driver at once: the
  UI is sent the closing health and then exactly one shutdown command, as the last
  event; the server is asked to stop exactly when a connection is open, and no call
  follows; and nothing that arrives later has any effect.
\<close>
theorem driver_shutdown_clean:
  assumes reach: "driver_run env inputs (driver_new path tap dump perms) = (at, d)" and live: "at \<noteq> At_Finished"
  shows "\<exists>d'. driver_step env (In_Control CM_Shutdown) (at, d) = (At_Finished, d')
    \<and> cd_ui d' = cd_ui d @ [UE_Command (SetRuntimeHealth (health_begin_shutdown (cd_health d))), UE_Command UiShutdown]
    \<and> UE_Command UiShutdown \<notin> set (cd_ui d)
    \<and> cd_calls d' = cd_calls d @ (if at = At_Driving then [Call_Shutdown] else [])
    \<and> Call_Shutdown \<notin> set (cd_calls d)
    \<and> fold (driver_step env) later (At_Finished, d') = (At_Finished, d')"
proof -
  have inv: "driver_core d" "driver_live d"
    using driver_run_inv[of env inputs path tap dump perms] live unfolding reach by (auto simp: driver_inv_def)
  let ?b = "begin_shutdown d"
  have b: "driver_closing ?b" "driver_closing (snd (call_server env Call_Shutdown ?b))"
    using begin_shutdown_closing[OF inv] driver_closing_call[of ?b env] inv(2) by (simp_all add: driver_live_def)
  have step: "driver_step env (In_Control CM_Shutdown) (at, d)
    = (At_Finished, finish_shutdown (if at = At_Driving then snd (call_server env Call_Shutdown ?b) else ?b))"
    using live b driver_closing_exit(2) driver_closing_top
    by (cases at) (simp_all add: driver_step_def connecting_control_def retry_control_def driving_control_def
        driving_ended_def route_control_msg_def Let_def driver_closing_def)
  show ?thesis
    using inv(2) unfolding step
    by (simp add: driver_finished driver_live_def begin_shutdown_def finish_shutdown_def sink_command_def call_server_def)
qed

text \<open>A sample environment: every call succeeds, and every check sees all permissions.\<close>

definition all_granted :: capabilities where
  "all_granted = \<lparr>cap_accessibility = Perm_Granted, cap_input_monitoring = Perm_Granted,
     cap_screen_recording = Perm_Granted\<rparr>"

definition kind_env :: driver_env where
  "kind_env = \<lparr>de_permissions = (\<lambda>_. all_granted), de_reply = (\<lambda>_ _. None), de_bindings = (\<lambda>_. [])\<rparr>"

lemma all_granted_observed [simp]: "observed_permissions_granted all_granted"
  by (simp add: all_granted_def observed_permissions_granted_def is_granted_def)

lemma kind_env_check:
  assumes "cd_permission_override d = None" "rh_permissions (cd_health d) = all_granted"
  shows "event_tap_permissions_missing kind_env d = (False, d\<lparr>cd_checks := cd_checks d + 1\<rparr>)"
  using assms by (simp add: event_tap_permissions_missing_def check_permissions_def kind_env_def
      note_permissions_def required_permissions_granted_def)

text \<open>The driver on the way to its first connection in that environment.\<close>

definition sample_connecting :: conn_driver where
  "sample_connecting = mark_connecting ((driver_new ''c'' True False all_granted)\<lparr>cd_checks := 1\<rparr>)"

lemma sample_driver_start: "driver_run kind_env [] (driver_new ''c'' True False all_granted) = (At_Connecting, sample_connecting)"
proof -
  let ?d = "driver_new ''c'' True False all_granted"
  have d: "cd_permission_override ?d = None" "rh_permissions (cd_health ?d) = all_granted" "cd_checks ?d = 0"
    by (simp_all add: driver_new_def Let_def publish_health_def sink_command_def emit_def)
  have "\<not> is_shutting_down (cd_health ?d)" using driver_live_open[OF driver_new_open(2)] .
  then show ?thesis using d by (simp add: driver_run_def run_top_def kind_env_check sample_connecting_def)
qed

lemma driver_shutdown_clean_witness:
  "\<exists>d'. driver_step kind_env (In_Control CM_Shutdown) (At_Connecting, sample_connecting) = (At_Finished, d')
    \<and> cd_ui d' = cd_ui sample_connecting
        @ [UE_Command (SetRuntimeHealth (health_begin_shutdown (cd_health sample_connecting))), UE_Command UiShutdown]
    \<and> cd_calls d' = cd_calls sample_connecting"
  using driver_shutdown_clean[OF sample_driver_start driver_at.distinct(5), where later = "[]"] by auto

text \<open>
  C15: The health the user sees is the health of the driver.  Whatever the server,
  the permission checks and the controls do, and wherever the driver stands: the
  last health snapshot sent to the UI is the current one; it says connected exactly
  while the driver holds a connection; and the driver is ready or spawns a server
  only when the permissions it last observed suffice for the server's event tap.
\<close>
theorem driver_health_truthful:
  assumes "driver_run env inputs (driver_new path tap dump perms) = (at, d)"
  shows "shown_health (cd_ui d) = Some (cd_health d)
    \<and> (server_connected (cd_health d) \<longleftrightarrow> at = At_Driving)
    \<and> (is_shutting_down (cd_health d) \<longleftrightarrow> UE_Command UiShutdown \<in> set (cd_ui d))
    \<and> (rh_phase (cd_health d) = RP_Ready \<or> at = At_Connecting
        \<longrightarrow> required_permissions_granted d (rh_permissions (cd_health d)))"
proof -
  have inv: "driver_inv (at, d)" using driver_run_inv[of env inputs path tap dump perms] unfolding assms .
  then show ?thesis
    by (auto simp: driver_inv_def driver_core_def health_ok_def driver_live_def driver_closed_def)
qed

lemma driver_health_truthful_witness:
  "shown_health (cd_ui sample_connecting) = Some (cd_health sample_connecting)
    \<and> required_permissions_granted sample_connecting (rh_permissions (cd_health sample_connecting))"
  using driver_health_truthful[OF sample_driver_start] by simp

subsection \<open>Queued controls\<close>

fun control_calls :: "string \<Rightarrow> server_control \<Rightarrow> server_call list" where
  "control_calls path SC_Reload = [Call_SetConfigPath path, Call_GetBindings]"
| "control_calls path (SC_InjectKey ident report) = [Call_InjectDown ident, Call_InjectUp ident]"

text \<open>The environment of a working connection: permissions are granted and calls succeed.\<close>

definition env_works :: "driver_env \<Rightarrow> bool" where
  "env_works env \<longleftrightarrow> (\<forall>n. observed_permissions_granted (de_permissions env n)) \<and> (\<forall>n c. de_reply env n c = None)"

definition override_passes :: "conn_driver \<Rightarrow> bool" where
  "override_passes d \<longleftrightarrow> (\<forall>p. cd_permission_override d = Some p \<longrightarrow> required_permissions_granted d p)"

text \<open>A step that made the calls \<open>cs\<close> and left path, tap switch, queue and override alone.\<close>

definition called :: "server_call list \<Rightarrow> conn_driver \<Rightarrow> conn_driver \<Rightarrow> bool" where
  "called cs d d' \<longleftrightarrow>
     cd_calls d' = cd_calls d @ cs \<and> cd_config_path d' = cd_config_path d \<and> cd_pending d' = cd_pending d
     \<and> cd_event_tap_enabled d' = cd_event_tap_enabled d \<and> cd_permission_override d' = cd_permission_override d"

lemma called_trans: "called cs d d1 \<Longrightarrow> called ds d1 d2 \<Longrightarrow> called (cs @ ds) d d2"
  by (simp add: called_def)

lemma called_override: "called cs d d' \<Longrightarrow> override_passes d' = override_passes d"
  by (simp add: called_def override_passes_def required_permissions_granted_def)

lemma event_tap_permissions_pass:
  assumes "env_works env" "override_passes d"
  obtains d' where "event_tap_permissions_missing env d = (False, d')" "called [] d d'"
proof (cases "cd_permission_override d")
  case None
  then show thesis using assms that
    by (simp add: event_tap_permissions_missing_def check_permissions_def env_works_def called_def
        required_permissions_granted_def)
next
  case (Some p)
  then show thesis using assms that
    by (simp add: event_tap_permissions_missing_def override_passes_def called_def required_permissions_granted_def)
qed

lemma activate_config_works:
  assumes "env_works env"
  obtains d' where "activate_config env d = (None, d')" "called [Call_SetConfigPath (cd_config_path d)] d d'"
  using assms that
  by (simp add: activate_config_def call_server_def env_works_def called_def mark_ready_def)

lemma refresh_server_bindings_works:
  "env_works env \<Longrightarrow> called [Call_GetBindings] d (refresh_server_bindings env d)"
  by (simp add: refresh_server_bindings_def call_server_def env_works_def called_def Let_def)

lemma reload_config_works:
  assumes "env_works env"
  shows "called [Call_SetConfigPath (cd_config_path d), Call_GetBindings] d (reload_config env d)"
proof -
  let ?d1 = "publish_health (set_health (health_start_config_reload (cd_config_path d)) d)"
  obtain d2 where a: "activate_config env ?d1 = (None, d2)" "called [Call_SetConfigPath (cd_config_path ?d1)] ?d1 d2"
    using activate_config_works[OF assms] .
  let ?d3 = "notify_local NK_Success ''Config reloaded'' ''The new configuration is active.'' d2"
  have "called [Call_SetConfigPath (cd_config_path d)] d ?d3" using a(2) by (simp add: called_def)
  from called_trans[OF this refresh_server_bindings_works[OF assms]]
  show ?thesis using a(1) by (simp add: reload_config_def)
qed

lemma handle_server_control_works:
  assumes "env_works env" "override_passes d"
  shows "called (control_calls (cd_config_path d) c) d (handle_server_control env c d)"
proof (cases c)
  case SC_Reload
  obtain d1 where e: "event_tap_permissions_missing env d = (False, d1)" "called [] d d1"
    using event_tap_permissions_pass[OF assms] .
  show ?thesis using called_trans[OF e(2) reload_config_works[OF assms(1)]] e SC_Reload by (simp add: called_def)
next
  case (SC_InjectKey ident report)
  then show ?thesis using assms(1) by (simp add: inject_key_def call_server_def env_works_def called_def)
qed

lemma server_controls_work:
  assumes "env_works env" "override_passes d"
  shows "called (concat (map (control_calls (cd_config_path d)) cs)) d (fold (handle_server_control env) cs d)"
  using assms(2)
proof (induction cs arbitrary: d)
  case Nil
  then show ?case by (simp add: called_def)
next
  case (Cons c cs)
  note h = handle_server_control_works[OF assms(1) Cons.prems, of c]
  note t = Cons.IH[unfolded called_override[OF h, symmetric], of "handle_server_control env c d"]
  show ?case using called_trans[OF h t] h Cons.prems called_override[OF h] by (simp add: called_def)
qed

lemma connecting_server_control:
  assumes "control_route_from_msg msg = Route_Server c"
  shows "driver_step env (In_Control msg) (At_Connecting, d)
    = (At_Connecting, publish_health (set_health (health_queue_reconnect (cd_config_path d))
         (d\<lparr>cd_pending := cd_pending d @ [c]\<rparr>)))"
  using assms by (simp add: driver_step_def connecting_control_def route_control_msg_def)

lemma connecting_server_controls:
  assumes "map control_route_from_msg msgs = map Route_Server cs"
  obtains d' where "fold (driver_step env) (map In_Control msgs) (At_Connecting, d) = (At_Connecting, d')"
    "called [] (d\<lparr>cd_pending := cd_pending d @ cs\<rparr>) d'"
proof -
  have "\<exists>d'. fold (driver_step env) (map In_Control msgs) (At_Connecting, d) = (At_Connecting, d')
    \<and> called [] (d\<lparr>cd_pending := cd_pending d @ cs\<rparr>) d'"
    using assms
  proof (induction msgs arbitrary: cs d)
    case Nil
    then show ?case by (simp add: called_def)
  next
    case (Cons m msgs)
    then obtain c cs' where cs: "cs = c # cs'" "control_route_from_msg m = Route_Server c"
      "map control_route_from_msg msgs = map Route_Server cs'" by auto
    let ?d1 = "publish_health (set_health (health_queue_reconnect (cd_config_path d)) (d\<lparr>cd_pending := cd_pending d @ [c]\<rparr>))"
    obtain d' where d': "fold (driver_step env) (map In_Control msgs) (At_Connecting, ?d1) = (At_Connecting, d')"
      "called [] (?d1\<lparr>cd_pending := cd_pending ?d1 @ cs'\<rparr>) d'" using Cons.IH[OF cs(3)] by blast
    then show ?case using cs(1) connecting_server_control[OF cs(2)] by (simp add: called_def)
  qed
  then show thesis using that by blast
qed

lemma connect_finish_works:
  assumes "env_works env" "override_passes d"
  shows "\<exists>d'. connect_finish env True d = (At_Driving, d') \<and> cd_pending d' = []
    \<and> cd_calls d' = cd_calls d @ [Call_SetConfigPath (cd_config_path d), Call_GetBindings]
        @ concat (map (control_calls (cd_config_path d)) (cd_pending d))"
proof -
  obtain d1 where e: "event_tap_permissions_missing env d = (False, d1)" "called [] d d1"
    using event_tap_permissions_pass[OF assms] .
  obtain d2 where a: "activate_config env d1 = (None, d2)" "called [Call_SetConfigPath (cd_config_path d1)] d1 d2"
    using activate_config_works[OF assms(1)] .
  note r = called_trans[OF e(2) called_trans[OF a(2) refresh_server_bindings_works[OF assms(1)]]]
  let ?d3 = "refresh_server_bindings env d2"
  have "override_passes (?d3\<lparr>cd_pending := []\<rparr>)"
    using assms(2) called_override[OF r] by (simp add: override_passes_def)
  from server_controls_work[OF assms(1) this, of "cd_pending ?d3"] show ?thesis
    using r e a by (simp add: connect_finish_def drain_pending_controls_def called_def)
qed

text \<open>
  Controls given before the connection is up are neither lost nor reordered.
  From any reachable connecting state, let reload and key-injection controls arrive
  and the connection then succeed; where permissions are granted and the server
  answers, the driver activates the configuration first and then performs every
  queued control, oldest first (those queued before included), and nothing else,
  and leaves the queue empty.
\<close>
theorem queued_controls_in_order:
  assumes reach: "driver_run env inputs (driver_new path tap dump perms) = (At_Connecting, d)"
    and works: "env_works env" and msgs: "map control_route_from_msg msgs = map Route_Server cs"
  shows "\<exists>d'. fold (driver_step env) (map In_Control msgs @ [In_ConnectOk True]) (At_Connecting, d) = (At_Driving, d')
    \<and> cd_pending d' = []
    \<and> cd_calls d' = cd_calls d @ [Call_SetConfigPath (cd_config_path d), Call_GetBindings]
        @ concat (map (control_calls (cd_config_path d)) (cd_pending d @ cs))"
proof -
  have "driver_inv (At_Connecting, d)" using driver_run_inv[of env inputs path tap dump perms] unfolding reach .
  then have o: "override_passes d" by (auto simp: driver_inv_def driver_core_def health_ok_def override_passes_def)
  obtain d1 where d1: "fold (driver_step env) (map In_Control msgs) (At_Connecting, d) = (At_Connecting, d1)"
    "called [] (d\<lparr>cd_pending := cd_pending d @ cs\<rparr>) d1" using connecting_server_controls[OF msgs] .
  have "override_passes d1" using o called_override[OF d1(2)] by (simp add: override_passes_def)
  from connect_finish_works[OF works this] d1 show ?thesis by (simp add: driver_step_def called_def)
qed

lemma queued_controls_in_order_witness:
  "\<exists>d'. fold (driver_step kind_env)
      (map In_Control [CM_InjectKey ''a'' False, CM_Reload] @ [In_ConnectOk True]) (At_Connecting, sample_connecting)
      = (At_Driving, d')
    \<and> cd_pending d' = []
    \<and> cd_calls d' = [Call_SetConfigPath ''c'', Call_GetBindings, Call_InjectDown ''a'', Call_InjectUp ''a'',
        Call_SetConfigPath ''c'', Call_GetBindings]"
proof -
  have "cd_calls sample_connecting = []" "cd_pending sample_connecting = []" "cd_config_path sample_connecting = ''c''"
    by (simp_all add: sample_connecting_def mark_connecting_def driver_new_def Let_def)
  moreover have "env_works kind_env" by (simp add: env_works_def kind_env_def)
  ultimately show ?thesis
    using queued_controls_in_order[OF sample_driver_start, where msgs = "[CM_InjectKey ''a'' False, CM_Reload]"
        and cs = "[SC_InjectKey ''a'' False, SC_Reload]"] by simp
qed

text \<open>
  A rejected configuration shown as running.  The server rejects every
  configuration.  While the rejection is shown, a reload finds the permissions
  missing, which turns the health from rejected into blocked on permissions (and
  drops the reload); once the permissions are back the driver reports the
  configuration as running.
\<close>

definition rejecting_env :: driver_env where
  "rejecting_env =
     \<lparr>de_permissions = (\<lambda>n. if n = 2 then capabilities_default else all_granted),
      de_reply = (\<lambda>_ c. case c of Call_SetConfigPath _ \<Rightarrow> Some ''bad'' | _ \<Rightarrow> None), de_bindings = (\<lambda>_. [])\<rparr>"

lemma rejected_config_shown_running:
  "(case driver_run rejecting_env
      [In_ConnectOk True, In_Control CM_Reload,
       In_Control (CM_PermissionsChanged (observation_system all_granted))]
      (driver_new ''c'' True False all_granted) of
    (at, d) \<Rightarrow> (at, rh_state (cd_health d), cd_calls d))
   = (At_Driving, RS_Running ''c'', [Call_SetConfigPath ''c''])"
  by code_simp

end
