(* ===== verification/Style_Overlay.thy ===== *)
theory Style_Overlay
  imports World_State
begin

text \<open>
  Style overlays of \<open>config\<close> (\<open>raw.rs\<close>, \<open>style.rs\<close>): the optional fields a
  \<open>style.luau\<close> may set, their validation, and their resolution over a base style.
  Reading and running a style file is a parameter, its outcome a value; so is the
  colour parser of the \<open>colornames\<close> crate.  The style types are those of
  \<open>Protocol_Types\<close>.
\<close>

subsection \<open>Comparing floats\<close>

definition f32_finite :: "f32 \<Rightarrow> bool" where
  "f32_finite x \<longleftrightarrow> x AND 0x7F800000 \<noteq> 0x7F800000"

text \<open>The order of the finite floats, as integers.\<close>

definition f32_rank :: "f32 \<Rightarrow> int" where
  "f32_rank x = (if bit x 31 then - uint (x AND 0x7FFFFFFF) else uint x)"

definition f32_le :: "f32 \<Rightarrow> f32 \<Rightarrow> bool" where
  "f32_le x y \<longleftrightarrow> \<not> f32_nan x \<and> \<not> f32_nan y \<and> f32_rank x \<le> f32_rank y"

subsection \<open>Raw values\<close>

record raw_notify_style =
  rns_bg :: "string option"
  rns_title_fg :: "string option"
  rns_body_fg :: "string option"
  rns_title_font_size :: "f32 option"
  rns_title_font_weight :: "font_weight option"
  rns_body_font_size :: "f32 option"
  rns_body_font_weight :: "font_weight option"
  rns_icon :: "glyphs option"

record raw_notify =
  rn_width :: "f32 option"
  rn_pos :: "notify_pos option"
  rn_opacity :: "f32 option"
  rn_timeout :: "f32 option"
  rn_buffer :: "64 word option"
  rn_radius :: "f32 option"
  rn_info :: "raw_notify_style option"
  rn_warn :: "raw_notify_style option"
  rn_error :: "raw_notify_style option"
  rn_success :: "raw_notify_style option"

record raw_hud_pressed =
  rp_min_duration_ms :: "64 word option"
  rp_bg :: "string option"
  rp_title_fg :: "string option"
  rp_key_fg :: "string option"
  rp_key_bg :: "string option"
  rp_mod_fg :: "string option"
  rp_mod_bg :: "string option"
  rp_tag_fg :: "string option"

record raw_hud =
  rh_mode :: "hud_mode option"
  rh_pos :: "hud_pos option"
  rh_offset :: "offset option"
  rh_font_size :: "f32 option"
  rh_title_font_weight :: "font_weight option"
  rh_key_font_size :: "f32 option"
  rh_key_font_weight :: "font_weight option"
  rh_tag_font_size :: "f32 option"
  rh_tag_font_weight :: "font_weight option"
  rh_title_fg :: "string option"
  rh_bg :: "string option"
  rh_key_fg :: "string option"
  rh_key_bg :: "string option"
  rh_mod_fg :: "string option"
  rh_mod_font_weight :: "font_weight option"
  rh_mod_bg :: "string option"
  rh_tag_fg :: "string option"
  rh_opacity :: "f32 option"
  rh_key_radius :: "f32 option"
  rh_key_pad_x :: "f32 option"
  rh_key_pad_y :: "f32 option"
  rh_radius :: "f32 option"
  rh_tag_submenu :: "glyphs option"
  rh_pressed :: "raw_hud_pressed option"

record raw_selector =
  rs_bg :: "string option"
  rs_input_bg :: "string option"
  rs_item_bg :: "string option"
  rs_item_selected_bg :: "string option"
  rs_match_fg :: "string option"
  rs_border :: "string option"
  rs_shadow :: "string option"

record raw_style =
  raw_style_hud :: "raw_hud option"
  raw_style_notify :: "raw_notify option"
  raw_style_selector :: "raw_selector option"

subsection \<open>Resolution\<close>

definition or_base :: "'a option \<Rightarrow> 'a \<Rightarrow> 'a" where
  "or_base x base = (case x of Some v \<Rightarrow> v | None \<Rightarrow> base)"

definition color_or :: "(string \<Rightarrow> rgb option) \<Rightarrow> string option \<Rightarrow> rgb \<Rightarrow> rgb" where
  "color_or parse_rgb src base =
     (case src of
        Some s \<Rightarrow> (case parse_rgb s of Some c \<Rightarrow> c | None \<Rightarrow> base)
      | None \<Rightarrow> base)"

definition into_notify_style ::
  "(string \<Rightarrow> rgb option) \<Rightarrow> raw_notify_style \<Rightarrow> notify_window_style \<Rightarrow> notify_window_style" where
  "into_notify_style parse_rgb r d =
     \<lparr>nws_bg = color_or parse_rgb (rns_bg r) (nws_bg d),
      nws_title_fg = color_or parse_rgb (rns_title_fg r) (nws_title_fg d),
      nws_body_fg = color_or parse_rgb (rns_body_fg r) (nws_body_fg d),
      nws_title_font_size = or_base (rns_title_font_size r) (nws_title_font_size d),
      nws_title_font_weight = or_base (rns_title_font_weight r) (nws_title_font_weight d),
      nws_body_font_size = or_base (rns_body_font_size r) (nws_body_font_size d),
      nws_body_font_weight = or_base (rns_body_font_weight r) (nws_body_font_weight d),
      nws_icon = (case rns_icon r of Some i \<Rightarrow> Some i | None \<Rightarrow> nws_icon d)\<rparr>"

definition notify_style_over ::
  "(string \<Rightarrow> rgb option) \<Rightarrow> raw_notify_style option \<Rightarrow> notify_window_style \<Rightarrow> notify_window_style" where
  "notify_style_over parse_rgb r d =
     (case r of Some s \<Rightarrow> into_notify_style parse_rgb s d | None \<Rightarrow> d)"

definition into_notify_over :: "(string \<Rightarrow> rgb option) \<Rightarrow> raw_notify \<Rightarrow> notify_config \<Rightarrow> notify_config" where
  "into_notify_over parse_rgb r d =
     \<lparr>nc_width = or_base (rn_width r) (nc_width d), nc_pos = or_base (rn_pos r) (nc_pos d),
      nc_opacity = or_base (rn_opacity r) (nc_opacity d), nc_timeout = or_base (rn_timeout r) (nc_timeout d),
      nc_buffer = or_base (rn_buffer r) (nc_buffer d), nc_radius = or_base (rn_radius r) (nc_radius d),
      nc_theme =
        \<lparr>theme_info = notify_style_over parse_rgb (rn_info r) (theme_info (nc_theme d)),
         theme_warn = notify_style_over parse_rgb (rn_warn r) (theme_warn (nc_theme d)),
         theme_error = notify_style_over parse_rgb (rn_error r) (theme_error (nc_theme d)),
         theme_success = notify_style_over parse_rgb (rn_success r) (theme_success (nc_theme d))\<rparr>\<rparr>"

definition into_pressed_over ::
  "(string \<Rightarrow> rgb option) \<Rightarrow> raw_hud_pressed \<Rightarrow> hud_pressed_style \<Rightarrow> hud_pressed_style" where
  "into_pressed_over parse_rgb r base =
     \<lparr>hp_min_duration_ms = or_base (rp_min_duration_ms r) (hp_min_duration_ms base),
      hp_bg = color_or parse_rgb (rp_bg r) (hp_bg base),
      hp_title_fg = color_or parse_rgb (rp_title_fg r) (hp_title_fg base),
      hp_key_fg = color_or parse_rgb (rp_key_fg r) (hp_key_fg base),
      hp_key_bg = color_or parse_rgb (rp_key_bg r) (hp_key_bg base),
      hp_mod_fg = color_or parse_rgb (rp_mod_fg r) (hp_mod_fg base),
      hp_mod_bg = color_or parse_rgb (rp_mod_bg r) (hp_mod_bg base),
      hp_tag_fg = color_or parse_rgb (rp_tag_fg r) (hp_tag_fg base)\<rparr>"

definition into_hud_over :: "(string \<Rightarrow> rgb option) \<Rightarrow> raw_hud \<Rightarrow> hud_style \<Rightarrow> hud_style" where
  "into_hud_over parse_rgb r d =
     (let font_size = or_base (rh_font_size r) (hs_font_size d)
      in \<lparr>hs_mode = or_base (rh_mode r) (hs_mode d), hs_pos = or_base (rh_pos r) (hs_pos d),
          hs_offset = or_base (rh_offset r) (hs_offset d), hs_font_size = font_size,
          hs_title_font_weight = or_base (rh_title_font_weight r) (hs_title_font_weight d),
          hs_key_font_size = or_base (rh_key_font_size r) font_size,
          hs_key_font_weight = or_base (rh_key_font_weight r) (hs_key_font_weight d),
          hs_tag_font_size = or_base (rh_tag_font_size r) font_size,
          hs_tag_font_weight = or_base (rh_tag_font_weight r) (hs_tag_font_weight d),
          hs_title_fg = color_or parse_rgb (rh_title_fg r) (hs_title_fg d),
          hs_bg = color_or parse_rgb (rh_bg r) (hs_bg d),
          hs_key_fg = color_or parse_rgb (rh_key_fg r) (hs_key_fg d),
          hs_key_bg = color_or parse_rgb (rh_key_bg r) (hs_key_bg d),
          hs_mod_fg = color_or parse_rgb (rh_mod_fg r) (hs_mod_fg d),
          hs_mod_font_weight = or_base (rh_mod_font_weight r) (hs_mod_font_weight d),
          hs_mod_bg = color_or parse_rgb (rh_mod_bg r) (hs_mod_bg d),
          hs_tag_fg = color_or parse_rgb (rh_tag_fg r) (hs_tag_fg d),
          hs_opacity = or_base (rh_opacity r) (hs_opacity d),
          hs_key_radius = or_base (rh_key_radius r) (hs_key_radius d),
          hs_key_pad_x = or_base (rh_key_pad_x r) (hs_key_pad_x d),
          hs_key_pad_y = or_base (rh_key_pad_y r) (hs_key_pad_y d),
          hs_radius = or_base (rh_radius r) (hs_radius d),
          hs_tag_submenu = or_base (rh_tag_submenu r) (hs_tag_submenu d),
          hs_pressed =
            (case rh_pressed r of
               Some p \<Rightarrow> into_pressed_over parse_rgb p (hs_pressed d) | None \<Rightarrow> hs_pressed d)\<rparr>)"

definition into_selector_over :: "(string \<Rightarrow> rgb option) \<Rightarrow> raw_selector \<Rightarrow> selector_style \<Rightarrow> selector_style" where
  "into_selector_over parse_rgb r base =
     \<lparr>ss_bg = color_or parse_rgb (rs_bg r) (ss_bg base),
      ss_input_bg = color_or parse_rgb (rs_input_bg r) (ss_input_bg base),
      ss_item_bg = color_or parse_rgb (rs_item_bg r) (ss_item_bg base),
      ss_item_selected_bg = color_or parse_rgb (rs_item_selected_bg r) (ss_item_selected_bg base),
      ss_match_fg = color_or parse_rgb (rs_match_fg r) (ss_match_fg base),
      ss_border = color_or parse_rgb (rs_border r) (ss_border base),
      ss_shadow = color_or parse_rgb (rs_shadow r) (ss_shadow base)\<rparr>"

definition overlay_raw :: "(string \<Rightarrow> rgb option) \<Rightarrow> ui_style \<Rightarrow> raw_style \<Rightarrow> ui_style" where
  "overlay_raw parse_rgb style r =
     \<lparr>style_hud = (case raw_style_hud r of
         Some h \<Rightarrow> into_hud_over parse_rgb h (style_hud style) | None \<Rightarrow> style_hud style),
      style_notify = (case raw_style_notify r of
         Some n \<Rightarrow> into_notify_over parse_rgb n (style_notify style) | None \<Rightarrow> style_notify style),
      style_selector = (case raw_style_selector r of
         Some s \<Rightarrow> into_selector_over parse_rgb s (style_selector style) | None \<Rightarrow> style_selector style)\<rparr>"

subsection \<open>Validation\<close>

definition NOTIFY_TIMEOUT_MIN_SECS :: f32 where "NOTIFY_TIMEOUT_MIN_SECS = 0x3DCCCCCD"
definition NOTIFY_TIMEOUT_MAX_SECS :: f32 where "NOTIFY_TIMEOUT_MAX_SECS = 0x45610000"
definition HUD_PRESSED_MAX_DURATION_MS :: "64 word" where "HUD_PRESSED_MAX_DURATION_MS = 2000"

definition validate_notify_timeout :: "f32 \<Rightarrow> string + unit" where
  "validate_notify_timeout timeout =
     (if \<not> f32_finite timeout then Err ''notify.timeout must be finite''
      else if \<not> (f32_le NOTIFY_TIMEOUT_MIN_SECS timeout \<and> f32_le timeout NOTIFY_TIMEOUT_MAX_SECS)
      then Err ''notify.timeout must be between 0.1 and 3600 seconds''
      else Ok ())"

definition raw_notify_validate :: "raw_notify \<Rightarrow> string + unit" where
  "raw_notify_validate r = (case rn_timeout r of Some t \<Rightarrow> validate_notify_timeout t | None \<Rightarrow> Ok ())"

definition raw_pressed_validate :: "raw_hud_pressed \<Rightarrow> string + unit" where
  "raw_pressed_validate r =
     (case rp_min_duration_ms r of
        Some d \<Rightarrow>
          if HUD_PRESSED_MAX_DURATION_MS < d
          then Err ''hud.pressed.min_duration_ms must be between 0 and 2000'' else Ok ()
      | None \<Rightarrow> Ok ())"

definition raw_hud_validate :: "raw_hud \<Rightarrow> string + unit" where
  "raw_hud_validate r = (case rh_pressed r of Some p \<Rightarrow> raw_pressed_validate p | None \<Rightarrow> Ok ())"

definition raw_style_validate :: "raw_style \<Rightarrow> string + unit" where
  "raw_style_validate r =
     (case (case raw_style_hud r of Some h \<Rightarrow> raw_hud_validate h | None \<Rightarrow> Ok ()) of
        Inl e \<Rightarrow> Err e
      | Inr _ \<Rightarrow> (case raw_style_notify r of Some n \<Rightarrow> raw_notify_validate n | None \<Rightarrow> Ok ()))"

subsection \<open>Style candidates\<close>

datatype style_provenance = DefaultOnly | Override string

record resolved_style =
  rst_style :: ui_style
  rst_provenance :: style_provenance

datatype style_read = Style_NotFound | Style_ReadError string | Style_Source string

record style_candidate =
  sc_default :: ui_style
  sc_override_source :: "(string \<times> string) option"

text \<open>\<open>read\<close> is the outcome of reading the override path, when there is one.\<close>

definition read_candidate ::
  "ui_style \<Rightarrow> string option \<Rightarrow> (string \<Rightarrow> style_read) \<Rightarrow> string + style_candidate" where
  "read_candidate base override_path read =
     (case override_path of
        None \<Rightarrow> Ok \<lparr>sc_default = base, sc_override_source = None\<rparr>
      | Some path \<Rightarrow>
          (case read path of
             Style_Source source \<Rightarrow> Ok \<lparr>sc_default = base, sc_override_source = Some (path, source)\<rparr>
           | Style_NotFound \<Rightarrow> Ok \<lparr>sc_default = base, sc_override_source = None\<rparr>
           | Style_ReadError message \<Rightarrow> Err message))"

text \<open>
  \<open>run\<close> decodes the table that a source evaluates to; a decoded table is validated.
  \<open>canonical\<close> resolves a path that exists.
\<close>

definition eval_style_source :: "(string \<Rightarrow> string \<Rightarrow> string + raw_style) \<Rightarrow> string \<Rightarrow> string \<Rightarrow> string + raw_style" where
  "eval_style_source run source path =
     (case run source path of
        Inl e \<Rightarrow> Err e
      | Inr style \<Rightarrow>
          (case raw_style_validate style of
             Inl message \<Rightarrow> Err (''invalid style table: invalid style: '' @ message)
           | Inr _ \<Rightarrow> Ok style))"

definition style_candidate_resolve ::
  "(string \<Rightarrow> rgb option) \<Rightarrow> (string \<Rightarrow> string \<Rightarrow> string + raw_style) \<Rightarrow> (string \<Rightarrow> string option)
   \<Rightarrow> style_candidate \<Rightarrow> string + resolved_style" where
  "style_candidate_resolve parse_rgb run canonical c =
     (case sc_override_source c of
        None \<Rightarrow> Ok \<lparr>rst_style = sc_default c, rst_provenance = DefaultOnly\<rparr>
      | Some (path, source) \<Rightarrow>
          (case eval_style_source run source path of
             Inl e \<Rightarrow> Err e
           | Inr overlay \<Rightarrow>
               Ok \<lparr>rst_style = overlay_raw parse_rgb (sc_default c) overlay,
                   rst_provenance = Override (case canonical path of Some p \<Rightarrow> p | None \<Rightarrow> path)\<rparr>))"

subsection \<open>Overlays are idempotent and keep the bounds\<close>

lemma or_base_simps [simp]: "or_base None b = b" "or_base (Some v) b = v" "or_base x (or_base x b) = or_base x b"
  by (simp_all add: or_base_def split: option.split)

lemma color_or_idem [simp]: "color_or p x (color_or p x b) = color_or p x b" "color_or p None b = b"
  by (simp_all add: color_or_def split: option.split)

lemma notify_style_over_idem [simp]:
  "notify_style_over p r (notify_style_over p r d) = notify_style_over p r d"
  by (simp add: notify_style_over_def into_notify_style_def split: option.split)

lemma overlay_raw_idem: "overlay_raw p (overlay_raw p s r) r = overlay_raw p s r"
  by (simp add: overlay_raw_def into_hud_over_def into_notify_over_def into_selector_over_def
      into_pressed_over_def Let_def split: option.split)

lemma overlay_raw_none:
  "overlay_raw p s \<lparr>raw_style_hud = None, raw_style_notify = None, raw_style_selector = None\<rparr> = s"
  by (simp add: overlay_raw_def)

definition style_bounded :: "ui_style \<Rightarrow> bool" where
  "style_bounded s \<longleftrightarrow>
     f32_finite (nc_timeout (style_notify s))
     \<and> f32_le NOTIFY_TIMEOUT_MIN_SECS (nc_timeout (style_notify s))
     \<and> f32_le (nc_timeout (style_notify s)) NOTIFY_TIMEOUT_MAX_SECS
     \<and> hp_min_duration_ms (hs_pressed (style_hud s)) \<le> HUD_PRESSED_MAX_DURATION_MS"

lemma style_default_bounded: "style_bounded ui_style_default"
  by code_simp

lemma overlay_raw_bounded:
  assumes "raw_style_validate r = Ok ()" "style_bounded s"
  shows "style_bounded (overlay_raw p s r)"
proof -
  have h: "case raw_style_hud r of Some h \<Rightarrow> raw_hud_validate h = Ok () | None \<Rightarrow> True"
    and n: "case raw_style_notify r of Some n \<Rightarrow> raw_notify_validate n = Ok () | None \<Rightarrow> True"
    using assms(1) by (auto simp: raw_style_validate_def split: option.splits sum.splits)
  have "hp_min_duration_ms (hs_pressed (style_hud (overlay_raw p s r))) \<le> HUD_PRESSED_MAX_DURATION_MS"
    using h assms(2)
    by (auto simp: overlay_raw_def into_hud_over_def into_pressed_over_def Let_def raw_hud_validate_def
        raw_pressed_validate_def style_bounded_def or_base_def not_less split: option.splits if_splits)
  moreover have "f32_finite (nc_timeout (style_notify (overlay_raw p s r)))
    \<and> f32_le NOTIFY_TIMEOUT_MIN_SECS (nc_timeout (style_notify (overlay_raw p s r)))
    \<and> f32_le (nc_timeout (style_notify (overlay_raw p s r))) NOTIFY_TIMEOUT_MAX_SECS"
    using n assms(2)
    by (auto simp: overlay_raw_def into_notify_over_def raw_notify_validate_def validate_notify_timeout_def
        style_bounded_def or_base_def split: option.splits if_splits)
  ultimately show ?thesis by (simp add: style_bounded_def)
qed

lemma resolved_style_bounded:
  assumes "read_candidate base path read = Ok c" "style_candidate_resolve p run canonical c = Ok rs" "style_bounded base"
  shows "style_bounded (rst_style rs)"
  using assms overlay_raw_bounded
  by (fastforce simp: read_candidate_def style_candidate_resolve_def eval_style_source_def
      split: option.splits style_read.splits sum.splits prod.splits)

text \<open>
  An overlay with an empty \<open>hud\<close> table does not keep the current values: the key and
  tag fonts take the size of the title font.
\<close>

definition raw_hud_empty :: raw_hud where
  "raw_hud_empty =
     \<lparr>rh_mode = None, rh_pos = None, rh_offset = None, rh_font_size = None, rh_title_font_weight = None,
      rh_key_font_size = None, rh_key_font_weight = None, rh_tag_font_size = None, rh_tag_font_weight = None,
      rh_title_fg = None, rh_bg = None, rh_key_fg = None, rh_key_bg = None, rh_mod_fg = None,
      rh_mod_font_weight = None, rh_mod_bg = None, rh_tag_fg = None, rh_opacity = None, rh_key_radius = None,
      rh_key_pad_x = None, rh_key_pad_y = None, rh_radius = None, rh_tag_submenu = None, rh_pressed = None\<rparr>"

lemma empty_hud_overlay:
  "into_hud_over p raw_hud_empty d = d\<lparr>hs_key_font_size := hs_font_size d, hs_tag_font_size := hs_font_size d\<rparr>"
  by (simp add: into_hud_over_def raw_hud_empty_def Let_def)

lemma empty_hud_overlay_resizes:
  "hs_key_font_size (into_hud_over p raw_hud_empty hud_style_default) \<noteq> hs_key_font_size hud_style_default"
  by (simp add: empty_hud_overlay hud_style_default_def)

end
