(* ===== verification/Module_Source.thy ===== *)
theory Module_Source
  imports Hotki_Text
begin

text \<open>
  The module source of a configuration load (\<open>config/src/script/module_source.rs\<close>):
  a cache in front of the file system that first records a module graph, then admits
  only the modules of the checked graph, and finally, once the entry module has run,
  serves no source at all.  Resolutions and reads are futures: the admission check runs
  when a request is made, and the result of the file system arrives later, when the
  phase may be another one.  A module id, a request and a source are byte strings.
\<close>

subsection \<open>The graph state\<close>

datatype source_error = Source_Other string | Source_Delegate string

datatype graph_phase = Building | Allowed "string set" | Sealed

type_synonym resolution_key = "string option \<times> string"

record graph_state =
  gs_resolutions :: "resolution_key \<Rightarrow> string option"
  gs_bytes :: "string \<Rightarrow> string option"
  gs_phase :: graph_phase

definition graph_state_default :: graph_state where
  "graph_state_default = \<lparr>gs_resolutions = (\<lambda>_. None), gs_bytes = (\<lambda>_. None), gs_phase = Building\<rparr>"

definition sealed_error :: source_error where
  "sealed_error = Source_Other ''module source is sealed after config entry evaluation''"

definition outside_graph_error :: "string \<Rightarrow> source_error" where
  "outside_graph_error i =
     Source_Other (''module '' @ [CHR 0x27] @ i @ [CHR 0x27] @ '' is outside the checked config graph'')"

text \<open>Installing an allowlist after sealing panics.\<close>

definition install_allowlist :: "string set \<Rightarrow> graph_state \<Rightarrow> graph_state option" where
  "install_allowlist modules g = (if gs_phase g = Sealed then None else Some (g\<lparr>gs_phase := Allowed modules\<rparr>))"

definition graph_seal :: "graph_state \<Rightarrow> graph_state" where
  "graph_seal g = g\<lparr>gs_phase := Sealed\<rparr>"

text \<open>\<open>resolve_request\<close> is the script engine's lexical resolution of a request.\<close>

definition resolve_admission ::
    "(string option \<Rightarrow> string \<Rightarrow> source_error + string) \<Rightarrow> resolution_key \<Rightarrow> string option \<Rightarrow> string
     \<Rightarrow> graph_state \<Rightarrow> source_error + string option" where
  "resolve_admission resolve_request key requester request g =
     (case gs_phase g of
        Building \<Rightarrow> Ok None
      | Allowed allowed \<Rightarrow>
          (case resolve_request requester request of
             Inl e \<Rightarrow> Err e
           | Inr candidate \<Rightarrow> if candidate \<in> allowed then Ok None else Err (outside_graph_error candidate))
      | Sealed \<Rightarrow> (case gs_resolutions g key of Some i \<Rightarrow> Ok (Some i) | None \<Rightarrow> Err sealed_error))"

definition finish_resolution :: "resolution_key \<Rightarrow> string \<Rightarrow> graph_state \<Rightarrow> (source_error + string) \<times> graph_state" where
  "finish_resolution key i g =
     (let admitted = (Ok i, g\<lparr>gs_resolutions := (gs_resolutions g)(key := Some i)\<rparr>) in
      case gs_phase g of
        Building \<Rightarrow> admitted
      | Allowed allowed \<Rightarrow> if i \<in> allowed then admitted else (Err (outside_graph_error i), g)
      | Sealed \<Rightarrow> (Err sealed_error, g))"

definition read_admission :: "string \<Rightarrow> graph_state \<Rightarrow> source_error + string option" where
  "read_admission i g =
     (case gs_phase g of
        Sealed \<Rightarrow> Err sealed_error
      | Allowed allowed \<Rightarrow> if i \<in> allowed then Ok (gs_bytes g i) else Err (outside_graph_error i)
      | Building \<Rightarrow> Ok (gs_bytes g i))"

definition finish_read :: "string \<Rightarrow> string \<Rightarrow> graph_state \<Rightarrow> (source_error + unit) \<times> graph_state" where
  "finish_read i source g =
     (let admitted = (Ok (), g\<lparr>gs_bytes := (gs_bytes g)(i := Some source)\<rparr>) in
      case gs_phase g of
        Building \<Rightarrow> admitted
      | Allowed allowed \<Rightarrow> if i \<in> allowed then admitted else (Err (outside_graph_error i), g)
      | Sealed \<Rightarrow> (Err sealed_error, g))"

subsection \<open>The module source\<close>

text \<open>\<open>String::from_utf8\<close> accepts exactly the well-formed UTF-8 byte sequences.\<close>

definition continuation :: "nat \<Rightarrow> bool" where "continuation b \<longleftrightarrow> 0x80 \<le> b \<and> b \<le> 0xBF"

fun utf8_ok :: "nat list \<Rightarrow> bool" where
  "utf8_ok [] = True"
| "utf8_ok (a # bs) =
     (if a < 0x80 then utf8_ok bs
      else if 0xC2 \<le> a \<and> a \<le> 0xDF then
        (case bs of b # cs \<Rightarrow> continuation b \<and> utf8_ok cs | _ \<Rightarrow> False)
      else if 0xE0 \<le> a \<and> a \<le> 0xEF then
        (case bs of
           b # c # cs \<Rightarrow> continuation b \<and> (a = 0xE0 \<longrightarrow> 0xA0 \<le> b) \<and> (a = 0xED \<longrightarrow> b \<le> 0x9F)
             \<and> continuation c \<and> utf8_ok cs
         | _ \<Rightarrow> False)
      else if 0xF0 \<le> a \<and> a \<le> 0xF4 then
        (case bs of
           b # c # d # cs \<Rightarrow> continuation b \<and> (a = 0xF0 \<longrightarrow> 0x90 \<le> b) \<and> (a = 0xF4 \<longrightarrow> b \<le> 0x8F)
             \<and> continuation c \<and> continuation d \<and> utf8_ok cs
         | _ \<Rightarrow> False)
      else False)"

definition request_is_relative :: "string \<Rightarrow> bool" where
  "request_is_relative request \<longleftrightarrow> starts_with ''./'' request \<or> starts_with ''../'' request"

text \<open>The expansion of a display name; \<open>display\<close> is that of the module, as the file system has it.\<close>

definition source_path :: "string \<Rightarrow> string \<Rightarrow> string" where
  "source_path root_dir display = path_join root_dir display"

record module_source =
  ms_graph_root :: string
  ms_root_dir :: string
  ms_state :: graph_state
  ms_sources :: "string \<Rightarrow> string option"

definition module_source_new :: "string \<Rightarrow> string \<Rightarrow> (string \<Rightarrow> string option) \<Rightarrow> module_source" where
  "module_source_new graph_root root_dir sources =
     \<lparr>ms_graph_root = graph_root, ms_root_dir = root_dir, ms_state = graph_state_default, ms_sources = sources\<rparr>"

text \<open>A call answers at once or waits for the file system.\<close>

datatype 'a started = Ready "source_error + 'a" | Pending

definition source_resolve ::
    "(string option \<Rightarrow> string \<Rightarrow> source_error + string) \<Rightarrow> string option \<Rightarrow> string \<Rightarrow> module_source
     \<Rightarrow> resolution_key \<times> string started" where
  "source_resolve resolve_request requester request m =
     (let from = (case requester of Some r \<Rightarrow> Some r | None \<Rightarrow> Some (ms_graph_root m));
          key = (from, request)
      in if \<not> request_is_relative request
         then (key, Ready (Err (Source_Other (''module request '' @ [CHR 0x27] @ request @ [CHR 0x27]
                 @ '' must begin with ./ or ../''))))
         else (key, case resolve_admission resolve_request key from request (ms_state m) of
                      Inr (Some cached) \<Rightarrow> Ready (Ok cached)
                    | Inr None \<Rightarrow> Pending
                    | Inl e \<Rightarrow> Ready (Err e)))"

definition source_resolved ::
    "resolution_key \<Rightarrow> source_error + string \<Rightarrow> module_source \<Rightarrow> (source_error + string) \<times> module_source" where
  "source_resolved key r m =
     (case r of
        Inl e \<Rightarrow> (Err e, m)
      | Inr i \<Rightarrow> (let (r, g) = finish_resolution key i (ms_state m) in (r, m\<lparr>ms_state := g\<rparr>)))"

definition source_read :: "string \<Rightarrow> module_source \<Rightarrow> string started" where
  "source_read i m =
     (case read_admission i (ms_state m) of
        Inr (Some source) \<Rightarrow> Ready (Ok source)
      | Inr None \<Rightarrow> Pending
      | Inl e \<Rightarrow> Ready (Err e))"

definition source_read_done ::
    "string \<Rightarrow> string \<Rightarrow> source_error + string \<Rightarrow> module_source \<Rightarrow> (source_error + string) \<times> module_source" where
  "source_read_done i path r m =
     (case r of
        Inl e \<Rightarrow> (Err e, m)
      | Inr source \<Rightarrow>
          (case finish_read i source (ms_state m) of
             (Inl e, g) \<Rightarrow> (Err e, m\<lparr>ms_state := g\<rparr>)
           | (Inr _, g) \<Rightarrow>
               (Ok source,
                m\<lparr>ms_state := g,
                  ms_sources := (if utf8_ok (map of_char source)
                                 then (ms_sources m)(path := Some source) else ms_sources m)\<rparr>)))"

subsection \<open>Calls and completions interleaved\<close>

datatype pending_call = Resolving resolution_key | Reading string string

datatype source_input =
    SI_Resolve "string option" string
  | SI_Read string string
  | SI_Complete nat "source_error + string"
  | SI_Allow "string set"
  | SI_Seal

datatype source_answer = Resolved resolution_key "source_error + string" | Sourced string "source_error + string"

text \<open>
  \<open>SI_Read\<close> carries the display name of the module; \<open>SI_Complete\<close> completes one of the
  calls in flight with what the file system returned.
\<close>

record source_system =
  sy_source :: module_source
  sy_pending :: "pending_call list"
  sy_answers :: "source_answer list"

definition answer :: "source_answer \<Rightarrow> source_system \<Rightarrow> source_system" where
  "answer a s = s\<lparr>sy_answers := sy_answers s @ [a]\<rparr>"

definition remove_nth :: "nat \<Rightarrow> 'a list \<Rightarrow> 'a list" where
  "remove_nth k xs = take k xs @ drop (Suc k) xs"

fun source_step ::
    "(string option \<Rightarrow> string \<Rightarrow> source_error + string) \<Rightarrow> source_input \<Rightarrow> source_system \<Rightarrow> source_system" where
  "source_step rr (SI_Resolve requester request) s =
     (case source_resolve rr requester request (sy_source s) of
        (key, Ready r) \<Rightarrow> answer (Resolved key r) s
      | (key, Pending) \<Rightarrow> s\<lparr>sy_pending := sy_pending s @ [Resolving key]\<rparr>)"
| "source_step rr (SI_Read i display) s =
     (case source_read i (sy_source s) of
        Ready r \<Rightarrow> answer (Sourced i r) s
      | Pending \<Rightarrow>
          s\<lparr>sy_pending := sy_pending s @ [Reading i (source_path (ms_root_dir (sy_source s)) display)]\<rparr>)"
| "source_step rr (SI_Complete k r) s =
     (if k < length (sy_pending s) then
        (let s' = s\<lparr>sy_pending := remove_nth k (sy_pending s)\<rparr> in
         case sy_pending s ! k of
           Resolving key \<Rightarrow>
             (let (r, m) = source_resolved key r (sy_source s) in answer (Resolved key r) (s'\<lparr>sy_source := m\<rparr>))
         | Reading i path \<Rightarrow>
             (let (r, m) = source_read_done i path r (sy_source s) in answer (Sourced i r) (s'\<lparr>sy_source := m\<rparr>)))
      else s)"
| "source_step rr (SI_Allow A) s =
     (case install_allowlist A (ms_state (sy_source s)) of
        None \<Rightarrow> s
      | Some g \<Rightarrow> s\<lparr>sy_source := (sy_source s)\<lparr>ms_state := g\<rparr>\<rparr>)"
| "source_step rr SI_Seal s = s\<lparr>sy_source := (sy_source s)\<lparr>ms_state := graph_seal (ms_state (sy_source s))\<rparr>\<rparr>"

definition source_run ::
    "(string option \<Rightarrow> string \<Rightarrow> source_error + string) \<Rightarrow> source_input list \<Rightarrow> source_system \<Rightarrow> source_system" where
  "source_run rr inputs s = fold (source_step rr) inputs s"

definition source_system_new :: "module_source \<Rightarrow> source_system" where
  "source_system_new m = \<lparr>sy_source = m, sy_pending = [], sy_answers = []\<rparr>"

subsection \<open>What each phase lets out\<close>

abbreviation phase_of :: "source_system \<Rightarrow> graph_phase" where
  "phase_of s \<equiv> gs_phase (ms_state (sy_source s))"

abbreviation resolutions_of :: "source_system \<Rightarrow> resolution_key \<Rightarrow> string option" where
  "resolutions_of s \<equiv> gs_resolutions (ms_state (sy_source s))"

fun answer_within :: "string set \<Rightarrow> source_answer \<Rightarrow> bool" where
  "answer_within A (Resolved key (Inr i)) \<longleftrightarrow> i \<in> A"
| "answer_within A (Sourced i (Inr source)) \<longleftrightarrow> i \<in> A"
| "answer_within A _ \<longleftrightarrow> True"

fun answer_sealed :: "(resolution_key \<Rightarrow> string option) \<Rightarrow> source_answer \<Rightarrow> bool" where
  "answer_sealed res (Resolved key (Inr i)) \<longleftrightarrow> res key = Some i"
| "answer_sealed res (Sourced i (Inr source)) \<longleftrightarrow> False"
| "answer_sealed res _ \<longleftrightarrow> True"

fun is_phase_input :: "source_input \<Rightarrow> bool" where
  "is_phase_input (SI_Allow A) = True"
| "is_phase_input SI_Seal = True"
| "is_phase_input _ = False"

lemma answer_simps [simp]:
  "sy_source (answer a s) = sy_source s" "sy_pending (answer a s) = sy_pending s"
  "sy_answers (answer a s) = sy_answers s @ [a]"
  by (simp_all add: answer_def)

lemma finish_phase [simp]:
  "gs_phase (snd (finish_resolution key i g)) = gs_phase g"
  "gs_phase (snd (finish_read i b g)) = gs_phase g"
  by (simp_all add: finish_resolution_def finish_read_def Let_def split: graph_phase.split)

lemma source_resolved_phase:
  "source_resolved key r m = (r', m') \<Longrightarrow> gs_phase (ms_state m') = gs_phase (ms_state m)"
  by (auto simp: source_resolved_def split: sum.splits prod.splits) (metis finish_phase(1) snd_conv)

lemma source_read_done_phase:
  "source_read_done i p r m = (r', m') \<Longrightarrow> gs_phase (ms_state m') = gs_phase (ms_state m)"
  by (auto simp: source_read_done_def split: sum.splits prod.splits) (metis finish_phase(2) snd_conv)+

lemma step_phase:
  "\<not> is_phase_input i \<Longrightarrow> phase_of (source_step rr i s) = phase_of s"
  by (cases i) (auto simp: Let_def split: prod.split started.split pending_call.split
      dest: source_resolved_phase source_read_done_phase)

text \<open>The answers of one step while the graph is checked.\<close>

lemma step_allowed:
  assumes "phase_of s = Allowed A" "\<not> is_phase_input i"
  shows "\<exists>new. sy_answers (source_step rr i s) = sy_answers s @ new \<and> list_all (answer_within A) new"
proof (cases i)
  case (SI_Resolve requester request)
  then show ?thesis using assms
    by (auto simp: source_resolve_def resolve_admission_def Let_def split: prod.split sum.split option.split)
next
  case (SI_Read j display)
  then show ?thesis using assms
    by (auto simp: source_read_def read_admission_def split: option.split)
next
  case (SI_Complete k r)
  then show ?thesis using assms
    by (auto simp: source_resolved_def source_read_done_def finish_resolution_def finish_read_def Let_def
        split: pending_call.split sum.split)
qed (use assms in simp_all)

lemma step_sealed:
  assumes "phase_of s = Sealed" "\<not> is_phase_input i"
  shows "resolutions_of (source_step rr i s) = resolutions_of s
    \<and> ms_sources (sy_source (source_step rr i s)) = ms_sources (sy_source s)
    \<and> (\<exists>new. sy_answers (source_step rr i s) = sy_answers s @ new \<and> list_all (answer_sealed (resolutions_of s)) new)"
proof (cases i)
  case (SI_Resolve requester request)
  then show ?thesis using assms
    by (auto simp: source_resolve_def resolve_admission_def Let_def split: prod.split sum.split option.split)
next
  case (SI_Read j display)
  then show ?thesis using assms by (auto simp: source_read_def read_admission_def)
next
  case (SI_Complete k r)
  then show ?thesis using assms
    by (auto simp: source_resolved_def source_read_done_def finish_resolution_def finish_read_def Let_def
        split: pending_call.split sum.split)
qed (use assms in simp_all)

lemma source_run_simps [simp]:
  "source_run rr [] s = s" "source_run rr (i # is) s = source_run rr is (source_step rr i s)"
  "source_run rr (xs @ ys) s = source_run rr ys (source_run rr xs s)"
  by (simp_all add: source_run_def)

lemma run_allowed:
  assumes "phase_of s = Allowed A" "list_all (\<lambda>i. \<not> is_phase_input i) is"
  shows "phase_of (source_run rr is s) = Allowed A
    \<and> (\<exists>new. sy_answers (source_run rr is s) = sy_answers s @ new \<and> list_all (answer_within A) new)"
  using assms
proof (induction "is" arbitrary: s)
  case (Cons i "is")
  from step_allowed[of s A i rr] Cons.prems obtain new where
    new: "sy_answers (source_step rr i s) = sy_answers s @ new" "list_all (answer_within A) new" by auto
  have "phase_of (source_step rr i s) = Allowed A" using Cons.prems step_phase[of i rr s] by simp
  from Cons.IH[OF this] Cons.prems(2) new show ?case by fastforce
qed simp

lemma run_sealed:
  assumes "phase_of s = Sealed" "list_all (\<lambda>i. \<not> is_phase_input i) is"
  shows "ms_sources (sy_source (source_run rr is s)) = ms_sources (sy_source s)
    \<and> (\<exists>new. sy_answers (source_run rr is s) = sy_answers s @ new \<and> list_all (answer_sealed (resolutions_of s)) new)"
  using assms
proof (induction "is" arbitrary: s)
  case (Cons i "is")
  from step_sealed[of s i rr] Cons.prems obtain new where
    new: "sy_answers (source_step rr i s) = sy_answers s @ new" "list_all (answer_sealed (resolutions_of s)) new"
    and res: "resolutions_of (source_step rr i s) = resolutions_of s"
      "ms_sources (sy_source (source_step rr i s)) = ms_sources (sy_source s)" by auto
  have "phase_of (source_step rr i s) = Sealed" using Cons.prems step_phase[of i rr s] by simp
  from Cons.IH[OF this] Cons.prems(2) new res show ?case by fastforce
qed simp

lemma run_unsealed: "SI_Seal \<notin> set is \<Longrightarrow> phase_of s \<noteq> Sealed \<Longrightarrow> phase_of (source_run rr is s) \<noteq> Sealed"
proof (induction "is" arbitrary: s)
  case (Cons i "is")
  have "phase_of (source_step rr i s) \<noteq> Sealed"
  proof (cases "is_phase_input i")
    case True
    then show ?thesis using Cons.prems by (cases i) (auto simp: install_allowlist_def)
  next
    case False
    then show ?thesis using step_phase[of i rr s] Cons.prems(2) by simp
  qed
  then show ?case using Cons by simp
qed simp

text \<open>
  C19: The modules of a configuration are exactly the checked ones. Once the checked graph is
  installed every module that is resolved or read, also by a call that was in flight before,
  belongs to it; once the entry module has run no source is served any more, a request
  resolves only to what it resolved to before, and the retained source texts stay as they are.
\<close>

theorem config_graph_closed:
  assumes "SI_Seal \<notin> set pre" "list_all (\<lambda>i. \<not> is_phase_input i) (mid @ post)"
  shows "let s0 = source_run rr (pre @ [SI_Allow A]) (source_system_new (module_source_new root dir sources));
             s1 = source_run rr mid s0; s2 = source_run rr (SI_Seal # post) s1
         in (\<exists>during. sy_answers s1 = sy_answers s0 @ during \<and> list_all (answer_within A) during)
            \<and> (\<exists>later. sy_answers s2 = sy_answers s1 @ later \<and> list_all (answer_sealed (resolutions_of s1)) later)
            \<and> ms_sources (sy_source s2) = ms_sources (sy_source s1)"
proof -
  let ?s = "source_run rr pre (source_system_new (module_source_new root dir sources))"
  have "phase_of ?s \<noteq> Sealed"
    by (rule run_unsealed [OF assms(1)]) (simp add: source_system_new_def module_source_new_def graph_state_default_def)
  then have s0: "phase_of (source_step rr (SI_Allow A) ?s) = Allowed A"
    by (simp add: install_allowlist_def)
  let ?s1 = "source_run rr mid (source_step rr (SI_Allow A) ?s)"
  let ?s2 = "source_step rr SI_Seal ?s1"
  have s2: "phase_of ?s2 = Sealed" "sy_answers ?s2 = sy_answers ?s1" "resolutions_of ?s2 = resolutions_of ?s1"
    "ms_sources (sy_source ?s2) = ms_sources (sy_source ?s1)"
    by (simp_all add: graph_seal_def)
  from assms(2) have "list_all (\<lambda>i. \<not> is_phase_input i) mid" "list_all (\<lambda>i. \<not> is_phase_input i) post" by simp_all
  with run_allowed [OF s0, of mid rr] run_sealed [OF s2(1), of post rr] s2 show ?thesis
    by (simp only: Let_def source_run_simps)
qed

subsection \<open>A module has one text\<close>

text \<open>A read of a module is not started while another of it is in flight.\<close>

fun serial_reads ::
    "(string option \<Rightarrow> string \<Rightarrow> source_error + string) \<Rightarrow> source_input list \<Rightarrow> source_system \<Rightarrow> bool" where
  "serial_reads rr [] s = True"
| "serial_reads rr (i # is) s =
     ((case i of
         SI_Read j _ \<Rightarrow> list_all (\<lambda>c. case c of Reading j' _ \<Rightarrow> j' \<noteq> j | _ \<Rightarrow> True) (sy_pending s)
       | _ \<Rightarrow> True) \<and> serial_reads rr is (source_step rr i s))"

fun reading :: "pending_call \<Rightarrow> string list" where
  "reading (Reading j _) = [j]"
| "reading (Resolving _) = []"

definition reads_of :: "source_system \<Rightarrow> string list" where
  "reads_of s = concat (map reading (sy_pending s))"

definition texts_ok :: "source_system \<Rightarrow> bool" where
  "texts_ok s \<longleftrightarrow>
     distinct (reads_of s)
     \<and> (\<forall>j \<in> set (reads_of s). gs_bytes (ms_state (sy_source s)) j = None)
     \<and> (\<forall>j b. Sourced j (Ok b) \<in> set (sy_answers s) \<longrightarrow> gs_bytes (ms_state (sy_source s)) j = Some b)"

lemma texts_ok_frame:
  "texts_ok s \<Longrightarrow> reads_of s' = reads_of s \<Longrightarrow> sy_answers s' = sy_answers s
   \<Longrightarrow> gs_bytes (ms_state (sy_source s')) = gs_bytes (ms_state (sy_source s)) \<Longrightarrow> texts_ok s'"
  by (simp add: texts_ok_def)

lemma reads_of_simps [simp]:
  "reads_of (answer a s) = reads_of s" "reads_of (s\<lparr>sy_source := m\<rparr>) = reads_of s"
  "reads_of (s\<lparr>sy_pending := cs\<rparr>) = concat (map reading cs)"
  by (simp_all add: reads_of_def)

lemma serial_read_new:
  "list_all (\<lambda>c. case c of Reading j' _ \<Rightarrow> j' \<noteq> j | _ \<Rightarrow> True) (sy_pending s) \<longleftrightarrow> j \<notin> set (reads_of s)"
proof -
  have "list_all (\<lambda>c. case c of Reading j' _ \<Rightarrow> j' \<noteq> j | _ \<Rightarrow> True) cs \<longleftrightarrow> j \<notin> set (concat (map reading cs))" for cs
    by (induction cs) (auto split: pending_call.split)
  then show ?thesis by (simp add: reads_of_def)
qed

lemma pending_split:
  assumes "k < length (sy_pending s)"
  obtains ys zs where "sy_pending s = ys @ sy_pending s ! k # zs" "remove_nth k (sy_pending s) = ys @ zs"
    "reads_of s = concat (map reading ys) @ reading (sy_pending s ! k) @ concat (map reading zs)"
proof
  show "sy_pending s = take k (sy_pending s) @ sy_pending s ! k # drop (Suc k) (sy_pending s)"
    using assms by (rule id_take_nth_drop)
  then show "reads_of s = concat (map reading (take k (sy_pending s))) @ reading (sy_pending s ! k)
      @ concat (map reading (drop (Suc k) (sy_pending s)))"
    unfolding reads_of_def by (metis concat.simps(2) concat_append list.simps(9) map_append)
qed (simp add: remove_nth_def)

lemma finish_resolution_bytes [simp]: "gs_bytes (snd (finish_resolution key i g)) = gs_bytes g"
  by (simp add: finish_resolution_def Let_def split: graph_phase.split)

lemma source_resolved_bytes:
  "source_resolved key r m = (r', m') \<Longrightarrow> gs_bytes (ms_state m') = gs_bytes (ms_state m)"
  by (auto simp: source_resolved_def split: sum.splits prod.splits) (metis finish_resolution_bytes snd_conv)

lemma source_read_done_bytes:
  assumes "source_read_done j path r m = (r', m')"
  shows "(\<exists>b. r' = Ok b \<and> gs_bytes (ms_state m') = (gs_bytes (ms_state m))(j := Some b))
    \<or> (\<exists>e. r' = Err e \<and> gs_bytes (ms_state m') = gs_bytes (ms_state m))"
  using assms
  by (auto simp: source_read_done_def finish_read_def Let_def split: sum.splits graph_phase.splits if_splits)

lemma texts_ok_step:
  assumes ok: "texts_ok s" and serial: "serial_reads rr [i] s"
  shows "texts_ok (source_step rr i s)"
proof (cases i)
  case (SI_Resolve requester request)
  then show ?thesis using ok
    by (auto simp: texts_ok_def reads_of_def split: prod.split started.split)
next
  case (SI_Read j display)
  then have new: "j \<notin> set (reads_of s)" using serial by (simp add: serial_read_new)
  show ?thesis
  proof (cases "source_read j (sy_source s)")
    case (Ready r)
    then have "r = Ok b \<Longrightarrow> gs_bytes (ms_state (sy_source s)) j = Some b" for b
      by (auto simp: source_read_def read_admission_def split: sum.splits option.splits graph_phase.splits if_splits)
    then show ?thesis using ok SI_Read Ready by (auto simp: texts_ok_def)
  next
    case Pending
    then have "gs_bytes (ms_state (sy_source s)) j = None"
      by (auto simp: source_read_def read_admission_def split: sum.splits option.splits graph_phase.splits if_splits)
    then show ?thesis using ok SI_Read Pending new by (auto simp: texts_ok_def reads_of_def)
  qed
next
  case (SI_Complete k r)
  show ?thesis
  proof (cases "k < length (sy_pending s)")
    case True
    obtain ys zs where split: "remove_nth k (sy_pending s) = ys @ zs"
      "reads_of s = concat (map reading ys) @ reading (sy_pending s ! k) @ concat (map reading zs)"
      using pending_split [OF True] by metis
    show ?thesis
    proof (cases "sy_pending s ! k")
      case (Resolving key)
      obtain r' m' where r: "source_resolved key r (sy_source s) = (r', m')" by fastforce
      show ?thesis
        using ok SI_Complete True Resolving r split source_resolved_bytes [OF r] by (auto simp: texts_ok_def)
    next
      case (Reading j path)
      obtain r' m' where r: "source_read_done j path r (sy_source s) = (r', m')" by fastforce
      have none: "gs_bytes (ms_state (sy_source s)) j = None" and j: "j \<notin> set (concat (map reading (ys @ zs)))"
        using ok Reading split by (auto simp: texts_ok_def)
      from source_read_done_bytes [OF r] show ?thesis
      proof (elim disjE exE conjE)
        fix b assume b: "r' = Ok b" "gs_bytes (ms_state m') = (gs_bytes (ms_state (sy_source s)))(j := Some b)"
        have old: "Sourced j' (Ok b') \<in> set (sy_answers s) \<Longrightarrow> j' \<noteq> j" for j' b'
          using ok none by (auto simp: texts_ok_def)
        show ?thesis
          using ok SI_Complete True Reading r split b j old by (auto simp: texts_ok_def)
      next
        fix e assume e: "r' = Err e" "gs_bytes (ms_state m') = gs_bytes (ms_state (sy_source s))"
        show ?thesis using ok SI_Complete True Reading r split e by (auto simp: texts_ok_def)
      qed
    qed
  qed (use ok SI_Complete in simp)
next
  case (SI_Allow A)
  then show ?thesis using ok
    by (auto simp: install_allowlist_def intro: texts_ok_frame split: option.split)
next
  case SI_Seal
  then show ?thesis using ok by (auto simp: graph_seal_def intro: texts_ok_frame)
qed

text \<open>While reads of a module do not overlap, everyone who reads it gets the same source.\<close>

lemma module_has_one_text:
  assumes "serial_reads rr inputs s" "texts_ok s"
    and "Sourced j (Ok b) \<in> set (sy_answers (source_run rr inputs s))"
    and "Sourced j (Ok b') \<in> set (sy_answers (source_run rr inputs s))"
  shows "b = b'"
proof -
  have "texts_ok (source_run rr inputs s)"
    using assms(1,2)
  proof (induction inputs arbitrary: s)
    case (Cons i inputs)
    then show ?case using texts_ok_step [of s rr i] by simp
  qed simp
  then have "gs_bytes (ms_state (sy_source (source_run rr inputs s))) j = Some b"
    "gs_bytes (ms_state (sy_source (source_run rr inputs s))) j = Some b'"
    using assms(3,4) unfolding texts_ok_def by blast+
  then show ?thesis by simp
qed

lemma texts_ok_new: "texts_ok (source_system_new (module_source_new root dir sources))"
  by (simp add: texts_ok_def source_system_new_def module_source_new_def graph_state_default_def reads_of_def)

text \<open>
  Overlapping reads can return different texts, when the file changes between them.
\<close>

lemma overlapping_reads_differ:
  "sy_answers (source_run rr [SI_Read ''a'' ''a.luau'', SI_Read ''a'' ''a.luau'', SI_Complete 0 (Ok ''old''), SI_Complete 0 (Ok ''new'')]
     (source_system_new (module_source_new ''config'' ''/c'' (\<lambda>_. None))))
   = [Sourced ''a'' (Ok ''old''), Sourced ''a'' (Ok ''new'')]"
  by (simp add: source_system_new_def module_source_new_def graph_state_default_def source_read_def read_admission_def
      remove_nth_def source_read_done_def finish_read_def)

text \<open>A load that reads one module, and a request after the entry has run.\<close>

theorem config_graph_closed_witness:
  "\<exists>s0 s1 s2. s0 = source_run (\<lambda>_ _. Ok ''util'') ([SI_Resolve None ''./util'', SI_Complete 0 (Ok ''util'')] @ [SI_Allow {''util''}])
         (source_system_new (module_source_new ''config'' ''/c'' (\<lambda>_. None)))
     \<and> s1 = source_run (\<lambda>_ _. Ok ''util'') [SI_Read ''util'' ''util.luau'', SI_Complete 0 (Ok ''return 1'')] s0
     \<and> s2 = source_run (\<lambda>_ _. Ok ''util'') (SI_Seal # [SI_Read ''util'' ''util.luau'', SI_Resolve None ''./util'']) s1
     \<and> sy_answers s2 = sy_answers s0 @ [Sourced ''util'' (Ok ''return 1''), Sourced ''util'' (Err sealed_error),
          Resolved (Some ''config'', ''./util'') (Ok ''util'')]
     \<and> ms_sources (sy_source s2) = ms_sources (sy_source s1)"
proof -
  have "SI_Seal \<notin> set [SI_Resolve None ''./util'', SI_Complete 0 (Ok ''util'')]"
    "list_all (\<lambda>i. \<not> is_phase_input i) ([SI_Read ''util'' ''util.luau'', SI_Complete 0 (Ok ''return 1'')]
       @ [SI_Read ''util'' ''util.luau'', SI_Resolve None ''./util''])" by simp_all
  note closed = config_graph_closed [OF this, of "\<lambda>_ _. Ok ''util''" "{''util''}" "''config''" "''/c''" "\<lambda>_. None"]
  show ?thesis
    using closed
    by (simp add: Let_def source_system_new_def module_source_new_def graph_state_default_def source_read_def
        read_admission_def remove_nth_def source_read_done_def finish_read_def source_resolve_def resolve_admission_def
        source_resolved_def finish_resolution_def install_allowlist_def graph_seal_def request_is_relative_def starts_with_def)
qed

end
