(* ===== verification/Callback_Registry.thy ===== *)
theory Callback_Registry
  imports Hotki_Prelude
begin

text \<open>
  The callbacks that a configuration hands to the host
  (\<open>config/src/script/callback.rs\<close>): a reference-counted callback holds a stash of
  the running invocation until the registry promotes it to a handle of the retained
  runtime, and the drop of its last owner queues that handle for release.  The runtime of
  the script library is a parameter: retaining a stash, releasing a handle, and the set of
  handles it retains.
\<close>

subsection \<open>State\<close>

datatype ('s, 'h) callback_target = Target_Pending 's | Target_Retained 'h

record ('s, 'h) callback_inner =
  ci_owners :: nat
  ci_target :: "('s, 'h) callback_target option"

datatype 'e release_result = Release_Ok | Release_Stale | Release_Error 'e

text \<open>
  The live callbacks by number, the registry's two queues, and the runtime; a weak reference
  is the number of a callback that may be gone.
\<close>

record ('s, 'h, 'r) callback_world =
  cw_callbacks :: "nat \<Rightarrow> ('s, 'h) callback_inner option"
  cw_next :: nat
  cw_pending :: "nat list"
  cw_released :: "'h list"
  cw_runtime :: 'r

definition callback_world_new :: "'r \<Rightarrow> ('s, 'h, 'r) callback_world" where
  "callback_world_new r = \<lparr>cw_callbacks = (\<lambda>_. None), cw_next = 0, cw_pending = [], cw_released = [], cw_runtime = r\<rparr>"

subsection \<open>Operations\<close>

definition callback_from_function :: "'s \<Rightarrow> ('s, 'h, 'r) callback_world \<Rightarrow> nat \<times> ('s, 'h, 'r) callback_world" where
  "callback_from_function stash w =
     (let i = cw_next w
      in (i, w\<lparr>cw_callbacks := (cw_callbacks w)(i \<mapsto> \<lparr>ci_owners = 1, ci_target = Some (Target_Pending stash)\<rparr>),
              cw_next := i + 1, cw_pending := cw_pending w @ [i]\<rparr>))"

definition callback_clone :: "nat \<Rightarrow> ('s, 'h, 'r) callback_world \<Rightarrow> ('s, 'h, 'r) callback_world" where
  "callback_clone i w =
     (case cw_callbacks w i of
        Some c \<Rightarrow> w\<lparr>cw_callbacks := (cw_callbacks w)(i \<mapsto> c\<lparr>ci_owners := ci_owners c + 1\<rparr>)\<rparr>
      | None \<Rightarrow> w)"

text \<open>The drop of the last owner.\<close>

definition callback_inner_drop :: "('s, 'h) callback_inner \<Rightarrow> ('s, 'h, 'r) callback_world \<Rightarrow> ('s, 'h, 'r) callback_world" where
  "callback_inner_drop c w =
     (case ci_target c of
        Some (Target_Retained h) \<Rightarrow> w\<lparr>cw_released := cw_released w @ [h]\<rparr>
      | _ \<Rightarrow> w)"

definition callback_drop :: "nat \<Rightarrow> ('s, 'h, 'r) callback_world \<Rightarrow> ('s, 'h, 'r) callback_world" where
  "callback_drop i w =
     (case cw_callbacks w i of
        Some c \<Rightarrow>
          if 1 < ci_owners c then w\<lparr>cw_callbacks := (cw_callbacks w)(i \<mapsto> c\<lparr>ci_owners := ci_owners c - 1\<rparr>)\<rparr>
          else callback_inner_drop c (w\<lparr>cw_callbacks := (cw_callbacks w)(i := None)\<rparr>)
      | None \<Rightarrow> w)"

definition callback_resolve :: "nat \<Rightarrow> ('s, 'h, 'r) callback_world \<Rightarrow> (string + ('s, 'h) callback_target) option" where
  "callback_resolve i w =
     map_option (\<lambda>c. case ci_target c of None \<Rightarrow> Inl ''Hotki callback was released'' | Some t \<Rightarrow> Inr t) (cw_callbacks w i)"

fun release_handles :: "('r \<Rightarrow> 'h \<Rightarrow> 'e release_result \<times> 'r) \<Rightarrow> 'h list \<Rightarrow> 'r \<Rightarrow> ('e + unit) \<times> 'r" where
  "release_handles release [] r = (Inr (), r)"
| "release_handles release (h # hs) r =
     (case release r h of
        (Release_Error e, r) \<Rightarrow> (Inl e, r)
      | (_, r) \<Rightarrow> release_handles release hs r)"

fun promote_pending :: "('r \<Rightarrow> 's \<Rightarrow> 'h \<times> 'r) \<Rightarrow> nat list \<Rightarrow> ('s, 'h, 'r) callback_world \<Rightarrow> ('s, 'h, 'r) callback_world" where
  "promote_pending retain [] w = w"
| "promote_pending retain (i # is) w =
     promote_pending retain is
       (case cw_callbacks w i of
          Some c \<Rightarrow>
            (case ci_target c of
               Some (Target_Pending stash) \<Rightarrow>
                 (let (h, r) = retain (cw_runtime w) stash
                  in w\<lparr>cw_callbacks := (cw_callbacks w)(i \<mapsto> c\<lparr>ci_target := Some (Target_Retained h)\<rparr>), cw_runtime := r\<rparr>)
             | _ \<Rightarrow> w)
        | None \<Rightarrow> w)"

definition registry_synchronize ::
    "('r \<Rightarrow> 's \<Rightarrow> 'h \<times> 'r) \<Rightarrow> ('r \<Rightarrow> 'h \<Rightarrow> 'e release_result \<times> 'r) \<Rightarrow> ('s, 'h, 'r) callback_world
     \<Rightarrow> ('e + unit) \<times> ('s, 'h, 'r) callback_world" where
  "registry_synchronize retain release w =
     (let pending = cw_pending w; released = cw_released w; w = w\<lparr>cw_pending := [], cw_released := []\<rparr>
      in case release_handles release released (cw_runtime w) of
           (Inl e, r) \<Rightarrow> (Inl e, w\<lparr>cw_runtime := r\<rparr>)
         | (Inr _, r) \<Rightarrow> (Inr (), promote_pending retain pending (w\<lparr>cw_runtime := r\<rparr>)))"

subsection \<open>Handles are balanced\<close>

text \<open>
  What is assumed of the runtime: a retained stash gets a handle that is not in use, and a
  handle in use can be released.
\<close>

definition runtime_ok :: "('r \<Rightarrow> 's \<Rightarrow> 'h \<times> 'r) \<Rightarrow> ('r \<Rightarrow> 'h \<Rightarrow> 'e release_result \<times> 'r) \<Rightarrow> ('r \<Rightarrow> 'h set) \<Rightarrow> bool" where
  "runtime_ok retain release retained \<longleftrightarrow>
     (\<forall>r s. fst (retain r s) \<notin> retained r \<and> retained (snd (retain r s)) = insert (fst (retain r s)) (retained r))
     \<and> (\<forall>r h. h \<in> retained r \<longrightarrow> fst (release r h) = Release_Ok \<and> retained (snd (release r h)) = retained r - {h})"

definition handle_of :: "('s, 'h, 'r) callback_world \<Rightarrow> nat \<Rightarrow> 'h option" where
  "handle_of w i = (case cw_callbacks w i of Some c \<Rightarrow> (case ci_target c of Some (Target_Retained h) \<Rightarrow> Some h | _ \<Rightarrow> None) | None \<Rightarrow> None)"

text \<open>
  Besides the handles \<open>R0\<close> that others hold, the runtime retains those of live callbacks and
  those queued for release, each once; a live callback without a handle is queued for
  promotion.
\<close>

definition balanced :: "('r \<Rightarrow> 'h set) \<Rightarrow> 'h set \<Rightarrow> ('s, 'h, 'r) callback_world \<Rightarrow> bool" where
  "balanced retained R0 w \<longleftrightarrow>
     retained (cw_runtime w) = R0 \<union> ran (handle_of w) \<union> set (cw_released w)
     \<and> R0 \<inter> ran (handle_of w) = {} \<and> R0 \<inter> set (cw_released w) = {} \<and> ran (handle_of w) \<inter> set (cw_released w) = {}
     \<and> distinct (cw_released w) \<and> inj_on (handle_of w) (dom (handle_of w))
     \<and> (\<forall>i c. cw_callbacks w i = Some c \<longrightarrow> ci_target c \<noteq> None \<and> i < cw_next w \<and> (handle_of w i = None \<longrightarrow> i \<in> set (cw_pending w)))"

datatype 's callback_op = CO_Create 's | CO_Clone nat | CO_Drop nat | CO_Sync

fun callback_apply ::
    "('r \<Rightarrow> 's \<Rightarrow> 'h \<times> 'r) \<Rightarrow> ('r \<Rightarrow> 'h \<Rightarrow> 'e release_result \<times> 'r) \<Rightarrow> 's callback_op \<Rightarrow> ('s, 'h, 'r) callback_world \<Rightarrow> ('s, 'h, 'r) callback_world" where
  "callback_apply retain release (CO_Create s) w = snd (callback_from_function s w)"
| "callback_apply retain release (CO_Clone i) w = callback_clone i w"
| "callback_apply retain release (CO_Drop i) w = callback_drop i w"
| "callback_apply retain release CO_Sync w = snd (registry_synchronize retain release w)"

lemma handle_of_simps:
  "handle_of (w\<lparr>cw_pending := ps\<rparr>) = handle_of w" "handle_of (w\<lparr>cw_released := hs\<rparr>) = handle_of w"
  "handle_of (w\<lparr>cw_runtime := r\<rparr>) = handle_of w" "handle_of (w\<lparr>cw_next := n\<rparr>) = handle_of w"
  "handle_of (w\<lparr>cw_callbacks := (cw_callbacks w)(i := x)\<rparr>) =
     (handle_of w)(i := (case x of Some c \<Rightarrow> (case ci_target c of Some (Target_Retained h) \<Rightarrow> Some h | _ \<Rightarrow> None) | None \<Rightarrow> None))"
  by (auto simp: handle_of_def fun_eq_iff)

lemma handle_of_new: "handle_of (callback_world_new r) = Map.empty"
  by (auto simp: handle_of_def callback_world_new_def)

lemma balanced_new: "balanced retained (retained r) (callback_world_new r)"
  by (simp add: balanced_def handle_of_new) (simp add: callback_world_new_def)

lemma balanced_create:
  assumes "balanced retained R0 w"
  shows "balanced retained R0 (snd (callback_from_function s w))"
proof -
  have none: "handle_of w (cw_next w) = None"
    using assms by (auto simp: balanced_def handle_of_def split: option.split)
  have "handle_of (snd (callback_from_function s w)) = (handle_of w)(cw_next w := None)"
    by (auto simp: callback_from_function_def Let_def handle_of_def fun_eq_iff)
  also have "\<dots> = handle_of w" using none by (auto simp: fun_eq_iff)
  finally have same: "handle_of (snd (callback_from_function s w)) = handle_of w" .
  show ?thesis using assms unfolding balanced_def same
    by (auto simp: callback_from_function_def Let_def less_Suc_eq split: if_splits)
qed

lemma balanced_owners:
  assumes "balanced retained R0 w" "cw_callbacks w i = Some c"
  shows "balanced retained R0 (w\<lparr>cw_callbacks := (cw_callbacks w)(i \<mapsto> c\<lparr>ci_owners := n\<rparr>)\<rparr>)"
proof -
  have same: "handle_of (w\<lparr>cw_callbacks := (cw_callbacks w)(i \<mapsto> c\<lparr>ci_owners := n\<rparr>)\<rparr>) = handle_of w"
    using assms(2) by (auto simp: handle_of_def fun_eq_iff)
  show ?thesis using assms unfolding balanced_def same by auto
qed

lemma balanced_drop:
  assumes "balanced retained R0 w"
  shows "balanced retained R0 (callback_drop i w)"
proof (cases "cw_callbacks w i")
  case None
  then show ?thesis using assms by (simp add: callback_drop_def)
next
  case (Some c)
  show ?thesis
  proof (cases "1 < ci_owners c")
    case True
    then show ?thesis using balanced_owners [OF assms Some] Some by (simp add: callback_drop_def)
  next
    case False
    let ?w = "w\<lparr>cw_callbacks := (cw_callbacks w)(i := None)\<rparr>"
    have h: "handle_of ?w = (handle_of w)(i := None)" by (auto simp: handle_of_def fun_eq_iff)
    show ?thesis
    proof (cases "handle_of w i")
      case None
      then have same: "handle_of ?w = handle_of w" by (auto simp: h fun_eq_iff)
      have "callback_drop i w = ?w"
        using None Some False by (auto simp: callback_drop_def callback_inner_drop_def handle_of_def
            split: option.splits callback_target.splits)
      then show ?thesis using assms unfolding balanced_def by (simp add: same)
    next
      case handle: (Some g)
      then have t: "ci_target c = Some (Target_Retained g)"
        using Some by (auto simp: handle_of_def split: option.splits callback_target.splits)
      have drop: "callback_drop i w = ?w\<lparr>cw_released := cw_released w @ [g]\<rparr>"
        using t Some False by (simp add: callback_drop_def callback_inner_drop_def)
      note bal = assms [unfolded balanced_def]
      have inj: "inj_on (handle_of w) (dom (handle_of w))" using bal by blast
      have uniq: "x = i" if "handle_of w x = Some g" for x
        using inj_onD [OF inj, of x i] that handle by auto
      have ran: "ran ((handle_of w)(i := None)) = ran (handle_of w) - {g}"
      proof (intro equalityI subsetI)
        fix x assume "x \<in> ran ((handle_of w)(i := None))"
        then obtain j where "handle_of w j = Some x" "j \<noteq> i" by (auto simp: ran_def split: if_splits)
        then show "x \<in> ran (handle_of w) - {g}" using uniq by (auto simp: ran_def)
      next
        fix x assume "x \<in> ran (handle_of w) - {g}"
        then obtain j where j: "handle_of w j = Some x" "x \<noteq> g" by (auto simp: ran_def)
        then have "j \<noteq> i" using handle by auto
        with j show "x \<in> ran ((handle_of w)(i := None))" by (auto simp: ran_def)
      qed
      have g: "g \<in> ran (handle_of w)" using handle by (auto simp: ran_def)
      have inj': "inj_on ((handle_of w)(i := None)) (dom ((handle_of w)(i := None)))"
        using inj by (auto simp: inj_on_def)
      have live: "\<forall>j c. cw_callbacks ?w j = Some c \<longrightarrow> ci_target c \<noteq> None \<and> j < cw_next w
          \<and> (((handle_of w)(i := None)) j = None \<longrightarrow> j \<in> set (cw_pending w))"
        using bal by simp
      have sets: "R0 \<union> ran (handle_of w) \<union> set (cw_released w) = R0 \<union> (ran (handle_of w) - {g}) \<union> set (cw_released w @ [g])"
        "R0 \<inter> (ran (handle_of w) - {g}) = {}" "R0 \<inter> set (cw_released w @ [g]) = {}"
        "(ran (handle_of w) - {g}) \<inter> set (cw_released w @ [g]) = {}" "distinct (cw_released w @ [g])"
        using bal g by auto
      show ?thesis unfolding drop balanced_def handle_of_simps(2) h ran
        using sets inj' live bal by simp
    qed
  qed
qed

lemma release_all:
  assumes "runtime_ok retain release retained" "set hs \<subseteq> retained r" "distinct hs"
  shows "fst (release_handles release hs r) = Inr () \<and> retained (snd (release_handles release hs r)) = retained r - set hs"
  using assms(2,3)
proof (induction hs arbitrary: r)
  case (Cons h hs)
  obtain a r1 where rel: "release r h = (a, r1)" by (cases "release r h")
  have "a = Release_Ok" "retained r1 = retained r - {h}"
    using assms(1) Cons.prems rel unfolding runtime_ok_def by (metis fst_conv snd_conv insert_subset list.simps(15))+
  moreover have "set hs \<subseteq> retained r1" using Cons.prems calculation by auto
  ultimately show ?case using Cons rel by auto
qed simp

lemma promote_step:
  assumes ok: "runtime_ok retain release retained" and bal: "balanced retained R0 (w\<lparr>cw_pending := i # is\<rparr>)"
    and c: "cw_callbacks w i = Some c" "ci_target c = Some (Target_Pending stash)" "retain (cw_runtime w) stash = (h, r)"
  shows "balanced retained R0 (w\<lparr>cw_callbacks := (cw_callbacks w)(i \<mapsto> c\<lparr>ci_target := Some (Target_Retained h)\<rparr>), cw_runtime := r, cw_pending := is\<rparr>)"
proof -
  have new: "h \<notin> retained (cw_runtime w)" "retained r = insert h (retained (cw_runtime w))"
    using ok c(3) unfolding runtime_ok_def by (metis fst_conv snd_conv)+
  have none: "handle_of w i = None" using c(1,2) by (simp add: handle_of_def)
  have h: "handle_of (w\<lparr>cw_callbacks := (cw_callbacks w)(i \<mapsto> c\<lparr>ci_target := Some (Target_Retained h)\<rparr>), cw_runtime := r, cw_pending := is\<rparr>)
      = (handle_of w)(i \<mapsto> h)"
    by (auto simp: handle_of_def fun_eq_iff)
  have ran: "ran ((handle_of w)(i \<mapsto> h)) = insert h (ran (handle_of w))" using none by simp
  have old: "retained (cw_runtime w) = R0 \<union> ran (handle_of w) \<union> set (cw_released w)"
    using bal by (simp add: balanced_def handle_of_simps(1))
  then have inj: "inj_on ((handle_of w)(i \<mapsto> h)) (dom ((handle_of w)(i \<mapsto> h)))"
    using bal new(1) by (auto simp: balanced_def handle_of_simps(1) inj_on_def ran_def)
  show ?thesis using bal new old inj c(1) unfolding balanced_def h
    by (auto simp: handle_of_simps(1) ran split: if_splits)
qed

lemma promote_all:
  assumes "runtime_ok retain release retained" "balanced retained R0 (w\<lparr>cw_pending := is\<rparr>)"
  shows "balanced retained R0 ((promote_pending retain is w)\<lparr>cw_pending := []\<rparr>)"
  using assms(2)
proof (induction "is" arbitrary: w)
  case (Cons i "is")
  show ?case
  proof (cases "\<exists>c stash. cw_callbacks w i = Some c \<and> ci_target c = Some (Target_Pending stash)")
    case True
    then obtain c stash where c: "cw_callbacks w i = Some c" "ci_target c = Some (Target_Pending stash)" by blast
    obtain h r where r: "retain (cw_runtime w) stash = (h, r)" by (cases "retain (cw_runtime w) stash")
    show ?thesis using Cons.IH [OF promote_step [OF assms(1) Cons.prems c r]] c r by simp
  next
    case False
    have "handle_of w i \<noteq> None" if "cw_callbacks w i = Some c" for c
    proof -
      have "ci_target c \<noteq> None" using Cons.prems that by (auto simp: balanced_def)
      then show ?thesis using False that by (auto simp: handle_of_def split: option.split callback_target.split)
    qed
    moreover have "handle_of w j = None \<longrightarrow> j = i \<or> j \<in> set is" if "cw_callbacks w j = Some c" for j c
      using Cons.prems that by (auto simp: balanced_def handle_of_simps(1))
    ultimately have "handle_of w j = None \<longrightarrow> j \<in> set is" if "cw_callbacks w j = Some c" for j c
      using that by blast
    then have "balanced retained R0 (w\<lparr>cw_pending := is\<rparr>)"
      using Cons.prems by (simp add: balanced_def handle_of_simps(1))
    then have "balanced retained R0 ((promote_pending retain is w)\<lparr>cw_pending := []\<rparr>)" by (rule Cons.IH)
    moreover have "promote_pending retain (i # is) w = promote_pending retain is w"
      using False by (auto split: option.split callback_target.split)
    ultimately show ?thesis by simp
  qed
qed simp

lemma promote_frame [simp]:
  "cw_pending (promote_pending retain is w) = cw_pending w" "cw_released (promote_pending retain is w) = cw_released w"
  by (induction "is" arbitrary: w) (simp_all split: option.split callback_target.split prod.split)

lemma balanced_synchronize:
  assumes "runtime_ok retain release retained" "balanced retained R0 w" "registry_synchronize retain release w = (r, w')"
  shows "r = Inr () \<and> balanced retained R0 w' \<and> cw_pending w' = [] \<and> cw_released w' = []"
proof -
  have sub: "set (cw_released w) \<subseteq> retained (cw_runtime w)" "distinct (cw_released w)"
    using assms(2) by (auto simp: balanced_def)
  obtain a rt where rel: "release_handles release (cw_released w) (cw_runtime w) = (a, rt)"
    by (cases "release_handles release (cw_released w) (cw_runtime w)")
  have rel': "a = Inr ()" "retained rt = retained (cw_runtime w) - set (cw_released w)"
    using release_all [OF assms(1) sub] rel by simp_all
  let ?w = "w\<lparr>cw_pending := [], cw_released := [], cw_runtime := rt\<rparr>"
  have "balanced retained R0 (?w\<lparr>cw_pending := cw_pending w\<rparr>)"
    using assms(2) rel'(2) unfolding balanced_def by (auto simp: handle_of_simps)
  from promote_all [OF assms(1) this]
  have "balanced retained R0 ((promote_pending retain (cw_pending w) ?w)\<lparr>cw_pending := []\<rparr>)" .
  moreover have "(promote_pending retain (cw_pending w) ?w)\<lparr>cw_pending := []\<rparr> = promote_pending retain (cw_pending w) ?w"
    by simp
  ultimately show ?thesis using assms(3) rel rel'(1) by (auto simp: registry_synchronize_def Let_def)
qed

lemma balanced_apply:
  assumes "runtime_ok retain release retained" "balanced retained R0 w"
  shows "balanced retained R0 (callback_apply retain release e w)"
proof (cases e)
  case (CO_Clone i)
  then show ?thesis using assms(2) balanced_owners [OF assms(2)]
    by (cases "cw_callbacks w i") (simp_all add: callback_clone_def)
next
  case CO_Sync
  obtain r w' where "registry_synchronize retain release w = (r, w')" by (cases "registry_synchronize retain release w")
  then show ?thesis using balanced_synchronize [OF assms] CO_Sync by simp
qed (use assms(2) balanced_create balanced_drop in \<open>simp_all\<close>)

lemma balanced_run:
  "runtime_ok retain release retained \<Longrightarrow> balanced retained R0 w \<Longrightarrow> balanced retained R0 (fold (callback_apply retain release) es w)"
  by (induction es arbitrary: w) (simp_all add: balanced_apply)

text \<open>
  C36: The runtime's handles are balanced. Whatever callbacks are created, cloned, dropped
  and synchronized in whatever order, after a synchronization, which succeeds, the runtime
  retains what others retained and exactly one handle for each live callback; every live
  callback resolves to its handle, and when all are dropped none is left.
\<close>

theorem callbacks_balanced:
  assumes "runtime_ok retain release retained"
    and "registry_synchronize retain release (fold (callback_apply retain release) es (callback_world_new r0)) = (res, w)"
  shows "res = Inr () \<and> retained (cw_runtime w) = retained r0 \<union> ran (handle_of w) \<and> retained r0 \<inter> ran (handle_of w) = {}
    \<and> inj_on (handle_of w) (dom (handle_of w)) \<and> dom (handle_of w) = dom (cw_callbacks w)
    \<and> (case callback_resolve i w of
         Some x \<Rightarrow> \<exists>h. x = Inr (Target_Retained h) \<and> h \<in> retained (cw_runtime w)
       | None \<Rightarrow> cw_callbacks w i = None)"
proof -
  have "balanced retained (retained r0) (fold (callback_apply retain release) es (callback_world_new r0))"
    by (rule balanced_run [OF assms(1) balanced_new])
  from balanced_synchronize [OF assms(1) this assms(2)]
  have sync: "res = Inr ()" "balanced retained (retained r0) w" "cw_pending w = []" "cw_released w = []" by simp_all
  have handle: "\<exists>h. handle_of w j = Some h \<and> ci_target c = Some (Target_Retained h)" if "cw_callbacks w j = Some c" for j c
  proof -
    have "handle_of w j \<noteq> None" using sync(2,3) that by (auto simp: balanced_def)
    then show ?thesis using that by (auto simp: handle_of_def split: option.splits callback_target.splits)
  qed
  have dom: "dom (handle_of w) = dom (cw_callbacks w)"
    using handle by (force simp: handle_of_def dom_def split: option.splits)
  have res: "\<exists>h. x = Inr (Target_Retained h) \<and> h \<in> retained (cw_runtime w)" if "callback_resolve i w = Some x" for x
  proof -
    from that obtain c where c: "cw_callbacks w i = Some c" by (auto simp: callback_resolve_def)
    from handle [OF this] obtain h where "handle_of w i = Some h" "ci_target c = Some (Target_Retained h)" by blast
    then show ?thesis using that c sync(2) by (auto simp: callback_resolve_def balanced_def ran_def)
  qed
  have "callback_resolve i w = None \<Longrightarrow> cw_callbacks w i = None" by (simp add: callback_resolve_def)
  then show ?thesis using sync dom res by (auto simp: balanced_def split: option.split)
qed

text \<open>A runtime that counts its handles.\<close>

definition counting_retain :: "nat list \<Rightarrow> 's \<Rightarrow> nat \<times> nat list" where
  "counting_retain r s = (Suc (sum_list r), Suc (sum_list r) # r)"

definition counting_release :: "nat list \<Rightarrow> nat \<Rightarrow> unit release_result \<times> nat list" where
  "counting_release r h = (if h \<in> set r then (Release_Ok, removeAll h r) else (Release_Stale, r))"

lemma counting_runtime_ok: "runtime_ok counting_retain counting_release set"
proof -
  have "Suc (sum_list r) \<notin> set r" for r :: "nat list" using member_le_sum_list by fastforce
  then show ?thesis by (auto simp: runtime_ok_def counting_retain_def counting_release_def)
qed

text \<open>Two callbacks, one of which is dropped after it was promoted.\<close>

theorem callbacks_balanced_witness:
  "\<exists>es w. es = [CO_Create ''a'', CO_Create ''b'', CO_Sync, CO_Clone 1, CO_Drop 0]
     \<and> registry_synchronize counting_retain counting_release (fold (callback_apply counting_retain counting_release) es (callback_world_new []))
       = (Inr (), w) \<and> set (cw_runtime w) = ran (handle_of w) \<and> dom (handle_of w) = dom (cw_callbacks w)"
proof -
  let ?es = "[CO_Create ''a'', CO_Create ''b'', CO_Sync, CO_Clone 1, CO_Drop 0]"
  obtain res w where sync: "registry_synchronize counting_retain counting_release
      (fold (callback_apply counting_retain counting_release) ?es (callback_world_new [])) = (res, w)"
    by (cases "registry_synchronize counting_retain counting_release
      (fold (callback_apply counting_retain counting_release) ?es (callback_world_new []))")
  show ?thesis using callbacks_balanced [OF counting_runtime_ok sync, of 0] sync by auto
qed

text \<open>
  A release that fails loses both queues: the callbacks that waited for promotion stay
  pending, and no later synchronization finds them.
\<close>

lemma failed_release_loses_promotions:
  assumes "release (cw_runtime w) h = (Release_Error e, r)" "cw_released w = h # hs"
  shows "registry_synchronize retain release w = (Inl e, w\<lparr>cw_pending := [], cw_released := [], cw_runtime := r\<rparr>)"
  using assms by (simp add: registry_synchronize_def Let_def)

end
