(* ===== verification/Hud_View.thy ===== *)
theory Hud_View
  imports Style_Overlay "HOL-Library.AList"
begin

text \<open>
  The app's heads-up display: display metrics (\<open>hotki-app/src/display.rs\<close>), the
  overlay window state (\<open>overlay.rs\<close>), the transient key presses and the HUD
  (\<open>hud.rs\<close>).  An instant is a number of nanoseconds.  Measuring and painting are
  left to the graphics library: a frame gets the geometry it computes and whether the
  native window exists.
\<close>

subsection \<open>Displays\<close>

definition DEFAULT_FRAME :: display_frame where
  "DEFAULT_FRAME = \<lparr>frame_id = 0, frame_x = 0, frame_y = 0, frame_width = 0x44B40000, frame_height = 0x44610000\<rparr>"

record display_metrics =
  dm_active :: "display_frame option"
  dm_frames :: "display_frame list"
  dm_global_top :: f32

definition metrics_default :: display_metrics where
  "metrics_default = \<lparr>dm_active = None, dm_frames = [], dm_global_top = 0\<rparr>"

definition metrics_from_snapshot :: "displays_snapshot \<Rightarrow> display_metrics" where
  "metrics_from_snapshot s =
     \<lparr>dm_active = active_display s, dm_frames = all_displays s, dm_global_top = global_top s\<rparr>"

definition active_frame :: "display_metrics \<Rightarrow> display_frame" where
  "active_frame m =
     (case dm_active m of
        Some f \<Rightarrow> f
      | None \<Rightarrow> (case dm_frames m of f # _ \<Rightarrow> f | [] \<Rightarrow> DEFAULT_FRAME))"

subsection \<open>Overlay windows\<close>

type_synonym vec2 = "f32 \<times> f32"

record overlay_window =
  ow_id :: string
  ow_metrics :: display_metrics
  ow_last_pos :: "vec2 option"
  ow_last_size :: "vec2 option"

definition overlay_new :: "string \<Rightarrow> overlay_window" where
  "overlay_new i = \<lparr>ow_id = i, ow_metrics = metrics_default, ow_last_pos = None, ow_last_size = None\<rparr>"

definition overlay_reset_geometry :: "overlay_window \<Rightarrow> overlay_window" where
  "overlay_reset_geometry w = w\<lparr>ow_last_pos := None, ow_last_size := None\<rparr>"

definition overlay_hide :: "overlay_window \<Rightarrow> overlay_window" where
  "overlay_hide w = overlay_reset_geometry w"

definition metrics_changed :: "display_metrics \<Rightarrow> display_metrics \<Rightarrow> bool" where
  "metrics_changed old metrics \<longleftrightarrow> \<not> frame_eq (active_frame old) (active_frame metrics)"

definition overlay_set_display_metrics :: "display_metrics \<Rightarrow> overlay_window \<Rightarrow> overlay_window" where
  "overlay_set_display_metrics metrics w =
     (let changed = metrics_changed (ow_metrics w) metrics; w = w\<lparr>ow_metrics := metrics\<rparr>
      in if changed then w\<lparr>ow_last_pos := None\<rparr> else w)"

definition overlay_record_geometry :: "vec2 \<Rightarrow> vec2 \<Rightarrow> overlay_window \<Rightarrow> overlay_window" where
  "overlay_record_geometry pos sz w = w\<lparr>ow_last_pos := Some pos, ow_last_size := Some sz\<rparr>"

text \<open>The commands a frame sends to the window: a changed position or size.\<close>

datatype viewport_command = OuterPosition vec2 | InnerSize vec2

definition overlay_sync :: "vec2 \<Rightarrow> vec2 \<Rightarrow> overlay_window \<Rightarrow> viewport_command list" where
  "overlay_sync pos sz w =
     (if rel_option (\<lambda>a b. f32_eq (fst a) (fst b) \<and> f32_eq (snd a) (snd b)) (ow_last_pos w) (Some pos) then [] else [OuterPosition pos])
     @ (if rel_option (\<lambda>a b. f32_eq (fst a) (fst b) \<and> f32_eq (snd a) (snd b)) (ow_last_size w) (Some sz) then [] else [InnerSize sz])"

lemma overlay_metrics [simp]:
  "ow_metrics (overlay_reset_geometry w) = ow_metrics w" "ow_metrics (overlay_hide w) = ow_metrics w"
  "ow_metrics (overlay_set_display_metrics m w) = m" "ow_metrics (overlay_record_geometry p s w) = ow_metrics w"
  "ow_metrics (overlay_new i) = metrics_default"
  by (simp_all add: overlay_reset_geometry_def overlay_hide_def overlay_set_display_metrics_def
      overlay_record_geometry_def overlay_new_def Let_def)

subsection \<open>Key presses\<close>

text \<open>The gestures of the hash map, each canonical chord text with its gesture.\<close>

record hud_press_gesture =
  pg_down_at :: nat
  pg_held :: bool

type_synonym hud_press_state = "(string \<times> hud_press_gesture) list"

definition press_apply :: "chord \<Rightarrow> bool \<Rightarrow> nat \<Rightarrow> hud_press_state \<Rightarrow> hud_press_state" where
  "press_apply chord pressed now ps =
     (let key = chord_to_string chord
      in if pressed
         then (case map_of ps key of
                 None \<Rightarrow> AList.update key \<lparr>pg_down_at = now, pg_held = True\<rparr> ps
               | Some g \<Rightarrow> if \<not> pg_held g then AList.update key \<lparr>pg_down_at = now, pg_held = True\<rparr> ps else ps)
         else (case map_of ps key of
                 Some g \<Rightarrow> AList.update key (g\<lparr>pg_held := False\<rparr>) ps
               | None \<Rightarrow> ps))"

definition press_reconcile :: "hud_row list \<Rightarrow> bool \<Rightarrow> hud_mode \<Rightarrow> hud_press_state \<Rightarrow> hud_press_state" where
  "press_reconcile rows visible mode ps =
     (if \<not> visible \<or> mode \<noteq> Mode_Hud then []
      else filter (\<lambda>(key, _). \<exists>row\<in>set rows. row_stay row \<and> chord_to_string (row_chord row) = key) ps)"

definition press_lit :: "nat \<Rightarrow> nat \<Rightarrow> hud_press_gesture \<Rightarrow> bool" where
  "press_lit now minimum g \<longleftrightarrow> pg_held g \<or> now < pg_down_at g + minimum"

definition press_expire :: "nat \<Rightarrow> nat \<Rightarrow> hud_press_state \<Rightarrow> hud_press_state" where
  "press_expire now minimum ps = filter (\<lambda>(_, g). press_lit now minimum g) ps"

definition press_is_active :: "chord \<Rightarrow> nat \<Rightarrow> nat \<Rightarrow> hud_press_state \<Rightarrow> bool" where
  "press_is_active chord now minimum ps =
     (case map_of ps (chord_to_string chord) of Some g \<Rightarrow> press_lit now minimum g | None \<Rightarrow> False)"

definition press_next_deadline :: "nat \<Rightarrow> nat \<Rightarrow> hud_press_state \<Rightarrow> nat option" where
  "press_next_deadline now minimum ps =
     (let deadlines = filter (\<lambda>d. now < d) (map (\<lambda>(_, g). pg_down_at g + minimum) (filter (\<lambda>(_, g). \<not> pg_held g) ps))
      in if deadlines = [] then None else Some (min_list deadlines))"

subsection \<open>The HUD\<close>

text \<open>The derived comparison of styles; floats compare as IEEE numbers.\<close>

definition hud_style_eq :: "hud_style \<Rightarrow> hud_style \<Rightarrow> bool" where
  "hud_style_eq a b \<longleftrightarrow>
     hs_mode a = hs_mode b \<and> hs_pos a = hs_pos b
     \<and> f32_eq (offset_x (hs_offset a)) (offset_x (hs_offset b)) \<and> f32_eq (offset_y (hs_offset a)) (offset_y (hs_offset b))
     \<and> f32_eq (hs_font_size a) (hs_font_size b) \<and> hs_title_font_weight a = hs_title_font_weight b
     \<and> f32_eq (hs_key_font_size a) (hs_key_font_size b) \<and> hs_key_font_weight a = hs_key_font_weight b
     \<and> f32_eq (hs_tag_font_size a) (hs_tag_font_size b) \<and> hs_tag_font_weight a = hs_tag_font_weight b
     \<and> hs_title_fg a = hs_title_fg b \<and> hs_bg a = hs_bg b \<and> hs_key_fg a = hs_key_fg b \<and> hs_key_bg a = hs_key_bg b
     \<and> hs_mod_fg a = hs_mod_fg b \<and> hs_mod_font_weight a = hs_mod_font_weight b \<and> hs_mod_bg a = hs_mod_bg b
     \<and> hs_tag_fg a = hs_tag_fg b \<and> f32_eq (hs_opacity a) (hs_opacity b)
     \<and> f32_eq (hs_key_radius a) (hs_key_radius b) \<and> f32_eq (hs_key_pad_x a) (hs_key_pad_x b)
     \<and> f32_eq (hs_key_pad_y a) (hs_key_pad_y b) \<and> f32_eq (hs_radius a) (hs_radius b)
     \<and> hs_tag_submenu a = hs_tag_submenu b \<and> hs_pressed a = hs_pressed b"

record hud =
  hud_visible :: bool
  hud_cfg :: hud_style
  hud_viewport :: overlay_window
  hud_rows :: "hud_row list"
  hud_breadcrumbs :: "string list"
  hud_presses :: hud_press_state
  hud_window_configured :: bool

definition hud_new :: "hud_style \<Rightarrow> hud" where
  "hud_new cfg =
     \<lparr>hud_visible = False, hud_cfg = cfg, hud_viewport = overlay_new ''hotki_hud'', hud_rows = [],
      hud_breadcrumbs = [], hud_presses = [], hud_window_configured = False\<rparr>"

definition hud_set_style :: "hud_style \<Rightarrow> hud \<Rightarrow> hud" where
  "hud_set_style cfg h =
     (if \<not> hud_style_eq (hud_cfg h) cfg
      then (if hs_mode cfg \<noteq> Mode_Hud then h\<lparr>hud_presses := []\<rparr> else h)
             \<lparr>hud_cfg := cfg, hud_viewport := overlay_reset_geometry (hud_viewport h), hud_window_configured := False\<rparr>
      else h)"

definition hud_set_key_state :: "chord \<Rightarrow> bool \<Rightarrow> nat \<Rightarrow> hud \<Rightarrow> hud" where
  "hud_set_key_state chord pressed now h = h\<lparr>hud_presses := press_apply chord pressed now (hud_presses h)\<rparr>"

definition hud_clear_key_state :: "hud \<Rightarrow> hud" where
  "hud_clear_key_state h = h\<lparr>hud_presses := []\<rparr>"

definition hud_set_state :: "hud_row list \<Rightarrow> bool \<Rightarrow> string list \<Rightarrow> hud \<Rightarrow> hud" where
  "hud_set_state rows visible breadcrumbs h =
     (let h = h\<lparr>hud_rows := rows, hud_breadcrumbs := breadcrumbs,
               hud_presses := press_reconcile rows visible (hs_mode (hud_cfg h)) (hud_presses h)\<rparr>;
          h = (if visible \<and> \<not> hud_visible h
               then h\<lparr>hud_viewport := overlay_reset_geometry (hud_viewport h), hud_window_configured := False\<rparr>
               else if \<not> visible then h\<lparr>hud_window_configured := False\<rparr> else h)
      in h\<lparr>hud_visible := visible\<rparr>)"

definition hud_hide :: "hud \<Rightarrow> hud" where
  "hud_hide h =
     h\<lparr>hud_visible := False, hud_rows := [], hud_breadcrumbs := [], hud_presses := [],
       hud_window_configured := False, hud_viewport := overlay_hide (hud_viewport h)\<rparr>"

definition hud_set_display_metrics :: "display_metrics \<Rightarrow> hud \<Rightarrow> hud" where
  "hud_set_display_metrics metrics h = h\<lparr>hud_viewport := overlay_set_display_metrics metrics (hud_viewport h)\<rparr>"

text \<open>The colors of a row.\<close>

record hud_row_palette =
  pal_bg :: "rgb option"
  pal_title_fg :: rgb
  pal_key_fg :: rgb
  pal_key_bg :: rgb
  pal_mod_fg :: rgb
  pal_mod_bg :: rgb
  pal_tag_fg :: rgb

definition palette_resolve :: "hud_style \<Rightarrow> bool \<Rightarrow> hud_row_palette" where
  "palette_resolve style pressed =
     (if pressed
      then (let p = hs_pressed style in
            \<lparr>pal_bg = Some (hp_bg p), pal_title_fg = hp_title_fg p, pal_key_fg = hp_key_fg p, pal_key_bg = hp_key_bg p,
             pal_mod_fg = hp_mod_fg p, pal_mod_bg = hp_mod_bg p, pal_tag_fg = hp_tag_fg p\<rparr>)
      else \<lparr>pal_bg = None, pal_title_fg = hs_title_fg style, pal_key_fg = hs_key_fg style, pal_key_bg = hs_key_bg style,
            pal_mod_fg = hs_mod_fg style, pal_mod_bg = hs_mod_bg style, pal_tag_fg = hs_tag_fg style\<rparr>)"

definition hud_tokens_for_chord :: "chord \<Rightarrow> (string \<times> bool) list" where
  "hud_tokens_for_chord c =
     map (\<lambda>m. (modifier_to_spec m, True)) (sorted_list_of_set (modifiers c))
     @ [(key_to_spec (chord_key c), modifier_try_from (chord_key c) \<noteq> None)]"

text \<open>
  A frame at \<open>now\<close>: the palette of each row, and the delay after which a repaint is
  requested.
\<close>

definition press_minimum :: "hud_style \<Rightarrow> nat" where
  "press_minimum cfg = unat (hp_min_duration_ms (hs_pressed cfg)) * 1000000"

record hud_frame =
  hf_palettes :: "hud_row_palette list"
  hf_repaint_after :: "nat option"
  hf_commands :: "viewport_command list"

definition hud_render :: "nat \<Rightarrow> vec2 \<times> vec2 \<Rightarrow> bool \<Rightarrow> hud \<Rightarrow> hud_frame option \<times> hud" where
  "hud_render now geometry native h =
     (if \<not> hud_visible h then (None, h\<lparr>hud_viewport := overlay_hide (hud_viewport h)\<rparr>)
      else (let minimum = press_minimum (hud_cfg h);
                ps = press_expire now minimum (hud_presses h);
                (pos, sz) = geometry
            in (Some \<lparr>hf_palettes = (if hs_mode (hud_cfg h) = Mode_Mini then []
                        else map (\<lambda>row. palette_resolve (hud_cfg h) (press_is_active (row_chord row) now minimum ps)) (hud_rows h)),
                      hf_repaint_after = map_option (\<lambda>d. d - now) (press_next_deadline now minimum ps),
                      hf_commands = overlay_sync pos sz (hud_viewport h)\<rparr>,
                h\<lparr>hud_presses := ps, hud_window_configured := hud_window_configured h \<or> native,
                  hud_viewport := overlay_record_geometry pos sz (hud_viewport h)\<rparr>)))"

subsection \<open>Highlights do not depend on the frame rate\<close>

text \<open>What happens to the presses over time; a frame expires gestures.\<close>

datatype press_step = PS_Key chord bool | PS_Sync "hud_row list" bool hud_mode | PS_Clear | PS_Frame

fun press_advance :: "nat \<Rightarrow> nat \<times> press_step \<Rightarrow> hud_press_state \<Rightarrow> hud_press_state" where
  "press_advance minimum (now, PS_Key c pressed) ps = press_apply c pressed now ps"
| "press_advance minimum (now, PS_Sync rows visible mode) ps = press_reconcile rows visible mode ps"
| "press_advance minimum (now, PS_Clear) ps = []"
| "press_advance minimum (now, PS_Frame) ps = press_expire now minimum ps"

definition press_run :: "nat \<Rightarrow> (nat \<times> press_step) list \<Rightarrow> hud_press_state" where
  "press_run minimum es = fold (press_advance minimum) es []"

definition without_frames :: "(nat \<times> press_step) list \<Rightarrow> (nat \<times> press_step) list" where
  "without_frames es = filter (\<lambda>(_, e). e \<noteq> PS_Frame) es"

text \<open>
  At a time \<open>now\<close> two states agree when every key has the same gesture, save released
  gestures that have run out.
\<close>

definition gesture_agree :: "nat \<Rightarrow> nat \<Rightarrow> hud_press_gesture option \<Rightarrow> hud_press_gesture option \<Rightarrow> bool" where
  "gesture_agree minimum now a b \<longleftrightarrow> a = b \<or> a = None \<and> (case b of Some g \<Rightarrow> \<not> press_lit now minimum g | None \<Rightarrow> True)"

definition presses_agree :: "nat \<Rightarrow> nat \<Rightarrow> hud_press_state \<Rightarrow> hud_press_state \<Rightarrow> bool" where
  "presses_agree minimum now ps qs \<longleftrightarrow> distinct (map fst ps) \<and> distinct (map fst qs) \<and>
     (\<forall>key. gesture_agree minimum now (map_of ps key) (map_of qs key))"

lemma map_of_filter_pairs:
  "distinct (map fst ps) \<Longrightarrow>
    map_of (filter P ps) key = (case map_of ps key of Some g \<Rightarrow> if P (key, g) then Some g else None | None \<Rightarrow> None)"
proof (induction ps)
  case (Cons a ps)
  have "map_of (filter P ps) (fst a) = None" if "fst a \<notin> fst ` set ps"
    using that by (auto simp: map_of_eq_None_iff)
  then show ?case using Cons by (cases a) auto
qed simp

lemma distinct_filter_keys: "distinct (map fst ps) \<Longrightarrow> distinct (map fst (filter P ps))"
  by (induction ps) auto

lemma press_lit_later: "\<not> press_lit now minimum g \<Longrightarrow> now \<le> t \<Longrightarrow> \<not> press_lit t minimum g"
  by (auto simp: press_lit_def)

lemma map_of_press_apply:
  "map_of (press_apply c pressed now ps) key =
     (if key = chord_to_string c
      then (if pressed
            then (case map_of ps key of
                    Some g \<Rightarrow> if pg_held g then Some g else Some \<lparr>pg_down_at = now, pg_held = True\<rparr>
                  | None \<Rightarrow> Some \<lparr>pg_down_at = now, pg_held = True\<rparr>)
            else map_option (\<lambda>g. g\<lparr>pg_held := False\<rparr>) (map_of ps key))
      else map_of ps key)"
  by (auto simp: press_apply_def Let_def AList.update_conv' split: option.split)

lemma distinct_press_apply: "distinct (map fst ps) \<Longrightarrow> distinct (map fst (press_apply c pressed now ps))"
  by (auto simp: press_apply_def Let_def AList.distinct_update split: option.split)

lemma agree_refl: "distinct (map fst ps) \<Longrightarrow> presses_agree minimum now ps ps"
  by (simp add: presses_agree_def gesture_agree_def)

lemma gesture_agree_later: "gesture_agree minimum now a b \<Longrightarrow> now \<le> t \<Longrightarrow> gesture_agree minimum t a b"
  by (auto simp: gesture_agree_def press_lit_def split: option.splits)

lemma agree_later: "presses_agree minimum now ps qs \<Longrightarrow> now \<le> t \<Longrightarrow> presses_agree minimum t ps qs"
  unfolding presses_agree_def using gesture_agree_later by blast

lemma agreeI:
  assumes "distinct (map fst ps)" "distinct (map fst qs)"
    and "\<And>key. gesture_agree minimum now (map_of ps key) (map_of qs key)"
  shows "presses_agree minimum now ps qs"
  using assms by (simp add: presses_agree_def)

lemma agree_key:
  assumes "presses_agree minimum now ps qs"
  shows "presses_agree minimum now (press_apply c pressed now ps) (press_apply c pressed now qs)"
proof (rule agreeI)
  fix key
  have "gesture_agree minimum now (map_of ps key) (map_of qs key)" using assms by (simp add: presses_agree_def)
  then show "gesture_agree minimum now (map_of (press_apply c pressed now ps) key) (map_of (press_apply c pressed now qs) key)"
    unfolding map_of_press_apply
    by (cases "map_of ps key"; cases "map_of qs key") (auto simp: gesture_agree_def press_lit_def)
qed (use assms in \<open>simp_all add: presses_agree_def distinct_press_apply\<close>)

lemma agree_filter:
  assumes "presses_agree minimum now ps qs"
  shows "presses_agree minimum now (filter (\<lambda>(key, _). P key) ps) (filter (\<lambda>(key, _). P key) qs)"
proof (rule agreeI)
  fix key
  have d: "distinct (map fst ps)" "distinct (map fst qs)" using assms by (simp_all add: presses_agree_def)
  have "gesture_agree minimum now (map_of ps key) (map_of qs key)" using assms by (simp add: presses_agree_def)
  then show "gesture_agree minimum now (map_of (filter (\<lambda>(key, _). P key) ps) key) (map_of (filter (\<lambda>(key, _). P key) qs) key)"
    unfolding map_of_filter_pairs [OF d(1)] map_of_filter_pairs [OF d(2)]
    by (cases "map_of ps key"; cases "map_of qs key") (auto simp: gesture_agree_def)
qed (use assms in \<open>simp_all add: presses_agree_def distinct_filter_keys\<close>)

lemma agree_sync:
  assumes "presses_agree minimum now ps qs"
  shows "presses_agree minimum now (press_reconcile rows visible mode ps) (press_reconcile rows visible mode qs)"
  using agree_filter [OF assms] by (auto simp: press_reconcile_def intro: agree_refl)

lemma agree_frame:
  assumes "presses_agree minimum now ps qs"
  shows "presses_agree minimum now (press_expire now minimum ps) qs"
proof (rule agreeI)
  fix key
  have d: "distinct (map fst ps)" using assms by (simp add: presses_agree_def)
  have "gesture_agree minimum now (map_of ps key) (map_of qs key)" using assms by (simp add: presses_agree_def)
  then show "gesture_agree minimum now (map_of (press_expire now minimum ps) key) (map_of qs key)"
    unfolding press_expire_def map_of_filter_pairs [OF d]
    by (cases "map_of ps key"; cases "map_of qs key") (auto simp: gesture_agree_def)
qed (use assms in \<open>simp_all add: presses_agree_def press_expire_def distinct_filter_keys\<close>)

lemma agree_active:
  assumes "presses_agree minimum now ps qs"
  shows "press_is_active c now minimum ps = press_is_active c now minimum qs"
proof -
  have "gesture_agree minimum now (map_of ps (chord_to_string c)) (map_of qs (chord_to_string c))"
    using assms by (simp add: presses_agree_def)
  then show ?thesis
    by (cases "map_of ps (chord_to_string c)"; cases "map_of qs (chord_to_string c)")
      (auto simp: gesture_agree_def press_is_active_def)
qed

lemma agree_run:
  assumes "presses_agree minimum now ps qs" "sorted (now # map fst es)"
  shows "presses_agree minimum (last (now # map fst es)) (fold (press_advance minimum) es ps)
    (fold (press_advance minimum) (without_frames es) qs)"
  using assms
proof (induction es arbitrary: now ps qs)
  case (Cons a es)
  obtain t e where a: "a = (t, e)" by (cases a)
  have agree: "presses_agree minimum t ps qs" using Cons.prems a by (auto intro: agree_later)
  have rest: "sorted (t # map fst es)" using Cons.prems(2) a by simp
  show ?case
  proof (cases e)
    case (PS_Key c pressed)
    then show ?thesis using Cons.IH [OF agree_key [OF agree] rest] a by (simp add: without_frames_def)
  next
    case (PS_Sync rows visible mode)
    then show ?thesis using Cons.IH [OF agree_sync [OF agree] rest] a by (simp add: without_frames_def)
  next
    case PS_Clear
    then show ?thesis using Cons.IH [OF agree_refl rest] a by (simp add: without_frames_def)
  next
    case PS_Frame
    then show ?thesis using Cons.IH [OF agree_frame [OF agree] rest] a by (simp add: without_frames_def)
  qed
qed (simp add: without_frames_def)

lemma min_list_mem: "xs \<noteq> [] \<Longrightarrow> min_list xs \<in> set xs \<and> (\<forall>x\<in>set xs. min_list xs \<le> (x::nat))"
  by (simp add: min_list_Min)

lemma next_deadline_stable:
  assumes "now \<le> t" "\<And>d. press_next_deadline now minimum ps = Some d \<Longrightarrow> t < d"
  shows "press_is_active c t minimum ps = press_is_active c now minimum ps"
proof -
  let ?ds = "filter (\<lambda>d. now < d) (map (\<lambda>(_, g). pg_down_at g + minimum) (filter (\<lambda>(_, g). \<not> pg_held g) ps))"
  have "press_lit t minimum g = press_lit now minimum g" if "(key, g) \<in> set ps" for key g
  proof (cases "\<not> pg_held g \<and> now < pg_down_at g + minimum")
    case True
    then have m: "pg_down_at g + minimum \<in> set ?ds" using that by force
    then have "min_list ?ds \<le> pg_down_at g + minimum" using min_list_mem [of ?ds] by fastforce
    moreover have "?ds \<noteq> []" using m by (metis empty_iff list.set(1))
    then have "press_next_deadline now minimum ps = Some (min_list ?ds)" by (simp add: press_next_deadline_def Let_def)
    then have "t < min_list ?ds" by (rule assms(2))
    ultimately show ?thesis using True by (simp add: press_lit_def)
  next
    case False
    then show ?thesis using assms(1) by (auto simp: press_lit_def)
  qed
  then show ?thesis by (auto simp: press_is_active_def dest: map_of_SomeD split: option.split)
qed

lemma next_deadline_changes:
  assumes "press_next_deadline now minimum ps = Some d" "distinct (map fst ps)"
  shows "now < d \<and> (\<exists>key g. map_of ps key = Some g \<and> press_lit now minimum g \<and> \<not> press_lit d minimum g)"
proof -
  let ?ds = "filter (\<lambda>d. now < d) (map (\<lambda>(_, g). pg_down_at g + minimum) (filter (\<lambda>(_, g). \<not> pg_held g) ps))"
  have "?ds \<noteq> []" "d = min_list ?ds" using assms(1) by (auto simp: press_next_deadline_def Let_def split: if_splits)
  then have "d \<in> set ?ds" using min_list_mem [of ?ds] by simp
  then obtain key g where "(key, g) \<in> set ps" "\<not> pg_held g" "d = pg_down_at g + minimum" "now < d" by auto
  then show ?thesis using assms(2) by (intro conjI exI [of _ key] exI [of _ g]) (auto simp: press_lit_def)
qed

lemma press_run_distinct: "distinct (map fst (press_run minimum es))"
proof -
  have "distinct (map fst (fold (press_advance minimum) es ps))" if "distinct (map fst ps)" for ps
    using that
  proof (induction es arbitrary: ps)
    case (Cons a es)
    have "distinct (map fst (press_advance minimum a ps))"
      using Cons.prems by (cases "(minimum, a, ps)" rule: press_advance.cases)
        (simp_all add: distinct_press_apply press_reconcile_def press_expire_def distinct_filter_keys)
    then show ?case by (simp add: Cons.IH)
  qed simp
  then show ?thesis by (simp add: press_run_def)
qed

text \<open>
  C31: Which keys are highlighted does not depend on when frames are painted. After any
  events in time order a row is highlighted exactly when it would be had no frame expired a
  gesture; between a frame and the repaint it asks for no highlight changes, and at that
  moment one ends, so no highlight stays on for lack of a frame.
\<close>

theorem highlights_frame_independent:
  assumes "sorted (map fst es @ [now])"
  shows "press_is_active c now minimum (press_run minimum es)
      = press_is_active c now minimum (press_run minimum (without_frames es))
    \<and> (let ps = press_expire now minimum (press_run minimum es) in
         case press_next_deadline now minimum ps of
           None \<Rightarrow> \<forall>t. press_is_active c (now + t) minimum ps = press_is_active c now minimum ps
         | Some d \<Rightarrow> now < d
             \<and> (\<forall>t. d \<le> now + t \<or> press_is_active c (now + t) minimum ps = press_is_active c now minimum ps)
             \<and> (\<exists>key g. map_of ps key = Some g \<and> press_lit now minimum g \<and> \<not> press_lit d minimum g))"
proof -
  have agree: "presses_agree minimum now (press_run minimum es) (press_run minimum (without_frames es))"
  proof (rule agree_later)
    show "presses_agree minimum (last (0 # map fst es)) (press_run minimum es) (press_run minimum (without_frames es))"
      unfolding press_run_def by (rule agree_run [OF agree_refl]) (use assms in \<open>simp_all add: sorted_append\<close>)
    show "last (0 # map fst es) \<le> now" using assms by (cases es rule: rev_cases) (simp_all add: sorted_append)
  qed
  let ?ps = "press_expire now minimum (press_run minimum es)"
  have dist: "distinct (map fst ?ps)" by (simp add: press_expire_def distinct_filter_keys press_run_distinct)
  have stable: "press_is_active c (now + t) minimum ?ps = press_is_active c now minimum ?ps"
    if "\<And>d. press_next_deadline now minimum ?ps = Some d \<Longrightarrow> now + t < d" for t
    using next_deadline_stable [where c = c and now = now and t = "now + t", OF _ that] by simp
  show ?thesis using agree_active [OF agree] stable next_deadline_changes [OF _ dist]
    by (auto simp: Let_def not_le [symmetric] split: option.split)
qed

text \<open>A tap of the command and \<open>A\<close> keys, with frames during and after it.\<close>

theorem highlights_frame_independent_witness:
  "\<exists>es c. es = [(10, PS_Key c True), (15, PS_Frame), (20, PS_Key c False), (30, PS_Frame)]
     \<and> press_is_active c 40 120 (press_run 120 es) = press_is_active c 40 120 (press_run 120 (without_frames es))
     \<and> press_is_active c 40 120 (press_run 120 es)"
proof -
  let ?c = "\<lparr>modifiers = {}, chord_key = Key_A\<rparr>"
  let ?es = "[(10, PS_Key ?c True), (15, PS_Frame), (20, PS_Key ?c False), (30, PS_Frame)]"
  have "sorted (map fst ?es @ [40::nat])" by simp
  from highlights_frame_independent [OF this, of ?c 120]
  show ?thesis
    by (intro exI [of _ ?es] exI [of _ ?c])
      (simp add: press_run_def press_apply_def press_expire_def press_lit_def press_is_active_def Let_def)
qed

text \<open>The tokens of a chord are its canonical text, split at the separators.\<close>

lemma tokens_spell_chord:
  "concat (map (\<lambda>(t, _). t @ ''+'') (butlast (hud_tokens_for_chord c))) @ fst (last (hud_tokens_for_chord c)) = chord_to_string c"
  by (simp add: hud_tokens_for_chord_def chord_to_string_def butlast_append comp_def)

end
