(* ===== verification/Notification_Center.thy ===== *)
theory Notification_Center
  imports Hud_View Hotki_Text
begin

text \<open>
  The app's transient notifications (\<open>hotki-app/src/notification.rs\<close>): the live
  stack with its lifetimes and the backlog.  Cards are measured, placed and animated by
  the graphics library, so a frame gets the position and size of each card and whether it
  lies above the bottom of the display.
\<close>

subsection \<open>Lifetimes\<close>

definition NOTIFICATION_TIMEOUT_MIN_SECS :: f32 where "NOTIFICATION_TIMEOUT_MIN_SECS = 0x3DCCCCCD"
definition NOTIFICATION_TIMEOUT_MAX_SECS :: f32 where "NOTIFICATION_TIMEOUT_MAX_SECS = 0x45610000"

definition f32_clamp :: "f32 \<Rightarrow> f32 \<Rightarrow> f32 \<Rightarrow> f32" where
  "f32_clamp x lo hi =
     (if \<not> f32_nan x \<and> f32_rank x < f32_rank lo then lo
      else if \<not> f32_nan x \<and> f32_rank hi < f32_rank x then hi else x)"

text \<open>
  \<open>Duration::from_secs_f32\<close> for positive numbers below \<open>2 ^ 23\<close>: the nearest
  nanosecond, ties to even.
\<close>

definition nanos_of_secs :: "f32 \<Rightarrow> nat" where
  "nanos_of_secs x =
     (let e = unat (drop_bit 23 x); m = unat (x AND 0x7FFFFF) + (if e = 0 then 0 else 2 ^ 23);
          k = 150 - max e 1; n = m * 1000000000; q = n div 2 ^ k; r = n mod 2 ^ k
      in if 2 ^ k < 2 * r \<or> (2 * r = 2 ^ k \<and> odd q) then q + 1 else q)"

definition notification_timeout :: "f32 \<Rightarrow> nat" where
  "notification_timeout timeout =
     nanos_of_secs
       (if f32_finite timeout then f32_clamp timeout NOTIFICATION_TIMEOUT_MIN_SECS NOTIFICATION_TIMEOUT_MAX_SECS
        else NOTIFICATION_TIMEOUT_MIN_SECS)"

subsection \<open>The notification center\<close>

record backlog_entry =
  be_kind :: notify_kind
  be_title :: string
  be_text :: string
  be_received_at :: nat

record notification_item =
  ni_viewport :: overlay_window
  ni_dev_id :: string
  ni_title :: string
  ni_text :: string
  ni_kind :: notify_kind
  ni_created :: nat
  ni_timeout :: nat
  ni_snap_to_target :: bool
  ni_window_configured :: bool

record notification_center =
  nx_items :: "notification_item list"
  nx_backlog :: "backlog_entry list"
  nx_max_items :: nat
  nx_width :: f32
  nx_side :: notify_pos
  nx_opacity :: f32
  nx_timeout :: nat
  nx_counter :: nat
  nx_theme :: notify_theme
  nx_radius :: f32
  nx_metrics :: display_metrics

definition contains_kind :: "notify_kind \<Rightarrow> notification_center \<Rightarrow> bool" where
  "contains_kind kind c = list_ex (\<lambda>i. ni_kind i = kind) (nx_items c)"

definition notification_center_new :: "notify_config \<Rightarrow> notification_center" where
  "notification_center_new cfg =
     \<lparr>nx_items = [], nx_backlog = [], nx_max_items = unat (nc_buffer cfg), nx_width = nc_width cfg,
      nx_side = nc_pos cfg, nx_opacity = nc_opacity cfg, nx_timeout = notification_timeout (nc_timeout cfg),
      nx_counter = 0, nx_theme = nc_theme cfg, nx_radius = nc_radius cfg, nx_metrics = metrics_default\<rparr>"

definition next_notification_identity :: "notification_center \<Rightarrow> (overlay_window \<times> string) \<times> notification_center" where
  "next_notification_identity c =
     (let i = nx_counter c + 1
      in ((overlay_new (''hotki_notify_'' @ string_of_nat i), ''notification.live.'' @ string_of_nat i), c\<lparr>nx_counter := i\<rparr>))"

definition nx_set_display_metrics :: "display_metrics \<Rightarrow> notification_center \<Rightarrow> notification_center" where
  "nx_set_display_metrics metrics c =
     (let changed = metrics_changed (nx_metrics c) metrics; c = c\<lparr>nx_metrics := metrics\<rparr>
      in if changed
         then c\<lparr>nx_items := map (\<lambda>i. i\<lparr>ni_viewport := overlay_reset_geometry (ni_viewport i), ni_snap_to_target := True\<rparr>) (nx_items c)\<rparr>
         else c)"

text \<open>\<open>now\<close> is the instant and \<open>wall\<close> the local time of the call.\<close>

definition nx_push :: "nat \<Rightarrow> nat \<Rightarrow> notify_kind \<Rightarrow> string \<Rightarrow> string \<Rightarrow> notification_center \<Rightarrow> notification_center" where
  "nx_push now wall kind title content c =
     (let entry = \<lparr>be_kind = kind, be_title = title, be_text = content, be_received_at = wall\<rparr>;
          backlog = entry # nx_backlog c;
          backlog = (if nx_max_items c < length backlog then take (nx_max_items c) backlog else backlog);
          ((viewport, dev_id), c) = next_notification_identity (c\<lparr>nx_backlog := backlog\<rparr>);
          i = \<lparr>ni_viewport = viewport, ni_dev_id = dev_id, ni_title = title, ni_text = content, ni_kind = kind,
               ni_created = now, ni_timeout = nx_timeout c, ni_snap_to_target = True, ni_window_configured = False\<rparr>
      in c\<lparr>nx_items := i # nx_items c\<rparr>)"

text \<open>Popping the last item while there are too many.\<close>

function trim_items :: "nat \<Rightarrow> 'a list \<Rightarrow> 'a list" where
  "trim_items max_items xs = (if max_items < length xs then trim_items max_items (butlast xs) else xs)"
  by pat_completeness auto
termination by (relation "measure (\<lambda>(n, xs). length xs)") auto

declare trim_items.simps [simp del]

definition trim_live_items :: "notification_center \<Rightarrow> notification_center" where
  "trim_live_items c = c\<lparr>nx_items := trim_items (nx_max_items c) (nx_items c)\<rparr>"

text \<open>
  \<open>layout\<close> gives each item its position and size, and whether it is on the display: an item
  that is not is hidden, which forgets its geometry, and stays in the stack.
\<close>

definition nx_retain :: "nat \<Rightarrow> notification_center \<Rightarrow> notification_center" where
  "nx_retain now c = c\<lparr>nx_items := filter (\<lambda>i. now - ni_created i < ni_timeout i) (nx_items c)\<rparr>"

definition place_item :: "(notification_item \<Rightarrow> vec2 \<times> vec2 \<times> bool) \<Rightarrow> bool \<Rightarrow> notification_item \<Rightarrow> notification_item" where
  "place_item layout native i =
     (let (pos, sz, on_display) = layout i; i = i\<lparr>ni_snap_to_target := False\<rparr>
      in if \<not> on_display then i\<lparr>ni_viewport := overlay_hide (ni_viewport i)\<rparr>
         else i\<lparr>ni_window_configured := ni_window_configured i \<or> native,
                ni_viewport := overlay_record_geometry pos sz (ni_viewport i)\<rparr>)"

definition nx_render ::
    "nat \<Rightarrow> (notification_item \<Rightarrow> vec2 \<times> vec2 \<times> bool) \<Rightarrow> bool \<Rightarrow> notification_center \<Rightarrow> notification_center" where
  "nx_render now layout native c =
     (let c = trim_live_items (nx_retain now c)
      in c\<lparr>nx_items := map (place_item layout native) (nx_items c)\<rparr>)"

definition nx_reconfigure :: "notify_config \<Rightarrow> notification_center \<Rightarrow> notification_center" where
  "nx_reconfigure cfg c =
     (let c = c\<lparr>nx_max_items := unat (nc_buffer cfg), nx_width := nc_width cfg, nx_side := nc_pos cfg,
               nx_opacity := nc_opacity cfg, nx_timeout := notification_timeout (nc_timeout cfg),
               nx_theme := nc_theme cfg\<rparr>;
          c = (if \<not> f32_eq (nx_radius c) (nc_radius cfg)
               then c\<lparr>nx_radius := nc_radius cfg,
                      nx_items := map (\<lambda>i. i\<lparr>ni_window_configured := False\<rparr>) (nx_items c)\<rparr>
               else c)
      in if nx_max_items c < length (nx_backlog c)
         then c\<lparr>nx_backlog := take (nx_max_items c) (nx_backlog c)\<rparr> else c)"

definition nx_clear_all :: "notification_center \<Rightarrow> notification_center" where
  "nx_clear_all c = c\<lparr>nx_items := [], nx_backlog := []\<rparr>"

record notification_alias =
  na_index :: nat
  na_live_id :: string
  na_kind :: string
  na_title :: string

fun notify_kind_label :: "notify_kind \<Rightarrow> string" where
  "notify_kind_label NK_Info = ''info''"
| "notify_kind_label NK_Warn = ''warn''"
| "notify_kind_label NK_Error = ''error''"
| "notify_kind_label NK_Success = ''success''"
| "notify_kind_label NK_Ignore = ''ignore''"

definition stack_aliases :: "notification_center \<Rightarrow> notification_alias list" where
  "stack_aliases c =
     map (\<lambda>(index, i). \<lparr>na_index = index, na_live_id = ni_dev_id i, na_kind = notify_kind_label (ni_kind i), na_title = ni_title i\<rparr>)
       (enumerate 0 (nx_items c))"

subsection \<open>Facts about the operations\<close>

lemma trim_items_take: "trim_items n xs = take n xs"
proof (induction n xs rule: trim_items.induct)
  case (1 n xs)
  show ?case
  proof (cases "n < length xs")
    case True
    then have "trim_items n xs = take n (butlast xs)" using 1 by (simp add: trim_items.simps [of n xs])
    also have "\<dots> = take n xs" using True by (simp add: butlast_conv_take)
    finally show ?thesis .
  qed (simp add: trim_items.simps [of n xs])
qed

text \<open>What a card shows and how long it lives.\<close>

type_synonym notice = "nat \<times> nat \<times> notify_kind \<times> string \<times> string"

definition note_of :: "notification_item \<Rightarrow> notice" where
  "note_of i = (ni_created i, ni_timeout i, ni_kind i, ni_title i, ni_text i)"

definition live :: "nat \<Rightarrow> notice \<Rightarrow> bool" where
  "live now n \<longleftrightarrow> now - fst n < fst (snd n)"

definition entry_of :: "backlog_entry \<Rightarrow> notify_kind \<times> string \<times> string" where
  "entry_of e = (be_kind e, be_title e, be_text e)"

definition stack_notes :: "notification_center \<Rightarrow> notice list" where
  "stack_notes c = map note_of (nx_items c)"

definition shown_backlog :: "notification_center \<Rightarrow> (notify_kind \<times> string \<times> string) list" where
  "shown_backlog c = map entry_of (nx_backlog c)"

lemma shown_set_display_metrics [simp]:
  "stack_notes (nx_set_display_metrics m c) = stack_notes c" "shown_backlog (nx_set_display_metrics m c) = shown_backlog c"
  "nx_max_items (nx_set_display_metrics m c) = nx_max_items c" "nx_timeout (nx_set_display_metrics m c) = nx_timeout c"
  "nx_metrics (nx_set_display_metrics m c) = m"
  by (simp_all add: stack_notes_def shown_backlog_def nx_set_display_metrics_def Let_def note_of_def comp_def)

lemma shown_push [simp]:
  "stack_notes (nx_push now wall kind title content c) = (now, nx_timeout c, kind, title, content) # stack_notes c"
  "shown_backlog (nx_push now wall kind title content c) = take (nx_max_items c) ((kind, title, content) # shown_backlog c)"
  "nx_max_items (nx_push now wall kind title content c) = nx_max_items c"
  "nx_timeout (nx_push now wall kind title content c) = nx_timeout c"
  by (simp_all add: stack_notes_def shown_backlog_def nx_push_def next_notification_identity_def Let_def note_of_def
      entry_of_def take_map take_Cons' not_less)

lemma filter_notes: "map note_of (filter (\<lambda>i. now - ni_created i < ni_timeout i) xs) = filter (live now) (map note_of xs)"
  by (simp add: filter_map comp_def live_def note_of_def)

lemma note_of_frame [simp]: "note_of (place_item layout native i) = note_of i"
  by (simp add: note_of_def place_item_def Let_def split: prod.split)

text \<open>The stack that a frame lays out, and the cards with a window on screen after it.\<close>

definition live_items :: "nat \<Rightarrow> notification_center \<Rightarrow> notification_item list" where
  "live_items now c = nx_items (trim_live_items (nx_retain now c))"

definition painted :: "notification_center \<Rightarrow> notification_item list" where
  "painted c = filter (\<lambda>i. ow_last_pos (ni_viewport i) \<noteq> None) (nx_items c)"

definition painted_geometry :: "notification_center \<Rightarrow> (vec2 option \<times> vec2 option) list" where
  "painted_geometry c = map (\<lambda>i. (ow_last_pos (ni_viewport i), ow_last_size (ni_viewport i))) (painted c)"

lemma place_item_viewport:
  "ow_last_pos (ni_viewport (place_item layout native i)) = (if snd (snd (layout i)) then Some (fst (layout i)) else None)"
  "ow_last_size (ni_viewport (place_item layout native i)) = (if snd (snd (layout i)) then Some (fst (snd (layout i))) else None)"
  by (simp_all add: place_item_def overlay_hide_def overlay_reset_geometry_def overlay_record_geometry_def Let_def split: prod.split)

lemma painted_render:
  "painted (nx_render now layout native c) = map (place_item layout native) (filter (\<lambda>i. snd (snd (layout i))) (live_items now c))"
  by (simp add: painted_def nx_render_def live_items_def Let_def filter_map comp_def place_item_viewport)

lemma painted_geometry_render:
  "painted_geometry (nx_render now layout native c)
     = map (\<lambda>i. (Some (fst (layout i)), Some (fst (snd (layout i))))) (filter (\<lambda>i. snd (snd (layout i))) (live_items now c))"
  by (simp add: painted_geometry_def painted_render place_item_viewport)

lemma live_items_notes: "map note_of (live_items now c) = take (nx_max_items c) (filter (live now) (stack_notes c))"
  by (simp add: live_items_def trim_live_items_def trim_items_take nx_retain_def stack_notes_def take_map [symmetric] filter_notes)

lemma shown_render [simp]:
  "stack_notes (nx_render now layout native c) = take (nx_max_items c) (filter (live now) (stack_notes c))"
  "shown_backlog (nx_render now layout native c) = shown_backlog c"
  "nx_max_items (nx_render now layout native c) = nx_max_items c" "nx_timeout (nx_render now layout native c) = nx_timeout c"
  using live_items_notes [of now c]
  by (simp_all add: stack_notes_def live_items_def shown_backlog_def nx_render_def trim_live_items_def nx_retain_def Let_def comp_def)

lemma shown_reconfigure [simp]:
  "stack_notes (nx_reconfigure cfg c) = stack_notes c"
  "shown_backlog (nx_reconfigure cfg c) = take (unat (nc_buffer cfg)) (shown_backlog c)"
  "nx_max_items (nx_reconfigure cfg c) = unat (nc_buffer cfg)"
  "nx_timeout (nx_reconfigure cfg c) = notification_timeout (nc_timeout cfg)"
  by (simp_all add: stack_notes_def shown_backlog_def nx_reconfigure_def Let_def note_of_def comp_def take_map)

lemma shown_clear [simp]:
  "stack_notes (nx_clear_all c) = []" "shown_backlog (nx_clear_all c) = []"
  "nx_max_items (nx_clear_all c) = nx_max_items c" "nx_timeout (nx_clear_all c) = nx_timeout c"
  by (simp_all add: stack_notes_def shown_backlog_def nx_clear_all_def)

subsection \<open>The stack is determined by the history\<close>

datatype nx_op =
    NX_Push nat nat notify_kind string string
  | NX_Clear
  | NX_Metrics display_metrics
  | NX_Configure notify_config
  | NX_Frame nat "notification_item \<Rightarrow> vec2 \<times> vec2 \<times> bool" bool

primrec nx_apply :: "nx_op \<Rightarrow> notification_center \<Rightarrow> notification_center" where
  "nx_apply (NX_Push now wall kind title content) c = nx_push now wall kind title content c"
| "nx_apply NX_Clear c = nx_clear_all c"
| "nx_apply (NX_Metrics m) c = nx_set_display_metrics m c"
| "nx_apply (NX_Configure cfg) c = nx_reconfigure cfg c"
| "nx_apply (NX_Frame now layout native) c = nx_render now layout native c"

primrec op_time :: "nx_op \<Rightarrow> nat option" where
  "op_time (NX_Push now wall kind title content) = Some now"
| "op_time NX_Clear = None"
| "op_time (NX_Metrics m) = None"
| "op_time (NX_Configure cfg) = None"
| "op_time (NX_Frame now layout native) = Some now"

primrec is_configure :: "nx_op \<Rightarrow> bool" where
  "is_configure (NX_Push now wall kind title content) = False"
| "is_configure NX_Clear = False"
| "is_configure (NX_Metrics m) = False"
| "is_configure (NX_Configure cfg) = True"
| "is_configure (NX_Frame now layout native) = False"

text \<open>What was pushed since the stack was cleared, newest first.\<close>

primrec pushed_after :: "nx_op \<Rightarrow> (nat \<times> notify_kind \<times> string \<times> string) list \<Rightarrow> (nat \<times> notify_kind \<times> string \<times> string) list" where
  "pushed_after (NX_Push now wall kind title content) h = (now, kind, title, content) # h"
| "pushed_after NX_Clear h = []"
| "pushed_after (NX_Metrics m) h = h"
| "pushed_after (NX_Configure cfg) h = h"
| "pushed_after (NX_Frame now layout native) h = h"

definition with_timeout :: "nat \<Rightarrow> (nat \<times> notify_kind \<times> string \<times> string) list \<Rightarrow> notice list" where
  "with_timeout lifetime h = map (\<lambda>(t, n). (t, lifetime, n)) h"

lemma filter_take_prefix:
  "sorted_wrt (\<lambda>a b. P b \<longrightarrow> P a) xs \<Longrightarrow> filter P (take n xs) = take n (filter P xs)"
proof (induction xs arbitrary: n)
  case (Cons x xs)
  show ?case
  proof (cases "P x")
    case True
    then show ?thesis using Cons by (cases n) auto
  next
    case False
    then have "\<forall>y\<in>set xs. \<not> P y" using Cons.prems by auto
    then have "filter P (take m xs) = []" "filter P xs = []" for m by (auto simp: filter_empty_conv dest: in_set_takeD)
    then show ?thesis using False by (cases n) auto
  qed
qed simp

text \<open>Notices of one lifetime expire in the order in which they came.\<close>

lemma live_sorted:
  assumes "sorted_wrt (\<lambda>a b. fst b \<le> fst a) h"
  shows "sorted_wrt (\<lambda>a b. live t b \<longrightarrow> live t a) (filter P (with_timeout lifetime h))"
proof -
  have "sorted_wrt (\<lambda>a b. live t b \<longrightarrow> live t a) (with_timeout lifetime h)"
    using assms by (auto simp: with_timeout_def sorted_wrt_map live_def elim: sorted_wrt_mono_rel [rotated])
  then show ?thesis by (rule sorted_wrt_filter)
qed

definition stack_ok :: "nat \<Rightarrow> notification_center \<Rightarrow> (nat \<times> notify_kind \<times> string \<times> string) list \<Rightarrow> bool" where
  "stack_ok now c h \<longleftrightarrow> sorted_wrt (\<lambda>a b. fst b \<le> fst a) h \<and> (\<forall>p\<in>set h. fst p \<le> now)
     \<and> shown_backlog c = take (nx_max_items c) (map snd h)
     \<and> (\<forall>t\<ge>now. take (nx_max_items c) (filter (live t) (stack_notes c))
          = take (nx_max_items c) (filter (live t) (with_timeout (nx_timeout c) h)))"

lemma take_same_less: "take n xs = take n ys \<Longrightarrow> m \<le> n \<Longrightarrow> take m xs = take m ys"
  by (metis min.absorb1 take_take)

lemma take_Cons_same: "take n xs = take n ys \<Longrightarrow> take n (x # xs) = take n (x # ys)"
  using take_same_less by (cases n) force+

lemma take_Suc_map: "take n (x # take n xs) = take n (x # xs)"
  by (cases n) (simp_all add: min_def)

lemma stack_ok_apply:
  assumes ok: "stack_ok now c h" and "\<not> is_configure e" "\<And>t. op_time e = Some t \<Longrightarrow> now \<le> t"
  shows "stack_ok (case op_time e of Some t \<Rightarrow> t | None \<Rightarrow> now) (nx_apply e c) (pushed_after e h)"
proof (cases e)
  case (NX_Push t wall kind title content)
  then have "now \<le> t" using assms(3) by simp
  moreover have "take (nx_max_items c) (filter (live u) (stack_notes (nx_push t wall kind title content c)))
      = take (nx_max_items c) (filter (live u) (with_timeout (nx_timeout c) ((t, kind, title, content) # h)))" if "t \<le> u" for u
    using ok that \<open>now \<le> t\<close> by (auto simp: stack_ok_def with_timeout_def intro!: take_Cons_same)
  ultimately show ?thesis using ok NX_Push by (fastforce simp: stack_ok_def take_Suc_map)
next
  case (NX_Frame t layout native)
  then have t: "now \<le> t" using assms(3) by simp
  note sorted = live_sorted [of h]
  have "take (nx_max_items c) (filter (live u) (stack_notes (nx_render t layout native c)))
      = take (nx_max_items c) (filter (live u) (with_timeout (nx_timeout c) h))" if "t \<le> u" for u
  proof -
    have later: "live u n \<Longrightarrow> live t n" for n using that by (auto simp: live_def)
    have "stack_notes (nx_render t layout native c) = take (nx_max_items c) (filter (live t) (with_timeout (nx_timeout c) h))"
      using ok t by (auto simp: stack_ok_def)
    then have "filter (live u) (stack_notes (nx_render t layout native c))
        = take (nx_max_items c) (filter (live u) (filter (live t) (with_timeout (nx_timeout c) h)))"
      using ok by (simp add: stack_ok_def filter_take_prefix [OF live_sorted])
    also have "filter (live u) (filter (live t) (with_timeout (nx_timeout c) h)) = filter (live u) (with_timeout (nx_timeout c) h)"
      unfolding filter_filter by (rule filter_cong) (use later in auto)
    finally show ?thesis by simp
  qed
  then show ?thesis using ok NX_Frame t by (fastforce simp: stack_ok_def)
qed (use assms in \<open>auto simp: stack_ok_def with_timeout_def\<close>)

lemma nx_apply_config [simp]:
  "\<not> is_configure e \<Longrightarrow> nx_max_items (nx_apply e c) = nx_max_items c"
  "\<not> is_configure e \<Longrightarrow> nx_timeout (nx_apply e c) = nx_timeout c"
  by (cases e; simp)+

lemma stack_ok_run:
  assumes "stack_ok now c h" "list_all (\<lambda>e. \<not> is_configure e) es" "sorted (now # List.map_filter op_time es)"
  shows "stack_ok (last (now # List.map_filter op_time es)) (fold nx_apply es c) (fold pushed_after es h)
    \<and> nx_max_items (fold nx_apply es c) = nx_max_items c \<and> nx_timeout (fold nx_apply es c) = nx_timeout c"
  using assms
proof (induction es arbitrary: now c h)
  case (Cons e es)
  have e: "\<not> is_configure e" using Cons.prems(2) by simp
  let ?now = "case op_time e of Some t \<Rightarrow> t | None \<Rightarrow> now"
  have "stack_ok ?now (nx_apply e c) (pushed_after e h)"
    by (rule stack_ok_apply [OF Cons.prems(1) e]) (use Cons.prems(3) in \<open>simp add: List.map_filter_simps\<close>)
  moreover have "sorted (?now # List.map_filter op_time es)"
    using Cons.prems(3) by (cases "op_time e") (simp_all add: List.map_filter_simps)
  ultimately have "stack_ok (last (?now # List.map_filter op_time es)) (fold nx_apply es (nx_apply e c)) (fold pushed_after es (pushed_after e h))
     \<and> nx_max_items (fold nx_apply es (nx_apply e c)) = nx_max_items (nx_apply e c)
     \<and> nx_timeout (fold nx_apply es (nx_apply e c)) = nx_timeout (nx_apply e c)"
    using Cons.prems(2) by (intro Cons.IH) simp_all
  then show ?case using e by (cases "op_time e") (simp_all add: List.map_filter_simps)
qed (simp add: List.map_filter_simps)

text \<open>
  C30: The notifications are determined by what was pushed. Under one configuration the stack
  that a frame lays out is exactly the newest notices that have not outlived the timeout, up to
  the configured number, newest first, whatever frames were painted before (a notice that was
  trimmed never comes back). Of these the frame paints exactly the ones that the layout puts on
  the display, in this order and where the layout puts them; the ones below it are hidden but
  stay in the stack. The backlog is exactly the newest notices pushed since the last clear, up
  to the same number.
\<close>

theorem notifications_follow_history:
  assumes "list_all (\<lambda>e. \<not> is_configure e) es" "sorted (List.map_filter op_time es @ [now])"
  shows "let before = fold nx_apply es (notification_center_new cfg); c = nx_render now layout native before;
             limit = unat (nc_buffer cfg); h = fold pushed_after es [];
             displayed = filter (\<lambda>i. snd (snd (layout i))) (live_items now before)
         in map note_of (live_items now before)
              = take limit (filter (live now) (with_timeout (notification_timeout (nc_timeout cfg)) h))
            \<and> stack_notes c = map note_of (live_items now before)
            \<and> map note_of (painted c) = map note_of displayed
            \<and> painted_geometry c = map (\<lambda>i. (Some (fst (layout i)), Some (fst (snd (layout i))))) displayed
            \<and> shown_backlog c = take limit (map snd h)"
proof -
  let ?c = "notification_center_new cfg"
  have new: "nx_max_items ?c = unat (nc_buffer cfg)" "nx_timeout ?c = notification_timeout (nc_timeout cfg)"
    "stack_ok 0 ?c []"
    by (simp_all add: notification_center_new_def stack_ok_def stack_notes_def shown_backlog_def with_timeout_def)
  let ?last = "last (0 # List.map_filter op_time es)"
  have run: "stack_ok ?last (fold nx_apply es ?c) (fold pushed_after es [])"
    "nx_max_items (fold nx_apply es ?c) = unat (nc_buffer cfg)"
    "nx_timeout (fold nx_apply es ?c) = notification_timeout (nc_timeout cfg)"
    using stack_ok_run [OF new(3) assms(1)] assms(2) new(1,2) by (simp_all add: sorted_append)
  have "?last \<le> now" using assms(2) by (auto simp: sorted_append)
  then show ?thesis
    using run by (simp add: stack_ok_def Let_def live_items_notes painted_render painted_geometry_render comp_def)
qed

text \<open>Three notices, of which the first has run out and the second is laid out below the display.\<close>

definition sample_layout :: "notification_item \<Rightarrow> vec2 \<times> vec2 \<times> bool" where
  "sample_layout i = ((0, 0), (1, 1), ni_title i = ''e'')"

theorem notifications_follow_history_witness:
  "\<exists>c. c = nx_render 5000000000 sample_layout False (fold nx_apply [NX_Push 0 0 NK_Info ''a'' ''b'', NX_Frame 10 sample_layout True,
        NX_Push 2000000000 2 NK_Warn ''c'' ''d'', NX_Push 3000000000 3 NK_Warn ''e'' ''f''] (notification_center_new notify_config_default))
     \<and> map (\<lambda>(_, _, _, title, _). title) (stack_notes c) = [''e'', ''c'']
     \<and> map note_of (painted c) = [(3000000000, 4000000000, NK_Warn, ''e'', ''f'')]
     \<and> shown_backlog c = [(NK_Warn, ''e'', ''f''), (NK_Warn, ''c'', ''d''), (NK_Info, ''a'', ''b'')]"
proof -
  let ?es = "[NX_Push 0 0 NK_Info ''a'' ''b'', NX_Frame 10 sample_layout True, NX_Push 2000000000 2 NK_Warn ''c'' ''d'',
    NX_Push 3000000000 3 NK_Warn ''e'' ''f'']"
  let ?before = "fold nx_apply ?es (notification_center_new notify_config_default)"
  let ?c = "nx_render 5000000000 sample_layout False ?before"
  have "list_all (\<lambda>e. \<not> is_configure e) ?es" "sorted (List.map_filter op_time ?es @ [5000000000])"
    by (simp_all add: List.map_filter_simps)
  note res = notifications_follow_history [OF this, of notify_config_default sample_layout False, unfolded Let_def]
  have cfg: "notification_timeout (nc_timeout notify_config_default) = 4000000000" "unat (nc_buffer notify_config_default) = 200"
    by (simp_all add: notification_timeout_def notify_config_default_def f32_finite_def f32_clamp_def f32_rank_def
        f32_nan_def NOTIFICATION_TIMEOUT_MIN_SECS_def NOTIFICATION_TIMEOUT_MAX_SECS_def nanos_of_secs_def Let_def)
  have hist: "fold pushed_after ?es [] = [(3000000000, NK_Warn, ''e'', ''f''), (2000000000, NK_Warn, ''c'', ''d''), (0, NK_Info, ''a'', ''b'')]"
    by simp
  have alive: "take 200 (filter (live 5000000000) (with_timeout 4000000000
        [(3000000000, NK_Warn, ''e'', ''f''), (2000000000, NK_Warn, ''c'', ''d''), (0, NK_Info, ''a'', ''b'')]))
      = [(3000000000, 4000000000, NK_Warn, ''e'', ''f''), (2000000000, 4000000000, NK_Warn, ''c'', ''d'')]"
    "take 200 (map snd [(3000000000, NK_Warn, ''e'', ''f''), (2000000000, NK_Warn, ''c'', ''d''), (0::nat, NK_Info, ''a'', ''b'')])
      = [(NK_Warn, ''e'', ''f''), (NK_Warn, ''c'', ''d''), (NK_Info, ''a'', ''b'')]"
    by (simp_all add: with_timeout_def live_def)
  note shown = res [unfolded cfg hist alive]
  obtain x y where items: "live_items 5000000000 ?before = [x, y]"
      "note_of x = (3000000000, 4000000000, NK_Warn, ''e'', ''f'')" "note_of y = (2000000000, 4000000000, NK_Warn, ''c'', ''d'')"
    using conjunct1 [OF shown] by (auto simp only: map_eq_Cons_conv list.map_disc_iff)
  have titles: "ni_title x = ''e''" "ni_title y = ''c''" using items(2,3) by (simp_all add: note_of_def)
  show ?thesis
  proof (intro exI conjI)
    show "?c = ?c" by (rule refl)
    show "map (\<lambda>(_, _, _, title, _). title) (stack_notes ?c) = [''e'', ''c'']"
      unfolding conjunct1 [OF conjunct2 [OF shown]] items(1) by (simp add: items(2,3))
    show "map note_of (painted ?c) = [(3000000000, 4000000000, NK_Warn, ''e'', ''f'')]"
      unfolding conjunct1 [OF conjunct2 [OF conjunct2 [OF shown]]] items(1) by (simp add: sample_layout_def titles items(2))
    show "shown_backlog ?c = [(NK_Warn, ''e'', ''f''), (NK_Warn, ''c'', ''d''), (NK_Info, ''a'', ''b'')]"
      using shown by (simp only:)
  qed
qed

text \<open>Under changing configurations the backlog keeps the limit of the latest one, and so does every frame.\<close>

lemma backlog_bounded: "length (nx_backlog (fold nx_apply es (notification_center_new cfg))) \<le> nx_max_items (fold nx_apply es (notification_center_new cfg))"
proof -
  have len: "length (nx_backlog c) = length (shown_backlog c)" for c by (simp add: shown_backlog_def)
  have "length (nx_backlog (nx_apply e c)) \<le> nx_max_items (nx_apply e c)" if "length (nx_backlog c) \<le> nx_max_items c" for e c
    using that by (cases e) (simp_all add: len)
  then have "length (nx_backlog (fold nx_apply es c)) \<le> nx_max_items (fold nx_apply es c)" if "length (nx_backlog c) \<le> nx_max_items c" for c
    using that by (induction es arbitrary: c) simp_all
  then show ?thesis by (simp add: notification_center_new_def)
qed

lemma frame_bounded: "length (nx_items (nx_render now layout native c)) \<le> nx_max_items c"
proof -
  have "length (nx_items (nx_render now layout native c)) = length (stack_notes (nx_render now layout native c))"
    by (simp add: stack_notes_def)
  then show ?thesis by simp
qed

end
