(* ===== verification/App_Windows.thy ===== *)
theory App_Windows
  imports Hud_View Connection_Driver
begin

text \<open>
  The state of the app's other surfaces: the selector popup
  (\<open>hotki-app/src/selector.rs\<close>), the main window (\<open>main_window.rs\<close>), the log
  buffer and its window (\<open>logs.rs\<close>, \<open>logs_window.rs\<close>), the permissions helper
  (\<open>permissions.rs\<close>) and the tray (\<open>tray.rs\<close>).  What the user and the window
  system do in a frame is an argument of the rendering operations.
\<close>

subsection \<open>Selector\<close>

record selector_window =
  sw_viewport :: overlay_window
  sw_style :: selector_style
  sw_state :: "selector_snapshot option"
  sw_window_configured :: bool

definition selector_window_new :: "selector_style \<Rightarrow> selector_window" where
  "selector_window_new style =
     \<lparr>sw_viewport = overlay_new ''hotki_selector'', sw_style = style, sw_state = None, sw_window_configured = False\<rparr>"

definition sw_query :: "selector_window \<Rightarrow> string option" where
  "sw_query w = map_option snap_query (sw_state w)"

definition sw_set_style :: "selector_style \<Rightarrow> selector_window \<Rightarrow> selector_window" where
  "sw_set_style style w = (if sw_style w \<noteq> style then w\<lparr>sw_style := style\<rparr> else w)"

definition sw_set_display_metrics :: "display_metrics \<Rightarrow> selector_window \<Rightarrow> selector_window" where
  "sw_set_display_metrics metrics w = w\<lparr>sw_viewport := overlay_set_display_metrics metrics (sw_viewport w)\<rparr>"

definition sw_set_state :: "selector_snapshot \<Rightarrow> selector_window \<Rightarrow> selector_window" where
  "sw_set_state snapshot w =
     (if sw_state w = None
      then w\<lparr>sw_viewport := overlay_reset_geometry (sw_viewport w), sw_window_configured := False\<rparr>
      else w)\<lparr>sw_state := Some snapshot\<rparr>"

definition sw_hide :: "selector_window \<Rightarrow> selector_window" where
  "sw_hide w =
     w\<lparr>sw_state := None, sw_viewport := overlay_hide (overlay_reset_geometry (sw_viewport w)), sw_window_configured := False\<rparr>"

definition sw_render :: "vec2 \<times> vec2 \<Rightarrow> bool \<Rightarrow> selector_window \<Rightarrow> selector_window" where
  "sw_render geometry native w =
     (if sw_state w = None then w\<lparr>sw_viewport := overlay_hide (sw_viewport w)\<rparr>
      else w\<lparr>sw_window_configured := sw_window_configured w \<or> native,
             sw_viewport := overlay_record_geometry (fst geometry) (snd geometry) (sw_viewport w)\<rparr>)"

subsection \<open>Main window\<close>

record main_window =
  mw_visible :: bool
  mw_viewport :: overlay_window
  mw_want_initial_size :: bool
  mw_restore_pending :: bool
  mw_want_focus :: bool
  mw_last_saved :: "(vec2 \<times> vec2) option"
  mw_theme :: notify_theme
  mw_presentation :: runtime_presentation

definition main_window_new :: "notify_theme \<Rightarrow> main_window" where
  "main_window_new theme =
     \<lparr>mw_visible = False, mw_viewport = overlay_new ''hotki_main'', mw_want_initial_size = False,
      mw_restore_pending = False, mw_want_focus = False, mw_last_saved = None, mw_theme = theme,
      mw_presentation = presentation runtime_health_default\<rparr>"

definition mw_show :: "main_window \<Rightarrow> main_window" where
  "mw_show w =
     w\<lparr>mw_visible := True, mw_viewport := overlay_reset_geometry (mw_viewport w), mw_want_initial_size := True,
       mw_restore_pending := True, mw_want_focus := True\<rparr>"

definition mw_hide :: "main_window \<Rightarrow> main_window" where
  "mw_hide w = w\<lparr>mw_visible := False, mw_viewport := overlay_reset_geometry (mw_viewport w)\<rparr>"

definition mw_toggle :: "main_window \<Rightarrow> main_window" where
  "mw_toggle w = (if mw_visible w then mw_hide w else mw_show w)"

definition mw_update_theme :: "notify_theme \<Rightarrow> main_window \<Rightarrow> main_window" where
  "mw_update_theme theme w = w\<lparr>mw_theme := theme\<rparr>"

definition mw_set_display_metrics :: "display_metrics \<Rightarrow> main_window \<Rightarrow> main_window" where
  "mw_set_display_metrics metrics w = w\<lparr>mw_viewport := overlay_set_display_metrics metrics (mw_viewport w)\<rparr>"

definition mw_set_runtime_health :: "runtime_health \<Rightarrow> main_window \<Rightarrow> main_window" where
  "mw_set_runtime_health health w =
     (let w = w\<lparr>mw_presentation := presentation health\<rparr> in if is_shutting_down health then mw_hide w else w)"

text \<open>The position and inner size of the window, when the frame knows both.\<close>

definition vec2_eq :: "vec2 \<Rightarrow> vec2 \<Rightarrow> bool" where
  "vec2_eq a b \<longleftrightarrow> f32_eq (fst a) (fst b) \<and> f32_eq (snd a) (snd b)"

definition mw_save_geometry :: "(vec2 \<times> vec2) option \<Rightarrow> main_window \<Rightarrow> main_window" where
  "mw_save_geometry geometry w =
     (case geometry of
        None \<Rightarrow> w
      | Some current \<Rightarrow>
          if \<not> rel_option (\<lambda>a b. vec2_eq (fst a) (fst b) \<and> vec2_eq (snd a) (snd b)) (mw_last_saved w) (Some current)
          then w\<lparr>mw_last_saved := Some current,
                 mw_viewport := overlay_record_geometry (fst current) (snd current) (mw_viewport w)\<rparr>
          else w)"

definition mw_render :: "bool \<Rightarrow> (vec2 \<times> vec2) option \<Rightarrow> main_window \<Rightarrow> main_window" where
  "mw_render close_requested geometry w =
     (if \<not> mw_visible w then w\<lparr>mw_viewport := overlay_hide (mw_viewport w)\<rparr>
      else (let w = w\<lparr>mw_want_initial_size := False\<rparr>
            in if close_requested then mw_save_geometry geometry (w\<lparr>mw_visible := False\<rparr>)
               else mw_save_geometry geometry (w\<lparr>mw_restore_pending := False, mw_want_focus := False\<rparr>)))"

subsection \<open>Log buffer and window\<close>

datatype log_side = Side_Client | Side_Server

record log_entry =
  le_side :: log_side
  le_level :: string
  le_target :: string
  le_message :: string

record log_buffer =
  lb_generation :: "64 word"
  lb_entries :: "log_entry list"

definition saturating_succ :: "64 word \<Rightarrow> 64 word" where
  "saturating_succ g = (if g = - 1 then g else g + 1)"

definition log_buffer_new :: log_buffer where
  "log_buffer_new = \<lparr>lb_generation = 0, lb_entries = []\<rparr>"

definition log_push :: "log_entry \<Rightarrow> log_buffer \<Rightarrow> log_buffer" where
  "log_push entry b =
     (let b = (if 5000 < length (lb_entries b) then b\<lparr>lb_entries := tl (lb_entries b)\<rparr> else b)
      in b\<lparr>lb_entries := lb_entries b @ [entry], lb_generation := saturating_succ (lb_generation b)\<rparr>)"

definition log_push_server :: "string \<Rightarrow> string \<Rightarrow> string \<Rightarrow> log_buffer \<Rightarrow> log_buffer" where
  "log_push_server level target message =
     log_push \<lparr>le_side = Side_Server, le_level = level, le_target = target, le_message = message\<rparr>"

definition log_snapshot_after :: "64 word \<Rightarrow> log_buffer \<Rightarrow> (64 word \<times> log_entry list) option" where
  "log_snapshot_after generation b =
     (if lb_generation b \<noteq> generation then Some (lb_generation b, lb_entries b) else None)"

definition log_clear :: "log_buffer \<Rightarrow> log_buffer" where
  "log_clear b = b\<lparr>lb_entries := [], lb_generation := saturating_succ (lb_generation b)\<rparr>"

record logs_window =
  lw_visible :: bool
  lw_want_focus :: bool
  lw_generation :: "64 word"
  lw_rows :: "log_entry list"

definition logs_window_new :: logs_window where
  "logs_window_new = \<lparr>lw_visible = False, lw_want_focus = False, lw_generation = - 1, lw_rows = []\<rparr>"

definition lw_show :: "logs_window \<Rightarrow> logs_window" where
  "lw_show w = w\<lparr>lw_visible := True, lw_want_focus := True\<rparr>"

definition lw_hide :: "logs_window \<Rightarrow> logs_window" where
  "lw_hide w = w\<lparr>lw_visible := False\<rparr>"

text \<open>A frame refreshes the cached rows; the user may close the window or clear the log.\<close>

definition lw_render :: "bool \<Rightarrow> bool \<Rightarrow> logs_window \<times> log_buffer \<Rightarrow> logs_window \<times> log_buffer" where
  "lw_render close_requested clear_clicked s =
     (let (w, b) = s in
      if \<not> lw_visible w then (w, b)
      else (let w = (case log_snapshot_after (lw_generation w) b of
                       Some (g, rows) \<Rightarrow> w\<lparr>lw_generation := g, lw_rows := rows\<rparr>
                     | None \<Rightarrow> w)
            in if close_requested then (w\<lparr>lw_visible := False\<rparr>, b)
               else (let w = w\<lparr>lw_want_focus := False\<rparr>
                     in if clear_clicked then (w\<lparr>lw_generation := - 1, lw_rows := []\<rparr>, log_clear b) else (w, b))))"

subsection \<open>Permissions helper\<close>

record permissions_help =
  ph_visible :: bool
  ph_want_focus :: bool
  ph_status_override :: "capabilities option"
  ph_current_status :: capabilities
  ph_observation_pending :: bool
  ph_app_was_active :: bool
  ph_intents :: "bool \<times> bool"
  ph_last_reported :: "permission_observation option"

definition permissions_help_new :: permissions_help where
  "permissions_help_new =
     \<lparr>ph_visible = False, ph_want_focus = False, ph_status_override = None, ph_current_status = capabilities_default,
      ph_observation_pending = True, ph_app_was_active = False, ph_intents = (False, False), ph_last_reported = None\<rparr>"

definition ph_show :: "permissions_help \<Rightarrow> permissions_help" where
  "ph_show p = p\<lparr>ph_visible := True, ph_want_focus := True\<rparr>"

definition ph_hide :: "permissions_help \<Rightarrow> permissions_help" where
  "ph_hide p = p\<lparr>ph_visible := False, ph_want_focus := False\<rparr>"

definition ph_set_status_override :: "capabilities option \<Rightarrow> permissions_help \<Rightarrow> permissions_help" where
  "ph_set_status_override status p =
     p\<lparr>ph_status_override := status, ph_intents := (False, False), ph_last_reported := None, ph_observation_pending := True\<rparr>"

definition report_status_if_changed :: "permission_observation \<Rightarrow> permissions_help \<Rightarrow> control_msg list \<times> permissions_help" where
  "report_status_if_changed observation p =
     (if ph_last_reported p = Some observation then ([], p)
      else ([CM_PermissionsChanged observation], p\<lparr>ph_last_reported := Some observation\<rparr>))"

text \<open>\<open>system\<close> is what the system would answer to a permission check.\<close>

definition observe_status :: "capabilities \<Rightarrow> bool \<Rightarrow> bool \<Rightarrow> permissions_help \<Rightarrow> control_msg list \<times> permissions_help" where
  "observe_status system app_active help_visible p =
     (let reactivated = app_active \<and> \<not> ph_app_was_active p; p = p\<lparr>ph_app_was_active := app_active\<rparr>
      in if \<not> ph_observation_pending p \<and> \<not> reactivated \<and> \<not> help_visible then ([], p)
         else (let observation = (case ph_status_override p of
                        Some status \<Rightarrow> observation_devtools status
                      | None \<Rightarrow> observation_system system)
               in report_status_if_changed observation
                    (p\<lparr>ph_observation_pending := False, ph_current_status := po_status observation\<rparr>)))"

definition ph_render :: "capabilities \<Rightarrow> bool \<Rightarrow> bool \<Rightarrow> permissions_help \<Rightarrow> control_msg list \<times> permissions_help" where
  "ph_render system app_active close_requested p =
     (let (msgs, p) = observe_status system app_active (ph_visible p) p
      in if \<not> ph_visible p then (msgs, p)
         else if close_requested then (msgs, p\<lparr>ph_visible := False, ph_want_focus := False\<rparr>)
         else (msgs, p\<lparr>ph_want_focus := False\<rparr>))"

datatype permission_section = Section_Accessibility | Section_InputMonitoring

definition ph_open_settings :: "permission_section \<Rightarrow> permissions_help \<Rightarrow> permissions_help" where
  "ph_open_settings section p =
     (if ph_status_override p \<noteq> None
      then (case section of
              Section_Accessibility \<Rightarrow> p\<lparr>ph_intents := (True, snd (ph_intents p))\<rparr>
            | Section_InputMonitoring \<Rightarrow> p\<lparr>ph_intents := (fst (ph_intents p), True)\<rparr>)
      else p)"

subsection \<open>Tray\<close>

record tray =
  tr_notice_text :: glyphs
  tr_notice_shown :: bool
  tr_tooltip :: glyphs
  tr_reload_enabled :: bool

definition tray_copy :: "runtime_health \<Rightarrow> glyphs option \<times> glyphs" where
  "tray_copy health =
     (let notice = map_option rn_title (rp_notice (presentation health))
      in (notice, case notice of Some title \<Rightarrow> title | None \<Rightarrow> glyphs_of ''Hotki''))"

definition tray_set_runtime_health :: "runtime_health \<Rightarrow> tray \<Rightarrow> tray" where
  "tray_set_runtime_health health t =
     (let (notice, tooltip) = tray_copy health;
          t = (case notice of Some text \<Rightarrow> t\<lparr>tr_notice_text := text\<rparr> | None \<Rightarrow> t)
      in t\<lparr>tr_reload_enabled := \<not> is_shutting_down health, tr_notice_shown := notice \<noteq> None, tr_tooltip := tooltip\<rparr>)"

text \<open>The status item starts with fixed copy and takes the runtime's at once, if it can be built.\<close>

definition build_tray :: "bool \<Rightarrow> runtime_health \<Rightarrow> tray option" where
  "build_tray icon_ok health =
     (if icon_ok
      then Some (tray_set_runtime_health health
             \<lparr>tr_notice_text = glyphs_of ''Starting Hotki'' @ [0x2026], tr_notice_shown = rp_notice (presentation health) \<noteq> None,
              tr_tooltip = glyphs_of ''Hotki'', tr_reload_enabled = True\<rparr>)
      else None)"

datatype tray_action = TA_ShowMainWindow | TA_Reload | TA_OpenPermissions | TA_About | TA_Quit

text \<open>What a menu command sends to the UI and to the runtime.\<close>

fun dispatch_tray_action :: "tray_action \<Rightarrow> ui_event list \<times> control_msg list" where
  "dispatch_tray_action TA_ShowMainWindow = ([UE_Message (ShowMainWindow Toggle_On)], [])"
| "dispatch_tray_action TA_Reload = ([], [CM_Reload])"
| "dispatch_tray_action TA_OpenPermissions = ([], [CM_OpenPermissionsHelp])"
| "dispatch_tray_action TA_About = ([UE_Command ShowAbout], [])"
| "dispatch_tray_action TA_Quit = ([], [CM_Shutdown])"

subsection \<open>Facts\<close>

lemma sw_facts [simp]:
  "sw_style (sw_set_style style w) = style" "sw_state (sw_set_style style w) = sw_state w"
  "sw_viewport (sw_set_style style w) = sw_viewport w"
  "sw_style (sw_set_display_metrics m w) = sw_style w" "sw_state (sw_set_display_metrics m w) = sw_state w"
  "ow_metrics (sw_viewport (sw_set_display_metrics m w)) = m"
  "sw_style (sw_set_state snap w) = sw_style w" "sw_state (sw_set_state snap w) = Some snap"
  "ow_metrics (sw_viewport (sw_set_state snap w)) = ow_metrics (sw_viewport w)"
  "sw_style (sw_hide w) = sw_style w" "sw_state (sw_hide w) = None"
  "ow_metrics (sw_viewport (sw_hide w)) = ow_metrics (sw_viewport w)"
  "sw_style (sw_render g n w) = sw_style w" "sw_state (sw_render g n w) = sw_state w"
  "ow_metrics (sw_viewport (sw_render g n w)) = ow_metrics (sw_viewport w)"
  by (simp_all add: sw_set_style_def sw_set_display_metrics_def sw_set_state_def sw_hide_def sw_render_def)

lemma mw_facts [simp]:
  "mw_visible (mw_show w) = True" "mw_theme (mw_show w) = mw_theme w" "mw_presentation (mw_show w) = mw_presentation w"
  "ow_metrics (mw_viewport (mw_show w)) = ow_metrics (mw_viewport w)"
  "mw_visible (mw_hide w) = False" "mw_theme (mw_hide w) = mw_theme w" "mw_presentation (mw_hide w) = mw_presentation w"
  "ow_metrics (mw_viewport (mw_hide w)) = ow_metrics (mw_viewport w)"
  "mw_visible (mw_toggle w) = (\<not> mw_visible w)" "mw_theme (mw_toggle w) = mw_theme w"
  "mw_presentation (mw_toggle w) = mw_presentation w" "ow_metrics (mw_viewport (mw_toggle w)) = ow_metrics (mw_viewport w)"
  "mw_visible (mw_update_theme th w) = mw_visible w" "mw_theme (mw_update_theme th w) = th"
  "mw_presentation (mw_update_theme th w) = mw_presentation w" "mw_viewport (mw_update_theme th w) = mw_viewport w"
  "mw_visible (mw_set_display_metrics m w) = mw_visible w" "mw_theme (mw_set_display_metrics m w) = mw_theme w"
  "mw_presentation (mw_set_display_metrics m w) = mw_presentation w" "ow_metrics (mw_viewport (mw_set_display_metrics m w)) = m"
  by (simp_all add: mw_show_def mw_hide_def mw_toggle_def mw_update_theme_def mw_set_display_metrics_def)

lemma mw_health_facts [simp]:
  "mw_visible (mw_set_runtime_health h w) = (mw_visible w \<and> \<not> is_shutting_down h)"
  "mw_theme (mw_set_runtime_health h w) = mw_theme w" "mw_presentation (mw_set_runtime_health h w) = presentation h"
  "ow_metrics (mw_viewport (mw_set_runtime_health h w)) = ow_metrics (mw_viewport w)"
  by (simp_all add: mw_set_runtime_health_def mw_hide_def Let_def)

lemma mw_save_facts [simp]:
  "mw_visible (mw_save_geometry g w) = mw_visible w" "mw_theme (mw_save_geometry g w) = mw_theme w"
  "mw_presentation (mw_save_geometry g w) = mw_presentation w"
  "ow_metrics (mw_viewport (mw_save_geometry g w)) = ow_metrics (mw_viewport w)"
  by (simp_all add: mw_save_geometry_def split: option.split)

lemma mw_render_facts [simp]:
  "mw_visible (mw_render close g w) = (mw_visible w \<and> \<not> close)" "mw_theme (mw_render close g w) = mw_theme w"
  "mw_presentation (mw_render close g w) = mw_presentation w"
  "ow_metrics (mw_viewport (mw_render close g w)) = ow_metrics (mw_viewport w)"
  by (simp_all add: mw_render_def Let_def)

text \<open>The log never holds more than 5001 entries.\<close>

lemma log_push_bounded: "length (lb_entries b) \<le> 5001 \<Longrightarrow> length (lb_entries (log_push e b)) \<le> 5001"
  by (auto simp: log_push_def Let_def)

text \<open>
  After an observation that is due, the last report to the runtime is what was observed: it
  is sent exactly when it differs from the one before.
\<close>

lemma observe_status_reports:
  assumes "ph_observation_pending p \<or> (app_active \<and> \<not> ph_app_was_active p) \<or> help_visible"
    and "observe_status system app_active help_visible p = (msgs, p')"
  shows "ph_last_reported p' = Some (case ph_status_override p of Some s \<Rightarrow> observation_devtools s | None \<Rightarrow> observation_system system)
    \<and> msgs = (if ph_last_reported p' = ph_last_reported p then [] else [CM_PermissionsChanged (the (ph_last_reported p'))])
    \<and> ph_current_status p' = (case ph_status_override p of Some s \<Rightarrow> s | None \<Rightarrow> system) \<and> \<not> ph_observation_pending p'"
  using assms by (auto simp: observe_status_def report_status_if_changed_def Let_def observation_devtools_def
      observation_system_def split: if_splits option.splits)

end
