(* ===== verification/App_State.thy ===== *)
theory App_State
  imports Notification_Center App_Windows
begin

text \<open>
  The app's top-level state (\<open>hotki-app/src/app.rs\<close>): how UI commands and protocol
  messages change the surfaces, the presentations that the developer tools put in their
  place for a while, and the barriers that wait for a presentation to be painted.
\<close>

subsection \<open>State\<close>

datatype presentation_expectation = Expect_Hud | Expect_Selector string | Expect_Notification notify_kind

text \<open>A request is the number under which it is acknowledged, and what it waits for.\<close>

type_synonym presentation_request = "nat \<times> presentation_expectation"

record pending_presentation =
  pp_request :: presentation_request
  pp_matched_frame :: "nat option"

record hotki_app =
  ap_tray :: "tray option"
  ap_hud :: hud
  ap_selector :: selector_window
  ap_notifications :: notification_center
  ap_main_window :: main_window
  ap_logs_window :: logs_window
  ap_permissions :: permissions_help
  ap_shutdown_in_progress :: bool
  ap_display_metrics :: display_metrics
  ap_runtime_notify_config :: notify_config
  ap_notification_presentation_overridden :: bool
  ap_runtime_hud_state :: "hud_state option"
  ap_hud_presentation_overridden :: bool
  ap_runtime_health :: runtime_health
  ap_runtime_health_override :: "runtime_health option"
  ap_about_panel_opened :: bool
  ap_server_bindings :: "string list"
  ap_input_health :: input_health
  ap_pending_presentations :: "pending_presentation list"
  ap_rendered_frame :: nat
  ap_control :: "control_msg list"

definition input_health_default :: input_health where
  "input_health_default =
     \<lparr>ih_tap_mode = HTM_InjectionOnly, ih_tap_lifecycle = HTL_Stopped, ih_secure_input = HSI_Unknown,
      ih_secure_input_owner = None, ih_blocked = False, ih_registered_hotkeys = 0, ih_physical_event_count = 0,
      ih_physical_event_age_ms = None, ih_os_disable_count = 0, ih_os_reenable_count = 0, ih_observed_at_ms = None,
      ih_server_pid = 0\<rparr>"

text \<open>The state at startup; \<open>icon_ok\<close> tells whether the status item could be built.\<close>

definition app_new :: "string \<Rightarrow> ui_style \<Rightarrow> bool \<Rightarrow> hotki_app" where
  "app_new config_path style icon_ok =
     \<lparr>ap_tray = build_tray icon_ok (health_connecting config_path), ap_hud = hud_set_display_metrics metrics_default (hud_new (style_hud style)),
      ap_selector = sw_set_display_metrics metrics_default (selector_window_new (style_selector style)),
      ap_notifications = nx_set_display_metrics metrics_default (notification_center_new (style_notify style)),
      ap_main_window = mw_set_display_metrics metrics_default
        (mw_set_runtime_health (health_connecting config_path) (main_window_new (nc_theme (style_notify style)))),
      ap_logs_window = logs_window_new, ap_permissions = permissions_help_new, ap_shutdown_in_progress = False,
      ap_display_metrics = metrics_default, ap_runtime_notify_config = style_notify style,
      ap_notification_presentation_overridden = False, ap_runtime_hud_state = None,
      ap_hud_presentation_overridden = False, ap_runtime_health = health_connecting config_path,
      ap_runtime_health_override = None, ap_about_panel_opened = False, ap_server_bindings = [],
      ap_input_health = input_health_default, ap_pending_presentations = [], ap_rendered_frame = 0, ap_control = []\<rparr>"

subsection \<open>Commands and messages\<close>

definition sync_display_metrics :: "hotki_app \<Rightarrow> hotki_app" where
  "sync_display_metrics a =
     (let m = ap_display_metrics a;
          a = (if \<not> ap_hud_presentation_overridden a then a\<lparr>ap_hud := hud_set_display_metrics m (ap_hud a)\<rparr> else a);
          a = a\<lparr>ap_selector := sw_set_display_metrics m (ap_selector a)\<rparr>;
          a = (if \<not> ap_notification_presentation_overridden a
               then a\<lparr>ap_notifications := nx_set_display_metrics m (ap_notifications a)\<rparr> else a)
      in a\<lparr>ap_main_window := mw_set_display_metrics m (ap_main_window a)\<rparr>)"

definition set_notification_presentation_override :: "notification_presentation option \<Rightarrow> hotki_app \<Rightarrow> hotki_app" where
  "set_notification_presentation_override p a =
     (case p of
        Some p \<Rightarrow>
          a\<lparr>ap_notification_presentation_overridden := True,
            ap_notifications := nx_set_display_metrics (metrics_from_snapshot (np_displays p))
              (nx_reconfigure (np_config p) (ap_notifications a))\<rparr>
      | None \<Rightarrow>
          a\<lparr>ap_notification_presentation_overridden := False,
            ap_notifications := nx_set_display_metrics (ap_display_metrics a)
              (nx_reconfigure (ap_runtime_notify_config a) (ap_notifications a))\<rparr>)"

definition apply_runtime_hud_state :: "hotki_app \<Rightarrow> hotki_app" where
  "apply_runtime_hud_state a =
     (case ap_runtime_hud_state a of
        None \<Rightarrow> a
      | Some h \<Rightarrow>
          a\<lparr>ap_hud := hud_set_state (hud_state_rows h) (hud_state_visible h) (hud_state_breadcrumbs h)
              (hud_set_style (style_hud (hud_state_style h)) (ap_hud a))\<rparr>)"

definition set_hud_presentation_override :: "hud_presentation option \<Rightarrow> hotki_app \<Rightarrow> hotki_app" where
  "set_hud_presentation_override p a =
     (let a = a\<lparr>ap_hud := hud_clear_key_state (ap_hud a)\<rparr>
      in case p of
           Some p \<Rightarrow>
             a\<lparr>ap_hud_presentation_overridden := True,
               ap_hud := hud_set_display_metrics (metrics_from_snapshot (hpr_displays p))
                 (hud_set_state (hud_state_rows (hpr_hud p)) (hud_state_visible (hpr_hud p)) (hud_state_breadcrumbs (hpr_hud p))
                   (hud_set_style (style_hud (hud_state_style (hpr_hud p))) (ap_hud a)))\<rparr>
         | None \<Rightarrow>
             apply_runtime_hud_state
               (a\<lparr>ap_hud_presentation_overridden := False,
                  ap_hud := hud_set_display_metrics (ap_display_metrics a) (ap_hud a)\<rparr>))"

definition presented_health :: "hotki_app \<Rightarrow> runtime_health" where
  "presented_health a = (case ap_runtime_health_override a of Some h \<Rightarrow> h | None \<Rightarrow> ap_runtime_health a)"

definition apply_runtime_health :: "hotki_app \<Rightarrow> hotki_app" where
  "apply_runtime_health a =
     (let health = presented_health a;
          a = (if \<not> server_connected health then a\<lparr>ap_hud := hud_clear_key_state (ap_hud a)\<rparr> else a)
      in a\<lparr>ap_main_window := mw_set_runtime_health health (ap_main_window a),
           ap_tray := map_option (tray_set_runtime_health health) (ap_tray a)\<rparr>)"

text \<open>\<open>about\<close> tells whether the About panel could be opened.\<close>

fun handle_command :: "bool \<Rightarrow> ui_command \<Rightarrow> hotki_app \<Rightarrow> hotki_app" where
  "handle_command about ActivateApp a = a"
| "handle_command about ShowAbout a = a\<lparr>ap_about_panel_opened := about\<rparr>"
| "handle_command about UiShutdown a =
     a\<lparr>ap_shutdown_in_progress := True, ap_hud := hud_hide (ap_hud a), ap_selector := sw_hide (ap_selector a),
       ap_notifications := nx_clear_all (ap_notifications a), ap_main_window := mw_hide (ap_main_window a),
       ap_logs_window := lw_hide (ap_logs_window a), ap_permissions := ph_hide (ap_permissions a), ap_tray := None\<rparr>"
| "handle_command about ShowPermissionsHelp a = a\<lparr>ap_permissions := ph_show (ap_permissions a)\<rparr>"
| "handle_command about HidePermissionsHelp a = a\<lparr>ap_permissions := ph_hide (ap_permissions a)\<rparr>"
| "handle_command about ShowLogs a = a\<lparr>ap_logs_window := lw_show (ap_logs_window a)\<rparr>"
| "handle_command about HideLogs a = a\<lparr>ap_logs_window := lw_hide (ap_logs_window a)\<rparr>"
| "handle_command about (SetRuntimeHealth health) a = apply_runtime_health (a\<lparr>ap_runtime_health := health\<rparr>)"
| "handle_command about (SetRuntimeHealthOverride health) a = apply_runtime_health (a\<lparr>ap_runtime_health_override := health\<rparr>)"
| "handle_command about (SetServerBindings bindings) a = a\<lparr>ap_server_bindings := bindings\<rparr>"
| "handle_command about (SetInputHealth input) a = a\<lparr>ap_input_health := input\<rparr>"
| "handle_command about (SetPermissionStatusOverride status) a =
     a\<lparr>ap_permissions := ph_set_status_override status (ap_permissions a)\<rparr>"
| "handle_command about (SetNotificationPresentationOverride p) a = set_notification_presentation_override p a"
| "handle_command about (SetHudPresentationOverride p) a = set_hud_presentation_override p a"

text \<open>A message arriving at instant \<open>now\<close> and local time \<open>wall\<close>.\<close>

definition handle_hud_update :: "hud_state \<Rightarrow> displays_snapshot \<Rightarrow> hotki_app \<Rightarrow> hotki_app" where
  "handle_hud_update h displays a =
     (let a = sync_display_metrics (a\<lparr>ap_display_metrics := metrics_from_snapshot displays\<rparr>);
          style = hud_state_style h;
          a = a\<lparr>ap_selector := sw_set_style (style_selector style) (ap_selector a), ap_runtime_notify_config := style_notify style\<rparr>;
          a = (if \<not> ap_notification_presentation_overridden a
               then a\<lparr>ap_notifications := nx_reconfigure (ap_runtime_notify_config a) (ap_notifications a)\<rparr> else a);
          a = a\<lparr>ap_main_window := mw_update_theme (nc_theme (style_notify style)) (ap_main_window a), ap_runtime_hud_state := Some h\<rparr>
      in if \<not> ap_hud_presentation_overridden a then apply_runtime_hud_state a else a)"

fun handle_message :: "nat \<Rightarrow> nat \<Rightarrow> msg_to_ui \<Rightarrow> hotki_app \<Rightarrow> hotki_app" where
  "handle_message now wall (HudUpdate h displays) a = handle_hud_update h displays a"
| "handle_message now wall (HudKeyState chord pressed) a = a\<lparr>ap_hud := hud_set_key_state chord pressed now (ap_hud a)\<rparr>"
| "handle_message now wall (SelectorUpdate snapshot) a = a\<lparr>ap_selector := sw_set_state snapshot (ap_selector a)\<rparr>"
| "handle_message now wall SelectorHide a = a\<lparr>ap_selector := sw_hide (ap_selector a)\<rparr>"
| "handle_message now wall (Notify kind title content) a =
     a\<lparr>ap_notifications := nx_push now wall kind title content (ap_notifications a)\<rparr>"
| "handle_message now wall ClearNotifications a = a\<lparr>ap_notifications := nx_clear_all (ap_notifications a)\<rparr>"
| "handle_message now wall (ShowMainWindow toggle) a =
     a\<lparr>ap_main_window := (case toggle of Toggle_On \<Rightarrow> mw_show | Toggle_Off \<Rightarrow> mw_hide | Toggle_Toggle \<Rightarrow> mw_toggle) (ap_main_window a)\<rparr>"
| "handle_message now wall (Log level target message) a = a"
| "handle_message now wall (Heartbeat hb) a = a"
| "handle_message now wall (WorldMsg w) a = a"

datatype main_window_command = MWC_Primary primary_action | MWC_ShowLogs

fun handle_main_window_command :: "main_window_command \<Rightarrow> hotki_app \<Rightarrow> hotki_app" where
  "handle_main_window_command (MWC_Primary PA_OpenPermissions) a = a\<lparr>ap_permissions := ph_show (ap_permissions a)\<rparr>"
| "handle_main_window_command (MWC_Primary PA_ReloadConfig) a = a\<lparr>ap_control := ap_control a @ [CM_Reload]\<rparr>"
| "handle_main_window_command (MWC_Primary PA_TryAgain) a = a\<lparr>ap_control := ap_control a @ [CM_Reload]\<rparr>"
| "handle_main_window_command MWC_ShowLogs a = a\<lparr>ap_logs_window := lw_show (ap_logs_window a)\<rparr>"

subsection \<open>Presentation barriers and frames\<close>

fun presentation_matches :: "hotki_app \<Rightarrow> presentation_expectation \<Rightarrow> bool" where
  "presentation_matches a Expect_Hud = hud_visible (ap_hud a)"
| "presentation_matches a (Expect_Selector q) = (sw_query (ap_selector a) = Some q)"
| "presentation_matches a (Expect_Notification kind) = contains_kind kind (ap_notifications a)"

definition receive_presentation_requests :: "presentation_request list \<Rightarrow> hotki_app \<Rightarrow> hotki_app" where
  "receive_presentation_requests requests a =
     a\<lparr>ap_pending_presentations := ap_pending_presentations a
         @ map (\<lambda>r. \<lparr>pp_request = r, pp_matched_frame = None\<rparr>) requests\<rparr>"

text \<open>The barriers of a frame: what is acknowledged and what stays pending.\<close>

fun barrier_loop :: "nat \<Rightarrow> (presentation_expectation \<Rightarrow> bool) \<Rightarrow> pending_presentation list \<Rightarrow> nat list \<times> pending_presentation list" where
  "barrier_loop frame matches [] = ([], [])"
| "barrier_loop frame matches (b # bs) =
     (let (acks, pending) = barrier_loop frame matches bs
      in if \<not> matches (snd (pp_request b)) then (acks, b\<lparr>pp_matched_frame := None\<rparr> # pending)
         else if (case pp_matched_frame b of Some m \<Rightarrow> m < frame | None \<Rightarrow> False)
         then (fst (pp_request b) # acks, pending)
         else (acks, b\<lparr>pp_matched_frame := Some frame\<rparr> # pending))"

definition acknowledge_presentations :: "hotki_app \<Rightarrow> nat list \<times> hotki_app" where
  "acknowledge_presentations a =
     (let a = a\<lparr>ap_rendered_frame := min (ap_rendered_frame a + 1) (2 ^ 64 - 1)\<rparr>;
          (acks, pending) = barrier_loop (ap_rendered_frame a) (presentation_matches a) (ap_pending_presentations a)
      in (acks, a\<lparr>ap_pending_presentations := pending\<rparr>))"

text \<open>What the user, the window system and the clock contribute to a frame.\<close>

record frame_input =
  fi_requests :: "presentation_request list"
  fi_now :: nat
  fi_geometry :: "vec2 \<times> vec2"
  fi_layout :: "notification_item \<Rightarrow> vec2 \<times> vec2 \<times> bool"
  fi_native :: bool
  fi_main_close :: bool
  fi_main_geometry :: "(vec2 \<times> vec2) option"
  fi_main_command :: "main_window_command option"
  fi_logs_close :: bool
  fi_logs_clear :: bool
  fi_system :: capabilities
  fi_app_active :: bool
  fi_permissions_close :: bool

definition app_frame :: "frame_input \<Rightarrow> hotki_app \<times> log_buffer \<Rightarrow> nat list \<times> hotki_app \<times> log_buffer" where
  "app_frame i s =
     (let (a, logs) = s;
          a = receive_presentation_requests (fi_requests i) a;
          a = a\<lparr>ap_hud := snd (hud_render (fi_now i) (fi_geometry i) (fi_native i) (ap_hud a))\<rparr>;
          a = a\<lparr>ap_selector := sw_render (fi_geometry i) (fi_native i) (ap_selector a)\<rparr>;
          a = a\<lparr>ap_notifications := nx_render (fi_now i) (fi_layout i) (fi_native i) (ap_notifications a)\<rparr>;
          shown = mw_visible (ap_main_window a);
          a = a\<lparr>ap_main_window := mw_render (fi_main_close i) (fi_main_geometry i) (ap_main_window a)\<rparr>;
          a = (case fi_main_command i of
                 Some c \<Rightarrow> if shown \<and> \<not> fi_main_close i then handle_main_window_command c a else a
               | None \<Rightarrow> a);
          (w, logs) = lw_render (fi_logs_close i) (fi_logs_clear i) (ap_logs_window a, logs);
          a = a\<lparr>ap_logs_window := w\<rparr>;
          (msgs, p) = ph_render (fi_system i) (fi_app_active i) (fi_permissions_close i) (ap_permissions a);
          a = a\<lparr>ap_permissions := p, ap_control := ap_control a @ msgs\<rparr>;
          (acks, a) = acknowledge_presentations a
      in (acks, a, logs))"

subsection \<open>What the surfaces present\<close>

text \<open>
  The abstract state: the latest HUD update, selector and health that the runtime published,
  the overrides in force, the HUD override that was set last, which windows are open, what the
  permissions helper observed last, and whether there is a status item.  An event replaces one
  of them.
\<close>

record permissions_spec =
  up_visible :: bool
  up_override :: "capabilities option"
  up_due :: bool
  up_app_active :: bool
  up_status :: capabilities

record ui_spec =
  us_hud :: "(hud_state \<times> displays_snapshot) option"
  us_hud_override :: "hud_presentation option"
  us_hud_last_override :: "hud_presentation option"
  us_notify_override :: "notification_presentation option"
  us_health :: runtime_health
  us_health_override :: "runtime_health option"
  us_selector :: "selector_snapshot option"
  us_main_visible :: bool
  us_logs_visible :: bool
  us_permissions :: permissions_spec
  us_tray :: bool

definition spec_new :: "string \<Rightarrow> bool \<Rightarrow> ui_spec" where
  "spec_new config_path icon_ok =
     \<lparr>us_hud = None, us_hud_override = None, us_hud_last_override = None, us_notify_override = None,
      us_health = health_connecting config_path, us_health_override = None, us_selector = None, us_main_visible = False,
      us_logs_visible = False,
      us_permissions = \<lparr>up_visible = False, up_override = None, up_due = True, up_app_active = False, up_status = capabilities_default\<rparr>,
      us_tray = icon_ok\<rparr>"

definition spec_health :: "ui_spec \<Rightarrow> runtime_health" where
  "spec_health u = (case us_health_override u of Some h \<Rightarrow> h | None \<Rightarrow> us_health u)"

definition spec_close_on_shutdown :: "ui_spec \<Rightarrow> ui_spec" where
  "spec_close_on_shutdown u = u\<lparr>us_main_visible := us_main_visible u \<and> \<not> is_shutting_down (spec_health u)\<rparr>"

fun spec_event :: "ui_event \<Rightarrow> ui_spec \<Rightarrow> ui_spec" where
  "spec_event (UE_Message (HudUpdate h d)) u = u\<lparr>us_hud := Some (h, d)\<rparr>"
| "spec_event (UE_Message (SelectorUpdate snapshot)) u = u\<lparr>us_selector := Some snapshot\<rparr>"
| "spec_event (UE_Message SelectorHide) u = u\<lparr>us_selector := None\<rparr>"
| "spec_event (UE_Message (ShowMainWindow toggle)) u =
     u\<lparr>us_main_visible := (case toggle of Toggle_On \<Rightarrow> True | Toggle_Off \<Rightarrow> False | Toggle_Toggle \<Rightarrow> \<not> us_main_visible u)\<rparr>"
| "spec_event (UE_Command (SetRuntimeHealth h)) u = spec_close_on_shutdown (u\<lparr>us_health := h\<rparr>)"
| "spec_event (UE_Command (SetRuntimeHealthOverride h)) u = spec_close_on_shutdown (u\<lparr>us_health_override := h\<rparr>)"
| "spec_event (UE_Command (SetNotificationPresentationOverride p)) u = u\<lparr>us_notify_override := p\<rparr>"
| "spec_event (UE_Command (SetHudPresentationOverride (Some p))) u = u\<lparr>us_hud_override := Some p, us_hud_last_override := Some p\<rparr>"
| "spec_event (UE_Command (SetHudPresentationOverride None)) u = u\<lparr>us_hud_override := None\<rparr>"
| "spec_event (UE_Command ShowLogs) u = u\<lparr>us_logs_visible := True\<rparr>"
| "spec_event (UE_Command HideLogs) u = u\<lparr>us_logs_visible := False\<rparr>"
| "spec_event (UE_Command ShowPermissionsHelp) u = u\<lparr>us_permissions := (us_permissions u)\<lparr>up_visible := True\<rparr>\<rparr>"
| "spec_event (UE_Command HidePermissionsHelp) u = u\<lparr>us_permissions := (us_permissions u)\<lparr>up_visible := False\<rparr>\<rparr>"
| "spec_event (UE_Command (SetPermissionStatusOverride status)) u =
     u\<lparr>us_permissions := (us_permissions u)\<lparr>up_override := status, up_due := True\<rparr>\<rparr>"
| "spec_event e u = u"

text \<open>An event handled at some instant, or a frame.\<close>

datatype app_input = AI_Event nat nat bool ui_event | AI_Frame frame_input

fun app_apply :: "app_input \<Rightarrow> hotki_app \<times> log_buffer \<Rightarrow> hotki_app \<times> log_buffer" where
  "app_apply (AI_Event now wall about (UE_Message m)) (a, logs) = (handle_message now wall m a, logs)"
| "app_apply (AI_Event now wall about (UE_Command c)) (a, logs) = (handle_command about c a, logs)"
| "app_apply (AI_Frame i) s = snd (app_frame i s)"

text \<open>
  A frame: the user may close a window, or open one with a button of the main window; a status
  observation is made when one is due, when the app becomes active or while the helper is open.
\<close>

definition spec_command :: "frame_input \<Rightarrow> ui_spec \<Rightarrow> main_window_command option" where
  "spec_command i u = (if us_main_visible u \<and> \<not> fi_main_close i then fi_main_command i else None)"

definition permissions_frame :: "capabilities \<Rightarrow> bool \<Rightarrow> bool \<Rightarrow> bool \<Rightarrow> permissions_spec \<Rightarrow> permissions_spec" where
  "permissions_frame system active opened close p =
     (let visible = up_visible p \<or> opened;
          observes = up_due p \<or> (active \<and> \<not> up_app_active p) \<or> visible
      in p\<lparr>up_visible := visible \<and> \<not> close, up_app_active := active, up_due := up_due p \<and> \<not> observes,
           up_status := if observes then (case up_override p of Some s \<Rightarrow> s | None \<Rightarrow> system) else up_status p\<rparr>)"

fun spec_apply :: "app_input \<Rightarrow> ui_spec \<Rightarrow> ui_spec" where
  "spec_apply (AI_Event now wall about e) u = spec_event e u"
| "spec_apply (AI_Frame i) u =
     u\<lparr>us_main_visible := us_main_visible u \<and> \<not> fi_main_close i,
       us_logs_visible := (us_logs_visible u \<or> spec_command i u = Some MWC_ShowLogs) \<and> \<not> fi_logs_close i,
       us_permissions := permissions_frame (fi_system i) (fi_app_active i)
         (spec_command i u = Some (MWC_Primary PA_OpenPermissions)) (fi_permissions_close i) (us_permissions u)\<rparr>"

definition spec_metrics :: "ui_spec \<Rightarrow> display_metrics" where
  "spec_metrics u = (case us_hud u of Some (h, d) \<Rightarrow> metrics_from_snapshot d | None \<Rightarrow> metrics_default)"

definition spec_style :: "ui_style \<Rightarrow> ui_spec \<Rightarrow> ui_style" where
  "spec_style style u = (case us_hud u of Some (h, d) \<Rightarrow> hud_state_style h | None \<Rightarrow> style)"

text \<open>Styles agree up to the sign of zeros, which the comparison before an update ignores.\<close>

definition hud_shows :: "hud_state \<Rightarrow> display_metrics \<Rightarrow> hud \<Rightarrow> bool" where
  "hud_shows h m v \<longleftrightarrow> hud_rows v = hud_state_rows h \<and> hud_visible v = hud_state_visible h
     \<and> hud_breadcrumbs v = hud_state_breadcrumbs h \<and> ow_metrics (hud_viewport v) = m
     \<and> (hud_cfg v = style_hud (hud_state_style h) \<or> hud_style_eq (hud_cfg v) (style_hud (hud_state_style h)))"

definition center_shows :: "notify_config \<Rightarrow> display_metrics \<Rightarrow> notification_center \<Rightarrow> bool" where
  "center_shows cfg m c \<longleftrightarrow> nx_max_items c = unat (nc_buffer cfg) \<and> nx_width c = nc_width cfg \<and> nx_side c = nc_pos cfg
     \<and> nx_opacity c = nc_opacity cfg \<and> nx_timeout c = notification_timeout (nc_timeout cfg) \<and> nx_theme c = nc_theme cfg
     \<and> (nx_radius c = nc_radius cfg \<or> f32_eq (nx_radius c) (nc_radius cfg)) \<and> nx_metrics c = m"

text \<open>
  The HUD to be shown and the displays it is placed on: the override in force, or the latest HUD
  update; before the first update the initial empty HUD, in whose place a lifted override stays.
\<close>

definition initial_hud :: "ui_style \<Rightarrow> hud_state" where
  "initial_hud style =
     \<lparr>hud_state_visible = False, hud_state_rows = [], hud_state_depth = 0, hud_state_breadcrumbs = [],
      hud_state_style = style, hud_state_capture = False\<rparr>"

definition spec_hud :: "ui_style \<Rightarrow> ui_spec \<Rightarrow> hud_state" where
  "spec_hud style u =
     (case us_hud_override u of
        Some p \<Rightarrow> hpr_hud p
      | None \<Rightarrow>
          (case us_hud u of
             Some (h, d) \<Rightarrow> h
           | None \<Rightarrow> (case us_hud_last_override u of Some p \<Rightarrow> hpr_hud p | None \<Rightarrow> initial_hud style)))"

definition spec_hud_metrics :: "ui_spec \<Rightarrow> display_metrics" where
  "spec_hud_metrics u =
     (case us_hud_override u of Some p \<Rightarrow> metrics_from_snapshot (hpr_displays p) | None \<Rightarrow> spec_metrics u)"

definition hud_presents :: "ui_style \<Rightarrow> ui_spec \<Rightarrow> hud \<Rightarrow> bool" where
  "hud_presents style u v \<longleftrightarrow> hud_shows (spec_hud style u) (spec_hud_metrics u) v"

definition center_presents :: "ui_style \<Rightarrow> ui_spec \<Rightarrow> notification_center \<Rightarrow> bool" where
  "center_presents style u c \<longleftrightarrow>
     (case us_notify_override u of
        Some p \<Rightarrow> center_shows (np_config p) (metrics_from_snapshot (np_displays p)) c
      | None \<Rightarrow> center_shows (style_notify (spec_style style u)) (spec_metrics u) c)"

definition selector_presents :: "ui_style \<Rightarrow> ui_spec \<Rightarrow> selector_window \<Rightarrow> bool" where
  "selector_presents style u w \<longleftrightarrow> sw_state w = us_selector u \<and> sw_style w = style_selector (spec_style style u)
     \<and> ow_metrics (sw_viewport w) = spec_metrics u"

definition main_presents :: "ui_style \<Rightarrow> ui_spec \<Rightarrow> main_window \<Rightarrow> bool" where
  "main_presents style u w \<longleftrightarrow> mw_visible w = us_main_visible u \<and> mw_presentation w = presentation (spec_health u)
     \<and> mw_theme w = nc_theme (style_notify (spec_style style u)) \<and> ow_metrics (mw_viewport w) = spec_metrics u"

definition tray_presents :: "ui_spec \<Rightarrow> tray option \<Rightarrow> bool" where
  "tray_presents u t \<longleftrightarrow>
     (case t of
        Some t \<Rightarrow> us_tray u
          \<and> (let title = map_option rn_title (rp_notice (presentation (spec_health u)))
             in tr_notice_shown t = (title \<noteq> None) \<and> (title \<noteq> None \<longrightarrow> tr_notice_text t = the title)
                \<and> tr_tooltip t = (case title of Some x \<Rightarrow> x | None \<Rightarrow> glyphs_of ''Hotki'')
                \<and> tr_reload_enabled t = (\<not> is_shutting_down (spec_health u)))
      | None \<Rightarrow> \<not> us_tray u)"

definition permissions_presents :: "permissions_spec \<Rightarrow> permissions_help \<Rightarrow> bool" where
  "permissions_presents q p \<longleftrightarrow> ph_visible p = up_visible q \<and> ph_status_override p = up_override q
     \<and> ph_current_status p = up_status q \<and> ph_observation_pending p = up_due q \<and> ph_app_was_active p = up_app_active q"

definition app_presents :: "ui_style \<Rightarrow> ui_spec \<Rightarrow> hotki_app \<Rightarrow> bool" where
  "app_presents style u a \<longleftrightarrow> hud_presents style u (ap_hud a) \<and> center_presents style u (ap_notifications a)
     \<and> selector_presents style u (ap_selector a) \<and> main_presents style u (ap_main_window a) \<and> tray_presents u (ap_tray a)
     \<and> lw_visible (ap_logs_window a) = us_logs_visible u \<and> permissions_presents (us_permissions u) (ap_permissions a)"

definition app_tracks :: "ui_style \<Rightarrow> ui_spec \<Rightarrow> hotki_app \<Rightarrow> bool" where
  "app_tracks style u a \<longleftrightarrow> ap_hud_presentation_overridden a = (us_hud_override u \<noteq> None)
     \<and> ap_notification_presentation_overridden a = (us_notify_override u \<noteq> None)
     \<and> ap_runtime_hud_state a = map_option fst (us_hud u) \<and> ap_display_metrics a = spec_metrics u
     \<and> ap_runtime_notify_config a = style_notify (spec_style style u)
     \<and> ap_runtime_health a = us_health u \<and> ap_runtime_health_override a = us_health_override u
     \<and> (\<forall>p. us_hud_override u = Some p \<longrightarrow> us_hud_last_override u = Some p)"

lemmas presents_defs = hud_presents_def center_presents_def selector_presents_def main_presents_def tray_presents_def

subsection \<open>How the operations change what is presented\<close>

lemma hud_shows_ops [simp]:
  "hud_shows h m (hud_set_display_metrics m' v) \<longleftrightarrow> m = m' \<and> hud_shows h (ow_metrics (hud_viewport v)) v"
  "hud_shows h m (hud_clear_key_state v) = hud_shows h m v"
  "hud_shows h m (hud_set_key_state c pressed now v) = hud_shows h m v"
  "hud_shows h m (snd (hud_render now g native v)) = hud_shows h m v"
  by (auto simp: hud_shows_def hud_set_display_metrics_def hud_clear_key_state_def hud_set_key_state_def hud_render_def
      Let_def split: prod.split)

lemma hud_metrics_ops [simp]:
  "ow_metrics (hud_viewport (hud_set_display_metrics m' v)) = m'"
  "ow_metrics (hud_viewport (hud_clear_key_state v)) = ow_metrics (hud_viewport v)"
  "ow_metrics (hud_viewport (hud_set_key_state c pressed now v)) = ow_metrics (hud_viewport v)"
  "ow_metrics (hud_viewport (snd (hud_render now g native v))) = ow_metrics (hud_viewport v)"
  "ow_metrics (hud_viewport (hud_set_style cfg v)) = ow_metrics (hud_viewport v)"
  "ow_metrics (hud_viewport (hud_set_state rows visible crumbs v)) = ow_metrics (hud_viewport v)"
  by (simp_all add: hud_set_display_metrics_def hud_clear_key_state_def hud_set_key_state_def hud_render_def
      hud_set_style_def hud_set_state_def Let_def split: prod.split)

lemma hud_shows_state [simp]:
  "hud_shows h m (hud_set_state (hud_state_rows h) (hud_state_visible h) (hud_state_breadcrumbs h)
     (hud_set_style (style_hud (hud_state_style h)) v)) \<longleftrightarrow> m = ow_metrics (hud_viewport v)"
  by (auto simp: hud_shows_def hud_set_state_def hud_set_style_def Let_def)

lemma hud_shows_metrics: "hud_shows h m v \<Longrightarrow> ow_metrics (hud_viewport v) = m"
  by (simp add: hud_shows_def)

lemma center_shows_ops [simp]:
  "center_shows cfg m (nx_push now wall kind title content c) = center_shows cfg m c"
  "center_shows cfg m (nx_clear_all c) = center_shows cfg m c"
  "center_shows cfg m (nx_render now layout native c) = center_shows cfg m c"
  "center_shows cfg m (nx_set_display_metrics m' c) \<longleftrightarrow> m = m' \<and> center_shows cfg (nx_metrics c) c"
  "center_shows cfg m (nx_reconfigure cfg c) \<longleftrightarrow> m = nx_metrics c"
  by (auto simp: center_shows_def nx_push_def next_notification_identity_def nx_clear_all_def nx_render_def
      nx_retain_def trim_live_items_def nx_set_display_metrics_def nx_reconfigure_def Let_def)

lemma nx_metrics_reconfigure [simp]: "nx_metrics (nx_reconfigure cfg c) = nx_metrics c"
  by (simp add: nx_reconfigure_def Let_def)

lemma center_shows_new: "center_shows cfg metrics_default (notification_center_new cfg)"
  by (simp add: center_shows_def notification_center_new_def)

lemma tray_presents_set: "us_tray u = (t \<noteq> None) \<Longrightarrow> tray_presents u (map_option (tray_set_runtime_health (spec_health u)) t)"
  by (cases t) (auto simp: tray_presents_def tray_set_runtime_health_def tray_copy_def Let_def split: option.split)

definition app_ok :: "ui_style \<Rightarrow> ui_spec \<Rightarrow> hotki_app \<Rightarrow> bool" where
  "app_ok style u a \<longleftrightarrow> app_presents style u a \<and> app_tracks style u a"

lemmas ok_defs = app_ok_def app_presents_def app_tracks_def

lemma spec_parts [simp]:
  "spec_style style (u\<lparr>us_hud_override := p\<rparr>) = spec_style style u" "spec_metrics (u\<lparr>us_hud_override := p\<rparr>) = spec_metrics u"
  "spec_style style (u\<lparr>us_hud_last_override := p\<rparr>) = spec_style style u" "spec_metrics (u\<lparr>us_hud_last_override := p\<rparr>) = spec_metrics u"
  "spec_style style (u\<lparr>us_logs_visible := v\<rparr>) = spec_style style u" "spec_metrics (u\<lparr>us_logs_visible := v\<rparr>) = spec_metrics u"
  "spec_style style (u\<lparr>us_permissions := w\<rparr>) = spec_style style u" "spec_metrics (u\<lparr>us_permissions := w\<rparr>) = spec_metrics u"
  "spec_health (u\<lparr>us_hud_last_override := p\<rparr>) = spec_health u" "spec_health (u\<lparr>us_logs_visible := v\<rparr>) = spec_health u"
  "spec_health (u\<lparr>us_permissions := w\<rparr>) = spec_health u"
  "spec_style style (u\<lparr>us_notify_override := q\<rparr>) = spec_style style u" "spec_metrics (u\<lparr>us_notify_override := q\<rparr>) = spec_metrics u"
  "spec_style style (u\<lparr>us_health := r\<rparr>) = spec_style style u" "spec_metrics (u\<lparr>us_health := r\<rparr>) = spec_metrics u"
  "spec_style style (u\<lparr>us_health_override := s\<rparr>) = spec_style style u" "spec_metrics (u\<lparr>us_health_override := s\<rparr>) = spec_metrics u"
  "spec_style style (u\<lparr>us_selector := t\<rparr>) = spec_style style u" "spec_metrics (u\<lparr>us_selector := t\<rparr>) = spec_metrics u"
  "spec_style style (u\<lparr>us_main_visible := v\<rparr>) = spec_style style u" "spec_metrics (u\<lparr>us_main_visible := v\<rparr>) = spec_metrics u"
  "spec_health (u\<lparr>us_hud := x\<rparr>) = spec_health u" "spec_health (u\<lparr>us_hud_override := p\<rparr>) = spec_health u"
  "spec_health (u\<lparr>us_notify_override := q\<rparr>) = spec_health u" "spec_health (u\<lparr>us_selector := t\<rparr>) = spec_health u"
  "spec_health (u\<lparr>us_main_visible := v\<rparr>) = spec_health u"
  by (simp_all add: spec_style_def spec_metrics_def spec_health_def split: option.split)

lemma spec_parts_hud [simp]:
  "spec_style style (u\<lparr>us_hud := Some (h, d)\<rparr>) = hud_state_style h"
  "spec_metrics (u\<lparr>us_hud := Some (h, d)\<rparr>) = metrics_from_snapshot d"
  by (simp_all add: spec_style_def spec_metrics_def)

lemma presents_frame [simp]:
  "hud_presents style (u\<lparr>us_notify_override := q\<rparr>) v = hud_presents style u v" "hud_presents style (u\<lparr>us_health := r\<rparr>) v = hud_presents style u v"
  "hud_presents style (u\<lparr>us_health_override := s\<rparr>) v = hud_presents style u v" "hud_presents style (u\<lparr>us_selector := t\<rparr>) v = hud_presents style u v"
  "hud_presents style (u\<lparr>us_main_visible := b\<rparr>) v = hud_presents style u v"
  "center_presents style (u\<lparr>us_hud_override := p\<rparr>) c = center_presents style u c"
  "center_presents style (u\<lparr>us_health := r\<rparr>) c = center_presents style u c"
  "center_presents style (u\<lparr>us_health_override := s\<rparr>) c = center_presents style u c"
  "center_presents style (u\<lparr>us_selector := t\<rparr>) c = center_presents style u c"
  "center_presents style (u\<lparr>us_main_visible := b\<rparr>) c = center_presents style u c"
  "selector_presents style (u\<lparr>us_hud_override := p\<rparr>) w = selector_presents style u w"
  "selector_presents style (u\<lparr>us_notify_override := q\<rparr>) w = selector_presents style u w"
  "selector_presents style (u\<lparr>us_health := r\<rparr>) w = selector_presents style u w"
  "selector_presents style (u\<lparr>us_health_override := s\<rparr>) w = selector_presents style u w"
  "selector_presents style (u\<lparr>us_main_visible := b\<rparr>) w = selector_presents style u w"
  "main_presents style (u\<lparr>us_hud_override := p\<rparr>) m = main_presents style u m"
  "main_presents style (u\<lparr>us_notify_override := q\<rparr>) m = main_presents style u m"
  "main_presents style (u\<lparr>us_selector := t\<rparr>) m = main_presents style u m"
  "tray_presents (u\<lparr>us_hud := x\<rparr>) y = tray_presents u y" "tray_presents (u\<lparr>us_hud_override := p\<rparr>) y = tray_presents u y"
  "tray_presents (u\<lparr>us_notify_override := q\<rparr>) y = tray_presents u y" "tray_presents (u\<lparr>us_selector := t\<rparr>) y = tray_presents u y"
  "tray_presents (u\<lparr>us_main_visible := b\<rparr>) y = tray_presents u y"
  "hud_presents style (u\<lparr>us_logs_visible := b\<rparr>) v = hud_presents style u v" "center_presents style (u\<lparr>us_logs_visible := b\<rparr>) c = center_presents style u c"
  "selector_presents style (u\<lparr>us_logs_visible := b\<rparr>) w = selector_presents style u w" "main_presents style (u\<lparr>us_logs_visible := b\<rparr>) m = main_presents style u m"
  "tray_presents (u\<lparr>us_logs_visible := b\<rparr>) y = tray_presents u y"
  "hud_presents style (u\<lparr>us_permissions := z\<rparr>) v = hud_presents style u v" "center_presents style (u\<lparr>us_permissions := z\<rparr>) c = center_presents style u c"
  "selector_presents style (u\<lparr>us_permissions := z\<rparr>) w = selector_presents style u w" "main_presents style (u\<lparr>us_permissions := z\<rparr>) m = main_presents style u m"
  "tray_presents (u\<lparr>us_permissions := z\<rparr>) y = tray_presents u y"
  "center_presents style (u\<lparr>us_hud_last_override := p\<rparr>) c = center_presents style u c"
  "selector_presents style (u\<lparr>us_hud_last_override := p\<rparr>) w = selector_presents style u w"
  "main_presents style (u\<lparr>us_hud_last_override := p\<rparr>) m = main_presents style u m"
  "tray_presents (u\<lparr>us_hud_last_override := p\<rparr>) y = tray_presents u y"
  by (simp_all add: presents_defs spec_hud_def spec_hud_metrics_def split: option.split)

text \<open>A surface's own operations keep what it presents.\<close>

lemma presents_ops [simp]:
  "hud_presents style u (hud_clear_key_state v) = hud_presents style u v"
  "hud_presents style u (hud_set_key_state c pressed now v) = hud_presents style u v"
  "hud_presents style u (snd (hud_render now g native v)) = hud_presents style u v"
  "center_presents style u (nx_push now wall kind title content x) = center_presents style u x"
  "center_presents style u (nx_clear_all x) = center_presents style u x"
  "center_presents style u (nx_render now layout native x) = center_presents style u x"
  "selector_presents style u (sw_render g native w) = selector_presents style u w"
  by (simp_all add: presents_defs split: option.split)

lemma health_ok:
  assumes "app_tracks style u a" "hud_presents style u (ap_hud a)" "center_presents style u (ap_notifications a)"
    "selector_presents style u (ap_selector a)" "mw_visible (ap_main_window a) = us_main_visible u"
    "mw_theme (ap_main_window a) = nc_theme (style_notify (spec_style style u))"
    "ow_metrics (mw_viewport (ap_main_window a)) = spec_metrics u"
    "us_tray u = (ap_tray a \<noteq> None)" "lw_visible (ap_logs_window a) = us_logs_visible u"
    "permissions_presents (us_permissions u) (ap_permissions a)"
  shows "app_ok style (spec_close_on_shutdown u) (apply_runtime_health a)"
proof -
  have h: "presented_health a = spec_health u" using assms(1) by (simp add: app_tracks_def presented_health_def spec_health_def split: option.split)
  show ?thesis using assms
    by (simp add: ok_defs apply_runtime_health_def spec_close_on_shutdown_def h Let_def tray_presents_set main_presents_def)
qed

fun spec_override :: "hud_presentation option \<Rightarrow> ui_spec \<Rightarrow> ui_spec" where
  "spec_override (Some p) u = u\<lparr>us_hud_override := Some p, us_hud_last_override := Some p\<rparr>"
| "spec_override None u = u\<lparr>us_hud_override := None\<rparr>"

lemma spec_hud_lifted:
  "spec_hud style (u\<lparr>us_hud_override := None\<rparr>)
     = (case us_hud u of Some (h, d) \<Rightarrow> h
        | None \<Rightarrow> (case us_hud_last_override u of Some p \<Rightarrow> hpr_hud p | None \<Rightarrow> initial_hud style))"
  "spec_hud_metrics (u\<lparr>us_hud_override := None\<rparr>) = spec_metrics u"
  by (simp_all add: spec_hud_def spec_hud_metrics_def split: option.split)

lemma hud_shows_own_metrics: "hud_shows h m v \<Longrightarrow> hud_shows h (ow_metrics (hud_viewport v)) v"
  by (simp add: hud_shows_def)

lemma tray_presents_built: "tray_presents u t \<Longrightarrow> us_tray u = (t \<noteq> None)"
  by (cases t) (simp_all add: tray_presents_def)

lemma hud_override_ok:
  assumes ok: "app_ok style u a"
  shows "app_ok style (spec_override p u) (set_hud_presentation_override p a)"
proof (cases p)
  case (Some q)
  then show ?thesis using ok
    by (simp add: ok_defs set_hud_presentation_override_def Let_def hud_presents_def spec_hud_def spec_hud_metrics_def)
next
  case lifted: None
  show ?thesis
  proof (cases "us_hud u")
    case None
    have last: "us_hud_override u = Some p \<Longrightarrow> us_hud_last_override u = Some p" for p
      using ok by (simp add: ok_defs)
    have kept: "spec_hud style (u\<lparr>us_hud_override := None\<rparr>) = spec_hud style u"
      using None last by (cases "us_hud_override u") (simp_all add: spec_hud_def)
    have own: "hud_shows (spec_hud style u) (ow_metrics (hud_viewport (ap_hud a))) (ap_hud a)"
      by (rule hud_shows_own_metrics [of _ "spec_hud_metrics u"]) (use ok in \<open>simp add: ok_defs hud_presents_def\<close>)
    show ?thesis using ok lifted None
      by (simp add: ok_defs set_hud_presentation_override_def apply_runtime_hud_state_def Let_def hud_presents_def
          spec_hud_lifted(2) kept own)
  next
    case (Some hd)
    then obtain h d where "us_hud u = Some (h, d)" by (cases hd) auto
    then show ?thesis using ok lifted
      by (simp add: ok_defs set_hud_presentation_override_def apply_runtime_hud_state_def Let_def hud_presents_def
          spec_hud_lifted spec_metrics_def)
  qed
qed

lemma notification_override_ok:
  assumes "app_ok style u a"
  shows "app_ok style (u\<lparr>us_notify_override := p\<rparr>) (set_notification_presentation_override p a)"
  using assms by (cases p) (simp_all add: ok_defs set_notification_presentation_override_def center_presents_def)

lemma hud_update_ok:
  assumes "app_ok style u a"
  shows "app_ok style (u\<lparr>us_hud := Some (h, d)\<rparr>) (handle_hud_update h d a)"
  using assms
  by (cases "us_hud_override u"; cases "us_notify_override u")
    (simp_all add: ok_defs handle_hud_update_def sync_display_metrics_def apply_runtime_hud_state_def Let_def
      hud_presents_def center_presents_def selector_presents_def main_presents_def spec_hud_def spec_hud_metrics_def)

lemma message_ok:
  assumes "app_ok style u a"
  shows "app_ok style (spec_event (UE_Message m) u) (handle_message now wall m a)"
proof (cases m)
  case (ShowMainWindow toggle)
  then show ?thesis using assms by (cases toggle) (simp_all add: ok_defs main_presents_def)
next
  case (HudUpdate h d)
  then show ?thesis using hud_update_ok [OF assms] by simp
qed (use assms in \<open>simp_all add: ok_defs selector_presents_def\<close>)

lemma command_ok:
  assumes "app_ok style u a" "c \<noteq> UiShutdown"
  shows "app_ok style (spec_event (UE_Command c) u) (handle_command about c a)"
proof -
  have "tray_presents u (ap_tray a)" using assms(1) by (simp add: ok_defs)
  note built = tray_presents_built [OF this]
  show ?thesis
proof (cases c)
  case (SetRuntimeHealth h)
  then show ?thesis using assms(1)
    by (simp only: spec_event.simps handle_command.simps) (rule health_ok; simp add: ok_defs main_presents_def built)
next
  case (SetRuntimeHealthOverride h)
  then show ?thesis using assms(1)
    by (simp only: spec_event.simps handle_command.simps) (rule health_ok; simp add: ok_defs main_presents_def built)
next
  case (SetHudPresentationOverride p)
  then show ?thesis using hud_override_ok [OF assms(1), of p] by (cases p) simp_all
next
  case (SetNotificationPresentationOverride p)
  then show ?thesis using notification_override_ok [OF assms(1)] by simp
qed (use assms in \<open>simp_all add: ok_defs permissions_presents_def lw_show_def lw_hide_def ph_show_def ph_hide_def ph_set_status_override_def\<close>)
qed

text \<open>The windows that a button of the main window opens.\<close>

definition spec_button :: "main_window_command option \<Rightarrow> ui_spec \<Rightarrow> ui_spec" where
  "spec_button c u =
     u\<lparr>us_logs_visible := us_logs_visible u \<or> c = Some MWC_ShowLogs,
       us_permissions := (us_permissions u)\<lparr>up_visible := up_visible (us_permissions u) \<or> c = Some (MWC_Primary PA_OpenPermissions)\<rparr>\<rparr>"

lemma spec_button_None [simp]: "spec_button None u = u"
  by (simp add: spec_button_def)

lemma main_command_ok: "app_ok style u a \<Longrightarrow> app_ok style (spec_button (Some c) u) (handle_main_window_command c a)"
  by (cases "(c, a)" rule: handle_main_window_command.cases)
    (simp_all add: ok_defs spec_button_def permissions_presents_def lw_show_def ph_show_def)

lemma lw_render_visible: "lw_visible (fst (lw_render close clear (w, b))) = (lw_visible w \<and> \<not> close)"
  by (auto simp: lw_render_def Let_def split: option.split)

lemma permissions_frame_ok:
  assumes "permissions_presents (q\<lparr>up_visible := up_visible q \<or> opened\<rparr>) p"
  shows "permissions_presents (permissions_frame system active opened close q) (snd (ph_render system active close p))"
  using assms
  by (auto simp: permissions_presents_def permissions_frame_def ph_render_def observe_status_def report_status_if_changed_def
      Let_def observation_devtools_def observation_system_def split: option.splits)

lemma acknowledge_ok: "app_ok style u a \<Longrightarrow> app_ok style u (snd (acknowledge_presentations a))"
  by (simp add: acknowledge_presentations_def Let_def ok_defs split: prod.split)

lemma frame_ok:
  assumes ok: "app_ok style u a"
  shows "app_ok style (spec_apply (AI_Frame i) u) (fst (app_apply (AI_Frame i) (a, logs)))"
proof -
  let ?u = "u\<lparr>us_main_visible := us_main_visible u \<and> \<not> fi_main_close i\<rparr>"
  let ?a1 = "receive_presentation_requests (fi_requests i) a"
  let ?a2 = "?a1\<lparr>ap_hud := snd (hud_render (fi_now i) (fi_geometry i) (fi_native i) (ap_hud ?a1))\<rparr>"
  let ?a3 = "?a2\<lparr>ap_selector := sw_render (fi_geometry i) (fi_native i) (ap_selector ?a2)\<rparr>"
  let ?a4 = "?a3\<lparr>ap_notifications := nx_render (fi_now i) (fi_layout i) (fi_native i) (ap_notifications ?a3)\<rparr>"
  let ?a5 = "?a4\<lparr>ap_main_window := mw_render (fi_main_close i) (fi_main_geometry i) (ap_main_window ?a4)\<rparr>"
  let ?c = "spec_command i u"
  have a5: "app_ok style ?u ?a5"
    using ok by (simp add: ok_defs receive_presentation_requests_def main_presents_def)
  have shown: "mw_visible (ap_main_window ?a4) = us_main_visible u"
    using ok by (simp add: ok_defs main_presents_def receive_presentation_requests_def)
  obtain a6 where a6_eq: "a6 = (case fi_main_command i of
      Some c \<Rightarrow> if mw_visible (ap_main_window ?a4) \<and> \<not> fi_main_close i then handle_main_window_command c ?a5 else ?a5
    | None \<Rightarrow> ?a5)" by simp
  have a6: "app_ok style (spec_button ?c ?u) a6"
    using a5 main_command_ok [OF a5] shown by (auto simp: a6_eq spec_command_def split: option.split)
  obtain w l where w: "lw_render (fi_logs_close i) (fi_logs_clear i) (ap_logs_window a6, logs) = (w, l)"
    by (cases "lw_render (fi_logs_close i) (fi_logs_clear i) (ap_logs_window a6, logs)")
  obtain msgs p where p: "ph_render (fi_system i) (fi_app_active i) (fi_permissions_close i) (ap_permissions a6) = (msgs, p)"
    by (cases "ph_render (fi_system i) (fi_app_active i) (fi_permissions_close i) (ap_permissions a6)")
  let ?a7 = "a6\<lparr>ap_logs_window := w, ap_permissions := p, ap_control := ap_control a6 @ msgs\<rparr>"
  have "lw_visible w = (us_logs_visible (spec_button ?c ?u) \<and> \<not> fi_logs_close i)"
    using a6 lw_render_visible [of "fi_logs_close i" "fi_logs_clear i" "ap_logs_window a6" logs] w by (simp add: ok_defs)
  moreover have "permissions_presents ((us_permissions u)\<lparr>up_visible := up_visible (us_permissions u)
      \<or> ?c = Some (MWC_Primary PA_OpenPermissions)\<rparr>) (ap_permissions a6)"
    using a6 by (simp add: ok_defs spec_button_def)
  from permissions_frame_ok [OF this, of "fi_system i" "fi_app_active i" "fi_permissions_close i"]
  have "permissions_presents (permissions_frame (fi_system i) (fi_app_active i)
      (?c = Some (MWC_Primary PA_OpenPermissions)) (fi_permissions_close i) (us_permissions u)) p"
    unfolding p by simp
  ultimately have "app_ok style (spec_apply (AI_Frame i) u) ?a7"
    using a6 by (simp add: ok_defs spec_button_def)
  then have "app_ok style (spec_apply (AI_Frame i) u) (snd (acknowledge_presentations ?a7))" by (rule acknowledge_ok)
  moreover have "fst (app_apply (AI_Frame i) (a, logs)) = snd (acknowledge_presentations ?a7)"
    using w p by (simp add: app_frame_def Let_def a6_eq split: prod.split)
  ultimately show ?thesis by simp
qed

lemma tray_presents_build: "us_tray u = icon_ok \<Longrightarrow> tray_presents u (build_tray icon_ok (spec_health u))"
  by (cases icon_ok) (simp_all add: tray_presents_def build_tray_def tray_set_runtime_health_def tray_copy_def Let_def split: option.split)

lemma tray_new_presents: "tray_presents (spec_new config_path icon_ok) (ap_tray (app_new config_path style icon_ok))"
proof -
  have "spec_health (spec_new config_path icon_ok) = health_connecting config_path" "us_tray (spec_new config_path icon_ok) = icon_ok"
    by (simp_all add: spec_new_def spec_health_def)
  then show ?thesis
    using tray_presents_build [of "spec_new config_path icon_ok" icon_ok] by (simp add: app_new_def)
qed

lemma hud_new_shows:
  "hud_shows (initial_hud style) (ow_metrics (hud_viewport (hud_new (style_hud style)))) (hud_new (style_hud style))"
  by (simp add: hud_shows_def initial_hud_def hud_new_def)

lemma center_new_shows: "center_shows cfg (nx_metrics (notification_center_new cfg)) (notification_center_new cfg)"
  by (simp add: center_shows_def notification_center_new_def)

lemma surfaces_new_present:
  "hud_presents style (spec_new config_path icon_ok) (ap_hud (app_new config_path style icon_ok))"
  "center_presents style (spec_new config_path icon_ok) (ap_notifications (app_new config_path style icon_ok))"
  "selector_presents style (spec_new config_path icon_ok) (ap_selector (app_new config_path style icon_ok))"
  "main_presents style (spec_new config_path icon_ok) (ap_main_window (app_new config_path style icon_ok))"
  by (simp_all add: presents_defs app_new_def spec_new_def spec_hud_def spec_hud_metrics_def spec_metrics_def spec_style_def spec_health_def
      selector_window_new_def main_window_new_def hud_new_shows center_new_shows)

lemma app_new_ok: "app_ok style (spec_new config_path icon_ok) (app_new config_path style icon_ok)"
  unfolding app_ok_def app_presents_def
  by (intro conjI surfaces_new_present tray_new_presents)
    (simp_all add: app_tracks_def permissions_presents_def app_new_def spec_new_def spec_metrics_def spec_style_def
      logs_window_new_def permissions_help_new_def)

primrec is_shutdown_input :: "app_input \<Rightarrow> bool" where
  "is_shutdown_input (AI_Event now wall about e) = (e = UE_Command UiShutdown)"
| "is_shutdown_input (AI_Frame i) = False"

lemma input_ok:
  assumes "app_ok style u a" "\<not> is_shutdown_input i"
  shows "app_ok style (spec_apply i u) (fst (app_apply i (a, logs)))"
proof (cases i)
  case (AI_Event now wall about e)
  then show ?thesis using assms message_ok command_ok by (cases e) simp_all
next
  case (AI_Frame f)
  then show ?thesis using frame_ok [OF assms(1)] by (simp del: app_apply.simps spec_apply.simps)
qed

lemma run_ok:
  assumes "app_ok style u a" "list_all (\<lambda>i. \<not> is_shutdown_input i) is"
  shows "app_ok style (fold spec_apply is u) (fst (fold app_apply is (a, logs)))"
  using assms
proof (induction "is" arbitrary: u a logs)
  case (Cons i "is")
  obtain a' logs' where step: "app_apply i (a, logs) = (a', logs')" by (cases "app_apply i (a, logs)")
  have "app_ok style (spec_apply i u) a'" using input_ok [OF Cons.prems(1), of i logs] Cons.prems(2) step by simp
  then show ?case using Cons step by simp
qed simp



text \<open>
  Lifting an override before the runtime published a HUD leaves the override's HUD on screen.
\<close>

lemma lifted_override_stays:
  assumes "ap_runtime_hud_state a = None"
  shows "let b = set_hud_presentation_override None (set_hud_presentation_override (Some p) a)
    in hud_visible (ap_hud b) = hud_state_visible (hpr_hud p) \<and> hud_rows (ap_hud b) = hud_state_rows (hpr_hud p)
       \<and> \<not> ap_hud_presentation_overridden b"
  using assms by (simp add: set_hud_presentation_override_def apply_runtime_hud_state_def hud_set_state_def hud_set_style_def
      hud_clear_key_state_def hud_set_display_metrics_def Let_def)

text \<open>Shutting down hides every surface.\<close>

lemma shutdown_hides:
  "let b = handle_command about UiShutdown a
   in \<not> hud_visible (ap_hud b) \<and> sw_state (ap_selector b) = None \<and> nx_items (ap_notifications b) = []
      \<and> \<not> mw_visible (ap_main_window b) \<and> \<not> lw_visible (ap_logs_window b) \<and> \<not> ph_visible (ap_permissions b) \<and> ap_tray b = None"
  by (simp add: hud_hide_def nx_clear_all_def lw_hide_def ph_hide_def Let_def)

text \<open>
  A barrier is acknowledged in the second of two consecutive frames in which its expectation
  holds: a frame acknowledges those that held in the frame before and hold now, and the
  others stay pending, marked when they hold.
\<close>

lemma barrier_loop_two_frames:
  assumes "list_all (\<lambda>b. case pp_matched_frame b of Some m \<Rightarrow> m < frame | None \<Rightarrow> True) bs"
  shows "barrier_loop frame matches bs =
    (map (\<lambda>b. fst (pp_request b)) (filter (\<lambda>b. matches (snd (pp_request b)) \<and> pp_matched_frame b \<noteq> None) bs),
     map (\<lambda>b. b\<lparr>pp_matched_frame := if matches (snd (pp_request b)) then Some frame else None\<rparr>)
       (filter (\<lambda>b. \<not> (matches (snd (pp_request b)) \<and> pp_matched_frame b \<noteq> None)) bs))"
  using assms by (induction bs) (auto simp: Let_def split: option.splits)

end
