(* ===== verification/Diagnostic_Report.thy ===== *)
theory Diagnostic_Report
  imports App_State Hotki_Text
begin

text \<open>
  The privacy-bounded diagnostics that the app offers to automation and for support reports
  (\<open>hotki-app/src/diagnostics.rs\<close>): the snapshot taken from the UI state, its JSON and
  its plain text.
\<close>

subsection \<open>Labels and text\<close>

fun permission_label :: "permission_state \<Rightarrow> string" where
  "permission_label Perm_Granted = ''granted''"
| "permission_label Perm_Denied = ''denied''"
| "permission_label Perm_Unknown = ''unknown''"

fun tap_mode_label :: "health_tap_mode \<Rightarrow> string" where
  "tap_mode_label HTM_Physical = ''physical''"
| "tap_mode_label HTM_InjectionOnly = ''injection_only''"

fun tap_lifecycle_label :: "health_tap_lifecycle \<Rightarrow> string" where
  "tap_lifecycle_label HTL_Starting = ''starting''"
| "tap_lifecycle_label HTL_Running = ''running''"
| "tap_lifecycle_label HTL_Stopped = ''stopped''"

fun secure_input_label :: "health_secure_input \<Rightarrow> string" where
  "secure_input_label HSI_Unknown = ''unknown''"
| "secure_input_label HSI_Inactive = ''inactive''"
| "secure_input_label HSI_Active = ''active''"

definition optional_u64 :: "64 word option \<Rightarrow> string" where
  "optional_u64 v = (case v of Some n \<Rightarrow> string_of_nat (unat n) | None \<Rightarrow> ''unknown'')"

definition optional_u32 :: "32 word \<Rightarrow> string" where
  "optional_u32 v = (if v \<noteq> 0 then string_of_nat (unat v) else ''unknown'')"

text \<open>\<open>str::replace\<close> of one character, and the test for a substring.\<close>

definition replace_char :: "char \<Rightarrow> string \<Rightarrow> string \<Rightarrow> string" where
  "replace_char c r s = concat (map (\<lambda>x. if x = c then r else [x]) s)"

definition str_contains :: "string \<Rightarrow> string \<Rightarrow> bool" where
  "str_contains s sub = list_ex (\<lambda>i. starts_with sub (drop i s)) [0..<Suc (length s)]"

definition single_line :: "string \<Rightarrow> string" where
  "single_line value =
     replace_char (CHR 0x09) [CHR 0x5C, CHR ''t'']
       (replace_char (CHR 0x0D) [CHR 0x5C, CHR ''r'']
         (replace_char (CHR 0x0A) [CHR 0x5C, CHR ''n'']
           (replace_char (CHR 0x5C) [CHR 0x5C, CHR 0x5C] value)))"

subsection \<open>The snapshot\<close>

definition LOG_TAIL_LIMIT :: nat where "LOG_TAIL_LIMIT = 20"

record notification_diagnostic =
  nd_index :: nat
  nd_live_id :: string
  nd_kind :: string

record diagnostic_log =
  dl_side :: string
  dl_level :: string
  dl_event :: string

definition health_targets :: "string list" where
  "health_targets =
     [''mac_hotkey'', ''mac_hotkey::sys'', ''hotki_app::connection_driver'',
      ''hotki_server::ipc::service::events::sources'']"

definition health_events :: "string list" where
  "health_events =
     [''input_health_transition'', ''mac_hotkey_manager_started'', ''creating_event_tap'',
      ''event_tap_started_run_loop'', ''event_tap_exited'', ''tap_disabled_by_os_reenabling'',
      ''server acknowledged shutdown'', ''Server connection lost; reconnecting'',
      ''Config path sent to server engine'']"

definition classify_health_event :: "log_entry \<Rightarrow> string option" where
  "classify_health_event entry =
     (if le_target entry \<notin> set health_targets then None
      else List.find (\<lambda>event. str_contains (le_message entry) event) health_events)"

definition log_from_entry :: "log_entry \<Rightarrow> diagnostic_log option" where
  "log_from_entry entry =
     (case classify_health_event entry of
        None \<Rightarrow> None
      | Some event \<Rightarrow>
          Some \<lparr>dl_side = (case le_side entry of Side_Client \<Rightarrow> ''client'' | Side_Server \<Rightarrow> ''server''),
                dl_level = le_level entry, dl_event = event\<rparr>)"

record diagnostic_snapshot =
  ds_runtime :: runtime_health
  ds_input :: input_health
  ds_binding_count :: nat
  ds_notifications :: "notification_diagnostic list"
  ds_delivery :: ui_stats
  ds_logs :: "diagnostic_log list"

definition snapshot_capture ::
    "runtime_health \<Rightarrow> string list \<Rightarrow> input_health \<Rightarrow> notification_alias list \<Rightarrow> ui_stats \<Rightarrow> log_entry list \<Rightarrow> diagnostic_snapshot" where
  "snapshot_capture runtime bindings input notifications delivery logs =
     \<lparr>ds_runtime = runtime, ds_input = input, ds_binding_count = length bindings,
      ds_notifications = map (\<lambda>a. \<lparr>nd_index = na_index a, nd_live_id = na_live_id a, nd_kind = na_kind a\<rparr>) notifications,
      ds_delivery = delivery,
      ds_logs = rev (take LOG_TAIL_LIMIT (rev (List.map_filter log_from_entry logs)))\<rparr>"

subsection \<open>JSON\<close>

datatype jvalue =
  JNull | JBool bool | JNum nat | JStr string | JArr "jvalue list" | JObj "(string \<times> jvalue) list"

definition jopt :: "('a \<Rightarrow> jvalue) \<Rightarrow> 'a option \<Rightarrow> jvalue" where
  "jopt f v = (case v of Some x \<Rightarrow> f x | None \<Rightarrow> JNull)"

definition notification_json :: "notification_diagnostic \<Rightarrow> jvalue" where
  "notification_json n =
     JObj [(''index'', JNum (nd_index n)), (''live_id'', JStr (nd_live_id n)), (''kind'', JStr (nd_kind n))]"

definition log_json :: "diagnostic_log \<Rightarrow> jvalue" where
  "log_json l = JObj [(''side'', JStr (dl_side l)), (''level'', JStr (dl_level l)), (''event'', JStr (dl_event l))]"

text \<open>\<open>version\<close> and \<open>pid\<close> are those of the running app.\<close>

definition snapshot_to_json :: "string \<Rightarrow> nat \<Rightarrow> diagnostic_snapshot \<Rightarrow> jvalue" where
  "snapshot_to_json version pid s =
     (let r = rh_state (ds_runtime s); p = rh_permissions (ds_runtime s); i = ds_input s;
          owner = jopt (\<lambda>o'. JObj [(''pid'', JNum (unat (ho_pid o'))), (''app_name'', JStr (ho_app_name o')),
                                   (''attribution'', JStr ''best_effort'')]) (ih_secure_input_owner i)
      in JObj
        [(''app'', JObj [(''name'', JStr ''Hotki''), (''version'', JStr version), (''pid'', JNum pid)]),
         (''server'', JObj [(''connected'', JBool (server_connected (ds_runtime s))),
            (''pid'', if ih_server_pid i \<noteq> 0 then JNum (unat (ih_server_pid i)) else JNull)]),
         (''runtime'', JObj
            [(''phase'', JStr (phase_label (rh_phase (ds_runtime s)))),
             (''connection'', JStr (connection_label (state_connection r))),
             (''config'', JObj [(''active'', JBool (state_active_config r \<noteq> None)),
                                (''pending'', JBool (state_pending_config r \<noteq> None))]),
             (''permissions'', JObj [(''accessibility'', JStr (permission_label (cap_accessibility p))),
                                     (''input_monitoring'', JStr (permission_label (cap_input_monitoring p))),
                                     (''screen_recording'', JStr (permission_label (cap_screen_recording p)))]),
             (''retry'', JStr (retry_label (state_retry r)))]),
         (''input'', JObj
            [(''tap_mode'', JStr (tap_mode_label (ih_tap_mode i))),
             (''tap_lifecycle'', JStr (tap_lifecycle_label (ih_tap_lifecycle i))),
             (''secure_input'', JStr (secure_input_label (ih_secure_input i))),
             (''secure_input_owner'', owner),
             (''blocked'', JBool (ih_blocked i)),
             (''registered_hotkeys'', JNum (ih_registered_hotkeys i)),
             (''physical_event_count'', JNum (unat (ih_physical_event_count i))),
             (''physical_event_age_ms'', jopt (\<lambda>n. JNum (unat n)) (ih_physical_event_age_ms i)),
             (''os_disable_count'', JNum (unat (ih_os_disable_count i))),
             (''os_reenable_count'', JNum (unat (ih_os_reenable_count i))),
             (''observed_at_ms'', jopt (\<lambda>n. JNum (unat n)) (ih_observed_at_ms i))]),
         (''bindings'', JObj [(''count'', JNum (ds_binding_count s))]),
         (''delivery'', JObj [(''dropped_logs'', JNum (unat (dropped_logs (ds_delivery s)))),
                              (''coalesced_snapshots'', JNum (unat (coalesced_snapshots (ds_delivery s))))]),
         (''notifications'', JObj [(''live_count'', JNum (length (ds_notifications s))),
                                   (''items'', JArr (map notification_json (ds_notifications s)))]),
         (''logs'', JArr (map log_json (ds_logs s)))])"

subsection \<open>Plain text\<close>

definition bool_text :: "bool \<Rightarrow> string" where
  "bool_text b = (if b then ''true'' else ''false'')"

definition owner_text :: "health_owner option \<Rightarrow> string" where
  "owner_text o' =
     (case o' of
        None \<Rightarrow> ''unknown (best effort)''
      | Some w \<Rightarrow> single_line (ho_app_name w) @ '' (pid '' @ string_of_nat (unat (ho_pid w)) @ '', best effort)'')"

text \<open>The lines that are written, each followed by a line feed.\<close>

definition report_lines :: "string \<Rightarrow> nat \<Rightarrow> diagnostic_snapshot \<Rightarrow> string list" where
  "report_lines version pid s =
     (let h = ds_runtime s; r = rh_state h; p = rh_permissions h; i = ds_input s
      in [''Hotki Diagnostics'',
          ''app: Hotki '' @ version @ '' (pid '' @ string_of_nat pid @ '')'',
          ''server: connected='' @ bool_text (server_connected h) @ '' pid='' @ optional_u32 (ih_server_pid i),
          ''runtime: phase='' @ phase_label (rh_phase h) @ '' connection='' @ connection_label (state_connection r)
            @ '' active_config='' @ bool_text (state_active_config r \<noteq> None)
            @ '' pending_config='' @ bool_text (state_pending_config r \<noteq> None) @ '' retry='' @ retry_label (state_retry r),
          ''permissions: accessibility='' @ permission_label (cap_accessibility p)
            @ '' input_monitoring='' @ permission_label (cap_input_monitoring p)
            @ '' screen_recording='' @ permission_label (cap_screen_recording p),
          ''input: mode='' @ tap_mode_label (ih_tap_mode i) @ '' lifecycle='' @ tap_lifecycle_label (ih_tap_lifecycle i)
            @ '' secure_input='' @ secure_input_label (ih_secure_input i) @ '' blocked='' @ bool_text (ih_blocked i)
            @ '' owner='' @ owner_text (ih_secure_input_owner i),
          ''input_counts: registered='' @ string_of_nat (ih_registered_hotkeys i)
            @ '' physical='' @ string_of_nat (unat (ih_physical_event_count i))
            @ '' physical_age_ms='' @ optional_u64 (ih_physical_event_age_ms i)
            @ '' disabled='' @ string_of_nat (unat (ih_os_disable_count i))
            @ '' reenabled='' @ string_of_nat (unat (ih_os_reenable_count i))
            @ '' observed_at_ms='' @ optional_u64 (ih_observed_at_ms i),
          ''bindings: count='' @ string_of_nat (ds_binding_count s) @ '' (identifiers omitted)'',
          ''delivery: dropped_logs='' @ string_of_nat (unat (dropped_logs (ds_delivery s)))
            @ '' coalesced_snapshots='' @ string_of_nat (unat (coalesced_snapshots (ds_delivery s))),
          ''notifications: live_count='' @ string_of_nat (length (ds_notifications s)) @ '' (text omitted)'',
          ''health_logs: '' @ string_of_nat (length (ds_logs s))]
         @ map (\<lambda>l. ''- '' @ dl_side l @ '' '' @ dl_level l @ '' '' @ dl_event l) (ds_logs s))"

definition snapshot_to_plain_text :: "string \<Rightarrow> nat \<Rightarrow> diagnostic_snapshot \<Rightarrow> string" where
  "snapshot_to_plain_text version pid s = concat (map (\<lambda>l. l @ [newline]) (report_lines version pid s))"

text \<open>The store: the latest snapshot behind its lock; \<open>entries\<close> is the content of the log buffer.\<close>

definition store_update ::
    "runtime_health \<Rightarrow> string list \<Rightarrow> input_health \<Rightarrow> notification_alias list \<Rightarrow> ui_stats \<Rightarrow> log_entry list
      \<Rightarrow> diagnostic_snapshot \<Rightarrow> diagnostic_snapshot" where
  "store_update runtime bindings input notifications delivery entries _ =
     snapshot_capture runtime bindings input notifications delivery entries"

definition store_json :: "string \<Rightarrow> nat \<Rightarrow> diagnostic_snapshot \<Rightarrow> jvalue" where
  "store_json version pid store = snapshot_to_json version pid store"

definition store_plain_text :: "string \<Rightarrow> nat \<Rightarrow> diagnostic_snapshot \<Rightarrow> string" where
  "store_plain_text version pid store = snapshot_to_plain_text version pid store"

subsection \<open>No line can be forged\<close>

fun escape_char :: "char \<Rightarrow> string" where
  "escape_char x =
     (if x = CHR 0x5C then [CHR 0x5C, CHR 0x5C] else if x = CHR 0x0A then [CHR 0x5C, CHR ''n'']
      else if x = CHR 0x0D then [CHR 0x5C, CHR ''r''] else if x = CHR 0x09 then [CHR 0x5C, CHR ''t''] else [x])"

lemma replace_char_append [simp]: "replace_char c r (a @ b) = replace_char c r a @ replace_char c r b"
  by (simp add: replace_char_def)

lemma single_line_escapes: "single_line s = concat (map escape_char s)"
proof (induction s)
  case (Cons x s)
  have "single_line (x # s) = escape_char x @ single_line s"
    by (simp add: single_line_def replace_char_def)
  then show ?case using Cons by simp
qed (simp add: single_line_def replace_char_def)

text \<open>The escaped text can be read back, so it loses nothing.\<close>

fun unescape :: "string \<Rightarrow> string" where
  "unescape [] = []"
| "unescape [x] = [x]"
| "unescape (x # y # s) =
     (if x \<noteq> CHR 0x5C then x # unescape (y # s)
      else (if y = CHR ''n'' then CHR 0x0A else if y = CHR ''r'' then CHR 0x0D else if y = CHR ''t'' then CHR 0x09 else y)
             # unescape s)"

lemma unescape_plain: "x \<noteq> CHR 0x5C \<Longrightarrow> unescape (x # s) = x # unescape s"
  by (cases s) simp_all

lemma unescape_single_line: "unescape (single_line s) = s"
  unfolding single_line_escapes by (induction s) (auto simp: unescape_plain)

lemma single_line_no_newline: "newline \<notin> set (single_line s)"
  by (auto simp: single_line_escapes newline_def split: if_splits)

lemma string_of_nat_no_newline [simp]: "newline \<notin> set (string_of_nat n)"
proof (induction n rule: string_of_nat.induct)
  case (1 n)
  have "newline \<noteq> char_of (48 + k)" if "k < 10" for k :: nat
  proof
    assume "newline = char_of (48 + k)"
    then have "of_char newline = (of_char (char_of (48 + k) :: char) :: nat)" by simp
    then show False using that by (simp add: newline_def)
  qed
  then show ?case using 1 by (subst string_of_nat.simps) auto
qed

lemma enum_labels_no_newline [simp]:
  "newline \<notin> set (permission_label p)" "newline \<notin> set (tap_mode_label m)" "newline \<notin> set (tap_lifecycle_label l)"
  "newline \<notin> set (secure_input_label x)" "newline \<notin> set (phase_label ph)" "newline \<notin> set (connection_label c)"
  "newline \<notin> set (retry_label r)" "newline \<notin> set (bool_text b)"
  unfolding newline_def bool_text_def
  by ((cases p, simp_all)[1], (cases m, simp_all)[1], (cases l, simp_all)[1], (cases x, simp_all)[1],
      (cases ph, simp_all)[1], (cases c, simp_all)[1], (cases r, simp_all)[1], simp)

lemma number_texts_no_newline [simp]:
  "newline \<notin> set (optional_u64 v)" "newline \<notin> set (optional_u32 w)"
  by (cases v) (simp_all add: optional_u64_def optional_u32_def, simp_all add: newline_def)

lemma owner_text_no_newline [simp]: "newline \<notin> set (owner_text w)"
  by (cases w) (simp_all add: owner_text_def single_line_no_newline, simp_all add: newline_def)

text \<open>What a report may depend on.\<close>

definition health_facts :: "runtime_health \<Rightarrow> runtime_phase \<times> connection_status \<times> bool \<times> bool \<times> retry_state \<times> capabilities" where
  "health_facts h =
     (rh_phase h, state_connection (rh_state h), state_active_config (rh_state h) \<noteq> None,
      state_pending_config (rh_state h) \<noteq> None, state_retry (rh_state h), rh_permissions h)"

definition alias_facts :: "notification_alias \<Rightarrow> nat \<times> string \<times> string" where
  "alias_facts a = (na_index a, na_live_id a, na_kind a)"

lemma capture_same:
  assumes "length bs = length bs'" "map alias_facts ns = map alias_facts ns'"
    and "List.map_filter log_from_entry logs = List.map_filter log_from_entry logs'"
  shows "(snapshot_capture h bs i ns d logs)\<lparr>ds_runtime := h'\<rparr> = snapshot_capture h' bs' i ns' d logs'"
proof -
  let ?g = "\<lambda>a. \<lparr>nd_index = na_index a, nd_live_id = na_live_id a, nd_kind = na_kind a\<rparr>"
  have "length ns = length ns'" using assms(2) by (metis length_map)
  then have "map ?g ns = map ?g ns'" using assms(2)
    by (induction ns ns' rule: list_induct2) (simp_all add: alias_facts_def)
  then show ?thesis using assms(1,3) by (simp add: snapshot_capture_def)
qed

lemma report_depends_on_health_facts:
  assumes "health_facts (ds_runtime s) = health_facts h'"
  shows "snapshot_to_json v pid (s\<lparr>ds_runtime := h'\<rparr>) = snapshot_to_json v pid s"
    and "report_lines v pid (s\<lparr>ds_runtime := h'\<rparr>) = report_lines v pid s"
  using assms by (simp_all add: snapshot_to_json_def report_lines_def health_facts_def server_connected_def Let_def)

lemma classified_events: "log_from_entry e = Some l \<Longrightarrow> dl_event l \<in> set health_events \<and> dl_level l = le_level e \<and> newline \<notin> set (dl_side l)"
  by (auto simp: log_from_entry_def classify_health_event_def newline_def find_Some_iff split: option.splits if_splits log_side.splits)

lemma health_events_no_newline: "ev \<in> set health_events \<Longrightarrow> newline \<notin> set ev"
  by (auto simp: health_events_def newline_def)

lemma count_lines:
  "list_all (\<lambda>l. newline \<notin> set l) ls \<Longrightarrow> length (filter (\<lambda>c. c = newline) (concat (map (\<lambda>l. l @ [newline]) ls))) = length ls"
proof (induction ls)
  case (Cons l ls)
  have "filter (\<lambda>c. c = newline) l = []" using Cons.prems by (auto simp: filter_empty_conv)
  then show ?case using Cons by simp
qed simp

lemma report_lines_no_newline:
  assumes "newline \<notin> set v" "list_all (\<lambda>l. newline \<notin> set (dl_side l) \<and> newline \<notin> set (dl_level l) \<and> newline \<notin> set (dl_event l)) (ds_logs s)"
  shows "list_all (\<lambda>l. newline \<notin> set l) (report_lines v pid s)"
proof -
  have lit: "newline \<noteq> CHR ''-''" "newline \<noteq> CHR '' ''" by (simp_all add: newline_def)
  then have "list_all (\<lambda>l. newline \<notin> set l) (map (\<lambda>l. ''- '' @ dl_side l @ '' '' @ dl_level l @ '' '' @ dl_event l) (ds_logs s))"
    using assms(2) by (simp add: list_all_iff)
  moreover have "\<And>c. c \<in> set ''Hotki Dagnostcsp:verud=)(mxwbjyf,'' \<Longrightarrow> newline \<noteq> c" by (auto simp: newline_def)
  ultimately show ?thesis using assms(1) unfolding report_lines_def Let_def
    by (simp add: list_all_iff) (simp add: newline_def)
qed

definition capture_logs :: "log_entry list \<Rightarrow> diagnostic_log list" where
  "capture_logs logs = rev (take LOG_TAIL_LIMIT (rev (List.map_filter log_from_entry logs)))"

lemma captured_logs:
  assumes "l \<in> set (capture_logs logs)"
  shows "\<exists>e \<in> set logs. log_from_entry e = Some l"
proof -
  have "l \<in> set (List.map_filter log_from_entry logs)"
    using assms by (auto simp: capture_logs_def dest: in_set_takeD)
  then show ?thesis by (auto simp: map_filter_def)
qed

lemma capture_log_field [simp]: "ds_logs (snapshot_capture h bs i ns d logs) = capture_logs logs"
  by (simp add: snapshot_capture_def capture_logs_def)

lemma capture_runtime_field [simp]: "ds_runtime (snapshot_capture h bs i ns d logs) = h"
  by (simp add: snapshot_capture_def)

lemma capture_logs_bounded: "length (capture_logs logs) \<le> LOG_TAIL_LIMIT"
  by (simp add: capture_logs_def)

lemma captured_report_lines:
  assumes "newline \<notin> set v" "list_all (\<lambda>e. newline \<notin> set (le_level e)) logs"
  shows "list_all (\<lambda>l. newline \<notin> set l) (report_lines v pid (snapshot_capture h bs i ns d logs))"
proof (rule report_lines_no_newline[OF assms(1)])
  have "newline \<notin> set (dl_side l) \<and> newline \<notin> set (dl_level l) \<and> newline \<notin> set (dl_event l)"
    if l: "l \<in> set (capture_logs logs)" for l
  proof -
    obtain e where e: "e \<in> set logs" "log_from_entry e = Some l" using captured_logs[OF l] by blast
    then show ?thesis using classified_events[OF e(2)] health_events_no_newline assms(2) by (simp add: list_all_iff)
  qed
  then show "list_all (\<lambda>l. newline \<notin> set (dl_side l) \<and> newline \<notin> set (dl_level l) \<and> newline \<notin> set (dl_event l))
      (ds_logs (snapshot_capture h bs i ns d logs))" by (simp add: list_all_iff)
qed

lemma report_line_count: "length (report_lines v pid s) = 11 + length (ds_logs s)"
  by (simp add: report_lines_def Let_def)

text \<open>C37: What a support report and the automation JSON can reveal. Two captures whose runtime
  states agree on phase, connection, permissions, retry and on the presence (not the content) of
  an active and a pending configuration, that hold equally many bindings, whose notifications agree
  on index, identifier and kind, and whose logs classify to the same events, give the same JSON and
  the same text: no binding identifier, configuration path, notification text or log message can
  reach either. Moreover the text cannot be forged into more lines: whatever the application name
  of the Secure Input owner holds, it has exactly eleven lines and one for each of the at most
  twenty captured events, whose names are from the fixed list.\<close>

theorem report_private:
  assumes "health_facts h = health_facts h'" "length bs = length bs'"
    and "map alias_facts ns = map alias_facts ns'"
    and "List.map_filter log_from_entry logs = List.map_filter log_from_entry logs'"
    and "newline \<notin> set v" "list_all (\<lambda>e. newline \<notin> set (le_level e)) logs"
  shows "snapshot_to_json v pid (snapshot_capture h bs i ns d logs) = snapshot_to_json v pid (snapshot_capture h' bs' i ns' d logs')
    \<and> snapshot_to_plain_text v pid (snapshot_capture h bs i ns d logs)
        = snapshot_to_plain_text v pid (snapshot_capture h' bs' i ns' d logs')
    \<and> length (filter (\<lambda>c. c = newline) (snapshot_to_plain_text v pid (snapshot_capture h bs i ns d logs)))
        = 11 + length (capture_logs logs)
    \<and> length (capture_logs logs) \<le> 20
    \<and> list_all (\<lambda>l. dl_event l \<in> set health_events) (capture_logs logs)"
proof (intro conjI)
  let ?s = "snapshot_capture h bs i ns d logs"
  have same: "?s\<lparr>ds_runtime := h'\<rparr> = snapshot_capture h' bs' i ns' d logs'" by (rule capture_same[OF assms(2-4)])
  have facts: "health_facts (ds_runtime ?s) = health_facts h'" using assms(1) by simp
  note dep = report_depends_on_health_facts[OF facts, unfolded same]
  show "snapshot_to_json v pid ?s = snapshot_to_json v pid (snapshot_capture h' bs' i ns' d logs')" by (rule dep(1)[symmetric])
  show "snapshot_to_plain_text v pid ?s = snapshot_to_plain_text v pid (snapshot_capture h' bs' i ns' d logs')"
    by (simp only: snapshot_to_plain_text_def dep(2))
  show "length (filter (\<lambda>c. c = newline) (snapshot_to_plain_text v pid ?s)) = 11 + length (capture_logs logs)"
    unfolding snapshot_to_plain_text_def
    by (simp only: count_lines[OF captured_report_lines[OF assms(5,6)]] report_line_count capture_log_field)
  show "length (capture_logs logs) \<le> 20" using capture_logs_bounded[of logs] by (simp add: LOG_TAIL_LIMIT_def)
  show "list_all (\<lambda>l. dl_event l \<in> set health_events) (capture_logs logs)"
    using captured_logs classified_events by (fastforce simp: list_all_iff)
qed

text \<open>Two sessions that differ in the configuration path, the binding, the notification title and
  the log text, with a hostile owner name.\<close>

definition sample_health :: "string \<Rightarrow> runtime_health" where
  "sample_health path = runtime_health_default\<lparr>rh_state := RS_InitialConnection path\<rparr>"

definition sample_alias :: "string \<Rightarrow> notification_alias" where
  "sample_alias title = \<lparr>na_index = 0, na_live_id = ''n1'', na_kind = ''info'', na_title = title\<rparr>"

definition sample_entry :: "string \<Rightarrow> log_entry" where
  "sample_entry extra =
     \<lparr>le_side = Side_Server, le_level = ''INFO'', le_target = ''mac_hotkey::sys'', le_message = ''event_tap_exited'' @ extra\<rparr>"

definition hostile_health :: input_health where
  "hostile_health = input_health_default\<lparr>ih_secure_input_owner := Some \<lparr>ho_pid = 7, ho_app_name = ''a'' @ newline # ''forged''\<rparr>\<rparr>"

definition quiet_stats :: ui_stats where
  "quiet_stats = \<lparr>dropped_logs = 0, coalesced_snapshots = 0\<rparr>"

definition sample_log :: diagnostic_log where
  "sample_log = \<lparr>dl_side = ''server'', dl_level = ''INFO'', dl_event = ''event_tap_exited''\<rparr>"

lemma sample_classified:
  "log_from_entry (sample_entry '' secret'') = Some sample_log" "log_from_entry (sample_entry ''!'') = Some sample_log"
  by code_simp+

lemma sample_facts: "health_facts (sample_health ''/a'') = health_facts (sample_health ''/b'')"
  by code_simp

lemma report_private_witness:
  "snapshot_to_plain_text ''1.0'' 9 (snapshot_capture (sample_health ''/a'') [''ctrl+s''] hostile_health [sample_alias ''x''] quiet_stats [sample_entry '' secret''])
     = snapshot_to_plain_text ''1.0'' 9 (snapshot_capture (sample_health ''/b'') [''cmd+k''] hostile_health [sample_alias ''y''] quiet_stats [sample_entry ''!''])"
proof (rule conjunct1[OF conjunct2[OF report_private[OF sample_facts]]])
  show "List.map_filter log_from_entry [sample_entry '' secret''] = List.map_filter log_from_entry [sample_entry ''!'']"
    by (simp add: sample_classified)
qed (simp_all add: sample_alias_def alias_facts_def sample_entry_def newline_def)

end
