(* ===== verification/Config_Diagnostics.thy ===== *)
theory Config_Diagnostics
  imports Config_Types
begin

text \<open>
  Located configuration errors (\<open>config/src/script/diagnostics.rs\<close>, the script errors of
  \<open>config/src/style.rs\<close> and the graph errors of \<open>config/src/script/loader.rs\<close>) and the
  check of a style file (\<open>config/src/check.rs\<close>).  The type checker, the compiler and the
  script engine are parameters; their diagnostics are records of what the code reads.
  Locations of the checker and the compiler count lines and columns from 0.
\<close>

subsection \<open>Errors of the script engine\<close>

text \<open>A location is \<open>None\<close> when it is missing.\<close>

type_synonym diagnostic_location = "(nat \<times> nat) option"

record type_diagnostic =
  td_error :: bool
  td_location :: diagnostic_location
  td_category :: string
  td_context :: "string option"
  td_message :: string
  td_display_name :: string

record compile_error =
  ce_location :: diagnostic_location
  ce_message :: string

text \<open>The failures of the retained runtime with their texts, which are not looked into.\<close>

datatype lifecycle_error =
    LE_Runtime string | LE_Exec string | LE_StaleHandle string | LE_Load string
  | LE_PreparedLoad string | LE_BindEnvironment string

text \<open>
  A script failure: a configuration error it carries, the value raised (its text, or else its
  type name) and the traceback.
\<close>

record script_error =
  se_payload :: "config_error option"
  se_value :: "string + string"
  se_traceback :: "string option"

type_synonym source_map = "string \<Rightarrow> string option"

definition config_validation :: "string option \<Rightarrow> string \<Rightarrow> config_error" where
  "config_validation path message = Cfg_Validation path None None message None"

definition compile_location :: "compile_error \<Rightarrow> (nat \<times> nat) option" where
  "compile_location err =
     (case ce_location err of None \<Rightarrow> None | Some (line, column) \<Rightarrow> Some (line + 1, column + 1))"

definition config_compile_error :: "string \<Rightarrow> compile_error \<Rightarrow> string option \<Rightarrow> config_error" where
  "config_compile_error source err path =
     (case compile_location err of
        None \<Rightarrow> config_validation path (ce_message err)
      | Some (line, col) \<Rightarrow> Cfg_Parse path line col (ce_message err) (excerpt_at source line col))"

definition config_runtime_error :: "string option \<Rightarrow> string \<Rightarrow> config_error" where
  "config_runtime_error path message = config_validation path message"

fun config_retained_error :: "string option \<Rightarrow> lifecycle_error \<Rightarrow> config_error" where
  "config_retained_error path (LE_Runtime message) = config_runtime_error path message"
| "config_retained_error path (LE_Exec text) = config_validation path text"
| "config_retained_error path (LE_StaleHandle text) = config_validation path text"
| "config_retained_error path (LE_Load text) = config_validation path text"
| "config_retained_error path (LE_PreparedLoad text) = config_validation path text"
| "config_retained_error path (LE_BindEnvironment text) = config_validation path text"

subsection \<open>Traceback locations\<close>

definition is_ascii_digit :: "char \<Rightarrow> bool" where
  "is_ascii_digit c \<longleftrightarrow> 48 \<le> (of_char c :: nat) \<and> (of_char c :: nat) \<le> 57"

text \<open>\<open>str::parse::<usize>\<close> of a text of digits: an overflow is an error.\<close>

definition digits_value :: "string \<Rightarrow> nat" where
  "digits_value ds = foldl (\<lambda>n d. 10 * n + (of_char d - 48)) 0 ds"

definition parse_usize :: "string \<Rightarrow> nat option" where
  "parse_usize ds = (if digits_value ds < 2 ^ 64 then Some (digits_value ds) else None)"

text \<open>\<open>seen\<close> is the text before the position of the loop.\<close>

fun scan_location :: "string \<Rightarrow> string \<Rightarrow> (string \<times> nat) option" where
  "scan_location seen [] = None"
| "scan_location seen (ch # rest) =
     (if ch \<noteq> CHR '':'' then scan_location (seen @ [ch]) rest
      else (let digits = takeWhile is_ascii_digit rest in
            if digits = [] then scan_location (seen @ [ch]) rest
            else (case parse_usize digits of None \<Rightarrow> None | Some line_no \<Rightarrow> Some (seen, line_no))))"

definition parse_location_prefix :: "string \<Rightarrow> (string \<times> nat) option" where
  "parse_location_prefix line = scan_location [] line"

fun find_map :: "('a \<Rightarrow> 'b option) \<Rightarrow> 'a list \<Rightarrow> 'b option" where
  "find_map f [] = None"
| "find_map f (x # xs) = (case f x of Some y \<Rightarrow> Some y | None \<Rightarrow> find_map f xs)"

definition first_traceback_location :: "string option \<Rightarrow> (string \<times> nat) option" where
  "first_traceback_location traceback =
     (case traceback of
        None \<Rightarrow> None
      | Some t \<Rightarrow> find_map (\<lambda>line. parse_location_prefix (trim line)) (str_lines t))"

definition normalize_chunk_path :: "string \<Rightarrow> string option \<Rightarrow> string option" where
  "normalize_chunk_path path default_path =
     (if path = ''<memory>'' then None
      else if starts_with ''[string '' path then default_path else Some path)"

definition config_source_excerpt ::
    "string option \<Rightarrow> source_map \<Rightarrow> string option \<Rightarrow> nat \<Rightarrow> nat \<Rightarrow> string option" where
  "config_source_excerpt memory_source sources path line col =
     (case path of
        Some p \<Rightarrow> map_option (\<lambda>source. excerpt_at source line col) (sources p)
      | None \<Rightarrow>
          (case map_option (\<lambda>source. excerpt_at source line col) memory_source of
             Some ex \<Rightarrow> Some ex
           | None \<Rightarrow> map_option (\<lambda>source. excerpt_at source line col) (sources ''<memory>'')))"

definition script_error_message :: "script_error \<Rightarrow> string \<Rightarrow> string" where
  "script_error_message err noun =
     (case se_value err of Inr text \<Rightarrow> text | Inl type_name \<Rightarrow> noun @ '' raised a '' @ type_name @ '' value'')"

definition config_script_error :: "string option \<Rightarrow> source_map \<Rightarrow> script_error \<Rightarrow> config_error" where
  "config_script_error default_path sources err =
     (case se_payload err of
        Some error \<Rightarrow> error
      | None \<Rightarrow>
          (let (path, line, col) =
                 (case first_traceback_location (se_traceback err) of
                    Some (path, line) \<Rightarrow> (normalize_chunk_path path default_path, Some line, Some 1)
                  | None \<Rightarrow> (default_path, None, None))
           in Cfg_Validation path line col (script_error_message err ''script'')
                (Option.bind line (\<lambda>line. config_source_excerpt None sources path line (case col of Some c \<Rightarrow> c | None \<Rightarrow> 1)))))"

subsection \<open>Type errors\<close>

definition source_position :: "diagnostic_location \<Rightarrow> nat \<Rightarrow> (nat \<times> nat) option" where
  "source_position location line_offset =
     (case location of
        None \<Rightarrow> None
      | Some (begin_line, begin_column) \<Rightarrow>
          (let line = begin_line + 1
           in if line_offset < line then Some (line - line_offset, begin_column + 1) else None))"

definition render_type_diagnostics :: "string \<Rightarrow> type_diagnostic list \<Rightarrow> nat \<Rightarrow> string" where
  "render_type_diagnostics path diagnostics line_offset =
     join_with ''; '' (map (\<lambda>d.
        (case source_position (td_location d) line_offset of
           None \<Rightarrow> path @ '':?:?''
         | Some (line, col) \<Rightarrow> path @ '':'' @ string_of_nat line @ '':'' @ string_of_nat col)
        @ '' '' @ td_category d @ '': ''
        @ (case td_context d of Some c \<Rightarrow> c | None \<Rightarrow> ''type checker diagnostic'')) diagnostics)"

definition config_type_error :: "string \<Rightarrow> string \<Rightarrow> type_diagnostic list \<Rightarrow> nat \<Rightarrow> config_error" where
  "config_type_error path source diagnostics line_offset =
     (let (line, col, excerpt) =
            (case diagnostics of
               [] \<Rightarrow> (None, None, None)
             | d # _ \<Rightarrow>
                 (case source_position (td_location d) line_offset of
                    None \<Rightarrow> (None, None, None)
                  | Some (line, col) \<Rightarrow> (Some line, Some col, Some (excerpt_at source line col))))
      in Cfg_Validation (Some path) line col (render_type_diagnostics path diagnostics line_offset) excerpt)"

text \<open>
  The errors of a module graph: the first diagnostic is the error and every other one a line
  of its message.  \<open>text\<close> is the preparation error without diagnostics.
\<close>

definition additional_line :: "type_diagnostic \<Rightarrow> string" where
  "additional_line d =
     (case td_location d of
        None \<Rightarrow> [newline] @ td_display_name d @ '': '' @ td_message d
      | Some (line, col) \<Rightarrow>
          [newline] @ td_display_name d @ '':'' @ string_of_nat line @ '':'' @ string_of_nat col
          @ '': '' @ td_message d)"

definition graph_prepare_error ::
    "string \<Rightarrow> source_map \<Rightarrow> string \<Rightarrow> type_diagnostic list option \<Rightarrow> config_error" where
  "graph_prepare_error path sources text diagnostics =
     (case diagnostics of
        None \<Rightarrow> config_validation (Some path) text
      | Some [] \<Rightarrow> config_validation (Some path) text
      | Some (view # views) \<Rightarrow>
          (let display_path = td_display_name view;
               diagnostic_path =
                 (if path_is_absolute display_path then display_path
                  else path_join (case path_parent path of Some p \<Rightarrow> p | None \<Rightarrow> []) display_path);
               excerpt =
                 (case td_location view of
                    None \<Rightarrow> None
                  | Some (line, col) \<Rightarrow> map_option (\<lambda>source. excerpt_at source line col) (sources diagnostic_path))
           in Cfg_Validation (Some diagnostic_path) (map_option fst (td_location view)) (map_option snd (td_location view))
                (td_message view @ concat (map additional_line views)) excerpt))"

subsection \<open>Errors of a style script\<close>

definition style_line_location :: "string \<Rightarrow> string \<Rightarrow> (nat \<times> nat) option" where
  "style_line_location expected line0 =
     (let line = trim line0; found = takeWhile (\<lambda>c. c \<noteq> CHR '':'') line in
      if CHR '':'' \<notin> set line then None
      else if found \<noteq> expected then None
      else (let digits = takeWhile is_ascii_digit (drop (length found + 1) line) in
            if digits = [] then None
            else (case parse_usize digits of None \<Rightarrow> None | Some line_no \<Rightarrow> Some (line_no, 1))))"

definition style_traceback_location :: "string option \<Rightarrow> string \<Rightarrow> (nat \<times> nat) option" where
  "style_traceback_location traceback path =
     (case traceback of None \<Rightarrow> None | Some t \<Rightarrow> find_map (style_line_location path) (str_lines t))"

definition style_script_error :: "string \<Rightarrow> string \<Rightarrow> script_error \<Rightarrow> config_error" where
  "style_script_error source path err =
     (let message = (case se_value err of
                       Inr text \<Rightarrow> text
                     | Inl type_name \<Rightarrow> ''style script raised a '' @ type_name @ '' value'')
      in case style_traceback_location (se_traceback err) path of
           Some (line, col) \<Rightarrow> Cfg_Validation (Some path) (Some line) (Some col) message (Some (excerpt_at source line col))
         | None \<Rightarrow> Cfg_Validation (Some path) None None message None)"

subsection \<open>The check of a style file\<close>

definition style_analysis_source :: "string \<Rightarrow> string" where
  "style_analysis_source source =
     ''local _style = ((function()'' @ [newline] @ source @ [newline] @ ''end)() :: Style)'' @ [newline]"

text \<open>
  What the script engine provides: the checker surface, or the text of its error, and its
  checker and compiler on a module text.
\<close>

record checker_ops =
  ck_build :: "string option"
  ck_check :: "string \<Rightarrow> string \<Rightarrow> type_diagnostic list"
  ck_compile :: "string \<Rightarrow> string \<Rightarrow> compile_error option"

definition checker_surface :: "checker_ops \<Rightarrow> config_error + unit" where
  "checker_surface ck =
     (case ck_build ck of Some text \<Rightarrow> Err (Cfg_Validation None None None text None) | None \<Rightarrow> Ok ())"

text \<open>\<open>api\<close> is the declaration text of the surface.\<close>

definition checked_source :: "string \<Rightarrow> string \<Rightarrow> string" where
  "checked_source api source = trim_end api @ [newline] @ source"

definition check_module_with_surface ::
    "checker_ops \<Rightarrow> string \<Rightarrow> string \<Rightarrow> string \<Rightarrow> config_error + unit" where
  "check_module_with_surface ck path source api =
     (case checker_surface ck of
        Inl e \<Rightarrow> Err e
      | Inr _ \<Rightarrow>
          (let line_offset = length (str_lines (trim_end api));
               errors = filter td_error (ck_check ck path (checked_source api source))
           in if errors \<noteq> [] then Err (config_type_error path source errors line_offset)
              else (case ck_compile ck path source of
                      None \<Rightarrow> Ok ()
                    | Some err \<Rightarrow> Err (config_compile_error source err (Some path)))))"

definition analyze_style_file :: "checker_ops \<Rightarrow> string \<Rightarrow> string \<Rightarrow> string \<Rightarrow> config_error + unit" where
  "analyze_style_file ck api path source = check_module_with_surface ck path (style_analysis_source source) api"

text \<open>\<open>eval\<close> is \<open>eval_style_source\<close>, without the style it returns.\<close>

definition check_luau_style_source ::
    "checker_ops \<Rightarrow> string \<Rightarrow> (string \<Rightarrow> string \<Rightarrow> config_error + unit) \<Rightarrow> string \<Rightarrow> string \<Rightarrow> config_error + unit" where
  "check_luau_style_source ck api eval path source =
     (case analyze_style_file ck api path source of
        Inl e \<Rightarrow> Err e
      | Inr _ \<Rightarrow> (case eval source path of Inl e \<Rightarrow> Err e | Inr _ \<Rightarrow> Ok ()))"

datatype file_read = File_NotFound | File_Error string | File_Source string

definition check_luau_style_file ::
    "checker_ops \<Rightarrow> string \<Rightarrow> (string \<Rightarrow> string \<Rightarrow> config_error + unit) \<Rightarrow> (string \<Rightarrow> file_read) \<Rightarrow> string
      \<Rightarrow> config_error + bool" where
  "check_luau_style_file ck api eval read path =
     (case read path of
        File_NotFound \<Rightarrow> Ok False
      | File_Error message \<Rightarrow> Err (Cfg_Read (Some path) message)
      | File_Source source \<Rightarrow>
          (case check_luau_style_source ck api eval path source of Inl e \<Rightarrow> Err e | Inr _ \<Rightarrow> Ok True))"

subsection \<open>Lines of a joined text\<close>

lemma split_on_append: "split_on sep (a @ sep # b) = split_on sep a @ split_on sep b"
  by (induction a) (auto split: list.split)

lemma split_on_last: "a \<noteq> [] \<Longrightarrow> last a \<noteq> sep \<Longrightarrow> last (split_on sep a) \<noteq> []"
proof (induction a)
  case (Cons x a)
  show ?case
  proof (cases a)
    case Nil
    then show ?thesis using Cons.prems by simp
  next
    case (Cons y b)
    then have ih: "last (split_on sep a) \<noteq> []" using Cons.IH Cons.prems by simp
    obtain p ps where "split_on sep a = p # ps" by (metis list.exhaust split_on_not_Nil)
    then show ?thesis using ih by auto
  qed
qed simp

lemma str_lines_append: "str_lines (a @ newline # b) = map strip_cr (split_on newline a) @ str_lines b"
  by (simp add: str_lines_def Let_def split_on_append butlast_append)

lemma str_lines_open:
  "str_lines (a @ [newline]) = map strip_cr (split_on newline a)"
  using str_lines_append[of a "[]"] by (simp add: str_lines_def)

lemma trim_end_last: "trim_end a \<noteq> [] \<Longrightarrow> last (trim_end a) \<noteq> newline"
proof -
  assume "trim_end a \<noteq> []"
  then have "dropWhile is_whitespace (rev a) \<noteq> []" by (simp add: trim_end_def)
  then have "\<not> is_whitespace (hd (dropWhile is_whitespace (rev a)))" by (rule hd_dropWhile)
  then have "\<not> is_whitespace (last (trim_end a))" by (simp add: trim_end_def last_rev)
  then show ?thesis by (auto simp: is_whitespace_def newline_def)
qed

lemma prelude_line_count:
  assumes "trim_end api \<noteq> []"
  shows "length (str_lines (trim_end api)) = length (split_on newline (trim_end api))"
  using split_on_last[OF assms trim_end_last[OF assms]] by (simp add: str_lines_def Let_def)

lemma checked_source_line:
  assumes "trim_end api \<noteq> []"
  shows "str_lines (checked_source api source) ! (length (str_lines (trim_end api)) + k) = str_lines source ! k"
  using prelude_line_count[OF assms] by (simp add: checked_source_def str_lines_append nth_append)

subsection \<open>Traceback locations can be read back\<close>

lemma digit_char: "k < 10 \<Longrightarrow> (of_char (char_of (48 + k :: nat) :: char) :: nat) = 48 + k"
  by simp

lemma digits_value_append: "digits_value (a @ [d]) = 10 * digits_value a + (of_char d - 48)"
  by (simp add: digits_value_def)

lemma digits_value_string_of_nat [simp]: "digits_value (string_of_nat n) = n"
proof (induction n rule: string_of_nat.induct)
  case (1 n)
  show ?case
  proof (cases "n < 10")
    case True
    then show ?thesis by (subst string_of_nat.simps) (simp add: digits_value_def)
  next
    case False
    have "(of_char (char_of (48 + n mod 10) :: char) :: nat) = 48 + n mod 10" by (rule digit_char) simp
    then have "digits_value (string_of_nat n) = 10 * (n div 10) + n mod 10"
      using False 1 by (subst string_of_nat.simps) (simp add: digits_value_append del: of_char_of)
    then show ?thesis by simp
  qed
qed

lemma string_of_nat_digits: "x \<in> set (string_of_nat n) \<Longrightarrow> is_ascii_digit x"
proof (induction n rule: string_of_nat.induct)
  case (1 n)
  have "is_ascii_digit (char_of (48 + k))" if "k < 10" for k :: nat
    using that digit_char[OF that] by (simp only: is_ascii_digit_def) simp
  then show ?case using 1 by (subst (asm) (2) string_of_nat.simps) (auto split: if_splits)
qed

lemma scan_location_path:
  "CHR '':'' \<notin> set p \<Longrightarrow> scan_location seen (p @ r) = scan_location (seen @ p) r"
  by (induction p arbitrary: seen) auto

lemma parse_location_roundtrip:
  assumes "CHR '':'' \<notin> set p" "n < 2 ^ 64" "r = [] \<or> \<not> is_ascii_digit (hd r)"
  shows "parse_location_prefix (p @ '':'' @ string_of_nat n @ r) = Some (p, n)"
proof -
  have "takeWhile is_ascii_digit (string_of_nat n @ r) = string_of_nat n"
    using assms(3) string_of_nat_digits by (cases r) (auto simp: takeWhile_append)
  then show ?thesis
    using assms(1,2) by (simp add: parse_location_prefix_def scan_location_path parse_usize_def)
qed

subsection \<open>Type errors are located in the source\<close>

lemma source_position_offset:
  "source_position (Some (line_offset + k, c)) line_offset = Some (k + 1, c + 1)"
  by (simp add: source_position_def)

lemma prelude_has_no_position: "l < line_offset \<Longrightarrow> source_position (Some (l, c)) line_offset = None"
  by (simp add: source_position_def)

text \<open>Type errors point into the checked source. The checker sees the declarations followed
  by the source; an error that it finds on a line of the source is reported with the number of
  this line in the source, starting from 1, and an excerpt of the source around it, although the
  declarations precede it; the checker has seen this very line there.\<close>

lemma type_errors_located:
  assumes "trim_end api \<noteq> []" "ck_build ck = None"
    and "filter td_error (ck_check ck path (checked_source api source)) = d # ds"
    and "td_location d = Some (length (str_lines (trim_end api)) + k, c)"
  shows "check_module_with_surface ck path source api
           = Err (Cfg_Validation (Some path) (Some (k + 1)) (Some (c + 1))
                   (render_type_diagnostics path (d # ds) (length (str_lines (trim_end api))))
                   (Some (excerpt_at source (k + 1) (c + 1))))"
    and "str_lines (checked_source api source) ! (length (str_lines (trim_end api)) + k) = str_lines source ! k"
proof -
  show "check_module_with_surface ck path source api
           = Err (Cfg_Validation (Some path) (Some (k + 1)) (Some (c + 1))
                   (render_type_diagnostics path (d # ds) (length (str_lines (trim_end api))))
                   (Some (excerpt_at source (k + 1) (c + 1))))"
    using assms(2,3,4) source_position_offset[of _ k c]
    by (simp add: check_module_with_surface_def checker_surface_def config_type_error_def)
  show "str_lines (checked_source api source) ! (length (str_lines (trim_end api)) + k) = str_lines source ! k"
    by (rule checked_source_line[OF assms(1)])
qed

text \<open>
  For a style file the checked source is not the file but the file wrapped in a function, one
  line further down: an error on line \<open>k + 1\<close> of the file is reported on line \<open>k + 2\<close>.
\<close>

lemma wrapped_lines:
  assumes "newline \<notin> set w"
  shows "str_lines (w @ [newline] @ source @ [newline] @ t)
           = strip_cr w # map strip_cr (split_on newline source) @ str_lines t"
  using str_lines_append[of w "source @ newline # t"] str_lines_append[of source t]
  by (simp add: split_on_no_sep[OF assms])

lemma split_on_piece_subset: "p \<in> set (split_on sep xs) \<Longrightarrow> set p \<subseteq> set xs"
proof (induction xs arbitrary: p)
  case (Cons x xs)
  obtain q qs where qs: "split_on sep xs = q # qs" by (metis list.exhaust split_on_not_Nil)
  show ?case
  proof (cases "x = sep")
    case True
    then show ?thesis using Cons by auto
  next
    case False
    have "set q \<subseteq> set xs" "\<And>r. r \<in> set qs \<Longrightarrow> set r \<subseteq> set xs" using Cons.IH qs by simp_all
    then show ?thesis using Cons.prems False qs by auto
  qed
qed simp

lemma style_analysis_lines:
  assumes "CHR 0x0D \<notin> set source" "k < length (split_on newline source)"
  shows "str_lines (style_analysis_source source) ! Suc k = split_on newline source ! k"
proof -
  have "newline \<notin> set ''local _style = ((function()''" by (simp add: newline_def)
  then have "str_lines (style_analysis_source source) = strip_cr ''local _style = ((function()'' # map strip_cr (split_on newline source)
      @ str_lines (''end)() :: Style)'' @ [newline])"
    unfolding style_analysis_source_def by (rule wrapped_lines)
  moreover have "strip_cr p = p" if "p \<in> set (split_on newline source)" for p
  proof -
    have "set p \<subseteq> set source" by (rule split_on_piece_subset[OF that])
    then have "p \<noteq> [] \<Longrightarrow> last p \<noteq> CHR 0x0D" using assms(1) last_in_set [of p] by (metis subsetD)
    then show ?thesis by (cases "p = []") (simp_all add: strip_cr_def)
  qed
  ultimately show ?thesis using assms(2) by (simp add: nth_append)
qed

lemma style_errors_one_line_late:
  assumes "trim_end api \<noteq> []" "ck_build ck = None"
    and "filter td_error (ck_check ck path (checked_source api (style_analysis_source source))) = d # ds"
    and "td_location d = Some (length (str_lines (trim_end api)) + Suc k, c)"
    and "CHR 0x0D \<notin> set source" "k < length (split_on newline source)"
  shows "\<exists>message excerpt. analyze_style_file ck api path source
             = Err (Cfg_Validation (Some path) (Some (k + 2)) (Some (c + 1)) message excerpt)"
    and "str_lines (checked_source api (style_analysis_source source)) ! (length (str_lines (trim_end api)) + Suc k)
           = split_on newline source ! k"
proof -
  show "\<exists>message excerpt. analyze_style_file ck api path source
             = Err (Cfg_Validation (Some path) (Some (k + 2)) (Some (c + 1)) message excerpt)"
    using assms(2,3,4) source_position_offset[of _ "Suc k" c]
    by (simp add: analyze_style_file_def check_module_with_surface_def checker_surface_def config_type_error_def)
  show "str_lines (checked_source api (style_analysis_source source)) ! (length (str_lines (trim_end api)) + Suc k)
           = split_on newline source ! k"
    by (rule trans[OF checked_source_line[OF assms(1)] style_analysis_lines[OF assms(5,6)]])
qed

text \<open>A checker that reports an unknown name on the second line of a module.\<close>

definition sample_diagnostic :: type_diagnostic where
  "sample_diagnostic = \<lparr>td_error = True, td_location = Some (2, 4), td_category = ''UnknownSymbol'', td_context = None,
     td_message = ''unknown'', td_display_name = ''style''\<rparr>"

definition sample_checker :: checker_ops where
  "sample_checker = \<lparr>ck_build = None, ck_check = (\<lambda>_ _. [sample_diagnostic]), ck_compile = (\<lambda>_ _. None)\<rparr>"

lemma type_errors_located_witness:
  "check_module_with_surface sample_checker ''m.luau'' (''local a'' @ newline # ''local b = c'') ''type T = {}''
     = Err (Cfg_Validation (Some ''m.luau'') (Some 2) (Some 5) ''m.luau:2:5 UnknownSymbol: type checker diagnostic''
             (Some (excerpt_at (''local a'' @ newline # ''local b = c'') 2 5)))"
proof -
  have api: "trim_end ''type T = {}'' = ''type T = {}''" "length (str_lines ''type T = {}'') = 1" by code_simp+
  have rendered: "render_type_diagnostics ''m.luau'' [sample_diagnostic] 1 = ''m.luau:2:5 UnknownSymbol: type checker diagnostic''"
    by code_simp
  have num: "(1::nat) + 1 = 2" "(4::nat) + 1 = 5" by simp_all
  show ?thesis
    by (rule type_errors_located(1)[of "''type T = {}''" sample_checker "''m.luau''" _ sample_diagnostic "[]" 1 4,
          unfolded api rendered num]) (simp_all add: sample_checker_def sample_diagnostic_def)
qed

end
