(* ===== verification/Socket_Guard.thy ===== *)
theory Socket_Guard
  imports Hotki_Text
begin

text \<open>
  The socket of the IPC server (\<open>hotki-server/src/ipc/server.rs\<close>): the guard that removes a
  stale socket file, the life of the server from its start to the drop of its value, and what
  happens to the files.  The operating system is a record of the operations the code calls, over
  a world \<open>'w\<close>; the service that is started and stopped is not part of it.
\<close>

subsection \<open>The operating system\<close>

datatype file_kind = FK_Socket | FK_Directory | FK_Symlink | FK_Other string

text \<open>The identity of a file, its device and inode, is the same for every path that names it.\<close>

record file_meta =
  fm_kind :: file_kind
  fm_uid :: "32 word"
  fm_mode :: nat
  fm_file :: string

text \<open>
  \<open>sk_lstat\<close> is \<open>symlink_metadata\<close>, of the entry at the path itself; \<open>sk_metadata\<close> and
  \<open>sk_set_mode\<close> follow symbolic links.  An error of \<open>symlink_metadata\<close>: not found, or another one with
  its text.
\<close>

datatype lstat_error = Lstat_NotFound | Lstat_Error string

record 'w socket_os =
  sk_uid :: "32 word"
  sk_metadata :: "'w \<Rightarrow> string \<Rightarrow> string + file_meta"
  sk_lstat :: "'w \<Rightarrow> string \<Rightarrow> lstat_error + file_meta"
  sk_connect :: "string \<Rightarrow> 'w \<Rightarrow> bool \<times> 'w"
  sk_remove_file :: "string \<Rightarrow> 'w \<Rightarrow> (string + unit) \<times> 'w"
  sk_create_dir_all :: "string \<Rightarrow> 'w \<Rightarrow> 'w"
  sk_set_mode :: "string \<Rightarrow> nat \<Rightarrow> 'w \<Rightarrow> 'w"
  sk_bind :: "string \<Rightarrow> 'w \<Rightarrow> (string + unit) \<times> 'w"
  sk_close :: "string \<Rightarrow> 'w \<Rightarrow> 'w"

definition kind_text :: "file_kind \<Rightarrow> string" where
  "kind_text k = (case k of FK_Socket \<Rightarrow> ''socket'' | FK_Directory \<Rightarrow> ''directory'' | FK_Symlink \<Rightarrow> ''symlink'' | FK_Other t \<Rightarrow> t)"

text \<open>Texts of the errors, all of which are \<open>Error::Ipc\<close>.\<close>

definition quoted :: "string \<Rightarrow> string" where
  "quoted s = [CHR 0x27] @ s @ [CHR 0x27]"

definition uid_text :: "32 word \<Rightarrow> 32 word \<Rightarrow> string" where
  "uid_text a b = '' not owned by current user (uid '' @ string_of_nat (unat a) @ '' != '' @ string_of_nat (unat b) @ '')''"

subsection \<open>The guard\<close>

definition socket_accepts_connections :: "'w socket_os \<Rightarrow> string \<Rightarrow> 'w \<Rightarrow> bool \<times> 'w" where
  "socket_accepts_connections os path w = sk_connect os path w"

text \<open>\<open>Path::exists\<close> holds when the metadata can be read, so that the second reading succeeds.\<close>

definition parent_check :: "'w socket_os \<Rightarrow> string \<Rightarrow> 'w \<Rightarrow> string + unit" where
  "parent_check os path w =
     (case path_parent path of
        None \<Rightarrow> Ok ()
      | Some parent \<Rightarrow>
          (case sk_metadata os w parent of
             Inl _ \<Rightarrow> Ok ()
           | Inr meta \<Rightarrow>
               if fm_uid meta \<noteq> sk_uid os
               then Err (''Parent directory of socket at '' @ quoted path @ uid_text (fm_uid meta) (sk_uid os))
               else Ok ()))"

definition validate_or_unlink_existing_socket ::
    "'w socket_os \<Rightarrow> string \<Rightarrow> 'w \<Rightarrow> (string + unit) \<times> 'w" where
  "validate_or_unlink_existing_socket os path w =
     (case parent_check os path w of
        Inl e \<Rightarrow> (Err e, w)
      | Inr _ \<Rightarrow>
          (case sk_lstat os w path of
             Inl Lstat_NotFound \<Rightarrow> (Ok (), w)
           | Inl (Lstat_Error e) \<Rightarrow> (Err (''Failed to lstat existing path '' @ quoted path @ '': '' @ e), w)
           | Inr meta \<Rightarrow>
               if fm_kind meta \<noteq> FK_Socket
               then (Err (''Refusing to remove non-socket at '' @ quoted path @ '': '' @ kind_text (fm_kind meta)), w)
               else if fm_uid meta \<noteq> sk_uid os
               then (Err (''Socket at '' @ quoted path @ uid_text (fm_uid meta) (sk_uid os)), w)
               else (case socket_accepts_connections os path w of
                       (True, w) \<Rightarrow> (Err (''Refusing to remove live socket at '' @ quoted path), w)
                     | (False, w) \<Rightarrow>
                         (case sk_remove_file os path w of
                            (Inl e, w) \<Rightarrow> (Err (''Failed to remove pre-existing socket '' @ quoted path @ '': '' @ e), w)
                          | (Inr _, w) \<Rightarrow> (Ok (), w)))))"

subsection \<open>The server\<close>

text \<open>User-only access, \<open>0o700\<close>.\<close>

definition PARENT_MODE :: nat where "PARENT_MODE = 7 * 64"

definition secure_parent :: "'w socket_os \<Rightarrow> string \<Rightarrow> 'w \<Rightarrow> 'w" where
  "secure_parent os path w =
     (case path_parent path of
        None \<Rightarrow> w
      | Some parent \<Rightarrow>
          if parent = [] then w
          else (let w = sk_create_dir_all os parent w in
                case sk_metadata os w parent of
                  Inr _ \<Rightarrow> sk_set_mode os parent PARENT_MODE w
                | Inl _ \<Rightarrow> w))"

text \<open>How serving ends: the server fails, or a shutdown is requested.\<close>

datatype serve_end = Serve_Error string | Serve_Shutdown

record server_outcome =
  so_result :: "string + unit"
  so_dispatcher_started :: bool
  so_pipeline_stopped :: bool

text \<open>
  \<open>IPCServer::run\<close>, which consumes the server.  Between the bind and the end of serving the
  world evolves by \<open>serve\<close>; the listener is closed when the server value is dropped.
\<close>

definition ipc_server_run ::
    "'w socket_os \<Rightarrow> string \<Rightarrow> ('w \<Rightarrow> serve_end \<times> 'w) \<Rightarrow> 'w \<Rightarrow> server_outcome \<times> 'w" where
  "ipc_server_run os path serve w =
     (let w = secure_parent os path w in
      case validate_or_unlink_existing_socket os path w of
        (Inl e, w) \<Rightarrow> (\<lparr>so_result = Err e, so_dispatcher_started = False, so_pipeline_stopped = False\<rparr>, w)
      | (Inr _, w) \<Rightarrow>
          (case sk_bind os path w of
             (Inl e, w) \<Rightarrow>
               (\<lparr>so_result = Err (''Failed to bind to socket: '' @ e), so_dispatcher_started = True, so_pipeline_stopped = False\<rparr>, w)
           | (Inr _, w) \<Rightarrow>
               (case serve w of
                  (Serve_Error e, w) \<Rightarrow>
                    (\<lparr>so_result = Err (''Server error: '' @ e), so_dispatcher_started = True, so_pipeline_stopped = False\<rparr>,
                     sk_close os path w)
                | (Serve_Shutdown, w) \<Rightarrow>
                    (\<lparr>so_result = Ok (), so_dispatcher_started = True, so_pipeline_stopped = True\<rparr>, sk_close os path w))))"

definition ipc_server_drop :: "'w socket_os \<Rightarrow> string \<Rightarrow> 'w \<Rightarrow> 'w" where
  "ipc_server_drop os path w = snd (validate_or_unlink_existing_socket os path w)"

text \<open>A server from its start to the drop of its value at the end of \<open>run\<close>.\<close>

definition ipc_server_life ::
    "'w socket_os \<Rightarrow> string \<Rightarrow> ('w \<Rightarrow> serve_end \<times> 'w) \<Rightarrow> 'w \<Rightarrow> server_outcome \<times> 'w" where
  "ipc_server_life os path serve w = (let (r, w) = ipc_server_run os path serve w in (r, ipc_server_drop os path w))"

subsection \<open>What the operating system promises\<close>

text \<open>
  \<open>live\<close> tells of a path whether a listener accepts connections there.  While the server runs
  nothing else acts on the file system.  A file is the same when the entry at its path is, with
  its kind, owner, mode and identity, and for a socket its listener.
\<close>

definition same_listener :: "'w socket_os \<Rightarrow> ('w \<Rightarrow> string \<Rightarrow> bool) \<Rightarrow> 'w \<Rightarrow> 'w \<Rightarrow> string \<Rightarrow> bool" where
  "same_listener os live w w' q \<longleftrightarrow>
     (\<forall>m. sk_lstat os w q = Inr m \<and> fm_kind m = FK_Socket \<longrightarrow> live w' q = live w q)"

definition same_file :: "'w socket_os \<Rightarrow> ('w \<Rightarrow> string \<Rightarrow> bool) \<Rightarrow> 'w \<Rightarrow> 'w \<Rightarrow> string \<Rightarrow> bool" where
  "same_file os live w w' q \<longleftrightarrow> sk_lstat os w' q = sk_lstat os w q \<and> same_listener os live w w' q"

text \<open>The directory of a path is the same.\<close>

definition same_parent :: "'w socket_os \<Rightarrow> 'w \<Rightarrow> 'w \<Rightarrow> string \<Rightarrow> bool" where
  "same_parent os w w' path \<longleftrightarrow> (\<forall>d. path_parent path = Some d \<longrightarrow> sk_metadata os w' d = sk_metadata os w d)"

definition connect_ok :: "'w socket_os \<Rightarrow> ('w \<Rightarrow> string \<Rightarrow> bool) \<Rightarrow> bool" where
  "connect_ok os live \<longleftrightarrow>
     (\<forall>p w. fst (sk_connect os p w) = live w p \<and> same_parent os w (snd (sk_connect os p w)) p
        \<and> (\<forall>q. same_file os live w (snd (sk_connect os p w)) q))"

definition remove_ok :: "'w socket_os \<Rightarrow> ('w \<Rightarrow> string \<Rightarrow> bool) \<Rightarrow> bool" where
  "remove_ok os live \<longleftrightarrow>
     (\<forall>p w q. (q \<noteq> p \<or> fst (sk_remove_file os p w) \<noteq> Inr ()) \<longrightarrow> same_file os live w (snd (sk_remove_file os p w)) q)
   \<and> (\<forall>p w. same_parent os w (snd (sk_remove_file os p w)) p)
   \<and> (\<forall>p w. fst (sk_remove_file os p w) = Inr () \<longrightarrow> sk_lstat os (snd (sk_remove_file os p w)) p = Inl Lstat_NotFound)"

text \<open>Creating a directory and those on its path changes no file that exists.\<close>

definition create_ok :: "'w socket_os \<Rightarrow> ('w \<Rightarrow> string \<Rightarrow> bool) \<Rightarrow> bool" where
  "create_ok os live \<longleftrightarrow>
     (\<forall>p w q m. sk_lstat os w q = Inr m \<longrightarrow> same_file os live w (sk_create_dir_all os p w) q)"

text \<open>
  Setting a mode changes, if it does not fail, the mode of the file that the path names, at every
  path that names it, and nothing else.
\<close>

definition mode_set :: "string \<Rightarrow> nat \<Rightarrow> 'e + file_meta \<Rightarrow> 'e + file_meta \<Rightarrow> bool" where
  "mode_set file k r r' \<longleftrightarrow> (\<exists>m. r = Inr m \<and> fm_file m = file \<and> r' = Inr (m\<lparr>fm_mode := k\<rparr>))"

definition set_mode_ok :: "'w socket_os \<Rightarrow> ('w \<Rightarrow> string \<Rightarrow> bool) \<Rightarrow> bool" where
  "set_mode_ok os live \<longleftrightarrow>
     (\<forall>p k w d. sk_metadata os w p = Inr d \<longrightarrow>
        (\<forall>q. same_listener os live w (sk_set_mode os p k w) q
           \<and> (sk_lstat os (sk_set_mode os p k w) q = sk_lstat os w q
              \<or> mode_set (fm_file d) k (sk_lstat os w q) (sk_lstat os (sk_set_mode os p k w) q)))
      \<and> (sk_metadata os (sk_set_mode os p k w) p = Inr d \<or> sk_metadata os (sk_set_mode os p k w) p = Inr (d\<lparr>fm_mode := k\<rparr>)))"

text \<open>A socket that is bound is a new file of the user.\<close>

definition bind_ok :: "'w socket_os \<Rightarrow> ('w \<Rightarrow> string \<Rightarrow> bool) \<Rightarrow> bool" where
  "bind_ok os live \<longleftrightarrow>
     (\<forall>p w q. (q \<noteq> p \<or> fst (sk_bind os p w) \<noteq> Inr ()) \<longrightarrow> same_file os live w (snd (sk_bind os p w)) q)
   \<and> (\<forall>p w. same_parent os w (snd (sk_bind os p w)) p)
   \<and> (\<forall>p w. fst (sk_bind os p w) = Inr () \<longrightarrow>
        (\<exists>m. sk_lstat os (snd (sk_bind os p w)) p = Inr m \<and> fm_kind m = FK_Socket \<and> fm_uid m = sk_uid os
           \<and> (\<forall>q n. q \<noteq> p \<and> sk_lstat os w q = Inr n \<longrightarrow> fm_file n \<noteq> fm_file m)))"

definition close_ok :: "'w socket_os \<Rightarrow> ('w \<Rightarrow> string \<Rightarrow> bool) \<Rightarrow> bool" where
  "close_ok os live \<longleftrightarrow>
     (\<forall>p w. \<not> live (sk_close os p w) p \<and> same_parent os w (sk_close os p w) p
        \<and> (\<forall>q. sk_lstat os (sk_close os p w) q = sk_lstat os w q))
   \<and> (\<forall>p w q m n. sk_lstat os w p = Inr m \<and> sk_lstat os w q = Inr n \<and> fm_file n \<noteq> fm_file m \<longrightarrow>
        same_file os live w (sk_close os p w) q)"

definition socket_os_ok :: "'w socket_os \<Rightarrow> ('w \<Rightarrow> string \<Rightarrow> bool) \<Rightarrow> bool" where
  "socket_os_ok os live \<longleftrightarrow>
     connect_ok os live \<and> remove_ok os live \<and> create_ok os live \<and> set_mode_ok os live \<and> bind_ok os live \<and> close_ok os live"

lemma same_listener_refl [simp]: "same_listener os live w w q"
  by (simp add: same_listener_def)

lemma same_file_refl [simp]: "same_file os live w w q"
  by (simp add: same_file_def)

lemma same_parent_refl [simp]: "same_parent os w w q"
  by (simp add: same_parent_def)

lemma same_file_trans: "same_file os live w w' q \<Longrightarrow> same_file os live w' w'' q \<Longrightarrow> same_file os live w w'' q"
  by (simp add: same_file_def same_listener_def)

lemma same_parent_trans: "same_parent os w w' q \<Longrightarrow> same_parent os w' w'' q \<Longrightarrow> same_parent os w w'' q"
  by (simp add: same_parent_def)

lemma connect_rules:
  assumes "socket_os_ok os live"
  shows "fst (sk_connect os p w) = live w p" "same_file os live w (snd (sk_connect os p w)) q"
    "same_parent os w (snd (sk_connect os p w)) p"
  using assms by (simp_all add: socket_os_ok_def connect_ok_def)

lemma remove_rules:
  assumes "socket_os_ok os live"
  shows "q \<noteq> p \<Longrightarrow> same_file os live w (snd (sk_remove_file os p w)) q"
    and "fst (sk_remove_file os p w) = Inl e \<Longrightarrow> same_file os live w (snd (sk_remove_file os p w)) q"
    and "fst (sk_remove_file os p w) = Inr () \<Longrightarrow> sk_lstat os (snd (sk_remove_file os p w)) p = Inl Lstat_NotFound"
    and "same_parent os w (snd (sk_remove_file os p w)) p"
  using assms by (simp_all add: socket_os_ok_def remove_ok_def)

lemma create_rule:
  "socket_os_ok os live \<Longrightarrow> sk_lstat os w q = Inr m \<Longrightarrow> same_file os live w (sk_create_dir_all os p w) q"
  by (simp add: socket_os_ok_def create_ok_def)

lemma set_mode_rules:
  assumes "socket_os_ok os live" "sk_metadata os w p = Inr d"
  shows "same_listener os live w (sk_set_mode os p k w) q"
    and "sk_lstat os (sk_set_mode os p k w) q = sk_lstat os w q
       \<or> mode_set (fm_file d) k (sk_lstat os w q) (sk_lstat os (sk_set_mode os p k w) q)"
    and "sk_metadata os (sk_set_mode os p k w) p = Inr d \<or> sk_metadata os (sk_set_mode os p k w) p = Inr (d\<lparr>fm_mode := k\<rparr>)"
  using assms by (simp_all add: socket_os_ok_def set_mode_ok_def)

lemma bind_rules:
  assumes "socket_os_ok os live"
  shows "q \<noteq> p \<Longrightarrow> same_file os live w (snd (sk_bind os p w)) q"
    and "fst (sk_bind os p w) = Inl e \<Longrightarrow> same_file os live w (snd (sk_bind os p w)) q"
    and "same_parent os w (snd (sk_bind os p w)) p"
    and "fst (sk_bind os p w) = Inr () \<Longrightarrow>
          \<exists>m. sk_lstat os (snd (sk_bind os p w)) p = Inr m \<and> fm_kind m = FK_Socket \<and> fm_uid m = sk_uid os
            \<and> (\<forall>q n. q \<noteq> p \<and> sk_lstat os w q = Inr n \<longrightarrow> fm_file n \<noteq> fm_file m)"
  using assms by (simp_all add: socket_os_ok_def bind_ok_def)

lemma close_rules:
  assumes "socket_os_ok os live"
  shows "\<not> live (sk_close os p w) p" "sk_lstat os (sk_close os p w) q = sk_lstat os w q"
    and "same_parent os w (sk_close os p w) p"
    and "sk_lstat os w p = Inr m \<Longrightarrow> sk_lstat os w q = Inr n \<Longrightarrow> fm_file n \<noteq> fm_file m \<Longrightarrow> same_file os live w (sk_close os p w) q"
  using assms by (simp_all add: socket_os_ok_def close_ok_def)

lemma parent_check_same: "same_parent os w w' path \<Longrightarrow> parent_check os path w' = parent_check os path w"
  by (simp add: parent_check_def same_parent_def split: option.split)

subsection \<open>The guard removes dead sockets of the user only\<close>

definition stale_socket :: "'w socket_os \<Rightarrow> ('w \<Rightarrow> string \<Rightarrow> bool) \<Rightarrow> 'w \<Rightarrow> string \<Rightarrow> bool" where
  "stale_socket os live w path \<longleftrightarrow>
     (\<exists>m. sk_lstat os w path = Inr m \<and> fm_kind m = FK_Socket \<and> fm_uid m = sk_uid os) \<and> \<not> live w path"

text \<open>The guard ends in one of these ways.\<close>

lemma guard_cases:
  assumes "socket_os_ok os live"
  obtains (refused) e where "validate_or_unlink_existing_socket os path w = (Err e, w)"
      "sk_lstat os w path \<noteq> Inl Lstat_NotFound \<or> parent_check os path w \<noteq> Ok ()" "\<not> (stale_socket os live w path \<and> parent_check os path w = Ok ())"
  | (absent) "validate_or_unlink_existing_socket os path w = (Ok (), w)" "sk_lstat os w path = Inl Lstat_NotFound"
      "parent_check os path w = Ok ()"
  | (live) e where "validate_or_unlink_existing_socket os path w = (Err e, snd (sk_connect os path w))" "live w path"
  | (stuck) e f where "validate_or_unlink_existing_socket os path w = (Err e, snd (sk_remove_file os path (snd (sk_connect os path w))))"
      "fst (sk_remove_file os path (snd (sk_connect os path w))) = Inl f" "stale_socket os live w path"
  | (removed) "validate_or_unlink_existing_socket os path w = (Ok (), snd (sk_remove_file os path (snd (sk_connect os path w))))"
      "fst (sk_remove_file os path (snd (sk_connect os path w))) = Inr ()" "stale_socket os live w path" "parent_check os path w = Ok ()"
proof (cases "parent_check os path w")
  case (Inl e)
  then show ?thesis by (intro refused[of e]) (simp_all add: validate_or_unlink_existing_socket_def)
next
  case parent: (Inr u)
  show ?thesis
  proof (cases "sk_lstat os w path")
    case (Inl x)
    then show ?thesis
      using absent refused parent
      by (cases x) (auto simp: validate_or_unlink_existing_socket_def stale_socket_def)
  next
    case (Inr meta)
    show ?thesis
    proof (cases "fm_kind meta = FK_Socket \<and> fm_uid meta = sk_uid os")
      case False
      then have "\<exists>e. validate_or_unlink_existing_socket os path w = (Err e, w)"
        using parent Inr by (simp add: validate_or_unlink_existing_socket_def)
      moreover have "\<not> stale_socket os live w path" using Inr False by (auto simp: stale_socket_def)
      ultimately show ?thesis using refused Inr by auto
    next
      case own: True
      obtain l w1 where c: "sk_connect os path w = (l, w1)" by fastforce
      have l: "l = live w path" using connect_rules(1)[OF assms, of path w] c by simp
      obtain r w2 where rm: "sk_remove_file os path w1 = (r, w2)" by fastforce
      show ?thesis
      proof (cases l)
        case True
        then show ?thesis
          using live parent Inr own c l by (simp add: validate_or_unlink_existing_socket_def socket_accepts_connections_def)
      next
        case False
        then have stale: "stale_socket os live w path" using Inr own l by (simp add: stale_socket_def)
        show ?thesis
          using stuck removed parent Inr own c rm False stale
          by (cases r) (simp_all add: validate_or_unlink_existing_socket_def socket_accepts_connections_def)
      qed
    qed
  qed
qed

lemma guard_other:
  assumes "socket_os_ok os live" "q \<noteq> path"
  shows "same_file os live w (snd (validate_or_unlink_existing_socket os path w)) q"
  using assms(1)
proof (cases rule: guard_cases[of os live path w])
  case live
  then show ?thesis using connect_rules(2)[OF assms(1)] by simp
next
  case stuck
  then show ?thesis
    using same_file_trans[OF connect_rules(2)[OF assms(1)] remove_rules(1)[OF assms]] by simp
next
  case removed
  then show ?thesis
    using same_file_trans[OF connect_rules(2)[OF assms(1)] remove_rules(1)[OF assms]] by simp
qed simp_all

lemma guard_keeps:
  assumes "socket_os_ok os live" "\<not> stale_socket os live w path"
  shows "same_file os live w (snd (validate_or_unlink_existing_socket os path w)) path"
  using assms(1)
proof (cases rule: guard_cases[of os live path w])
  case live
  then show ?thesis using connect_rules(2)[OF assms(1)] by simp
qed (use assms(2) in simp_all)

lemma guard_refuses:
  assumes "socket_os_ok os live" "\<not> stale_socket os live w path" "sk_lstat os w path \<noteq> Inl Lstat_NotFound"
  shows "\<exists>e. fst (validate_or_unlink_existing_socket os path w) = Err e"
  using assms(1)
  by (cases rule: guard_cases[of os live path w]) (use assms(2,3) in simp_all)

lemma guard_removes:
  assumes "socket_os_ok os live" "stale_socket os live w path" "parent_check os path w = Ok ()"
    and "\<And>w e. fst (sk_remove_file os path w) \<noteq> Inl e"
  shows "sk_lstat os (snd (validate_or_unlink_existing_socket os path w)) path = Inl Lstat_NotFound"
  using assms(1)
proof (cases rule: guard_cases[of os live path w])
  case live
  then show ?thesis using assms(2) by (simp add: stale_socket_def)
next
  case removed
  then show ?thesis using remove_rules(3)[OF assms(1)] by simp
qed (use assms(2-4) in \<open>auto simp: stale_socket_def\<close>)

lemma guard_parent:
  assumes "socket_os_ok os live"
  shows "same_parent os w (snd (validate_or_unlink_existing_socket os path w)) path"
  using assms
proof (cases rule: guard_cases[of os live path w])
  case live
  then show ?thesis using connect_rules(3)[OF assms] by simp
next
  case stuck
  then show ?thesis using same_parent_trans[OF connect_rules(3)[OF assms] remove_rules(4)[OF assms]] by simp
next
  case removed
  then show ?thesis using same_parent_trans[OF connect_rules(3)[OF assms] remove_rules(4)[OF assms]] by simp
qed simp_all

subsection \<open>The life of a server\<close>

text \<open>
  A file is kept: it is the same, or it is the directory that the parent path of the socket
  names, and nothing but its mode was set, to user-only access.
\<close>

definition secured_directory ::
    "'w socket_os \<Rightarrow> ('w \<Rightarrow> string \<Rightarrow> bool) \<Rightarrow> string \<Rightarrow> 'w \<Rightarrow> 'w \<Rightarrow> string \<Rightarrow> bool" where
  "secured_directory os live path w w' q \<longleftrightarrow>
     (\<exists>parent d n. path_parent path = Some parent \<and> parent \<noteq> [] \<and> sk_metadata os w' parent = Inr d
        \<and> sk_lstat os w q = Inr n \<and> fm_file n = fm_file d
        \<and> sk_lstat os w' q = Inr (n\<lparr>fm_mode := PARENT_MODE\<rparr>) \<and> same_listener os live w w' q)"

definition kept :: "'w socket_os \<Rightarrow> ('w \<Rightarrow> string \<Rightarrow> bool) \<Rightarrow> string \<Rightarrow> 'w \<Rightarrow> 'w \<Rightarrow> string \<Rightarrow> bool" where
  "kept os live path w w' q \<longleftrightarrow> same_file os live w w' q \<or> secured_directory os live path w w' q"

lemma kept_then_same:
  assumes "kept os live path w w' q" "same_file os live w' w'' q" "same_parent os w' w'' path"
  shows "kept os live path w w'' q"
  using assms(1) unfolding kept_def
proof
  assume "same_file os live w w' q"
  then show "same_file os live w w'' q \<or> secured_directory os live path w w'' q" using same_file_trans[OF _ assms(2)] by blast
next
  assume "secured_directory os live path w w' q"
  then obtain parent d n where s: "path_parent path = Some parent" "parent \<noteq> []" "sk_metadata os w' parent = Inr d"
    "sk_lstat os w q = Inr n" "fm_file n = fm_file d" "sk_lstat os w' q = Inr (n\<lparr>fm_mode := PARENT_MODE\<rparr>)"
    "same_listener os live w w' q" by (auto simp: secured_directory_def)
  have "sk_metadata os w'' parent = Inr d" using assms(3) s(1,3) by (simp add: same_parent_def)
  moreover have "sk_lstat os w'' q = Inr (n\<lparr>fm_mode := PARENT_MODE\<rparr>)" using assms(2) s(6) by (simp add: same_file_def)
  moreover have "same_listener os live w w'' q"
    using assms(2) s(4,6,7) by (simp add: same_file_def same_listener_def)
  ultimately show "same_file os live w w'' q \<or> secured_directory os live path w w'' q"
    using s(1,2,4,5) by (auto simp: secured_directory_def)
qed

lemma kept_stale:
  assumes "kept os live path w w' q" "sk_lstat os w q = Inr m"
  shows "stale_socket os live w' q = stale_socket os live w q" "\<exists>n. sk_lstat os w' q = Inr n"
  using assms by (auto simp: kept_def secured_directory_def same_file_def same_listener_def stale_socket_def)

lemma secure_parent_kept:
  assumes "socket_os_ok os live" "sk_lstat os w q = Inr n"
  shows "kept os live path w (secure_parent os path w) q"
proof (cases "\<exists>parent d. path_parent path = Some parent \<and> parent \<noteq> [] \<and> sk_metadata os (sk_create_dir_all os parent w) parent = Inr d")
  case False
  then have "secure_parent os path w = w
      \<or> (\<exists>parent. secure_parent os path w = sk_create_dir_all os parent w)"
    by (auto simp: secure_parent_def Let_def split: option.splits sum.splits)
  then show ?thesis using create_rule[OF assms] by (auto simp: kept_def)
next
  case True
  then obtain parent d where p: "path_parent path = Some parent" "parent \<noteq> []"
    "sk_metadata os (sk_create_dir_all os parent w) parent = Inr d" by blast
  let ?w = "sk_create_dir_all os parent w"
  let ?w' = "sk_set_mode os parent PARENT_MODE ?w"
  have sec: "secure_parent os path w = ?w'" using p by (simp add: secure_parent_def Let_def)
  have c: "same_file os live w ?w q" by (rule create_rule[OF assms])
  then have n: "sk_lstat os ?w q = Inr n" using assms(2) by (simp add: same_file_def)
  note m = set_mode_rules[OF assms(1) p(3), of PARENT_MODE]
  have l: "same_listener os live w ?w' q" using c m(1)[of q] n assms(2) by (simp add: same_file_def same_listener_def)
  show ?thesis
  proof (cases "sk_lstat os ?w' q = sk_lstat os ?w q")
    case True
    then have "same_file os live w ?w' q" using c l by (simp add: same_file_def)
    then show ?thesis by (simp add: sec kept_def)
  next
    case False
    then have set: "fm_file n = fm_file d" "sk_lstat os ?w' q = Inr (n\<lparr>fm_mode := PARENT_MODE\<rparr>)"
      using m(2)[of q] n by (auto simp: mode_set_def)
    have "\<exists>d'. sk_metadata os ?w' parent = Inr d' \<and> fm_file d' = fm_file d" using m(3) by auto
    then have "secured_directory os live path w ?w' q"
      using p(1,2) assms(2) set l by (auto simp: secured_directory_def)
    then show ?thesis by (simp add: sec kept_def)
  qed
qed

definition serve_keeps :: "'w socket_os \<Rightarrow> ('w \<Rightarrow> string \<Rightarrow> bool) \<Rightarrow> ('w \<Rightarrow> serve_end \<times> 'w) \<Rightarrow> bool" where
  "serve_keeps os live serve \<longleftrightarrow>
     (\<forall>w q. sk_lstat os (snd (serve w)) q = sk_lstat os w q \<and> sk_metadata os (snd (serve w)) q = sk_metadata os w q
        \<and> live (snd (serve w)) q = live w q)"

lemma serve_rules:
  assumes "serve_keeps os live serve"
  shows "same_file os live w (snd (serve w)) q" "same_parent os w (snd (serve w)) q"
  using assms by (simp_all add: serve_keeps_def same_file_def same_listener_def same_parent_def)

lemma run_parent:
  assumes "socket_os_ok os live" "serve_keeps os live serve"
  shows "same_parent os (secure_parent os path w) (snd (ipc_server_run os path serve w)) path"
proof -
  let ?w = "secure_parent os path w"
  obtain g w1 where g: "validate_or_unlink_existing_socket os path ?w = (g, w1)" by fastforce
  obtain b w2 where b: "sk_bind os path w1 = (b, w2)" by fastforce
  obtain e w3 where e: "serve w2 = (e, w3)" by fastforce
  have s1: "same_parent os ?w w1 path" using guard_parent[OF assms(1), of ?w path] g by simp
  have s2: "same_parent os ?w w2 path" using same_parent_trans[OF s1 bind_rules(3)[OF assms(1)]] b by (metis snd_conv)
  have s3: "same_parent os ?w w3 path" using same_parent_trans[OF s2 serve_rules(2)[OF assms(2)]] e by (metis snd_conv)
  have s4: "same_parent os ?w (sk_close os path w3) path" by (rule same_parent_trans[OF s3 close_rules(3)[OF assms(1)]])
  show ?thesis using s1 s2 s4 g b e by (cases g; cases b; cases e) (simp_all add: ipc_server_run_def Let_def)
qed

lemma run_other:
  assumes "socket_os_ok os live" "serve_keeps os live serve" "q \<noteq> path" "sk_lstat os (secure_parent os path w) q = Inr n"
  shows "same_file os live (secure_parent os path w) (snd (ipc_server_run os path serve w)) q"
proof -
  let ?w = "secure_parent os path w"
  obtain g w1 where g: "validate_or_unlink_existing_socket os path ?w = (g, w1)" by fastforce
  obtain b w2 where b: "sk_bind os path w1 = (b, w2)" by fastforce
  obtain e w3 where e: "serve w2 = (e, w3)" by fastforce
  have s1: "same_file os live ?w w1 q" using guard_other[OF assms(1,3), of ?w] g by simp
  have s2: "same_file os live ?w w2 q" using same_file_trans[OF s1] bind_rules(1)[OF assms(1,3), of w1] b by simp
  have s3: "same_file os live ?w w3 q" using same_file_trans[OF s2 serve_rules(1)[OF assms(2)]] e by (metis snd_conv)
  have s4: "same_file os live ?w (sk_close os path w3) q" if bound: "b = Inr ()"
  proof -
    have "sk_lstat os w1 q = Inr n" "sk_lstat os w3 q = Inr n" using s1 s3 assms(4) by (simp_all add: same_file_def)
    moreover obtain m where "sk_lstat os w2 path = Inr m" "\<And>n. sk_lstat os w1 q = Inr n \<Longrightarrow> fm_file n \<noteq> fm_file m"
      using bind_rules(4)[OF assms(1), of path w1] b bound assms(3) by auto
    moreover have "sk_lstat os w3 path = sk_lstat os w2 path"
      using serve_rules(1)[OF assms(2), of w2 path] e by (simp add: same_file_def)
    ultimately show ?thesis using same_file_trans[OF s3 close_rules(4)[OF assms(1)]] by simp
  qed
  show ?thesis using s1 s2 s4 g b e by (cases g; cases b; cases e) (simp_all add: ipc_server_run_def Let_def)
qed

lemma run_refused:
  assumes "socket_os_ok os live" "sk_lstat os w path = Inr m" "\<not> stale_socket os live w path"
  shows "\<exists>e. so_result (fst (ipc_server_run os path serve w)) = Err e"
    and "\<not> so_dispatcher_started (fst (ipc_server_run os path serve w))"
    and "kept os live path w (snd (ipc_server_run os path serve w)) path"
proof -
  let ?w = "secure_parent os path w"
  have s: "kept os live path w ?w path" by (rule secure_parent_kept[OF assms(1,2)])
  have f: "\<not> stale_socket os live ?w path" "sk_lstat os ?w path \<noteq> Inl Lstat_NotFound"
    using assms(3) kept_stale[OF s assms(2)] by auto
  obtain e where e: "fst (validate_or_unlink_existing_socket os path ?w) = Err e" using guard_refuses[OF assms(1) f] by blast
  obtain w1 where g: "validate_or_unlink_existing_socket os path ?w = (Err e, w1)" using e by (metis prod.collapse)
  then show "\<exists>e. so_result (fst (ipc_server_run os path serve w)) = Err e"
    "\<not> so_dispatcher_started (fst (ipc_server_run os path serve w))"
    by (simp_all add: ipc_server_run_def Let_def)
  have "snd (ipc_server_run os path serve w) = snd (validate_or_unlink_existing_socket os path ?w)"
    using g by (simp add: ipc_server_run_def Let_def)
  then show "kept os live path w (snd (ipc_server_run os path serve w)) path"
    using kept_then_same[OF s guard_keeps[OF assms(1) f(1)] guard_parent[OF assms(1)]] by simp
qed

lemma run_served:
  assumes "socket_os_ok os live" "serve_keeps os live serve" "so_result (fst (ipc_server_run os path serve w)) = Ok ()"
  shows "stale_socket os live (snd (ipc_server_run os path serve w)) path"
    and "parent_check os path (snd (ipc_server_run os path serve w)) = Ok ()"
proof -
  let ?w = "secure_parent os path w"
  obtain g w1 where g: "validate_or_unlink_existing_socket os path ?w = (g, w1)" by fastforce
  obtain b w2 where b: "sk_bind os path w1 = (b, w2)" by fastforce
  obtain e w3 where e: "serve w2 = (e, w3)" by fastforce
  have ok: "g = Inr ()" "b = Inr ()" and run: "snd (ipc_server_run os path serve w) = sk_close os path w3"
    using assms(3) g b e by (cases g; cases b; cases e; simp add: ipc_server_run_def Let_def)+
  have "\<exists>m. sk_lstat os w2 path = Inr m \<and> fm_kind m = FK_Socket \<and> fm_uid m = sk_uid os"
    using bind_rules(4)[OF assms(1), of path w1] b ok by auto
  moreover have "same_file os live w2 w3 path" using serve_rules(1)[OF assms(2), of w2] e by simp
  ultimately show "stale_socket os live (snd (ipc_server_run os path serve w)) path"
    using close_rules(1,2)[OF assms(1)] run by (simp add: stale_socket_def same_file_def)
  have "parent_check os path (snd (ipc_server_run os path serve w)) = parent_check os path ?w"
    by (rule parent_check_same[OF run_parent[OF assms(1,2)]])
  moreover have "parent_check os path ?w = Ok ()"
    using g ok by (auto simp: validate_or_unlink_existing_socket_def split: sum.splits)
  ultimately show "parent_check os path (snd (ipc_server_run os path serve w)) = Ok ()" by simp
qed

text \<open>C22: A server never harms a file that is not its own stale socket. If anything else is at the
  socket path (another kind of file, a symbolic link, a socket of another user, a socket on which a
  server still accepts connections), the start fails before hotkeys are dispatched, and the file
  and its listener are kept, also when the server value is dropped. Every other existing file is
  kept as well. Kept means: the same file with the same kind, owner, mode and listener; only the
  directory that the parent path of the socket names may have its mode set to user-only access. A
  server that was stopped leaves no socket file behind, when the system lets a user remove their
  own files.\<close>

theorem server_socket_protected:
  assumes "socket_os_ok os live" "serve_keeps os live serve"
    and "ipc_server_life os path serve w = (r, w')"
  shows "(\<forall>m. sk_lstat os w path = Inr m \<and> \<not> stale_socket os live w path \<longrightarrow>
            (\<exists>e. so_result r = Err e) \<and> \<not> so_dispatcher_started r \<and> kept os live path w w' path)
    \<and> (\<forall>q n. sk_lstat os w q = Inr n \<and> q \<noteq> path \<longrightarrow> kept os live path w w' q)
    \<and> (so_result r = Ok () \<and> (\<forall>w e. fst (sk_remove_file os path w) \<noteq> Inl e) \<longrightarrow>
         sk_lstat os w' path = Inl Lstat_NotFound)"
proof -
  let ?run = "ipc_server_run os path serve w"
  have life: "r = fst ?run" "w' = snd (validate_or_unlink_existing_socket os path (snd ?run))"
    using assms(3) by (auto simp: ipc_server_life_def ipc_server_drop_def split: prod.splits)
  have obstructed: "(\<exists>e. so_result r = Err e) \<and> \<not> so_dispatcher_started r \<and> kept os live path w w' path"
    if at: "sk_lstat os w path = Inr m" "\<not> stale_socket os live w path" for m
  proof -
    note refused = run_refused[OF assms(1) at, of serve]
    have "\<not> stale_socket os live (snd ?run) path" using at(2) kept_stale(1)[OF refused(3) at(1)] by simp
    from kept_then_same[OF refused(3) guard_keeps[OF assms(1) this] guard_parent[OF assms(1)]]
    show ?thesis using refused(1,2) life by simp
  qed
  have other: "kept os live path w w' q" if q: "sk_lstat os w q = Inr n" "q \<noteq> path" for q n
  proof -
    have s: "kept os live path w (secure_parent os path w) q" by (rule secure_parent_kept[OF assms(1) q(1)])
    obtain n' where "sk_lstat os (secure_parent os path w) q = Inr n'" using kept_stale(2)[OF s q(1)] by blast
    from kept_then_same[OF s run_other[OF assms(1,2) q(2) this] run_parent[OF assms(1,2)]]
    show ?thesis unfolding life by (rule kept_then_same[OF _ guard_other[OF assms(1) q(2)] guard_parent[OF assms(1)]])
  qed
  have removed: "sk_lstat os w' path = Inl Lstat_NotFound"
    if finished: "so_result r = Ok ()" "\<forall>w e. fst (sk_remove_file os path w) \<noteq> Inl e"
    unfolding life(2) by (rule guard_removes[OF assms(1) run_served[OF assms(1,2) finished(1)[unfolded life(1)]]])
      (use finished(2) in blast)
  show ?thesis using obstructed other removed by blast
qed

text \<open>
  A file table, without links, and a second server that starts while the first one is running: the
  directory it secures was open to other users before.
\<close>

record table_file =
  tf_kind :: file_kind
  tf_uid :: "32 word"
  tf_mode :: nat
  tf_live :: bool

type_synonym file_table = "string \<Rightarrow> table_file option"

definition table_meta :: "string \<Rightarrow> table_file \<Rightarrow> file_meta" where
  "table_meta p f = \<lparr>fm_kind = tf_kind f, fm_uid = tf_uid f, fm_mode = tf_mode f, fm_file = p\<rparr>"

definition table_os :: "32 word \<Rightarrow> file_table socket_os" where
  "table_os uid =
     \<lparr>sk_uid = uid,
      sk_metadata = (\<lambda>w p. case w p of Some f \<Rightarrow> Inr (table_meta p f) | None \<Rightarrow> Inl ''not found''),
      sk_lstat = (\<lambda>w p. case w p of Some f \<Rightarrow> Inr (table_meta p f) | None \<Rightarrow> Inl Lstat_NotFound),
      sk_connect = (\<lambda>p w. (case w p of Some f \<Rightarrow> tf_live f | None \<Rightarrow> False, w)),
      sk_remove_file = (\<lambda>p w. (Inr (), w(p := None))),
      sk_create_dir_all = (\<lambda>p w. case w p of
          None \<Rightarrow> w(p \<mapsto> \<lparr>tf_kind = FK_Directory, tf_uid = uid, tf_mode = 493, tf_live = False\<rparr>) | Some _ \<Rightarrow> w),
      sk_set_mode = (\<lambda>p k w. w(p := map_option (tf_mode_update (\<lambda>_. k)) (w p))),
      sk_bind = (\<lambda>p w. case w p of
          None \<Rightarrow> (Inr (), w(p \<mapsto> \<lparr>tf_kind = FK_Socket, tf_uid = uid, tf_mode = 493, tf_live = True\<rparr>))
        | Some _ \<Rightarrow> (Inl ''in use'', w)),
      sk_close = (\<lambda>p w. w(p := map_option (tf_live_update (\<lambda>_. False)) (w p)))\<rparr>"

definition table_live :: "file_table \<Rightarrow> string \<Rightarrow> bool" where
  "table_live w p = (case w p of Some f \<Rightarrow> tf_live f | None \<Rightarrow> False)"

text \<open>The parent is another path.\<close>

lemma skip_back_length: "length (skip_back r) \<le> length r"
proof (induction r rule: skip_back.induct)
  case (1 r)
  show ?case
  proof (cases "r \<noteq> [] \<and> (component_end r = [] \<or> component_end r = ''.'')")
    case True
    then have "skip_back r = skip_back (without_component r)" by (subst skip_back.simps) simp
    then show ?thesis using 1 True without_component_shorter[of r] by simp
  qed (subst skip_back.simps, auto)
qed

lemma path_parent_shorter:
  assumes "path_parent p = Some q"
  shows "length q < length p"
proof -
  define cur_dir where "cur_dir = (p = ''.'' \<or> starts_with ''./'' p)"
  define n where "n = (if path_is_absolute p \<or> cur_dir then 1 else 0 :: nat)"
  define r where "r = skip_back (rev (drop n p))"
  have pp: "path_parent p = (if r \<noteq> [] then Some (take n p @ rev (skip_back (without_component r)))
      else if cur_dir then Some [] else None)"
    by (simp add: path_parent_def Let_def cur_dir_def n_def r_def)
  show ?thesis
  proof (cases "r = []")
    case True
    then have "cur_dir" "q = []" using pp assms by (auto split: if_splits)
    then show ?thesis by (auto simp: cur_dir_def starts_with_iff)
  next
    case False
    have "length (skip_back (without_component r)) < length r"
      using skip_back_length[of "without_component r"] without_component_shorter[OF False] by simp
    moreover have "length r \<le> length p - n" using skip_back_length[of "rev (drop n p)"] by (simp add: r_def)
    moreover have "q = take n p @ rev (skip_back (without_component r))" using False pp assms by simp
    ultimately show ?thesis by simp
  qed
qed

lemma parent_other: "path_parent p = Some d \<Longrightarrow> d \<noteq> p"
  using path_parent_shorter by blast

lemmas table_defs = table_os_def table_meta_def table_live_def same_file_def same_listener_def same_parent_def

lemma table_laws:
  "connect_ok (table_os uid) table_live" "remove_ok (table_os uid) table_live" "create_ok (table_os uid) table_live"
  "set_mode_ok (table_os uid) table_live" "bind_ok (table_os uid) table_live" "close_ok (table_os uid) table_live"
proof -
  show "connect_ok (table_os uid) table_live" by (simp add: connect_ok_def table_defs)
  show "remove_ok (table_os uid) table_live" by (auto simp: remove_ok_def table_defs parent_other)
  show "create_ok (table_os uid) table_live" by (auto simp: create_ok_def table_defs split: option.splits)
  show "set_mode_ok (table_os uid) table_live" by (auto simp: set_mode_ok_def mode_set_def table_defs split: option.splits)
  show "bind_ok (table_os uid) table_live" by (auto simp: bind_ok_def table_defs dest: parent_other split: option.splits)
  show "close_ok (table_os uid) table_live" by (auto simp: close_ok_def table_defs dest: parent_other split: option.splits)
qed

lemma table_os_ok: "socket_os_ok (table_os uid) table_live"
  by (simp add: socket_os_ok_def table_laws)

definition running_server :: file_table where
  "running_server =
     [''/run/hotki/s'' \<mapsto> \<lparr>tf_kind = FK_Socket, tf_uid = 501, tf_mode = 493, tf_live = True\<rparr>,
      ''/run/hotki'' \<mapsto> \<lparr>tf_kind = FK_Directory, tf_uid = 501, tf_mode = 493, tf_live = False\<rparr>]"

lemma server_socket_protected_witness:
  "\<exists>r w'. ipc_server_life (table_os 501) ''/run/hotki/s'' (Pair Serve_Shutdown) running_server = (r, w')
     \<and> (\<exists>e. so_result r = Err e) \<and> \<not> so_dispatcher_started r
     \<and> kept (table_os 501) table_live ''/run/hotki/s'' running_server w' ''/run/hotki/s''
     \<and> kept (table_os 501) table_live ''/run/hotki/s'' running_server w' ''/run/hotki''"
proof -
  have keeps: "serve_keeps (table_os 501) table_live (Pair Serve_Shutdown)" by (simp add: serve_keeps_def)
  obtain r w' where life: "ipc_server_life (table_os 501) ''/run/hotki/s'' (Pair Serve_Shutdown) running_server = (r, w')" by fastforce
  have "\<exists>m. sk_lstat (table_os 501) running_server ''/run/hotki/s'' = Inr m"
    "\<exists>m. sk_lstat (table_os 501) running_server ''/run/hotki'' = Inr m"
    "\<not> stale_socket (table_os 501) table_live running_server ''/run/hotki/s''"
    by (simp_all add: table_os_def running_server_def stale_socket_def table_live_def)
  with server_socket_protected[OF table_os_ok keeps life] life show ?thesis by blast
qed

end
