(* ===== verification/Install_Commit.thy ===== *)
theory Install_Commit
  imports Hotki_Text
begin

text \<open>
  The transaction that installs a verified application bundle (\<open>xtask/src/install.rs\<close>,
  \<open>xtask/src/artifact.rs\<close>): publish the staged bundle by an atomic exchange or rename, verify
  what was published, roll back or retire the prior bundle.  A disk holds an artifact, a whole
  bundle, at a path; there are no symbolic links at the paths of a transaction.  Every call may
  fail, as \<open>fault\<close> tells of its number; a removal that fails may have damaged the artifact.
  The history has the contents of the disk after every call that changed it.
\<close>

subsection \<open>The disk\<close>

type_synonym 'a contents = "string \<Rightarrow> 'a option"

record 'a disk =
  dk_files :: "'a contents"
  dk_calls :: nat
  dk_history :: "'a contents list"

record 'a disk_faults =
  df_fault :: "nat \<Rightarrow> string option"
  df_damage :: "'a \<Rightarrow> 'a"

datatype xtask_error = Xt_Io string string | Xt_Other string

fun xtask_error_display :: "xtask_error \<Rightarrow> string" where
  "xtask_error_display (Xt_Io path source) = ''io error at '' @ path @ '': '' @ source"
| "xtask_error_display (Xt_Other t) = t"

text \<open>A system call: \<open>change\<close> gives the new contents, or the error of the call.\<close>

definition disk_call ::
    "'a disk_faults \<Rightarrow> ('a contents \<Rightarrow> string + 'a contents) \<Rightarrow> 'a disk \<Rightarrow> (string + unit) \<times> 'a disk" where
  "disk_call fs change w =
     (let w1 = w\<lparr>dk_calls := dk_calls w + 1\<rparr> in
      case df_fault fs (dk_calls w) of
        Some e \<Rightarrow> (Err e, w1)
      | None \<Rightarrow>
          (case change (dk_files w) of
             Inl e \<Rightarrow> (Err e, w1)
           | Inr files \<Rightarrow> (Ok (), w1\<lparr>dk_files := files, dk_history := files # dk_history w\<rparr>)))"

text \<open>\<open>Path::exists\<close> is false when its status call fails.\<close>

definition path_exists :: "'a disk_faults \<Rightarrow> string \<Rightarrow> 'a disk \<Rightarrow> bool \<times> 'a disk" where
  "path_exists fs path w =
     (df_fault fs (dk_calls w) = None \<and> dk_files w path \<noteq> None, w\<lparr>dk_calls := dk_calls w + 1\<rparr>)"

definition swap_change :: "string \<Rightarrow> string \<Rightarrow> 'a contents \<Rightarrow> string + 'a contents" where
  "swap_change left right files =
     (if files left = None \<or> files right = None then Err ''No such file or directory''
      else Ok (files(left := files right, right := files left)))"

text \<open>A bundle is a directory with files: a rename cannot replace one.\<close>

definition rename_change :: "string \<Rightarrow> string \<Rightarrow> 'a contents \<Rightarrow> string + 'a contents" where
  "rename_change source destination files =
     (if files source = None then Err ''No such file or directory''
      else if source = destination then Ok files
      else if files destination \<noteq> None then Err ''Directory not empty''
      else Ok (files(destination := files source, source := None)))"

definition path_c_string :: "string \<Rightarrow> xtask_error + string" where
  "path_c_string path =
     (if CHR 0x00 \<in> set path
      then Err (Xt_Io path (''nul byte found in provided data at position: ''
                  @ string_of_nat (length (takeWhile (\<lambda>c. c \<noteq> CHR 0x00) path))))
      else Ok path)"

definition exchange_paths :: "'a disk_faults \<Rightarrow> string \<Rightarrow> string \<Rightarrow> 'a disk \<Rightarrow> (xtask_error + unit) \<times> 'a disk" where
  "exchange_paths fs left right w =
     (case path_c_string left of
        Inl e \<Rightarrow> (Err e, w)
      | Inr left_c \<Rightarrow>
          (case path_c_string right of
             Inl e \<Rightarrow> (Err e, w)
           | Inr right_c \<Rightarrow>
               (case disk_call fs (swap_change left_c right_c) w of
                  (Inl e, w) \<Rightarrow> (Err (Xt_Io right e), w)
                | (Inr _, w) \<Rightarrow> (Ok (), w))))"

definition rename_path :: "'a disk_faults \<Rightarrow> string \<Rightarrow> string \<Rightarrow> 'a disk \<Rightarrow> (xtask_error + unit) \<times> 'a disk" where
  "rename_path fs source_path destination w =
     (case disk_call fs (rename_change source_path destination) w of
        (Inl e, w) \<Rightarrow> (Err (Xt_Io destination e), w)
      | (Inr _, w) \<Rightarrow> (Ok (), w))"

text \<open>
  Removing a bundle is a status call, which may fail, and a recursive removal; a path without an
  entry is removed already.
\<close>

definition remove_existing_path :: "'a disk_faults \<Rightarrow> string \<Rightarrow> 'a disk \<Rightarrow> (xtask_error + unit) \<times> 'a disk" where
  "remove_existing_path fs path w =
     (case disk_call fs Ok w of
        (Inl e, w) \<Rightarrow> (Err (Xt_Io path e), w)
      | (Inr _, w) \<Rightarrow>
          (case dk_files w path of
             None \<Rightarrow> (Ok (), w)
           | Some a \<Rightarrow>
               (case disk_call fs (\<lambda>files. Ok (files(path := None))) w of
                  (Inl e, w) \<Rightarrow>
                    (let files = (dk_files w)(path \<mapsto> df_damage fs a)
                     in (Err (Xt_Io path e), w\<lparr>dk_files := files, dk_history := files # dk_history w\<rparr>))
                | (Inr _, w) \<Rightarrow> (Ok (), w))))"

subsection \<open>The transaction\<close>

definition rollback_failure :: "string \<Rightarrow> xtask_error \<Rightarrow> xtask_error \<Rightarrow> xtask_error" where
  "rollback_failure staged verify_error rollback_error =
     Xt_Io staged (''installed bundle failed readback ('' @ xtask_error_display verify_error
       @ ''); rollback also failed ('' @ xtask_error_display rollback_error @ ''); recovery artifact preserved'')"

text \<open>\<open>.err().map(|_| staged)\<close>\<close>

definition recovery_of :: "string \<Rightarrow> (xtask_error + unit) \<times> 'a disk \<Rightarrow> string option \<times> 'a disk" where
  "recovery_of staged r = (case fst r of Inl _ \<Rightarrow> Some staged | Inr _ \<Rightarrow> None, snd r)"

definition retire_prior_bundle ::
    "'a disk_faults \<Rightarrow> string \<Rightarrow> string \<Rightarrow> bool \<Rightarrow> 'a disk \<Rightarrow> string option \<times> 'a disk" where
  "retire_prior_bundle fs staged backup no_backup w =
     (if no_backup then recovery_of staged (remove_existing_path fs staged w)
      else (case path_exists fs backup w of
              (True, w) \<Rightarrow>
                (case exchange_paths fs staged backup w of
                   (Inl _, w) \<Rightarrow> (Some staged, w)
                 | (Inr _, w) \<Rightarrow> recovery_of staged (remove_existing_path fs staged w))
            | (False, w) \<Rightarrow> recovery_of staged (rename_path fs staged backup w)))"

record commit_outcome =
  co_recovery_path :: "string option"

text \<open>\<open>verify\<close> checks the bundle at a path.\<close>

text \<open>The two ways to publish, with their rollbacks: the first installation and a replacement.\<close>

definition publish_first ::
    "'a disk_faults \<Rightarrow> (string \<Rightarrow> 'a option \<Rightarrow> xtask_error + unit) \<Rightarrow> string \<Rightarrow> string \<Rightarrow> 'a disk
      \<Rightarrow> (xtask_error + commit_outcome) \<times> 'a disk" where
  "publish_first fs verify staged installed w =
     (case rename_path fs staged installed w of
        (Inl e, w) \<Rightarrow> (Err e, w)
      | (Inr _, w) \<Rightarrow>
          (case verify installed (dk_files w installed) of
             Inl error \<Rightarrow>
               (case rename_path fs installed staged w of
                  (Inl rollback_error, w) \<Rightarrow> (Err (rollback_failure staged error rollback_error), w)
                | (Inr _, w) \<Rightarrow> (Err error, w))
           | Inr _ \<Rightarrow> (Ok \<lparr>co_recovery_path = None\<rparr>, w)))"

definition publish_replacement ::
    "'a disk_faults \<Rightarrow> (string \<Rightarrow> 'a option \<Rightarrow> xtask_error + unit) \<Rightarrow> string \<Rightarrow> string \<Rightarrow> string \<Rightarrow> bool \<Rightarrow> 'a disk
      \<Rightarrow> (xtask_error + commit_outcome) \<times> 'a disk" where
  "publish_replacement fs verify staged installed backup no_backup w =
     (case exchange_paths fs staged installed w of
        (Inl e, w) \<Rightarrow> (Err e, w)
      | (Inr _, w) \<Rightarrow>
          (case verify installed (dk_files w installed) of
             Inl error \<Rightarrow>
               (case exchange_paths fs staged installed w of
                  (Inl rollback_error, w) \<Rightarrow> (Err (rollback_failure staged error rollback_error), w)
                | (Inr _, w) \<Rightarrow> (Err error, w))
           | Inr _ \<Rightarrow>
               (let (recovery, w) = retire_prior_bundle fs staged backup no_backup w
                in (Ok \<lparr>co_recovery_path = recovery\<rparr>, w))))"

definition commit_staged_bundle ::
    "'a disk_faults \<Rightarrow> (string \<Rightarrow> 'a option \<Rightarrow> xtask_error + unit) \<Rightarrow> string \<Rightarrow> string \<Rightarrow> string \<Rightarrow> bool \<Rightarrow> 'a disk
      \<Rightarrow> (xtask_error + commit_outcome) \<times> 'a disk" where
  "commit_staged_bundle fs verify staged installed backup no_backup w =
     (case verify staged (dk_files w staged) of
        Inl e \<Rightarrow> (Err e, w)
      | Inr _ \<Rightarrow>
          (case path_exists fs installed w of
             (False, w) \<Rightarrow> publish_first fs verify staged installed w
           | (True, w) \<Rightarrow> publish_replacement fs verify staged installed backup no_backup w))"

subsection \<open>What each call does\<close>

text \<open>The disks that a part of the transaction passes through, after \<open>w\<close>.\<close>

definition passes :: "('a contents \<Rightarrow> bool) \<Rightarrow> 'a disk \<Rightarrow> 'a disk \<Rightarrow> bool" where
  "passes P w w' \<longleftrightarrow> (\<exists>ts. dk_history w' = ts @ dk_history w \<and> list_all P ts)"

lemma passes_same: "dk_history w' = dk_history w \<Longrightarrow> passes P w w'"
  by (simp add: passes_def)

lemma passes_cons: "passes P w w1 \<Longrightarrow> P t \<Longrightarrow> dk_history w' = t # dk_history w1 \<Longrightarrow> passes P w w'"
proof -
  assume p: "passes P w w1" "P t" "dk_history w' = t # dk_history w1"
  then obtain ts where "dk_history w1 = ts @ dk_history w" "list_all P ts" by (auto simp: passes_def)
  then show ?thesis using p unfolding passes_def by (intro exI[of _ "t # ts"]) simp
qed

lemma passes_trans: "passes P w w1 \<Longrightarrow> passes P w1 w2 \<Longrightarrow> passes P w w2"
proof -
  assume "passes P w w1" "passes P w1 w2"
  then obtain ts us where "dk_history w1 = ts @ dk_history w" "list_all P ts" "dk_history w2 = us @ dk_history w1" "list_all P us"
    by (auto simp: passes_def)
  then show ?thesis unfolding passes_def by (intro exI[of _ "us @ ts"]) simp
qed

definition unchanged :: "'a disk \<Rightarrow> 'a disk \<Rightarrow> bool" where
  "unchanged w w' \<longleftrightarrow> dk_files w' = dk_files w \<and> dk_history w' = dk_history w"

definition changed :: "'a contents \<Rightarrow> 'a disk \<Rightarrow> 'a disk \<Rightarrow> bool" where
  "changed files w w' \<longleftrightarrow> dk_files w' = files \<and> dk_history w' = files # dk_history w"

lemma disk_call_cases:
  obtains (failed) e where "disk_call fs change w = (Err e, w\<lparr>dk_calls := dk_calls w + 1\<rparr>)"
  | (ok) files w' where "disk_call fs change w = (Ok (), w')" "change (dk_files w) = Inr files" "changed files w w'"
proof (cases "df_fault fs (dk_calls w)")
  case None
  show ?thesis
  proof (cases "change (dk_files w)")
    case (Inl e)
    then show ?thesis using None by (intro failed) (simp add: disk_call_def Let_def)
  next
    case (Inr files)
    show ?thesis
      by (rule ok[of "w\<lparr>dk_calls := dk_calls w + 1, dk_files := files, dk_history := files # dk_history w\<rparr>" files])
        (use None Inr in \<open>simp_all add: disk_call_def Let_def changed_def\<close>)
  qed
next
  case (Some e)
  then show ?thesis by (intro failed) (simp add: disk_call_def Let_def)
qed

lemma exchange_cases:
  obtains (failed) e w' where "exchange_paths fs l r w = (Err e, w')" "unchanged w w'"
  | (ok) w' where "exchange_paths fs l r w = (Ok (), w')" "dk_files w l \<noteq> None" "dk_files w r \<noteq> None"
      "changed ((dk_files w)(l := dk_files w r, r := dk_files w l)) w w'"
proof (cases "path_c_string l")
  case (Inl e)
  then show ?thesis by (intro failed[of e w]) (simp_all add: exchange_paths_def unchanged_def)
next
  case l: (Inr x)
  show ?thesis
  proof (cases "path_c_string r")
    case (Inl e)
    then show ?thesis using l by (intro failed[of e w]) (simp_all add: exchange_paths_def unchanged_def)
  next
    case r: (Inr y)
    have "x = l" "y = r" using l r by (auto simp: path_c_string_def split: if_splits)
    then show ?thesis using l r failed ok
      by (cases rule: disk_call_cases[of fs "swap_change l r" w])
        (auto simp: exchange_paths_def unchanged_def swap_change_def split: if_splits)
  qed
qed

lemma rename_cases:
  assumes "s \<noteq> d"
  obtains (failed) e w' where "rename_path fs s d w = (Err e, w')" "unchanged w w'"
  | (ok) w' where "rename_path fs s d w = (Ok (), w')" "dk_files w s \<noteq> None" "dk_files w d = None"
      "changed ((dk_files w)(d := dk_files w s, s := None)) w w'"
  using failed ok assms
  by (cases rule: disk_call_cases[of fs "rename_change s d" w])
    (auto simp: rename_path_def unchanged_def rename_change_def split: if_splits)

text \<open>A removal changes nothing but its path, and has emptied it when it succeeds.\<close>

lemma remove_cases:
  obtains r w' where "remove_existing_path fs p w = (r, w')"
    "passes (\<lambda>t. \<forall>q. q \<noteq> p \<longrightarrow> t q = dk_files w q) w w'" "\<And>q. q \<noteq> p \<Longrightarrow> dk_files w' q = dk_files w q"
    "r = Inr () \<Longrightarrow> dk_files w' p = None"
proof (cases rule: disk_call_cases[of fs Ok w])
  case (failed e)
  then show ?thesis
    by (intro that[of "Inl (Xt_Io p e)" "w\<lparr>dk_calls := dk_calls w + 1\<rparr>"])
      (simp_all add: remove_existing_path_def passes_same)
next
  case (ok files w1)
  then have w1: "dk_files w1 = dk_files w" "dk_history w1 = dk_files w # dk_history w" by (simp_all add: changed_def)
  let ?P = "\<lambda>t. \<forall>q. q \<noteq> p \<longrightarrow> t q = dk_files w q"
  have p1: "passes ?P w w1" by (rule passes_cons[OF passes_same, of _ _ _ "dk_files w"]) (simp_all add: w1)
  show ?thesis
  proof (cases "dk_files w p")
    case None
    then show ?thesis using ok(1) w1 p1 by (intro that[of "Inr ()" w1]) (simp_all add: remove_existing_path_def)
  next
    case (Some a)
    show ?thesis
    proof (cases rule: disk_call_cases[of fs "\<lambda>files. Ok (files(p := None))" w1])
      case (failed e)
      let ?f = "(dk_files w)(p \<mapsto> df_damage fs a)"
      let ?w = "w1\<lparr>dk_calls := dk_calls w1 + 1, dk_files := ?f, dk_history := ?f # dk_history w1\<rparr>"
      have "remove_existing_path fs p w = (Inl (Xt_Io p e), ?w)"
        using ok(1) failed Some w1 by (simp add: remove_existing_path_def Let_def)
      moreover have "passes ?P w ?w" by (rule passes_cons[OF p1, of ?f]) simp_all
      ultimately show ?thesis by (rule that) simp_all
    next
      case ok2: (ok files w2)
      have "remove_existing_path fs p w = (Inr (), w2)"
        using ok(1) ok2(1) Some w1 by (simp add: remove_existing_path_def)
      moreover have "passes ?P w w2" by (rule passes_cons[OF p1, of files]) (use ok2 w1 in \<open>auto simp: changed_def\<close>)
      ultimately show ?thesis by (rule that) (use ok2 w1 in \<open>auto simp: changed_def\<close>)
    qed
  qed
qed

subsection \<open>The transaction is safe at every moment\<close>

lemma passes_mono: "passes P w w' \<Longrightarrow> (\<And>t. P t \<Longrightarrow> Q t) \<Longrightarrow> passes Q w w'"
  unfolding passes_def by (metis (mono_tags, lifting) list.pred_mono_strong)

lemma path_exists_frame [simp]:
  "dk_files (snd (path_exists fs p w)) = dk_files w" "dk_history (snd (path_exists fs p w)) = dk_history w"
  by (simp_all add: path_exists_def)

text \<open>Retiring the prior bundle \<open>a\<close> at \<open>staged\<close> keeps it while a backup is wanted.\<close>

definition retiring :: "string \<Rightarrow> string \<Rightarrow> bool \<Rightarrow> 'a contents \<Rightarrow> 'a contents \<Rightarrow> bool" where
  "retiring staged backup no_backup before t \<longleftrightarrow>
     (\<forall>q. q \<noteq> staged \<longrightarrow> q \<noteq> backup \<longrightarrow> t q = before q)
   \<and> (no_backup \<or> t staged = before staged \<or> t backup = before staged)"

lemma retire_spec:
  assumes "staged \<noteq> backup"
    and "retire_prior_bundle fs staged backup no_backup w = (recovery, w')"
  shows "passes (retiring staged backup no_backup (dk_files w)) w w'"
    and "retiring staged backup no_backup (dk_files w) (dk_files w')"
    and "no_backup \<or> dk_files w' backup = dk_files w staged \<or> dk_files w' staged = dk_files w staged \<and> recovery = Some staged"
    and "recovery = None \<Longrightarrow> dk_files w' staged = None"
proof -
  let ?R = "retiring staged backup no_backup (dk_files w)"
  have "passes ?R w w' \<and> ?R (dk_files w')
      \<and> (no_backup \<or> dk_files w' backup = dk_files w staged \<or> dk_files w' staged = dk_files w staged \<and> recovery = Some staged)
      \<and> (recovery = None \<longrightarrow> dk_files w' staged = None)"
  proof (cases no_backup)
    case True
    show ?thesis
    proof (cases rule: remove_cases[of fs staged w])
      case (1 r w1)
      have r: "w' = w1" "recovery = (case r of Inl _ \<Rightarrow> Some staged | Inr _ \<Rightarrow> None)"
        using assms(2) True 1(1) by (auto simp: retire_prior_bundle_def recovery_of_def)
      have R: "?R t" if "\<forall>q. q \<noteq> staged \<longrightarrow> t q = dk_files w q" for t
        using that True by (auto simp: retiring_def)
      show ?thesis using passes_mono[OF 1(2) R] R[of "dk_files w1"] 1(3,4) r True by (auto split: sum.splits)
    qed
  next
    case keep: False
    obtain b w1 where b: "path_exists fs backup w = (b, w1)" by fastforce
    then have w1: "dk_files w1 = dk_files w" "dk_history w1 = dk_history w" by (auto simp: path_exists_def)
    show ?thesis
    proof (cases b)
      case False
      show ?thesis
      proof (cases rule: rename_cases[OF assms(1), of fs w1, case_names failed ok])
        case (failed e w2)
        then have "w' = w2" "recovery = Some staged"
          using assms(2) keep b False by (auto simp: retire_prior_bundle_def recovery_of_def)
        then show ?thesis using failed(2) w1 by (auto simp: unchanged_def retiring_def passes_same)
      next
        case (ok w2)
        then have r: "w' = w2" "recovery = None"
          using assms(2) keep b False by (auto simp: retire_prior_bundle_def recovery_of_def)
        have f: "dk_files w2 = (dk_files w)(backup := dk_files w staged, staged := None)" "dk_history w2 = dk_files w2 # dk_history w"
          using ok(4) w1 by (simp_all add: changed_def)
        have R: "?R (dk_files w2)" using assms(1) f(1) by (auto simp: retiring_def)
        show ?thesis using passes_cons[where P = ?R, OF passes_same R f(2)] R f(1) r assms(1) by simp
      qed
    next
      case True
      show ?thesis
      proof (cases rule: exchange_cases[of fs staged backup w1])
        case (failed e w2)
        then have "w' = w2" "recovery = Some staged"
          using assms(2) keep b True by (auto simp: retire_prior_bundle_def)
        then show ?thesis using failed(2) w1 by (auto simp: unchanged_def retiring_def passes_same)
      next
        case (ok w2)
        have f: "dk_files w2 = (dk_files w)(staged := dk_files w backup, backup := dk_files w staged)" "dk_history w2 = dk_files w2 # dk_history w"
          using ok(4) w1 by (simp_all add: changed_def)
        have R: "?R (dk_files w2)" using assms(1) f(1) by (auto simp: retiring_def)
        have p2: "passes ?R w w2" by (rule passes_cons[where P = ?R, OF passes_same R f(2)]) simp
        show ?thesis
        proof (cases rule: remove_cases[of fs staged w2])
          case (1 r w3)
          have r: "w' = w3" "recovery = (case r of Inl _ \<Rightarrow> Some staged | Inr _ \<Rightarrow> None)"
            using assms(2) keep b True ok(1) 1(1) by (auto simp: retire_prior_bundle_def recovery_of_def)
          have R3: "?R t" if "\<forall>q. q \<noteq> staged \<longrightarrow> t q = dk_files w2 q" for t
            using that assms(1) f(1) by (auto simp: retiring_def)
          have "passes ?R w w3" by (rule passes_trans[OF p2 passes_mono[OF 1(2) R3]])
          moreover have "dk_files w3 backup = dk_files w staged" using 1(3)[of backup] assms(1) f(1) by simp
          ultimately show ?thesis using R3[of "dk_files w3"] 1(3,4) r by (auto split: sum.splits)
        qed
      qed
    qed
  qed
  then show "passes ?R w w'" "?R (dk_files w')"
    "no_backup \<or> dk_files w' backup = dk_files w staged \<or> dk_files w' staged = dk_files w staged \<and> recovery = Some staged"
    "recovery = None \<Longrightarrow> dk_files w' staged = None" by blast+
qed

text \<open>
  The contents a transaction passes through: at the installed path there is the prior bundle (or
  nothing, when there was none) or the staged one; the prior bundle is at one of the three paths
  when a backup is wanted; everything else is as before.
\<close>

definition safe_contents ::
    "string \<Rightarrow> string \<Rightarrow> string \<Rightarrow> bool \<Rightarrow> 'a contents \<Rightarrow> 'a contents \<Rightarrow> bool" where
  "safe_contents staged installed backup no_backup before t \<longleftrightarrow>
     (t installed = before installed \<or> t installed = before staged)
   \<and> (no_backup \<or> before installed \<in> {t installed, t staged, t backup})
   \<and> (\<forall>q. q \<noteq> staged \<longrightarrow> q \<noteq> installed \<longrightarrow> q \<noteq> backup \<longrightarrow> t q = before q)"

definition swapped :: "string \<Rightarrow> string \<Rightarrow> 'a contents \<Rightarrow> 'a contents" where
  "swapped p q files = files(p := files q, q := files p)"

lemma safe_before [simp]: "safe_contents s i b n before before"
  by (simp add: safe_contents_def)

lemma safe_swapped: "s \<noteq> i \<Longrightarrow> safe_contents s i b n before (swapped s i before)"
  by (auto simp: safe_contents_def swapped_def)

lemma safe_retiring:
  assumes "s \<noteq> i" "b \<noteq> i" "s \<noteq> b" "retiring s b n (swapped s i before) t"
  shows "safe_contents s i b n before t"
  using assms by (auto simp: safe_contents_def swapped_def retiring_def)

text \<open>
  The rollback was attempted on the published contents as the last call, and failed with an error.
\<close>

definition rollback_failed ::
    "'a disk_faults \<Rightarrow> string \<Rightarrow> string \<Rightarrow> 'a contents \<Rightarrow> xtask_error \<Rightarrow> 'a disk \<Rightarrow> bool" where
  "rollback_failed fs staged installed before rollback_error w' \<longleftrightarrow>
     (\<exists>w. dk_files w = swapped staged installed before
        \<and> (if before installed = None then rename_path fs installed staged w else exchange_paths fs staged installed w)
          = (Err rollback_error, w'))"

text \<open>How a transaction ends.\<close>

definition commit_result ::
    "'a disk_faults \<Rightarrow> (string \<Rightarrow> 'a option \<Rightarrow> xtask_error + unit) \<Rightarrow> string \<Rightarrow> string \<Rightarrow> string \<Rightarrow> bool \<Rightarrow> 'a contents
      \<Rightarrow> (xtask_error + commit_outcome) \<Rightarrow> 'a disk \<Rightarrow> bool" where
  "commit_result fs verify staged installed backup no_backup before r w \<longleftrightarrow>
     (case r of
        Inl e \<Rightarrow>
          dk_files w = before
        \<or> dk_files w = swapped staged installed before
          \<and> (\<exists>verify_error rollback_error. verify installed (before staged) = Err verify_error
               \<and> rollback_failed fs staged installed before rollback_error w
               \<and> e = rollback_failure staged verify_error rollback_error)
      | Inr out \<Rightarrow>
          verify installed (before staged) = Ok ()
        \<and> dk_files w installed = before staged
        \<and> (before installed = None \<or> no_backup \<or> dk_files w backup = before installed
             \<or> dk_files w staged = before installed \<and> co_recovery_path out = Some staged)
        \<and> (dk_files w staged = None \<or> co_recovery_path out = Some staged))"

lemma publish_first_spec:
  assumes "staged \<noteq> installed"
    and "publish_first fs verify staged installed w = (r, w')"
  shows "passes (safe_contents staged installed backup no_backup (dk_files w)) w w'"
    and "commit_result fs verify staged installed backup no_backup (dk_files w) r w'"
proof -
  let ?S = "safe_contents staged installed backup no_backup (dk_files w)"
  let ?C = "commit_result fs verify staged installed backup no_backup (dk_files w)"
  have "passes ?S w w' \<and> ?C r w'"
  proof (cases rule: rename_cases[OF assms(1), of fs w, case_names failed ok])
    case (failed e w1)
    then show ?thesis using assms(2) by (auto simp: publish_first_def unchanged_def passes_same commit_result_def)
  next
    case (ok w1)
    have f: "dk_files w1 = swapped staged installed (dk_files w)" "dk_history w1 = dk_files w1 # dk_history w"
      using ok(3,4) assms(1) by (auto simp: changed_def swapped_def fun_eq_iff)
    have p1: "passes ?S w w1"
      by (rule passes_cons[OF passes_same _ f(2)]) (simp_all add: f(1) safe_swapped[OF assms(1)])
    show ?thesis
    proof (cases "verify installed (dk_files w1 installed)")
      case (Inr u)
      then have "r = Inr \<lparr>co_recovery_path = None\<rparr>" "w' = w1" using assms(2) ok(1) by (simp_all add: publish_first_def)
      then show ?thesis using p1 Inr f(1) ok(3) assms(1) by (simp add: commit_result_def swapped_def)
    next
      case (Inl error)
      show ?thesis
      proof (cases rule: rename_cases[OF assms(1)[symmetric], of fs w1, case_names failed ok])
        case (failed e w2)
        then have r: "r = Inl (rollback_failure staged error e)" "w' = w2" using assms(2) ok(1) Inl by (simp_all add: publish_first_def)
        have "verify installed (dk_files w staged) = Err error" using Inl f(1) assms(1) by (simp add: swapped_def)
        moreover have "rollback_failed fs staged installed (dk_files w) e w2"
          unfolding rollback_failed_def by (intro exI[of _ w1]) (simp add: f(1) ok(3) failed(1))
        moreover have "dk_files w2 = swapped staged installed (dk_files w)" using failed(2) f(1) by (simp add: unchanged_def)
        ultimately show ?thesis using passes_trans[OF p1 passes_same] failed(2) r by (auto simp: unchanged_def commit_result_def)
      next
        case ok2: (ok w2)
        have r: "r = Inl error" "w' = w2" using assms(2) ok(1) ok2(1) Inl by (simp_all add: publish_first_def)
        have restored: "dk_files w2 = dk_files w"
          using ok2(3,4) f(1) ok(3) assms(1) by (auto simp: changed_def swapped_def fun_eq_iff)
        have "passes ?S w w2" by (rule passes_cons[OF p1, of "dk_files w2"]) (use ok2(4) restored in \<open>simp_all add: changed_def\<close>)
        then show ?thesis using r restored by (simp add: commit_result_def)
      qed
    qed
  qed
  then show "passes ?S w w'" "?C r w'" by blast+
qed

lemma publish_replacement_spec:
  assumes "staged \<noteq> installed" "backup \<noteq> installed" "staged \<noteq> backup"
    and "publish_replacement fs verify staged installed backup no_backup w = (r, w')"
  shows "passes (safe_contents staged installed backup no_backup (dk_files w)) w w'"
    and "commit_result fs verify staged installed backup no_backup (dk_files w) r w'"
proof -
  let ?S = "safe_contents staged installed backup no_backup (dk_files w)"
  let ?C = "commit_result fs verify staged installed backup no_backup (dk_files w)"
  have "passes ?S w w' \<and> ?C r w'"
  proof (cases rule: exchange_cases[of fs staged installed w])
    case (failed e w1)
    then show ?thesis using assms(4) by (auto simp: publish_replacement_def unchanged_def passes_same commit_result_def)
  next
    case (ok w1)
    have f: "dk_files w1 = swapped staged installed (dk_files w)" "dk_history w1 = dk_files w1 # dk_history w"
      using ok(4) by (auto simp: changed_def swapped_def)
    have p1: "passes ?S w w1"
      by (rule passes_cons[OF passes_same _ f(2)]) (simp_all add: f(1) safe_swapped[OF assms(1)])
    show ?thesis
    proof (cases "verify installed (dk_files w1 installed)")
      case (Inr u)
      obtain rec w2 where rt: "retire_prior_bundle fs staged backup no_backup w1 = (rec, w2)" by fastforce
      then have r: "r = Inr \<lparr>co_recovery_path = rec\<rparr>" "w' = w2" using assms(4) ok(1) Inr by (simp_all add: publish_replacement_def)
      note spec = retire_spec[OF assms(3) rt, unfolded f(1)]
      have safe: "?S t" if "retiring staged backup no_backup (swapped staged installed (dk_files w)) t" for t
        by (rule safe_retiring[OF assms(1-3) that])
      have "dk_files w2 installed = dk_files w staged"
        using spec(2) assms(1,2) by (simp add: retiring_def swapped_def)
      moreover have "verify installed (dk_files w staged) = Ok ()" using Inr f(1) by (simp add: swapped_def)
      moreover have "rec = None \<or> rec = Some staged"
        using rt by (auto simp: retire_prior_bundle_def recovery_of_def split: if_splits prod.splits sum.splits bool.splits)
      ultimately have "?C r w2"
        using spec(3,4) r assms(1) by (auto simp: commit_result_def swapped_def)
      then show ?thesis using passes_trans[OF p1 passes_mono[OF spec(1) safe]] r by simp
    next
      case (Inl error)
      show ?thesis
      proof (cases rule: exchange_cases[of fs staged installed w1])
        case (failed e w2)
        then have r: "r = Inl (rollback_failure staged error e)" "w' = w2" using assms(4) ok(1) Inl by (simp_all add: publish_replacement_def)
        have "verify installed (dk_files w staged) = Err error" using Inl f(1) assms(1) by (simp add: swapped_def)
        moreover have "rollback_failed fs staged installed (dk_files w) e w2"
          unfolding rollback_failed_def using ok(2,3) failed(1) by (intro exI[of _ w1]) (auto simp: f(1))
        moreover have "dk_files w2 = swapped staged installed (dk_files w)" using failed(2) f(1) by (simp add: unchanged_def)
        ultimately show ?thesis using passes_trans[OF p1 passes_same] failed(2) r by (auto simp: unchanged_def commit_result_def)
      next
        case ok2: (ok w2)
        have r: "r = Inl error" "w' = w2" using assms(4) ok(1) ok2(1) Inl by (simp_all add: publish_replacement_def)
        have restored: "dk_files w2 = dk_files w"
          using ok2(4) f(1) assms(1) by (auto simp: changed_def swapped_def fun_eq_iff)
        have "passes ?S w w2" by (rule passes_cons[OF p1, of "dk_files w2"]) (use ok2(4) restored in \<open>simp_all add: changed_def\<close>)
        then show ?thesis using r restored by (simp add: commit_result_def)
      qed
    qed
  qed
  then show "passes ?S w w'" "?C r w'" by blast+
qed

text \<open>C21: An installation is a transaction, whatever system calls fail in it. After every call that
  changes the disk the installed path has the complete prior bundle or the complete staged one, and
  the prior bundle is still at one of the three paths unless no backup is wanted; no other path is
  touched. When the transaction fails, the disk is as before; or the published bundle has failed its
  verification, the rollback was attempted as the last call and has failed as well, so that the
  staged bundle is installed and the prior one preserved at the staging path, and the error says
  so, with both errors and that path. When it succeeds, the staged bundle is installed and has
  passed the verification there, the prior one is the backup or is preserved at the staging path,
  which is then reported, and otherwise nothing is left there.\<close>

theorem install_transactional:
  assumes "staged \<noteq> installed" "backup \<noteq> installed" "staged \<noteq> backup"
    and "commit_staged_bundle fs verify staged installed backup no_backup w = (r, w')"
  shows "passes (safe_contents staged installed backup no_backup (dk_files w)) w w'
    \<and> commit_result fs verify staged installed backup no_backup (dk_files w) r w'"
proof -
  let ?S = "safe_contents staged installed backup no_backup (dk_files w)"
  let ?C = "commit_result fs verify staged installed backup no_backup (dk_files w)"
  show "passes ?S w w' \<and> ?C r w'"
  proof (cases "verify staged (dk_files w staged)")
    case (Inl e)
    then show ?thesis using assms(4) by (auto simp: commit_staged_bundle_def passes_same commit_result_def)
  next
    case (Inr u)
    obtain present w1 where e: "path_exists fs installed w = (present, w1)" by fastforce
    then have w1: "dk_files w1 = dk_files w" "dk_history w1 = dk_history w" by (auto simp: path_exists_def)
    have run: "(if present then publish_replacement fs verify staged installed backup no_backup w1
        else publish_first fs verify staged installed w1) = (r, w')"
      using assms(4) Inr e by (simp add: commit_staged_bundle_def split: bool.splits)
    have "passes ?S w1 w' \<and> ?C r w'"
    proof (cases present)
      case True
      then show ?thesis using publish_replacement_spec[OF assms(1-3)] run w1(1) by fastforce
    next
      case False
      then show ?thesis using publish_first_spec[OF assms(1)] run w1(1) by fastforce
    qed
    then show ?thesis using passes_trans[OF passes_same] w1(2) by fastforce
  qed
qed

text \<open>
  A replacement whose backup exchange fails: the prior bundle stays at the staging path.  And one
  that fails its readback, whose rollback fails too.
\<close>

definition sample_disk :: "nat disk" where
  "sample_disk = \<lparr>dk_files = [''s'' \<mapsto> 2, ''i'' \<mapsto> 1, ''b'' \<mapsto> 0], dk_calls = 0, dk_history = []\<rparr>"

definition sample_faults :: "nat \<Rightarrow> nat disk_faults" where
  "sample_faults k = \<lparr>df_fault = (\<lambda>n. if n = k then Some ''denied'' else None), df_damage = id\<rparr>"

definition sample_verify :: "string \<Rightarrow> nat option \<Rightarrow> xtask_error + unit" where
  "sample_verify path a = (if path = ''i'' then Err (Xt_Other ''bad'') else Ok ())"

lemma install_transactional_witness:
  "\<exists>r w' s v. commit_staged_bundle (sample_faults 3) (\<lambda>_ _. Ok ()) ''s'' ''i'' ''b'' False sample_disk = (r, w')
     \<and> commit_result (sample_faults 3) (\<lambda>_ _. Ok ()) ''s'' ''i'' ''b'' False (dk_files sample_disk) r w'
     \<and> r = Ok \<lparr>co_recovery_path = Some ''s''\<rparr> \<and> dk_files w' ''i'' = Some 2 \<and> dk_files w' ''s'' = Some 1
     \<and> commit_staged_bundle (sample_faults 2) sample_verify ''s'' ''i'' ''b'' False sample_disk = (s, v)
     \<and> commit_result (sample_faults 2) sample_verify ''s'' ''i'' ''b'' False (dk_files sample_disk) s v
     \<and> s = Err (rollback_failure ''s'' (Xt_Other ''bad'') (Xt_Io ''i'' ''denied'')) \<and> dk_files v ''i'' = Some 2 \<and> dk_files v ''s'' = Some 1"
proof -
  note steps = commit_staged_bundle_def publish_replacement_def retire_prior_bundle_def exchange_paths_def
      disk_call_def path_c_string_def swap_change_def path_exists_def sample_disk_def sample_faults_def Let_def
  obtain r w' where run: "commit_staged_bundle (sample_faults 3) (\<lambda>_ _. Ok ()) ''s'' ''i'' ''b'' False sample_disk = (r, w')" by fastforce
  have "r = Ok \<lparr>co_recovery_path = Some ''s''\<rparr> \<and> dk_files w' ''i'' = Some 2 \<and> dk_files w' ''s'' = Some 1"
    using run by (auto simp: steps)
  moreover obtain s v where run2: "commit_staged_bundle (sample_faults 2) sample_verify ''s'' ''i'' ''b'' False sample_disk = (s, v)" by fastforce
  have "s = Err (rollback_failure ''s'' (Xt_Other ''bad'') (Xt_Io ''i'' ''denied'')) \<and> dk_files v ''i'' = Some 2 \<and> dk_files v ''s'' = Some 1"
    using run2 by (auto simp: steps sample_verify_def)
  ultimately show ?thesis
    using install_transactional[OF _ _ _ run] install_transactional[OF _ _ _ run2] run run2 by auto
qed

end
