(* ===== verification/Spec2Isabelle.thy ===== *)
theory Spec2Isabelle
  imports Engine_Safety World_Events Worker_Pool Rpc_Service Client_Delivery Server_Connect Spawn_Args
    Connection_Driver Style_Overlay Module_Source Callback_Registry Diagnostic_Report
    Config_Diagnostics Socket_Guard Install_Commit
begin

text \<open>
  A verification development for hotki, a macOS hotkey application.

  The program.  A physical key event enters the event tap of \<open>mac-hotkey\<close>, which
  decides whether a registered hotkey matches and whether the event is swallowed.  The
  server (\<open>hotki-server\<close>) queues it on the worker of its registration id, and the worker
  calls the engine (\<open>hotki-engine\<close>).  The engine finds the binding of the key in the
  rendered mode stack (\<open>config\<close>), runs its action (a handler, whose effects it applies,
  a relayed chord, a process, a selector, a loop that repeats while the key is held),
  rebinds the hotkeys to the new mode and tells the UI.  The app (\<open>hotki-app\<close>) owns the
  server connection and shows what it is told.  \<open>hotki-world\<close> polls the platform for the
  focused window and displays, which decide what the engine renders.

  Theories and code, in the order of their dependencies.
  Prelude.  \<open>Hotki_Prelude\<close> (results as sums, list, word and map lemmas), \<open>Hotki_Maps\<close>
  (association lists as maps), \<open>Hotki_Text\<close> (text splitting and ASCII case).
  Keys (\<open>mac-keycode\<close>).  \<open>Key_Enum\<close>, \<open>Keycode\<close>: keys, modifiers, chords and their texts.
  Hotkeys (\<open>mac-hotkey\<close>).  \<open>Hotkey_Manager\<close>: the registration table and the tap
  callback, under every interleaving of the two.
  Messages (\<open>hotki-protocol\<close>).  \<open>Protocol_Types\<close>; \<open>Rpc_Protocol\<close>: methods, payloads and typed
  errors of the calls.
  Configuration (\<open>config\<close>).  \<open>Config_Types\<close>, \<open>Action_Ctx\<close>, \<open>Menu_Builder\<close>,
  \<open>Config_Runtime\<close>, \<open>Mode_Stack\<close>: the values and calls a configuration script may make,
  the handlers' effects and the rendering of a mode stack.  The Luau machine is the
  parameter \<open>vm_ops\<close>: any function of script calls.  \<open>Style_Overlay\<close>: style files merged over
  the default style.  \<open>Module_Source\<close>: the modules a configuration may load.
  \<open>Callback_Registry\<close>: script functions kept by the engine of the script.
  \<open>Config_Diagnostics\<close>: located errors and the check of a style file.
  Engine parts (\<open>hotki-engine\<close>, \<open>relaykey\<close>).  \<open>Key_Binding\<close> (registering what is wanted,
  all or nothing), \<open>Key_State\<close>, \<open>Relay\<close>, \<open>Ui_Channel\<close>, \<open>Engine_Error\<close>, \<open>Process_Run\<close>,
  \<open>Repeater\<close>, \<open>Selector\<close>, \<open>Runtime_State\<close>.
  Engine.  \<open>Engine_State\<close> (the state behind its locks, as one record, and its
  environment), \<open>Refresh\<close> (configuration installs and rebinds with their rollbacks),
  \<open>Engine_Actions\<close> (effects, selectors, ticks), \<open>Engine_Dispatch\<close> (a key event from its
  registration to its action), \<open>Engine_Invariant\<close> (steps, reachability and the
  invariant), \<open>Engine_Safety\<close> (the properties that span its parts).
  World (\<open>hotki-world\<close>).  \<open>World_State\<close>, \<open>World_Poll\<close>, \<open>World_Events\<close>: snapshots, the poll
  loop and the event hub.
  Server (\<open>hotki-server\<close>).  \<open>Worker_Pool\<close>: the per-hotkey workers.  \<open>Server_Lifecycle\<close>:
  clients, broadcasts, shutdown, and the idle timer of the main loop.  \<open>Socket_Guard\<close>: the
  socket file.  \<open>Rpc_Service\<close>: the calls of a client, from its codec to the engine and back.
  Client (\<open>hotki-server\<close>).  \<open>Client_Delivery\<close>: the events a client receives, ordered and
  coalesced.  \<open>Server_Process\<close>, \<open>Spawn_Args\<close>, \<open>Server_Connect\<close>: the server as a child process,
  its arguments, and the attempts to connect.
  App (\<open>hotki-app\<close>).  \<open>Runtime_Health\<close>, \<open>Ui_Delivery\<close> (the mailbox of the UI thread),
  \<open>Connection_Driver\<close> (the lifecycle of the connection), \<open>Hud_View\<close>, \<open>Notification_Center\<close>,
  \<open>App_Windows\<close> (the state of each surface), \<open>App_State\<close> (the commands and messages that
  reach them), \<open>Diagnostic_Report\<close> (support reports).
  Installation (\<open>xtask\<close>).  \<open>Install_Commit\<close>: the transaction that replaces the application.

  How code becomes definitions.  A struct is a record, an enum a datatype, a fallible
  function returns a sum whose left side is the error, and a method of a mutable value
  takes and returns the value.  Integers keep their width wherever they can wrap
  (ids, generations, sequences, counters, milliseconds); a \<open>usize\<close> that counts the
  elements of a list is a natural number.  An \<open>f32\<close> is its bit pattern.  Hash maps are
  association lists, or functions to options where no iteration order matters; where the
  code iterates over one, the order is a parameter that permutes the entries.  Code
  outside the repository is an argument: \<open>hotkey_api\<close> (what the binding manager calls),
  \<open>vm_ops\<close>, \<open>matcher_ops\<close> (the fuzzy matcher), \<open>engine_env\<close>, \<open>driver_env\<close>, the
  platform queries of a world snapshot.

  Atomicity.  The server runs on a single-threaded runtime: a step of a worker or of the
  poll loop reaches to its next await.  A dispatch or background step of the engine is one
  step, and their interleavings are those of \<open>engine_step\<close>: \<open>dispatch\<close> has no lock of its
  own, it shares that one thread, and what it awaits inside (a lock that is free, a focus
  refresh, a query) is answered before anything else runs.  Other operations that run at
  such an await are not modelled.  The event tap runs on a thread of its own, so the tap callback
  interleaves with single writes of the registration table.  The app's mailbox is
  shared by threads: a send is a step up to its first wait.

  What the lemmas show.  Keys: canonical texts and tables are inverse to their parsers.
  Hotkeys: ids are fresh, matching prefers interception, presses and releases pair up.
  Binding: an update is transactional over any registrar and never fails on the real
  manager.  Relay and repeater: what is pressed is released, what is held ends with its
  key.  Configuration: a builder has just what was declared, chords resolve to the nearest
  mode, handlers cannot exceed their permissions.  Engine: installs and failed rebinds
  are all or nothing, a release ends exactly what its press began, and reachable states
  are safe.  World: a refresh is answered in time by a snapshot taken after the request.
  Workers and mailbox: both refine queues.  Driver: shown health is the true health, and
  shutdown is clean.  Calls and events: a call is the engine's operation, events arrive once
  and in order; a failed connection leaves no server behind.  Surfaces: each presents the
  latest state or the override in force, notifications follow their history, reports show
  only what they are meant to show.  Files: the server removes only its own dead socket and
  changes nothing but the mode of that socket's directory, and an installation keeps the
  prior bundle at every moment.

  Interfaces as locales.  \<open>hotkey_registrar\<close> is what the binding manager needs of the
  registrations, interpreted on the real hotkey manager.  \<open>engine_ops\<close> and its extension
  \<open>engine_key_ops\<close> list the state changes that actions, effects and key events are made
  of: a predicate closed under them is kept by every action and key event.  They are
  interpreted for the engine's invariant and for the frame condition of a key; the
  properties use the interpreted facts.

  Bounds and fuel.  \<open>next_event_until\<close> retries a lagged receive with fuel two: a
  receive after a lag cannot lag again.  A refresh takes at most ten steps of the poll
  loop.  The id loop of registrations is a \<open>partial_function\<close>, proved to return while an
  id is free.  Workers are bounded to \<open>2 ^ 64 - 2\<close> generations, mailbox runs to fewer than
  \<open>2 ^ 64 - 1\<close> sends.

  Hypotheses on outside code.  \<open>broadcast_ok\<close>: the documented order and lag behaviour of
  a tokio broadcast channel.  \<open>env_ok\<close>: the environment's order functions permute
  what they are given.  \<open>env_works\<close>: permissions granted and calls
  answered, for the order of queued controls only.  \<open>carries\<close>: a payload codec decodes what
  it encodes.  \<open>os_ok\<close> and \<open>socket_os_ok\<close>: what a process and a file call does when it
  succeeds and when it fails.  \<open>runtime_ok\<close>: the script engine keeps a handle until it is
  released.  Each has an instance in a witness.

  Not modelled.  Painting, text measurement and the placement and animation of windows
  (floating point and a graphics library), display geometry, device I/O, logging, the byte
  format of the wire (a codec parameter), the Luau machine and its host glue (its values
  enter as the calls of \<open>vm_ops\<close>), the calls that load a configuration graph, developer
  fixtures, build tasks other than the installation, and the test harnesses.  The manifest
  lists each with its reason.
\<close>

end
